(* ===== verification/Prelude.thy ===== *)
theory Prelude
  imports Main "HOL-Library.Word"
begin

text \<open>
  Shared vocabulary of the development: machine integers of the Rust code, fallible
  computations as sums, runs of a fallible step, and the two interfaces several components
  share (a guarded step machine with an invariant, a byte budget). Everything here is
  independent of the program; the component theories instantiate it.
\<close>

section \<open>Collections of facts\<close>

named_theorems result_simps \<open>rewrite rules for fallible computations\<close>
named_theorems fold_simps \<open>definitions that fold an event into an item\<close>

section \<open>Machine integers\<close>

text \<open>
  Fields of type \<open>u32\<close> and \<open>u64\<close> keep their width. \<open>usize\<close> counts bytes and positions;
  it is a natural number with the 64-bit ceiling written out where the code checks it.
  \<open>i64\<close> is an integer, saturated where the code saturates.
\<close>

type_synonym u32 = "32 word"
type_synonym u64 = "64 word"
type_synonym usize = nat
type_synonym i64 = int

definition usize_max :: usize where
  "usize_max = 2 ^ 64 - 1"

definition usize_checked_add :: "usize \<Rightarrow> usize \<Rightarrow> usize option" where
  "usize_checked_add a b = (if a + b \<le> usize_max then Some (a + b) else None)"

definition usize_checked_sub :: "usize \<Rightarrow> usize \<Rightarrow> usize option" where
  "usize_checked_sub a b = (if b \<le> a then Some (a - b) else None)"

definition usize_saturating_add :: "usize \<Rightarrow> usize \<Rightarrow> usize" where
  "usize_saturating_add a b = min (a + b) usize_max"

definition u64_saturating_add :: "u64 \<Rightarrow> u64 \<Rightarrow> u64" where
  "u64_saturating_add a b = (if unat a + unat b < 2 ^ 64 then a + b else - 1)"

definition u32_of_u64 :: "u64 \<Rightarrow> u32 option" where
  "u32_of_u64 x = (if unat x < 2 ^ 32 then Some (ucast x) else None)"

definition u64_of_u32 :: "u32 \<Rightarrow> u64" where
  "u64_of_u32 x = ucast x"

definition u64_of_usize :: "usize \<Rightarrow> u64 option" where
  "u64_of_usize n = (if n < 2 ^ 64 then Some (of_nat n) else None)"

definition u32_of_usize :: "usize \<Rightarrow> u32 option" where
  "u32_of_usize n = (if n < 2 ^ 32 then Some (of_nat n) else None)"

definition i64_max :: i64 where
  "i64_max = 2 ^ 63 - 1"

definition i64_min :: i64 where
  "i64_min = - (2 ^ 63)"

definition i64_saturating_add :: "i64 \<Rightarrow> i64 \<Rightarrow> i64" where
  "i64_saturating_add a b = max i64_min (min i64_max (a + b))"

lemma usize_checked_add_Some [result_simps]:
  "usize_checked_add a b = Some c \<longleftrightarrow> c = a + b \<and> a + b \<le> usize_max"
  by (auto simp: usize_checked_add_def)

lemma usize_checked_sub_Some [result_simps]:
  "usize_checked_sub a b = Some c \<longleftrightarrow> b \<le> a \<and> c = a - b"
  by (auto simp: usize_checked_sub_def)

lemma unat_u64_of_u32 [simp]: "unat (u64_of_u32 x) = unat x"
  using unsigned_less [of x, where 'a = nat]
  by (simp add: u64_of_u32_def unsigned_ucast_eq take_bit_nat_eq_self)

lemma u32_of_u64_of_u32 [simp]: "u32_of_u64 (u64_of_u32 x) = Some x"
proof -
  have small: "unat x < 2 ^ 32"
    using unsigned_less [of x, where 'a = nat] by simp
  have "unat (ucast (u64_of_u32 x) :: u32) = unat x"
    using small by (simp add: unsigned_ucast_eq take_bit_nat_eq_self)
  then have "(ucast (u64_of_u32 x) :: u32) = x"
    by (simp add: word_unat_eq_iff)
  with small show ?thesis by (simp add: u32_of_u64_def)
qed

lemma u32_of_u64_SomeD: "u32_of_u64 x = Some y \<Longrightarrow> u64_of_u32 y = x"
  by (auto simp: u32_of_u64_def word_unat_eq_iff unsigned_ucast_eq take_bit_nat_eq_self
      split: if_splits)

lemma unat_u64_saturating_succ:
  "unat (u64_saturating_add a 1) = min (Suc (unat a)) (2 ^ 64 - 1)"
proof (cases "unat a + 1 < 2 ^ 64")
  case True
  then show ?thesis
    by (simp add: u64_saturating_add_def unat_word_ariths)
next
  case False
  moreover have "unat (- 1 :: u64) = 2 ^ 64 - 1"
    by (simp add: unsigned_minus_1_eq_mask mask_eq_exp_minus_1)
  ultimately show ?thesis
    by (simp add: u64_saturating_add_def)
qed

lemma i64_saturating_add_bounds:
  "i64_min \<le> i64_saturating_add a b \<and> i64_saturating_add a b \<le> i64_max"
  by (auto simp: i64_saturating_add_def i64_min_def i64_max_def)

section \<open>Fallible computations\<close>

text \<open>The \<open>?\<close> operator of the source: an error returns early.\<close>

definition and_then :: "'e + 'a \<Rightarrow> ('a \<Rightarrow> 'e + 'b) \<Rightarrow> 'e + 'b" where
  "and_then r f = (case r of Inl e \<Rightarrow> Inl e | Inr x \<Rightarrow> f x)"

lemma and_then_Inl [simp]: "and_then (Inl e) f = Inl e"
  by (simp add: and_then_def)

lemma and_then_Inr [simp]: "and_then (Inr x) f = f x"
  by (simp add: and_then_def)

lemma and_then_eq_Inr [result_simps]:
  "and_then r f = Inr y \<longleftrightarrow> (\<exists>x. r = Inr x \<and> f x = Inr y)"
  by (cases r) auto

lemma and_then_eq_Inl [result_simps]:
  "and_then r f = Inl e \<longleftrightarrow> r = Inl e \<or> (\<exists>x. r = Inr x \<and> f x = Inl e)"
  by (cases r) auto

lemma and_then_InrE [elim]:
  assumes "and_then r f = Inr y"
  obtains x where "r = Inr x" "f x = Inr y"
  using assms by (cases r) auto

lemma and_then_cong [fundef_cong]:
  "r = r' \<Longrightarrow> (\<And>x. r' = Inr x \<Longrightarrow> f x = g x) \<Longrightarrow> and_then r f = and_then r' g"
  by (cases r') auto

text \<open>\<open>ok_or\<close>, and \<open>collect\<close> of an iterator of results.\<close>

definition ok_or :: "'a option \<Rightarrow> 'e \<Rightarrow> 'e + 'a" where
  "ok_or o1 e = (case o1 of None \<Rightarrow> Inl e | Some x \<Rightarrow> Inr x)"

lemma ok_or_simps [simp]: "ok_or None e = Inl e" "ok_or (Some x) e = Inr x"
  by (simp_all add: ok_or_def)

lemma ok_or_eq_Inr [result_simps]: "ok_or o1 e = Inr x \<longleftrightarrow> o1 = Some x"
  by (cases o1) auto

fun collect_results :: "('e + 'a) list \<Rightarrow> 'e + 'a list" where
  "collect_results [] = Inr []"
| "collect_results (r # rs) =
     (case r of Inl e \<Rightarrow> Inl e
      | Inr x \<Rightarrow> (case collect_results rs of Inl e \<Rightarrow> Inl e | Inr xs \<Rightarrow> Inr (x # xs)))"

lemma collect_results_map_Inr [simp]: "collect_results (map Inr xs) = Inr xs"
  by (induction xs) auto

lemma collect_results_Inr: "collect_results rs = Inr xs \<longleftrightarrow> rs = map Inr xs"
proof
  show "collect_results rs = Inr xs \<Longrightarrow> rs = map Inr xs"
    by (induction rs arbitrary: xs) (auto split: sum.splits)
qed simp

section \<open>Options\<close>

lemma bind_eq_Some [result_simps]:
  "Option.bind o1 f = Some y \<longleftrightarrow> (\<exists>x. o1 = Some x \<and> f x = Some y)"
  by (cases o1) auto

definition filter_option :: "('a \<Rightarrow> bool) \<Rightarrow> 'a option \<Rightarrow> 'a option" where
  "filter_option p o1 = (case o1 of None \<Rightarrow> None | Some x \<Rightarrow> if p x then Some x else None)"

lemma filter_option_simps [simp]:
  "filter_option p None = None"
  "filter_option p (Some x) = (if p x then Some x else None)"
  by (simp_all add: filter_option_def)

lemma filter_option_eq_Some [result_simps]:
  "filter_option p o1 = Some x \<longleftrightarrow> o1 = Some x \<and> p x"
  by (cases o1) auto

definition or_else :: "'a option \<Rightarrow> 'a option \<Rightarrow> 'a option" where
  "or_else a b = (case a of None \<Rightarrow> b | Some x \<Rightarrow> Some x)"

lemma or_else_simps [simp]: "or_else None b = b" "or_else (Some x) b = Some x"
  by (simp_all add: or_else_def)

definition unwrap_or :: "'a option \<Rightarrow> 'a \<Rightarrow> 'a" where
  "unwrap_or o1 d = (case o1 of None \<Rightarrow> d | Some x \<Rightarrow> x)"

lemma unwrap_or_simps [simp]: "unwrap_or None d = d" "unwrap_or (Some x) d = x"
  by (simp_all add: unwrap_or_def)

section \<open>Decimal display\<close>

definition digit :: "nat \<Rightarrow> char" where
  "digit n = char_of (48 + n)"

function show_nat :: "nat \<Rightarrow> string" where
  "show_nat n = (if n < 10 then [digit n] else show_nat (n div 10) @ [digit (n mod 10)])"
  by auto
termination by (relation "measure id") auto

declare show_nat.simps [simp del]

section \<open>Runs of a fallible step\<close>

text \<open>
  The loops of the source feed inputs to a \<open>&mut self\<close> operation and stop at the first
  error. \<open>run_steps\<close> is that loop.
\<close>

fun run_steps :: "('s \<Rightarrow> 'i \<Rightarrow> 'e + 's) \<Rightarrow> 's \<Rightarrow> 'i list \<Rightarrow> 'e + 's" where
  "run_steps step s [] = Inr s"
| "run_steps step s (i # is) =
     (case step s i of Inl e \<Rightarrow> Inl e | Inr s' \<Rightarrow> run_steps step s' is)"

lemma run_steps_append:
  "run_steps step s (xs @ ys) =
     (case run_steps step s xs of Inl e \<Rightarrow> Inl e | Inr s' \<Rightarrow> run_steps step s' ys)"
  by (induction xs arbitrary: s) (auto split: sum.splits)

lemma run_steps_snoc:
  "run_steps step s (xs @ [x]) =
     (case run_steps step s xs of Inl e \<Rightarrow> Inl e | Inr s' \<Rightarrow> step s' x)"
  by (simp add: run_steps_append split: sum.splits)

lemma run_steps_ConsD:
  "run_steps step s (i # is) = Inr t \<Longrightarrow> \<exists>s'. step s i = Inr s' \<and> run_steps step s' is = Inr t"
  by (auto split: sum.splits)

text \<open>A step machine whose step keeps an invariant and never decreases a preorder.\<close>

locale guarded_machine =
  fixes step :: "'s \<Rightarrow> 'i \<Rightarrow> 'e + 's"
    and inv :: "'s \<Rightarrow> bool"
    and grows :: "'s \<Rightarrow> 's \<Rightarrow> bool"
  assumes inv_step: "inv s \<Longrightarrow> step s i = Inr s' \<Longrightarrow> inv s'"
    and grows_refl: "grows s s"
    and grows_trans: "grows s t \<Longrightarrow> grows t u \<Longrightarrow> grows s u"
    and grows_step: "inv s \<Longrightarrow> step s i = Inr s' \<Longrightarrow> grows s s'"
begin

lemma inv_run: "inv s \<Longrightarrow> run_steps step s is = Inr t \<Longrightarrow> inv t"
  by (induction "is" arbitrary: s) (auto dest: inv_step split: sum.splits)

lemma grows_run: "inv s \<Longrightarrow> run_steps step s is = Inr t \<Longrightarrow> grows s t"
proof (induction "is" arbitrary: s)
  case Nil
  then show ?case by (auto intro: grows_refl)
next
  case (Cons i "is")
  then obtain s' where s': "step s i = Inr s'" "run_steps step s' is = Inr t"
    by (blast dest: run_steps_ConsD)
  with Cons show ?case by (blast intro: grows_trans inv_step grows_step)
qed

end

section \<open>Byte budgets\<close>

text \<open>
  Three parts of the program cap bytes with a fallible charge: retained checkpoints, the
  executor response budget and the deferred stream buffer. The interface says that a
  charge is recorded exactly when the total still fits.
\<close>

locale byte_budget =
  fixes charge :: "'s \<Rightarrow> nat \<Rightarrow> 'e + 's"
    and spent :: "'s \<Rightarrow> nat"
    and cap :: "'s \<Rightarrow> nat"
    and ok :: "'s \<Rightarrow> bool"
  assumes charge_Inr: "ok s \<Longrightarrow> charge s n = Inr s' \<Longrightarrow>
      spent s' = spent s + n \<and> cap s' = cap s \<and> spent s' \<le> cap s' \<and> ok s'"
    and charge_Inl: "ok s \<Longrightarrow> charge s n = Inl e \<Longrightarrow> cap s < spent s + n"
begin

lemma charges_Inr:
  "ok s \<Longrightarrow> spent s \<le> cap s \<Longrightarrow> run_steps charge s ns = Inr t \<Longrightarrow>
     spent t = spent s + sum_list ns \<and> cap t = cap s \<and> spent t \<le> cap t \<and> ok t"
proof (induction ns arbitrary: s)
  case Nil
  then show ?case by simp
next
  case (Cons n ns)
  then obtain s' where s': "charge s n = Inr s'" "run_steps charge s' ns = Inr t"
    by (blast dest: run_steps_ConsD)
  with Cons.prems charge_Inr [of s n s'] Cons.IH [of s'] show ?case by auto
qed

lemma charges_iff_fits:
  "ok s \<Longrightarrow> spent s \<le> cap s \<Longrightarrow>
     (\<exists>t. run_steps charge s ns = Inr t) \<longleftrightarrow> spent s + sum_list ns \<le> cap s"
proof (induction ns arbitrary: s)
  case Nil
  then show ?case by simp
next
  case (Cons n ns)
  show ?case
  proof (cases "charge s n")
    case (Inl e)
    with Cons.prems charge_Inl [of s n e] show ?thesis by auto
  next
    case (Inr s')
    with Cons.prems charge_Inr [of s n s'] Cons.IH [of s'] show ?thesis
      by (simp add: add.assoc)
  qed
qed

end

end
