(* ===== verification/Index_Map.thy ===== *)
theory Index_Map
  imports Prelude
begin

text \<open>
  Maps that remember insertion order, as the code uses them (\<open>IndexMap\<close> in
  \<open>accumulator/slot.rs\<close> and \<open>pending_calls.rs\<close>, JSON objects under \<open>preserve_order\<close>):
  an association list whose keys are distinct. Replacing a value keeps its position, a new
  key goes to the end, \<open>shift_remove\<close> keeps the order of the others. The interface
  \<open>ordered_map\<close> states what the clients use.
\<close>

type_synonym ('k, 'v) index_map = "('k \<times> 'v) list"

definition im_wf :: "('k, 'v) index_map \<Rightarrow> bool" where
  "im_wf m \<longleftrightarrow> distinct (map fst m)"

definition im_get :: "('k, 'v) index_map \<Rightarrow> 'k \<Rightarrow> 'v option" where
  "im_get m k = map_of m k"

definition im_keys :: "('k, 'v) index_map \<Rightarrow> 'k list" where
  "im_keys m = map fst m"

fun im_insert :: "'k \<Rightarrow> 'v \<Rightarrow> ('k, 'v) index_map \<Rightarrow> ('k, 'v) index_map" where
  "im_insert k v [] = [(k, v)]"
| "im_insert k v ((k', v') # m) = (if k = k' then (k, v) # m else (k', v') # im_insert k v m)"

definition im_shift_remove :: "'k \<Rightarrow> ('k, 'v) index_map \<Rightarrow> ('k, 'v) index_map" where
  "im_shift_remove k m = filter (\<lambda>(k', _). k' \<noteq> k) m"

definition im_sort_keys :: "('k::linorder, 'v) index_map \<Rightarrow> ('k, 'v) index_map" where
  "im_sort_keys m = sort_key fst m"

lemma im_get_simps [simp]:
  "im_get [] k = None"
  "im_get ((k', v) # m) k = (if k = k' then Some v else im_get m k)"
  by (auto simp: im_get_def)

lemma im_wf_simps [simp]:
  "im_wf []"
  "im_wf ((k, v) # m) \<longleftrightarrow> k \<notin> set (im_keys m) \<and> im_wf m"
  by (auto simp: im_wf_def im_keys_def)

lemma im_keys_simps [simp]:
  "im_keys [] = []"
  "im_keys ((k, v) # m) = k # im_keys m"
  by (auto simp: im_keys_def)

lemma set_im_keys: "set (im_keys m) = fst ` set m"
  by (simp add: im_keys_def)

lemma im_get_None_iff: "im_get m k = None \<longleftrightarrow> k \<notin> set (im_keys m)"
  by (induction m) (auto split: if_splits)

lemma im_get_Some_key: "im_get m k = Some v \<Longrightarrow> k \<in> set (im_keys m)"
  by (metis im_get_None_iff option.discI)

lemma im_get_SomeD: "im_get m k = Some v \<Longrightarrow> (k, v) \<in> set m"
  by (simp add: im_get_def map_of_SomeD)

lemma im_get_Some_iff: "im_wf m \<Longrightarrow> im_get m k = Some v \<longleftrightarrow> (k, v) \<in> set m"
  by (simp add: im_get_def im_wf_def)

lemma im_get_insert [simp]: "im_get (im_insert k v m) k' = (if k' = k then Some v else im_get m k')"
  by (induction m) auto

lemma im_keys_insert: "im_keys (im_insert k v m) = (if k \<in> set (im_keys m) then im_keys m else im_keys m @ [k])"
  by (induction m) auto

lemma im_insert_new: "k \<notin> set (im_keys m) \<Longrightarrow> im_insert k v m = m @ [(k, v)]"
  by (induction m) auto

lemma im_wf_insert: "im_wf m \<Longrightarrow> im_wf (im_insert k v m)"
  by (simp add: im_wf_def im_keys_def [symmetric] im_keys_insert)

lemma im_get_remove [simp]: "im_get (im_shift_remove k m) k' = (if k' = k then None else im_get m k')"
  by (induction m) (auto simp: im_shift_remove_def)

lemma im_keys_remove: "im_keys (im_shift_remove k m) = filter (\<lambda>k'. k' \<noteq> k) (im_keys m)"
  by (induction m) (auto simp: im_shift_remove_def)

lemma im_wf_remove: "im_wf m \<Longrightarrow> im_wf (im_shift_remove k m)"
  by (simp add: im_wf_def im_keys_def [symmetric] im_keys_remove)

lemma im_keys_sort: "sorted (im_keys (im_sort_keys m))"
  by (simp add: im_keys_def im_sort_keys_def)

lemma set_im_sort [simp]: "set (im_sort_keys m) = set m"
  by (simp add: im_sort_keys_def)

lemma im_wf_sort: "im_wf m \<Longrightarrow> im_wf (im_sort_keys m)"
  by (simp add: im_wf_def im_sort_keys_def distinct_map)

lemma im_strict_sorted: "im_wf m \<Longrightarrow> sorted_wrt (<) (im_keys (im_sort_keys m))"
  using im_keys_sort im_wf_sort
  by (metis im_keys_def im_wf_def strict_sorted_iff)

text \<open>The interface the clients rely on.\<close>

locale ordered_map =
  fixes get :: "'m \<Rightarrow> 'k \<Rightarrow> 'v option"
    and insert :: "'k \<Rightarrow> 'v \<Rightarrow> 'm \<Rightarrow> 'm"
    and remove :: "'k \<Rightarrow> 'm \<Rightarrow> 'm"
    and keys :: "'m \<Rightarrow> 'k list"
    and wf :: "'m \<Rightarrow> bool"
  assumes get_insert: "wf m \<Longrightarrow> get (insert k v m) k' = (if k' = k then Some v else get m k')"
    and get_remove: "wf m \<Longrightarrow> get (remove k m) k' = (if k' = k then None else get m k')"
    and wf_insert: "wf m \<Longrightarrow> wf (insert k v m)"
    and wf_remove: "wf m \<Longrightarrow> wf (remove k m)"
    and wf_distinct: "wf m \<Longrightarrow> distinct (keys m)"
    and keys_iff: "wf m \<Longrightarrow> k \<in> set (keys m) \<longleftrightarrow> get m k \<noteq> None"
    and keys_fresh: "wf m \<Longrightarrow> get m k = None \<Longrightarrow> keys (insert k v m) = keys m @ [k]"
    and keys_removed: "wf m \<Longrightarrow> keys (remove k m) = filter (\<lambda>k'. k' \<noteq> k) (keys m)"
begin

lemma remove_insert_fresh:
  "wf m \<Longrightarrow> get m k = None \<Longrightarrow> keys (remove k (insert k v m)) = keys m"
  using keys_removed [OF wf_insert] keys_fresh keys_iff
  by (auto simp: filter_id_conv)

lemma insert_then_removes:
  "wf m \<Longrightarrow> get m k = None \<Longrightarrow>
   keys (insert k v m) = keys m @ [k] \<and> set (keys (insert k v m)) = Set.insert k (set (keys m))"
  by (simp add: keys_fresh)

end

interpretation im: ordered_map im_get im_insert im_shift_remove im_keys im_wf
proof unfold_locales
  fix m :: "('a, 'b) index_map" and k
  show "im_wf m \<Longrightarrow> distinct (im_keys m)"
    by (simp add: im_wf_def im_keys_def)
  show "im_wf m \<Longrightarrow> k \<in> set (im_keys m) \<longleftrightarrow> im_get m k \<noteq> None"
    by (simp add: im_get_None_iff)
qed (simp_all add: im_wf_insert im_wf_remove im_keys_remove im_keys_insert im_get_None_iff)

end
