(* ===== verification/Json.thy ===== *)
theory Json
  imports Index_Map
begin

text \<open>
  JSON values as \<open>serde_json::Value\<close> holds them (feature \<open>preserve_order\<close>, so an object is
  an ordered map), and the accessors the code calls on them. Parsing and printing of JSON
  text belong to \<open>serde_json\<close> and are parameters of the definitions that use them.
\<close>

datatype json_number = PosInt u64 | NegInt int | Float string

datatype json =
    JNull
  | JBool bool
  | JNumber json_number
  | JString string
  | JArray "json list"
  | JObject "(string \<times> json) list"

type_synonym json_map = "(string, json) index_map"

text \<open>\<open>Value::get\<close>, \<open>value[key]\<close>, and the typed views.\<close>

fun as_object :: "json \<Rightarrow> json_map option" where
  "as_object (JObject m) = Some m"
| "as_object _ = None"

fun as_array :: "json \<Rightarrow> json list option" where
  "as_array (JArray xs) = Some xs"
| "as_array _ = None"

fun as_str :: "json \<Rightarrow> string option" where
  "as_str (JString s) = Some s"
| "as_str _ = None"

fun as_u64 :: "json \<Rightarrow> u64 option" where
  "as_u64 (JNumber (PosInt n)) = Some n"
| "as_u64 _ = None"

definition json_get :: "json \<Rightarrow> string \<Rightarrow> json option" where
  "json_get j k = Option.bind (as_object j) (\<lambda>m. im_get m k)"

definition json_at :: "json \<Rightarrow> string \<Rightarrow> json" where
  "json_at j k = unwrap_or (json_get j k) JNull"

definition json_u32_value :: "u32 \<Rightarrow> json" where
  "json_u32_value n = JNumber (PosInt (u64_of_u32 n))"

fun json_insert :: "string \<Rightarrow> json \<Rightarrow> json \<Rightarrow> json" where
  "json_insert k v (JObject m) = JObject (im_insert k v m)"
| "json_insert k v j = j"

lemma size_json_object_value [simp]: "(k, v) \<in> set m \<Longrightarrow> size v < size_list (size_prod (\<lambda>_. 0) size) m"
  by (induction m) (auto simp: less_SucI trans_less_add2)

text \<open>
  Equality of values: objects are equal when they hold equal values under the same keys,
  whatever their order.
\<close>

function (sequential) json_eq :: "json \<Rightarrow> json \<Rightarrow> bool" where
  "json_eq (JArray xs) (JArray ys) =
     (length xs = length ys \<and> list_all (\<lambda>(x, y). json_eq x y) (zip xs ys))"
| "json_eq (JObject m) (JObject n) =
     (length m = length n \<and>
      list_all (\<lambda>(k, v). case im_get n k of None \<Rightarrow> False | Some w \<Rightarrow> json_eq v w) m)"
| "json_eq a b = (a = b)"
  by pat_completeness auto

termination
proof (relation "measure (\<lambda>(a, b). size a)")
  fix xs ys :: "json list" and z x y
  assume "z \<in> set (zip xs ys)" "(x, y) = z"
  then have "x \<in> set xs" by (auto dest: set_zip_leftD)
  then show "((x, y), JArray xs, JArray ys) \<in> measure (\<lambda>(a, b). size a)"
    by (induction xs) auto
next
  fix m n :: "(string \<times> json) list" and z k v w
  assume "z \<in> set m" "(k, v) = z"
  then have "(k, v) \<in> set m" by simp
  then show "((v, w), JObject m, JObject n) \<in> measure (\<lambda>(a, b). size a)"
    using size_json_object_value [of k v m] by (simp add: less_SucI)
qed simp

lemma json_get_simps [simp]:
  "json_get (JObject m) k = im_get m k"
  "json_get JNull k = None"
  "json_get (JString s) k = None"
  by (simp_all add: json_get_def)

lemma json_at_simps [simp]:
  "json_at (JObject m) k = unwrap_or (im_get m k) JNull"
  "json_at JNull k = JNull"
  by (simp_all add: json_at_def)

text \<open>Well-formed values: the keys of every object are distinct, at every depth.\<close>

fun json_wf :: "json \<Rightarrow> bool" where
  "json_wf (JArray xs) = list_all json_wf xs"
| "json_wf (JObject m) = (im_wf m \<and> list_all (\<lambda>(k, v). json_wf v) m)"
| "json_wf _ = True"

lemma json_eq_refl: "json_wf j \<Longrightarrow> json_eq j j"
proof (induction j rule: json_wf.induct)
  case (1 xs)
  have "\<And>x. x \<in> set xs \<Longrightarrow> json_eq x x"
    using 1 by (auto simp: list_all_iff)
  then have "\<And>x y. (x, y) \<in> set (zip xs xs) \<Longrightarrow> json_eq x y"
    by (auto simp: zip_same)
  then show ?case by (auto simp: list_all_iff)
next
  case (2 m)
  then show ?case
    by (auto simp: list_all_iff im_get_Some_iff [THEN iffD2])
qed simp_all

end
