(* ===== verification/Tool_Params.thy ===== *)
theory Tool_Params
  imports Json
begin

text \<open>
  Tool declarations and the tool choice of a request: \<open>types/tools/params.rs\<close> and
  \<open>types/io/tools.rs\<close>. A \<open>HashMap\<close> of extra fields is an ordered map. The MCP tool
  description \<open>rmcp::model::Tool\<close> comes from a third-party crate and is kept as its JSON.
\<close>

section \<open>Tool names that cannot be empty\<close>

typedef non_empty_tool_name = "{s :: string. s \<noteq> []}"
  morphisms tool_name_str Abs_tool_name
  by (rule exI [of _ "''x''"]) simp

setup_lifting type_definition_non_empty_tool_name

datatype empty_tool_name_error = EmptyToolNameError

definition tool_name_try_from :: "string \<Rightarrow> empty_tool_name_error + non_empty_tool_name" where
  "tool_name_try_from s = (if s = [] then Inl EmptyToolNameError else Inr (Abs_tool_name s))"

lemma tool_name_try_from_str [simp]: "tool_name_try_from (tool_name_str n) = Inr n"
  using tool_name_str [of n] by (simp add: tool_name_try_from_def tool_name_str_inverse)

lemma tool_name_str_nonempty [simp]: "tool_name_str n \<noteq> []"
  using tool_name_str [of n] by simp

lemma tool_name_str_try_from: "tool_name_try_from s = Inr n \<Longrightarrow> tool_name_str n = s \<and> s \<noteq> []"
  by (auto simp: tool_name_try_from_def Abs_tool_name_inverse split: if_splits)

instantiation non_empty_tool_name :: equal
begin

definition equal_non_empty_tool_name :: "non_empty_tool_name \<Rightarrow> non_empty_tool_name \<Rightarrow> bool" where
  "equal_non_empty_tool_name a b \<longleftrightarrow> tool_name_str a = tool_name_str b"

instance
  by standard (simp add: equal_non_empty_tool_name_def tool_name_str_inject)

end

section \<open>Declarations\<close>

record function_tool_param =
  ftp_name :: non_empty_tool_name
  ftp_description :: "string option"
  ftp_parameters :: "json option"
  ftp_strict :: "bool option"
  ftp_defer_loading :: "bool option"
  ftp_extra :: json_map

record custom_tool_param =
  ctp_name :: non_empty_tool_name
  ctp_description :: "string option"
  ctp_format :: "json option"
  ctp_defer_loading :: "bool option"
  ctp_extra :: json_map

datatype tool_search_execution = SearchClient

datatype tool_search_status = SearchInProgress | SearchCompleted | SearchIncomplete

record tool_search_tool_param =
  tsp_execution :: tool_search_execution
  tsp_description :: "string option"
  tsp_parameters :: "json option"

record mcp_discovered_tool_param =
  mdp_server_label :: string
  mdp_tool_name :: string
  mdp_internal_name :: string
  mdp_tool :: json

record mcp_tool_param =
  mtp_server_label :: string
  mtp_server_url :: "string option"
  mtp_connector_id :: "string option"
  mtp_headers :: "(string, string) index_map option"
  mtp_authorization :: "string option"
  mtp_allowed_tools :: "string list option"
  mtp_require_approval :: "string option"
  mtp_defer_loading :: "bool option"
  mtp_discovered_tools :: "mcp_discovered_tool_param list"

datatype web_search_context_size = ContextLow | ContextMedium | ContextHigh

fun default_count :: "web_search_context_size \<Rightarrow> nat" where
  "default_count ContextLow = 3"
| "default_count ContextMedium = 5"
| "default_count ContextHigh = 10"

record web_search_filters =
  wsf_allowed_domains :: "string list option"
  wsf_blocked_domains :: "string list option"

record web_search_user_location =
  wsl_type :: "string option"
  wsl_city :: "string option"
  wsl_country :: "string option"
  wsl_region :: "string option"
  wsl_timezone :: "string option"

record web_search_tool_param =
  wtp_search_context_size :: "web_search_context_size option"
  wtp_filters :: "web_search_filters option"
  wtp_user_location :: "web_search_user_location option"

record file_search_tool_param =
  fsp_vector_store_ids :: "string list option"

datatype shell_environment = LocalShell json_map | UnknownShell json

record shell_tool_param =
  stp_environment :: shell_environment
  stp_allowed_callers :: "string list option"
  stp_extra :: json_map

datatype codex_namespace_member = MemberFunction function_tool_param | MemberUnknown

record codex_namespace_tool_param =
  ntp_name :: string
  ntp_description :: "string option"
  ntp_tools :: "codex_namespace_member list"
  ntp_extra :: json_map

datatype responses_tool =
    FunctionTool function_tool_param
  | ToolSearchTool tool_search_tool_param
  | McpTool mcp_tool_param
  | WebSearchTool web_search_tool_param
  | FileSearchTool file_search_tool_param
  | CodeInterpreterTool
  | ShellTool shell_tool_param
  | NamespaceTool codex_namespace_tool_param
  | CustomTool custom_tool_param
  | UnknownTool

fun original_type :: "responses_tool \<Rightarrow> string option" where
  "original_type (FunctionTool _) = Some ''function''"
| "original_type (ToolSearchTool _) = Some ''tool_search''"
| "original_type (McpTool _) = Some ''mcp''"
| "original_type (WebSearchTool _) = Some ''web_search_preview''"
| "original_type (FileSearchTool _) = Some ''file_search''"
| "original_type CodeInterpreterTool = Some ''code_interpreter''"
| "original_type (ShellTool _) = Some ''shell''"
| "original_type (NamespaceTool _) = Some ''namespace''"
| "original_type (CustomTool _) = Some ''custom''"
| "original_type UnknownTool = None"

fun sanitize_for_persistence :: "responses_tool \<Rightarrow> responses_tool" where
  "sanitize_for_persistence (McpTool p) =
     McpTool (p\<lparr>mtp_headers := None, mtp_authorization := None, mtp_discovered_tools := []\<rparr>)"
| "sanitize_for_persistence t = t"

text \<open>Persisting a shell environment: the \<open>local\<close> tag is added on the way out and removed on the way in.\<close>

fun shell_environment_to_json :: "shell_environment \<Rightarrow> json" where
  "shell_environment_to_json (LocalShell extra) = JObject (im_insert ''type'' (JString ''local'') extra)"
| "shell_environment_to_json (UnknownShell v) = v"

definition shell_environment_of_json :: "json \<Rightarrow> shell_environment" where
  "shell_environment_of_json v =
     (if Option.bind (json_get v ''type'') as_str \<noteq> Some ''local'' then UnknownShell v
      else LocalShell (im_shift_remove ''type'' (unwrap_or (as_object v) [])))"

section \<open>Tool choice\<close>

datatype allowed_tools_mode = ModeAuto | ModeRequired

record allowed_tool =
  at_type :: non_empty_tool_name
  at_name :: non_empty_tool_name

datatype tool_choice =
    ChoiceAuto
  | ChoiceNone
  | ChoiceRequired
  | ChoiceShell
  | ChoiceFunction "string option" non_empty_tool_name
  | ChoiceCustom non_empty_tool_name
  | ChoiceAllowedTools allowed_tools_mode "allowed_tool list"

fun mode_to_json :: "allowed_tools_mode \<Rightarrow> json" where
  "mode_to_json ModeAuto = JString ''auto''"
| "mode_to_json ModeRequired = JString ''required''"

text \<open>A derived enum also reads a unit variant written as an object with a null value.\<close>

definition mode_of_json :: "json \<Rightarrow> allowed_tools_mode option" where
  "mode_of_json v =
     (if v \<in> {JString ''auto'', JObject [(''auto'', JNull)]} then Some ModeAuto
      else if v \<in> {JString ''required'', JObject [(''required'', JNull)]} then Some ModeRequired
      else None)"

definition allowed_tool_to_json :: "allowed_tool \<Rightarrow> json" where
  "allowed_tool_to_json t =
     JObject [(''type'', JString (tool_name_str (at_type t))), (''name'', JString (tool_name_str (at_name t)))]"

definition tool_name_of_json :: "json \<Rightarrow> non_empty_tool_name option" where
  "tool_name_of_json v =
     (case as_str v of
        None \<Rightarrow> None
      | Some s \<Rightarrow> (case tool_name_try_from s of Inl _ \<Rightarrow> None | Inr n \<Rightarrow> Some n))"

definition tool_name_field :: "json \<Rightarrow> string \<Rightarrow> non_empty_tool_name option" where
  "tool_name_field v k = Option.bind (json_get v k) tool_name_of_json"

text \<open>A derived struct reads an object, or an array of its fields in order.\<close>

definition allowed_tool_of_json :: "json \<Rightarrow> allowed_tool option" where
  "allowed_tool_of_json v =
     (case v of
        JArray [ty, nm] \<Rightarrow>
          Option.bind (tool_name_of_json ty) (\<lambda>t.
          Option.bind (tool_name_of_json nm) (\<lambda>n. Some \<lparr>at_type = t, at_name = n\<rparr>))
      | _ \<Rightarrow>
          Option.bind (tool_name_field v ''type'') (\<lambda>t.
          Option.bind (tool_name_field v ''name'') (\<lambda>n. Some \<lparr>at_type = t, at_name = n\<rparr>)))"

fun allowed_tools_of_json :: "json list \<Rightarrow> allowed_tool list option" where
  "allowed_tools_of_json [] = Some []"
| "allowed_tools_of_json (v # vs) =
     Option.bind (allowed_tool_of_json v) (\<lambda>t. map_option ((#) t) (allowed_tools_of_json vs))"

fun tool_choice_to_json :: "tool_choice \<Rightarrow> json" where
  "tool_choice_to_json ChoiceAuto = JString ''auto''"
| "tool_choice_to_json ChoiceNone = JString ''none''"
| "tool_choice_to_json ChoiceRequired = JString ''required''"
| "tool_choice_to_json ChoiceShell = JObject [(''type'', JString ''shell'')]"
| "tool_choice_to_json (ChoiceFunction ns n) =
     JObject ((''type'', JString ''function'')
       # (case ns of None \<Rightarrow> [] | Some s \<Rightarrow> [(''namespace'', JString s)])
       @ [(''name'', JString (tool_name_str n))])"
| "tool_choice_to_json (ChoiceCustom n) =
     JObject [(''type'', JString ''custom''), (''name'', JString (tool_name_str n))]"
| "tool_choice_to_json (ChoiceAllowedTools mode tools) =
     JObject [(''type'', JString ''allowed_tools''), (''mode'', mode_to_json mode),
              (''tools'', JArray (map allowed_tool_to_json tools))]"

definition named_function_choice :: "json \<Rightarrow> tool_choice option" where
  "named_function_choice v =
     map_option (ChoiceFunction (Option.bind (json_get v ''namespace'') as_str)) (tool_name_field v ''name'')"

fun tool_choice_of_json :: "json \<Rightarrow> tool_choice option" where
  "tool_choice_of_json (JString s) =
     (if s = ''auto'' then Some ChoiceAuto
      else if s = ''none'' then Some ChoiceNone
      else if s = ''required'' then Some ChoiceRequired
      else None)"
| "tool_choice_of_json (JObject m) =
     (let v = JObject m; ty = Option.bind (im_get m ''type'') as_str in
      if ty = Some ''shell'' then Some ChoiceShell
      else if ty = Some ''function'' then named_function_choice v
      else if ty = Some ''custom'' then map_option ChoiceCustom (tool_name_field v ''name'')
      else if ty = Some ''allowed_tools'' then
        Option.bind (im_get m ''mode'') (\<lambda>mode. Option.bind (mode_of_json mode) (\<lambda>mode'.
        Option.bind (im_get m ''tools'') (\<lambda>tools. Option.bind (as_array tools) (\<lambda>ts.
        map_option (ChoiceAllowedTools mode') (allowed_tools_of_json ts)))))
      else (case Option.bind (im_get m ''function'') as_object of
              Some f \<Rightarrow> named_function_choice (JObject f)
            | None \<Rightarrow> None))"
| "tool_choice_of_json _ = None"

lemma mode_of_to_json [simp]: "mode_of_json (mode_to_json m) = Some m"
  by (cases m) (simp_all add: mode_of_json_def)

lemma allowed_tool_of_to_json [simp]: "allowed_tool_of_json (allowed_tool_to_json t) = Some t"
  by (simp add: allowed_tool_of_json_def allowed_tool_to_json_def tool_name_field_def
      tool_name_of_json_def)

lemma allowed_tools_of_to_json [simp]:
  "allowed_tools_of_json (map allowed_tool_to_json ts) = Some ts"
  by (induction ts) auto

section \<open>Normalization and resolution\<close>

definition shell_function_name :: string where
  "shell_function_name = ''shell''"

definition normalize_allowed_tool :: "allowed_tool \<Rightarrow> allowed_tool" where
  "normalize_allowed_tool t =
     (if tool_name_str (at_type t) = ''custom'' then t\<lparr>at_type := Abs_tool_name ''function''\<rparr> else t)"

fun normalized_for_upstream :: "tool_choice \<Rightarrow> tool_choice" where
  "normalized_for_upstream ChoiceShell = ChoiceFunction None (Abs_tool_name shell_function_name)"
| "normalized_for_upstream (ChoiceCustom n) = ChoiceFunction None n"
| "normalized_for_upstream (ChoiceAllowedTools mode tools) =
     ChoiceAllowedTools mode (map normalize_allowed_tool tools)"
| "normalized_for_upstream choice = choice"

definition resolve_tools ::
  "responses_tool list option \<Rightarrow> responses_tool list option \<Rightarrow> bool \<Rightarrow> responses_tool list option" where
  "resolve_tools request_tools stored_tools tools_explicitly_set =
     (if tools_explicitly_set then request_tools else stored_tools)"

definition resolve_tool_choice :: "tool_choice option \<Rightarrow> tool_choice \<Rightarrow> bool \<Rightarrow> tool_choice" where
  "resolve_tool_choice request_choice stored_choice explicitly_set =
     (if explicitly_set then unwrap_or request_choice ChoiceAuto else stored_choice)"

lemma normalized_for_upstream_idem:
  "normalized_for_upstream (normalized_for_upstream c) = normalized_for_upstream c"
  by (cases c) (simp_all add: normalize_allowed_tool_def Abs_tool_name_inverse)

lemma sanitize_idem:
  "sanitize_for_persistence (sanitize_for_persistence t) = sanitize_for_persistence t"
  by (cases t) simp_all

end
