(* ===== verification/Items.thy ===== *)
theory Items
  imports Tool_Params
begin

text \<open>
  The items of a conversation: \<open>types/event.rs\<close>, \<open>types/io/usage.rs\<close>,
  \<open>types/io/shell.rs\<close>, and the data of \<open>types/io/output.rs\<close> and \<open>types/io/input.rs\<close>.
  Output items are what a response carries, input items are what a later inference round
  reads; \<open>to_input_item\<close> is the one conversion between them.
\<close>

section \<open>Statuses and usage\<close>

datatype response_status = StatusInProgress | StatusCompleted | StatusIncomplete | StatusError

fun response_status_str :: "response_status \<Rightarrow> string" where
  "response_status_str StatusInProgress = ''in_progress''"
| "response_status_str StatusCompleted = ''completed''"
| "response_status_str StatusIncomplete = ''incomplete''"
| "response_status_str StatusError = ''error''"

definition response_status_of_str :: "string \<Rightarrow> response_status" where
  "response_status_of_str s =
     (if s = ''in_progress'' then StatusInProgress
      else if s = ''completed'' then StatusCompleted
      else if s = ''incomplete'' then StatusIncomplete
      else StatusError)"

datatype message_status = MessageInProgress | MessageCompleted

fun message_status_str :: "message_status \<Rightarrow> string" where
  "message_status_str MessageInProgress = ''in_progress''"
| "message_status_str MessageCompleted = ''completed''"

definition message_status_of_str :: "string \<Rightarrow> message_status" where
  "message_status_of_str s = (if s = ''completed'' then MessageCompleted else MessageInProgress)"

lemma response_status_of_str_str [simp]: "response_status_of_str (response_status_str s) = s"
  by (cases s) (simp_all add: response_status_of_str_def)

lemma message_status_of_str_str [simp]: "message_status_of_str (message_status_str s) = s"
  by (cases s) (simp_all add: message_status_of_str_def)

record response_usage =
  ru_input_tokens :: i64
  ru_output_tokens :: i64
  ru_total_tokens :: i64
  ru_cached_tokens :: i64
  ru_reasoning_tokens :: i64

record incomplete_details =
  id_reason :: "string option"

section \<open>Shell calls\<close>

datatype shell_call_status = ShellInProgress | ShellCompleted | ShellIncomplete

fun shell_status_of_message :: "message_status \<Rightarrow> shell_call_status" where
  "shell_status_of_message MessageInProgress = ShellInProgress"
| "shell_status_of_message MessageCompleted = ShellCompleted"

record shell_call_action =
  sa_commands :: "string list"
  sa_timeout_ms :: "u64 option"
  sa_max_output_length :: "u64 option"
  sa_extra :: json_map

record shell_call =
  sc_id :: "string option"
  sc_call_id :: string
  sc_action :: shell_call_action
  sc_status :: "shell_call_status option"
  sc_extra :: json_map

datatype shell_call_outcome = OutcomeExit int | OutcomeTimeout | OutcomeUnknown

record shell_call_output_content =
  soc_stdout :: string
  soc_stderr :: string
  soc_outcome :: shell_call_outcome
  soc_extra :: json_map

record shell_call_output_message =
  som_id :: "string option"
  som_call_id :: string
  som_max_output_length :: "u64 option"
  som_output :: "shell_call_output_content list"
  som_status :: "shell_call_status option"
  som_extra :: json_map

section \<open>Output items\<close>

record output_text_content =
  otc_type :: string
  otc_text :: string
  otc_annotations :: "json list"

definition new_output_text :: "string \<Rightarrow> output_text_content" where
  "new_output_text t = \<lparr>otc_type = ''output_text'', otc_text = t, otc_annotations = []\<rparr>"

record output_message =
  om_id :: string
  om_role :: string
  om_status :: message_status
  om_content :: "output_text_content list"

definition new_output_message :: "string \<Rightarrow> message_status \<Rightarrow> output_message" where
  "new_output_message i s = \<lparr>om_id = i, om_role = ''assistant'', om_status = s, om_content = []\<rparr>"

record function_tool_call =
  fc_id :: string
  fc_call_id :: string
  fc_name :: string
  fc_namespace :: "string option"
  fc_arguments :: string
  fc_status :: message_status

record tool_search_call =
  ts_id :: string
  ts_call_id :: string
  ts_execution :: tool_search_execution
  ts_arguments :: json
  ts_status :: tool_search_status

record custom_tool_call =
  ct_id :: string
  ct_status :: "message_status option"
  ct_call_id :: string
  ct_name :: string
  ct_input :: string

datatype gateway_call_status = GatewayInProgress | GatewayCompleted | GatewayFailed

fun gateway_call_status_str :: "gateway_call_status \<Rightarrow> string" where
  "gateway_call_status_str GatewayInProgress = ''in_progress''"
| "gateway_call_status_str GatewayCompleted = ''completed''"
| "gateway_call_status_str GatewayFailed = ''failed''"

datatype mcp_call_status = McpInProgress | McpCalling | McpCompleted | McpIncomplete | McpFailed

fun mcp_status_of_gateway :: "gateway_call_status \<Rightarrow> mcp_call_status" where
  "mcp_status_of_gateway GatewayInProgress = McpInProgress"
| "mcp_status_of_gateway GatewayCompleted = McpCompleted"
| "mcp_status_of_gateway GatewayFailed = McpFailed"

record web_search_source =
  wss_url :: string
  wss_title :: "string option"

record web_search_action_search =
  wsa_type :: string
  wsa_query :: string
  wsa_queries :: "string list"
  wsa_sources :: "web_search_source list"

datatype web_search_action_error = EmptyQueries

definition web_search_action_search_try_new ::
  "string list \<Rightarrow> web_search_source list \<Rightarrow> web_search_action_error + web_search_action_search" where
  "web_search_action_search_try_new queries sources =
     (case queries of
        [] \<Rightarrow> Inl EmptyQueries
      | q # _ \<Rightarrow> Inr \<lparr>wsa_type = ''search'', wsa_query = q, wsa_queries = queries, wsa_sources = sources\<rparr>)"

datatype web_search_action =
    SearchAction web_search_action_search
  | OpenPageAction "string option"
  | FindInPageAction string string

fun web_search_action_type_str :: "web_search_action \<Rightarrow> string" where
  "web_search_action_type_str (SearchAction _) = ''search''"
| "web_search_action_type_str (OpenPageAction _) = ''open_page''"
| "web_search_action_type_str (FindInPageAction _ _) = ''find_in_page''"

fun as_search :: "web_search_action \<Rightarrow> web_search_action_search option" where
  "as_search (SearchAction a) = Some a"
| "as_search _ = None"

record web_search_call =
  ws_id :: string
  ws_status :: gateway_call_status
  ws_action :: web_search_action

definition web_search_call_try_new ::
  "string \<Rightarrow> gateway_call_status \<Rightarrow> string list \<Rightarrow> web_search_source list \<Rightarrow>
   web_search_action_error + web_search_call" where
  "web_search_call_try_new i st queries sources =
     and_then (web_search_action_search_try_new queries sources)
       (\<lambda>a. Inr \<lparr>ws_id = i, ws_status = st, ws_action = SearchAction a\<rparr>)"

record mcp_tool_execution_error_content =
  mec_type :: string
  mec_text :: string
  mec_annotations :: "json option"
  mec_meta :: "json option"

datatype mcp_call_error =
    McpErrorText string
  | McpErrorToolExecution string "mcp_tool_execution_error_content list"
  | McpErrorUnknown json

definition mcp_tool_execution :: "string \<Rightarrow> mcp_call_error" where
  "mcp_tool_execution t =
     McpErrorToolExecution ''mcp_tool_execution_error''
       [\<lparr>mec_type = ''text'', mec_text = t, mec_annotations = None, mec_meta = None\<rparr>]"

record mcp_call =
  mc_id :: string
  mc_server_label :: string
  mc_name :: string
  mc_arguments :: string
  mc_status :: "mcp_call_status option"
  mc_approval_request_id :: "string option"
  mc_output :: "string option"
  mc_error :: "mcp_call_error option"

definition new_mcp_call ::
  "string \<Rightarrow> string \<Rightarrow> string \<Rightarrow> string \<Rightarrow> mcp_call_status \<Rightarrow> string option \<Rightarrow> mcp_call_error option \<Rightarrow> mcp_call" where
  "new_mcp_call i label nm args st out err =
     \<lparr>mc_id = i, mc_server_label = label, mc_name = nm, mc_arguments = args, mc_status = Some st,
      mc_approval_request_id = None, mc_output = out, mc_error = err\<rparr>"

record mcp_list_tool =
  mlt_name :: string
  mlt_description :: "string option"
  mlt_input_schema :: json
  mlt_annotations :: "json option"

record mcp_list_tools =
  ml_id :: string
  ml_server_label :: string
  ml_tools :: "mcp_list_tool list"
  ml_error :: "string option"

definition new_mcp_list_tools :: "string \<Rightarrow> string \<Rightarrow> mcp_list_tool list \<Rightarrow> mcp_list_tools" where
  "new_mcp_list_tools i label tools =
     \<lparr>ml_id = i, ml_server_label = label, ml_tools = tools, ml_error = None\<rparr>"

record reasoning_text_content =
  rtc_type :: string
  rtc_text :: string

definition new_reasoning_text :: "string \<Rightarrow> reasoning_text_content" where
  "new_reasoning_text t = \<lparr>rtc_type = ''reasoning_text'', rtc_text = t\<rparr>"

record reasoning_output =
  ro_id :: string
  ro_content :: "reasoning_text_content list"
  ro_summary :: "json list"
  ro_encrypted_content :: "json option"
  ro_status :: "string option"

definition new_reasoning_output :: "string \<Rightarrow> reasoning_output" where
  "new_reasoning_output i =
     \<lparr>ro_id = i, ro_content = [], ro_summary = [], ro_encrypted_content = None, ro_status = None\<rparr>"

record compaction_item =
  ci_id :: "string option"
  ci_encrypted_content :: string

datatype output_item =
    OutMessage output_message
  | OutFunctionCall function_tool_call
  | OutToolSearchCall tool_search_call
  | OutCustomToolCall custom_tool_call
  | OutShellCall shell_call
  | OutWebSearchCall web_search_call
  | OutMcpCall mcp_call
  | OutMcpListTools mcp_list_tools
  | OutReasoning reasoning_output
  | OutCompaction compaction_item
  | OutUnknown

fun output_item_id :: "output_item \<Rightarrow> string option" where
  "output_item_id (OutMessage x) = Some (om_id x)"
| "output_item_id (OutFunctionCall x) = Some (fc_id x)"
| "output_item_id (OutToolSearchCall x) = Some (ts_id x)"
| "output_item_id (OutCustomToolCall x) = Some (ct_id x)"
| "output_item_id (OutShellCall x) = sc_id x"
| "output_item_id (OutWebSearchCall x) = Some (ws_id x)"
| "output_item_id (OutMcpCall x) = Some (mc_id x)"
| "output_item_id (OutMcpListTools x) = Some (ml_id x)"
| "output_item_id (OutReasoning x) = Some (ro_id x)"
| "output_item_id (OutCompaction x) = ci_id x"
| "output_item_id OutUnknown = None"

section \<open>Input items\<close>

record input_image_content =
  iic_file_id :: "string option"
  iic_image_url :: "string option"
  iic_detail :: "string option"

record input_file_content =
  ifc_file_data :: "string option"
  ifc_file_id :: "string option"
  ifc_file_url :: "string option"
  ifc_filename :: "string option"
  ifc_detail :: "string option"

datatype input_content =
    InputText string
  | InputImage input_image_content
  | InputFile input_file_content
  | OutputText string
  | ReasoningText string
  | UnknownContent

datatype input_message_content = TextContent string | PartsContent "input_content list"

record input_message =
  im_id :: "string option"
  im_role :: string
  im_status :: "message_status option"
  im_content :: input_message_content

datatype tool_output_content =
    ToolText string
  | ToolImage input_image_content
  | ToolFile input_file_content

datatype tool_call_output = OutputString string | OutputContent "tool_output_content list"

record function_tool_result_message =
  fr_call_id :: string
  fr_output :: tool_call_output

record input_function_tool_call =
  ifn_id :: "string option"
  ifn_call_id :: string
  ifn_name :: string
  ifn_namespace :: "string option"
  ifn_arguments :: string
  ifn_status :: "message_status option"

record input_tool_search_call =
  its_id :: string
  its_call_id :: string
  its_execution :: tool_search_execution
  its_arguments :: json
  its_status :: tool_search_status

record tool_search_output_message =
  tso_call_id :: string
  tso_execution :: tool_search_execution
  tso_status :: tool_search_status
  tso_tools :: "responses_tool list"

record custom_tool_call_output_message =
  cto_call_id :: string
  cto_name :: "string option"
  cto_output :: tool_call_output

datatype input_item =
    InMessage input_message
  | InFunctionCall input_function_tool_call
  | InFunctionCallOutput function_tool_result_message
  | InToolSearchCall input_tool_search_call
  | InToolSearchOutput tool_search_output_message
  | InCustomToolCall custom_tool_call
  | InCustomToolCallOutput custom_tool_call_output_message
  | InShellCall shell_call
  | InShellCallOutput shell_call_output_message
  | InReasoning reasoning_output
  | InMcpListTools mcp_list_tools
  | InCompaction compaction_item
  | InCompactionTrigger
  | InUnknown

datatype responses_input = TextInput string | ItemsInput "input_item list"

end
