(* ===== verification/Events.thy ===== *)
theory Events
  imports Items
begin

text \<open>
  The events of the upstream stream, \<open>events/types.rs\<close>: item and event kinds with their wire
  names, the wire form of an event, and the frame that couples the wire form with the payload
  extracted from it.
\<close>

section \<open>Kinds and their wire names\<close>

datatype sse_item_type =
    TyReasoning | TyFunctionCall | TyToolSearchCall | TyCustomToolCall | TyWebSearchCall
    | TyMcpCall | TyMcpListTools | TyShellCall | TyCompaction | TyMessage

fun sse_item_type_str :: "sse_item_type \<Rightarrow> string" where
  "sse_item_type_str TyReasoning = ''reasoning''"
| "sse_item_type_str TyFunctionCall = ''function_call''"
| "sse_item_type_str TyToolSearchCall = ''tool_search_call''"
| "sse_item_type_str TyCustomToolCall = ''custom_tool_call''"
| "sse_item_type_str TyWebSearchCall = ''web_search_call''"
| "sse_item_type_str TyMcpCall = ''mcp_call''"
| "sse_item_type_str TyMcpListTools = ''mcp_list_tools''"
| "sse_item_type_str TyShellCall = ''shell_call''"
| "sse_item_type_str TyCompaction = ''compaction''"
| "sse_item_type_str TyMessage = ''message''"

definition sse_item_type_names :: "(string \<times> sse_item_type) list" where
  "sse_item_type_names =
     [(''reasoning'', TyReasoning),
      (''function_call'', TyFunctionCall),
      (''tool_search_call'', TyToolSearchCall),
      (''custom_tool_call'', TyCustomToolCall),
      (''web_search_call'', TyWebSearchCall),
      (''mcp_call'', TyMcpCall),
      (''mcp_list_tools'', TyMcpListTools),
      (''shell_call'', TyShellCall),
      (''compaction'', TyCompaction),
      (''message'', TyMessage)]"

text \<open>\<open>FromStr\<close> is strict; the lossy \<open>From<&str>\<close> falls back to a message.\<close>

definition sse_item_type_from_str :: "string \<Rightarrow> sse_item_type option" where
  "sse_item_type_from_str s = map_of sse_item_type_names s"

definition sse_item_type_of_str :: "string \<Rightarrow> sse_item_type" where
  "sse_item_type_of_str s = unwrap_or (sse_item_type_from_str s) TyMessage"

fun sse_item_type_of_item :: "output_item \<Rightarrow> sse_item_type option" where
  "sse_item_type_of_item (OutMessage _) = Some TyMessage"
| "sse_item_type_of_item (OutFunctionCall _) = Some TyFunctionCall"
| "sse_item_type_of_item (OutToolSearchCall _) = Some TyToolSearchCall"
| "sse_item_type_of_item (OutCustomToolCall _) = Some TyCustomToolCall"
| "sse_item_type_of_item (OutWebSearchCall _) = Some TyWebSearchCall"
| "sse_item_type_of_item (OutMcpCall _) = Some TyMcpCall"
| "sse_item_type_of_item (OutMcpListTools _) = Some TyMcpListTools"
| "sse_item_type_of_item (OutShellCall _) = Some TyShellCall"
| "sse_item_type_of_item (OutReasoning _) = Some TyReasoning"
| "sse_item_type_of_item (OutCompaction _) = Some TyCompaction"
| "sse_item_type_of_item OutUnknown = None"

datatype sse_event_type =
    ResponseCreated | ResponseInProgress | ResponseCompleted | ResponseFailed
    | ResponseIncomplete | OutputItemAdded | OutputItemDone | OutputTextDelta
    | OutputTextDone | ContentPartAdded | ContentPartDone | FunctionCallArgumentsDelta
    | FunctionCallArgumentsDone | CustomToolCallInputDelta | CustomToolCallInputDone
    | ShellCallCommandAdded | ShellCallCommandDelta | ShellCallCommandDone
    | ReasoningTextDelta | ReasoningTextDone | ReasoningPartAdded | ReasoningPartDone
    | ReasoningSummaryTextDelta | ReasoningSummaryTextDone | FileSearchCallSearching
    | FileSearchCallCompleted | WebSearchCallInProgress | WebSearchCallSearching
    | WebSearchCallCompleted | McpCallInProgress | McpCallArgumentsDelta
    | McpCallArgumentsDone | McpCallCompleted | McpCallFailed | McpListToolsInProgress
    | McpListToolsCompleted | McpListToolsFailed | Other

definition sse_event_type_names :: "(string \<times> sse_event_type) list" where
  "sse_event_type_names =
     [(''response.created'', ResponseCreated),
      (''response.in_progress'', ResponseInProgress),
      (''response.completed'', ResponseCompleted),
      (''response.done'', ResponseCompleted),
      (''response.failed'', ResponseFailed),
      (''response.incomplete'', ResponseIncomplete),
      (''response.output_item.added'', OutputItemAdded),
      (''response.output_item.done'', OutputItemDone),
      (''response.output_text.delta'', OutputTextDelta),
      (''response.output_text.done'', OutputTextDone),
      (''response.content_part.added'', ContentPartAdded),
      (''response.content_part.done'', ContentPartDone),
      (''response.function_call_arguments.delta'', FunctionCallArgumentsDelta),
      (''response.function_call_arguments.done'', FunctionCallArgumentsDone),
      (''response.custom_tool_call_input.delta'', CustomToolCallInputDelta),
      (''response.custom_tool_call_input.done'', CustomToolCallInputDone),
      (''response.shell_call_command.added'', ShellCallCommandAdded),
      (''response.shell_call_command.delta'', ShellCallCommandDelta),
      (''response.shell_call_command.done'', ShellCallCommandDone),
      (''response.reasoning_text.delta'', ReasoningTextDelta),
      (''response.reasoning_text.done'', ReasoningTextDone),
      (''response.reasoning_part.added'', ReasoningPartAdded),
      (''response.reasoning_part.done'', ReasoningPartDone),
      (''response.reasoning_summary_text.delta'', ReasoningSummaryTextDelta),
      (''response.reasoning_summary_text.done'', ReasoningSummaryTextDone),
      (''response.file_search_call.searching'', FileSearchCallSearching),
      (''response.file_search_call.completed'', FileSearchCallCompleted),
      (''response.web_search_call.in_progress'', WebSearchCallInProgress),
      (''response.web_search_call.searching'', WebSearchCallSearching),
      (''response.web_search_call.completed'', WebSearchCallCompleted),
      (''response.mcp_call.in_progress'', McpCallInProgress),
      (''response.mcp_call_arguments.delta'', McpCallArgumentsDelta),
      (''response.mcp_call_arguments.done'', McpCallArgumentsDone),
      (''response.mcp_call.completed'', McpCallCompleted),
      (''response.mcp_call.failed'', McpCallFailed),
      (''response.mcp_list_tools.in_progress'', McpListToolsInProgress),
      (''response.mcp_list_tools.completed'', McpListToolsCompleted),
      (''response.mcp_list_tools.failed'', McpListToolsFailed)]"

fun sse_event_type_str :: "sse_event_type \<Rightarrow> string option" where
  "sse_event_type_str ResponseCreated = Some ''response.created''"
| "sse_event_type_str ResponseInProgress = Some ''response.in_progress''"
| "sse_event_type_str ResponseCompleted = Some ''response.completed''"
| "sse_event_type_str ResponseFailed = Some ''response.failed''"
| "sse_event_type_str ResponseIncomplete = Some ''response.incomplete''"
| "sse_event_type_str OutputItemAdded = Some ''response.output_item.added''"
| "sse_event_type_str OutputItemDone = Some ''response.output_item.done''"
| "sse_event_type_str OutputTextDelta = Some ''response.output_text.delta''"
| "sse_event_type_str OutputTextDone = Some ''response.output_text.done''"
| "sse_event_type_str ContentPartAdded = Some ''response.content_part.added''"
| "sse_event_type_str ContentPartDone = Some ''response.content_part.done''"
| "sse_event_type_str FunctionCallArgumentsDelta = Some ''response.function_call_arguments.delta''"
| "sse_event_type_str FunctionCallArgumentsDone = Some ''response.function_call_arguments.done''"
| "sse_event_type_str CustomToolCallInputDelta = Some ''response.custom_tool_call_input.delta''"
| "sse_event_type_str CustomToolCallInputDone = Some ''response.custom_tool_call_input.done''"
| "sse_event_type_str ShellCallCommandAdded = Some ''response.shell_call_command.added''"
| "sse_event_type_str ShellCallCommandDelta = Some ''response.shell_call_command.delta''"
| "sse_event_type_str ShellCallCommandDone = Some ''response.shell_call_command.done''"
| "sse_event_type_str ReasoningTextDelta = Some ''response.reasoning_text.delta''"
| "sse_event_type_str ReasoningTextDone = Some ''response.reasoning_text.done''"
| "sse_event_type_str ReasoningPartAdded = Some ''response.reasoning_part.added''"
| "sse_event_type_str ReasoningPartDone = Some ''response.reasoning_part.done''"
| "sse_event_type_str ReasoningSummaryTextDelta = Some ''response.reasoning_summary_text.delta''"
| "sse_event_type_str ReasoningSummaryTextDone = Some ''response.reasoning_summary_text.done''"
| "sse_event_type_str FileSearchCallSearching = Some ''response.file_search_call.searching''"
| "sse_event_type_str FileSearchCallCompleted = Some ''response.file_search_call.completed''"
| "sse_event_type_str WebSearchCallInProgress = Some ''response.web_search_call.in_progress''"
| "sse_event_type_str WebSearchCallSearching = Some ''response.web_search_call.searching''"
| "sse_event_type_str WebSearchCallCompleted = Some ''response.web_search_call.completed''"
| "sse_event_type_str McpCallInProgress = Some ''response.mcp_call.in_progress''"
| "sse_event_type_str McpCallArgumentsDelta = Some ''response.mcp_call_arguments.delta''"
| "sse_event_type_str McpCallArgumentsDone = Some ''response.mcp_call_arguments.done''"
| "sse_event_type_str McpCallCompleted = Some ''response.mcp_call.completed''"
| "sse_event_type_str McpCallFailed = Some ''response.mcp_call.failed''"
| "sse_event_type_str McpListToolsInProgress = Some ''response.mcp_list_tools.in_progress''"
| "sse_event_type_str McpListToolsCompleted = Some ''response.mcp_list_tools.completed''"
| "sse_event_type_str McpListToolsFailed = Some ''response.mcp_list_tools.failed''"
| "sse_event_type_str Other = None"

definition sse_event_type_of_str :: "string \<Rightarrow> sse_event_type" where
  "sse_event_type_of_str s = unwrap_or (map_of sse_event_type_names s) Other"

lemma sse_item_type_from_str_str [simp]: "sse_item_type_from_str (sse_item_type_str t) = Some t"
  by (cases t) (simp_all add: sse_item_type_from_str_def sse_item_type_names_def)

lemma sse_item_type_from_str_SomeD: "sse_item_type_from_str s = Some t \<Longrightarrow> s = sse_item_type_str t"
  by (auto simp: sse_item_type_from_str_def sse_item_type_names_def split: if_splits)

definition sse_event_types :: "sse_event_type list" where
  "sse_event_types = Other # map snd sse_event_type_names"

lemma in_sse_event_types: "t \<in> set sse_event_types"
  by (cases t) (simp_all add: sse_event_types_def sse_event_type_names_def)

lemma sse_event_types_parse_back:
  "list_all (\<lambda>t. sse_event_type_of_str (unwrap_or (sse_event_type_str t) ''unknown'') = t) sse_event_types"
  by code_simp

lemma sse_event_type_names_print_back:
  "list_all (\<lambda>(n, t). sse_event_type_str t = Some n \<or> n = ''response.done'' \<and> t = ResponseCompleted)
     sse_event_type_names"
  by code_simp

lemma sse_event_type_of_str_str: "sse_event_type_str t = Some n \<Longrightarrow> sse_event_type_of_str n = t"
  using sse_event_types_parse_back in_sse_event_types [of t] by (auto simp: list_all_iff)

text \<open>
  Wire names round trip. Every event kind but the catch-all has a name that parses back to
  it, a parsed name prints back to itself except for the alias of a completed response, and
  item kinds parse back strictly.
\<close>

theorem wire_names_round_trip:
  "(sse_event_type_str t = None \<longleftrightarrow> t = Other)
   \<and> sse_event_type_of_str (unwrap_or (sse_event_type_str t) ''unknown'') = t
   \<and> (sse_event_type_of_str s = Other
      \<or> sse_event_type_str (sse_event_type_of_str s) = Some s
      \<or> s = ''response.done'' \<and> sse_event_type_of_str s = ResponseCompleted)
   \<and> sse_item_type_from_str (sse_item_type_str k) = Some k
   \<and> (sse_item_type_from_str w = Some k \<longleftrightarrow> w = sse_item_type_str k)"
proof -
  have "sse_event_type_of_str (unwrap_or (sse_event_type_str t) ''unknown'') = t"
    using sse_event_types_parse_back in_sse_event_types [of t] by (simp add: list_all_iff)
  moreover have "sse_event_type_str t = None \<longleftrightarrow> t = Other"
    by (cases t) simp_all
  moreover have "sse_event_type_of_str s = Other
      \<or> sse_event_type_str (sse_event_type_of_str s) = Some s
      \<or> s = ''response.done'' \<and> sse_event_type_of_str s = ResponseCompleted"
  proof (cases "map_of sse_event_type_names s")
    case None
    then show ?thesis by (simp add: sse_event_type_of_str_def)
  next
    case (Some e)
    then have "(s, e) \<in> set sse_event_type_names" by (rule map_of_SomeD)
    with Some sse_event_type_names_print_back show ?thesis
      by (auto simp: sse_event_type_of_str_def list_all_iff)
  qed
  moreover have "sse_item_type_from_str w = Some k \<longleftrightarrow> w = sse_item_type_str k"
    using sse_item_type_from_str_SomeD by auto
  ultimately show ?thesis by simp
qed

section \<open>Wire events\<close>

record wire_event =
  we_event_type :: "string option"
  we_sequence_number :: "u64 option"
  we_output_index :: "u64 option"
  we_rest :: json_map

definition new_wire_event :: "string \<Rightarrow> wire_event" where
  "new_wire_event t =
     \<lparr>we_event_type = Some t, we_sequence_number = None, we_output_index = None, we_rest = []\<rparr>"

text \<open>
  The derived deserialization: an absent or null field is \<open>None\<close>, a field of another shape
  fails, and every other key of the object is kept, in order. A sequence number is read as
  a signed 128-bit integer, so that negative sentinels and numbers above \<open>u64\<close> become
  \<open>None\<close> instead of an error.
\<close>

fun deserialize_sequence_number :: "json option \<Rightarrow> u64 option option" where
  "deserialize_sequence_number None = Some None"
| "deserialize_sequence_number (Some JNull) = Some None"
| "deserialize_sequence_number (Some (JNumber (PosInt n))) = Some (Some n)"
| "deserialize_sequence_number (Some (JNumber (NegInt _))) = Some None"
| "deserialize_sequence_number _ = None"

fun deserialize_opt_string :: "json option \<Rightarrow> string option option" where
  "deserialize_opt_string None = Some None"
| "deserialize_opt_string (Some JNull) = Some None"
| "deserialize_opt_string (Some (JString s)) = Some (Some s)"
| "deserialize_opt_string _ = None"

fun deserialize_opt_u64 :: "json option \<Rightarrow> u64 option option" where
  "deserialize_opt_u64 None = Some None"
| "deserialize_opt_u64 (Some JNull) = Some None"
| "deserialize_opt_u64 (Some (JNumber (PosInt n))) = Some (Some n)"
| "deserialize_opt_u64 _ = None"

definition wire_event_keys :: "string list" where
  "wire_event_keys = [''type'', ''sequence_number'', ''output_index'']"

definition wire_event_of_json :: "json \<Rightarrow> wire_event option" where
  "wire_event_of_json j =
     Option.bind (as_object j) (\<lambda>m.
     Option.bind (deserialize_opt_string (im_get m ''type'')) (\<lambda>t.
     Option.bind (deserialize_sequence_number (im_get m ''sequence_number'')) (\<lambda>n.
     Option.bind (deserialize_opt_u64 (im_get m ''output_index'')) (\<lambda>i.
       Some \<lparr>we_event_type = t, we_sequence_number = n, we_output_index = i,
             we_rest = filter (\<lambda>(k, _). k \<notin> set wire_event_keys) m\<rparr>))))"

text \<open>The derived serialization: \<open>None\<close> fields are skipped, the flattened rest follows.\<close>

definition wire_event_to_json :: "wire_event \<Rightarrow> json" where
  "wire_event_to_json w =
     JObject
       ((case we_event_type w of None \<Rightarrow> [] | Some t \<Rightarrow> [(''type'', JString t)])
        @ (case we_sequence_number w of None \<Rightarrow> [] | Some n \<Rightarrow> [(''sequence_number'', JNumber (PosInt n))])
        @ (case we_output_index w of None \<Rightarrow> [] | Some i \<Rightarrow> [(''output_index'', JNumber (PosInt i))])
        @ we_rest w)"

section \<open>Payloads and frames\<close>

datatype shell_command_update = ShellAdded string | ShellDelta string | ShellDone string

datatype event_payload =
    PResponse string string "response_usage option"
  | POutputItemAdded string sse_item_type "u32 option" "string option" "string option" "string option"
      "shell_call option"
  | POutputItemDone string sse_item_type "u32 option" json
  | PTextDelta string string "u32 option" u32
  | PTextDone string string "u32 option"
  | PFunctionCallArgsDelta string "string option" string "u32 option"
  | PFunctionCallArgsDone string "string option" string string "u32 option"
  | PShellCallCommand string u32 u32 shell_command_update
  | PCustomToolCallInputDelta string string "u32 option"
  | PCustomToolCallInputDone string string "u32 option"
  | PReasoningTextDelta string string "u32 option" u32
  | PReasoningTextDone string string "u32 option" u32
  | PReasoningSummaryTextDelta string string "u32 option" u32
  | PReasoningSummaryTextDone string string "u32 option" u32
  | PRaw json
  | PNone

text \<open>
  The arguments are the fields in the order of the source: \<open>PResponse id status usage\<close>,
  \<open>POutputItemAdded item_id item_type output_index name namespace call_id shell_call\<close>,
  \<open>POutputItemDone item_id item_type output_index item\<close>,
  \<open>PTextDelta delta item_id output_index content_index\<close>, \<open>PTextDone text item_id output_index\<close>,
  \<open>PFunctionCallArgsDelta delta call_id item_id output_index\<close>,
  \<open>PFunctionCallArgsDone arguments call_id item_id name output_index\<close>,
  \<open>PShellCallCommand item_id output_index command_index update\<close>, and so on.
\<close>

record event_frame =
  ef_type :: sse_event_type
  ef_payload :: event_payload
  ef_wire :: wire_event

fun payload_output_index :: "event_payload \<Rightarrow> u32 option option" where
  "payload_output_index (POutputItemAdded _ _ i _ _ _ _) = Some i"
| "payload_output_index (POutputItemDone _ _ i _) = Some i"
| "payload_output_index (PTextDelta _ _ i _) = Some i"
| "payload_output_index (PTextDone _ _ i) = Some i"
| "payload_output_index (PFunctionCallArgsDelta _ _ _ i) = Some i"
| "payload_output_index (PFunctionCallArgsDone _ _ _ _ i) = Some i"
| "payload_output_index (PCustomToolCallInputDelta _ _ i) = Some i"
| "payload_output_index (PCustomToolCallInputDone _ _ i) = Some i"
| "payload_output_index (PReasoningTextDelta _ _ i _) = Some i"
| "payload_output_index (PReasoningTextDone _ _ i _) = Some i"
| "payload_output_index (PReasoningSummaryTextDelta _ _ i _) = Some i"
| "payload_output_index (PReasoningSummaryTextDone _ _ i _) = Some i"
| "payload_output_index _ = None"

definition frame_output_index :: "event_frame \<Rightarrow> u32 option" where
  "frame_output_index f =
     (case payload_output_index (ef_payload f) of
        Some i \<Rightarrow> i
      | None \<Rightarrow> Option.bind (we_output_index (ef_wire f)) u32_of_u64)"

fun payload_set_output_index :: "u32 \<Rightarrow> event_payload \<Rightarrow> event_payload" where
  "payload_set_output_index i (POutputItemAdded a b _ c d e f) = POutputItemAdded a b (Some i) c d e f"
| "payload_set_output_index i (POutputItemDone a b _ c) = POutputItemDone a b (Some i) c"
| "payload_set_output_index i (PTextDelta a b _ c) = PTextDelta a b (Some i) c"
| "payload_set_output_index i (PTextDone a b _) = PTextDone a b (Some i)"
| "payload_set_output_index i (PFunctionCallArgsDelta a b c _) = PFunctionCallArgsDelta a b c (Some i)"
| "payload_set_output_index i (PFunctionCallArgsDone a b c d _) = PFunctionCallArgsDone a b c d (Some i)"
| "payload_set_output_index i (PCustomToolCallInputDelta a b _) = PCustomToolCallInputDelta a b (Some i)"
| "payload_set_output_index i (PCustomToolCallInputDone a b _) = PCustomToolCallInputDone a b (Some i)"
| "payload_set_output_index i (PReasoningTextDelta a b _ c) = PReasoningTextDelta a b (Some i) c"
| "payload_set_output_index i (PReasoningTextDone a b _ c) = PReasoningTextDone a b (Some i) c"
| "payload_set_output_index i (PReasoningSummaryTextDelta a b _ c) = PReasoningSummaryTextDelta a b (Some i) c"
| "payload_set_output_index i (PReasoningSummaryTextDone a b _ c) = PReasoningSummaryTextDone a b (Some i) c"
| "payload_set_output_index i (PRaw v) = PRaw (json_insert ''output_index'' (json_u32_value i) v)"
| "payload_set_output_index i p = p"

definition frame_set_output_index :: "u32 \<Rightarrow> event_frame \<Rightarrow> event_frame" where
  "frame_set_output_index i f =
     f\<lparr>ef_wire := (ef_wire f)\<lparr>we_output_index := Some (u64_of_u32 i)\<rparr>,
       ef_payload := payload_set_output_index i (ef_payload f)\<rparr>"

definition synthetic_frame :: "sse_event_type \<Rightarrow> json_map \<Rightarrow> event_frame option" where
  "synthetic_frame t rest =
     Option.bind (sse_event_type_str t) (\<lambda>n.
       Some \<lparr>ef_type = t, ef_payload = PNone,
             ef_wire = \<lparr>we_event_type = Some n, we_sequence_number = None, we_output_index = None,
                        we_rest = rest\<rparr>\<rparr>)"

definition frame_sequence_number :: "event_frame \<Rightarrow> u64 option" where
  "frame_sequence_number f = we_sequence_number (ef_wire f)"

lemma payload_output_index_set:
  "payload_output_index (payload_set_output_index i p) = map_option (\<lambda>_. Some i) (payload_output_index p)"
  by (cases p) simp_all

lemma frame_output_index_set [simp]: "frame_output_index (frame_set_output_index i f) = Some i"
  by (simp add: frame_output_index_def frame_set_output_index_def payload_output_index_set
      split: option.splits)

lemma frame_set_output_index_type [simp]:
  "ef_type (frame_set_output_index i f) = ef_type f"
  "we_rest (ef_wire (frame_set_output_index i f)) = we_rest (ef_wire f)"
  "we_event_type (ef_wire (frame_set_output_index i f)) = we_event_type (ef_wire f)"
  by (simp_all add: frame_set_output_index_def)

text \<open>What a wire event must satisfy for its fields and its rest not to overlap.\<close>

definition wire_event_wf :: "wire_event \<Rightarrow> bool" where
  "wire_event_wf w \<longleftrightarrow> im_wf (we_rest w) \<and> (\<forall>k \<in> set wire_event_keys. k \<notin> set (im_keys (we_rest w)))"

lemma im_get_filter_keys:
  "im_get (filter (\<lambda>(k, _). P k) m) k = (if P k then im_get m k else None)"
  by (induction m) auto

lemma im_get_append: "im_get (xs @ ys) k = (case im_get xs k of None \<Rightarrow> im_get ys k | Some v \<Rightarrow> Some v)"
  by (induction xs) auto

lemma wire_event_of_to_json:
  assumes "wire_event_wf w"
  shows "wire_event_of_json (wire_event_to_json w) = Some w"
proof -
  have none: "im_get (we_rest w) ''type'' = None" "im_get (we_rest w) ''sequence_number'' = None"
    "im_get (we_rest w) ''output_index'' = None"
    using assms by (simp_all add: wire_event_wf_def wire_event_keys_def im_get_None_iff)
  have "(k, v) \<in> set (we_rest w) \<Longrightarrow> k \<notin> set wire_event_keys" for k v
    using assms by (auto simp: wire_event_wf_def set_im_keys)
  then have keep: "filter (\<lambda>(k, _). k \<notin> set wire_event_keys) (we_rest w) = we_rest w"
    by (auto simp: filter_id_conv)
  note keep' = keep [unfolded wire_event_keys_def, simplified]
  show ?thesis
    by (cases "we_event_type w"; cases "we_sequence_number w"; cases "we_output_index w")
      (simp_all add: wire_event_to_json_def wire_event_of_json_def none wire_event_keys_def keep'
        wire_event.equality)
qed

text \<open>
  A wire event survives serialization: what is read back from the object written for it is
  the event itself, whichever fields are present.
\<close>

theorem wire_event_round_trip:
  assumes "wire_event_wf w"
  shows "wire_event_of_json (wire_event_to_json w) = Some w"
  using assms by (rule wire_event_of_to_json)

theorem wire_event_round_trip_witness:
  "wire_event_of_json (wire_event_to_json
     \<lparr>we_event_type = Some ''response.created'', we_sequence_number = Some 3, we_output_index = None,
      we_rest = [(''response'', JNull)]\<rparr>) =
   Some \<lparr>we_event_type = Some ''response.created'', we_sequence_number = Some 3, we_output_index = None,
      we_rest = [(''response'', JNull)]\<rparr>"
  by (rule wire_event_round_trip) (simp add: wire_event_wf_def wire_event_keys_def)

end
