(* ===== verification/Normalize.thy ===== *)
theory Normalize
  imports Events "HOL-Library.Sublist"
begin

text \<open>
  From one framed SSE line to a typed frame: \<open>events/sse.rs\<close> and \<open>events/normalize.rs\<close>.
  Strings are UTF-8 byte sequences; \<open>str::trim\<close> removes the code points with the Unicode
  property White_Space, given by their encodings.
\<close>

section \<open>SSE fields\<close>

definition white_space :: "string list" where
  "white_space =
     [[CHR 0x09], [CHR 0x0A], [CHR 0x0B], [CHR 0x0C], [CHR 0x0D], [CHR 0x20],
      [CHR 0xC2, CHR 0x85], [CHR 0xC2, CHR 0xA0], [CHR 0xE1, CHR 0x9A, CHR 0x80],
      [CHR 0xE2, CHR 0x80, CHR 0x80], [CHR 0xE2, CHR 0x80, CHR 0x81], [CHR 0xE2, CHR 0x80, CHR 0x82],
      [CHR 0xE2, CHR 0x80, CHR 0x83], [CHR 0xE2, CHR 0x80, CHR 0x84], [CHR 0xE2, CHR 0x80, CHR 0x85],
      [CHR 0xE2, CHR 0x80, CHR 0x86], [CHR 0xE2, CHR 0x80, CHR 0x87], [CHR 0xE2, CHR 0x80, CHR 0x88],
      [CHR 0xE2, CHR 0x80, CHR 0x89], [CHR 0xE2, CHR 0x80, CHR 0x8A], [CHR 0xE2, CHR 0x80, CHR 0xA8],
      [CHR 0xE2, CHR 0x80, CHR 0xA9], [CHR 0xE2, CHR 0x80, CHR 0xAF], [CHR 0xE2, CHR 0x81, CHR 0x9F],
      [CHR 0xE3, CHR 0x80, CHR 0x80]]"

definition str_strip_prefix :: "string \<Rightarrow> string \<Rightarrow> string option" where
  "str_strip_prefix p s = (if prefix p s then Some (drop (length p) s) else None)"

definition strip_one :: "string list \<Rightarrow> string \<Rightarrow> string option" where
  "strip_one ws s =
     Option.bind (find (\<lambda>w. prefix w s \<and> w \<noteq> []) ws) (\<lambda>w. str_strip_prefix w s)"

lemma strip_one_shorter: "strip_one ws s = Some t \<Longrightarrow> length t < length s"
proof -
  assume "strip_one ws s = Some t"
  then obtain w where "w \<noteq> []" "prefix w s" "t = drop (length w) s"
    by (auto simp: strip_one_def str_strip_prefix_def find_Some_iff bind_eq_Some split: if_splits)
  then show ?thesis by (auto simp: prefix_def)
qed

function strip_all :: "string list \<Rightarrow> string \<Rightarrow> string" where
  "strip_all ws s = (case strip_one ws s of None \<Rightarrow> s | Some t \<Rightarrow> strip_all ws t)"
  by auto
termination by (relation "measure (\<lambda>(_, s). length s)") (auto dest: strip_one_shorter)

declare strip_all.simps [simp del]

definition str_trim :: "string \<Rightarrow> string" where
  "str_trim s = rev (strip_all (map rev white_space) (rev (strip_all white_space s)))"

datatype classified_sse_line = SseData string | SseDone | SseIgnore

definition sse_line_parse :: "string \<Rightarrow> classified_sse_line" where
  "sse_line_parse raw =
     (case str_strip_prefix ''data:'' raw of
        None \<Rightarrow> SseIgnore
      | Some rest \<Rightarrow>
          let data = unwrap_or (str_strip_prefix '' '' rest) rest;
              t = str_trim data
          in if t = '''' then SseIgnore
             else if t = ''[DONE]'' then SseDone
             else SseData data)"

lemma str_strip_prefix_iff: "str_strip_prefix p s = Some t \<longleftrightarrow> s = p @ t"
  by (auto simp: str_strip_prefix_def prefix_def)

lemma str_strip_prefix_None_iff: "str_strip_prefix p s = None \<longleftrightarrow> \<not> prefix p s"
  by (simp add: str_strip_prefix_def)

lemma strip_all_fixed: "strip_one ws (strip_all ws s) = None"
  by (induction ws s rule: strip_all.induct) (subst strip_all.simps, auto split: option.splits)

lemma strip_all_suffix: "suffix (strip_all ws s) s"
proof (induction ws s rule: strip_all.induct)
  case (1 ws s)
  show ?case
  proof (cases "strip_one ws s")
    case None
    then show ?thesis by (subst strip_all.simps) simp
  next
    case (Some t)
    then have "suffix t s"
      by (auto simp: strip_one_def bind_eq_Some str_strip_prefix_def intro: suffix_drop split: if_splits)
    with 1 [OF Some] Some show ?thesis
      by (subst strip_all.simps) (auto intro: suffix_order.trans)
  qed
qed

text \<open>
  Field classification of a framed line. A line is data exactly when it has the data
  prefix and its trimmed payload is neither empty nor the end sentinel; the payload is the
  line without the prefix and without one optional space, untrimmed; a framed payload is
  recovered whatever it holds.
\<close>

theorem sse_line_parse_spec:
  "(sse_line_parse raw = SseData d \<longleftrightarrow>
      (\<exists>sp. raw = ''data:'' @ sp @ d \<and> (sp = '' '' \<or> sp = '''' \<and> \<not> prefix '' '' d))
      \<and> str_trim d \<noteq> '''' \<and> str_trim d \<noteq> ''[DONE]'')
   \<and> (\<not> prefix ''data:'' raw \<longrightarrow> sse_line_parse raw = SseIgnore)
   \<and> (str_trim d = ''[DONE]'' \<longrightarrow> sse_line_parse (''data: '' @ d) = SseDone)
   \<and> (str_trim d = '''' \<longrightarrow> sse_line_parse (''data: '' @ d) = SseIgnore)"
proof (intro conjI impI)
  show "sse_line_parse raw = SseData d \<longleftrightarrow>
      (\<exists>sp. raw = ''data:'' @ sp @ d \<and> (sp = '' '' \<or> sp = '''' \<and> \<not> prefix '' '' d))
      \<and> str_trim d \<noteq> '''' \<and> str_trim d \<noteq> ''[DONE]''"
  proof (cases "str_strip_prefix ''data:'' raw")
    case None
    then have "sse_line_parse raw = SseIgnore" by (simp add: sse_line_parse_def)
    moreover from None have "\<not> prefix ''data:'' raw" by (simp add: str_strip_prefix_None_iff)
    ultimately show ?thesis by (auto simp: prefix_def)
  next
    case (Some rest)
    then have raw: "raw = ''data:'' @ rest" by (simp only: str_strip_prefix_iff)
    obtain data where data: "unwrap_or (str_strip_prefix '' '' rest) rest = data"
      and sp: "rest = '' '' @ data \<or> rest = data \<and> \<not> prefix '' '' data"
    proof (cases "str_strip_prefix '' '' rest")
      case None
      moreover from None have "\<not> prefix '' '' rest" by (simp add: str_strip_prefix_None_iff)
      ultimately show thesis using that [of rest] by simp
    next
      case (Some t)
      moreover from Some have "rest = '' '' @ t" by (simp only: str_strip_prefix_iff)
      ultimately show thesis using that [of t] by simp
    qed
    have "sse_line_parse raw =
        (if str_trim data = '''' then SseIgnore
         else if str_trim data = ''[DONE]'' then SseDone else SseData data)"
      by (simp add: sse_line_parse_def Some data Let_def)
    with raw sp show ?thesis by (auto simp: prefix_def)
  qed
  show "sse_line_parse raw = SseIgnore" if "\<not> prefix ''data:'' raw"
    using that by (simp add: sse_line_parse_def str_strip_prefix_def)
  show "sse_line_parse (''data: '' @ d) = SseDone" if "str_trim d = ''[DONE]''"
    using that by (simp add: sse_line_parse_def str_strip_prefix_def)
  show "sse_line_parse (''data: '' @ d) = SseIgnore" if "str_trim d = ''''"
    using that by (simp add: sse_line_parse_def str_strip_prefix_def)
qed

theorem sse_line_parse_spec_witness:
  "sse_line_parse ''data: {'' = SseData ''{''
   \<and> sse_line_parse ''event: x'' = SseIgnore
   \<and> sse_line_parse (''data: '' @ '' [DONE]'') = SseDone
   \<and> sse_line_parse (''data: '' @ '' '') = SseIgnore"
proof -
  have "str_trim ''{'' = ''{''" "str_trim '' [DONE]'' = ''[DONE]''" "str_trim '' '' = ''''"
    by code_simp+
  moreover have "\<not> prefix ''data:'' ''event: x''" by simp
  ultimately show ?thesis
    using sse_line_parse_spec [of "''data: {''" "''{''"] sse_line_parse_spec [of "''event: x''" "''''"]
      sse_line_parse_spec [of "''''" "'' [DONE]''"] sse_line_parse_spec [of "''''" "'' ''"]
    by simp
qed

section \<open>From JSON to a frame\<close>

text \<open>
  What the code takes from \<open>serde_json\<close> and from derived (de)serializers: the parser and
  printer of JSON text and the typed views of usage, items and details. Deserializing a
  function call may draw a fresh UUID for a missing identifier; the draw is the first argument.
\<close>

record codec =
  cd_parse :: "string \<Rightarrow> json option"
  cd_print :: "json \<Rightarrow> string"
  cd_usage :: "json \<Rightarrow> response_usage option"
  cd_output_item :: "string \<Rightarrow> json \<Rightarrow> string + output_item"
  cd_function_tool_call :: "string \<Rightarrow> json \<Rightarrow> function_tool_call option"
  cd_tool_search_call :: "json \<Rightarrow> tool_search_call option"
  cd_custom_tool_call :: "json \<Rightarrow> custom_tool_call option"
  cd_mcp_call :: "json \<Rightarrow> mcp_call option"
  cd_mcp_list_tools :: "json \<Rightarrow> mcp_list_tools option"
  cd_compaction_item :: "json \<Rightarrow> compaction_item option"
  cd_incomplete_details :: "json \<Rightarrow> incomplete_details option"
  cd_ser_output_item :: "output_item \<Rightarrow> json"

definition json_str :: "json \<Rightarrow> string \<Rightarrow> string" where
  "json_str j k = unwrap_or (as_str (json_at j k)) ''''"

definition json_str_opt :: "json \<Rightarrow> string \<Rightarrow> string option" where
  "json_str_opt j k = as_str (json_at j k)"

definition json_output_item_id :: "json \<Rightarrow> string" where
  "json_output_item_id item =
     unwrap_or
       (or_else (filter_option (\<lambda>i. i \<noteq> '''') (as_str (json_at item ''id'')))
                (filter_option (\<lambda>i. i \<noteq> '''') (as_str (json_at item ''item_id'')))) ''''"

definition json_output_index :: "json \<Rightarrow> u32 option" where
  "json_output_index j =
     Option.bind (Option.bind (json_get j ''output_index'') as_u64) u32_of_u64"

definition json_u32 :: "json \<Rightarrow> string \<Rightarrow> u32" where
  "json_u32 j k = unwrap_or (u32_of_u64 (unwrap_or (as_u64 (json_at j k)) 0)) (- 1)"

definition extract_response_payload :: "codec \<Rightarrow> json \<Rightarrow> event_payload" where
  "extract_response_payload c j =
     (let response = json_at j ''response''
      in PResponse (json_str response ''id'') (json_str response ''status'')
           (Option.bind (filter_option (\<lambda>v. v \<noteq> JNull) (json_get response ''usage'')) (cd_usage c)))"

definition extract_output_item_added :: "codec \<Rightarrow> string \<Rightarrow> json \<Rightarrow> event_payload" where
  "extract_output_item_added c u j =
     (let item = json_at j ''item''
      in POutputItemAdded (json_output_item_id item) (sse_item_type_of_str (json_str item ''type''))
           (json_output_index j) (json_str_opt item ''name'') (json_str_opt item ''namespace'')
           (json_str_opt item ''call_id'')
           (if json_at item ''type'' = JString ''shell_call''
            then (case cd_output_item c u item of Inr (OutShellCall call) \<Rightarrow> Some call | _ \<Rightarrow> None)
            else None))"

definition extract_output_item_done :: "json \<Rightarrow> event_payload" where
  "extract_output_item_done j =
     (let item0 = json_at j ''item'';
          item_id = json_output_item_id item0;
          item = (if item_id \<noteq> '''' \<and> unwrap_or (as_str (json_at item0 ''id'')) '''' = ''''
                  then json_insert ''id'' (JString item_id) item0 else item0)
      in POutputItemDone item_id (sse_item_type_of_str (json_str item ''type'')) (json_output_index j) item)"

definition extract_shell_command :: "json \<Rightarrow> shell_command_update \<Rightarrow> event_payload" where
  "extract_shell_command j update =
     PShellCallCommand (json_str j ''item_id'') (json_u32 j ''output_index'') (json_u32 j ''command_index'') update"

definition extract_text_delta :: "json \<Rightarrow> event_payload" where
  "extract_text_delta j =
     PTextDelta (json_str j ''delta'') (json_str j ''item_id'') (json_output_index j) (json_u32 j ''content_index'')"

definition extract_text_done :: "json \<Rightarrow> event_payload" where
  "extract_text_done j =
     PTextDone (json_str j ''text'') (json_str j ''item_id'') (json_output_index j)"

definition extract_fn_call_args_delta :: "json \<Rightarrow> event_payload" where
  "extract_fn_call_args_delta j =
     PFunctionCallArgsDelta (json_str j ''delta'') (json_str_opt j ''call_id'') (json_str j ''item_id'')
       (json_output_index j)"

definition extract_fn_call_args_done :: "json \<Rightarrow> event_payload" where
  "extract_fn_call_args_done j =
     PFunctionCallArgsDone (json_str j ''arguments'') (json_str_opt j ''call_id'') (json_str j ''item_id'')
       (json_str j ''name'') (json_output_index j)"

definition extract_custom_tool_call_input_delta :: "json \<Rightarrow> event_payload" where
  "extract_custom_tool_call_input_delta j =
     PCustomToolCallInputDelta (json_str j ''delta'') (json_str j ''item_id'') (json_output_index j)"

definition extract_custom_tool_call_input_done :: "json \<Rightarrow> event_payload" where
  "extract_custom_tool_call_input_done j =
     PCustomToolCallInputDone (json_str j ''input'') (json_str j ''item_id'') (json_output_index j)"

definition extract_shell_call_command_added :: "json \<Rightarrow> event_payload" where
  "extract_shell_call_command_added j =
     extract_shell_command j (ShellAdded (json_str j ''command''))"

definition extract_shell_call_command_delta :: "json \<Rightarrow> event_payload" where
  "extract_shell_call_command_delta j =
     extract_shell_command j (ShellDelta (json_str j ''delta''))"

definition extract_shell_call_command_done :: "json \<Rightarrow> event_payload" where
  "extract_shell_call_command_done j =
     extract_shell_command j (ShellDone (json_str j ''command''))"

definition extract_reasoning_text_delta :: "json \<Rightarrow> event_payload" where
  "extract_reasoning_text_delta j =
     PReasoningTextDelta (json_str j ''delta'') (json_str j ''item_id'') (json_output_index j)
       (json_u32 j ''content_index'')"

definition extract_reasoning_text_done :: "json \<Rightarrow> event_payload" where
  "extract_reasoning_text_done j =
     PReasoningTextDone (json_str j ''text'') (json_str j ''item_id'') (json_output_index j)
       (json_u32 j ''content_index'')"

definition extract_reasoning_summary_text_delta :: "json \<Rightarrow> event_payload" where
  "extract_reasoning_summary_text_delta j =
     PReasoningSummaryTextDelta (json_str j ''delta'') (json_str j ''item_id'') (json_output_index j)
       (json_u32 j ''summary_index'')"

definition extract_reasoning_summary_text_done :: "json \<Rightarrow> event_payload" where
  "extract_reasoning_summary_text_done j =
     PReasoningSummaryTextDone (json_str j ''text'') (json_str j ''item_id'') (json_output_index j)
       (json_u32 j ''summary_index'')"

lemmas extract_defs =
  extract_response_payload_def extract_output_item_added_def extract_output_item_done_def
  extract_shell_command_def extract_text_delta_def extract_text_done_def
  extract_fn_call_args_delta_def extract_fn_call_args_done_def
  extract_custom_tool_call_input_delta_def extract_custom_tool_call_input_done_def
  extract_shell_call_command_added_def extract_shell_call_command_delta_def
  extract_shell_call_command_done_def extract_reasoning_text_delta_def
  extract_reasoning_text_done_def extract_reasoning_summary_text_delta_def
  extract_reasoning_summary_text_done_def

fun extract_payload :: "codec \<Rightarrow> string \<Rightarrow> sse_event_type \<Rightarrow> json \<Rightarrow> event_payload" where
  "extract_payload c u ResponseCreated j = extract_response_payload c j"
| "extract_payload c u ResponseInProgress j = extract_response_payload c j"
| "extract_payload c u ResponseCompleted j = extract_response_payload c j"
| "extract_payload c u ResponseFailed j = extract_response_payload c j"
| "extract_payload c u ResponseIncomplete j = extract_response_payload c j"
| "extract_payload c u OutputItemAdded j = extract_output_item_added c u j"
| "extract_payload c u OutputItemDone j = extract_output_item_done j"
| "extract_payload c u OutputTextDelta j = extract_text_delta j"
| "extract_payload c u OutputTextDone j = extract_text_done j"
| "extract_payload c u FunctionCallArgumentsDelta j = extract_fn_call_args_delta j"
| "extract_payload c u FunctionCallArgumentsDone j = extract_fn_call_args_done j"
| "extract_payload c u CustomToolCallInputDelta j = extract_custom_tool_call_input_delta j"
| "extract_payload c u CustomToolCallInputDone j = extract_custom_tool_call_input_done j"
| "extract_payload c u ShellCallCommandAdded j = extract_shell_call_command_added j"
| "extract_payload c u ShellCallCommandDelta j = extract_shell_call_command_delta j"
| "extract_payload c u ShellCallCommandDone j = extract_shell_call_command_done j"
| "extract_payload c u ReasoningTextDelta j = extract_reasoning_text_delta j"
| "extract_payload c u ReasoningTextDone j = extract_reasoning_text_done j"
| "extract_payload c u ReasoningSummaryTextDelta j = extract_reasoning_summary_text_delta j"
| "extract_payload c u ReasoningSummaryTextDone j = extract_reasoning_summary_text_done j"
| "extract_payload c u t j = PRaw j"

datatype invalid_output_index = InvalidOutputIndex

definition json_event_type :: "json \<Rightarrow> sse_event_type" where
  "json_event_type j =
     (case Option.bind (json_get j ''type'') as_str of
        None \<Rightarrow> Other | Some s \<Rightarrow> sse_event_type_of_str s)"

definition normalize_sse_value ::
  "codec \<Rightarrow> string \<Rightarrow> json \<Rightarrow> invalid_output_index + event_frame option" where
  "normalize_sse_value c u j =
     (if json_get j ''output_index'' \<noteq> None \<and> json_output_index j = None then Inl InvalidOutputIndex
      else
        let t0 = json_event_type j;
            incomplete = (t0 = ResponseCompleted
                          \<and> json_at (json_at j ''response'') ''status'' = JString ''incomplete'');
            t = (if incomplete then ResponseIncomplete else t0);
            j1 = (if incomplete then json_insert ''type'' (JString ''response.incomplete'') j else j);
            payload = extract_payload c u t j1
        in Inr (map_option (\<lambda>w. \<lparr>ef_type = t, ef_payload = payload, ef_wire = w\<rparr>)
                  (wire_event_of_json j1)))"

definition normalize_sse_data_checked ::
  "codec \<Rightarrow> string \<Rightarrow> string \<Rightarrow> invalid_output_index + event_frame option" where
  "normalize_sse_data_checked c u d =
     (case cd_parse c d of None \<Rightarrow> Inr None | Some j \<Rightarrow> normalize_sse_value c u j)"

definition normalize_sse_line :: "codec \<Rightarrow> string \<Rightarrow> string \<Rightarrow> event_frame option" where
  "normalize_sse_line c u line =
     (case sse_line_parse line of
        SseData d \<Rightarrow> (case normalize_sse_data_checked c u d of Inl _ \<Rightarrow> None | Inr r \<Rightarrow> r)
      | _ \<Rightarrow> None)"

section \<open>Frames are coherent\<close>

text \<open>Which payload constructor belongs to an event kind.\<close>

fun payload_fits :: "sse_event_type \<Rightarrow> event_payload \<Rightarrow> bool" where
  "payload_fits t (PResponse _ _ _) \<longleftrightarrow>
     t \<in> {ResponseCreated, ResponseInProgress, ResponseCompleted, ResponseFailed, ResponseIncomplete}"
| "payload_fits t (POutputItemAdded _ _ _ _ _ _ _) \<longleftrightarrow> t = OutputItemAdded"
| "payload_fits t (POutputItemDone _ _ _ _) \<longleftrightarrow> t = OutputItemDone"
| "payload_fits t (PTextDelta _ _ _ _) \<longleftrightarrow> t = OutputTextDelta"
| "payload_fits t (PTextDone _ _ _) \<longleftrightarrow> t = OutputTextDone"
| "payload_fits t (PFunctionCallArgsDelta _ _ _ _) \<longleftrightarrow> t = FunctionCallArgumentsDelta"
| "payload_fits t (PFunctionCallArgsDone _ _ _ _ _) \<longleftrightarrow> t = FunctionCallArgumentsDone"
| "payload_fits t (PShellCallCommand _ _ _ up) \<longleftrightarrow>
     (case up of ShellAdded _ \<Rightarrow> t = ShellCallCommandAdded | ShellDelta _ \<Rightarrow> t = ShellCallCommandDelta
      | ShellDone _ \<Rightarrow> t = ShellCallCommandDone)"
| "payload_fits t (PCustomToolCallInputDelta _ _ _) \<longleftrightarrow> t = CustomToolCallInputDelta"
| "payload_fits t (PCustomToolCallInputDone _ _ _) \<longleftrightarrow> t = CustomToolCallInputDone"
| "payload_fits t (PReasoningTextDelta _ _ _ _) \<longleftrightarrow> t = ReasoningTextDelta"
| "payload_fits t (PReasoningTextDone _ _ _ _) \<longleftrightarrow> t = ReasoningTextDone"
| "payload_fits t (PReasoningSummaryTextDelta _ _ _ _) \<longleftrightarrow> t = ReasoningSummaryTextDelta"
| "payload_fits t (PReasoningSummaryTextDone _ _ _ _) \<longleftrightarrow> t = ReasoningSummaryTextDone"
| "payload_fits t (PRaw _) \<longleftrightarrow>
     t \<in> {ContentPartAdded, ContentPartDone, ReasoningPartAdded, ReasoningPartDone,
           FileSearchCallSearching, FileSearchCallCompleted, WebSearchCallInProgress,
           WebSearchCallSearching, WebSearchCallCompleted, McpCallInProgress, McpCallArgumentsDelta,
           McpCallArgumentsDone, McpCallCompleted, McpCallFailed, McpListToolsInProgress,
           McpListToolsCompleted, McpListToolsFailed, Other}"
| "payload_fits t PNone \<longleftrightarrow> False"

lemma extract_payload_fits: "payload_fits t (extract_payload c u t j)"
  by (cases t)
    (simp_all add: extract_defs Let_def)

lemma extract_payload_output_index:
  "payload_output_index (extract_payload c u t j) \<in> {None, Some (json_output_index j)}"
  by (cases t)
    (simp_all add: extract_defs Let_def)

lemma json_get_insert_type:
  "json_get (json_insert ''type'' v j) k = (if k = ''type'' \<and> as_object j \<noteq> None then Some v else json_get j k)"
  by (cases j) (simp_all add: json_get_def)

lemma json_output_index_insert_type [simp]:
  "json_output_index (json_insert ''type'' v j) = json_output_index j"
  by (simp add: json_output_index_def json_get_insert_type)

lemma wire_event_of_json_fields:
  assumes "wire_event_of_json j = Some w"
  shows "we_event_type w = Option.bind (json_get j ''type'') as_str"
    and "we_output_index w = Option.bind (json_get j ''output_index'') as_u64"
proof -
  obtain m where j: "j = JObject m" using assms
    by (cases j) (simp_all add: wire_event_of_json_def)
  have str: "deserialize_opt_string o1 = Some r \<Longrightarrow> r = Option.bind o1 as_str" for o1 r
    by (cases o1 rule: deserialize_opt_string.cases) auto
  have num: "deserialize_opt_u64 o1 = Some r \<Longrightarrow> r = Option.bind o1 as_u64" for o1 r
    by (cases o1 rule: deserialize_opt_u64.cases) auto
  from assms str num show "we_event_type w = Option.bind (json_get j ''type'') as_str"
    "we_output_index w = Option.bind (json_get j ''output_index'') as_u64"
    by (auto simp: wire_event_of_json_def j result_simps)
qed

lemma json_event_type_object: "json_event_type j = ResponseCompleted \<Longrightarrow> as_object j \<noteq> None"
  by (cases j) (simp_all add: json_event_type_def json_get_def)

text \<open>
  C40: every frame that normalization produces is coherent: its kind is the one its wire type
  names, its payload is the one of that kind, its output index is the wire's and fits 32 bits,
  and a completion whose response ran out of tokens is never left classified as completed.
\<close>

theorem normalized_frame_coherent:
  assumes "normalize_sse_value c u j = Inr (Some f)"
  shows "ef_type f = (case we_event_type (ef_wire f) of None \<Rightarrow> Other | Some s \<Rightarrow> sse_event_type_of_str s)
    \<and> payload_fits (ef_type f) (ef_payload f)
    \<and> frame_output_index f = json_output_index j
    \<and> (we_output_index (ef_wire f) = None \<longleftrightarrow> frame_output_index f = None)
    \<and> \<not> (ef_type f = ResponseCompleted
         \<and> json_at (json_at j ''response'') ''status'' = JString ''incomplete'')"
proof -
  define incomplete where "incomplete \<longleftrightarrow> json_event_type j = ResponseCompleted
      \<and> json_at (json_at j ''response'') ''status'' = JString ''incomplete''"
  define t where "t = (if incomplete then ResponseIncomplete else json_event_type j)"
  define j1 where "j1 = (if incomplete then json_insert ''type'' (JString ''response.incomplete'') j else j)"
  from assms obtain w where w: "wire_event_of_json j1 = Some w"
    and f: "f = \<lparr>ef_type = t, ef_payload = extract_payload c u t j1, ef_wire = w\<rparr>"
    and idx: "json_get j ''output_index'' = None \<or> json_output_index j \<noteq> None"
    by (auto simp: normalize_sse_value_def Let_def incomplete_def t_def j1_def split: if_splits)
  have j1_index: "json_output_index j1 = json_output_index j"
    "json_get j1 ''output_index'' = json_get j ''output_index''"
    by (simp_all add: j1_def json_get_insert_type)
  have wire_index: "Option.bind (we_output_index w) u32_of_u64 = json_output_index j"
    using wire_event_of_json_fields(2) [OF w] by (simp add: json_output_index_def j1_index)
  have "t = (case we_event_type w of None \<Rightarrow> Other | Some s \<Rightarrow> sse_event_type_of_str s)"
  proof (cases incomplete)
    case True
    then have "json_get j1 ''type'' = Some (JString ''response.incomplete'')"
      using json_event_type_object by (auto simp: j1_def json_get_insert_type incomplete_def)
    with True show ?thesis
      using wire_event_of_json_fields(1) [OF w]
      by (simp add: t_def sse_event_type_of_str_str [of ResponseIncomplete])
  next
    case False
    then show ?thesis
      using wire_event_of_json_fields(1) [OF w] by (simp add: t_def j1_def json_event_type_def)
  qed
  moreover have "frame_output_index f = json_output_index j"
    using extract_payload_output_index [of c u t j1] wire_index
    by (auto simp: frame_output_index_def f j1_index)
  moreover have "we_output_index w = None \<longleftrightarrow> json_output_index j = None"
    using idx wire_event_of_json_fields(2) [OF w] wire_index
    by (cases "json_get j ''output_index''") (auto simp: j1_index json_output_index_def)
  moreover have "\<not> (t = ResponseCompleted \<and> json_at (json_at j ''response'') ''status'' = JString ''incomplete'')"
    by (simp add: t_def incomplete_def)
  ultimately show ?thesis using f extract_payload_fits by simp
qed

definition plain_codec :: codec where
  "plain_codec =
     \<lparr>cd_parse = (\<lambda>_. None), cd_print = (\<lambda>_. ''{}''), cd_usage = (\<lambda>_. None),
      cd_output_item = (\<lambda>_ _. Inr OutUnknown), cd_function_tool_call = (\<lambda>_ _. None),
      cd_tool_search_call = (\<lambda>_. None), cd_custom_tool_call = (\<lambda>_. None), cd_mcp_call = (\<lambda>_. None),
      cd_mcp_list_tools = (\<lambda>_. None), cd_compaction_item = (\<lambda>_. None),
      cd_incomplete_details = (\<lambda>_. None), cd_ser_output_item = (\<lambda>_. JNull)\<rparr>"

definition completed_but_incomplete :: json where
  "completed_but_incomplete =
     JObject [(''type'', JString ''response.done''),
              (''response'', JObject [(''id'', JString ''r1''), (''status'', JString ''incomplete'')])]"

theorem normalized_frame_coherent_witness:
  "\<exists>f. normalize_sse_value plain_codec '''' completed_but_incomplete = Inr (Some f)
     \<and> ef_type f = (case we_event_type (ef_wire f) of None \<Rightarrow> Other | Some s \<Rightarrow> sse_event_type_of_str s)
     \<and> ef_type f \<noteq> ResponseCompleted"
proof -
  define f where "f = \<lparr>ef_type = ResponseIncomplete, ef_payload = PResponse ''r1'' ''incomplete'' None,
    ef_wire = \<lparr>we_event_type = Some ''response.incomplete'', we_sequence_number = None,
      we_output_index = None,
      we_rest = [(''response'', JObject [(''id'', JString ''r1''), (''status'', JString ''incomplete'')])]\<rparr>\<rparr>"
  have "sse_event_type_of_str ''response.done'' = ResponseCompleted" by code_simp
  then have "normalize_sse_value plain_codec '''' completed_but_incomplete = Inr (Some f)"
    by (simp add: normalize_sse_value_def completed_but_incomplete_def json_event_type_def Let_def
        json_output_index_def extract_response_payload_def json_str_def wire_event_of_json_def
        wire_event_keys_def f_def)
  from normalized_frame_coherent [OF this] this show ?thesis
    by (auto simp: completed_but_incomplete_def)
qed

end
