(* ===== verification/Errors.thy ===== *)
theory Errors
  imports Json
begin

text \<open>
  The error values of the program: \<open>storage/types/errors.rs\<close>, \<open>ToolError\<close> of
  \<open>tool/handler.rs\<close>, \<open>EventError\<close> of \<open>events/validate.rs\<close> and \<open>executor/error.rs\<close>, with the
  mapping from an error to what an API caller sees. Errors of other crates (\<open>sqlx\<close>,
  \<open>reqwest\<close>, \<open>serde_json\<close>) are kept as their display string, and the display of an HTTP
  status (crate \<open>http\<close>) is a parameter.
\<close>

section \<open>Storage errors\<close>

definition quoted :: "string \<Rightarrow> string" where
  "quoted s = CHR 0x27 # s @ [CHR 0x27]"


datatype storage_error =
    StorageNotFound string string
  | InvalidConversationSequence string string
  | ConversationConflict string
  | Database bool string
  | NotConfigured
  | Serialization string

text \<open>The flag of \<open>Database\<close> is \<open>is_unique_violation\<close> of the wrapped \<open>sqlx\<close> error.\<close>

fun storage_is_not_found :: "storage_error \<Rightarrow> bool" where
  "storage_is_not_found (StorageNotFound _ _) = True"
| "storage_is_not_found _ = False"

fun storage_is_not_configured :: "storage_error \<Rightarrow> bool" where
  "storage_is_not_configured NotConfigured = True"
| "storage_is_not_configured _ = False"

fun storage_is_conversation_conflict :: "storage_error \<Rightarrow> bool" where
  "storage_is_conversation_conflict (ConversationConflict _) = True"
| "storage_is_conversation_conflict _ = False"

fun storage_is_unique_violation :: "storage_error \<Rightarrow> bool" where
  "storage_is_unique_violation (Database unique _) = unique"
| "storage_is_unique_violation _ = False"

fun storage_not_found_details :: "storage_error \<Rightarrow> (string \<times> string) option" where
  "storage_not_found_details (StorageNotFound r i) = Some (r, i)"
| "storage_not_found_details _ = None"

fun storage_error_display :: "storage_error \<Rightarrow> string" where
  "storage_error_display (StorageNotFound r i) = ''not found: '' @ r @ '' with id '' @ quoted i"
| "storage_error_display (InvalidConversationSequence c i) =
     ''invalid conversation sequence for conversation '' @ quoted c @ '' item '' @ quoted i"
| "storage_error_display (ConversationConflict _) =
     ''conversation changed while the response was being generated''"
| "storage_error_display (Database _ e) = ''database error: '' @ e"
| "storage_error_display NotConfigured = ''storage not configured or disabled''"
| "storage_error_display (Serialization e) = ''serialization error: '' @ e"

section \<open>Tool and event errors\<close>

datatype tool_error =
    Execution string
  | Config string
  | InvalidUpstreamToolSearch
  | UpstreamWithheldFunctionCall
  | MissingOutput string

fun tool_error_display :: "tool_error \<Rightarrow> string" where
  "tool_error_display (Execution e) = ''execution failed: '' @ e"
| "tool_error_display (Config e) = ''invalid tool config: '' @ e"
| "tool_error_display InvalidUpstreamToolSearch = ''upstream returned an invalid tool-search call''"
| "tool_error_display UpstreamWithheldFunctionCall =
     ''upstream returned a call for a function that has not been loaded''"
| "tool_error_display (MissingOutput c) = ''No tool output found for function call '' @ c @ ''.''"

datatype event_error = EventError string

fun event_error_display :: "event_error \<Rightarrow> string" where
  "event_error_display (EventError m) = m"

definition invalid_event :: "string \<Rightarrow> event_error" where
  "invalid_event m = EventError m"

definition missing_field :: "string \<Rightarrow> string \<Rightarrow> event_error" where
  "missing_field owner field = invalid_event (owner @ '' has no valid '' @ quoted field)"

section \<open>Executor errors\<close>

type_synonym status_code = nat
type_synonym header_map = "(string \<times> string) list"

datatype executor_error =
    Storage storage_error
  | Persistence executor_error
  | ConversationLocked storage_error
  | LLMRequest status_code string header_map
  | LLMTransport status_code string
  | NetworkError string
  | JsonError string
  | StreamError string
  | ParseError string
  | NotFound string string
  | PreviousResponseNotFound string
  | InvalidRequest string
  | PayloadTooLarge string
  | Conflict string
  | CompactionFailed string string
  | Tool tool_error

fun executor_error_display :: "(status_code \<Rightarrow> string) \<Rightarrow> executor_error \<Rightarrow> string" where
  "executor_error_display sd (Storage e) = ''storage error: '' @ storage_error_display e"
| "executor_error_display sd (Persistence _) = ''failed to persist response''"
| "executor_error_display sd (ConversationLocked _) =
     ''conversation changed while the response was being generated; retry the request''"
| "executor_error_display sd (LLMRequest st body _) = ''LLM request failed ('' @ sd st @ ''): '' @ body"
| "executor_error_display sd (LLMTransport _ m) = m"
| "executor_error_display sd (NetworkError e) = ''network error: '' @ e"
| "executor_error_display sd (JsonError e) = ''json error: '' @ e"
| "executor_error_display sd (StreamError m) = ''stream error: '' @ m"
| "executor_error_display sd (ParseError m) = ''parse error: '' @ m"
| "executor_error_display sd (NotFound entity i) = entity @ '' not found: '' @ i"
| "executor_error_display sd (PreviousResponseNotFound i) =
     ''Previous response with id '' @ quoted i @ '' not found.''"
| "executor_error_display sd (InvalidRequest m) = ''invalid request: '' @ m"
| "executor_error_display sd (PayloadTooLarge m) = m"
| "executor_error_display sd (Conflict m) = ''conflict: '' @ m"
| "executor_error_display sd (CompactionFailed st d) =
     ''compaction summarization failed with status '' @ quoted st @ '': '' @ d"
| "executor_error_display sd (Tool e) = ''tool error: '' @ tool_error_display e"

fun is_invalid_upstream_tool_search :: "executor_error \<Rightarrow> bool" where
  "is_invalid_upstream_tool_search (Tool InvalidUpstreamToolSearch) = True"
| "is_invalid_upstream_tool_search (Tool UpstreamWithheldFunctionCall) = True"
| "is_invalid_upstream_tool_search _ = False"

fun contains_conversation_locked :: "executor_error \<Rightarrow> bool" where
  "contains_conversation_locked (ConversationLocked _) = True"
| "contains_conversation_locked (Persistence source) = contains_conversation_locked source"
| "contains_conversation_locked _ = False"

fun client_visible_error :: "executor_error \<Rightarrow> executor_error" where
  "client_visible_error (Persistence source) =
     (if contains_conversation_locked source then client_visible_error source else Persistence source)"
| "client_visible_error e = e"

fun visible_http_status :: "executor_error \<Rightarrow> status_code" where
  "visible_http_status (Storage e) = (if storage_is_not_found e then 404 else 500)"
| "visible_http_status (LLMRequest st _ _) = st"
| "visible_http_status (LLMTransport st _) = st"
| "visible_http_status (ConversationLocked _) = 400"
| "visible_http_status (Tool e) =
     (case e of Config _ \<Rightarrow> 400 | MissingOutput _ \<Rightarrow> 400
      | Execution _ \<Rightarrow> 502 | InvalidUpstreamToolSearch \<Rightarrow> 502 | UpstreamWithheldFunctionCall \<Rightarrow> 502)"
| "visible_http_status (InvalidRequest _) = 400"
| "visible_http_status (PreviousResponseNotFound _) = 400"
| "visible_http_status (JsonError _) = 400"
| "visible_http_status (CompactionFailed _ _) = 502"
| "visible_http_status (Conflict _) = 409"
| "visible_http_status (PayloadTooLarge _) = 413"
| "visible_http_status (ParseError _) = 422"
| "visible_http_status _ = 500"

definition http_status :: "executor_error \<Rightarrow> status_code" where
  "http_status e = visible_http_status (client_visible_error e)"

fun visible_error_type :: "executor_error \<Rightarrow> string" where
  "visible_error_type (ConversationLocked _) = ''invalid_request_error''"
| "visible_error_type (Tool e) =
     (case e of Config _ \<Rightarrow> ''invalid_request_error'' | MissingOutput _ \<Rightarrow> ''invalid_request_error''
      | Execution _ \<Rightarrow> ''tool_error'' | InvalidUpstreamToolSearch \<Rightarrow> ''tool_error''
      | UpstreamWithheldFunctionCall \<Rightarrow> ''tool_error'')"
| "visible_error_type (InvalidRequest _) = ''invalid_request_error''"
| "visible_error_type (PreviousResponseNotFound _) = ''invalid_request_error''"
| "visible_error_type (ParseError _) = ''invalid_request_error''"
| "visible_error_type (JsonError _) = ''invalid_request_error''"
| "visible_error_type (PayloadTooLarge _) = ''invalid_request_error''"
| "visible_error_type (Storage e) = (if storage_is_not_found e then ''not_found'' else ''server_error'')"
| "visible_error_type (Conflict _) = ''conflict_error''"
| "visible_error_type (LLMRequest _ _ _) = ''upstream_error''"
| "visible_error_type (LLMTransport _ _) = ''upstream_error''"
| "visible_error_type (CompactionFailed _ _) = ''upstream_error''"
| "visible_error_type _ = ''server_error''"

definition error_type :: "executor_error \<Rightarrow> string" where
  "error_type e = visible_error_type (client_visible_error e)"

definition error_code :: "executor_error \<Rightarrow> string" where
  "error_code e =
     (case client_visible_error e of
        ConversationLocked _ \<Rightarrow> ''conversation_locked''
      | PreviousResponseNotFound _ \<Rightarrow> ''previous_response_not_found''
      | Conflict _ \<Rightarrow> ''response_already_stored''
      | PayloadTooLarge _ \<Rightarrow> ''body_too_large''
      | other \<Rightarrow> error_type other)"

definition error_param :: "executor_error \<Rightarrow> string option" where
  "error_param e =
     (case client_visible_error e of
        ConversationLocked _ \<Rightarrow> Some ''conversation''
      | PreviousResponseNotFound _ \<Rightarrow> Some ''previous_response_id''
      | Tool (MissingOutput _) \<Rightarrow> Some ''input''
      | _ \<Rightarrow> None)"

definition error_message :: "(status_code \<Rightarrow> string) \<Rightarrow> executor_error \<Rightarrow> string" where
  "error_message sd e =
     (case client_visible_error e of
        Tool (MissingOutput c) \<Rightarrow> tool_error_display (MissingOutput c)
      | other \<Rightarrow> executor_error_display sd other)"

definition response_error :: "(status_code \<Rightarrow> string) \<Rightarrow> executor_error \<Rightarrow> json" where
  "response_error sd e =
     (let code = (case client_visible_error e of
                    Tool (MissingOutput _) \<Rightarrow> JNull
                  | _ \<Rightarrow> JString (error_code e));
          error = im_insert ''code'' code
                    (im_insert ''type'' (JString (error_type e))
                       (im_insert ''message'' (JString (error_message sd e)) []))
      in JObject (case error_param e of
                    None \<Rightarrow> error
                  | Some param \<Rightarrow> im_insert ''param'' (JString param) error))"

text \<open>\<open>into_response_body\<close>; \<open>to_text\<close> prints a JSON value (\<open>serde_json\<close>).\<close>

definition into_response_body :: "(json \<Rightarrow> string) \<Rightarrow> (status_code \<Rightarrow> string) \<Rightarrow> executor_error \<Rightarrow> string" where
  "into_response_body to_text sd e =
     (case e of
        LLMRequest _ body _ \<Rightarrow> body
      | _ \<Rightarrow> to_text (JObject [(''error'', response_error sd e)]))"

lemma client_visible_of_locked:
  "contains_conversation_locked e \<Longrightarrow> \<exists>s. client_visible_error e = ConversationLocked s"
  by (induction e) auto

lemma client_visible_id: "\<not> contains_conversation_locked e \<Longrightarrow> client_visible_error e = e"
  by (cases e) auto

text \<open>
  Whatever failed while a finished response was being persisted, at any nesting of the
  wrapper, the caller sees one of two outcomes: a retryable 400 conflict when a
  conversation lock is the cause, and otherwise a plain 500 whose message says nothing of
  the cause.
\<close>

theorem persistence_error_never_leaks_cause:
  "(if contains_conversation_locked cause
    then http_status (Persistence cause) = 400
       \<and> error_code (Persistence cause) = ''conversation_locked''
       \<and> error_param (Persistence cause) = Some ''conversation''
       \<and> error_message sd (Persistence cause) =
           ''conversation changed while the response was being generated; retry the request''
    else http_status (Persistence cause) = 500
       \<and> error_code (Persistence cause) = ''server_error''
       \<and> error_param (Persistence cause) = None
       \<and> error_message sd (Persistence cause) = ''failed to persist response'')
   \<and> http_status (Persistence (Persistence cause)) = http_status (Persistence cause)
   \<and> response_error sd (Persistence (Persistence cause)) = response_error sd (Persistence cause)"
proof (cases "contains_conversation_locked cause")
  case True
  from client_visible_of_locked [OF True] obtain s where "client_visible_error cause = ConversationLocked s" ..
  with True show ?thesis
    by (simp add: http_status_def error_code_def error_param_def error_message_def
        response_error_def error_type_def)
next
  case False
  then show ?thesis
    by (simp add: http_status_def error_code_def error_param_def error_message_def
        response_error_def error_type_def)
qed

end
