(* ===== verification/Validate.thy ===== *)
theory Validate
  imports Normalize Errors
begin

text \<open>
  The stateless wire-format requirements of one normalized frame: \<open>events/validate.rs\<close>.
\<close>

section \<open>Required fields\<close>

definition required_str :: "json_map \<Rightarrow> string \<Rightarrow> string \<Rightarrow> event_error + string" where
  "required_str m field owner =
     ok_or (filter_option (\<lambda>v. v \<noteq> '''') (Option.bind (im_get m field) as_str)) (missing_field owner field)"

definition required_string :: "json_map \<Rightarrow> string \<Rightarrow> string \<Rightarrow> event_error + string" where
  "required_string m field owner = ok_or (Option.bind (im_get m field) as_str) (missing_field owner field)"

definition required_object :: "json_map \<Rightarrow> string \<Rightarrow> string \<Rightarrow> event_error + json_map" where
  "required_object m field owner = ok_or (Option.bind (im_get m field) as_object) (missing_field owner field)"

definition required_u32 :: "json_map \<Rightarrow> string \<Rightarrow> string \<Rightarrow> event_error + u32" where
  "required_u32 m field owner =
     ok_or (Option.bind (Option.bind (im_get m field) as_u64) u32_of_u64) (missing_field owner field)"

definition required_output_index :: "event_frame \<Rightarrow> string \<Rightarrow> event_error + u32" where
  "required_output_index f owner =
     ok_or (Option.bind (we_output_index (ef_wire f)) u32_of_u64) (missing_field owner ''output_index'')"

section \<open>Items\<close>

fun expected_item_type :: "sse_event_type \<Rightarrow> sse_item_type option" where
  "expected_item_type OutputTextDelta = Some TyMessage"
| "expected_item_type OutputTextDone = Some TyMessage"
| "expected_item_type ContentPartAdded = Some TyMessage"
| "expected_item_type ContentPartDone = Some TyMessage"
| "expected_item_type FunctionCallArgumentsDelta = Some TyFunctionCall"
| "expected_item_type FunctionCallArgumentsDone = Some TyFunctionCall"
| "expected_item_type CustomToolCallInputDelta = Some TyCustomToolCall"
| "expected_item_type CustomToolCallInputDone = Some TyCustomToolCall"
| "expected_item_type ShellCallCommandAdded = Some TyShellCall"
| "expected_item_type ShellCallCommandDelta = Some TyShellCall"
| "expected_item_type ShellCallCommandDone = Some TyShellCall"
| "expected_item_type ReasoningTextDelta = Some TyReasoning"
| "expected_item_type ReasoningTextDone = Some TyReasoning"
| "expected_item_type ReasoningPartAdded = Some TyReasoning"
| "expected_item_type ReasoningPartDone = Some TyReasoning"
| "expected_item_type ReasoningSummaryTextDelta = Some TyReasoning"
| "expected_item_type ReasoningSummaryTextDone = Some TyReasoning"
| "expected_item_type WebSearchCallInProgress = Some TyWebSearchCall"
| "expected_item_type WebSearchCallSearching = Some TyWebSearchCall"
| "expected_item_type WebSearchCallCompleted = Some TyWebSearchCall"
| "expected_item_type McpCallInProgress = Some TyMcpCall"
| "expected_item_type McpCallArgumentsDelta = Some TyMcpCall"
| "expected_item_type McpCallArgumentsDone = Some TyMcpCall"
| "expected_item_type McpCallCompleted = Some TyMcpCall"
| "expected_item_type McpCallFailed = Some TyMcpCall"
| "expected_item_type McpListToolsInProgress = Some TyMcpListTools"
| "expected_item_type McpListToolsCompleted = Some TyMcpListTools"
| "expected_item_type McpListToolsFailed = Some TyMcpListTools"
| "expected_item_type _ = None"

definition unsupported_item :: "string \<Rightarrow> event_error" where
  "unsupported_item name = invalid_event (''upstream output item type '' @ quoted name @ '' is unsupported'')"

definition output_item_identity :: "json_map \<Rightarrow> string \<Rightarrow> event_error + string \<times> sse_item_type" where
  "output_item_identity item owner =
     and_then
       (ok_or
          (or_else (filter_option (\<lambda>i. i \<noteq> '''') (Option.bind (im_get item ''id'') as_str))
                   (filter_option (\<lambda>i. i \<noteq> '''') (Option.bind (im_get item ''item_id'') as_str)))
          (missing_field owner ''id''))
       (\<lambda>item_id. and_then (required_str item ''type'' owner)
          (\<lambda>name. and_then (ok_or (sse_item_type_from_str name) (unsupported_item name))
             (\<lambda>item_type. Inr (item_id, item_type))))"

definition ensure_supported_output_item_type :: "string \<Rightarrow> event_error + unit" where
  "ensure_supported_output_item_type name =
     (case sse_item_type_from_str name of Some _ \<Rightarrow> Inr () | None \<Rightarrow> Inl (unsupported_item name))"

record validated_item =
  vi_item_id :: string
  vi_output_index :: u32
  vi_item_type :: sse_item_type
  vi_done_item :: "output_item option"

fun lifecycle_status :: "sse_event_type \<Rightarrow> string option" where
  "lifecycle_status ResponseCreated = Some ''in_progress''"
| "lifecycle_status ResponseInProgress = Some ''in_progress''"
| "lifecycle_status ResponseCompleted = Some ''completed''"
| "lifecycle_status ResponseFailed = Some ''failed''"
| "lifecycle_status ResponseIncomplete = Some ''incomplete''"
| "lifecycle_status _ = None"

definition validate_response_event :: "event_frame \<Rightarrow> string \<Rightarrow> event_error + unit" where
  "validate_response_event f name =
     and_then (required_object (we_rest (ef_wire f)) ''response'' name) (\<lambda>response.
     and_then (required_str response ''id'' ''upstream response'') (\<lambda>_.
     and_then (required_str response ''status'' ''upstream response'') (\<lambda>status.
       case lifecycle_status (ef_type f) of
         None \<Rightarrow> Inr ()
       | Some expected \<Rightarrow>
           if status = expected then Inr ()
           else Inl (invalid_event (''upstream stream event '' @ quoted name @ '' has status '' @ quoted status
                  @ '', expected '' @ quoted expected)))))"

definition validate_output_item ::
  "codec \<Rightarrow> string \<Rightarrow> event_frame \<Rightarrow> string \<Rightarrow> bool \<Rightarrow> event_error + validated_item" where
  "validate_output_item c u f name complete =
     and_then (required_output_index f name) (\<lambda>output_index.
     and_then (required_object (we_rest (ef_wire f)) ''item'' name) (\<lambda>item.
     and_then (output_item_identity item ''output item'') (\<lambda>(item_id, item_type).
       if \<not> complete
       then Inr \<lparr>vi_item_id = item_id, vi_output_index = output_index, vi_item_type = item_type,
                 vi_done_item = None\<rparr>
       else
         and_then
           (if unwrap_or (Option.bind (im_get item ''id'') as_str) '''' = ''''
            then and_then (required_str item ''item_id'' ''output item'')
                   (\<lambda>i. Inr (json_insert ''id'' (JString i) (JObject item)))
            else Inr (JObject item))
           (\<lambda>canonical.
              case cd_output_item c u canonical of
                Inl e \<Rightarrow> Inl (invalid_event (''upstream stream output item is invalid: '' @ e))
              | Inr output \<Rightarrow>
                  if sse_item_type_of_item output \<noteq> Some item_type
                  then Inl (unsupported_item (sse_item_type_str item_type))
                  else Inr \<lparr>vi_item_id = item_id, vi_output_index = output_index,
                            vi_item_type = item_type, vi_done_item = Some output\<rparr>))))"

fun is_shell_command_event :: "sse_event_type \<Rightarrow> bool" where
  "is_shell_command_event ShellCallCommandAdded = True"
| "is_shell_command_event ShellCallCommandDelta = True"
| "is_shell_command_event ShellCallCommandDone = True"
| "is_shell_command_event _ = False"

definition validate_event_item_id :: "event_frame \<Rightarrow> string \<Rightarrow> event_error + string" where
  "validate_event_item_id f name =
     (if is_shell_command_event (ef_type f) \<and> im_get (we_rest (ef_wire f)) ''item_id'' = None
      then Inr ''''
      else required_str (we_rest (ef_wire f)) ''item_id'' name)"

fun required_index_field :: "sse_event_type \<Rightarrow> string option" where
  "required_index_field ShellCallCommandAdded = Some ''command_index''"
| "required_index_field ShellCallCommandDelta = Some ''command_index''"
| "required_index_field ShellCallCommandDone = Some ''command_index''"
| "required_index_field OutputTextDelta = Some ''content_index''"
| "required_index_field OutputTextDone = Some ''content_index''"
| "required_index_field ContentPartAdded = Some ''content_index''"
| "required_index_field ContentPartDone = Some ''content_index''"
| "required_index_field ReasoningTextDelta = Some ''content_index''"
| "required_index_field ReasoningTextDone = Some ''content_index''"
| "required_index_field ReasoningPartAdded = Some ''content_index''"
| "required_index_field ReasoningPartDone = Some ''content_index''"
| "required_index_field ReasoningSummaryTextDelta = Some ''summary_index''"
| "required_index_field ReasoningSummaryTextDone = Some ''summary_index''"
| "required_index_field _ = None"

fun required_text_field :: "sse_event_type \<Rightarrow> string option" where
  "required_text_field OutputTextDelta = Some ''delta''"
| "required_text_field FunctionCallArgumentsDelta = Some ''delta''"
| "required_text_field CustomToolCallInputDelta = Some ''delta''"
| "required_text_field ShellCallCommandDelta = Some ''delta''"
| "required_text_field ReasoningTextDelta = Some ''delta''"
| "required_text_field ReasoningSummaryTextDelta = Some ''delta''"
| "required_text_field McpCallArgumentsDelta = Some ''delta''"
| "required_text_field OutputTextDone = Some ''text''"
| "required_text_field ReasoningTextDone = Some ''text''"
| "required_text_field ReasoningSummaryTextDone = Some ''text''"
| "required_text_field FunctionCallArgumentsDone = Some ''arguments''"
| "required_text_field McpCallArgumentsDone = Some ''arguments''"
| "required_text_field CustomToolCallInputDone = Some ''input''"
| "required_text_field ShellCallCommandAdded = Some ''command''"
| "required_text_field ShellCallCommandDone = Some ''command''"
| "required_text_field _ = None"

fun requires_part :: "sse_event_type \<Rightarrow> bool" where
  "requires_part ContentPartAdded = True"
| "requires_part ContentPartDone = True"
| "requires_part ReasoningPartAdded = True"
| "requires_part ReasoningPartDone = True"
| "requires_part _ = False"

definition validate_event_fields :: "json_map \<Rightarrow> sse_event_type \<Rightarrow> string \<Rightarrow> event_error + unit" where
  "validate_event_fields event t name =
     and_then (case required_index_field t of
                 None \<Rightarrow> Inr () | Some field \<Rightarrow> and_then (required_u32 event field name) (\<lambda>_. Inr ())) (\<lambda>_.
     and_then (if requires_part t then and_then (required_object event ''part'' name) (\<lambda>_. Inr ())
               else Inr ()) (\<lambda>_.
       case required_text_field t of
         None \<Rightarrow> Inr () | Some field \<Rightarrow> and_then (required_string event field name) (\<lambda>_. Inr ())))"

definition frame_event_name :: "event_frame \<Rightarrow> string option" where
  "frame_event_name f = filter_option (\<lambda>n. n \<noteq> '''') (we_event_type (ef_wire f))"

definition validate_frame :: "codec \<Rightarrow> string \<Rightarrow> event_frame \<Rightarrow> event_error + validated_item option" where
  "validate_frame c u f =
     and_then (ok_or (frame_event_name f) (invalid_event (''streaming event has no valid '' @ quoted ''type'')))
       (\<lambda>name.
          if lifecycle_status (ef_type f) \<noteq> None
          then and_then (validate_response_event f name) (\<lambda>_. Inr None)
          else if ef_type f = OutputItemAdded
          then and_then (validate_output_item c u f name False) (\<lambda>item. Inr (Some item))
          else if ef_type f = OutputItemDone
          then and_then (validate_output_item c u f name True) (\<lambda>item. Inr (Some item))
          else if ef_type f = Other then Inr None
          else
            and_then (required_output_index f name) (\<lambda>output_index.
            and_then (validate_event_item_id f name) (\<lambda>item_id.
            and_then (validate_event_fields (we_rest (ef_wire f)) (ef_type f) name) (\<lambda>_.
            and_then (ok_or (expected_item_type (ef_type f))
                        (invalid_event (''upstream output item type for event '' @ quoted name
                           @ '' is unsupported''))) (\<lambda>item_type.
              Inr (Some \<lparr>vi_item_id = item_id, vi_output_index = output_index,
                         vi_item_type = item_type, vi_done_item = None\<rparr>))))))"

section \<open>What validation guarantees\<close>

lemma required_str_Inr [result_simps]:
  "required_str m field owner = Inr s \<longleftrightarrow> im_get m field = Some (JString s) \<and> s \<noteq> ''''"
proof (cases "im_get m field")
  case (Some v)
  then show ?thesis by (cases v) (auto simp: required_str_def)
qed (simp add: required_str_def)

lemma required_object_Inr [result_simps]:
  "required_object m field owner = Inr n \<longleftrightarrow> im_get m field = Some (JObject n)"
proof (cases "im_get m field")
  case (Some v)
  then show ?thesis by (cases v) (auto simp: required_object_def)
qed (simp add: required_object_def)

lemma required_output_index_Inr [result_simps]:
  "required_output_index f owner = Inr i \<longleftrightarrow> we_output_index (ef_wire f) = Some (u64_of_u32 i)"
  by (auto simp: required_output_index_def result_simps dest: u32_of_u64_SomeD)

lemma output_item_identity_Inr:
  "output_item_identity item owner = Inr (i, k) \<Longrightarrow>
     i \<noteq> '''' \<and> sse_item_type_from_str (sse_item_type_str k) = Some k
     \<and> im_get item ''type'' = Some (JString (sse_item_type_str k))"
  by (auto simp: output_item_identity_def or_else_def result_simps split: option.splits
      dest: sse_item_type_from_str_SomeD)

lemma validate_output_item_Inr:
  assumes "validate_output_item c u f name complete = Inr vi"
  shows "we_output_index (ef_wire f) = Some (u64_of_u32 (vi_output_index vi))"
    and "vi_item_id vi \<noteq> ''''"
    and "(vi_done_item vi \<noteq> None) = complete"
    and "\<And>d. vi_done_item vi = Some d \<Longrightarrow> sse_item_type_of_item d = Some (vi_item_type vi)"
proof -
  from assms [unfolded validate_output_item_def] obtain idx item iid ity
    where idx: "required_output_index f name = Inr idx"
      and ident: "output_item_identity item ''output item'' = Inr (iid, ity)"
      and rest: "(if \<not> complete
          then Inr \<lparr>vi_item_id = iid, vi_output_index = idx, vi_item_type = ity, vi_done_item = None\<rparr>
          else and_then
            (if unwrap_or (Option.bind (im_get item ''id'') as_str) '''' = ''''
             then and_then (required_str item ''item_id'' ''output item'')
                    (\<lambda>i. Inr (json_insert ''id'' (JString i) (JObject item)))
             else Inr (JObject item))
            (\<lambda>canonical.
               case cd_output_item c u canonical of
                 Inl e \<Rightarrow> Inl (invalid_event (''upstream stream output item is invalid: '' @ e))
               | Inr output \<Rightarrow>
                   if sse_item_type_of_item output \<noteq> Some ity
                   then Inl (unsupported_item (sse_item_type_str ity))
                   else Inr \<lparr>vi_item_id = iid, vi_output_index = idx,
                             vi_item_type = ity, vi_done_item = Some output\<rparr>)) = Inr vi"
    by (elim and_then_InrE) (auto split: prod.splits)
  have vi: "vi_item_id vi = iid \<and> vi_output_index vi = idx \<and> vi_item_type vi = ity
      \<and> ((vi_done_item vi \<noteq> None) = complete)
      \<and> (\<forall>d. vi_done_item vi = Some d \<longrightarrow> sse_item_type_of_item d = Some ity)"
  proof (cases complete)
    case True
    from rest [unfolded if_not_P [OF not_not [THEN iffD2, OF True]]] show ?thesis
      by (elim and_then_InrE) (auto simp: True split: sum.splits if_splits)
  next
    case False
    with rest show ?thesis by auto
  qed
  with idx output_item_identity_Inr [OF ident]
  show "we_output_index (ef_wire f) = Some (u64_of_u32 (vi_output_index vi))"
    and "vi_item_id vi \<noteq> ''''"
    and "(vi_done_item vi \<noteq> None) = complete"
    and "\<And>d. vi_done_item vi = Some d \<Longrightarrow> sse_item_type_of_item d = Some (vi_item_type vi)"
    by (simp_all add: result_simps)
qed

lemma lifecycle_status_disjoint:
  "lifecycle_status t \<noteq> None \<Longrightarrow> expected_item_type t = None \<and> t \<noteq> OutputItemAdded \<and> t \<noteq> OutputItemDone"
  by (cases t) simp_all

text \<open>
  A frame that passes validation and names an item carries a 32-bit output index and a
  nonempty item identifier, unless it is a native shell command event without an identifier;
  its item type is the one the event kind demands; a done event, and no other, carries an
  item, which is of the announced type; and a lifecycle event passes only with the response
  status of its kind.
\<close>

theorem validate_frame_sound:
  assumes "validate_frame c u f = Inr r"
  shows "(\<forall>s. we_event_type (ef_wire f) = Some s \<longrightarrow> s \<noteq> '''') \<and> we_event_type (ef_wire f) \<noteq> None
    \<and> (\<forall>st. lifecycle_status (ef_type f) = Some st \<longrightarrow>
         r = None \<and> (\<exists>m. im_get (we_rest (ef_wire f)) ''response'' = Some (JObject m)
                       \<and> im_get m ''status'' = Some (JString st)))
    \<and> (\<forall>vi. r = Some vi \<longrightarrow>
         we_output_index (ef_wire f) = Some (u64_of_u32 (vi_output_index vi))
         \<and> (vi_item_id vi = '''' \<longrightarrow>
              is_shell_command_event (ef_type f) \<and> im_get (we_rest (ef_wire f)) ''item_id'' = None)
         \<and> expected_item_type (ef_type f) \<in> {None, Some (vi_item_type vi)}
         \<and> (vi_done_item vi \<noteq> None \<longleftrightarrow> ef_type f = OutputItemDone)
         \<and> (\<forall>d. vi_done_item vi = Some d \<longrightarrow> sse_item_type_of_item d = Some (vi_item_type vi)))"
proof -
  from assms obtain name where name: "we_event_type (ef_wire f) = Some name" "name \<noteq> ''''"
    by (auto simp: validate_frame_def frame_event_name_def result_simps)
  have life: "r = None \<and> (\<exists>m. im_get (we_rest (ef_wire f)) ''response'' = Some (JObject m)
      \<and> im_get m ''status'' = Some (JString st))"
    if "lifecycle_status (ef_type f) = Some st" for st
    using assms that
    by (auto simp: validate_frame_def validate_response_event_def frame_event_name_def name result_simps
        split: if_splits)
  have item: "we_output_index (ef_wire f) = Some (u64_of_u32 (vi_output_index vi))
      \<and> (vi_item_id vi = '''' \<longrightarrow>
           is_shell_command_event (ef_type f) \<and> im_get (we_rest (ef_wire f)) ''item_id'' = None)
      \<and> expected_item_type (ef_type f) \<in> {None, Some (vi_item_type vi)}
      \<and> (vi_done_item vi \<noteq> None \<longleftrightarrow> ef_type f = OutputItemDone)
      \<and> (\<forall>d. vi_done_item vi = Some d \<longrightarrow> sse_item_type_of_item d = Some (vi_item_type vi))"
    if "r = Some vi" for vi
  proof -
    have "lifecycle_status (ef_type f) = None" using life that by (cases "lifecycle_status (ef_type f)") auto
    note none = this
    consider (added) "ef_type f = OutputItemAdded" | (done_) "ef_type f = OutputItemDone"
      | (other) "ef_type f \<noteq> OutputItemAdded \<and> ef_type f \<noteq> OutputItemDone" by blast
    then show ?thesis
    proof cases
      case added
      then have "validate_output_item c u f name False = Inr vi"
        using assms that by (simp add: validate_frame_def frame_event_name_def name result_simps)
      from validate_output_item_Inr [OF this] added show ?thesis by simp
    next
      case done_
      then have "validate_output_item c u f name True = Inr vi"
        using assms that by (simp add: validate_frame_def frame_event_name_def name result_simps)
      from validate_output_item_Inr [OF this] done_ show ?thesis by auto
    next
      case other
      with assms that none show ?thesis
        by (auto simp: validate_frame_def validate_event_item_id_def result_simps split: if_splits)
    qed
  qed
  from name life item show ?thesis by auto
qed

theorem validate_frame_sound_witness:
  "\<exists>f vi. validate_frame plain_codec '''' f = Inr (Some vi)
     \<and> we_output_index (ef_wire f) = Some (u64_of_u32 (vi_output_index vi))
     \<and> expected_item_type (ef_type f) \<in> {None, Some (vi_item_type vi)}"
proof -
  define f where "f = \<lparr>ef_type = OutputTextDelta, ef_payload = PTextDelta ''a'' ''m'' (Some 2) 0,
    ef_wire = \<lparr>we_event_type = Some ''response.output_text.delta'', we_sequence_number = None,
      we_output_index = Some 2,
      we_rest = [(''item_id'', JString ''m''), (''delta'', JString ''a''),
                 (''content_index'', JNumber (PosInt 0))]\<rparr>\<rparr>"
  have two: "u32_of_u64 2 = Some 2" "u32_of_u64 0 = Some 0" by (simp_all add: u32_of_u64_def)
  have ok: "validate_frame plain_codec '''' f =
      Inr (Some \<lparr>vi_item_id = ''m'', vi_output_index = 2, vi_item_type = TyMessage, vi_done_item = None\<rparr>)"
    by (simp add: validate_frame_def f_def frame_event_name_def required_output_index_def two
        validate_event_item_id_def required_str_def validate_event_fields_def required_u32_def
        required_string_def)
  from validate_frame_sound [OF ok] ok show ?thesis by blast
qed

end
