(* ===== verification/Folding.thy ===== *)
theory Folding
  imports Validate
begin

text \<open>
  How one item is built from the events of a stream: the item opened by an added event
  (\<open>TryFrom<&EventPayload>\<close>), the done events folded into it (\<open>ApplyDone\<close> of
  \<open>types/io/output.rs\<close>), the merge with an already parsed completion (\<open>MergeDone\<close> of
  \<open>accumulator/completion.rs\<close>), and the in-flight item with its delta buffer
  (\<open>ActiveItem\<close> of \<open>accumulator/slot.rs\<close>). The argument \<open>u\<close> is the UUID drawn for the event:
  at most one draw of an event ends up in the state.
\<close>

section \<open>Items opened by an added event\<close>

definition id_or_fresh :: "string \<Rightarrow> string \<Rightarrow> string \<Rightarrow> string" where
  "id_or_fresh pfx u item_id = (if item_id = '''' then pfx @ u else item_id)"

definition expected_added :: executor_error where
  "expected_added = ParseError ''expected OutputItemAdded payload''"

fun message_of_payload :: "string \<Rightarrow> event_payload \<Rightarrow> executor_error + output_message" where
  "message_of_payload u (POutputItemAdded item_id _ _ _ _ _ _) =
     Inr (new_output_message (id_or_fresh ''msg_'' u item_id) MessageInProgress)"
| "message_of_payload u _ = Inl expected_added"

fun function_call_of_payload :: "string \<Rightarrow> event_payload \<Rightarrow> executor_error + function_tool_call" where
  "function_call_of_payload u (POutputItemAdded item_id _ _ nm namespace call_id _) =
     Inr \<lparr>fc_id = id_or_fresh ''fc_'' u item_id, fc_call_id = unwrap_or call_id '''',
          fc_name = unwrap_or nm '''', fc_namespace = namespace, fc_arguments = '''',
          fc_status = MessageInProgress\<rparr>"
| "function_call_of_payload u _ = Inl expected_added"

fun tool_search_of_payload :: "event_payload \<Rightarrow> executor_error + tool_search_call" where
  "tool_search_of_payload (POutputItemAdded item_id _ _ _ _ call_id _) =
     and_then (ok_or (filter_option (\<lambda>c. str_trim c \<noteq> '''') call_id)
                (ParseError ''tool_search_call is missing call_id''))
       (\<lambda>cid. if str_trim item_id = '''' then Inl (ParseError ''tool_search_call is missing id'')
              else Inr \<lparr>ts_id = item_id, ts_call_id = cid, ts_execution = SearchClient,
                        ts_arguments = JObject [], ts_status = SearchInProgress\<rparr>)"
| "tool_search_of_payload _ = Inl expected_added"

fun custom_call_of_payload :: "string \<Rightarrow> event_payload \<Rightarrow> executor_error + custom_tool_call" where
  "custom_call_of_payload u (POutputItemAdded item_id _ _ nm _ call_id _) =
     Inr \<lparr>ct_id = id_or_fresh ''ctc_'' u item_id, ct_status = Some MessageInProgress,
          ct_call_id = unwrap_or call_id '''', ct_name = unwrap_or nm '''', ct_input = ''''\<rparr>"
| "custom_call_of_payload u _ = Inl expected_added"

fun compaction_of_payload :: "string \<Rightarrow> event_payload \<Rightarrow> executor_error + compaction_item" where
  "compaction_of_payload u (POutputItemAdded item_id _ _ _ _ _ _) =
     Inr \<lparr>ci_id = Some (id_or_fresh ''cmp_'' u item_id), ci_encrypted_content = ''''\<rparr>"
| "compaction_of_payload u _ = Inl expected_added"

fun shell_call_of_payload :: "event_payload \<Rightarrow> executor_error + shell_call" where
  "shell_call_of_payload (POutputItemAdded _ _ _ _ _ _ (Some call)) = Inr call"
| "shell_call_of_payload _ = Inl expected_added"

fun mcp_list_tools_of_payload :: "string \<Rightarrow> event_payload \<Rightarrow> executor_error + mcp_list_tools" where
  "mcp_list_tools_of_payload u (POutputItemAdded item_id _ _ _ _ _ _) =
     Inr (new_mcp_list_tools (id_or_fresh ''mcpl_'' u item_id) '''' [])"
| "mcp_list_tools_of_payload u _ = Inl expected_added"

fun mcp_call_of_payload :: "string \<Rightarrow> event_payload \<Rightarrow> executor_error + mcp_call" where
  "mcp_call_of_payload u (POutputItemAdded item_id _ _ nm _ _ _) =
     Inr (new_mcp_call (id_or_fresh ''mcp_'' u item_id) '''' (unwrap_or nm '''') '''' McpInProgress None None)"
| "mcp_call_of_payload u _ = Inl expected_added"

fun reasoning_of_payload :: "codec \<Rightarrow> string \<Rightarrow> event_payload \<Rightarrow> executor_error + reasoning_output" where
  "reasoning_of_payload c u (POutputItemAdded item_id _ _ _ _ _ _) =
     Inr (new_reasoning_output (id_or_fresh ''rs_'' u item_id))"
| "reasoning_of_payload c u (POutputItemDone _ _ _ item) =
     (case cd_output_item c u item of
        Inr (OutReasoning r) \<Rightarrow>
          if ro_id r = '''' then Inl (ParseError ''complete reasoning output item is missing its id'')
          else Inr r
      | _ \<Rightarrow> Inl (ParseError ''expected a complete reasoning output item''))"
| "reasoning_of_payload c u _ = Inl (ParseError ''expected a reasoning output-item lifecycle payload'')"

section \<open>Done events folded into an item\<close>

text \<open>
  Each \<open>apply_done\<close> returns the item and its buffer. An authoritative nonempty value replaces
  the streamed one and clears the buffer; an empty one takes what was streamed.
\<close>

definition take_if_empty :: "string \<Rightarrow> string \<Rightarrow> string \<times> string" where
  "take_if_empty v buffer = (if v = '''' then (buffer, '''') else (v, ''''))"

definition insert_at_part_index :: "'a list \<Rightarrow> u32 \<Rightarrow> 'a \<Rightarrow> 'a list" where
  "insert_at_part_index parts i part =
     (let index = min (unat i) (length parts) in take index parts @ part # drop index parts)"

fun shell_apply_done ::
  "codec \<Rightarrow> string \<Rightarrow> event_payload \<Rightarrow> shell_call \<times> string \<Rightarrow> shell_call \<times> string" where
  "shell_apply_done c u (PShellCallCommand _ _ i (ShellDone command)) (item, buffer) =
     (if unat i < length (sa_commands (sc_action item))
      then let (v, buffer') = take_if_empty command buffer
           in (item\<lparr>sc_action := (sc_action item)
                 \<lparr>sa_commands := (sa_commands (sc_action item))[unat i := v]\<rparr>\<rparr>, buffer')
      else (item, buffer))"
| "shell_apply_done c u (POutputItemDone _ _ _ j) (item, buffer) =
     (case cd_output_item c u j of Inr (OutShellCall call) \<Rightarrow> (call, '''') | _ \<Rightarrow> (item, buffer))"
| "shell_apply_done c u _ s = s"

fun reasoning_apply_done ::
  "codec \<Rightarrow> string \<Rightarrow> event_payload \<Rightarrow> reasoning_output \<Rightarrow> reasoning_output" where
  "reasoning_apply_done c u (PReasoningTextDone t _ _ i) r =
     (if t = '''' then r
      else r\<lparr>ro_content := insert_at_part_index (ro_content r) i (new_reasoning_text t)\<rparr>)"
| "reasoning_apply_done c u (PReasoningSummaryTextDone t _ _ i) r =
     (if t = '''' then r
      else r\<lparr>ro_summary := insert_at_part_index (ro_summary r) i
               (JObject [(''type'', JString ''summary_text''), (''text'', JString t)])\<rparr>)"
| "reasoning_apply_done c u (POutputItemDone item_id k i j) r =
     (case (as_object j, reasoning_of_payload c u (POutputItemDone item_id k i j)) of
        (Some raw, Inr completed) \<Rightarrow>
          let c1 = (if im_get raw ''content'' = None then completed\<lparr>ro_content := ro_content r\<rparr> else completed)
          in if im_get raw ''summary'' = None then c1\<lparr>ro_summary := ro_summary r\<rparr> else c1
      | _ \<Rightarrow> r)"
| "reasoning_apply_done c u _ r = r"

fun function_apply_done ::
  "codec \<Rightarrow> string \<Rightarrow> event_payload \<Rightarrow> function_tool_call \<times> string \<Rightarrow> function_tool_call \<times> string" where
  "function_apply_done c u (PFunctionCallArgsDone arguments call_id _ nm _) (item, buffer) =
     (let (args, buffer') = take_if_empty arguments buffer;
          i1 = item\<lparr>fc_arguments := args\<rparr>;
          i2 = (case filter_option (\<lambda>s. s \<noteq> '''') call_id of
                  Some cid \<Rightarrow> i1\<lparr>fc_call_id := cid\<rparr> | None \<Rightarrow> i1);
          i3 = (if nm \<noteq> '''' then i2\<lparr>fc_name := nm\<rparr> else i2)
      in (i3, buffer'))"
| "function_apply_done c u (POutputItemDone _ _ _ j) (item, buffer) =
     (case cd_function_tool_call c u j of
        None \<Rightarrow> (item, buffer)
      | Some call0 \<Rightarrow>
          let c1 = (if unwrap_or (Option.bind (json_get j ''id'') as_str) '''' = ''''
                    then call0\<lparr>fc_id := fc_id item\<rparr> else call0);
              c2 = (if fc_call_id c1 = '''' then c1\<lparr>fc_call_id := fc_call_id item\<rparr> else c1);
              c3 = (if fc_name c2 = '''' then c2\<lparr>fc_name := fc_name item\<rparr> else c2);
              c4 = (if fc_namespace c3 = None then c3\<lparr>fc_namespace := fc_namespace item\<rparr> else c3)
          in if fc_arguments c4 = ''''
             then if fc_arguments item = '''' then (c4\<lparr>fc_arguments := buffer\<rparr>, '''')
                  else (c4\<lparr>fc_arguments := fc_arguments item\<rparr>, buffer)
             else (c4, ''''))"
| "function_apply_done c u _ s = s"

fun tool_search_apply_done :: "codec \<Rightarrow> event_payload \<Rightarrow> tool_search_call \<Rightarrow> tool_search_call" where
  "tool_search_apply_done c (POutputItemDone _ _ _ j) item = unwrap_or (cd_tool_search_call c j) item"
| "tool_search_apply_done c _ item = item"

fun custom_apply_done ::
  "codec \<Rightarrow> event_payload \<Rightarrow> custom_tool_call \<times> string \<Rightarrow> custom_tool_call \<times> string" where
  "custom_apply_done c (PCustomToolCallInputDone inp _ _) (item, buffer) =
     (let (v, buffer') = take_if_empty inp buffer in (item\<lparr>ct_input := v\<rparr>, buffer'))"
| "custom_apply_done c (POutputItemDone _ _ _ j) (item, buffer) =
     (case cd_custom_tool_call c j of
        None \<Rightarrow> (item, buffer)
      | Some call \<Rightarrow>
          if ct_input call = ''''
          then if ct_input item = '''' then (call\<lparr>ct_input := buffer\<rparr>, '''')
               else (call\<lparr>ct_input := ct_input item\<rparr>, buffer)
          else (call, ''''))"
| "custom_apply_done c _ s = s"

fun mcp_apply_done :: "codec \<Rightarrow> event_payload \<Rightarrow> mcp_call \<Rightarrow> mcp_call" where
  "mcp_apply_done c (POutputItemDone _ _ _ j) item = unwrap_or (cd_mcp_call c j) item"
| "mcp_apply_done c _ item = item"

fun mcp_list_apply_done :: "codec \<Rightarrow> event_payload \<Rightarrow> mcp_list_tools \<Rightarrow> mcp_list_tools" where
  "mcp_list_apply_done c (POutputItemDone _ _ _ j) item = unwrap_or (cd_mcp_list_tools c j) item"
| "mcp_list_apply_done c _ item = item"

fun compaction_apply_done :: "codec \<Rightarrow> event_payload \<Rightarrow> compaction_item \<Rightarrow> compaction_item" where
  "compaction_apply_done c (POutputItemDone _ _ _ j) item =
     (case cd_compaction_item c j of
        None \<Rightarrow> item
      | Some d \<Rightarrow> if unwrap_or (ci_id d) '''' = '''' then d\<lparr>ci_id := ci_id item\<rparr> else d)"
| "compaction_apply_done c _ item = item"

section \<open>Merging an already parsed completion\<close>

fun message_merge_done :: "output_message \<Rightarrow> output_message \<times> string \<Rightarrow> output_message \<times> string" where
  "message_merge_done d (item, buffer) = (d, '''')"

definition payload_raw_item :: "event_payload \<Rightarrow> json_map option" where
  "payload_raw_item p = (case p of POutputItemDone _ _ _ j \<Rightarrow> as_object j | _ \<Rightarrow> None)"

definition reasoning_merge_done :: "event_payload \<Rightarrow> reasoning_output \<Rightarrow> reasoning_output \<Rightarrow> reasoning_output" where
  "reasoning_merge_done p d item =
     (let absent = (\<lambda>k. case payload_raw_item p of None \<Rightarrow> False | Some raw \<Rightarrow> im_get raw k = None);
          d1 = (if absent ''content'' then d\<lparr>ro_content := ro_content item\<rparr> else d);
          d2 = (if absent ''summary'' then d1\<lparr>ro_summary := ro_summary item\<rparr> else d1)
      in if ro_id d2 = '''' then d2\<lparr>ro_id := ro_id item\<rparr> else d2)"

fun function_merge_done ::
  "function_tool_call \<Rightarrow> function_tool_call \<times> string \<Rightarrow> function_tool_call \<times> string" where
  "function_merge_done d (item, buffer) =
     (let d1 = (if fc_id d = '''' then d\<lparr>fc_id := fc_id item\<rparr> else d);
          d2 = (if fc_call_id d1 = '''' then d1\<lparr>fc_call_id := fc_call_id item\<rparr> else d1);
          d3 = (if fc_name d2 = '''' then d2\<lparr>fc_name := fc_name item\<rparr> else d2);
          d4 = (if fc_namespace d3 = None then d3\<lparr>fc_namespace := fc_namespace item\<rparr> else d3)
      in if fc_arguments d4 = ''''
         then if fc_arguments item = '''' then (d4\<lparr>fc_arguments := buffer\<rparr>, '''')
              else (d4\<lparr>fc_arguments := fc_arguments item\<rparr>, buffer)
         else (d4, ''''))"

fun custom_merge_done ::
  "custom_tool_call \<Rightarrow> custom_tool_call \<times> string \<Rightarrow> custom_tool_call \<times> string" where
  "custom_merge_done d (item, buffer) =
     (let d1 = (if ct_id d = '''' then d\<lparr>ct_id := ct_id item\<rparr> else d);
          d2 = (if ct_call_id d1 = '''' then d1\<lparr>ct_call_id := ct_call_id item\<rparr> else d1);
          d3 = (if ct_name d2 = '''' then d2\<lparr>ct_name := ct_name item\<rparr> else d2)
      in if ct_input d3 = ''''
         then if ct_input item = '''' then (d3\<lparr>ct_input := buffer\<rparr>, '''')
              else (d3\<lparr>ct_input := ct_input item\<rparr>, buffer)
         else (d3, ''''))"

definition web_search_merge_done :: "string \<Rightarrow> string \<Rightarrow> web_search_call \<Rightarrow> web_search_call" where
  "web_search_merge_done u item_id d =
     (if ws_id d = '''' then d\<lparr>ws_id := (if item_id = '''' then ''ws_'' @ u else item_id)\<rparr> else d)"

definition compaction_merge_done :: "compaction_item \<Rightarrow> compaction_item \<Rightarrow> compaction_item" where
  "compaction_merge_done d item =
     (if unwrap_or (ci_id d) '''' = '''' then d\<lparr>ci_id := ci_id item\<rparr> else d)"

section \<open>Items in flight\<close>

datatype active_item =
    ActiveMessage output_message string
  | ActiveReasoning reasoning_output
  | ActiveFunctionCall function_tool_call string
  | ActiveToolSearchCall tool_search_call
  | ActiveCustomToolCall custom_tool_call string
  | ActiveShellCall shell_call "bool list option" string
  | ActiveWebSearchCall "web_search_call option"
  | ActiveMcpCall mcp_call
  | ActiveMcpListTools mcp_list_tools
  | ActiveCompaction compaction_item

definition result_map :: "('a \<Rightarrow> 'b) \<Rightarrow> 'e + 'a \<Rightarrow> 'b option" where
  "result_map f r = (case r of Inl _ \<Rightarrow> None | Inr x \<Rightarrow> Some (f x))"

definition active_from_added :: "codec \<Rightarrow> string \<Rightarrow> event_payload \<Rightarrow> active_item option" where
  "active_from_added c u p =
     (case p of
        POutputItemAdded _ k _ _ _ _ _ \<Rightarrow>
          (case k of
             TyShellCall \<Rightarrow> result_map (\<lambda>i. ActiveShellCall i None '''') (shell_call_of_payload p)
           | TyReasoning \<Rightarrow> result_map ActiveReasoning (reasoning_of_payload c u p)
           | TyFunctionCall \<Rightarrow> result_map (\<lambda>i. ActiveFunctionCall i '''') (function_call_of_payload u p)
           | TyToolSearchCall \<Rightarrow> result_map ActiveToolSearchCall (tool_search_of_payload p)
           | TyCustomToolCall \<Rightarrow> result_map (\<lambda>i. ActiveCustomToolCall i '''') (custom_call_of_payload u p)
           | TyMessage \<Rightarrow> result_map (\<lambda>i. ActiveMessage i '''') (message_of_payload u p)
           | TyWebSearchCall \<Rightarrow> Some (ActiveWebSearchCall None)
           | TyCompaction \<Rightarrow> result_map ActiveCompaction (compaction_of_payload u p)
           | TyMcpCall \<Rightarrow> result_map ActiveMcpCall (mcp_call_of_payload u p)
           | TyMcpListTools \<Rightarrow> result_map ActiveMcpListTools (mcp_list_tools_of_payload u p))
      | _ \<Rightarrow> None)"

fun active_item_type :: "active_item \<Rightarrow> sse_item_type" where
  "active_item_type (ActiveMessage _ _) = TyMessage"
| "active_item_type (ActiveReasoning _) = TyReasoning"
| "active_item_type (ActiveFunctionCall _ _) = TyFunctionCall"
| "active_item_type (ActiveToolSearchCall _) = TyToolSearchCall"
| "active_item_type (ActiveCustomToolCall _ _) = TyCustomToolCall"
| "active_item_type (ActiveShellCall _ _ _) = TyShellCall"
| "active_item_type (ActiveWebSearchCall _) = TyWebSearchCall"
| "active_item_type (ActiveMcpCall _) = TyMcpCall"
| "active_item_type (ActiveMcpListTools _) = TyMcpListTools"
| "active_item_type (ActiveCompaction _) = TyCompaction"

fun active_from_completed :: "output_item \<Rightarrow> active_item option" where
  "active_from_completed (OutShellCall i) = Some (ActiveShellCall i None '''')"
| "active_from_completed (OutMessage i) = Some (ActiveMessage i '''')"
| "active_from_completed (OutReasoning i) = Some (ActiveReasoning i)"
| "active_from_completed (OutFunctionCall i) = Some (ActiveFunctionCall i '''')"
| "active_from_completed (OutToolSearchCall i) = Some (ActiveToolSearchCall i)"
| "active_from_completed (OutCustomToolCall i) = Some (ActiveCustomToolCall i '''')"
| "active_from_completed (OutWebSearchCall i) = Some (ActiveWebSearchCall (Some i))"
| "active_from_completed (OutMcpCall i) = Some (ActiveMcpCall i)"
| "active_from_completed (OutMcpListTools i) = Some (ActiveMcpListTools i)"
| "active_from_completed (OutCompaction i) = Some (ActiveCompaction i)"
| "active_from_completed OutUnknown = None"

definition invalid_request :: "string \<Rightarrow> executor_error" where
  "invalid_request m = InvalidRequest m"

text \<open>
  \<open>apply_event\<close> for shell commands. The stream flags say which commands are complete; a
  command may only be added after its predecessors, and a done command must repeat what
  was streamed.
\<close>

fun shell_command_event ::
  "codec \<Rightarrow> string \<Rightarrow> event_payload \<Rightarrow> shell_call \<Rightarrow> bool list option \<Rightarrow> string \<Rightarrow> executor_error + active_item" where
  "shell_command_event c u (PShellCallCommand iid oi i update) item stream buffer =
     (let index = unat i; flags = unwrap_or stream [] in
      case update of
        ShellAdded command \<Rightarrow>
          if index \<noteq> length flags \<or> length (sa_commands (sc_action item)) \<noteq> length flags
             \<or> (flags \<noteq> [] \<and> last flags = False)
          then Inl (invalid_request ''shell command added out of order'')
          else Inr (ActiveShellCall
                 (item\<lparr>sc_action := (sc_action item)\<lparr>sa_commands := sa_commands (sc_action item) @ ['''']\<rparr>\<rparr>)
                 (Some (flags @ [False])) command)
      | ShellDelta delta \<Rightarrow>
          if \<not> (index < length flags \<and> flags ! index = False)
          then Inl (invalid_request ''shell command delta has no active command'')
          else Inr (ActiveShellCall item stream (buffer @ delta))
      | ShellDone command \<Rightarrow>
          if \<not> (index < length flags \<and> flags ! index = False) \<or> buffer \<noteq> command
          then Inl (invalid_request ''shell command done is repeated or contradicts streamed command'')
          else (let (item', buffer') = shell_apply_done c u (PShellCallCommand iid oi i update) (item, buffer)
                in Inr (ActiveShellCall item' (Some (flags[index := True])) buffer')))"
| "shell_command_event c u _ item stream buffer = Inr (ActiveShellCall item stream buffer)"

fun active_apply_event :: "codec \<Rightarrow> string \<Rightarrow> event_payload \<Rightarrow> active_item \<Rightarrow> executor_error + active_item" where
  "active_apply_event c u p (ActiveShellCall item stream buffer) = shell_command_event c u p item stream buffer"
| "active_apply_event c u p (ActiveMessage item t) =
     (case p of PTextDelta d _ _ _ \<Rightarrow> Inr (ActiveMessage item (t @ d)) | _ \<Rightarrow> Inr (ActiveMessage item t))"
| "active_apply_event c u p (ActiveReasoning item) =
     (case p of
        PReasoningTextDone _ _ _ _ \<Rightarrow> Inr (ActiveReasoning (reasoning_apply_done c u p item))
      | PReasoningSummaryTextDone _ _ _ _ \<Rightarrow> Inr (ActiveReasoning (reasoning_apply_done c u p item))
      | _ \<Rightarrow> Inr (ActiveReasoning item))"
| "active_apply_event c u p (ActiveFunctionCall item args) =
     (case p of
        PFunctionCallArgsDelta d _ _ _ \<Rightarrow> Inr (ActiveFunctionCall item (args @ d))
      | PFunctionCallArgsDone _ _ _ _ _ \<Rightarrow>
          (let (item', args') = function_apply_done c u p (item, args) in Inr (ActiveFunctionCall item' args'))
      | _ \<Rightarrow> Inr (ActiveFunctionCall item args))"
| "active_apply_event c u p (ActiveCustomToolCall item inp) =
     (case p of
        PCustomToolCallInputDelta d _ _ \<Rightarrow> Inr (ActiveCustomToolCall item (inp @ d))
      | PCustomToolCallInputDone _ _ _ \<Rightarrow>
          (let (item', inp') = custom_apply_done c p (item, inp) in Inr (ActiveCustomToolCall item' inp'))
      | _ \<Rightarrow> Inr (ActiveCustomToolCall item inp))"
| "active_apply_event c u p a = Inr a"

fun active_finalize :: "active_item \<Rightarrow> output_item option" where
  "active_finalize (ActiveShellCall item _ _) = Some (OutShellCall item)"
| "active_finalize (ActiveReasoning item) = Some (OutReasoning item)"
| "active_finalize (ActiveFunctionCall item args) =
     Some (OutFunctionCall
       ((if args \<noteq> '''' \<and> fc_arguments item = '''' then item\<lparr>fc_arguments := args\<rparr> else item)
          \<lparr>fc_status := MessageCompleted\<rparr>))"
| "active_finalize (ActiveToolSearchCall item) = Some (OutToolSearchCall item)"
| "active_finalize (ActiveMessage item t) =
     Some (OutMessage
       ((if t \<noteq> '''' then item\<lparr>om_content := om_content item @ [new_output_text t]\<rparr> else item)
          \<lparr>om_status := MessageCompleted\<rparr>))"
| "active_finalize (ActiveCustomToolCall item inp) =
     Some (OutCustomToolCall
       ((if ct_input item = '''' then item\<lparr>ct_input := inp\<rparr> else item)\<lparr>ct_status := Some MessageCompleted\<rparr>))"
| "active_finalize (ActiveWebSearchCall item) = map_option OutWebSearchCall item"
| "active_finalize (ActiveMcpCall item) = Some (OutMcpCall item)"
| "active_finalize (ActiveMcpListTools item) = Some (OutMcpListTools item)"
| "active_finalize (ActiveCompaction item) = Some (OutCompaction item)"

definition apply_output_item_done ::
  "codec \<Rightarrow> string \<Rightarrow> event_payload \<Rightarrow> output_item option \<Rightarrow> string \<Rightarrow> active_item \<Rightarrow> active_item" where
  "apply_output_item_done c u p parsed item_id active =
     (case (active, parsed) of
        (ActiveShellCall item s b, Some (OutShellCall d)) \<Rightarrow> ActiveShellCall d s b
      | (ActiveMessage item b, Some (OutMessage d)) \<Rightarrow>
          (let (i, b') = message_merge_done d (item, b) in ActiveMessage i b')
      | (ActiveReasoning item, Some (OutReasoning d)) \<Rightarrow> ActiveReasoning (reasoning_merge_done p d item)
      | (ActiveFunctionCall item b, Some (OutFunctionCall d)) \<Rightarrow>
          (let (i, b') = function_merge_done d (item, b) in ActiveFunctionCall i b')
      | (ActiveToolSearchCall item, Some (OutToolSearchCall d)) \<Rightarrow> ActiveToolSearchCall d
      | (ActiveCustomToolCall item b, Some (OutCustomToolCall d)) \<Rightarrow>
          (let (i, b') = custom_merge_done d (item, b) in ActiveCustomToolCall i b')
      | (ActiveWebSearchCall _, Some (OutWebSearchCall d)) \<Rightarrow>
          ActiveWebSearchCall (Some (web_search_merge_done u item_id d))
      | (ActiveMcpCall item, Some (OutMcpCall d)) \<Rightarrow> ActiveMcpCall d
      | (ActiveMcpListTools item, Some (OutMcpListTools d)) \<Rightarrow> ActiveMcpListTools d
      | (ActiveCompaction item, Some (OutCompaction d)) \<Rightarrow> ActiveCompaction (compaction_merge_done d item)
      | (ActiveShellCall item s b, None) \<Rightarrow>
          (let (i, b') = shell_apply_done c u p (item, b) in ActiveShellCall i s b')
      | (ActiveReasoning item, None) \<Rightarrow> ActiveReasoning (reasoning_apply_done c u p item)
      | (ActiveFunctionCall item b, None) \<Rightarrow>
          (let (i, b') = function_apply_done c u p (item, b) in ActiveFunctionCall i b')
      | (ActiveToolSearchCall item, None) \<Rightarrow> ActiveToolSearchCall (tool_search_apply_done c p item)
      | (ActiveCustomToolCall item b, None) \<Rightarrow>
          (let (i, b') = custom_apply_done c p (item, b) in ActiveCustomToolCall i b')
      | (ActiveMcpCall item, None) \<Rightarrow> ActiveMcpCall (mcp_apply_done c p item)
      | (ActiveMcpListTools item, None) \<Rightarrow> ActiveMcpListTools (mcp_list_apply_done c p item)
      | (ActiveCompaction item, None) \<Rightarrow> ActiveCompaction (compaction_apply_done c p item)
      | _ \<Rightarrow> active)"

section \<open>Folding keeps the kind of an item\<close>

lemma result_map_Some [simp]: "result_map f r = Some y \<longleftrightarrow> (\<exists>x. r = Inr x \<and> y = f x)"
  by (cases r) (auto simp: result_map_def)

lemma active_from_added_type:
  assumes "active_from_added c u p = Some a"
  shows "\<exists>i k x n s cid sh. p = POutputItemAdded i k x n s cid sh \<and> active_item_type a = k"
  using assms by (auto simp: active_from_added_def split: event_payload.splits sse_item_type.splits)

lemma active_apply_event_type: "active_apply_event c u p a = Inr b \<Longrightarrow> active_item_type b = active_item_type a"
  by (cases a; cases p)
    (auto simp: Let_def split: shell_command_update.splits if_splits prod.splits)

lemma apply_output_item_done_type [simp]:
  "active_item_type (apply_output_item_done c u p d i a) = active_item_type a"
  by (cases a) (auto simp: apply_output_item_done_def split: option.splits output_item.splits prod.splits)

lemma active_finalize_type:
  "active_finalize a = Some item \<Longrightarrow> sse_item_type_of_item item = Some (active_item_type a)"
  by (cases a) auto

lemma active_from_completed_type:
  "active_from_completed item = Some a \<Longrightarrow> sse_item_type_of_item item = Some (active_item_type a)"
  by (cases item) auto

section \<open>Deltas\<close>

definition feed :: "codec \<Rightarrow> string \<Rightarrow> active_item \<Rightarrow> event_payload list \<Rightarrow> executor_error + active_item" where
  "feed c u = run_steps (\<lambda>a p. active_apply_event c u p a)"

lemma feed_simps [fold_simps]:
  "feed c u a [] = Inr a"
  "feed c u a (p # ps) = and_then (active_apply_event c u p a) (\<lambda>b. feed c u b ps)"
  by (simp_all add: feed_def and_then_def split: sum.splits)

lemma feed_append [fold_simps]:
  "feed c u a (ps @ qs) = and_then (feed c u a ps) (\<lambda>b. feed c u b qs)"
  by (simp add: feed_def run_steps_append and_then_def split: sum.splits)

lemma feed_text_deltas [fold_simps]:
  "feed c u (ActiveMessage item t) (map (\<lambda>d. PTextDelta d i oi ci) ds) = Inr (ActiveMessage item (t @ concat ds))"
  by (induction ds arbitrary: t) (simp_all add: fold_simps)

lemma feed_args_deltas [fold_simps]:
  "feed c u (ActiveFunctionCall item t) (map (\<lambda>d. PFunctionCallArgsDelta d cid i oi) ds) =
     Inr (ActiveFunctionCall item (t @ concat ds))"
  by (induction ds arbitrary: t) (simp_all add: fold_simps)

lemma feed_input_deltas [fold_simps]:
  "feed c u (ActiveCustomToolCall item t) (map (\<lambda>d. PCustomToolCallInputDelta d i oi) ds) =
     Inr (ActiveCustomToolCall item (t @ concat ds))"
  by (induction ds arbitrary: t) (simp_all add: fold_simps)

text \<open>
  Streamed deltas are neither lost nor reordered. An item opened by an added event and fed
  any deltas finalizes to their concatenation; a done event without a value keeps it, and one
  with a value replaces it.
\<close>

theorem deltas_concatenate:
  "(map_option (case_sum (\<lambda>_. None) active_finalize)
     (map_option (\<lambda>a. feed c u a (map (\<lambda>d. PTextDelta d i oi ci) ds))
        (active_from_added c u (POutputItemAdded i TyMessage oi nm ns cid None))) =
   Some (Some (OutMessage \<lparr>om_id = id_or_fresh ''msg_'' u i, om_role = ''assistant'',
     om_status = MessageCompleted,
     om_content = (if concat ds = '''' then [] else [new_output_text (concat ds)])\<rparr>)))
   \<and> (map_option (case_sum (\<lambda>_. None) active_finalize)
     (map_option (\<lambda>a. feed c u a (map (\<lambda>d. PFunctionCallArgsDelta d dc i oi) ds
                                    @ [PFunctionCallArgsDone args (Some cid') i nm' oi]))
        (active_from_added c u (POutputItemAdded i TyFunctionCall oi nm ns cid None))) =
   Some (Some (OutFunctionCall \<lparr>fc_id = id_or_fresh ''fc_'' u i,
     fc_call_id = (if cid' = '''' then unwrap_or cid '''' else cid'),
     fc_name = (if nm' = '''' then unwrap_or nm '''' else nm'), fc_namespace = ns,
     fc_arguments = (if args = '''' then concat ds else args), fc_status = MessageCompleted\<rparr>)))
   \<and> (map_option (case_sum (\<lambda>_. None) active_finalize)
     (map_option (\<lambda>a. feed c u a (map (\<lambda>d. PCustomToolCallInputDelta d i oi) ds
                                    @ [PCustomToolCallInputDone inp i oi]))
        (active_from_added c u (POutputItemAdded i TyCustomToolCall oi nm ns cid None))) =
   Some (Some (OutCustomToolCall \<lparr>ct_id = id_or_fresh ''ctc_'' u i, ct_status = Some MessageCompleted,
     ct_call_id = unwrap_or cid '''', ct_name = unwrap_or nm '''',
     ct_input = (if inp = '''' then concat ds else inp)\<rparr>)))"
  by (simp_all add: active_from_added_def result_map_def fold_simps new_output_message_def
      take_if_empty_def)

section \<open>Shell commands\<close>

definition shell_stream_ok :: "active_item \<Rightarrow> bool" where
  "shell_stream_ok a = (case a of
     ActiveShellCall item (Some flags) _ \<Rightarrow>
       length flags = length (sa_commands (sc_action item)) \<and> (\<forall>i. Suc i < length flags \<longrightarrow> flags ! i)
   | _ \<Rightarrow> True)"

lemma shell_stream_ok_step:
  assumes "shell_stream_ok a" "active_apply_event c u p a = Inr b"
  shows "shell_stream_ok b"
proof (cases a)
  case (ActiveShellCall item stream buffer)
  show ?thesis
  proof (cases p)
    case (PShellCallCommand iid oi i update)
    have step: "shell_command_event c u (PShellCallCommand iid oi i update) item stream buffer = Inr b"
      using assms(2) ActiveShellCall PShellCallCommand by simp
    have all_but_last: "\<forall>i. Suc i < length fs \<longrightarrow> fs ! i"
      if "stream = Some fs" for fs
      using assms(1) ActiveShellCall that by (simp add: shell_stream_ok_def)
    have len: "length (sa_commands (sc_action item)) = length fs" if "stream = Some fs" for fs
      using assms(1) ActiveShellCall that by (simp add: shell_stream_ok_def)
    show ?thesis
    proof (cases update)
      case (ShellAdded command)
      then obtain fs where fs: "fs = unwrap_or stream []"
        and ok: "length (sa_commands (sc_action item)) = length fs" "fs = [] \<or> last fs"
        and b: "b = ActiveShellCall
            (item\<lparr>sc_action := (sc_action item)\<lparr>sa_commands := sa_commands (sc_action item) @ ['''']\<rparr>\<rparr>)
            (Some (fs @ [False])) command"
        using step by (auto simp: Let_def split: if_splits)
      have "(fs @ [False]) ! i" if "i < length fs" for i
      proof (cases "Suc i < length fs")
        case True
        then show ?thesis using all_but_last fs by (cases stream) (auto simp: nth_append)
      next
        case False
        then have "i = length fs - 1" "fs \<noteq> []" using that by auto
        then show ?thesis using ok(2) by (simp add: nth_append last_conv_nth)
      qed
      with b ok(1) show ?thesis by (simp add: shell_stream_ok_def)
    next
      case (ShellDelta delta)
      with step all_but_last len show ?thesis
        by (auto simp: Let_def shell_stream_ok_def split: if_splits option.splits)
    next
      case (ShellDone command)
      with step all_but_last len show ?thesis
        by (cases stream)
          (auto simp: Let_def shell_stream_ok_def take_if_empty_def nth_list_update split: if_splits)
    qed
  qed (use assms ActiveShellCall in auto)
next
  case (ActiveMessage item t)
  then show ?thesis using active_apply_event_type [OF assms(2)]
    by (cases b) (simp_all add: shell_stream_ok_def)
qed (use active_apply_event_type [OF assms(2)] in \<open>cases b; simp_all add: shell_stream_ok_def\<close>)+

text \<open>The events of one streamed command: added with a first piece, deltas, done.\<close>

definition command_events :: "string \<Rightarrow> u32 \<Rightarrow> nat \<Rightarrow> string \<Rightarrow> string list \<Rightarrow> event_payload list" where
  "command_events iid oi n first ds =
     PShellCallCommand iid oi (of_nat n) (ShellAdded first)
     # map (\<lambda>d. PShellCallCommand iid oi (of_nat n) (ShellDelta d)) ds
     @ [PShellCallCommand iid oi (of_nat n) (ShellDone (first @ concat ds))]"

fun commands_events :: "string \<Rightarrow> u32 \<Rightarrow> nat \<Rightarrow> (string \<times> string list) list \<Rightarrow> event_payload list" where
  "commands_events iid oi n [] = []"
| "commands_events iid oi n ((first, ds) # cs) =
     command_events iid oi n first ds @ commands_events iid oi (Suc n) cs"

lemma unat_of_nat_u32: "n < 2 ^ 32 \<Longrightarrow> unat (of_nat n :: u32) = n"
  by (simp add: unat_of_nat take_bit_nat_eq_self)

lemma feed_shell_deltas:
  assumes "n < length fs" "\<not> fs ! n" "n < 2 ^ 32"
  shows "feed c u (ActiveShellCall item (Some fs) b)
           (map (\<lambda>d. PShellCallCommand iid oi (of_nat n) (ShellDelta d)) ds) =
         Inr (ActiveShellCall item (Some fs) (b @ concat ds))"
  using assms by (induction ds arbitrary: b) (simp_all add: fold_simps unat_of_nat_u32)

definition with_commands :: "shell_call \<Rightarrow> string list \<Rightarrow> shell_call" where
  "with_commands item cs = item\<lparr>sc_action := (sc_action item)\<lparr>sa_commands := cs\<rparr>\<rparr>"

lemma with_commands_simps [simp]:
  "sa_commands (sc_action (with_commands item cs)) = cs"
  "with_commands (with_commands item cs) cs' = with_commands item cs'"
  by (simp_all add: with_commands_def)

lemma with_commands_fold:
  "item\<lparr>sc_action := (sc_action item)\<lparr>sa_commands := cs\<rparr>\<rparr> = with_commands item cs"
  by (simp add: with_commands_def)

lemma feed_one_command:
  assumes n: "n = length done_cmds" "n < 2 ^ 32" and flags: "unwrap_or stream [] = replicate n True"
  shows "feed c u (ActiveShellCall (with_commands item done_cmds) stream b) (command_events iid oi n first ds) =
    Inr (ActiveShellCall (with_commands item (done_cmds @ [first @ concat ds]))
           (Some (replicate (Suc n) True)) '''')"
proof -
  have added: "active_apply_event c u (PShellCallCommand iid oi (of_nat n) (ShellAdded first))
      (ActiveShellCall (with_commands item done_cmds) stream b) =
    Inr (ActiveShellCall (with_commands item (done_cmds @ ['''']))
           (Some (replicate n True @ [False])) first)"
    using n flags by (cases "done_cmds = []") (auto simp: unat_of_nat_u32 with_commands_fold Let_def last_replicate)
  have done_: "active_apply_event c u (PShellCallCommand iid oi (of_nat n) (ShellDone (first @ concat ds)))
      (ActiveShellCall (with_commands item (done_cmds @ ['''']))
         (Some (replicate n True @ [False])) (first @ concat ds)) =
    Inr (ActiveShellCall (with_commands item (done_cmds @ [first @ concat ds]))
           (Some (replicate (Suc n) True)) '''')"
    using n
    by (auto simp: unat_of_nat_u32 with_commands_fold take_if_empty_def nth_append
        list_update_append replicate_append_same)
  show ?thesis
    using n(2) by (simp add: command_events_def fold_simps added done_ feed_shell_deltas nth_append
        del: active_apply_event.simps)
qed

lemma feed_commands:
  assumes "length done_cmds + length cs < 2 ^ 32" "unwrap_or stream [] = replicate (length done_cmds) True"
  shows "\<exists>stream' b'. feed c u (ActiveShellCall (with_commands item done_cmds) stream b)
           (commands_events iid oi (length done_cmds) cs) =
         Inr (ActiveShellCall (with_commands item (done_cmds @ map (\<lambda>(f, ds). f @ concat ds) cs)) stream' b')
         \<and> unwrap_or stream' [] = replicate (length done_cmds + length cs) True"
  using assms
proof (induction cs arbitrary: done_cmds stream b)
  case Nil
  then show ?case by (auto simp: fold_simps)
next
  case (Cons cmd cs)
  obtain f ds where cmd: "cmd = (f, ds)" by force
  have one: "feed c u (ActiveShellCall (with_commands item done_cmds) stream b)
        (command_events iid oi (length done_cmds) f ds) =
      Inr (ActiveShellCall (with_commands item (done_cmds @ [f @ concat ds]))
             (Some (replicate (Suc (length done_cmds)) True)) '''')"
    using Cons.prems by (intro feed_one_command) auto
  have "length (done_cmds @ [f @ concat ds]) + length cs < 2 ^ 32"
    "unwrap_or (Some (replicate (Suc (length done_cmds)) True)) [] = replicate (length (done_cmds @ [f @ concat ds])) True"
    using Cons.prems by simp_all
  from Cons.IH [OF this, of "''''"] show ?case
    by (auto simp: cmd fold_simps one simp del: replicate.simps)
qed

text \<open>
  A streamed shell call is rebuilt exactly. Every command streamed as an added piece,
  deltas and a done event ends up in the item, in order and complete; commands already
  marked complete are never reopened, and all but the last command are complete at every
  moment of a stream.
\<close>

theorem shell_stream_rebuilds_commands:
  assumes "length cs < 2 ^ 32" and "sa_commands (sc_action item) = []"
  shows "(\<exists>stream b. feed c u (ActiveShellCall item None '''') (commands_events iid oi 0 cs) =
           Inr (ActiveShellCall (with_commands item (map (\<lambda>(f, ds). f @ concat ds) cs)) stream b)
         \<and> unwrap_or stream [] = replicate (length cs) True)
    \<and> (\<forall>ps a. feed c u (ActiveShellCall item None '''') ps = Inr a \<longrightarrow> shell_stream_ok a)"
proof (intro conjI allI impI)
  have "with_commands item [] = item"
    using assms(2) by (simp add: with_commands_def)
  then show "\<exists>stream b. feed c u (ActiveShellCall item None '''') (commands_events iid oi 0 cs) =
           Inr (ActiveShellCall (with_commands item (map (\<lambda>(f, ds). f @ concat ds) cs)) stream b)
         \<and> unwrap_or stream [] = replicate (length cs) True"
    using feed_commands [of "[]" cs None c u item "''''" iid oi] assms by auto
next
  fix ps a
  assume "feed c u (ActiveShellCall item None '''') ps = Inr a"
  moreover have "shell_stream_ok s \<Longrightarrow> feed c u s qs = Inr t \<Longrightarrow> shell_stream_ok t" for s qs t
    by (induction qs arbitrary: s) (auto simp: fold_simps and_then_eq_Inr intro: shell_stream_ok_step)
  moreover have "shell_stream_ok (ActiveShellCall item None '''')"
    by (simp add: shell_stream_ok_def)
  ultimately show "shell_stream_ok a" by blast
qed

theorem shell_stream_rebuilds_commands_witness:
  "\<exists>stream b. feed plain_codec '''' (ActiveShellCall
       \<lparr>sc_id = Some ''sh'', sc_call_id = ''c'', sc_action = \<lparr>sa_commands = [], sa_timeout_ms = None,
         sa_max_output_length = None, sa_extra = []\<rparr>, sc_status = None, sc_extra = []\<rparr> None '''')
       (commands_events ''sh'' 0 0 [(''l'', [''s'']), ('''', [])]) =
     Inr (ActiveShellCall
       \<lparr>sc_id = Some ''sh'', sc_call_id = ''c'', sc_action = \<lparr>sa_commands = [''ls'', ''''],
         sa_timeout_ms = None, sa_max_output_length = None, sa_extra = []\<rparr>,
         sc_status = None, sc_extra = []\<rparr> stream b)"
  using shell_stream_rebuilds_commands [of "[(''l'', [''s'']), ('''', [])]"
      "\<lparr>sc_id = Some ''sh'', sc_call_id = ''c'', sc_action = \<lparr>sa_commands = [], sa_timeout_ms = None,
         sa_max_output_length = None, sa_extra = []\<rparr>, sc_status = None, sc_extra = []\<rparr>"
      plain_codec "''''" "''sh''" 0]
  by (auto simp: with_commands_def)

end
