(* ===== verification/Slots.thy ===== *)
theory Slots
  imports Folding
begin

text \<open>
  The slots of \<open>accumulator/slot.rs\<close>: the only owner of item identity and lifecycle within
  one inference round. A slot is found by its output index or by the identifier bound to
  it; both maps are kept consistent by every operation, under both validation policies.
\<close>

section \<open>Slots and identities\<close>

datatype validation = Strict | Lenient

datatype slot_state = Active active_item | Done output_item

record slot =
  sl_item_id :: "string option"
  sl_state :: slot_state

type_synonym output_index = u32

record item_identity =
  ii_index :: "output_index option"
  ii_item_id :: "string option"
  ii_item_type :: sse_item_type

datatype slot_action = OpenSlot | MutateSlot | CompleteSlot

record slot_map =
  sm_slots :: "(output_index, slot) index_map"
  sm_indexes_by_id :: "string \<rightharpoonup> output_index"

definition empty_slot_map :: slot_map where
  "empty_slot_map = \<lparr>sm_slots = [], sm_indexes_by_id = Map.empty\<rparr>"

fun slot_state_item_type :: "slot_state \<Rightarrow> sse_item_type option" where
  "slot_state_item_type (Active a) = Some (active_item_type a)"
| "slot_state_item_type (Done item) = sse_item_type_of_item item"

fun done_item :: "slot_state \<Rightarrow> output_item option" where
  "done_item (Active _) = None"
| "done_item (Done item) = Some item"

fun slot_state_finalize :: "slot_state \<Rightarrow> output_item option" where
  "slot_state_finalize (Active a) = active_finalize a"
| "slot_state_finalize (Done item) = Some item"

fun is_active :: "slot_state \<Rightarrow> bool" where
  "is_active (Active _) = True"
| "is_active (Done _) = False"

definition completion_candidate ::
  "codec \<Rightarrow> string \<Rightarrow> slot_state \<Rightarrow> event_payload \<Rightarrow> output_item option \<Rightarrow> string \<Rightarrow> output_item option" where
  "completion_candidate c u st p parsed item_id =
     Option.bind (case st of Active a \<Rightarrow> Some a | Done item \<Rightarrow> active_from_completed item)
       (\<lambda>a. active_finalize (apply_output_item_done c u p parsed item_id a))"

definition sm_get :: "slot_map \<Rightarrow> output_index \<Rightarrow> slot option" where
  "sm_get m i = im_get (sm_slots m) i"

definition sm_len :: "slot_map \<Rightarrow> nat" where
  "sm_len m = length (sm_slots m)"

definition has_active :: "slot_map \<Rightarrow> bool" where
  "has_active m = list_ex (\<lambda>(_, s). is_active (sl_state s)) (sm_slots m)"

definition drain_output :: "slot_map \<Rightarrow> output_item list \<times> slot_map" where
  "drain_output m =
     (List.map_filter (\<lambda>(_, s). slot_state_finalize (sl_state s)) (im_sort_keys (sm_slots m)), empty_slot_map)"

section \<open>Resolution\<close>

function unused_from :: "nat \<Rightarrow> output_index list \<Rightarrow> output_index option" where
  "unused_from k used =
     (if 2 ^ 32 \<le> k then None
      else if of_nat k \<in> set used then unused_from (Suc k) used
      else Some (of_nat k))"
  by auto
termination by (relation "measure (\<lambda>(k, _). 2 ^ 32 - k)") auto

declare unused_from.simps [simp del]

definition unused_index :: "slot_map \<Rightarrow> executor_error + output_index" where
  "unused_index m =
     ok_or (unused_from 0 (im_keys (sm_slots m)))
       (invalid_request ''upstream stream exhausted output indexes'')"

definition identity_mismatch :: executor_error where
  "identity_mismatch = invalid_request
     (''upstream stream event does not match its active output item: ''
      @ ''inconsistent item ID, output_index, or kind'')"

definition no_active_item :: executor_error where
  "no_active_item = invalid_request ''upstream stream event has no active output item''"

definition resolve_new_index ::
  "slot_map \<Rightarrow> item_identity \<Rightarrow> slot_action \<Rightarrow> executor_error + output_index option" where
  "resolve_new_index m ident action =
     (if action \<noteq> OpenSlot
         \<and> list_ex (\<lambda>(_, s). slot_state_item_type (sl_state s) = Some (ii_item_type ident)
                     \<and> (sl_item_id s = None \<or> ii_item_id ident = None)) (sm_slots m)
      then Inl (invalid_request (''upstream item has ambiguous identity without '' @ quoted ''output_index''))
      else if action = MutateSlot then Inr None
      else and_then (unused_index m) (\<lambda>i. Inr (Some i)))"

definition resolve_at ::
  "slot_map \<Rightarrow> item_identity \<Rightarrow> slot_action \<Rightarrow> validation \<Rightarrow> output_index \<Rightarrow> executor_error + output_index option" where
  "resolve_at m ident action v i =
     (case sm_get m i of
        None \<Rightarrow>
          if action = OpenSlot then Inr (Some i)
          else if action = CompleteSlot \<and> v = Lenient then Inr (Some i)
          else if v = Strict then Inl no_active_item
          else Inr None
      | Some s \<Rightarrow>
          if action = OpenSlot
          then Inl (invalid_request ''upstream stream repeats output item or reuses its output_index'')
          else if sl_item_id s \<noteq> None \<and> ii_item_id ident \<noteq> None \<and> sl_item_id s \<noteq> ii_item_id ident
          then Inl identity_mismatch
          else if slot_state_item_type (sl_state s) \<noteq> Some (ii_item_type ident)
          then (if action = MutateSlot \<and> v = Lenient then Inr None else Inl identity_mismatch)
          else if done_item (sl_state s) \<noteq> None \<and> (action \<noteq> CompleteSlot \<or> v = Strict)
          then (if v = Strict then Inl no_active_item else Inr None)
          else Inr (Some i))"

definition resolve ::
  "slot_map \<Rightarrow> item_identity \<Rightarrow> slot_action \<Rightarrow> validation \<Rightarrow> executor_error + output_index option" where
  "resolve m ident action v =
     (let index_only_shell_command = (ii_item_type ident = TyShellCall \<and> action = MutateSlot);
          by_id = Option.bind (ii_item_id ident) (sm_indexes_by_id m)
      in if v = Strict
            \<and> (ii_index ident = None \<or> (ii_item_id ident = None \<and> \<not> index_only_shell_command))
         then Inl (invalid_request (''upstream item requires '' @ quoted ''output_index'' @ '' and a non-empty item ID''))
         else if ii_index ident \<noteq> None \<and> by_id \<noteq> None \<and> ii_index ident \<noteq> by_id
         then Inl identity_mismatch
         else
           and_then
             (case or_else (ii_index ident) by_id of
                Some i \<Rightarrow> Inr (Some i)
              | None \<Rightarrow> resolve_new_index m ident action)
             (\<lambda>index. case index of None \<Rightarrow> Inr None | Some i \<Rightarrow> resolve_at m ident action v i))"

section \<open>Operations\<close>

definition sm_insert :: "output_index \<Rightarrow> string option \<Rightarrow> slot_state \<Rightarrow> slot_map \<Rightarrow> slot_map" where
  "sm_insert i item_id st m =
     m\<lparr>sm_indexes_by_id := (case item_id of None \<Rightarrow> sm_indexes_by_id m
                              | Some x \<Rightarrow> (sm_indexes_by_id m)(x \<mapsto> i)),
       sm_slots := im_insert i \<lparr>sl_item_id = item_id, sl_state = st\<rparr> (sm_slots m)\<rparr>"

definition sm_put :: "output_index \<Rightarrow> slot \<Rightarrow> slot_map \<Rightarrow> slot_map" where
  "sm_put i s m = m\<lparr>sm_slots := im_insert i s (sm_slots m)\<rparr>"

definition bind_id :: "output_index \<Rightarrow> string option \<Rightarrow> slot_map \<Rightarrow> slot_map" where
  "bind_id i item_id m =
     (case (item_id, sm_get m i) of
        (Some x, Some s) \<Rightarrow>
          if sl_item_id s = None
          then (sm_put i (s\<lparr>sl_item_id := Some x\<rparr>) m)\<lparr>sm_indexes_by_id := (sm_indexes_by_id m)(x \<mapsto> i)\<rparr>
          else m
      | _ \<Rightarrow> m)"

definition open_slot ::
  "codec \<Rightarrow> string \<Rightarrow> item_identity \<Rightarrow> event_payload \<Rightarrow> validation \<Rightarrow> slot_map \<Rightarrow>
   executor_error + output_index option \<times> slot_map" where
  "open_slot c u ident p v m =
     and_then (resolve m ident OpenSlot v) (\<lambda>index.
       case index of
         None \<Rightarrow> Inr (None, m)
       | Some i \<Rightarrow>
           (case active_from_added c u p of
              None \<Rightarrow> Inr (None, m)
            | Some a \<Rightarrow> Inr (Some i, sm_insert i (ii_item_id ident) (Active a) m)))"

definition apply_to_slot ::
  "codec \<Rightarrow> string \<Rightarrow> item_identity \<Rightarrow> event_payload \<Rightarrow> validation \<Rightarrow> slot_map \<Rightarrow>
   executor_error + output_index option \<times> slot_map" where
  "apply_to_slot c u ident p v m =
     and_then (resolve m ident MutateSlot v) (\<lambda>index.
       case index of
         None \<Rightarrow> Inr (None, m)
       | Some i \<Rightarrow>
           and_then
             (case sm_get m i of
                Some s \<Rightarrow>
                  (case sl_state s of
                     Active a \<Rightarrow>
                       and_then (active_apply_event c u p a)
                         (\<lambda>b. Inr (sm_put i (s\<lparr>sl_state := Active b\<rparr>) m))
                   | Done _ \<Rightarrow> Inr m)
              | None \<Rightarrow> Inr m)
             (\<lambda>m'. Inr (Some i, bind_id i (ii_item_id ident) m')))"

definition semantically_equal :: "codec \<Rightarrow> output_item \<Rightarrow> output_item \<Rightarrow> bool" where
  "semantically_equal c l r = json_eq (cd_ser_output_item c l) (cd_ser_output_item c r)"

definition parsed_completion ::
  "codec \<Rightarrow> string \<Rightarrow> item_identity \<Rightarrow> event_payload \<Rightarrow> json \<Rightarrow> output_item option \<Rightarrow> output_item option" where
  "parsed_completion c u ident p raw validated =
     or_else validated
       (or_else (result_map id (cd_output_item c u raw))
          (if ii_item_type ident = TyReasoning then result_map OutReasoning (reasoning_of_payload c u p) else None))"

definition shell_completion_conflict :: "slot_state \<Rightarrow> output_item option \<Rightarrow> bool" where
  "shell_completion_conflict st parsed =
     (case st of
        Active (ActiveShellCall item (Some flags) _) \<Rightarrow>
          list_ex Not flags
          \<or> (case parsed of
               Some (OutShellCall d) \<Rightarrow> sa_commands (sc_action d) \<noteq> sa_commands (sc_action item)
             | _ \<Rightarrow> True)
      | _ \<Rightarrow> False)"

definition conflicting_done :: "output_index \<Rightarrow> executor_error" where
  "conflicting_done i = invalid_request
     (''upstream stream contains conflicting repeated output item.done for output['' @ show_nat (unat i) @ '']'')"

text \<open>
  A completion without a slot is kept for every kind but a message; a web search call gets an
  identifier when it has none.
\<close>

fun completed_without_slot :: "string \<Rightarrow> output_item option \<Rightarrow> output_item option" where
  "completed_without_slot u (Some (OutWebSearchCall w)) =
     Some (OutWebSearchCall (if ws_id w = '''' then w\<lparr>ws_id := ''ws_'' @ u\<rparr> else w))"
| "completed_without_slot u (Some (OutMessage _)) = None"
| "completed_without_slot u (Some OutUnknown) = None"
| "completed_without_slot u parsed = parsed"

definition complete_existing ::
  "codec \<Rightarrow> string \<Rightarrow> item_identity \<Rightarrow> event_payload \<Rightarrow> output_item option \<Rightarrow> output_index \<Rightarrow> slot \<Rightarrow>
   slot_map \<Rightarrow> executor_error + output_index option \<times> slot_map" where
  "complete_existing c u ident p parsed i s m =
     (if shell_completion_conflict (sl_state s) parsed
      then Inl (invalid_request ''shell item done has unfinished or contradictory commands'')
      else
        let candidate = completion_candidate c u (sl_state s) p parsed
              (unwrap_or (or_else (sl_item_id s) (ii_item_id ident)) '''');
            same = (\<lambda>previous d. case d of None \<Rightarrow> False | Some x \<Rightarrow> semantically_equal c previous x)
        in case sl_state s of
             Done previous \<Rightarrow>
               if same previous parsed \<or> same previous candidate
               then Inr (None, bind_id i (ii_item_id ident) m)
               else Inl (conflicting_done i)
           | Active _ \<Rightarrow>
               (case candidate of
                  None \<Rightarrow> Inr (None, m)
                | Some item \<Rightarrow>
                    let m' = bind_id i (ii_item_id ident) m
                    in Inr (Some i,
                         case sm_get m' i of
                           Some s' \<Rightarrow> sm_put i (s'\<lparr>sl_state := Done item\<rparr>) m'
                         | None \<Rightarrow> m')))"

definition complete_slot ::
  "codec \<Rightarrow> string \<Rightarrow> item_identity \<Rightarrow> event_payload \<Rightarrow> output_item option \<Rightarrow> validation \<Rightarrow> slot_map \<Rightarrow>
   executor_error + output_index option \<times> slot_map" where
  "complete_slot c u ident p validated v m =
     and_then (resolve m ident CompleteSlot v) (\<lambda>index.
       case (index, p) of
         (Some i, POutputItemDone _ _ _ raw) \<Rightarrow>
           (let parsed = parsed_completion c u ident p raw validated in
            case sm_get m i of
              Some s \<Rightarrow> complete_existing c u ident p parsed i s m
            | None \<Rightarrow>
                (case completed_without_slot u parsed of
                   Some item \<Rightarrow> Inr (Some i, sm_insert i (ii_item_id ident) (Done item) m)
                 | None \<Rightarrow> Inr (None, m)))
       | _ \<Rightarrow> Inr (None, m))"

section \<open>The invariant\<close>

definition slot_map_inv :: "slot_map \<Rightarrow> bool" where
  "slot_map_inv m \<longleftrightarrow> im_wf (sm_slots m)
     \<and> (\<forall>x i. sm_indexes_by_id m x = Some i \<longleftrightarrow> (\<exists>s. sm_get m i = Some s \<and> sl_item_id s = Some x))"

text \<open>
  What never changes: a slot stays, keeps its kind and the identifier once bound, and once
  done keeps its item.
\<close>

definition slot_grows :: "slot \<Rightarrow> slot \<Rightarrow> bool" where
  "slot_grows s t \<longleftrightarrow>
     slot_state_item_type (sl_state t) = slot_state_item_type (sl_state s)
     \<and> (done_item (sl_state s) \<noteq> None \<longrightarrow> sl_state t = sl_state s)
     \<and> (sl_item_id s \<noteq> None \<longrightarrow> sl_item_id t = sl_item_id s)"

definition slot_map_grows :: "slot_map \<Rightarrow> slot_map \<Rightarrow> bool" where
  "slot_map_grows m n \<longleftrightarrow> (\<forall>i s. sm_get m i = Some s \<longrightarrow> (\<exists>t. sm_get n i = Some t \<and> slot_grows s t))"

lemma slot_grows_refl [simp]: "slot_grows s s"
  by (simp add: slot_grows_def)

lemma slot_grows_trans: "slot_grows s t \<Longrightarrow> slot_grows t u \<Longrightarrow> slot_grows s u"
  by (auto simp: slot_grows_def)

lemma slot_map_grows_refl [simp]: "slot_map_grows m m"
  by (auto simp: slot_map_grows_def)

lemma slot_map_grows_trans: "slot_map_grows m n \<Longrightarrow> slot_map_grows n k \<Longrightarrow> slot_map_grows m k"
  unfolding slot_map_grows_def by (meson slot_grows_trans)

lemma slot_map_inv_empty [simp]: "slot_map_inv empty_slot_map"
  by (simp add: slot_map_inv_def empty_slot_map_def sm_get_def)

lemma sm_get_put [simp]: "sm_get (sm_put i s m) j = (if j = i then Some s else sm_get m j)"
  by (simp add: sm_get_def sm_put_def)

lemma sm_get_insert [simp]:
  "sm_get (sm_insert i x st m) j = (if j = i then Some \<lparr>sl_item_id = x, sl_state = st\<rparr> else sm_get m j)"
  by (simp add: sm_get_def sm_insert_def)

lemma sm_ids_insert [simp]:
  "sm_indexes_by_id (sm_insert i None st m) = sm_indexes_by_id m"
  "sm_indexes_by_id (sm_insert i (Some x) st m) = (sm_indexes_by_id m)(x \<mapsto> i)"
  by (simp_all add: sm_insert_def)

lemma sm_ids_put [simp]: "sm_indexes_by_id (sm_put i s m) = sm_indexes_by_id m"
  by (simp add: sm_put_def)

lemma sm_get_ids_update [simp]: "sm_get (m\<lparr>sm_indexes_by_id := f\<rparr>) i = sm_get m i"
  by (simp add: sm_get_def)

lemma im_wf_put [simp]: "im_wf (sm_slots m) \<Longrightarrow> im_wf (sm_slots (sm_put i s m))"
  by (simp add: sm_put_def im_wf_insert)

lemma slot_map_inv_put:
  "slot_map_inv m \<Longrightarrow> sm_get m i = Some s \<Longrightarrow> sl_item_id t = sl_item_id s \<Longrightarrow> slot_map_inv (sm_put i t m)"
  by (auto simp: slot_map_inv_def)

lemma slot_map_grows_put:
  "sm_get m i = Some s \<Longrightarrow> slot_grows s t \<Longrightarrow> slot_map_grows m (sm_put i t m)"
  by (auto simp: slot_map_grows_def)

text \<open>An identifier is free when it is bound to no slot.\<close>

lemma unbound_id:
  "slot_map_inv m \<Longrightarrow> sm_indexes_by_id m x = None \<Longrightarrow> sm_get m j = Some s \<Longrightarrow> sl_item_id s \<noteq> Some x"
  unfolding slot_map_inv_def by (metis option.distinct(1))

lemma slot_map_inv_insert:
  assumes "slot_map_inv m" "sm_get m i = None" "\<And>x. item_id = Some x \<Longrightarrow> sm_indexes_by_id m x = None"
  shows "slot_map_inv (sm_insert i item_id st m)"
proof -
  note unbound = unbound_id [OF assms(1) assms(3)]
  have "im_wf (sm_slots (sm_insert i item_id st m))"
    using assms(1) by (simp add: slot_map_inv_def sm_insert_def im_wf_insert)
  moreover have "sm_indexes_by_id (sm_insert i item_id st m) x = Some j \<longleftrightarrow>
      (\<exists>s. sm_get (sm_insert i item_id st m) j = Some s \<and> sl_item_id s = Some x)" for x j
    using assms(1,2) unbound by (cases item_id) (auto simp: slot_map_inv_def)
  ultimately show ?thesis by (simp add: slot_map_inv_def)
qed

lemma slot_map_grows_insert: "sm_get m i = None \<Longrightarrow> slot_map_grows m (sm_insert i x st m)"
  by (auto simp: slot_map_grows_def)

lemma slot_map_inv_bind:
  assumes "slot_map_inv m" "\<And>x. item_id = Some x \<Longrightarrow> sm_indexes_by_id m x \<in> {None, Some i}"
  shows "slot_map_inv (bind_id i item_id m)"
proof (cases item_id)
  case None
  with assms show ?thesis by (simp add: bind_id_def)
next
  case (Some x)
  show ?thesis
  proof (cases "sm_get m i")
    case None
    with assms Some show ?thesis by (simp add: bind_id_def)
  next
    case (Some s)
    have "sl_item_id s = None \<Longrightarrow> sm_indexes_by_id m x = None"
      using assms Some \<open>item_id = Some x\<close> by (auto simp: slot_map_inv_def)
    then have "sl_item_id s = None \<Longrightarrow> sm_get m j = Some t \<Longrightarrow> sl_item_id t \<noteq> Some x" for j t
      using unbound_id [OF assms(1)] by blast
    with assms(1) Some \<open>item_id = Some x\<close> show ?thesis
      by (auto simp: bind_id_def slot_map_inv_def)
  qed
qed

lemma slot_map_grows_bind: "slot_map_grows m (bind_id i item_id m)"
  by (auto simp: bind_id_def slot_map_grows_def slot_grows_def split: option.splits)

section \<open>What resolution establishes\<close>

lemma unused_from_Some:
  "unused_from k used = Some i \<Longrightarrow>
     i \<notin> set used \<and> k \<le> unat i \<and> (\<forall>j. k \<le> j \<and> j < unat i \<longrightarrow> of_nat j \<in> set used)"
proof (induction k used rule: unused_from.induct)
  case (1 k used)
  show ?case
  proof (cases "k < 2 ^ 32 \<and> (of_nat k :: u32) \<in> set used")
    case True
    with 1 have "i \<notin> set used \<and> Suc k \<le> unat i \<and> (\<forall>j. Suc k \<le> j \<and> j < unat i \<longrightarrow> of_nat j \<in> set used)"
      by (auto simp: unused_from.simps [of k])
    with True show ?thesis by (metis le_antisym not_less_eq_eq Suc_leD)
  next
    case False
    with 1(2) have "i = of_nat k" "k < 2 ^ 32" "of_nat k \<notin> set used"
      by (auto simp: unused_from.simps [of k] split: if_splits)
    then show ?thesis by (auto simp: unat_of_nat_u32)
  qed
qed

lemma unused_from_None:
  "unused_from k used = None \<Longrightarrow> k \<le> j \<Longrightarrow> j < 2 ^ 32 \<Longrightarrow> of_nat j \<in> set used"
proof (induction k used rule: unused_from.induct)
  case (1 k used)
  then have step: "(of_nat k :: u32) \<in> set used" "unused_from (Suc k) used = None"
    by (auto simp: unused_from.simps [of k] split: if_splits)
  show ?case
  proof (cases "j = k")
    case True
    with step show ?thesis by simp
  next
    case False
    with 1 step show ?thesis by auto
  qed
qed

lemma unused_from_None_full: "unused_from 0 used = None \<Longrightarrow> 2 ^ 32 \<le> length used"
proof -
  assume none: "unused_from 0 used = None"
  have "(of_nat ` {j. j < 2 ^ 32} :: u32 set) \<subseteq> set used"
    using unused_from_None [OF none] by auto
  moreover have "inj_on (of_nat :: nat \<Rightarrow> u32) {j. j < 2 ^ 32}"
    by (rule inj_on_inverseI [where g = unat]) (simp add: unat_of_nat_u32)
  ultimately have "card {j :: nat. j < 2 ^ 32} \<le> card (set used)"
    by (metis List.finite_set card_image card_mono)
  then show ?thesis using card_length [of used] by simp
qed

lemma resolve_new_index_fresh:
  assumes "resolve_new_index m ident action = Inr (Some i)"
  shows "sm_get m i = None" "action \<noteq> MutateSlot"
proof -
  from assms have i: "unused_from 0 (im_keys (sm_slots m)) = Some i" and a: "action \<noteq> MutateSlot"
    by (auto simp: resolve_new_index_def unused_index_def result_simps split: if_splits)
  from unused_from_Some [OF i] show "sm_get m i = None"
    by (simp add: sm_get_def im_get_None_iff)
  from a show "action \<noteq> MutateSlot" .
qed

text \<open>What an index that resolves tells of the slot at it.\<close>

definition resolved_ok :: "slot_map \<Rightarrow> item_identity \<Rightarrow> slot_action \<Rightarrow> validation \<Rightarrow> output_index \<Rightarrow> bool" where
  "resolved_ok m ident action v i \<longleftrightarrow>
     (\<forall>x. ii_item_id ident = Some x \<longrightarrow> sm_indexes_by_id m x \<in> {None, Some i})
     \<and> (sm_get m i = None \<longrightarrow> action = OpenSlot \<or> action = CompleteSlot \<and> v = Lenient)
     \<and> (\<forall>s. sm_get m i = Some s \<longrightarrow>
          action \<noteq> OpenSlot \<and> slot_state_item_type (sl_state s) = Some (ii_item_type ident)
          \<and> (sl_item_id s = None \<or> ii_item_id ident = None \<or> sl_item_id s = ii_item_id ident)
          \<and> (done_item (sl_state s) \<noteq> None \<longrightarrow> action = CompleteSlot \<and> v = Lenient))"

lemma resolve_at_ok:
  assumes "resolve_at m ident action v j = Inr (Some i)"
    and "\<And>x. ii_item_id ident = Some x \<Longrightarrow> sm_indexes_by_id m x \<in> {None, Some j}"
  shows "i = j" "resolved_ok m ident action v i"
proof -
  show "i = j" using assms(1) by (auto simp: resolve_at_def split: option.splits if_splits)
  then show "resolved_ok m ident action v i"
    using assms by (cases v) (auto simp: resolve_at_def resolved_ok_def split: option.splits if_splits)
qed

lemma resolve_ok:
  assumes "resolve m ident action v = Inr (Some i)"
  shows "resolved_ok m ident action v i"
proof -
  define by_id where "by_id = Option.bind (ii_item_id ident) (sm_indexes_by_id m)"
  from assms have main: "and_then (case or_else (ii_index ident) by_id of Some k \<Rightarrow> Inr (Some k)
        | None \<Rightarrow> resolve_new_index m ident action)
      (\<lambda>index. case index of None \<Rightarrow> Inr None | Some k \<Rightarrow> resolve_at m ident action v k) = Inr (Some i)"
    and agree: "ii_index ident = None \<or> by_id = None \<or> ii_index ident = by_id"
    unfolding resolve_def Let_def by_id_def [symmetric] by (auto split: if_splits)
  from main obtain index where src: "(case or_else (ii_index ident) by_id of Some k \<Rightarrow> Inr (Some k)
        | None \<Rightarrow> resolve_new_index m ident action) = Inr index"
    and at: "(case index of None \<Rightarrow> Inr None | Some k \<Rightarrow> resolve_at m ident action v k) = Inr (Some i)"
    by (rule and_then_InrE)
  from at obtain j where index: "index = Some j" and j: "resolve_at m ident action v j = Inr (Some i)"
    by (cases index) auto
  have "sm_indexes_by_id m x \<in> {None, Some j}" if "ii_item_id ident = Some x" for x
    using src agree that index
    by (cases "ii_index ident"; cases "sm_indexes_by_id m x") (auto simp: by_id_def)
  from resolve_at_ok [OF j this] show ?thesis by simp
qed

lemma resolve_fresh_id:
  assumes "slot_map_inv m" "resolved_ok m ident action v i" "sm_get m i = None" "ii_item_id ident = Some x"
  shows "sm_indexes_by_id m x = None"
  using assms by (auto simp: resolved_ok_def slot_map_inv_def)

section \<open>Every operation preserves the invariant and only grows\<close>

lemma open_slot_preserves:
  assumes inv: "slot_map_inv m" and step: "open_slot c u ident p v m = Inr (r, n)"
  shows "slot_map_inv n \<and> slot_map_grows m n"
proof -
  from step consider "n = m" | (ins) i a where "resolve m ident OpenSlot v = Inr (Some i)"
      "n = sm_insert i (ii_item_id ident) (Active a) m"
    by (auto simp: open_slot_def elim!: and_then_InrE split: option.split_asm)
  then show ?thesis
  proof cases
    case ins
    then have ok: "resolved_ok m ident OpenSlot v i" by (simp add: resolve_ok)
    then have none: "sm_get m i = None" by (cases "sm_get m i") (auto simp: resolved_ok_def)
    with ins inv resolve_fresh_id [OF inv ok none] show ?thesis
      by (auto intro: slot_map_inv_insert slot_map_grows_insert)
  qed (use inv in simp)
qed

lemma bound_id_put:
  assumes "resolved_ok m ident action v i"
  shows "\<And>x. ii_item_id ident = Some x \<Longrightarrow> sm_indexes_by_id (sm_put i s m) x \<in> {None, Some i}"
  using assms by (auto simp: resolved_ok_def)

lemma apply_to_slot_preserves:
  assumes inv: "slot_map_inv m" and step: "apply_to_slot c u ident p v m = Inr (r, n)"
  shows "slot_map_inv n \<and> slot_map_grows m n"
proof (cases "resolve m ident MutateSlot v = Inr None")
  case True
  with step have "n = m" by (simp add: apply_to_slot_def)
  with inv show ?thesis by simp
next
  case False
  with step obtain i where res: "resolve m ident MutateSlot v = Inr (Some i)"
    by (auto simp: apply_to_slot_def result_simps split: option.splits)
  have ok: "resolved_ok m ident MutateSlot v i" using res by (rule resolve_ok)
  then obtain s where s: "sm_get m i = Some s" by (cases "sm_get m i") (auto simp: resolved_ok_def)
  from ok s obtain a where a: "sl_state s = Active a"
    by (cases "sl_state s") (auto simp: resolved_ok_def)
  from step res s a obtain b where b: "active_apply_event c u p a = Inr b"
    and n: "n = bind_id i (ii_item_id ident) (sm_put i (s\<lparr>sl_state := Active b\<rparr>) m)"
    by (auto simp: apply_to_slot_def result_simps)
  let ?m = "sm_put i (s\<lparr>sl_state := Active b\<rparr>) m"
  have "slot_map_inv ?m" using inv s by (simp add: slot_map_inv_put)
  moreover have "slot_map_grows m ?m"
    using s a active_apply_event_type [OF b] by (auto intro!: slot_map_grows_put simp: slot_grows_def)
  ultimately show ?thesis
    using n bound_id_put [OF ok] slot_map_inv_bind slot_map_grows_bind slot_map_grows_trans by blast
qed

lemma completion_candidate_type:
  "completion_candidate c u st p parsed x = Some item \<Longrightarrow>
     slot_state_item_type st = sse_item_type_of_item item"
  by (cases st)
    (auto simp: completion_candidate_def result_simps dest!: active_finalize_type active_from_completed_type)

lemma complete_existing_preserves:
  assumes inv: "slot_map_inv m" and ok: "resolved_ok m ident CompleteSlot v i" and s: "sm_get m i = Some s"
    and step: "complete_existing c u ident p parsed i s m = Inr (r, n)"
  shows "slot_map_inv n \<and> slot_map_grows m n"
proof -
  let ?m = "bind_id i (ii_item_id ident) m"
  have bind: "slot_map_inv ?m" "slot_map_grows m ?m"
    using inv ok by (auto intro!: slot_map_inv_bind slot_map_grows_bind simp: resolved_ok_def)
  from bind(2) s obtain s' where s': "sm_get ?m i = Some s'" and grow: "slot_grows s s'"
    by (auto simp: slot_map_grows_def)
  from step s' consider "n = m" | "n = ?m"
    | (done_) a item where "sl_state s = Active a"
        "completion_candidate c u (sl_state s) p parsed (unwrap_or (or_else (sl_item_id s) (ii_item_id ident)) '''')
           = Some item" "n = sm_put i (s'\<lparr>sl_state := Done item\<rparr>) ?m"
    by (cases "sl_state s") (auto simp: complete_existing_def Let_def split: if_splits option.splits)
  then show ?thesis
  proof cases
    case done_
    have act: "sl_state s' = Active a \<or> done_item (sl_state s') = None"
      using s s' done_(1) by (auto simp: bind_id_def split: option.splits if_splits)
    then have "slot_grows s' (s'\<lparr>sl_state := Done item\<rparr>)"
      using completion_candidate_type [OF done_(2)] grow done_(1) by (auto simp: slot_grows_def)
    then have "slot_map_inv n \<and> slot_map_grows ?m n"
      using bind(1) s' done_(3) by (auto intro: slot_map_inv_put slot_map_grows_put)
    with bind(2) show ?thesis by (blast intro: slot_map_grows_trans)
  qed (use inv bind in simp_all)
qed

lemma complete_slot_preserves:
  assumes inv: "slot_map_inv m" and step: "complete_slot c u ident p validated v m = Inr (r, n)"
  shows "slot_map_inv n \<and> slot_map_grows m n"
proof (cases "n = m")
  case True
  with inv show ?thesis by simp
next
  case False
  from step obtain index where res: "resolve m ident CompleteSlot v = Inr index"
    by (auto simp: complete_slot_def)
  from False step res obtain i where index: "index = Some i"
    by (auto simp: complete_slot_def split: option.splits)
  have ok: "resolved_ok m ident CompleteSlot v i" using res index by (simp add: resolve_ok)
  show ?thesis
  proof (cases "sm_get m i")
    case None
    with False step res index obtain item
      where "n = sm_insert i (ii_item_id ident) (Done item) m"
      by (auto simp: complete_slot_def Let_def split: event_payload.splits option.splits)
    with None resolve_fresh_id [OF inv ok None] inv show ?thesis
      by (auto intro: slot_map_inv_insert slot_map_grows_insert)
  next
    case (Some s)
    with False step res index obtain parsed where "complete_existing c u ident p parsed i s m = Inr (r, n)"
      by (auto simp: complete_slot_def Let_def split: event_payload.splits)
    with complete_existing_preserves [OF inv ok Some] show ?thesis by blast
  qed
qed

section \<open>Runs of operations\<close>

datatype slot_op =
    OpOpen string item_identity event_payload
  | OpApply string item_identity event_payload
  | OpComplete string item_identity event_payload "output_item option"

fun slot_op_step :: "codec \<Rightarrow> validation \<Rightarrow> slot_map \<Rightarrow> slot_op \<Rightarrow> executor_error + slot_map" where
  "slot_op_step c v m (OpOpen u ident p) = and_then (open_slot c u ident p v m) (\<lambda>(_, n). Inr n)"
| "slot_op_step c v m (OpApply u ident p) = and_then (apply_to_slot c u ident p v m) (\<lambda>(_, n). Inr n)"
| "slot_op_step c v m (OpComplete u ident p d) = and_then (complete_slot c u ident p d v m) (\<lambda>(_, n). Inr n)"

lemma slot_op_step_preserves:
  "slot_map_inv m \<Longrightarrow> slot_op_step c v m q = Inr n \<Longrightarrow> slot_map_inv n \<and> slot_map_grows m n"
  by (cases q)
    (auto elim!: and_then_InrE dest: open_slot_preserves apply_to_slot_preserves complete_slot_preserves)

interpretation slots: guarded_machine "slot_op_step c v" slot_map_inv slot_map_grows for c v
  by unfold_locales (use slot_op_step_preserves slot_map_grows_trans in \<open>blast | simp\<close>)+

definition sample_open :: slot_op where
  "sample_open = OpOpen ''u1'' \<lparr>ii_index = Some 3, ii_item_id = None, ii_item_type = TyMessage\<rparr>
     (POutputItemAdded '''' TyMessage (Some 3) None None None None)"

definition sample_apply :: slot_op where
  "sample_apply = OpApply ''u2'' \<lparr>ii_index = Some 3, ii_item_id = Some ''m'', ii_item_type = TyMessage\<rparr>
     (PTextDelta ''hi'' ''m'' (Some 3) 0)"

definition sample_slots :: slot_map where
  "sample_slots = \<lparr>sm_slots = [(3, \<lparr>sl_item_id = Some ''m'',
       sl_state = Active (ActiveMessage (new_output_message ''msg_u1'' MessageInProgress) ''hi'')\<rparr>)],
     sm_indexes_by_id = [''m'' \<mapsto> 3]\<rparr>"

lemma sample_run: "run_steps (slot_op_step plain_codec Lenient) empty_slot_map [sample_open, sample_apply] = Inr sample_slots"
  by (simp add: sample_open_def sample_apply_def sample_slots_def empty_slot_map_def open_slot_def resolve_def
      resolve_at_def sm_get_def active_from_added_def result_map_def sm_insert_def apply_to_slot_def
      id_or_fresh_def sm_put_def bind_id_def fun_eq_iff)

text \<open>
  C5: the identity maps of a round never disagree. After any sequence of accepted open, apply
  and complete operations, under either policy, an identifier leads to an index exactly when
  the slot at that index is bound to it; and relative to every earlier state of the run no
  slot disappeared, changed its kind or lost its identifier, and a completed item is still
  the same item.
\<close>

theorem slot_identities_consistent:
  assumes "run_steps (slot_op_step c v) empty_slot_map qs = Inr m"
    and "run_steps (slot_op_step c v) m rs = Inr n"
  shows "(\<forall>x i. sm_indexes_by_id n x = Some i \<longleftrightarrow> (\<exists>s. sm_get n i = Some s \<and> sl_item_id s = Some x))
    \<and> distinct (im_keys (sm_slots n))
    \<and> (\<forall>i s. sm_get m i = Some s \<longrightarrow> (\<exists>t. sm_get n i = Some t
         \<and> slot_state_item_type (sl_state t) = slot_state_item_type (sl_state s)
         \<and> (\<forall>x. sl_item_id s = Some x \<longrightarrow> sl_item_id t = Some x)
         \<and> (\<forall>d. sl_state s = Done d \<longrightarrow> sl_state t = Done d)))"
proof -
  have m: "slot_map_inv m" using slots.inv_run [OF slot_map_inv_empty assms(1)] .
  have n: "slot_map_inv n" "slot_map_grows m n"
    using slots.inv_run [OF m assms(2)] slots.grows_run [OF m assms(2)] by auto
  have "distinct (im_keys (sm_slots n))" using n(1) by (simp add: slot_map_inv_def im_wf_def im_keys_def)
  moreover have "\<exists>t. sm_get n i = Some t
         \<and> slot_state_item_type (sl_state t) = slot_state_item_type (sl_state s)
         \<and> (\<forall>x. sl_item_id s = Some x \<longrightarrow> sl_item_id t = Some x)
         \<and> (\<forall>d. sl_state s = Done d \<longrightarrow> sl_state t = Done d)" if "sm_get m i = Some s" for i s
    using n(2) that by (fastforce simp: slot_map_grows_def slot_grows_def)
  ultimately show ?thesis using n(1) by (simp add: slot_map_inv_def)
qed

theorem slot_identities_consistent_witness:
  "\<exists>s. sm_get sample_slots 3 = Some s \<and> sl_item_id s = Some ''m''"
proof -
  have "run_steps (slot_op_step plain_codec Lenient) sample_slots [] = Inr sample_slots" by simp
  from slot_identities_consistent [OF sample_run this] have
    "sm_indexes_by_id sample_slots ''m'' = Some 3 \<longleftrightarrow>
       (\<exists>s. sm_get sample_slots 3 = Some s \<and> sl_item_id s = Some ''m'')" by blast
  then show ?thesis by (simp add: sample_slots_def)
qed

section \<open>Draining\<close>

lemma map_filter_assoc:
  "im_wf xs \<Longrightarrow> (\<And>k v. (k, v) \<in> set xs \<Longrightarrow> g k = v) \<Longrightarrow>
     List.map_filter (\<lambda>(_, v). f v) xs = List.map_filter (\<lambda>k. f (g k)) (im_keys xs)"
proof (induction xs)
  case (Cons a xs)
  obtain k v where a: "a = (k, v)" by force
  have gk: "g k = v" using Cons.prems a by simp
  have ih: "List.map_filter (\<lambda>(_, v). f v) xs = List.map_filter (\<lambda>k. f (g k)) (im_keys xs)"
    using Cons a by simp
  show ?case by (simp add: a gk ih List.map_filter_simps split: option.splits)
qed (simp add: List.map_filter_simps)

text \<open>
  Draining delivers the items in upstream output order. The drained list is what the
  slots finalize to, taken along their strictly increasing output indexes; completed items
  come out unchanged, and nothing stays behind.
\<close>

theorem drain_in_output_order:
  assumes "run_steps (slot_op_step c v) empty_slot_map qs = Inr m"
  shows "\<exists>is. sorted_wrt (<) is \<and> (\<forall>i. i \<in> set is \<longleftrightarrow> sm_get m i \<noteq> None)
     \<and> fst (drain_output m) = List.map_filter (\<lambda>i. slot_state_finalize (sl_state (the (sm_get m i)))) is
     \<and> (\<forall>i s d. sm_get m i = Some s \<and> sl_state s = Done d \<longrightarrow> d \<in> set (fst (drain_output m)))
     \<and> snd (drain_output m) = empty_slot_map"
proof (intro exI conjI)
  let ?sorted = "im_sort_keys (sm_slots m)"
  have wf: "im_wf (sm_slots m)"
    using slots.inv_run [OF slot_map_inv_empty assms] by (simp add: slot_map_inv_def)
  then have wfs: "im_wf ?sorted" by (rule im_wf_sort)
  show "sorted_wrt (<) (im_keys ?sorted)" using wf by (rule im_strict_sorted)
  show "\<forall>i. i \<in> set (im_keys ?sorted) \<longleftrightarrow> sm_get m i \<noteq> None"
    by (auto simp: set_im_keys sm_get_def im_get_None_iff)
  have the: "(k, s) \<in> set ?sorted \<Longrightarrow> the (sm_get m k) = s" for k s
    using wf by (simp add: sm_get_def im_get_Some_iff [THEN iffD2])
  have out: "fst (drain_output m) = List.map_filter (\<lambda>(_, s). slot_state_finalize (sl_state s)) ?sorted"
    by (simp add: drain_output_def)
  show "fst (drain_output m) = List.map_filter (\<lambda>i. slot_state_finalize (sl_state (the (sm_get m i)))) (im_keys ?sorted)"
    unfolding out using map_filter_assoc [OF wfs the, where f = "\<lambda>s. slot_state_finalize (sl_state s)"] by simp
  show "\<forall>i s d. sm_get m i = Some s \<and> sl_state s = Done d \<longrightarrow> d \<in> set (fst (drain_output m))"
    unfolding out by (force simp: List.map_filter_def sm_get_def dest: im_get_SomeD)
qed (simp add: drain_output_def)

theorem drain_in_output_order_witness:
  "fst (drain_output sample_slots) =
     [OutMessage \<lparr>om_id = ''msg_u1'', om_role = ''assistant'', om_status = MessageCompleted,
        om_content = [new_output_text ''hi'']\<rparr>]"
proof -
  obtain "is" where "is": "\<forall>i. i \<in> set is \<longleftrightarrow> sm_get sample_slots i \<noteq> None" "sorted_wrt (<) is"
    and out: "fst (drain_output sample_slots) =
      List.map_filter (\<lambda>i. slot_state_finalize (sl_state (the (sm_get sample_slots i)))) is"
    using drain_in_output_order [OF sample_run] by blast
  have "set is = {3}" using "is"(1) by (auto simp: sm_get_def sample_slots_def split: if_splits)
  moreover have "distinct is" using "is"(2) by (simp add: strict_sorted_iff)
  ultimately have "is = [3]"
    by (cases "is"; cases "tl is") (auto simp: insert_eq_iff)
  with out show ?thesis
    by (simp add: List.map_filter_simps sm_get_def sample_slots_def new_output_message_def)
qed

text \<open>
  An index allocated for an item without one is the least unused index, and allocation
  fails only when every 32-bit index is taken.
\<close>

theorem unused_index_least:
  "(case unused_index m of
      Inr i \<Rightarrow> sm_get m i = None \<and> (\<forall>j < i. sm_get m j \<noteq> None)
    | Inl _ \<Rightarrow> 2 ^ 32 \<le> sm_len m)"
proof (cases "unused_from 0 (im_keys (sm_slots m))")
  case None
  with unused_from_None_full [OF None] show ?thesis
    by (simp add: unused_index_def sm_len_def im_keys_def)
next
  case (Some i)
  from unused_from_Some [OF Some] have fresh: "i \<notin> set (im_keys (sm_slots m))"
    and below: "\<And>k. k < unat i \<Longrightarrow> (of_nat k :: u32) \<in> set (im_keys (sm_slots m))" by auto
  have "sm_get m j \<noteq> None" if "unat j < unat i" for j
    using below [OF that] im_get_None_iff [of "sm_slots m" j] by (simp add: sm_get_def)
  moreover have "sm_get m i = None" using fresh by (simp add: sm_get_def im_get_None_iff)
  ultimately have "sm_get m i = None" "\<forall>j < i. sm_get m j \<noteq> None"
    by (auto simp: word_less_nat_alt)
  with Some show ?thesis by (simp add: unused_index_def)
qed

theorem unused_index_least_witness:
  "unused_index sample_slots = Inr 0 \<and> sm_get sample_slots 0 = None"
proof -
  have "unused_index sample_slots = Inr 0"
    by (simp add: unused_index_def sample_slots_def unused_from.simps)
  with unused_index_least [of sample_slots] show ?thesis by simp
qed

end
