(* ===== verification/Accumulator.thy ===== *)
theory Accumulator
  imports Slots
begin

text \<open>
  The response accumulator of one inference round: \<open>accumulator/mod.rs\<close> and
  \<open>accumulator/json.rs\<close>. It folds normalized events into slots, checks the lifecycle of a
  strict stream, and yields the response payload.
\<close>

section \<open>State\<close>

record response_payload =
  rp_id :: string
  rp_object :: string
  rp_created_at :: i64
  rp_model :: string
  rp_status :: string
  rp_output :: "output_item list"
  rp_usage :: "response_usage option"
  rp_incomplete_details :: "incomplete_details option"
  rp_error :: "json option"
  rp_previous_response_id :: "string option"
  rp_conversation_id :: "string option"
  rp_instructions :: "string option"
  rp_tools :: "responses_tool list option"
  rp_tool_choice :: "tool_choice option"

record call_id_observation =
  co_first :: "string option"
  co_changed :: bool

definition no_observation :: call_id_observation where
  "no_observation = \<lparr>co_first = None, co_changed = False\<rparr>"

definition observe_call_id :: "string option \<Rightarrow> call_id_observation \<Rightarrow> call_id_observation" where
  "observe_call_id call_id obs =
     (case filter_option (\<lambda>x. x \<noteq> '''') call_id of
        None \<Rightarrow> obs
      | Some x \<Rightarrow>
          (case co_first obs of
             Some first \<Rightarrow> if first \<noteq> x then obs\<lparr>co_changed := True\<rparr> else obs
           | None \<Rightarrow> obs\<lparr>co_first := Some x\<rparr>))"

datatype stream_lifecycle = AwaitingCreated | Created | InProgress | Terminal

datatype event_disposition = Emit "output_index option" | Ignore

definition item_disposition :: "output_index option \<Rightarrow> event_disposition" where
  "item_disposition index = (case index of Some i \<Rightarrow> Emit (Some i) | None \<Rightarrow> Ignore)"

fun disposition_into_frame :: "event_frame \<Rightarrow> event_disposition \<Rightarrow> event_frame option" where
  "disposition_into_frame f (Emit None) = Some f"
| "disposition_into_frame f (Emit (Some i)) = Some (frame_set_output_index i f)"
| "disposition_into_frame f Ignore = None"

record accumulator =
  ra_validation :: validation
  ra_response_id :: string
  ra_conversation_id :: "string option"
  ra_output :: "output_item list"
  ra_usage :: "response_usage option"
  ra_status :: response_status
  ra_incomplete_details :: "incomplete_details option"
  ra_error :: "json option"
  ra_slots :: slot_map
  ra_strict_call_ids :: "(u32, call_id_observation) index_map"
  ra_lifecycle :: stream_lifecycle

definition accumulator_with_validation :: "string \<Rightarrow> string option \<Rightarrow> validation \<Rightarrow> accumulator" where
  "accumulator_with_validation response_id conversation_id v =
     \<lparr>ra_validation = v, ra_response_id = response_id, ra_conversation_id = conversation_id,
      ra_output = [], ra_usage = None, ra_status = StatusInProgress, ra_incomplete_details = None,
      ra_error = None, ra_slots = empty_slot_map, ra_strict_call_ids = [],
      ra_lifecycle = AwaitingCreated\<rparr>"

definition new_accumulator :: "string \<Rightarrow> string option \<Rightarrow> accumulator" where
  "new_accumulator response_id conversation_id = accumulator_with_validation response_id conversation_id Lenient"

section \<open>Complete JSON bodies\<close>

definition invalid_stream :: "string \<Rightarrow> executor_error" where
  "invalid_stream m = InvalidRequest m"

definition required_body_str :: "json \<Rightarrow> string \<Rightarrow> string \<Rightarrow> executor_error + string" where
  "required_body_str j field owner =
     ok_or (filter_option (\<lambda>v. v \<noteq> '''') (Option.bind (json_get j field) as_str))
       (InvalidRequest (owner @ '' has no valid '' @ quoted field))"

fun strict_body_items ::
  "codec \<Rightarrow> string \<Rightarrow> nat \<Rightarrow> string set \<Rightarrow> json list \<Rightarrow> executor_error + unit" where
  "strict_body_items c u index seen [] = Inr ()"
| "strict_body_items c u index seen (item # items) =
     (let owner = ''upstream response output['' @ show_nat index @ '']'' in
      and_then (required_body_str item ''id'' owner) (\<lambda>item_id.
      and_then (required_body_str item ''type'' owner) (\<lambda>item_type.
      and_then (case ensure_supported_output_item_type item_type of
                  Inl e \<Rightarrow> Inl (InvalidRequest (event_error_display e)) | Inr _ \<Rightarrow> Inr ()) (\<lambda>_.
      and_then (case cd_output_item c u item of
                  Inl e \<Rightarrow> Inl (InvalidRequest (owner @ '' is not a valid item: '' @ e))
                | Inr _ \<Rightarrow> Inr ()) (\<lambda>_.
        if item_id \<in> seen
        then Inl (InvalidRequest (''upstream response repeats output item '' @ quoted item_id))
        else strict_body_items c u (Suc index) (insert item_id seen) items)))))"

definition ensure_strict_response :: "codec \<Rightarrow> string \<Rightarrow> json \<Rightarrow> executor_error + unit" where
  "ensure_strict_response c u j =
     (case as_str (json_at j ''status'') of
        None \<Rightarrow> Inl (InvalidRequest (''upstream response has no '' @ quoted ''status''))
      | Some status \<Rightarrow>
          if status \<notin> {''completed'', ''failed'', ''incomplete''}
          then Inl (InvalidRequest (''upstream response status '' @ quoted status @ '' is not terminal''))
          else
            (case as_array (json_at j ''output'') of
               None \<Rightarrow> Inl (InvalidRequest (''upstream response has no '' @ quoted ''output'' @ '' array''))
             | Some items \<Rightarrow> strict_body_items c u 0 {} items))"

text \<open>The draws of the items of one body are \<open>us 0\<close>, \<open>us 1\<close>, and so on.\<close>

fun body_output_items :: "codec \<Rightarrow> (nat \<Rightarrow> string) \<Rightarrow> nat \<Rightarrow> json list \<Rightarrow> output_item list" where
  "body_output_items c us n [] = []"
| "body_output_items c us n (j # js) =
     (case cd_output_item c (us n) j of
        Inl _ \<Rightarrow> body_output_items c us (Suc n) js
      | Inr item \<Rightarrow> item # body_output_items c us (Suc n) js)"

definition read_json ::
  "codec \<Rightarrow> (nat \<Rightarrow> string) \<Rightarrow> string \<Rightarrow> string \<Rightarrow> string option \<Rightarrow> validation \<Rightarrow> executor_error + accumulator" where
  "read_json c us parse_error body conversation_id v =
     (case cd_parse c body of
        None \<Rightarrow> Inl (JsonError parse_error)
      | Some j \<Rightarrow>
          and_then (if v = Strict then ensure_strict_response c (us 0) j else Inr ()) (\<lambda>_.
          and_then (ok_or (as_str (json_at j ''id''))
              (ParseError (''missing '' @ quoted ''id'' @ '' field in response''))) (\<lambda>response_id.
            Inr \<lparr>ra_validation = v, ra_response_id = response_id, ra_conversation_id = conversation_id,
                 ra_output = (case as_array (json_at j ''output'') of
                    None \<Rightarrow> [] | Some items \<Rightarrow> body_output_items c us 0 items),
                 ra_usage = cd_usage c (json_at j ''usage''),
                 ra_status = (case as_str (json_at j ''status'') of
                    None \<Rightarrow> StatusCompleted | Some s \<Rightarrow> response_status_of_str s),
                 ra_incomplete_details = cd_incomplete_details c (json_at j ''incomplete_details''),
                 ra_error = (if json_at j ''error'' = JNull then None else Some (json_at j ''error'')),
                 ra_slots = empty_slot_map, ra_strict_call_ids = [], ra_lifecycle = Terminal\<rparr>)))"

definition from_json ::
  "codec \<Rightarrow> (nat \<Rightarrow> string) \<Rightarrow> string \<Rightarrow> string \<Rightarrow> string option \<Rightarrow> executor_error + accumulator" where
  "from_json c us parse_error body conversation_id = read_json c us parse_error body conversation_id Lenient"

definition load_json_body ::
  "codec \<Rightarrow> (nat \<Rightarrow> string) \<Rightarrow> string \<Rightarrow> string \<Rightarrow> accumulator \<Rightarrow> executor_error + accumulator" where
  "load_json_body c us parse_error body acc =
     read_json c us parse_error body (ra_conversation_id acc) (ra_validation acc)"

section \<open>Strict transitions\<close>

fun output_item_call_id :: "output_item \<Rightarrow> string option" where
  "output_item_call_id (OutFunctionCall x) = Some (fc_call_id x)"
| "output_item_call_id (OutToolSearchCall x) = Some (ts_call_id x)"
| "output_item_call_id (OutCustomToolCall x) = Some (ct_call_id x)"
| "output_item_call_id (OutShellCall x) = Some (sc_call_id x)"
| "output_item_call_id _ = None"

definition observe_strict_call_id :: "u32 \<Rightarrow> string option \<Rightarrow> accumulator \<Rightarrow> accumulator" where
  "observe_strict_call_id i call_id acc =
     acc\<lparr>ra_strict_call_ids :=
       im_insert i (observe_call_id call_id (unwrap_or (im_get (ra_strict_call_ids acc) i) no_observation))
         (ra_strict_call_ids acc)\<rparr>"

definition changed_call_ids :: "accumulator \<Rightarrow> u32 list" where
  "changed_call_ids acc = map fst (filter (\<lambda>(_, obs). co_changed obs) (ra_strict_call_ids acc))"

definition ensure_stable_strict_call_ids :: "accumulator \<Rightarrow> executor_error + unit" where
  "ensure_stable_strict_call_ids acc =
     (case changed_call_ids acc of
        [] \<Rightarrow> Inr ()
      | i # is \<Rightarrow> Inl (invalid_stream (''upstream stream changes '' @ quoted ''call_id'' @ '' for output[''
                    @ show_nat (unat (fold min is i)) @ '']'')))"

definition invalid_lifecycle :: "string \<Rightarrow> executor_error" where
  "invalid_lifecycle name =
     invalid_stream (''upstream stream event '' @ quoted name @ '' is out of lifecycle order'')"

definition invalid_lifecycle_or_id :: "string \<Rightarrow> executor_error" where
  "invalid_lifecycle_or_id name =
     invalid_stream (''upstream stream event '' @ quoted name
       @ '' is out of lifecycle order or changes the response id'')"

definition terminal_mismatch :: executor_error where
  "terminal_mismatch =
     invalid_stream ''terminal upstream response output does not match completed item events''"

fun terminal_items ::
  "codec \<Rightarrow> string \<Rightarrow> nat \<Rightarrow> string set \<Rightarrow> json list \<Rightarrow> accumulator \<Rightarrow> executor_error + accumulator" where
  "terminal_items c u n seen [] acc = Inr acc"
| "terminal_items c u n seen (j # js) acc =
     and_then (ok_or (u32_of_usize n) (invalid_stream ''terminal upstream response has too many output items''))
       (\<lambda>index.
     and_then (ok_or (as_object j) (invalid_stream ''terminal upstream response contains an invalid output item''))
       (\<lambda>item.
     and_then (case output_item_identity item ''terminal output item'' of
                 Inl e \<Rightarrow> Inl (invalid_stream (event_error_display e)) | Inr r \<Rightarrow> Inr r)
       (\<lambda>(item_id, item_type).
        if item_id \<in> seen
        then Inl (invalid_stream (''terminal upstream response repeats output item '' @ quoted item_id))
        else
          (case Option.bind (sm_get (ra_slots acc) index) (\<lambda>s. done_item (sl_state s)) of
             None \<Rightarrow> Inl terminal_mismatch
           | Some completed \<Rightarrow>
               if sse_item_type_of_item completed \<noteq> Some item_type then Inl terminal_mismatch
               else
                 let canonical = (if unwrap_or (Option.bind (im_get item ''id'') as_str) '''' = ''''
                                  then json_insert ''id'' (JString item_id) (JObject item) else JObject item)
                 in case cd_output_item c u canonical of
                      Inl e \<Rightarrow> Inl (invalid_stream (''terminal upstream response output item is invalid: '' @ e))
                    | Inr t \<Rightarrow>
                        terminal_items c u (Suc n) (insert item_id seen) js
                          (observe_strict_call_id index (output_item_call_id t) acc)))))"

definition validate_terminal_output ::
  "codec \<Rightarrow> string \<Rightarrow> event_frame \<Rightarrow> bool \<Rightarrow> accumulator \<Rightarrow> executor_error + accumulator" where
  "validate_terminal_output c u f enforce acc =
     and_then (if enforce then ensure_stable_strict_call_ids acc else Inr ()) (\<lambda>_.
     and_then (ok_or (Option.bind (im_get (we_rest (ef_wire f)) ''response'') as_object)
                (invalid_stream (''terminal upstream response has no valid '' @ quoted ''response''))) (\<lambda>response.
       case im_get response ''output'' of
         None \<Rightarrow> Inr acc
       | Some JNull \<Rightarrow> Inr acc
       | Some out \<Rightarrow>
           and_then (ok_or (as_array out)
               (invalid_stream (''terminal upstream response has no valid '' @ quoted ''output''))) (\<lambda>items.
             if length items \<noteq> sm_len (ra_slots acc) then Inl terminal_mismatch
             else
               and_then (terminal_items c u 0 {} items acc) (\<lambda>acc'.
               and_then (if enforce then ensure_stable_strict_call_ids acc' else Inr ()) (\<lambda>_. Inr acc')))))"

definition require_in_progress :: "string \<Rightarrow> accumulator \<Rightarrow> executor_error + unit" where
  "require_in_progress name acc =
     (if ra_lifecycle acc = InProgress then Inr () else Inl (invalid_lifecycle name))"

fun is_terminal_event :: "sse_event_type \<Rightarrow> bool" where
  "is_terminal_event ResponseCompleted = True"
| "is_terminal_event ResponseFailed = True"
| "is_terminal_event ResponseIncomplete = True"
| "is_terminal_event _ = False"

definition validate_strict_transition ::
  "codec \<Rightarrow> string \<Rightarrow> event_frame \<Rightarrow> accumulator \<Rightarrow> executor_error + accumulator" where
  "validate_strict_transition c u f acc =
     (let name = unwrap_or (we_event_type (ef_wire f)) ''streaming event'' in
      if ra_lifecycle acc = Terminal
      then Inl (invalid_stream ''upstream stream contains an event after its terminal event'')
      else
        case ef_payload f of
          PResponse i _ _ \<Rightarrow>
            if ef_type f = ResponseCreated
            then (if ra_lifecycle acc \<noteq> AwaitingCreated then Inl (invalid_lifecycle name) else Inr acc)
            else if ef_type f = ResponseInProgress
            then (if ra_lifecycle acc \<noteq> Created \<or> i \<noteq> ra_response_id acc
                  then Inl (invalid_lifecycle_or_id name) else Inr acc)
            else if is_terminal_event (ef_type f)
            then (if ra_lifecycle acc \<noteq> InProgress \<or> i \<noteq> ra_response_id acc
                  then Inl (invalid_lifecycle_or_id name)
                  else if has_active (ra_slots acc)
                  then Inl (invalid_stream ''upstream stream ended with unfinished output items'')
                  else validate_terminal_output c u f (ef_type f \<noteq> ResponseFailed) acc)
            else and_then (require_in_progress name acc) (\<lambda>_. Inr acc)
        | _ \<Rightarrow> and_then (require_in_progress name acc) (\<lambda>_. Inr acc))"

section \<open>Folding a normalized event\<close>

definition finalize_all :: "accumulator \<Rightarrow> accumulator" where
  "finalize_all acc =
     (let (items, slots) = drain_output (ra_slots acc)
      in acc\<lparr>ra_output := ra_output acc @ items, ra_slots := slots\<rparr>)"

definition capture_terminal_details :: "codec \<Rightarrow> event_frame \<Rightarrow> accumulator \<Rightarrow> accumulator" where
  "capture_terminal_details c f acc =
     (case im_get (we_rest (ef_wire f)) ''response'' of
        None \<Rightarrow> acc
      | Some response \<Rightarrow>
          acc\<lparr>ra_incomplete_details :=
                Option.bind (json_get response ''incomplete_details'') (cd_incomplete_details c),
              ra_error := filter_option (\<lambda>e. e \<noteq> JNull) (json_get response ''error'')\<rparr>)"

definition capture_terminal_details_if_needed :: "codec \<Rightarrow> event_frame \<Rightarrow> accumulator \<Rightarrow> accumulator" where
  "capture_terminal_details_if_needed c f acc =
     (if is_terminal_event (ef_type f) then capture_terminal_details c f acc else acc)"

fun payload_item_id :: "event_payload \<Rightarrow> string option" where
  "payload_item_id (PTextDelta _ i _ _) = Some i"
| "payload_item_id (PTextDone _ i _) = Some i"
| "payload_item_id (PFunctionCallArgsDelta _ _ i _) = Some i"
| "payload_item_id (PFunctionCallArgsDone _ _ i _ _) = Some i"
| "payload_item_id (PCustomToolCallInputDelta _ i _) = Some i"
| "payload_item_id (PCustomToolCallInputDone _ i _) = Some i"
| "payload_item_id (PReasoningTextDelta _ i _ _) = Some i"
| "payload_item_id (PReasoningTextDone _ i _ _) = Some i"
| "payload_item_id (PReasoningSummaryTextDelta _ i _ _) = Some i"
| "payload_item_id (PReasoningSummaryTextDone _ i _ _) = Some i"
| "payload_item_id _ = None"

definition nonempty_id :: "string \<Rightarrow> string option" where
  "nonempty_id i = (if i = '''' then None else Some i)"

definition frame_item :: "event_frame \<Rightarrow> (string \<times> sse_item_type) option" where
  "frame_item f =
     (case ef_payload f of
        POutputItemAdded i k _ _ _ _ _ \<Rightarrow> Some (i, k)
      | POutputItemDone i k _ _ \<Rightarrow> Some (i, k)
      | p \<Rightarrow>
          (case expected_item_type (ef_type f) of
             None \<Rightarrow> None
           | Some k \<Rightarrow>
               Some (unwrap_or (payload_item_id p)
                       (unwrap_or (Option.bind (im_get (we_rest (ef_wire f)) ''item_id'') as_str) ''''), k)))"

definition identity_of_frame :: "event_frame \<Rightarrow> validated_item option \<Rightarrow> item_identity option" where
  "identity_of_frame f validated =
     (case validated of
        Some vi \<Rightarrow> Some \<lparr>ii_index = Some (vi_output_index vi), ii_item_id = nonempty_id (vi_item_id vi),
                        ii_item_type = vi_item_type vi\<rparr>
      | None \<Rightarrow>
          map_option (\<lambda>(i, k). \<lparr>ii_index = frame_output_index f, ii_item_id = nonempty_id i,
                                ii_item_type = k\<rparr>) (frame_item f))"

fun terminal_status :: "sse_event_type \<Rightarrow> response_status option" where
  "terminal_status ResponseCompleted = Some StatusCompleted"
| "terminal_status ResponseFailed = Some StatusError"
| "terminal_status ResponseIncomplete = Some StatusIncomplete"
| "terminal_status _ = None"

definition finish_response :: "response_status \<Rightarrow> response_usage option \<Rightarrow> accumulator \<Rightarrow> accumulator" where
  "finish_response st usage acc =
     (finalize_all acc)\<lparr>ra_status := st, ra_usage := usage, ra_lifecycle := Terminal\<rparr>"

definition finish_response_event :: "sse_event_type \<Rightarrow> response_usage option \<Rightarrow> accumulator \<Rightarrow> accumulator" where
  "finish_response_event t usage acc =
     (case terminal_status t of None \<Rightarrow> acc | Some st \<Rightarrow> finish_response st usage acc)"

definition observe_event_call_id :: "event_frame \<Rightarrow> output_index \<Rightarrow> accumulator \<Rightarrow> accumulator" where
  "observe_event_call_id f i acc =
     (case ef_payload f of
        POutputItemAdded _ _ _ _ _ call_id _ \<Rightarrow> observe_strict_call_id i call_id acc
      | PFunctionCallArgsDelta _ call_id _ _ \<Rightarrow> observe_strict_call_id i call_id acc
      | PFunctionCallArgsDone _ call_id _ _ _ \<Rightarrow> observe_strict_call_id i call_id acc
      | POutputItemDone _ _ _ _ \<Rightarrow>
          observe_strict_call_id i
            (Option.bind (Option.bind (sm_get (ra_slots acc) i) (\<lambda>s. done_item (sl_state s))) output_item_call_id)
            acc
      | _ \<Rightarrow> acc)"

definition fold_item_event ::
  "codec \<Rightarrow> string \<Rightarrow> event_frame \<Rightarrow> validated_item option \<Rightarrow> accumulator \<Rightarrow>
   executor_error + event_disposition \<times> accumulator" where
  "fold_item_event c u f validated acc =
     (case identity_of_frame f validated of
        None \<Rightarrow> Inr (Emit None, acc)
      | Some ident \<Rightarrow>
          and_then
            (if ef_type f = OutputItemAdded
             then open_slot c u ident (ef_payload f) (ra_validation acc) (ra_slots acc)
             else if ef_type f = OutputItemDone
             then complete_slot c u ident (ef_payload f) (Option.bind validated vi_done_item)
                    (ra_validation acc) (ra_slots acc)
             else apply_to_slot c u ident (ef_payload f) (ra_validation acc) (ra_slots acc))
            (\<lambda>(index, slots).
               let acc1 = acc\<lparr>ra_slots := slots\<rparr>;
                   acc2 = (case index of
                             Some i \<Rightarrow> if ra_validation acc = Strict then observe_event_call_id f i acc1 else acc1
                           | None \<Rightarrow> acc1)
               in Inr (item_disposition index, acc2)))"

definition process_event_checked ::
  "codec \<Rightarrow> string \<Rightarrow> event_frame \<Rightarrow> validated_item option \<Rightarrow> accumulator \<Rightarrow>
   executor_error + event_disposition \<times> accumulator" where
  "process_event_checked c u f validated acc =
     (case ef_payload f of
        PResponse i _ usage \<Rightarrow>
          if ef_type f = ResponseCreated \<and> i \<noteq> ''''
          then Inr (Emit None, acc\<lparr>ra_response_id := i, ra_lifecycle := Created\<rparr>)
          else if ef_type f = ResponseInProgress
          then Inr (Emit None, acc\<lparr>ra_lifecycle := InProgress\<rparr>)
          else if is_terminal_event (ef_type f)
          then Inr (Emit None, finish_response_event (ef_type f) usage acc)
          else fold_item_event c u f validated acc
      | _ \<Rightarrow> fold_item_event c u f validated acc)"

definition process_normalized_event ::
  "codec \<Rightarrow> string \<Rightarrow> event_frame \<Rightarrow> accumulator \<Rightarrow> executor_error + event_disposition \<times> accumulator" where
  "process_normalized_event c u f acc =
     and_then
       (case ra_validation acc of
          Strict \<Rightarrow>
            and_then (case validate_frame c u f of
                        Inl e \<Rightarrow> Inl (invalid_stream (event_error_display e)) | Inr v \<Rightarrow> Inr v)
              (\<lambda>v. and_then (validate_strict_transition c u f acc) (\<lambda>acc'. Inr (v, acc')))
        | Lenient \<Rightarrow> Inr (None, acc))
       (\<lambda>(validated, acc'). process_event_checked c u f validated (capture_terminal_details_if_needed c f acc'))"

definition invalid_output_index_message :: string where
  "invalid_output_index_message =
     ''upstream stream has an invalid '' @ quoted ''output_index'' @ '': expected an unsigned 32-bit integer''"

definition process_line ::
  "codec \<Rightarrow> string \<Rightarrow> classified_sse_line \<Rightarrow> accumulator \<Rightarrow> executor_error + event_frame option \<times> accumulator" where
  "process_line c u line acc =
     (case line of
        SseData d \<Rightarrow>
          (case normalize_sse_data_checked c u d of
             Inl _ \<Rightarrow> Inl (invalid_stream invalid_output_index_message)
           | Inr None \<Rightarrow>
               if ra_validation acc = Strict
               then Inl (invalid_stream ''upstream stream contains a malformed data frame'')
               else Inr (None, acc)
           | Inr (Some f) \<Rightarrow>
               and_then (process_normalized_event c u f acc)
                 (\<lambda>(d, acc'). Inr (disposition_into_frame f d, acc')))
      | _ \<Rightarrow> Inr (None, acc))"

section \<open>The end of a round\<close>

definition finish_stream :: "accumulator \<Rightarrow> accumulator" where
  "finish_stream acc =
     (let acc1 = finalize_all acc
      in acc1\<lparr>ra_status := (if ra_status acc1 = StatusInProgress then StatusCompleted else ra_status acc1),
              ra_lifecycle := Terminal\<rparr>)"

definition finish_strict_stream :: "accumulator \<Rightarrow> executor_error + accumulator" where
  "finish_strict_stream acc =
     (if ra_lifecycle acc \<noteq> Terminal
      then Inl (InvalidRequest ''upstream stream ended without a terminal event'')
      else Inr (finish_stream acc))"

definition mark_incomplete :: "string \<Rightarrow> accumulator \<Rightarrow> accumulator" where
  "mark_incomplete reason acc =
     acc\<lparr>ra_status := StatusIncomplete, ra_incomplete_details := Some \<lparr>id_reason = Some reason\<rparr>\<rparr>"

text \<open>\<open>finalize\<close>; \<open>now\<close> is the clock.\<close>

definition accumulator_finalize ::
  "i64 \<Rightarrow> string \<Rightarrow> string option \<Rightarrow> string option \<Rightarrow> accumulator \<Rightarrow> response_payload" where
  "accumulator_finalize now model previous_response_id instructions acc =
     \<lparr>rp_id = ra_response_id acc, rp_object = ''response'', rp_created_at = now, rp_model = model,
      rp_status = response_status_str (ra_status acc), rp_output = ra_output acc, rp_usage = ra_usage acc,
      rp_incomplete_details = ra_incomplete_details acc, rp_error = ra_error acc,
      rp_previous_response_id = previous_response_id, rp_conversation_id = ra_conversation_id acc,
      rp_instructions = instructions, rp_tools = None, rp_tool_choice = None\<rparr>"

definition accumulator_finish ::
  "i64 \<Rightarrow> string \<Rightarrow> string option \<Rightarrow> string option \<Rightarrow> accumulator \<Rightarrow> executor_error + response_payload" where
  "accumulator_finish now model previous_response_id instructions acc =
     and_then (case ra_validation acc of Strict \<Rightarrow> finish_strict_stream acc | Lenient \<Rightarrow> Inr (finish_stream acc))
       (\<lambda>acc'. Inr (accumulator_finalize now model previous_response_id instructions acc'))"

text \<open>\<open>from_sse_lines\<close>: the first draw names the response, line \<open>n\<close> draws \<open>us (Suc n)\<close>.\<close>

fun process_lines ::
  "codec \<Rightarrow> (nat \<Rightarrow> string) \<Rightarrow> nat \<Rightarrow> string list \<Rightarrow> accumulator \<Rightarrow> executor_error + event_frame list \<times> accumulator" where
  "process_lines c us n [] acc = Inr ([], acc)"
| "process_lines c us n (line # lines) acc =
     and_then (process_line c (us n) (sse_line_parse line) acc) (\<lambda>(f, acc').
     and_then (process_lines c us (Suc n) lines acc') (\<lambda>(fs, acc'').
       Inr ((case f of None \<Rightarrow> [] | Some g \<Rightarrow> [g]) @ fs, acc'')))"

definition from_sse_lines ::
  "codec \<Rightarrow> (nat \<Rightarrow> string) \<Rightarrow> string list \<Rightarrow> string option \<Rightarrow> executor_error + accumulator" where
  "from_sse_lines c us lines conversation_id =
     and_then (process_lines c us 1 lines (new_accumulator (''resp_'' @ us 0) conversation_id))
       (\<lambda>(_, acc). Inr (finalize_all acc))"

definition accumulated_function_call ::
  "u32 \<Rightarrow> accumulator \<Rightarrow> (function_tool_call \<times> string) option" where
  "accumulated_function_call i acc =
     (case sm_get (ra_slots acc) i of
        None \<Rightarrow> None
      | Some s \<Rightarrow>
          (case sl_state s of
             Active (ActiveFunctionCall item args) \<Rightarrow>
               Some (item, if fc_arguments item = '''' then args else fc_arguments item)
           | Done (OutFunctionCall item) \<Rightarrow> Some (item, fc_arguments item)
           | _ \<Rightarrow> None))"

section \<open>What one event changes\<close>

lemma observe_event_call_id_frame [simp]:
  "ra_lifecycle (observe_event_call_id f i acc) = ra_lifecycle acc"
  "ra_validation (observe_event_call_id f i acc) = ra_validation acc"
  "ra_response_id (observe_event_call_id f i acc) = ra_response_id acc"
  "ra_status (observe_event_call_id f i acc) = ra_status acc"
  "ra_output (observe_event_call_id f i acc) = ra_output acc"
  "ra_slots (observe_event_call_id f i acc) = ra_slots acc"
  by (simp_all add: observe_event_call_id_def observe_strict_call_id_def split: event_payload.splits)

lemma finalize_all_frame [simp]:
  "ra_lifecycle (finalize_all acc) = ra_lifecycle acc"
  "ra_validation (finalize_all acc) = ra_validation acc"
  "ra_response_id (finalize_all acc) = ra_response_id acc"
  "ra_status (finalize_all acc) = ra_status acc"
  "ra_slots (finalize_all acc) = empty_slot_map"
  "ra_output (finalize_all acc) = ra_output acc @ fst (drain_output (ra_slots acc))"
  by (simp_all add: finalize_all_def drain_output_def)

lemma capture_frame [simp]:
  "ra_lifecycle (capture_terminal_details_if_needed c f acc) = ra_lifecycle acc"
  "ra_validation (capture_terminal_details_if_needed c f acc) = ra_validation acc"
  "ra_response_id (capture_terminal_details_if_needed c f acc) = ra_response_id acc"
  "ra_status (capture_terminal_details_if_needed c f acc) = ra_status acc"
  "ra_slots (capture_terminal_details_if_needed c f acc) = ra_slots acc"
  "ra_output (capture_terminal_details_if_needed c f acc) = ra_output acc"
  by (simp_all add: capture_terminal_details_if_needed_def capture_terminal_details_def split: option.splits)

definition same_but_calls :: "accumulator \<Rightarrow> accumulator \<Rightarrow> bool" where
  "same_but_calls acc acc' \<longleftrightarrow> (\<exists>ids. acc' = acc\<lparr>ra_strict_call_ids := ids\<rparr>)"

lemma same_but_calls_refl [simp]: "same_but_calls acc acc"
  unfolding same_but_calls_def by (metis accumulator.surjective accumulator.update_convs(10))

lemma same_but_calls_frame:
  assumes "same_but_calls acc acc'"
  shows "ra_lifecycle acc' = ra_lifecycle acc" "ra_validation acc' = ra_validation acc"
    "ra_response_id acc' = ra_response_id acc" "ra_status acc' = ra_status acc"
    "ra_slots acc' = ra_slots acc" "ra_output acc' = ra_output acc"
  using assms by (auto simp: same_but_calls_def)

lemma terminal_items_frame: "terminal_items c u n seen js acc = Inr acc' \<Longrightarrow> same_but_calls acc acc'"
proof (induction js arbitrary: n seen acc)
  case Nil
  then show ?case by simp
next
  case (Cons j js)
  then obtain n' seen' i x where "terminal_items c u n' seen' js (observe_strict_call_id i x acc) = Inr acc'"
    by (fastforce elim!: and_then_InrE split: prod.splits if_splits option.splits sum.splits simp: Let_def)
  from Cons.IH [OF this] show ?case
    by (auto simp: same_but_calls_def observe_strict_call_id_def)
qed

lemma validate_terminal_output_frame:
  "validate_terminal_output c u f e acc = Inr acc' \<Longrightarrow> same_but_calls acc acc'"
  unfolding validate_terminal_output_def
  by (elim and_then_InrE)
    (auto split: option.splits json.splits if_splits elim!: and_then_InrE dest: terminal_items_frame)

lemma validate_strict_transition_frame:
  "validate_strict_transition c u f acc = Inr acc' \<Longrightarrow> same_but_calls acc acc'"
  by (auto simp: validate_strict_transition_def Let_def split: event_payload.splits if_splits
      elim!: and_then_InrE dest: validate_terminal_output_frame)

lemma fold_item_event_frame:
  assumes "fold_item_event c u f v acc = Inr (d, acc')"
  shows "ra_lifecycle acc' = ra_lifecycle acc" "ra_validation acc' = ra_validation acc"
    "ra_response_id acc' = ra_response_id acc" "ra_status acc' = ra_status acc" "ra_output acc' = ra_output acc"
    and "slot_map_inv (ra_slots acc) \<Longrightarrow> slot_map_inv (ra_slots acc') \<and> slot_map_grows (ra_slots acc) (ra_slots acc')"
proof -
  consider (none) "acc' = acc"
    | (some) ident index slots where
        "(if ef_type f = OutputItemAdded
             then open_slot c u ident (ef_payload f) (ra_validation acc) (ra_slots acc)
             else if ef_type f = OutputItemDone
             then complete_slot c u ident (ef_payload f) (Option.bind v vi_done_item)
                    (ra_validation acc) (ra_slots acc)
             else apply_to_slot c u ident (ef_payload f) (ra_validation acc) (ra_slots acc)) = Inr (index, slots)"
      "acc' = (case index of
                  Some i \<Rightarrow> if ra_validation acc = Strict then observe_event_call_id f i (acc\<lparr>ra_slots := slots\<rparr>)
                            else acc\<lparr>ra_slots := slots\<rparr>
                | None \<Rightarrow> acc\<lparr>ra_slots := slots\<rparr>)"
    using assms unfolding fold_item_event_def
    by (cases "identity_of_frame f v") (auto simp: Let_def elim!: and_then_InrE split: prod.splits)
  then have "ra_lifecycle acc' = ra_lifecycle acc \<and> ra_validation acc' = ra_validation acc
    \<and> ra_response_id acc' = ra_response_id acc \<and> ra_status acc' = ra_status acc \<and> ra_output acc' = ra_output acc
    \<and> (slot_map_inv (ra_slots acc) \<longrightarrow>
         slot_map_inv (ra_slots acc') \<and> slot_map_grows (ra_slots acc) (ra_slots acc'))"
  proof cases
    case some
    have "ra_slots acc' = slots" using some(2) by (auto split: option.splits)
    moreover have "slot_map_inv (ra_slots acc) \<Longrightarrow> slot_map_inv slots \<and> slot_map_grows (ra_slots acc) slots"
      using some(1) open_slot_preserves complete_slot_preserves apply_to_slot_preserves
      by (metis (full_types))
    ultimately show ?thesis using some(2) by (auto split: option.splits)
  qed simp
  then show "ra_lifecycle acc' = ra_lifecycle acc" "ra_validation acc' = ra_validation acc"
    "ra_response_id acc' = ra_response_id acc" "ra_status acc' = ra_status acc" "ra_output acc' = ra_output acc"
    "slot_map_inv (ra_slots acc) \<Longrightarrow> slot_map_inv (ra_slots acc') \<and> slot_map_grows (ra_slots acc) (ra_slots acc')"
    by blast+
qed

lemma normalized_response_id:
  assumes "normalize_sse_value c u j = Inr (Some f)" "ef_payload f = PResponse i st us"
    and "im_get (we_rest (ef_wire f)) ''response'' = Some (JObject m)" "im_get m ''id'' = Some (JString x)"
  shows "i = x"
proof -
  from assms(1) obtain t j1 w where w: "wire_event_of_json j1 = Some w"
    and f: "f = \<lparr>ef_type = t, ef_payload = extract_payload c u t j1, ef_wire = w\<rparr>"
    by (auto simp: normalize_sse_value_def Let_def split: if_splits)
  from f assms(2) have i: "i = json_str (json_at j1 ''response'') ''id''"
    by (cases t) (auto simp: extract_defs Let_def)
  from w obtain m1 where j1: "j1 = JObject m1" "we_rest w = filter (\<lambda>(k, _). k \<notin> set wire_event_keys) m1"
    by (cases j1) (auto simp: wire_event_of_json_def result_simps)
  with assms(3) f have "im_get m1 ''response'' = Some (JObject m)"
    by (simp add: im_get_filter_keys wire_event_keys_def split: if_splits)
  with i j1 assms(4) show ?thesis by (simp add: json_str_def)
qed

section \<open>The grammar of a strict stream\<close>

fun lifecycle_grammar :: "stream_lifecycle \<Rightarrow> sse_event_type list \<Rightarrow> bool" where
  "lifecycle_grammar AwaitingCreated ts \<longleftrightarrow> ts = []"
| "lifecycle_grammar Created ts \<longleftrightarrow> ts = [ResponseCreated]"
| "lifecycle_grammar InProgress ts \<longleftrightarrow>
     (\<exists>ms. ts = ResponseCreated # ResponseInProgress # ms \<and> (\<forall>t \<in> set ms. lifecycle_status t = None))"
| "lifecycle_grammar Terminal ts \<longleftrightarrow>
     (\<exists>ms t. ts = ResponseCreated # ResponseInProgress # ms @ [t] \<and> is_terminal_event t
        \<and> (\<forall>t \<in> set ms. lifecycle_status t = None))"

lemma grammar_in_progress_mid:
  "lifecycle_grammar InProgress ts \<Longrightarrow> lifecycle_status t = None \<Longrightarrow> lifecycle_grammar InProgress (ts @ [t])"
  by auto

lemma grammar_in_progress_terminal:
  "lifecycle_grammar InProgress ts \<Longrightarrow> is_terminal_event t \<Longrightarrow> lifecycle_grammar Terminal (ts @ [t])"
  by auto

lemma disposition_type: "disposition_into_frame f d = Some g \<Longrightarrow> ef_type g = ef_type f"
  by (cases "(f, d)" rule: disposition_into_frame.cases) auto

lemma lifecycle_cases: "lifecycle_status t \<noteq> None \<longleftrightarrow> t = ResponseCreated \<or> t = ResponseInProgress \<or> is_terminal_event t"
  by (cases t) auto

definition strict_inv :: "sse_event_type list \<Rightarrow> accumulator \<Rightarrow> bool" where
  "strict_inv ts acc \<longleftrightarrow>
     ra_validation acc = Strict \<and> lifecycle_grammar (ra_lifecycle acc) ts \<and> slot_map_inv (ra_slots acc)
     \<and> (if ra_lifecycle acc = Terminal
        then terminal_status (last ts) = Some (ra_status acc) \<and> ra_slots acc = empty_slot_map
        else ra_status acc = StatusInProgress)"

lemma strict_inv_awaiting: "strict_inv ts acc \<Longrightarrow> ra_lifecycle acc = AwaitingCreated \<longleftrightarrow> ts = []"
  by (cases "ra_lifecycle acc") (auto simp: strict_inv_def)

definition emitted :: "event_frame option \<Rightarrow> event_frame list" where
  "emitted r = (case r of None \<Rightarrow> [] | Some f \<Rightarrow> [f])"

lemma strict_item_event:
  assumes inv: "strict_inv ts acc" and life: "ra_lifecycle acc = InProgress"
    and step: "fold_item_event c u f v acc = Inr (d, acc')" and mid: "lifecycle_status (ef_type f) = None"
  shows "strict_inv (ts @ map ef_type (emitted (disposition_into_frame f d))) acc'
    \<and> ra_response_id acc' = ra_response_id acc \<and> ra_lifecycle acc' = InProgress"
proof -
  note same = fold_item_event_frame [OF step]
  have "lifecycle_grammar InProgress (ts @ map ef_type (emitted (disposition_into_frame f d)))"
  proof (cases "disposition_into_frame f d")
    case None
    with inv life show ?thesis by (simp add: emitted_def strict_inv_def)
  next
    case (Some g)
    have "lifecycle_grammar InProgress (ts @ [ef_type f])"
      using inv life mid by (auto simp: strict_inv_def intro: grammar_in_progress_mid)
    with Some disposition_type [OF Some] show ?thesis by (simp add: emitted_def)
  qed
  with inv life same show ?thesis by (simp add: strict_inv_def)
qed

lemma process_normalized_event_strict:
  assumes inv: "strict_inv ts acc" and norm: "normalize_sse_value c u j = Inr (Some f)"
    and step: "process_normalized_event c u f acc = Inr (d, acc')"
  shows "strict_inv (ts @ map ef_type (emitted (disposition_into_frame f d))) acc'
    \<and> (ra_lifecycle acc = AwaitingCreated \<or> ra_response_id acc' = ra_response_id acc)
    \<and> (ra_lifecycle acc = AwaitingCreated \<longrightarrow>
         ra_lifecycle acc' = Created \<and> d = Emit None \<and>
         (\<exists>st us. ef_payload f = PResponse (ra_response_id acc') st us \<and> ra_response_id acc' \<noteq> ''''))"
proof -
  from inv have strict: "ra_validation acc = Strict" by (simp add: strict_inv_def)
  from step strict obtain v acc1 where v: "validate_frame c u f = Inr v"
    and tr: "validate_strict_transition c u f acc = Inr acc1"
    and ev: "process_event_checked c u f v (capture_terminal_details_if_needed c f acc1) = Inr (d, acc')"
    by (auto simp: process_normalized_event_def elim!: and_then_InrE split: sum.splits)
  define acc2 where "acc2 = capture_terminal_details_if_needed c f acc1"
  note same = same_but_calls_frame [OF validate_strict_transition_frame [OF tr]]
  have inv2: "strict_inv ts acc2"
    using inv same by (simp add: acc2_def strict_inv_def)
  have life2: "ra_lifecycle acc2 = ra_lifecycle acc" "ra_response_id acc2 = ra_response_id acc"
    using same by (simp_all add: acc2_def)
  have fits: "payload_fits (ef_type f) (ef_payload f)"
    using normalized_frame_coherent [OF norm] by blast
  show ?thesis
  proof (cases "lifecycle_status (ef_type f)")
    case None
    then have notresp: "\<And>i st us. ef_payload f \<noteq> PResponse i st us" using fits by auto
    then have prog: "ra_lifecycle acc = InProgress"
      using tr by (auto simp: validate_strict_transition_def Let_def require_in_progress_def
          split: event_payload.splits if_splits)
    have "fold_item_event c u f v acc2 = Inr (d, acc')"
      using ev notresp by (auto simp: process_event_checked_def acc2_def split: event_payload.splits)
    from strict_item_event [OF inv2 _ this None] prog life2 show ?thesis by simp
  next
    case (Some status)
    then obtain i st us where p: "ef_payload f = PResponse i st us"
      using fits lifecycle_cases [of "ef_type f"] by (cases "ef_payload f") (auto split: shell_command_update.splits)
    from validate_frame_sound [OF v] Some obtain m
      where m: "im_get (we_rest (ef_wire f)) ''response'' = Some (JObject m)" by blast
    have "\<exists>x. im_get m ''id'' = Some (JString x) \<and> x \<noteq> ''''"
      using v Some m by (auto simp: validate_frame_def validate_response_event_def result_simps)
    then have id: "i \<noteq> ''''" using normalized_response_id [OF norm p m] by auto
    from Some lifecycle_cases [of "ef_type f"] consider (cr) "ef_type f = ResponseCreated"
      | (ip) "ef_type f = ResponseInProgress" | (te) "is_terminal_event (ef_type f)" by auto
    then show ?thesis
    proof cases
      case cr
      with tr p have wait: "ra_lifecycle acc = AwaitingCreated"
        by (auto simp: validate_strict_transition_def Let_def split: if_splits)
      from ev cr p id have "d = Emit None" "acc' = acc2\<lparr>ra_response_id := i, ra_lifecycle := Created\<rparr>"
        by (simp_all add: process_event_checked_def acc2_def)
      with wait inv2 life2 cr p id show ?thesis by (simp add: strict_inv_def emitted_def)
    next
      case ip
      with tr p have was: "ra_lifecycle acc = Created" "i = ra_response_id acc"
        by (auto simp: validate_strict_transition_def Let_def split: if_splits)
      from ev ip p have "d = Emit None" "acc' = acc2\<lparr>ra_lifecycle := InProgress\<rparr>"
        by (simp_all add: process_event_checked_def acc2_def)
      with was inv2 life2 ip show ?thesis by (simp add: strict_inv_def emitted_def)
    next
      case te
      with tr p have was: "ra_lifecycle acc = InProgress"
        by (cases "ef_type f") (auto simp: validate_strict_transition_def Let_def split: if_splits)
      from te obtain stt where stt: "terminal_status (ef_type f) = Some stt" by (cases "ef_type f") auto
      from ev te p have "d = Emit None" "acc' = finish_response_event (ef_type f) us acc2"
        by (cases "ef_type f"; simp add: process_event_checked_def acc2_def)+
      moreover have "lifecycle_grammar Terminal (ts @ [ef_type f])"
        using inv2 life2 was te by (auto simp: strict_inv_def intro: grammar_in_progress_terminal)
      ultimately show ?thesis using stt inv2 was life2
        by (simp add: finish_response_event_def finish_response_def strict_inv_def emitted_def)
    qed
  qed
qed

lemma process_line_strict:
  assumes "strict_inv ts acc" "process_line c u line acc = Inr (r, acc')"
  shows "strict_inv (ts @ map ef_type (emitted r)) acc'
    \<and> (ra_lifecycle acc = AwaitingCreated \<or> ra_response_id acc' = ra_response_id acc)
    \<and> (ra_lifecycle acc = AwaitingCreated \<longrightarrow> r = None \<and> acc' = acc \<or>
         ra_lifecycle acc' = Created \<and> (\<exists>f st us. r = Some f \<and>
           ef_payload f = PResponse (ra_response_id acc') st us \<and> ra_response_id acc' \<noteq> ''''))"
proof (cases "\<exists>d j f. line = SseData d \<and> cd_parse c d = Some j \<and> normalize_sse_value c u j = Inr (Some f)")
  case True
  then obtain d j f where line: "line = SseData d" "cd_parse c d = Some j"
    "normalize_sse_value c u j = Inr (Some f)" by blast
  with assms(2) obtain e where "process_normalized_event c u f acc = Inr (e, acc')"
    "r = disposition_into_frame f e"
    by (auto simp: process_line_def normalize_sse_data_checked_def elim!: and_then_InrE)
  with process_normalized_event_strict [OF assms(1) line(3)] show ?thesis by fastforce
next
  case False
  with assms have "r = None" "acc' = acc"
    by (auto simp: process_line_def normalize_sse_data_checked_def strict_inv_def
        split: classified_sse_line.splits option.splits sum.splits)
  with assms(1) show ?thesis by (simp add: emitted_def)
qed

lemma process_lines_strict:
  "strict_inv ts acc \<Longrightarrow> process_lines c us n lines acc = Inr (fs, acc') \<Longrightarrow>
     strict_inv (ts @ map ef_type fs) acc'
     \<and> (ra_lifecycle acc \<noteq> AwaitingCreated \<longrightarrow> ra_response_id acc' = ra_response_id acc)
     \<and> (ra_lifecycle acc = AwaitingCreated \<longrightarrow> fs = [] \<and> acc' = acc \<or>
          (\<exists>st usg. ef_payload (hd fs) = PResponse (ra_response_id acc') st usg) \<and> ra_response_id acc' \<noteq> '''')"
proof (induction lines arbitrary: n ts acc fs)
  case Nil
  then show ?case by simp
next
  case (Cons line lines)
  from Cons.prems obtain r acc1 fs1 where one: "process_line c (us n) (sse_line_parse line) acc = Inr (r, acc1)"
    and rest: "process_lines c us (Suc n) lines acc1 = Inr (fs1, acc')" and fs: "fs = emitted r @ fs1"
    by (auto elim!: and_then_InrE simp: emitted_def)
  note step = process_line_strict [OF Cons.prems(1) one]
  note ih = Cons.IH [OF conjunct1 [OF step] rest]
  have "ra_lifecycle acc \<noteq> AwaitingCreated \<Longrightarrow> ra_lifecycle acc1 \<noteq> AwaitingCreated"
    using strict_inv_awaiting [OF conjunct1 [OF step]] strict_inv_awaiting [OF Cons.prems(1)] by simp
  with step ih show ?case by (auto simp: fs emitted_def)
qed

text \<open>
  C6: a strict stream that is accepted follows the lifecycle grammar. The events delivered
  downstream are one created event, one in-progress event, then events that are not lifecycle
  events, and, once the stream ends, exactly one terminal event with nothing after it; the
  response identifier is the one of the created event throughout; the status is in progress
  until the terminal event and the terminal event's status after it; and a stream can be
  finished exactly when its terminal event was seen.
\<close>

theorem strict_stream_grammar:
  assumes "process_lines c us n lines (accumulator_with_validation rid conv Strict) = Inr (fs, acc)"
  shows "lifecycle_grammar (ra_lifecycle acc) (map ef_type fs)
    \<and> (fs \<noteq> [] \<longrightarrow> (\<exists>st usg. ef_payload (hd fs) = PResponse (ra_response_id acc) st usg) \<and> ra_response_id acc \<noteq> '''')
    \<and> (if ra_lifecycle acc = Terminal then terminal_status (ef_type (last fs)) = Some (ra_status acc)
       else ra_status acc = StatusInProgress)
    \<and> ((\<exists>acc'. finish_strict_stream acc = Inr acc') \<longleftrightarrow> ra_lifecycle acc = Terminal)
    \<and> (\<forall>acc'. finish_strict_stream acc = Inr acc' \<longrightarrow>
         ra_output acc' = ra_output acc \<and> ra_status acc' = ra_status acc \<and> ra_status acc' \<noteq> StatusInProgress)"
proof -
  let ?init = "accumulator_with_validation rid conv Strict"
  have init: "strict_inv [] ?init" "ra_lifecycle ?init = AwaitingCreated"
    by (simp_all add: strict_inv_def accumulator_with_validation_def)
  note run = process_lines_strict [OF init(1) assms]
  from run have inv: "strict_inv (map ef_type fs) acc" by simp
  have nonempty: "ra_lifecycle acc = Terminal \<Longrightarrow> fs \<noteq> []"
    using inv by (auto simp: strict_inv_def)
  have settled: "ra_lifecycle acc = Terminal \<Longrightarrow> ra_status acc \<noteq> StatusInProgress"
    using inv by (cases "last (map ef_type fs)") (auto simp: strict_inv_def)
  have fin: "\<forall>acc'. finish_strict_stream acc = Inr acc' \<longrightarrow>
         ra_output acc' = ra_output acc \<and> ra_status acc' = ra_status acc \<and> ra_status acc' \<noteq> StatusInProgress"
    using inv settled
    by (auto simp: finish_strict_stream_def finish_stream_def Let_def strict_inv_def drain_output_def
        empty_slot_map_def im_sort_keys_def List.map_filter_simps split: if_splits)
  have grammar: "lifecycle_grammar (ra_lifecycle acc) (map ef_type fs)"
    using inv by (simp add: strict_inv_def)
  have first: "fs \<noteq> [] \<longrightarrow>
      (\<exists>st usg. ef_payload (hd fs) = PResponse (ra_response_id acc) st usg) \<and> ra_response_id acc \<noteq> ''''"
    using run init(2) by blast
  have status: "if ra_lifecycle acc = Terminal then terminal_status (ef_type (last fs)) = Some (ra_status acc)
       else ra_status acc = StatusInProgress"
    using inv nonempty by (simp add: strict_inv_def last_map split: if_splits)
  have finish: "(\<exists>acc'. finish_strict_stream acc = Inr acc') \<longleftrightarrow> ra_lifecycle acc = Terminal"
    by (simp add: finish_strict_stream_def)
  show ?thesis by (intro conjI grammar first status finish fin)
qed

definition lifecycle_json :: "string \<Rightarrow> string \<Rightarrow> json" where
  "lifecycle_json t st =
     JObject [(''type'', JString t),
              (''response'', JObject [(''id'', JString ''r1''), (''status'', JString st)])]"

definition lifecycle_codec :: codec where
  "lifecycle_codec = plain_codec\<lparr>cd_parse := (\<lambda>s.
     if s = ''c'' then Some (lifecycle_json ''response.created'' ''in_progress'')
     else if s = ''p'' then Some (lifecycle_json ''response.in_progress'' ''in_progress'')
     else if s = ''t'' then Some (lifecycle_json ''response.completed'' ''completed'')
     else None)\<rparr>"

definition lifecycle_frame :: "sse_event_type \<Rightarrow> string \<Rightarrow> string \<Rightarrow> event_frame" where
  "lifecycle_frame k t st =
     \<lparr>ef_type = k, ef_payload = PResponse ''r1'' st None,
      ef_wire = \<lparr>we_event_type = Some t, we_sequence_number = None, we_output_index = None,
        we_rest = [(''response'', JObject [(''id'', JString ''r1''), (''status'', JString st)])]\<rparr>\<rparr>"

lemma lifecycle_lines:
  "sse_line_parse ''data:c'' = SseData ''c''" "sse_line_parse '': ping'' = SseIgnore"
  "sse_line_parse ''data: p'' = SseData ''p''" "sse_line_parse ''data:t'' = SseData ''t''"
proof -
  have "str_trim ''c'' = ''c''" "str_trim ''p'' = ''p''" "str_trim ''t'' = ''t''"
    by (simp_all add: str_trim_def strip_all.simps strip_one_def str_strip_prefix_def white_space_def)
  then show "sse_line_parse ''data:c'' = SseData ''c''" "sse_line_parse '': ping'' = SseIgnore"
    "sse_line_parse ''data: p'' = SseData ''p''" "sse_line_parse ''data:t'' = SseData ''t''"
    by (simp_all add: sse_line_parse_def str_strip_prefix_def)
qed

lemma lifecycle_names:
  "sse_event_type_of_str ''response.created'' = ResponseCreated"
  "sse_event_type_of_str ''response.in_progress'' = ResponseInProgress"
  "sse_event_type_of_str ''response.completed'' = ResponseCompleted"
  by (simp_all add: sse_event_type_of_str_str)

lemma lifecycle_normalize:
  assumes "sse_event_type_of_str t = k" "lifecycle_status k = Some st"
  shows "normalize_sse_value lifecycle_codec u (lifecycle_json t st) = Inr (Some (lifecycle_frame k t st))"
proof -
  have "extract_payload lifecycle_codec u k (lifecycle_json t st) = PResponse ''r1'' st None"
    using assms(2) by (cases k)
      (simp_all add: extract_response_payload_def lifecycle_json_def json_str_def)
  moreover have "k = ResponseCompleted \<Longrightarrow> st \<noteq> ''incomplete''"
    using assms(2) by auto
  ultimately show ?thesis
    using assms(1) by (auto simp: normalize_sse_value_def lifecycle_json_def json_event_type_def Let_def
        json_output_index_def wire_event_of_json_def wire_event_keys_def lifecycle_frame_def)
qed

lemma lifecycle_validate:
  assumes "lifecycle_status k = Some st" "t \<noteq> ''''" "st \<noteq> ''''"
  shows "validate_frame c u (lifecycle_frame k t st) = Inr None"
  using assms by (simp add: validate_frame_def lifecycle_frame_def frame_event_name_def
      validate_response_event_def required_object_def required_str_def)

lemma lifecycle_run:
  "\<exists>fs acc. process_lines lifecycle_codec (\<lambda>_. '''') 0 [''data:c'', '': ping'', ''data: p'', ''data:t'']
     (accumulator_with_validation ''x'' None Strict) = Inr (fs, acc)
   \<and> ra_lifecycle acc = Terminal \<and> ra_response_id acc = ''r1''"
proof -
  let ?acc = "accumulator_with_validation ''x'' None Strict"
  have parse: "cd_parse lifecycle_codec ''c'' = Some (lifecycle_json ''response.created'' ''in_progress'')"
    "cd_parse lifecycle_codec ''p'' = Some (lifecycle_json ''response.in_progress'' ''in_progress'')"
    "cd_parse lifecycle_codec ''t'' = Some (lifecycle_json ''response.completed'' ''completed'')"
    by (simp_all add: lifecycle_codec_def)
  have norm: "normalize_sse_value lifecycle_codec '''' (lifecycle_json ''response.created'' ''in_progress'') =
      Inr (Some (lifecycle_frame ResponseCreated ''response.created'' ''in_progress''))"
    "normalize_sse_value lifecycle_codec '''' (lifecycle_json ''response.in_progress'' ''in_progress'') =
      Inr (Some (lifecycle_frame ResponseInProgress ''response.in_progress'' ''in_progress''))"
    "normalize_sse_value lifecycle_codec '''' (lifecycle_json ''response.completed'' ''completed'') =
      Inr (Some (lifecycle_frame ResponseCompleted ''response.completed'' ''completed''))"
    by (simp_all add: lifecycle_normalize lifecycle_names)
  have created: "process_line lifecycle_codec '''' (SseData ''c'') ?acc =
      Inr (Some (lifecycle_frame ResponseCreated ''response.created'' ''in_progress''),
           ?acc\<lparr>ra_response_id := ''r1'', ra_lifecycle := Created\<rparr>)" (is "_ = Inr (_, ?a1)")
    by (simp add: process_line_def normalize_sse_data_checked_def parse norm process_normalized_event_def
        lifecycle_validate validate_strict_transition_def process_event_checked_def Let_def
        capture_terminal_details_if_needed_def accumulator_with_validation_def)
      (simp add: lifecycle_frame_def)
  have progress: "process_line lifecycle_codec '''' (SseData ''p'') ?a1 =
      Inr (Some (lifecycle_frame ResponseInProgress ''response.in_progress'' ''in_progress''),
           ?a1\<lparr>ra_lifecycle := InProgress\<rparr>)" (is "_ = Inr (_, ?a2)")
    by (simp add: process_line_def normalize_sse_data_checked_def parse norm process_normalized_event_def
        lifecycle_validate validate_strict_transition_def process_event_checked_def Let_def
        capture_terminal_details_if_needed_def accumulator_with_validation_def)
      (simp add: lifecycle_frame_def)
  have terminal: "\<exists>acc. process_line lifecycle_codec '''' (SseData ''t'') ?a2 =
      Inr (Some (lifecycle_frame ResponseCompleted ''response.completed'' ''completed''), acc)
      \<and> ra_lifecycle acc = Terminal \<and> ra_response_id acc = ''r1''"
    by (simp add: process_line_def normalize_sse_data_checked_def parse norm process_normalized_event_def
        lifecycle_validate validate_strict_transition_def process_event_checked_def Let_def
        capture_terminal_details_if_needed_def accumulator_with_validation_def)
      (simp add: lifecycle_frame_def has_active_def empty_slot_map_def validate_terminal_output_def
        ensure_stable_strict_call_ids_def changed_call_ids_def finish_response_event_def finish_response_def
        capture_terminal_details_def finalize_all_def drain_output_def)
  then obtain acc where "process_line lifecycle_codec '''' (SseData ''t'') ?a2 =
      Inr (Some (lifecycle_frame ResponseCompleted ''response.completed'' ''completed''), acc)"
    "ra_lifecycle acc = Terminal \<and> ra_response_id acc = ''r1''" by blast
  moreover have "process_line lifecycle_codec '''' SseIgnore ?a1 = Inr (None, ?a1)"
    by (simp add: process_line_def)
  ultimately show ?thesis
    by (simp add: lifecycle_lines created progress)
qed

theorem strict_stream_grammar_witness:
  "\<exists>fs acc. process_lines lifecycle_codec (\<lambda>_. '''') 0 [''data:c'', '': ping'', ''data: p'', ''data:t'']
     (accumulator_with_validation ''x'' None Strict) = Inr (fs, acc)
   \<and> ra_status acc \<noteq> StatusInProgress \<and> fs \<noteq> []"
proof -
  from lifecycle_run obtain fs acc where run: "process_lines lifecycle_codec (\<lambda>_. '''') 0
     [''data:c'', '': ping'', ''data: p'', ''data:t''] (accumulator_with_validation ''x'' None Strict) = Inr (fs, acc)"
    and t: "ra_lifecycle acc = Terminal" by blast
  from strict_stream_grammar [OF run] t have "lifecycle_grammar Terminal (map ef_type fs)"
    "terminal_status (ef_type (last fs)) = Some (ra_status acc)" by simp_all
  then have "fs \<noteq> []" "ra_status acc \<noteq> StatusInProgress"
    by (auto, cases "ef_type (last fs)", auto)
  with run show ?thesis by blast
qed

section \<open>Completed items reach the output\<close>

definition settled_item :: "output_item \<Rightarrow> accumulator \<Rightarrow> bool" where
  "settled_item d acc \<longleftrightarrow>
     d \<in> set (ra_output acc) \<or> (\<exists>i s. sm_get (ra_slots acc) i = Some s \<and> sl_state s = Done d)"

definition keeps_items :: "accumulator \<Rightarrow> accumulator \<Rightarrow> bool" where
  "keeps_items acc acc' \<longleftrightarrow> slot_map_inv (ra_slots acc') \<and> prefix (ra_output acc) (ra_output acc')
     \<and> (\<forall>d. settled_item d acc \<longrightarrow> settled_item d acc')"

lemma drained_done:
  assumes "sm_get m i = Some s" "sl_state s = Done d"
  shows "d \<in> set (fst (drain_output m))"
proof -
  have "(i, s) \<in> set (sm_slots m)" using assms(1) by (simp add: sm_get_def im_get_SomeD)
  with assms(2) show ?thesis by (force simp: drain_output_def List.map_filter_def)
qed

lemma keeps_items_finalize: "keeps_items acc (finalize_all acc)"
  by (auto simp: keeps_items_def settled_item_def dest: drained_done)

lemma keeps_items_same:
  "slot_map_inv (ra_slots acc) \<Longrightarrow> ra_slots acc' = ra_slots acc \<Longrightarrow> ra_output acc' = ra_output acc \<Longrightarrow> keeps_items acc acc'"
  by (auto simp: keeps_items_def settled_item_def)

lemma keeps_items_trans: "keeps_items a b \<Longrightarrow> keeps_items b c \<Longrightarrow> keeps_items a c"
  by (auto simp: keeps_items_def intro: prefix_order.trans)

lemma keeps_items_fold:
  assumes "slot_map_inv (ra_slots acc)" "fold_item_event c u f v acc = Inr (d, acc')"
  shows "keeps_items acc acc'"
proof -
  note fr = fold_item_event_frame [OF assms(2)]
  from fr(6) [OF assms(1)] have "\<exists>t. sm_get (ra_slots acc') i = Some t \<and> sl_state t = Done x"
    if "sm_get (ra_slots acc) i = Some s" "sl_state s = Done x" for i s x
    using that by (fastforce simp: slot_map_grows_def slot_grows_def)
  with fr(5) fr(6) [OF assms(1)] show ?thesis
    by (fastforce simp: keeps_items_def settled_item_def)
qed

lemma keeps_items_event:
  assumes "slot_map_inv (ra_slots acc)" "process_event_checked c u f v acc = Inr (d, acc')"
  shows "keeps_items acc acc'"
proof (cases "fold_item_event c u f v acc = Inr (d, acc')")
  case True
  with assms(1) show ?thesis by (rule keeps_items_fold)
next
  case False
  with assms(2) obtain i st us where p: "ef_payload f = PResponse i st us"
    by (auto simp: process_event_checked_def split: event_payload.splits)
  with assms(2) False consider "acc' = acc\<lparr>ra_response_id := i, ra_lifecycle := Created\<rparr>"
    | "acc' = acc\<lparr>ra_lifecycle := InProgress\<rparr>" | (fin) "acc' = finish_response_event (ef_type f) us acc"
    by (auto simp: process_event_checked_def split: if_splits)
  then show ?thesis
  proof cases
    case fin
    show ?thesis
    proof (cases "terminal_status (ef_type f)")
      case None
      with fin assms(1) show ?thesis by (simp add: finish_response_event_def keeps_items_same)
    next
      case (Some x)
      have "keeps_items (finalize_all acc) acc'"
        using fin Some by (intro keeps_items_same) (simp_all add: finish_response_event_def finish_response_def)
      with keeps_items_finalize show ?thesis by (rule keeps_items_trans)
    qed
  qed (use assms(1) in \<open>simp_all add: keeps_items_same\<close>)
qed

lemma keeps_items_line:
  assumes inv: "slot_map_inv (ra_slots acc)" and step: "process_line c u line acc = Inr (r, acc')"
  shows "keeps_items acc acc'"
proof (cases "acc' = acc")
  case True
  with inv show ?thesis by (simp add: keeps_items_same)
next
  case False
  with step obtain f d where "process_normalized_event c u f acc = Inr (d, acc')"
    by (auto simp: process_line_def elim!: and_then_InrE
        split: classified_sse_line.splits sum.splits option.splits if_splits)
  then obtain v acc1 where one: "acc1 = acc \<or> (\<exists>c u. validate_strict_transition c u f acc = Inr acc1)"
    and ev: "process_event_checked c u f v (capture_terminal_details_if_needed c f acc1) = Inr (d, acc')"
    by (auto simp: process_normalized_event_def elim!: and_then_InrE split: validation.splits sum.splits)
  let ?acc2 = "capture_terminal_details_if_needed c f acc1"
  have same: "ra_slots ?acc2 = ra_slots acc" "ra_output ?acc2 = ra_output acc"
    using one by (auto dest: validate_strict_transition_frame simp: same_but_calls_frame)
  with inv have "keeps_items acc ?acc2" by (simp add: keeps_items_same)
  moreover have "keeps_items ?acc2 acc'"
    using inv same ev by (intro keeps_items_event [OF _ ev]) simp
  ultimately show ?thesis by (rule keeps_items_trans)
qed

lemma keeps_items_lines:
  "slot_map_inv (ra_slots acc) \<Longrightarrow> process_lines c us n lines acc = Inr (fs, acc') \<Longrightarrow> keeps_items acc acc'"
proof (induction lines arbitrary: n acc fs)
  case Nil
  then show ?case by (simp add: keeps_items_same)
next
  case (Cons line lines)
  from Cons.prems obtain r acc1 fs1 where one: "process_line c (us n) (sse_line_parse line) acc = Inr (r, acc1)"
    and rest: "process_lines c us (Suc n) lines acc1 = Inr (fs1, acc')"
    by (auto elim!: and_then_InrE)
  have first: "keeps_items acc acc1" using Cons.prems(1) one by (rule keeps_items_line)
  then have "slot_map_inv (ra_slots acc1)" by (simp add: keeps_items_def)
  from keeps_items_trans [OF first Cons.IH [OF this rest]] show ?case .
qed

text \<open>
  C9: a completed item is final. Under either policy, once an output item is complete at some
  point of a stream, it is in the output of the finished response exactly as it was
  completed, whatever lines follow; and output already assembled is only appended to.
\<close>

theorem completed_items_are_final:
  assumes "process_lines c us n lines (accumulator_with_validation rid conv v) = Inr (fs, mid)"
    and "process_lines c us' k lines' mid = Inr (gs, acc)"
  shows "(\<forall>i s d. sm_get (ra_slots mid) i = Some s \<and> sl_state s = Done d \<longrightarrow>
           d \<in> set (ra_output (finish_stream acc)))
    \<and> prefix (ra_output mid) (ra_output (finish_stream acc))
    \<and> rp_output (accumulator_finalize now model prev instr (finish_stream acc)) = ra_output (finish_stream acc)"
proof -
  have "slot_map_inv (ra_slots (accumulator_with_validation rid conv v))"
    by (simp add: accumulator_with_validation_def)
  from keeps_items_lines [OF this assms(1)] have "slot_map_inv (ra_slots mid)"
    by (simp add: keeps_items_def)
  from keeps_items_trans [OF keeps_items_lines [OF this assms(2)] keeps_items_finalize]
  have "keeps_items mid (finalize_all acc)" .
  then show ?thesis
    by (fastforce simp: keeps_items_def settled_item_def finish_stream_def Let_def accumulator_finalize_def
        sm_get_def empty_slot_map_def)
qed

definition reasoning_done_json :: json where
  "reasoning_done_json =
     JObject [(''type'', JString ''response.output_item.done''), (''output_index'', JNumber (PosInt 0)),
              (''item'', JObject [(''id'', JString ''rs''), (''type'', JString ''reasoning'')])]"

definition reasoning_codec :: codec where
  "reasoning_codec = plain_codec
     \<lparr>cd_parse := (\<lambda>s. if s = ''c'' then Some reasoning_done_json else None),
      cd_output_item := (\<lambda>_ _. Inr (OutReasoning (new_reasoning_output ''rs'')))\<rparr>"

definition reasoning_done_acc :: accumulator where
  "reasoning_done_acc = (accumulator_with_validation ''x'' None Lenient)
     \<lparr>ra_slots := \<lparr>sm_slots = [(0, \<lparr>sl_item_id = Some ''rs'', sl_state = Done (OutReasoning (new_reasoning_output ''rs''))\<rparr>)],
        sm_indexes_by_id = [''rs'' \<mapsto> 0]\<rparr>\<rparr>"

lemma reasoning_done_line:
  "\<exists>f. process_lines reasoning_codec (\<lambda>_. '''') 0 [''data:c''] (accumulator_with_validation ''x'' None Lenient) =
     Inr ([f], reasoning_done_acc)"
proof -
  have "sse_event_type_of_str ''response.output_item.done'' = OutputItemDone"
    by (simp add: sse_event_type_of_str_str)
  moreover have "u32_of_u64 0 = Some 0" by (simp add: u32_of_u64_def)
  moreover have "sse_item_type_of_str ''reasoning'' = TyReasoning"
    by (simp add: sse_item_type_of_str_def sse_item_type_from_str_def sse_item_type_names_def)
  ultimately show ?thesis
    by (simp add: lifecycle_lines process_line_def normalize_sse_data_checked_def reasoning_codec_def
        reasoning_done_json_def normalize_sse_value_def json_event_type_def Let_def json_output_index_def
        wire_event_of_json_def wire_event_keys_def extract_output_item_done_def json_output_item_id_def
        json_str_def process_normalized_event_def accumulator_with_validation_def
        capture_terminal_details_if_needed_def process_event_checked_def fold_item_event_def
        identity_of_frame_def frame_item_def frame_output_index_def nonempty_id_def complete_slot_def
        resolve_def resolve_at_def sm_get_def empty_slot_map_def parsed_completion_def result_map_def
        sm_insert_def item_disposition_def reasoning_done_acc_def)
qed

theorem completed_items_are_final_witness:
  "OutReasoning (new_reasoning_output ''rs'') \<in> set (ra_output (finish_stream reasoning_done_acc))"
proof -
  have later: "process_lines reasoning_codec (\<lambda>_. '''') 1 ['': ping''] reasoning_done_acc = Inr ([], reasoning_done_acc)"
    by (simp add: lifecycle_lines process_line_def)
  obtain f where first: "process_lines reasoning_codec (\<lambda>_. '''') 0 [''data:c'']
      (accumulator_with_validation ''x'' None Lenient) = Inr ([f], reasoning_done_acc)"
    using reasoning_done_line by blast
  have "sm_get (ra_slots reasoning_done_acc) 0 =
      Some \<lparr>sl_item_id = Some ''rs'', sl_state = Done (OutReasoning (new_reasoning_output ''rs''))\<rparr>"
    by (simp add: reasoning_done_acc_def sm_get_def)
  moreover note conjunct1 [OF completed_items_are_final [OF first later], THEN spec, THEN spec, THEN spec, THEN mp]
  ultimately show ?thesis by (metis slot.select_convs(2))
qed

end
