(* ===== verification/Pending_Calls.thy ===== *)
theory Pending_Calls
  imports Items Errors
begin

text \<open>
  Calls that no output resolves, \<open>executor/pending_calls.rs\<close>: one scan over an item
  sequence that also enforces the call protocol. The abstract specification says which
  sequences obey the protocol and which calls are left; the scan is proved to decide it.
\<close>

section \<open>The scan\<close>

datatype call_kind = KindFunction | KindCustom | KindShell

fun call_item_name :: "call_kind \<Rightarrow> string" where
  "call_item_name KindFunction = ''function_call''"
| "call_item_name KindCustom = ''custom_tool_call''"
| "call_item_name KindShell = ''shell_call''"

fun output_item_name :: "call_kind \<Rightarrow> string" where
  "output_item_name KindFunction = ''function_call_output''"
| "output_item_name KindCustom = ''custom_tool_call_output''"
| "output_item_name KindShell = ''shell_call_output''"

record pending_state =
  ps_seen_call_ids :: "string set"
  ps_pending :: "(string, call_kind) index_map"

definition add_call :: "string \<Rightarrow> call_kind \<Rightarrow> pending_state \<Rightarrow> executor_error + pending_state" where
  "add_call call_id kind s =
     (if call_id = ''''
      then Inl (InvalidRequest (call_item_name kind @ '' call_id must not be empty''))
      else if call_id \<in> ps_seen_call_ids s
      then Inl (InvalidRequest (''duplicate call_id '' @ quoted call_id @ '' in '' @ call_item_name kind))
      else Inr \<lparr>ps_seen_call_ids = insert call_id (ps_seen_call_ids s),
                ps_pending = im_insert call_id kind (ps_pending s)\<rparr>)"

definition resolve_call :: "string \<Rightarrow> call_kind \<Rightarrow> pending_state \<Rightarrow> executor_error + pending_state" where
  "resolve_call call_id output_kind s =
     (if call_id = ''''
      then Inl (InvalidRequest (output_item_name output_kind @ '' call_id must not be empty''))
      else
        (case im_get (ps_pending s) call_id of
           None \<Rightarrow> Inl (InvalidRequest (output_item_name output_kind @ '' references call_id ''
                    @ quoted call_id @ '' without a pending call''))
         | Some kind \<Rightarrow>
             if kind \<noteq> output_kind
             then Inl (InvalidRequest (output_item_name output_kind @ '' cannot resolve ''
                    @ call_item_name kind @ '' call_id '' @ quoted call_id))
             else Inr (s\<lparr>ps_pending := im_shift_remove call_id (ps_pending s)\<rparr>)))"

fun scan_item :: "pending_state \<Rightarrow> input_item \<Rightarrow> executor_error + pending_state" where
  "scan_item s (InFunctionCall x) = add_call (ifn_call_id x) KindFunction s"
| "scan_item s (InCustomToolCall x) = add_call (ct_call_id x) KindCustom s"
| "scan_item s (InFunctionCallOutput x) = resolve_call (fr_call_id x) KindFunction s"
| "scan_item s (InCustomToolCallOutput x) = resolve_call (cto_call_id x) KindCustom s"
| "scan_item s (InShellCall x) = add_call (sc_call_id x) KindShell s"
| "scan_item s (InShellCallOutput x) = resolve_call (som_call_id x) KindShell s"
| "scan_item s _ = Inr s"

definition pending_calls :: "input_item list \<Rightarrow> executor_error + string list" where
  "pending_calls items =
     and_then (run_steps scan_item \<lparr>ps_seen_call_ids = {}, ps_pending = []\<rparr> items)
       (\<lambda>s. Inr (im_keys (ps_pending s)))"

section \<open>The protocol\<close>

fun call_of :: "input_item \<Rightarrow> (string \<times> call_kind) option" where
  "call_of (InFunctionCall x) = Some (ifn_call_id x, KindFunction)"
| "call_of (InCustomToolCall x) = Some (ct_call_id x, KindCustom)"
| "call_of (InShellCall x) = Some (sc_call_id x, KindShell)"
| "call_of _ = None"

fun output_of :: "input_item \<Rightarrow> (string \<times> call_kind) option" where
  "output_of (InFunctionCallOutput x) = Some (fr_call_id x, KindFunction)"
| "output_of (InCustomToolCallOutput x) = Some (cto_call_id x, KindCustom)"
| "output_of (InShellCallOutput x) = Some (som_call_id x, KindShell)"
| "output_of _ = None"

definition calls :: "input_item list \<Rightarrow> (string \<times> call_kind) list" where
  "calls items = List.map_filter call_of items"

definition outputs :: "input_item list \<Rightarrow> (string \<times> call_kind) list" where
  "outputs items = List.map_filter output_of items"

definition call_ids :: "input_item list \<Rightarrow> string list" where
  "call_ids items = map fst (calls items)"

definition output_ids :: "input_item list \<Rightarrow> string list" where
  "output_ids items = map fst (outputs items)"

text \<open>
  Calls have distinct nonempty identifiers; every output answers a call of its own kind that
  came before it; no call is answered twice.
\<close>

definition call_protocol :: "input_item list \<Rightarrow> bool" where
  "call_protocol items \<longleftrightarrow>
     distinct (call_ids items) \<and> '''' \<notin> set (call_ids items) \<and> distinct (output_ids items)
     \<and> (\<forall>n < length items. \<forall>o1. output_of (items ! n) = Some o1 \<longrightarrow> o1 \<in> set (calls (take n items)))"

definition unresolved :: "input_item list \<Rightarrow> (string \<times> call_kind) list" where
  "unresolved items = filter (\<lambda>(i, _). i \<notin> set (output_ids items)) (calls items)"

lemma calls_simps [simp]:
  "calls [] = []" "calls (xs @ ys) = calls xs @ calls ys"
  "calls [x] = (case call_of x of None \<Rightarrow> [] | Some y \<Rightarrow> [y])"
  by (simp_all add: calls_def List.map_filter_def split: option.splits)

lemma outputs_simps [simp]:
  "outputs [] = []" "outputs (xs @ ys) = outputs xs @ outputs ys"
  "outputs [x] = (case output_of x of None \<Rightarrow> [] | Some y \<Rightarrow> [y])"
  by (simp_all add: outputs_def List.map_filter_def split: option.splits)

lemma ids_simps [simp]:
  "call_ids [] = []" "call_ids (xs @ ys) = call_ids xs @ call_ids ys"
  "call_ids [x] = (case call_of x of None \<Rightarrow> [] | Some y \<Rightarrow> [fst y])"
  "output_ids [] = []" "output_ids (xs @ ys) = output_ids xs @ output_ids ys"
  "output_ids [x] = (case output_of x of None \<Rightarrow> [] | Some y \<Rightarrow> [fst y])"
  by (simp_all add: call_ids_def output_ids_def split: option.splits)

lemma call_id_in: "(i, k) \<in> set (calls xs) \<Longrightarrow> i \<in> set (call_ids xs)"
  by (force simp: call_ids_def)

lemma call_or_output: "call_of x = None \<or> output_of x = None"
  by (cases x) auto

lemma call_protocol_nil [simp]: "call_protocol []"
  by (simp add: call_protocol_def)

lemma call_protocol_snoc:
  "call_protocol (xs @ [x]) \<longleftrightarrow> call_protocol xs
     \<and> (\<forall>i k. call_of x = Some (i, k) \<longrightarrow> i \<noteq> '''' \<and> i \<notin> set (call_ids xs))
     \<and> (\<forall>i k. output_of x = Some (i, k) \<longrightarrow> (i, k) \<in> set (calls xs) \<and> i \<notin> set (output_ids xs))"
proof -
  have prior: "(\<forall>n < length (xs @ [x]). \<forall>o1. output_of ((xs @ [x]) ! n) = Some o1 \<longrightarrow> o1 \<in> set (calls (take n (xs @ [x]))))
      \<longleftrightarrow> (\<forall>n < length xs. \<forall>o1. output_of (xs ! n) = Some o1 \<longrightarrow> o1 \<in> set (calls (take n xs)))
        \<and> (\<forall>o1. output_of x = Some o1 \<longrightarrow> o1 \<in> set (calls xs))"
    by (auto simp: nth_append less_Suc_eq)
  show ?thesis
    unfolding call_protocol_def prior
    by (cases "call_of x"; cases "output_of x") (use call_or_output [of x] in auto)
qed

lemma output_nonempty: "call_protocol xs \<Longrightarrow> (i, k) \<in> set (calls xs) \<Longrightarrow> i \<noteq> ''''"
  using call_id_in by (auto simp: call_protocol_def)

lemma map_of_unresolved:
  assumes "call_protocol xs"
  shows "im_get (unresolved xs) i = Some k \<longleftrightarrow> (i, k) \<in> set (calls xs) \<and> i \<notin> set (output_ids xs)"
proof -
  have "distinct (map fst (unresolved xs))"
    using assms by (simp add: call_protocol_def unresolved_def call_ids_def distinct_map_filter)
  then show ?thesis by (auto simp: im_get_def unresolved_def)
qed

text \<open>What the scan has accumulated after a prefix.\<close>

definition scanned :: "input_item list \<Rightarrow> pending_state" where
  "scanned xs = \<lparr>ps_seen_call_ids = set (call_ids xs), ps_pending = unresolved xs\<rparr>"

lemma add_call_scanned:
  assumes "call_protocol xs" "call_of x = Some (i, k)"
  shows "add_call i k (scanned xs) =
    (if call_protocol (xs @ [x]) then Inr (scanned (xs @ [x]))
     else Inl (projl (add_call i k (scanned xs))))"
proof (cases "i \<noteq> '''' \<and> i \<notin> set (call_ids xs)")
  case True
  have none: "output_of x = None" using assms(2) call_or_output [of x] by auto
  have "i \<notin> set (output_ids xs)"
  proof
    assume "i \<in> set (output_ids xs)"
    then obtain n k' where "n < length xs" "output_of (xs ! n) = Some (i, k')"
      by (auto simp: output_ids_def outputs_def List.map_filter_def in_set_conv_nth)
    then have "(i, k') \<in> set (calls (take n xs))"
      using assms(1) by (simp add: call_protocol_def)
    moreover have "set (calls (take n xs)) \<subseteq> set (calls xs)"
      by (metis append_take_drop_id calls_simps(2) set_append Un_upper1)
    ultimately have "i \<in> set (call_ids xs)" using call_id_in by blast
    with True show False by simp
  qed
  moreover have "i \<notin> set (im_keys (unresolved xs))"
    using True by (auto simp: im_keys_def unresolved_def call_ids_def)
  ultimately show ?thesis
    using True assms none
    by (auto simp: add_call_def scanned_def call_protocol_snoc im_insert_new unresolved_def)
next
  case False
  with assms show ?thesis by (auto simp: add_call_def scanned_def call_protocol_snoc)
qed

lemma resolve_call_scanned:
  assumes "call_protocol xs" "output_of x = Some (i, k)"
  shows "resolve_call i k (scanned xs) =
    (if call_protocol (xs @ [x]) then Inr (scanned (xs @ [x]))
     else Inl (projl (resolve_call i k (scanned xs))))"
proof (cases "(i, k) \<in> set (calls xs) \<and> i \<notin> set (output_ids xs)")
  case True
  have none: "call_of x = None" using assms(2) call_or_output [of x] by auto
  from True assms have "im_get (unresolved xs) i = Some k" by (simp add: map_of_unresolved)
  moreover have "im_shift_remove i (unresolved xs) = unresolved (xs @ [x])"
    using assms(2) none
    by (auto simp: im_shift_remove_def unresolved_def intro!: filter_cong)
  moreover have "i \<noteq> ''''" using True output_nonempty [OF assms(1)] by blast
  ultimately show ?thesis
    using True assms none
    by (auto simp: resolve_call_def scanned_def call_protocol_snoc)
next
  case False
  have "im_get (unresolved xs) i \<noteq> Some k" using False assms by (simp add: map_of_unresolved)
  with False assms show ?thesis
    by (auto simp: resolve_call_def scanned_def call_protocol_snoc split: option.splits)
qed

lemma scan_item_scanned:
  assumes "call_protocol xs"
  shows "scan_item (scanned xs) x =
    (if call_protocol (xs @ [x]) then Inr (scanned (xs @ [x])) else Inl (projl (scan_item (scanned xs) x)))"
proof (cases "call_of x")
  case None
  show ?thesis
  proof (cases "output_of x")
    case None
    with \<open>call_of x = None\<close> assms show ?thesis
      by (cases x) (simp_all add: call_protocol_snoc scanned_def unresolved_def)
  next
    case (Some o1)
    then obtain i k where "output_of x = Some (i, k)" "scan_item (scanned xs) x = resolve_call i k (scanned xs)"
      by (cases x) auto
    with resolve_call_scanned [OF assms] show ?thesis by metis
  qed
next
  case (Some c1)
  then obtain i k where "call_of x = Some (i, k)" "scan_item (scanned xs) x = add_call i k (scanned xs)"
    by (cases x) auto
  with add_call_scanned [OF assms] show ?thesis by metis
qed

lemma scan_decides:
  "(call_protocol xs \<longrightarrow> run_steps scan_item (scanned []) xs = Inr (scanned xs))
   \<and> (\<not> call_protocol xs \<longrightarrow> (\<exists>e. run_steps scan_item (scanned []) xs = Inl e))"
proof (induction xs rule: rev_induct)
  case Nil
  then show ?case by simp
next
  case (snoc x xs)
  show ?case
  proof (cases "call_protocol xs")
    case True
    with snoc scan_item_scanned [OF True, of x] show ?thesis
      by (auto simp: run_steps_snoc)
  next
    case False
    with snoc show ?thesis by (auto simp: run_steps_snoc call_protocol_snoc)
  qed
qed

lemma scan_item_error: "scan_item s x = Inl e \<Longrightarrow> \<exists>m. e = InvalidRequest m"
  by (cases x) (auto simp: add_call_def resolve_call_def split: if_splits option.splits)

lemma run_scan_error: "run_steps scan_item s xs = Inl e \<Longrightarrow> \<exists>m. e = InvalidRequest m"
  by (induction xs arbitrary: s) (auto split: sum.splits dest: scan_item_error)

text \<open>
  C39: the scan for pending calls decides the call protocol. It succeeds exactly on item
  sequences whose calls have distinct nonempty identifiers and whose outputs each answer one
  earlier call of the same kind, at most once; it then returns the identifiers of the
  unanswered calls in emission order. Every other sequence is an invalid request.
\<close>

theorem pending_calls_decides_protocol:
  "(case pending_calls items of
      Inr ids \<Rightarrow> call_protocol items \<and> ids = map fst (unresolved items)
    | Inl e \<Rightarrow> \<not> call_protocol items \<and> http_status e = 400)"
proof -
  have init: "\<lparr>ps_seen_call_ids = {}, ps_pending = []\<rparr> = scanned []"
    by (simp add: scanned_def unresolved_def)
  show ?thesis
  proof (cases "run_steps scan_item (scanned []) items")
    case (Inl e)
    with scan_decides [of items] have "\<not> call_protocol items" by auto
    with Inl run_scan_error [OF Inl] show ?thesis
      by (auto simp: pending_calls_def init http_status_def)
  next
    case (Inr s)
    with scan_decides [of items] have "call_protocol items" "s = scanned items"
      by (cases "call_protocol items"; auto)+
    with Inr show ?thesis
      by (simp add: pending_calls_def init im_keys_def scanned_def)
  qed
qed

end
