(* ===== verification/Compaction_Window.thy ===== *)
theory Compaction_Window
  imports Pending_Calls Folding
begin

text \<open>
  Conversation history as the model sees it: the conversions of \<open>types/io/output.rs\<close> and
  \<open>types/io/input.rs\<close> from stored output items to input items, the latest compaction window,
  \<open>ResponsesInput::model_input\<close>, and \<open>canonical_session_history\<close> of \<open>executor/session.rs\<close>.
\<close>

section \<open>Output items as input\<close>

definition function_call_item_id :: "string \<Rightarrow> string option" where
  "function_call_item_id item_id =
     (if item_id = '''' then None
      else
        case filter_option (\<lambda>s. s \<noteq> '''')
               (or_else (str_strip_prefix ''ctc_'' item_id) (str_strip_prefix ''sh_'' item_id)) of
          Some s \<Rightarrow> Some (''fc_'' @ s)
        | None \<Rightarrow> Some item_id)"

definition input_message_of_output :: "output_message \<Rightarrow> input_message" where
  "input_message_of_output m =
     \<lparr>im_id = Some (om_id m), im_role = om_role m, im_status = Some (om_status m),
      im_content = PartsContent (map (\<lambda>c. OutputText (otc_text c)) (om_content m))\<rparr>"

definition input_call_of_function :: "function_tool_call \<Rightarrow> input_function_tool_call" where
  "input_call_of_function x =
     \<lparr>ifn_id = Some (fc_id x), ifn_call_id = fc_call_id x, ifn_name = fc_name x,
      ifn_namespace = fc_namespace x, ifn_arguments = fc_arguments x, ifn_status = Some (fc_status x)\<rparr>"

text \<open>The printers of JSON text and of the shell action are \<open>serde_json\<close>'s.\<close>

definition input_call_of_custom :: "(json \<Rightarrow> string) \<Rightarrow> custom_tool_call \<Rightarrow> input_function_tool_call" where
  "input_call_of_custom to_text x =
     \<lparr>ifn_id = function_call_item_id (ct_id x), ifn_call_id = ct_call_id x, ifn_name = ct_name x,
      ifn_namespace = None, ifn_arguments = to_text (JObject [(''input'', JString (ct_input x))]),
      ifn_status = ct_status x\<rparr>"

fun message_status_of_shell :: "shell_call_status option \<Rightarrow> message_status option" where
  "message_status_of_shell (Some ShellCompleted) = Some MessageCompleted"
| "message_status_of_shell (Some ShellInProgress) = Some MessageInProgress"
| "message_status_of_shell _ = None"

definition input_call_of_shell :: "(shell_call_action \<Rightarrow> string) \<Rightarrow> shell_call \<Rightarrow> input_function_tool_call" where
  "input_call_of_shell action_text x =
     \<lparr>ifn_id = Option.bind (sc_id x) function_call_item_id, ifn_call_id = sc_call_id x,
      ifn_name = ''shell'', ifn_namespace = None, ifn_arguments = action_text (sc_action x),
      ifn_status = message_status_of_shell (sc_status x)\<rparr>"

definition input_tool_search_of_output :: "tool_search_call \<Rightarrow> tool_search_status + input_tool_search_call" where
  "input_tool_search_of_output x =
     (if ts_status x \<noteq> SearchCompleted then Inl (ts_status x)
      else Inr \<lparr>its_id = ts_id x, its_call_id = ts_call_id x, its_execution = ts_execution x,
                its_arguments = ts_arguments x, its_status = SearchCompleted\<rparr>)"

fun to_input_item ::
  "(json \<Rightarrow> string) \<Rightarrow> (shell_call_action \<Rightarrow> string) \<Rightarrow> output_item \<Rightarrow> input_item option" where
  "to_input_item to_text action_text (OutMessage m) = Some (InMessage (input_message_of_output m))"
| "to_input_item to_text action_text (OutReasoning r) = Some (InReasoning r)"
| "to_input_item to_text action_text (OutFunctionCall x) = Some (InFunctionCall (input_call_of_function x))"
| "to_input_item to_text action_text (OutToolSearchCall x) =
     result_map InToolSearchCall (input_tool_search_of_output x)"
| "to_input_item to_text action_text (OutCustomToolCall x) =
     Some (InFunctionCall (input_call_of_custom to_text x))"
| "to_input_item to_text action_text (OutShellCall x) =
     Some (InFunctionCall (input_call_of_shell action_text x))"
| "to_input_item to_text action_text (OutMcpListTools x) = Some (InMcpListTools x)"
| "to_input_item to_text action_text (OutCompaction x) = Some (InCompaction x)"
| "to_input_item to_text action_text (OutWebSearchCall _) = None"
| "to_input_item to_text action_text (OutMcpCall _) = None"
| "to_input_item to_text action_text OutUnknown = None"

section \<open>Windows\<close>

fun is_compaction :: "input_item \<Rightarrow> bool" where
  "is_compaction (InCompaction _) = True"
| "is_compaction _ = False"

fun is_mcp_list_tools :: "input_item \<Rightarrow> bool" where
  "is_mcp_list_tools (InMcpListTools _) = True"
| "is_mcp_list_tools _ = False"

fun is_compaction_trigger :: "input_item \<Rightarrow> bool" where
  "is_compaction_trigger InCompactionTrigger = True"
| "is_compaction_trigger _ = False"

definition is_model_visible :: "input_item \<Rightarrow> bool" where
  "is_model_visible x \<longleftrightarrow> \<not> is_mcp_list_tools x \<and> \<not> is_compaction_trigger x"

fun is_completed_user_message :: "input_item \<Rightarrow> bool" where
  "is_completed_user_message (InMessage m) \<longleftrightarrow>
     im_role m = ''user'' \<and> im_id m \<noteq> None \<and> im_status m = Some MessageCompleted"
| "is_completed_user_message _ \<longleftrightarrow> False"

fun rposition :: "('a \<Rightarrow> bool) \<Rightarrow> 'a list \<Rightarrow> nat option" where
  "rposition p [] = None"
| "rposition p (x # xs) =
     (case rposition p xs of Some i \<Rightarrow> Some (Suc i) | None \<Rightarrow> if p x then Some 0 else None)"

record compaction_window =
  cw_latest_index :: usize
  cw_retained_start :: usize

definition retains_user_item :: "compaction_window \<Rightarrow> usize \<Rightarrow> input_item \<Rightarrow> bool" where
  "retains_user_item w index item \<longleftrightarrow>
     cw_retained_start w \<le> index \<and> index < cw_latest_index w \<and> is_completed_user_message item"

definition latest_compaction_window :: "input_item list \<Rightarrow> compaction_window option" where
  "latest_compaction_window items =
     Option.bind (rposition is_compaction items) (\<lambda>latest.
       Some \<lparr>cw_latest_index = latest,
             cw_retained_start =
               (case rposition is_compaction (take latest items) of None \<Rightarrow> 0 | Some i \<Rightarrow> i + 1)\<rparr>)"

text \<open>\<open>enumerate().filter(..)\<close>, counting from \<open>n\<close>.\<close>

fun filter_from :: "(nat \<Rightarrow> 'a \<Rightarrow> bool) \<Rightarrow> nat \<Rightarrow> 'a list \<Rightarrow> 'a list" where
  "filter_from p n [] = []"
| "filter_from p n (x # xs) = (if p n x then x # filter_from p (Suc n) xs else filter_from p (Suc n) xs)"

definition filter_indexed :: "(nat \<Rightarrow> 'a \<Rightarrow> bool) \<Rightarrow> 'a list \<Rightarrow> 'a list" where
  "filter_indexed p xs = filter_from p 0 xs"

definition input_items :: "responses_input \<Rightarrow> input_item list" where
  "input_items inp = (case inp of TextInput _ \<Rightarrow> [] | ItemsInput items \<Rightarrow> items)"

definition in_window :: "compaction_window option \<Rightarrow> usize \<Rightarrow> input_item \<Rightarrow> bool" where
  "in_window window index item \<longleftrightarrow>
     (case window of None \<Rightarrow> True | Some w \<Rightarrow> cw_latest_index w \<le> index \<or> retains_user_item w index item)"

definition model_items :: "responses_input \<Rightarrow> input_item list" where
  "model_items inp =
     (let items = input_items inp; window = latest_compaction_window items
      in filter_indexed (\<lambda>index item. is_model_visible item \<and> in_window window index item) items)"

fun summary_message :: "input_item \<Rightarrow> input_item" where
  "summary_message (InCompaction x) =
     InMessage \<lparr>im_id = None, im_role = ''assistant'', im_status = None,
                im_content = PartsContent [OutputText (ci_encrypted_content x)]\<rparr>"
| "summary_message other = other"

definition contains_compaction :: "responses_input \<Rightarrow> bool" where
  "contains_compaction inp = list_ex is_compaction (input_items inp)"

definition has_compaction_trigger :: "responses_input \<Rightarrow> bool" where
  "has_compaction_trigger inp = list_ex is_compaction_trigger (input_items inp)"

definition model_input :: "responses_input \<Rightarrow> responses_input" where
  "model_input inp =
     (case inp of
        TextInput t \<Rightarrow> TextInput t
      | ItemsInput items \<Rightarrow>
          (case latest_compaction_window items of
             None \<Rightarrow>
               if list_ex (\<lambda>x. \<not> is_model_visible x) items then ItemsInput (model_items inp) else inp
           | Some _ \<Rightarrow> ItemsInput (map summary_message (model_items inp))))"

definition canonical_session_history :: "input_item list \<Rightarrow> input_item list" where
  "canonical_session_history history =
     (case latest_compaction_window history of
        None \<Rightarrow> history
      | Some w \<Rightarrow>
          filter_indexed (\<lambda>index item.
            cw_latest_index w \<le> index \<or> retains_user_item w index item \<or> is_mcp_list_tools item) history)"

section \<open>The window as a decomposition\<close>

lemma rposition_None_iff: "rposition p xs = None \<longleftrightarrow> \<not> list_ex p xs"
  by (induction xs) (auto split: option.splits)

lemma rposition_split:
  "rposition p xs = Some i \<Longrightarrow> \<exists>a x b. xs = a @ x # b \<and> length a = i \<and> p x \<and> \<not> list_ex p b"
proof (induction xs arbitrary: i)
  case (Cons y ys)
  show ?case
  proof (cases "rposition p ys")
    case None
    with Cons.prems have "i = 0" "p y" by (auto split: if_splits)
    with None show ?thesis by (auto simp: rposition_None_iff intro!: exI [of _ "[]"])
  next
    case (Some k)
    with Cons.IH [OF Some] Cons.prems obtain a x b where
      "ys = a @ x # b \<and> length a = k \<and> p x \<and> \<not> list_ex p b" "i = Suc k" by auto
    then show ?thesis by (intro exI [of _ "y # a"]) auto
  qed
qed simp

lemma rposition_append [simp]:
  "\<not> list_ex p b \<Longrightarrow> p x \<Longrightarrow> rposition p (a @ x # b) = Some (length a)"
  by (induction a) (auto simp: rposition_None_iff [THEN iffD2])

text \<open>
  \<open>windowed pre mid c post\<close>: the latest compaction \<open>c\<close>, what follows it, what lies between it and
  the compaction before, and everything up to that one.
\<close>

definition windowed :: "input_item list \<Rightarrow> input_item list \<Rightarrow> input_item \<Rightarrow> input_item list \<Rightarrow> bool" where
  "windowed pre mid c post \<longleftrightarrow>
     is_compaction c \<and> \<not> list_ex is_compaction post \<and> \<not> list_ex is_compaction mid
     \<and> (pre = [] \<or> is_compaction (last pre))"

lemma latest_window_of_windowed:
  assumes "windowed pre mid c post"
  shows "latest_compaction_window (pre @ mid @ c # post) =
    Some \<lparr>cw_latest_index = length pre + length mid, cw_retained_start = length pre\<rparr>"
proof -
  have "rposition is_compaction (pre @ mid @ c # post) = Some (length (pre @ mid))"
    using assms rposition_append [of is_compaction post c "pre @ mid"] by (simp add: windowed_def)
  moreover have "(case rposition is_compaction (pre @ mid) of None \<Rightarrow> 0 | Some i \<Rightarrow> i + 1) = length pre"
  proof (cases "pre = []")
    case True
    with assms show ?thesis by (simp add: windowed_def rposition_None_iff [THEN iffD2])
  next
    case False
    then have pre: "pre @ mid = butlast pre @ last pre # mid" by simp
    have "rposition is_compaction (pre @ mid) = Some (length (butlast pre))"
      unfolding pre by (rule rposition_append) (use assms False in \<open>simp_all add: windowed_def\<close>)
    with False show ?thesis by simp
  qed
  ultimately show ?thesis by (simp add: latest_compaction_window_def)
qed

lemma latest_window_cases:
  obtains "latest_compaction_window items = None" "\<not> list_ex is_compaction items"
  | pre mid c post where "items = pre @ mid @ c # post" "windowed pre mid c post"
proof (cases "rposition is_compaction items")
  case None
  then have "latest_compaction_window items = None" by (simp add: latest_compaction_window_def)
  with None that(1) show ?thesis by (simp add: rposition_None_iff)
next
  case (Some i)
  from rposition_split [OF Some] obtain a c post
    where items: "items = a @ c # post" and c: "is_compaction c" "\<not> list_ex is_compaction post" by blast
  show ?thesis
  proof (cases "rposition is_compaction a")
    case None
    with items c that(2) [of "[]" a c post] show ?thesis
      by (simp add: windowed_def rposition_None_iff)
  next
    case (Some k)
    from rposition_split [OF Some] obtain p d mid
      where "a = p @ d # mid" "is_compaction d" "\<not> list_ex is_compaction mid" by blast
    with items c that(2) [of "p @ [d]" mid c post] show ?thesis by (simp add: windowed_def)
  qed
qed

lemma filter_from_append:
  "filter_from p n (xs @ ys) = filter_from p n xs @ filter_from p (n + length xs) ys"
  by (induction xs arbitrary: n) auto

lemma filter_from_const:
  "(\<And>i x. n \<le> i \<Longrightarrow> i < n + length xs \<Longrightarrow> x \<in> set xs \<Longrightarrow> p i x = q x) \<Longrightarrow> filter_from p n xs = filter q xs"
proof (induction xs arbitrary: n)
  case (Cons y ys)
  have "filter_from p (Suc n) ys = filter q ys"
    by (rule Cons.IH) (use Cons.prems in auto)
  moreover have "p n y = q y" using Cons.prems by auto
  ultimately show ?case by simp
qed simp

lemma filter_windowed:
  assumes "\<And>i x. i < length pre \<Longrightarrow> x \<in> set pre \<Longrightarrow> p i x = q1 x"
    and "\<And>i x. length pre \<le> i \<Longrightarrow> i < length pre + length mid \<Longrightarrow> x \<in> set mid \<Longrightarrow> p i x = q2 x"
    and "\<And>i x. length pre + length mid \<le> i \<Longrightarrow> p i x = q3 x"
  shows "filter_indexed p (pre @ mid @ c # post) = filter q1 pre @ filter q2 mid @ filter q3 (c # post)"
proof -
  have "filter_from p 0 pre = filter q1 pre" by (rule filter_from_const) (simp add: assms(1))
  moreover have "filter_from p (length pre) mid = filter q2 mid"
    by (rule filter_from_const) (simp add: assms(2))
  moreover have "filter_from p (length pre + length mid) (c # post) = filter q3 (c # post)"
    by (rule filter_from_const) (simp add: assms(3))
  ultimately show ?thesis by (simp only: filter_indexed_def filter_from_append add_0)
qed

lemma compaction_item:
  "is_compaction c \<Longrightarrow> is_model_visible c \<and> \<not> is_mcp_list_tools c \<and> \<not> is_completed_user_message c"
  by (cases c) (simp_all add: is_model_visible_def)

lemma user_message_item:
  "is_completed_user_message m \<Longrightarrow> is_model_visible m \<and> \<not> is_mcp_list_tools m \<and> \<not> is_compaction m"
  by (cases m) (simp_all add: is_model_visible_def)

lemma mcp_item:
  "is_mcp_list_tools t \<Longrightarrow> \<not> is_model_visible t \<and> \<not> is_compaction t \<and> \<not> is_completed_user_message t"
  by (cases t) (simp_all add: is_model_visible_def)

lemma filter_filter_conv: "filter p (filter q xs) = filter (\<lambda>x. q x \<and> p x) xs"
  by (induction xs) auto

lemma filter_only: "(\<And>x. q x \<Longrightarrow> \<not> p x) \<Longrightarrow>
    filter (\<lambda>x. q x \<and> p x) xs = [] \<and> filter (\<lambda>x. (p x \<or> q x) \<and> p x) xs = filter p xs"
  by (induction xs) auto

lemma model_items_windowed:
  assumes "windowed pre mid c post"
  shows "model_items (ItemsInput (pre @ mid @ c # post)) =
    filter is_completed_user_message mid @ c # filter is_model_visible post"
proof -
  let ?w = "\<lparr>cw_latest_index = length pre + length mid, cw_retained_start = length pre\<rparr>"
  have "filter_indexed (\<lambda>i x. is_model_visible x \<and> in_window (Some ?w) i x) (pre @ mid @ c # post) =
      filter (\<lambda>_. False) pre @ filter is_completed_user_message mid @ filter is_model_visible (c # post)"
    by (rule filter_windowed) (auto simp: in_window_def retains_user_item_def dest: user_message_item)
  moreover have "is_model_visible c" using assms by (simp add: windowed_def compaction_item)
  ultimately show ?thesis
    by (simp add: model_items_def Let_def input_items_def latest_window_of_windowed [OF assms])
qed

lemma canonical_windowed:
  assumes "windowed pre mid c post"
  shows "canonical_session_history (pre @ mid @ c # post) =
    filter is_mcp_list_tools pre
    @ filter (\<lambda>x. is_completed_user_message x \<or> is_mcp_list_tools x) mid @ c # post"
proof -
  let ?w = "\<lparr>cw_latest_index = length pre + length mid, cw_retained_start = length pre\<rparr>"
  have "filter_indexed (\<lambda>i x. cw_latest_index ?w \<le> i \<or> retains_user_item ?w i x \<or> is_mcp_list_tools x)
        (pre @ mid @ c # post) =
      filter is_mcp_list_tools pre
      @ filter (\<lambda>x. is_completed_user_message x \<or> is_mcp_list_tools x) mid @ filter (\<lambda>_. True) (c # post)"
    by (rule filter_windowed) (auto simp: retains_user_item_def)
  then show ?thesis
    by (simp add: canonical_session_history_def latest_window_of_windowed [OF assms])
qed

lemma canonical_is_windowed:
  assumes "windowed pre mid c post"
  shows "windowed [] (filter is_mcp_list_tools pre
    @ filter (\<lambda>x. is_completed_user_message x \<or> is_mcp_list_tools x) mid) c post"
  using assms by (auto simp: windowed_def list_ex_iff dest: mcp_item user_message_item)

lemma model_items_no_window:
  "latest_compaction_window items = None \<Longrightarrow> model_items (ItemsInput items) = filter is_model_visible items"
  by (simp add: model_items_def Let_def filter_indexed_def input_items_def in_window_def
      filter_from_const [where p = "\<lambda>_. is_model_visible"])

lemma summary_message_visible [simp]:
  "is_model_visible x \<Longrightarrow> is_model_visible (summary_message x)" "\<not> is_compaction (summary_message x)"
  by (cases x; simp add: is_model_visible_def)+

lemma canonical_idem: "canonical_session_history (canonical_session_history h) = canonical_session_history h"
proof (cases rule: latest_window_cases [of h])
  case 1
  then show ?thesis by (simp add: canonical_session_history_def)
next
  case (2 pre mid c post)
  have absorb: "\<And>a b. (a \<and> (b \<or> a)) = a" by auto
  show ?thesis
    using canonical_windowed [OF canonical_is_windowed [OF 2(2)]] 2 by (simp add: canonical_windowed absorb)
qed

lemma canonical_no_window: "\<not> list_ex is_compaction xs \<Longrightarrow> canonical_session_history xs = xs"
  by (simp add: canonical_session_history_def latest_compaction_window_def rposition_None_iff [THEN iffD2])

text \<open>Canonicalizing the stored part first does not change what the whole history canonicalizes to.\<close>

lemma canonical_append: "canonical_session_history (canonical_session_history xs @ ys) = canonical_session_history (xs @ ys)"
proof (cases rule: latest_window_cases [of xs])
  case 1
  then show ?thesis by (simp add: canonical_no_window)
next
  case (2 pre mid c post)
  let ?kept = "filter is_mcp_list_tools pre
    @ filter (\<lambda>x. is_completed_user_message x \<or> is_mcp_list_tools x) mid"
  note w = 2(2)
  have xs: "canonical_session_history xs = ?kept @ c # post" using 2 by (simp add: canonical_windowed)
  have c: "is_compaction c" "\<not> is_mcp_list_tools c" using w compaction_item by (auto simp: windowed_def)
  have absorb: "\<And>a b. (a \<and> (b \<or> a)) = a" "\<And>a b. ((b \<or> a) \<and> a) = a" by auto
  have "canonical_session_history ((?kept @ c # post) @ ys) = canonical_session_history (xs @ ys)"
  proof (cases rule: latest_window_cases [of ys])
    case 1
    have "windowed pre mid c (post @ ys)" "windowed [] ?kept c (post @ ys)"
      using w canonical_is_windowed [OF w] 1(2) by (auto simp: windowed_def)
    from canonical_windowed [OF this(1)] canonical_windowed [OF this(2)] show ?thesis
      by (simp add: 2(1) absorb)
  next
    case ys: (2 pre' mid' d post')
    show ?thesis
    proof (cases "pre' = []")
      case True
      have "windowed (pre @ mid @ [c]) (post @ mid') d post'" "windowed (?kept @ [c]) (post @ mid') d post'"
        using w ys(2) True by (auto simp: windowed_def)
      from canonical_windowed [OF this(1)] canonical_windowed [OF this(2)] show ?thesis
        using True c by (simp add: 2(1) ys(1) absorb filter_filter_conv)
    next
      case False
      have "windowed (xs @ pre') mid' d post'" "windowed ((?kept @ c # post) @ pre') mid' d post'"
        using ys(2) False by (auto simp: windowed_def)
      from canonical_windowed [OF this(1)] canonical_windowed [OF this(2)] show ?thesis
        using c by (simp add: 2(1) ys(1) absorb filter_filter_conv)
    qed
  qed
  then show ?thesis by (simp only: xs)
qed

lemma model_input_canonical: "model_input (ItemsInput (canonical_session_history h)) = model_input (ItemsInput h)"
proof (cases rule: latest_window_cases [of h])
  case 1
  then show ?thesis by (simp add: canonical_session_history_def)
next
  case (2 pre mid c post)
  let ?kept = "filter is_mcp_list_tools pre
    @ filter (\<lambda>x. is_completed_user_message x \<or> is_mcp_list_tools x) mid"
  note w = 2(2) and w' = canonical_is_windowed [OF 2(2)]
  have canon: "canonical_session_history h = [] @ ?kept @ c # post"
    using 2 by (simp add: canonical_windowed)
  have user: "filter is_completed_user_message ?kept = filter is_completed_user_message mid"
    using mcp_item by (simp add: filter_filter_conv filter_only)
  have "model_items (ItemsInput (canonical_session_history h)) = model_items (ItemsInput h)"
    unfolding canon model_items_windowed [OF w'] using 2 by (simp only: user model_items_windowed)
  moreover have "latest_compaction_window h \<noteq> None" "latest_compaction_window (canonical_session_history h) \<noteq> None"
    using latest_window_of_windowed [OF w] latest_window_of_windowed [OF w'] 2(1) canon by simp_all
  ultimately show ?thesis by (auto simp: model_input_def)
qed

text \<open>
  What a session retains is enough and is never more than the model may see. Restoring
  only the canonical history of a conversation gives the model exactly the input it would
  have got from the full history; canonicalization is idempotent and keeps every record of
  listed MCP tools; and the model's input never holds a compaction item, a compaction
  trigger or an MCP list record.
\<close>

theorem canonical_history_preserves_model_input:
  "model_input (ItemsInput (canonical_session_history h)) = model_input (ItemsInput h)
   \<and> canonical_session_history (canonical_session_history h) = canonical_session_history h
   \<and> filter is_mcp_list_tools (canonical_session_history h) = filter is_mcp_list_tools h
   \<and> list_all (\<lambda>x. is_model_visible x \<and> \<not> is_compaction x) (input_items (model_input (ItemsInput h)))"
proof (cases rule: latest_window_cases [of h])
  case 1
  then have "canonical_session_history h = h" by (simp add: canonical_session_history_def)
  moreover have "list_all (\<lambda>x. is_model_visible x \<and> \<not> is_compaction x) (input_items (model_input (ItemsInput h)))"
    using 1 by (auto simp: model_input_def model_items_no_window input_items_def list_all_iff list_ex_iff)
  ultimately show ?thesis by simp
next
  case (2 pre mid c post)
  let ?kept = "filter is_mcp_list_tools pre
    @ filter (\<lambda>x. is_completed_user_message x \<or> is_mcp_list_tools x) mid"
  note w = 2(2)
  have canon: "canonical_session_history h = [] @ ?kept @ c # post"
    using 2 by (simp add: canonical_windowed)
  note model = model_input_canonical [of h]
  note idem = canonical_idem [of h]
  have mcp: "filter is_mcp_list_tools (canonical_session_history h) = filter is_mcp_list_tools h"
    using canon 2 by (auto intro!: filter_cong)
  have "list_all (\<lambda>x. is_model_visible x \<and> \<not> is_compaction x) (input_items (model_input (ItemsInput h)))"
    using latest_window_of_windowed [OF w] w
    by (auto simp: model_input_def 2(1) model_items_windowed input_items_def list_all_iff windowed_def
        dest: compaction_item user_message_item)
  with model idem mcp show ?thesis by simp
qed

end
