(* ===== verification/History.thy ===== *)
theory History
  imports Compaction_Window
begin

text \<open>
  How history and new input become inference input: \<open>Vec<InputItem>::from(ResponsesInput)\<close> of
  \<open>types/request_response.rs\<close>, \<open>InOutItem::into_input_items\<close> of \<open>storage/types/item.rs\<close>, and the
  input checks and the reasoning preparation of \<open>executor/rehydrate.rs\<close>. The JSON printers the
  conversions call are \<open>serde_json\<close>'s and are the record \<open>printers\<close>.
\<close>

section \<open>Lowering tool items\<close>

record printers =
  pr_json :: "json \<Rightarrow> string"
  pr_action :: "shell_call_action \<Rightarrow> string"
  pr_shell_output :: "shell_call_output_content list \<Rightarrow> string"

definition result_of_shell_output :: "printers \<Rightarrow> shell_call_output_message \<Rightarrow> function_tool_result_message" where
  "result_of_shell_output p x =
     \<lparr>fr_call_id = som_call_id x, fr_output = OutputString (pr_shell_output p (som_output x))\<rparr>"

definition result_of_custom_output :: "custom_tool_call_output_message \<Rightarrow> function_tool_result_message" where
  "result_of_custom_output x = \<lparr>fr_call_id = cto_call_id x, fr_output = cto_output x\<rparr>"

fun is_unknown :: "input_item \<Rightarrow> bool" where
  "is_unknown InUnknown = True"
| "is_unknown _ = False"

fun lower_item :: "printers \<Rightarrow> input_item \<Rightarrow> input_item option" where
  "lower_item p InUnknown = None"
| "lower_item p (InShellCall x) = Some (InFunctionCall (input_call_of_shell (pr_action p) x))"
| "lower_item p (InShellCallOutput x) = Some (InFunctionCallOutput (result_of_shell_output p x))"
| "lower_item p (InCustomToolCall x) = Some (InFunctionCall (input_call_of_custom (pr_json p) x))"
| "lower_item p (InCustomToolCallOutput x) = Some (InFunctionCallOutput (result_of_custom_output x))"
| "lower_item p x = Some x"

definition items_of_input :: "printers \<Rightarrow> responses_input \<Rightarrow> input_item list" where
  "items_of_input p inp =
     (case inp of
        TextInput t \<Rightarrow>
          [InMessage \<lparr>im_id = None, im_role = ''user'', im_status = None, im_content = TextContent t\<rparr>]
      | ItemsInput items \<Rightarrow> List.map_filter (lower_item p) items)"

datatype in_out_item = StoredInput input_item | StoredOutput output_item

fun stored_to_input :: "printers \<Rightarrow> in_out_item \<Rightarrow> input_item option" where
  "stored_to_input p (StoredInput x) = (if is_unknown x then None else Some x)"
| "stored_to_input p (StoredOutput x) = to_input_item (pr_json p) (pr_action p) x"

definition into_input_items :: "printers \<Rightarrow> in_out_item list \<Rightarrow> input_item list" where
  "into_input_items p history =
     items_of_input p (ItemsInput (List.map_filter (stored_to_input p) history))"

definition new_input_items :: "printers \<Rightarrow> responses_input \<Rightarrow> input_item list" where
  "new_input_items p inp =
     (case inp of
        ItemsInput items \<Rightarrow> filter (\<lambda>x. \<not> is_unknown x) items
      | TextInput _ \<Rightarrow> items_of_input p inp)"

section \<open>Input checks\<close>

fun message_has_file :: "input_item \<Rightarrow> bool" where
  "message_has_file (InMessage m) =
     (case im_content m of
        PartsContent parts \<Rightarrow> list_ex (\<lambda>x. case x of InputFile _ \<Rightarrow> True | _ \<Rightarrow> False) parts
      | TextContent _ \<Rightarrow> False)"
| "message_has_file _ = False"

definition validate_message_files :: "responses_input \<Rightarrow> executor_error + unit" where
  "validate_message_files inp =
     (if list_ex message_has_file (input_items inp)
      then Inl (InvalidRequest (''input_file content in messages is not supported by the typed Responses executor; ''
             @ ''provide input_text or input_image content instead''))
      else Inr ())"

definition has_plaintext_reasoning :: "reasoning_output \<Rightarrow> bool" where
  "has_plaintext_reasoning r = list_ex (\<lambda>c. rtc_text c \<noteq> '''') (ro_content r)"

definition has_opaque_reasoning_state :: "reasoning_output \<Rightarrow> bool" where
  "has_opaque_reasoning_state r =
     (case ro_encrypted_content r of None \<Rightarrow> False | Some v \<Rightarrow> v \<noteq> JNull)"

fun is_opaque_only :: "input_item \<Rightarrow> bool" where
  "is_opaque_only (InReasoning r) = (has_opaque_reasoning_state r \<and> \<not> has_plaintext_reasoning r)"
| "is_opaque_only _ = False"

definition validate_reasoning_for_vllm :: "responses_input \<Rightarrow> executor_error + unit" where
  "validate_reasoning_for_vllm inp =
     (if list_ex is_opaque_only (input_items inp)
      then Inl (InvalidRequest (''reasoning item contains encrypted state without plaintext reasoning content ''
             @ ''and cannot be replayed to vLLM''))
      else Inr ())"

fun join_lines :: "string list \<Rightarrow> string" where
  "join_lines [] = ''''"
| "join_lines [x] = x"
| "join_lines (x # y # ys) = x @ [CHR 0x0A] @ join_lines (y # ys)"

fun prepare_item :: "input_item \<Rightarrow> input_item option" where
  "prepare_item (InReasoning r) =
     (if has_plaintext_reasoning r
      then Some (InReasoning (r\<lparr>ro_content := [new_reasoning_text (join_lines (map rtc_text (ro_content r)))],
                               ro_summary := [], ro_encrypted_content := None\<rparr>))
      else None)"
| "prepare_item x = Some x"

definition prepare_reasoning_for_vllm :: "responses_input \<Rightarrow> executor_error + responses_input" where
  "prepare_reasoning_for_vllm inp =
     and_then (validate_reasoning_for_vllm inp) (\<lambda>_.
       Inr (case inp of
              TextInput t \<Rightarrow> TextInput t
            | ItemsInput items \<Rightarrow> ItemsInput (List.map_filter prepare_item items)))"

section \<open>Lowering keeps what the protocol and the window look at\<close>

lemma map_filter_append [simp]:
  "List.map_filter f (xs @ ys) = List.map_filter f xs @ List.map_filter f ys"
  by (induction xs) (auto simp: List.map_filter_simps split: option.split)

lemma map_filter_Nil [simp]: "List.map_filter f [] = []"
  by (simp add: List.map_filter_simps)

lemma map_filter_Cons [simp]:
  "List.map_filter f (x # xs) = (case f x of None \<Rightarrow> List.map_filter f xs | Some y \<Rightarrow> y # List.map_filter f xs)"
  by (simp add: List.map_filter_simps)

lemma map_filter_some_id: "(\<And>x. x \<in> set xs \<Longrightarrow> f x = Some x) \<Longrightarrow> List.map_filter f xs = xs"
  by (induction xs) auto

lemma set_map_filter: "y \<in> set (List.map_filter f xs) \<longleftrightarrow> (\<exists>x \<in> set xs. f x = Some y)"
  by (induction xs) (auto split: option.split)

lemma filter_map_filter:
  assumes "\<And>x y. f x = Some y \<Longrightarrow> q y = q x" "\<And>x. f x = None \<Longrightarrow> \<not> q x"
  shows "filter q (List.map_filter f xs) = List.map_filter f (filter q xs)"
  by (induction xs) (use assms in \<open>auto split: option.split\<close>)

lemma lower_item_kind:
  assumes "lower_item p x = Some y"
  shows "is_compaction y = is_compaction x" "is_mcp_list_tools y = is_mcp_list_tools x"
    "is_completed_user_message y = is_completed_user_message x" "lower_item p y = Some y"
    "map_option fst (call_of y) = map_option fst (call_of x)"
    "map_option fst (output_of y) = map_option fst (output_of x)"
    "\<And>c. call_of y = Some c \<Longrightarrow> snd c = KindFunction" "\<And>c. output_of y = Some c \<Longrightarrow> snd c = KindFunction"
  using assms by (cases x; auto simp: input_call_of_shell_def input_call_of_custom_def
      result_of_shell_output_def result_of_custom_output_def)+

lemma lower_item_None: "lower_item p x = None \<longleftrightarrow> x = InUnknown"
  by (cases x) auto

definition lower :: "printers \<Rightarrow> input_item list \<Rightarrow> input_item list" where
  "lower p items = items_of_input p (ItemsInput items)"

lemma lower_eq: "lower p items = List.map_filter (lower_item p) items"
  by (simp add: lower_def items_of_input_def)

lemma lower_lower: "lower p (lower p items) = lower p items"
  unfolding lower_eq by (rule map_filter_some_id) (auto simp: set_map_filter dest: lower_item_kind(4))

lemma lower_filter:
  assumes "q = is_compaction \<or> q = is_mcp_list_tools
     \<or> q = (\<lambda>x. is_completed_user_message x \<or> is_mcp_list_tools x)"
  shows "filter q (lower p xs) = lower p (filter q xs)"
proof -
  have "q y = q x" if "lower_item p x = Some y" for x y
    using assms lower_item_kind(1-3) [OF that] by auto
  moreover have "\<not> q x" if "lower_item p x = None" for x
    using assms that by (auto simp: lower_item_None)
  ultimately show ?thesis unfolding lower_eq by (rule filter_map_filter)
qed

lemma lower_no_compaction: "\<not> list_ex is_compaction xs \<Longrightarrow> \<not> list_ex is_compaction (lower p xs)"
  unfolding list_ex_iff lower_eq by (metis lower_item_kind(1) set_map_filter)

lemma lower_append [simp]: "lower p (xs @ ys) = lower p xs @ lower p ys"
  by (simp add: lower_eq)

lemma lower_compaction: "is_compaction c \<Longrightarrow> lower p (c # xs) = c # lower p xs"
  by (cases c) (simp_all add: lower_eq)

lemma lower_last_compaction:
  assumes "pre = [] \<or> is_compaction (last pre)"
  shows "lower p pre = [] \<or> is_compaction (last (lower p pre))"
proof (cases pre rule: rev_cases)
  case (snoc ys y)
  with assms have "is_compaction y" by simp
  then show ?thesis by (simp add: snoc lower_compaction) (simp add: lower_eq)
qed (simp add: lower_eq)

lemma lower_windowed:
  assumes "windowed pre mid c post"
  shows "windowed (lower p pre) (lower p mid) c (lower p post)"
  using assms by (simp add: windowed_def lower_no_compaction lower_last_compaction)

lemma lower_append_compaction:
  "is_compaction c \<Longrightarrow> lower p (pre @ mid @ c # post) = lower p pre @ lower p mid @ c # lower p post"
  by (simp add: lower_compaction)

lemma canonical_lower: "canonical_session_history (lower p h) = lower p (canonical_session_history h)"
proof (cases rule: latest_window_cases [of h])
  case 1
  then have "\<not> list_ex is_compaction (lower p h)"
    by (simp add: lower_no_compaction)
  then have "latest_compaction_window (lower p h) = None"
    by (simp add: latest_compaction_window_def rposition_None_iff [THEN iffD2])
  with 1 show ?thesis by (simp add: canonical_session_history_def)
next
  case (2 pre mid c post)
  then have c: "is_compaction c" by (simp add: windowed_def)
  have "canonical_session_history h =
      filter is_mcp_list_tools pre
      @ filter (\<lambda>x. is_completed_user_message x \<or> is_mcp_list_tools x) mid @ c # post"
    using 2 by (simp add: canonical_windowed)
  moreover have "lower p h = lower p pre @ lower p mid @ c # lower p post"
    using 2(1) lower_append_compaction [OF c] by simp
  moreover have "windowed (lower p pre) (lower p mid) c (lower p post)"
    by (rule lower_windowed [OF 2(2)])
  ultimately show ?thesis
    by (simp add: canonical_windowed lower_filter lower_compaction [OF c])
qed

lemma lower_snoc: "lower p [x] = (case lower_item p x of None \<Rightarrow> [] | Some y \<Rightarrow> [y])"
  by (simp add: lower_eq split: option.split)

lemma call_ids_lower: "call_ids (lower p h) = call_ids h \<and> output_ids (lower p h) = output_ids h"
proof (induction h rule: rev_induct)
  case Nil
  show ?case by (simp add: lower_eq)
next
  case (snoc x h)
  show ?case
  proof (cases "lower_item p x")
    case None
    with snoc show ?thesis by (simp add: lower_snoc lower_item_None)
  next
    case (Some y)
    with snoc lower_item_kind(5,6) [OF Some] show ?thesis
      by (cases "call_of x"; cases "output_of x"; simp add: lower_snoc; force)
  qed
qed

lemma calls_lower: "calls (lower p h) = map (\<lambda>c. (fst c, KindFunction)) (calls h)"
proof (induction h rule: rev_induct)
  case Nil
  show ?case by (simp add: lower_eq)
next
  case (snoc x h)
  show ?case
  proof (cases "lower_item p x")
    case None
    with snoc show ?thesis by (simp add: lower_snoc lower_item_None)
  next
    case (Some y)
    have "call_of y = map_option (\<lambda>c. (fst c, KindFunction)) (call_of x)"
      using lower_item_kind(5,7) [OF Some] by (cases "call_of x"; cases "call_of y") (auto simp: prod_eq_iff)
    with snoc show ?thesis by (cases "call_of x") (auto simp: lower_snoc Some)
  qed
qed

lemma call_protocol_lower: "call_protocol h \<Longrightarrow> call_protocol (lower p h)"
proof (induction h rule: rev_induct)
  case Nil
  show ?case by (simp add: lower_eq)
next
  case (snoc x h)
  show ?case
  proof (cases "lower_item p x")
    case None
    with snoc show ?thesis by (simp add: lower_snoc call_protocol_snoc)
  next
    case (Some y)
    have "i \<noteq> '''' \<and> i \<notin> set (call_ids h)" if "call_of y = Some (i, k)" for i k
      using snoc.prems that lower_item_kind(5) [OF Some] by (cases "call_of x") (auto simp: call_protocol_snoc)
    moreover have "(i, k) \<in> set (calls (lower p h)) \<and> i \<notin> set (output_ids h)" if out: "output_of y = Some (i, k)" for i k
    proof -
      obtain k' where "output_of x = Some (i, k')"
        using out lower_item_kind(6) [OF Some] by (cases "output_of x") auto
      with snoc.prems have "(i, k') \<in> set (calls h)" "i \<notin> set (output_ids h)" by (auto simp: call_protocol_snoc)
      moreover have "k = KindFunction" using out lower_item_kind(8) [OF Some] by force
      ultimately show ?thesis by (force simp: calls_lower)
    qed
    ultimately show ?thesis
      using snoc by (simp add: lower_snoc Some call_protocol_snoc call_ids_lower)
  qed
qed

lemma unresolved_lower: "map fst (unresolved (lower p h)) = map fst (unresolved h)"
  by (simp add: unresolved_def calls_lower call_ids_lower filter_map o_def case_prod_beta')

lemma pending_calls_Inr: "call_protocol h \<Longrightarrow> pending_calls h = Inr (map fst (unresolved h))"
  using scan_decides [of h]
  by (simp add: pending_calls_def scanned_def im_keys_def unresolved_def)

lemma pending_calls_InrD: "pending_calls h = Inr ids \<Longrightarrow> call_protocol h"
  using scan_decides [of h] by (auto simp: pending_calls_def scanned_def unresolved_def)

text \<open>
  Lowering tool items for inference loses nothing the executor decides on. It is
  idempotent, it commutes with dropping superseded history, and a history whose calls are in
  order before lowering is in order after it, with the same calls left open.
\<close>

theorem lowering_preserves_history:
  "items_of_input p (ItemsInput (items_of_input p inp)) = items_of_input p inp
   \<and> canonical_session_history (items_of_input p (ItemsInput h))
       = items_of_input p (ItemsInput (canonical_session_history h))
   \<and> (case pending_calls h of Inr ids \<Rightarrow> pending_calls (items_of_input p (ItemsInput h)) = Inr ids | Inl _ \<Rightarrow> True)"
proof (intro conjI)
  show "items_of_input p (ItemsInput (items_of_input p inp)) = items_of_input p inp"
    using lower_lower by (cases inp) (simp_all add: lower_def items_of_input_def)
  show "canonical_session_history (items_of_input p (ItemsInput h))
       = items_of_input p (ItemsInput (canonical_session_history h))"
    using canonical_lower by (simp add: lower_def)
  show "case pending_calls h of Inr ids \<Rightarrow> pending_calls (items_of_input p (ItemsInput h)) = Inr ids | Inl _ \<Rightarrow> True"
  proof (cases "pending_calls h")
    case (Inr ids)
    then have h: "call_protocol h" by (rule pending_calls_InrD)
    with Inr have "ids = map fst (unresolved h)" by (simp add: pending_calls_Inr)
    with h Inr show ?thesis
      by (simp add: lower_def [symmetric] pending_calls_Inr call_protocol_lower unresolved_lower)
  qed simp
qed

section \<open>Reasoning that can be replayed\<close>

lemma join_lines_empty: "join_lines xs = '''' \<longleftrightarrow> xs = [] \<or> xs = ['''']"
  by (induction xs rule: join_lines.induct) auto

lemma has_plaintext_join: "has_plaintext_reasoning r \<Longrightarrow> join_lines (map rtc_text (ro_content r)) \<noteq> ''''"
  by (auto simp: has_plaintext_reasoning_def join_lines_empty list_ex_iff map_eq_Cons_conv)

text \<open>The reasoning items that vLLM can replay: one nonempty text and no provider state.\<close>

fun replayable :: "input_item \<Rightarrow> bool" where
  "replayable (InReasoning r) \<longleftrightarrow>
     (\<exists>t. t \<noteq> '''' \<and> ro_content r = [new_reasoning_text t]) \<and> ro_summary r = [] \<and> ro_encrypted_content r = None"
| "replayable _ \<longleftrightarrow> True"

lemma prepare_item_replayable: "prepare_item x = Some y \<Longrightarrow> replayable y \<and> prepare_item y = Some y \<and> \<not> is_opaque_only y"
proof (cases x)
  case (InReasoning r)
  assume "prepare_item x = Some y"
  with InReasoning have r: "has_plaintext_reasoning r"
    and y: "y = InReasoning (r\<lparr>ro_content := [new_reasoning_text (join_lines (map rtc_text (ro_content r)))],
              ro_summary := [], ro_encrypted_content := None\<rparr>)"
    by (auto split: if_splits)
  with has_plaintext_join [OF r] show ?thesis
    by (auto simp: has_plaintext_reasoning_def new_reasoning_text_def has_opaque_reasoning_state_def)
qed auto

fun is_reasoning :: "input_item \<Rightarrow> bool" where
  "is_reasoning (InReasoning _) = True"
| "is_reasoning _ = False"

lemma prepare_item_other: "\<not> is_reasoning x \<Longrightarrow> prepare_item x = Some x"
  by (cases x) auto

lemma prepare_item_reasoning: "prepare_item x = Some y \<Longrightarrow> is_reasoning y = is_reasoning x"
  by (cases x) (auto split: if_splits)

lemma filter_prepare: "filter (\<lambda>x. \<not> is_reasoning x) (List.map_filter prepare_item xs) = filter (\<lambda>x. \<not> is_reasoning x) xs"
proof (induction xs)
  case (Cons x xs)
  then show ?case
    by (cases "is_reasoning x"; cases "prepare_item x")
       (auto simp: prepare_item_other dest: prepare_item_reasoning)
qed simp

text \<open>
  Preparing reasoning for vLLM either rejects the request as invalid, exactly when some
  reasoning item has opaque provider state and no plaintext, or yields input in which every
  reasoning item is one nonempty plaintext part with no summary and no provider state, every
  other item is kept in order, and preparing again changes nothing.
\<close>

theorem prepared_reasoning_is_replayable:
  "(case prepare_reasoning_for_vllm inp of
      Inl e \<Rightarrow> list_ex is_opaque_only (input_items inp) \<and> http_status e = 400
    | Inr out \<Rightarrow> \<not> list_ex is_opaque_only (input_items inp)
        \<and> list_all replayable (input_items out)
        \<and> filter (\<lambda>x. \<not> is_reasoning x) (input_items out) = filter (\<lambda>x. \<not> is_reasoning x) (input_items inp)
        \<and> prepare_reasoning_for_vllm out = Inr out)"
proof (cases inp)
  case (TextInput t)
  then show ?thesis by (simp add: prepare_reasoning_for_vllm_def validate_reasoning_for_vllm_def input_items_def)
next
  case (ItemsInput items)
  let ?out = "List.map_filter prepare_item items"
  have "\<not> list_ex is_opaque_only ?out" "list_all replayable ?out"
    by (auto simp: list_ex_iff list_all_iff set_map_filter dest: prepare_item_replayable)
  moreover have "List.map_filter prepare_item ?out = ?out"
    by (rule map_filter_some_id) (auto simp: set_map_filter dest: prepare_item_replayable)
  ultimately show ?thesis
    using filter_prepare [of items]
    by (auto simp: ItemsInput prepare_reasoning_for_vllm_def validate_reasoning_for_vllm_def input_items_def
        http_status_def)
qed

end
