(* ===== verification/Session.thy ===== *)
theory Session
  imports History
begin

text \<open>
  \<open>executor/session.rs\<close>: response sessions, groups of sessions that share a parent lookup and
  a byte budget, the lease of an active turn, and the checkpoints they retain.

  The shared objects of the source live in one store: an \<open>Arc\<close> of a checkpoint is an index
  of the heap, a session or group is the index of its state, and a checkpoint is freed, with
  its charge refunded, when the last owner drops it. Owners are the cached latest response of a
  session, the pinned parent of a lease, and a prepared value not yet published. A mutex is
  held for the whole of each operation on it, so an operation is one function of the store;
  poisoned locks (a panic while one was held) are outside the model. The number of bytes a
  checkpoint serializes to is fixed by \<open>serde_json\<close>: a parameter gives the sizes of the
  writes it makes and the error it ends with, if any.
\<close>

section \<open>Serialized size\<close>

text \<open>\<open>serialized_size_up_to\<close> of \<open>utils/common.rs\<close>: its counting writer, and the call.\<close>

record size_counter =
  zc_used :: usize
  zc_limit :: usize

definition counter_write :: "size_counter \<Rightarrow> usize \<Rightarrow> unit + size_counter" where
  "counter_write c n =
     (if zc_limit c - zc_used c < n then Inl () else Inr (c\<lparr>zc_used := zc_used c + n\<rparr>))"

type_synonym writes = "usize list \<times> string option"

definition serialized_size_up_to :: "writes \<Rightarrow> usize \<Rightarrow> string + usize option" where
  "serialized_size_up_to w limit =
     (case run_steps counter_write \<lparr>zc_used = 0, zc_limit = limit\<rparr> (fst w) of
        Inl _ \<Rightarrow> Inr None
      | Inr c \<Rightarrow> (case snd w of Some e \<Rightarrow> Inl e | None \<Rightarrow> Inr (Some (zc_used c))))"

section \<open>State\<close>

record response_metadata =
  rm_model :: string
  rm_previous_response_id :: "string option"
  rm_effective_tools :: "responses_tool list option"
  rm_tool_search_loaded_tools :: "responses_tool list option"
  rm_effective_tool_choice :: tool_choice
  rm_effective_instructions :: "string option"

record response_checkpoint =
  ck_response_id :: string
  ck_conversation_id :: "string option"
  ck_history :: "input_item list"
  ck_metadata :: response_metadata
  ck_durable :: bool

type_synonym handle = nat
type_synonym group_id = nat
type_synonym session_id = nat
type_synonym lease_id = nat

record checkpoint_budget =
  bu_used :: usize
  bu_limit :: usize

text \<open>The reservation of a retained checkpoint names its group's budget.\<close>

record retained_checkpoint =
  rt_checkpoint :: response_checkpoint
  rt_reservation :: "(group_id \<times> usize) option"

record session_state =
  se_latest :: "handle option"
  se_active :: bool
  se_closed :: bool
  se_max_items :: usize
  se_max_bytes :: usize
  se_group :: "group_id option"

record session_group =
  gr_closed :: bool
  gr_members :: "session_id list"
  gr_max_sessions :: usize
  gr_max_items :: usize
  gr_max_bytes :: usize

record continuation =
  co_session :: session_id
  co_parent :: "handle option"
  co_history_replaced :: bool
  co_recorded_output_count :: usize

record store =
  st_heap :: "retained_checkpoint option list"
  st_budgets :: "checkpoint_budget list"
  st_groups :: "session_group list"
  st_sessions :: "session_state list"
  st_leases :: "continuation option list"
  st_prepared :: "handle list"

definition empty_store :: store where
  "empty_store = \<lparr>st_heap = [], st_budgets = [], st_groups = [], st_sessions = [],
     st_leases = [], st_prepared = []\<rparr>"

definition set_session :: "session_id \<Rightarrow> session_state \<Rightarrow> store \<Rightarrow> store" where
  "set_session i s w = w\<lparr>st_sessions := (st_sessions w)[i := s]\<rparr>"

definition set_lease :: "lease_id \<Rightarrow> continuation option \<Rightarrow> store \<Rightarrow> store" where
  "set_lease i l w = w\<lparr>st_leases := (st_leases w)[i := l]\<rparr>"

section \<open>Ownership of checkpoints\<close>

definition option_list :: "'a option \<Rightarrow> 'a list" where
  "option_list x = (case x of None \<Rightarrow> [] | Some y \<Rightarrow> [y])"

definition lease_parent :: "continuation option \<Rightarrow> handle option" where
  "lease_parent l = Option.bind l co_parent"

definition owners :: "store \<Rightarrow> handle list" where
  "owners w = st_prepared w @ concat (map (option_list \<circ> se_latest) (st_sessions w))
     @ concat (map (option_list \<circ> lease_parent) (st_leases w))"

definition held :: "store \<Rightarrow> handle \<Rightarrow> bool" where
  "held w h = list_ex ((=) h) (owners w)"

definition response_id_of :: "store \<Rightarrow> handle \<Rightarrow> string" where
  "response_id_of w h = (case st_heap w ! h of None \<Rightarrow> '''' | Some r \<Rightarrow> ck_response_id (rt_checkpoint r))"

text \<open>\<open>fetch_sub\<close> wraps.\<close>

definition refund :: "(group_id \<times> usize) option \<Rightarrow> checkpoint_budget list \<Rightarrow> checkpoint_budget list" where
  "refund r bs =
     (case r of
        None \<Rightarrow> bs
      | Some (g, bytes) \<Rightarrow>
          bs[g := (bs ! g)\<lparr>bu_used := (bu_used (bs ! g) + 2 ^ 64 - bytes) mod 2 ^ 64\<rparr>])"

definition release :: "handle \<Rightarrow> store \<Rightarrow> store" where
  "release h w =
     (if held w h then w
      else
        (case st_heap w ! h of
           None \<Rightarrow> w
         | Some r \<Rightarrow> w\<lparr>st_heap := (st_heap w)[h := None],
                        st_budgets := refund (rt_reservation r) (st_budgets w)\<rparr>))"

definition release_opt :: "handle option \<Rightarrow> store \<Rightarrow> store" where
  "release_opt h w = (case h of None \<Rightarrow> w | Some x \<Rightarrow> release x w)"

definition aggregate_budget_error :: executor_error where
  "aggregate_budget_error = PayloadTooLarge
     (''response continuation exceeds the aggregate retained checkpoint budget; ''
      @ ''release inactive state or replay a compacted input window'')"

definition reserve :: "checkpoint_budget \<Rightarrow> usize \<Rightarrow> executor_error + checkpoint_budget" where
  "reserve b bytes =
     (case filter_option (\<lambda>n. n \<le> bu_limit b) (usize_checked_add (bu_used b) bytes) of
        None \<Rightarrow> Inl aggregate_budget_error
      | Some n \<Rightarrow> Inr (b\<lparr>bu_used := n\<rparr>))"

section \<open>Groups and sessions\<close>

definition new_group :: "usize \<Rightarrow> usize \<Rightarrow> usize \<Rightarrow> usize \<Rightarrow> store \<Rightarrow> store" where
  "new_group max_sessions max_items max_bytes max_retained_bytes w =
     w\<lparr>st_groups := st_groups w @ [\<lparr>gr_closed = False, gr_members = [], gr_max_sessions = max_sessions,
         gr_max_items = max_items, gr_max_bytes = max_bytes\<rparr>],
       st_budgets := st_budgets w @ [\<lparr>bu_used = 0, bu_limit = max_retained_bytes\<rparr>]\<rparr>"

definition add_session :: "usize \<Rightarrow> usize \<Rightarrow> group_id option \<Rightarrow> store \<Rightarrow> store" where
  "add_session max_items max_bytes g w =
     w\<lparr>st_sessions := st_sessions w @ [\<lparr>se_latest = None, se_active = False, se_closed = False,
         se_max_items = max_items, se_max_bytes = max_bytes, se_group = g\<rparr>]\<rparr>"

definition new_session :: "group_id \<Rightarrow> store \<Rightarrow> executor_error + session_id \<times> store" where
  "new_session g w =
     (let group = st_groups w ! g; i = length (st_sessions w)
      in if gr_closed group \<or> gr_max_sessions group \<le> length (gr_members group)
         then Inl (InvalidRequest ''response session group is closed or has reached its session limit'')
         else Inr (i, (add_session (gr_max_items group) (gr_max_bytes group) (Some g) w)
                \<lparr>st_groups := (st_groups w)[g := group\<lparr>gr_members := gr_members group @ [i]\<rparr>]\<rparr>))"

definition close_session :: "session_id \<Rightarrow> store \<Rightarrow> store" where
  "close_session i w =
     (let s = st_sessions w ! i
      in release_opt (se_latest s) (set_session i (s\<lparr>se_closed := True, se_latest := None\<rparr>) w))"

definition drop_group :: "group_id \<Rightarrow> store \<Rightarrow> store" where
  "drop_group g w =
     (let group = st_groups w ! g
      in fold close_session (gr_members group)
           (w\<lparr>st_groups := (st_groups w)[g := group\<lparr>gr_closed := True, gr_members := []\<rparr>]\<rparr>))"

definition discard_cached_response :: "session_id \<Rightarrow> string \<Rightarrow> store \<Rightarrow> store" where
  "discard_cached_response i response_id w =
     (let s = st_sessions w ! i
      in case se_latest s of
           None \<Rightarrow> w
         | Some h \<Rightarrow>
             if response_id_of w h = response_id
             then release h (set_session i (s\<lparr>se_latest := None\<rparr>) w)
             else w)"

definition latest_match :: "store \<Rightarrow> session_state \<Rightarrow> string option \<Rightarrow> handle option" where
  "latest_match w s previous_id =
     filter_option (\<lambda>h. Some (response_id_of w h) = previous_id) (se_latest s)"

fun find_fork :: "store \<Rightarrow> session_id \<Rightarrow> string \<Rightarrow> session_id list \<Rightarrow> handle option" where
  "find_fork w self previous_id [] = None"
| "find_fork w self previous_id (m # ms) =
     (if m = self \<or> se_closed (st_sessions w ! m) then find_fork w self previous_id ms
      else
        (case latest_match w (st_sessions w ! m) (Some previous_id) of
           Some h \<Rightarrow> Some h
         | None \<Rightarrow> find_fork w self previous_id ms))"

definition begin_turn :: "session_id \<Rightarrow> string option \<Rightarrow> store \<Rightarrow> executor_error + lease_id \<times> store" where
  "begin_turn i previous_id w =
     (let s = st_sessions w ! i; group = map_option (\<lambda>g. st_groups w ! g) (se_group s)
      in if (case group of None \<Rightarrow> False | Some gr \<Rightarrow> gr_closed gr)
         then Inl (InvalidRequest ''response session group has closed'')
         else if se_closed s \<or> se_active s
         then Inl (InvalidRequest ''response session is closed or already executing a turn'')
         else
           let own = latest_match w s previous_id;
               parent = (case (own, previous_id, group) of
                           (None, Some pid, Some gr) \<Rightarrow> find_fork w i pid (gr_members gr)
                         | _ \<Rightarrow> own);
               lease = \<lparr>co_session = i, co_parent = parent, co_history_replaced = False,
                         co_recorded_output_count = 0\<rparr>
           in Inr (length (st_leases w),
                (set_session i (s\<lparr>se_active := True\<rparr>) w)\<lparr>st_leases := st_leases w @ [Some lease]\<rparr>))"

section \<open>Turns\<close>

definition mark_history_replaced :: "continuation \<Rightarrow> continuation" where
  "mark_history_replaced l = l\<lparr>co_history_replaced := True\<rparr>"

definition mark_outputs_recorded :: "usize \<Rightarrow> continuation \<Rightarrow> continuation" where
  "mark_outputs_recorded n l = l\<lparr>co_recorded_output_count := n\<rparr>"

fun is_mcp_output :: "output_item \<Rightarrow> bool" where
  "is_mcp_output (OutMcpListTools _) = True"
| "is_mcp_output _ = False"

definition retains_output :: "continuation \<Rightarrow> usize \<Rightarrow> output_item \<Rightarrow> bool" where
  "retains_output l index item \<longleftrightarrow> co_recorded_output_count l \<le> index \<or> is_mcp_output item"

definition history_of :: "store \<Rightarrow> handle option \<Rightarrow> input_item list" where
  "history_of w h =
     (case Option.bind h (\<lambda>x. st_heap w ! x) of None \<Rightarrow> [] | Some r \<Rightarrow> ck_history (rt_checkpoint r))"

definition parent_items :: "store \<Rightarrow> continuation \<Rightarrow> input_item list" where
  "parent_items w l =
     filter (\<lambda>x. \<not> co_history_replaced l \<or> is_mcp_list_tools x) (history_of w (co_parent l))"

definition sanitize_metadata :: "response_metadata \<Rightarrow> response_metadata" where
  "sanitize_metadata m =
     m\<lparr>rm_effective_tools := map_option (map sanitize_for_persistence) (rm_effective_tools m)\<rparr>"

definition retain :: "session_id \<Rightarrow> response_checkpoint \<Rightarrow> usize \<Rightarrow> store \<Rightarrow> executor_error + handle \<times> store" where
  "retain i ck bytes w =
     (let h = length (st_heap w);
          keep = (\<lambda>r w. (h, w\<lparr>st_heap := st_heap w @ [Some \<lparr>rt_checkpoint = ck, rt_reservation = r\<rparr>],
                              st_prepared := st_prepared w @ [h]\<rparr>))
      in case se_group (st_sessions w ! i) of
           None \<Rightarrow> Inr (keep None w)
         | Some g \<Rightarrow>
             and_then (reserve (st_budgets w ! g) bytes) (\<lambda>b.
               Inr (keep (Some (g, bytes)) (w\<lparr>st_budgets := (st_budgets w)[g := b]\<rparr>))))"

definition checkpoint ::
  "printers \<Rightarrow> (response_checkpoint \<Rightarrow> writes) \<Rightarrow> continuation \<Rightarrow> string \<Rightarrow> string option \<Rightarrow> response_metadata
   \<Rightarrow> in_out_item list \<Rightarrow> bool \<Rightarrow> store \<Rightarrow> executor_error + handle \<times> store" where
  "checkpoint p writes l response_id conversation_id metadata new_items durable w =
     (let s = st_sessions w ! co_session l;
          history = parent_items w l @ into_input_items p new_items;
          ck = \<lparr>ck_response_id = response_id, ck_conversation_id = conversation_id,
                 ck_history = canonical_session_history history,
                 ck_metadata = sanitize_metadata metadata, ck_durable = durable\<rparr>;
          size = (if length (ck_history ck) \<le> se_max_items s
                  then serialized_size_up_to (writes ck) (se_max_bytes s) else Inr None)
      in case size of
           Inl e \<Rightarrow> Inl (JsonError e)
         | Inr None \<Rightarrow> Inl (PayloadTooLarge
             (''response continuation exceeds the session checkpoint budget; ''
              @ ''replay a compacted input window''))
         | Inr (Some bytes) \<Rightarrow> retain (co_session l) ck bytes w)"

definition retain_parent ::
  "(response_checkpoint \<Rightarrow> writes) \<Rightarrow> continuation \<Rightarrow> response_checkpoint \<Rightarrow> store
   \<Rightarrow> executor_error + handle \<times> store" where
  "retain_parent writes l ck w =
     (case se_group (st_sessions w ! co_session l) of
        None \<Rightarrow> retain (co_session l) ck 0 w
      | Some g \<Rightarrow>
          (case serialized_size_up_to (writes ck) (bu_limit (st_budgets w ! g)) of
             Inl e \<Rightarrow> Inl (JsonError e)
           | Inr None \<Rightarrow> Inl aggregate_budget_error
           | Inr (Some bytes) \<Rightarrow> retain (co_session l) ck bytes w))"

text \<open>A prepared value that is dropped, and one that becomes the parent of its lease.\<close>

definition drop_prepared :: "handle \<Rightarrow> store \<Rightarrow> store" where
  "drop_prepared h w = release h (w\<lparr>st_prepared := removeAll h (st_prepared w)\<rparr>)"

definition pin_parent :: "lease_id \<Rightarrow> continuation \<Rightarrow> handle \<Rightarrow> store \<Rightarrow> store" where
  "pin_parent i l h w =
     release_opt (co_parent l)
       (set_lease i (Some (l\<lparr>co_parent := Some h\<rparr>)) (w\<lparr>st_prepared := removeAll h (st_prepared w)\<rparr>))"

definition drop_lease :: "lease_id \<Rightarrow> continuation \<Rightarrow> store \<Rightarrow> store" where
  "drop_lease i l w =
     (let s = st_sessions w ! co_session l;
          evict = (case (co_parent l, se_latest s) of
                     (Some parent, Some latest) \<Rightarrow> response_id_of w latest = response_id_of w parent
                   | _ \<Rightarrow> False);
          s' = s\<lparr>se_latest := (if evict then None else se_latest s), se_active := False\<rparr>
      in release_opt (co_parent l) (release_opt (se_latest s)
           (set_lease i None (set_session (co_session l) s' w))))"

definition publish :: "lease_id \<Rightarrow> continuation \<Rightarrow> handle \<Rightarrow> store \<Rightarrow> executor_error option \<times> store" where
  "publish i l h w =
     (let s = st_sessions w ! co_session l
      in if se_closed s
         then (Some (InvalidRequest ''response session has closed''), drop_lease i l (drop_prepared h w))
         else (None,
           release_opt (co_parent l) (release_opt (se_latest s)
             (set_lease i None
               (set_session (co_session l) (s\<lparr>se_latest := Some h, se_active := False\<rparr>)
                 (w\<lparr>st_prepared := removeAll h (st_prepared w)\<rparr>))))))"

section \<open>The operations as steps\<close>

text \<open>
  One step of the program on the store: an operation applied to objects that are alive. A
  session whose handle was dropped is closed for good, so its handle operations are only
  those that a closed session refuses or ignores.
\<close>

inductive session_step :: "printers \<Rightarrow> (response_checkpoint \<Rightarrow> writes) \<Rightarrow> store \<Rightarrow> store \<Rightarrow> bool"
  for p :: printers and writes :: "response_checkpoint \<Rightarrow> writes"
where
  step_new_group: "max_retained_bytes \<le> usize_max \<Longrightarrow>
     session_step p writes w (new_group max_sessions max_items max_bytes max_retained_bytes w)"
| step_standalone: "session_step p writes w (add_session max_items max_bytes None w)"
| step_new_session: "g < length (st_groups w) \<Longrightarrow> new_session g w = Inr (i, w') \<Longrightarrow> session_step p writes w w'"
| step_drop_session: "i < length (st_sessions w) \<Longrightarrow> session_step p writes w (close_session i w)"
| step_drop_group: "g < length (st_groups w) \<Longrightarrow> \<not> gr_closed (st_groups w ! g) \<Longrightarrow> session_step p writes w (drop_group g w)"
| step_discard: "i < length (st_sessions w) \<Longrightarrow> session_step p writes w (discard_cached_response i rid w)"
| step_begin: "i < length (st_sessions w) \<Longrightarrow> begin_turn i pid w = Inr (l, w') \<Longrightarrow> session_step p writes w w'"
| step_mark_replaced: "l < length (st_leases w) \<Longrightarrow> st_leases w ! l = Some c \<Longrightarrow>
     session_step p writes w (set_lease l (Some (mark_history_replaced c)) w)"
| step_mark_recorded: "l < length (st_leases w) \<Longrightarrow> st_leases w ! l = Some c \<Longrightarrow>
     session_step p writes w (set_lease l (Some (mark_outputs_recorded n c)) w)"
| step_checkpoint: "l < length (st_leases w) \<Longrightarrow> st_leases w ! l = Some c \<Longrightarrow>
     checkpoint p writes c rid cid meta items durable w = Inr (h, w') \<Longrightarrow> session_step p writes w w'"
| step_retain_parent: "l < length (st_leases w) \<Longrightarrow> st_leases w ! l = Some c \<Longrightarrow>
     retain_parent writes c ck w = Inr (h, w') \<Longrightarrow> session_step p writes w w'"
| step_drop_prepared: "h \<in> set (st_prepared w) \<Longrightarrow> session_step p writes w (drop_prepared h w)"
| step_pin_parent: "l < length (st_leases w) \<Longrightarrow> st_leases w ! l = Some c \<Longrightarrow> h \<in> set (st_prepared w) \<Longrightarrow>
     session_step p writes w (pin_parent l c h w)"
| step_drop_lease: "l < length (st_leases w) \<Longrightarrow> st_leases w ! l = Some c \<Longrightarrow>
     session_step p writes w (drop_lease l c w)"
| step_publish: "l < length (st_leases w) \<Longrightarrow> st_leases w ! l = Some c \<Longrightarrow> h \<in> set (st_prepared w) \<Longrightarrow>
     session_step p writes w (snd (publish l c h w))"

inductive session_reachable :: "printers \<Rightarrow> (response_checkpoint \<Rightarrow> writes) \<Rightarrow> store \<Rightarrow> bool"
  for p :: printers and writes :: "response_checkpoint \<Rightarrow> writes"
where
  reach_empty: "session_reachable p writes empty_store"
| reach_step: "session_reachable p writes w \<Longrightarrow> session_step p writes w w' \<Longrightarrow> session_reachable p writes w'"

inductive_cases session_stepE: "session_step p writes w w'"

section \<open>Budgets\<close>

interpretation counter: byte_budget counter_write zc_used zc_limit "\<lambda>c. zc_used c \<le> zc_limit c"
  by unfold_locales (auto simp: counter_write_def split: if_splits)

interpretation checkpoint_bytes: byte_budget reserve bu_used bu_limit "\<lambda>b. bu_limit b \<le> usize_max"
  by unfold_locales
     (auto simp: reserve_def usize_checked_add_def split: option.splits if_splits)

lemma serialized_size_Some:
  "serialized_size_up_to w limit = Inr (Some n) \<Longrightarrow> n = sum_list (fst w) \<and> n \<le> limit"
  using counter.charges_Inr [of "\<lparr>zc_used = 0, zc_limit = limit\<rparr>" "fst w"]
  by (fastforce simp: serialized_size_up_to_def split: sum.splits option.splits)

lemma serialized_size_fits:
  "sum_list (fst w) \<le> limit \<Longrightarrow> snd w = None \<Longrightarrow> serialized_size_up_to w limit = Inr (Some (sum_list (fst w)))"
  using counter.charges_Inr [of "\<lparr>zc_used = 0, zc_limit = limit\<rparr>" "fst w"]
    counter.charges_iff_fits [of "\<lparr>zc_used = 0, zc_limit = limit\<rparr>" "fst w"]
  by (auto simp: serialized_size_up_to_def)

text \<open>Tool declarations that carry credentials of an MCP server.\<close>

fun carries_credentials :: "responses_tool \<Rightarrow> bool" where
  "carries_credentials (McpTool p) \<longleftrightarrow> mtp_headers p \<noteq> None \<or> mtp_authorization p \<noteq> None"
| "carries_credentials _ \<longleftrightarrow> False"

lemma sanitize_no_credentials: "\<not> carries_credentials (sanitize_for_persistence t)"
  by (cases t) simp_all

end
