(* ===== verification/Storage.thy ===== *)
theory Storage
  imports Session "HOL-Library.Option_ord"
begin

text \<open>
  The durable store: \<open>storage/models\<close> (rows and the statements on them), \<open>storage/types\<close>,
  \<open>storage/response.rs\<close> and \<open>storage/conversation.rs\<close>. A database is its three tables, in
  insertion order, with the keys of \<open>migrations/*.sql\<close>: primary keys, the unique index on
  \<open>(conversation_id, seq)\<close> and the foreign keys. An operation that fails leaves it as it
  was, since the code writes inside a transaction; a database that cannot be reached is
  outside the model. The text of JSON and the derived serializers are the record
  \<open>text_codec\<close>, fresh identifiers are drawn from \<open>draw\<close>, and the time is an argument.
\<close>

section \<open>Rows\<close>

record item_row =
  it_id :: string
  it_data :: string
  it_created_at :: i64
  it_conversation_id :: "string option"
  it_seq :: "i64 option"

record response_row =
  rr_id :: string
  rr_conversation_id :: "string option"
  rr_previous_response_id :: "string option"
  rr_history_item_ids :: "string option"
  rr_metadata :: "string option"
  rr_created_at :: i64

record conversation_row =
  cv_id :: string
  cv_metadata :: "string option"
  cv_created_at :: i64
  cv_latest_response_id :: "string option"

record database =
  db_items :: "item_row list"
  db_responses :: "response_row list"
  db_conversations :: "conversation_row list"

definition empty_database :: database where
  "empty_database = \<lparr>db_items = [], db_responses = [], db_conversations = []\<rparr>"

section \<open>Stored items\<close>

record text_codec =
  tc_parse :: "string \<Rightarrow> json option"
  tc_print :: "json \<Rightarrow> string"
  tc_input_json :: "input_item \<Rightarrow> string + json"
  tc_input_of_json :: "json \<Rightarrow> input_item option"
  tc_output_json :: "output_item \<Rightarrow> string + json"
  tc_output_of_json :: "json \<Rightarrow> output_item option"
  tc_ids_text :: "string list \<Rightarrow> string + string"
  tc_ids_of_text :: "string \<Rightarrow> string list option"
  tc_metadata_text :: "response_metadata \<Rightarrow> string + string"
  tc_metadata_of_text :: "string \<Rightarrow> response_metadata option"

definition stored_item_kind_key :: string where
  "stored_item_kind_key = ''_agentic_item_kind''"

datatype item_kind = InputKind | OutputKind

fun item_kind_str :: "item_kind \<Rightarrow> string" where
  "item_kind_str InputKind = ''input''"
| "item_kind_str OutputKind = ''output''"

definition item_kind_of_str :: "string \<Rightarrow> item_kind option" where
  "item_kind_of_str s =
     (if s = ''input'' then Some InputKind else if s = ''output'' then Some OutputKind else None)"

definition serialization :: "string + 'a \<Rightarrow> storage_error + 'a" where
  "serialization r = (case r of Inl e \<Rightarrow> Inl (Serialization e) | Inr x \<Rightarrow> Inr x)"

fun item_text :: "text_codec \<Rightarrow> in_out_item \<Rightarrow> storage_error + string" where
  "item_text c (StoredInput x) =
     and_then (serialization (tc_input_json c x)) (\<lambda>v.
       Inr (tc_print c (json_insert stored_item_kind_key (JString (item_kind_str InputKind)) v)))"
| "item_text c (StoredOutput x) =
     and_then (serialization (tc_output_json c x)) (\<lambda>v.
       Inr (tc_print c (json_insert stored_item_kind_key (JString (item_kind_str OutputKind)) v)))"

text \<open>\<open>Map::remove\<close> of \<open>serde_json\<close> moves the last entry into the gap.\<close>

fun swap_remove :: "string \<Rightarrow> json_map \<Rightarrow> json_map" where
  "swap_remove k [] = []"
| "swap_remove k ((k', v) # m) =
     (if k' = k then (if m = [] then [] else last m # butlast m) else (k', v) # swap_remove k m)"

fun strip_marker :: "json \<Rightarrow> json" where
  "strip_marker (JObject m) = JObject (swap_remove stored_item_kind_key m)"
| "strip_marker v = v"

definition data_without_storage_marker :: "text_codec \<Rightarrow> item_row \<Rightarrow> json option" where
  "data_without_storage_marker c row = map_option strip_marker (tc_parse c (it_data row))"

definition row_as_input :: "text_codec \<Rightarrow> item_row \<Rightarrow> input_item option" where
  "row_as_input c row = Option.bind (data_without_storage_marker c row) (tc_input_of_json c)"

definition row_as_output :: "text_codec \<Rightarrow> item_row \<Rightarrow> output_item option" where
  "row_as_output c row = Option.bind (data_without_storage_marker c row) (tc_output_of_json c)"

definition row_item_kind :: "text_codec \<Rightarrow> item_row \<Rightarrow> item_kind option" where
  "row_item_kind c row =
     Option.bind (tc_parse c (it_data row)) (\<lambda>v.
       Option.bind (Option.bind (json_get v stored_item_kind_key) as_str) item_kind_of_str)"

definition row_as_inout :: "text_codec \<Rightarrow> item_row \<Rightarrow> in_out_item option" where
  "row_as_inout c row =
     (let input = row_as_input c row; output = row_as_output c row;
          marked = (case row_item_kind c row of
                      Some InputKind \<Rightarrow> map_option StoredInput input
                    | Some OutputKind \<Rightarrow> map_option StoredOutput output
                    | None \<Rightarrow> None)
      in case marked of
           Some x \<Rightarrow> Some x
         | None \<Rightarrow>
             if output \<noteq> None \<and> output \<noteq> Some OutUnknown then map_option StoredOutput output
             else if input \<noteq> None \<and> input \<noteq> Some InUnknown then map_option StoredInput input
             else
               (case (input, output) of
                  (Some x, _) \<Rightarrow> Some (StoredInput x)
                | (None, Some x) \<Rightarrow> Some (StoredOutput x)
                | (None, None) \<Rightarrow> None))"

section \<open>Statements\<close>

definition unique_violation :: storage_error where
  "unique_violation = Database True ''unique violation''"

definition foreign_key_violation :: storage_error where
  "foreign_key_violation = Database False ''foreign key violation''"

definition row_not_found :: storage_error where
  "row_not_found = Database False ''no rows returned''"

definition max_items_per_insert :: nat where
  "max_items_per_insert = 199"

definition max_bind_parameters :: nat where
  "max_bind_parameters = 999"

function batches :: "nat \<Rightarrow> 'a list \<Rightarrow> 'a list list" where
  "batches n xs = (if xs = [] then [] else take (max n 1) xs # batches n (drop (max n 1) xs))"
  by auto
termination by (relation "measure (\<lambda>(n, xs). length xs)") auto

declare batches.simps [simp del]

definition conversation_exists :: "string \<Rightarrow> database \<Rightarrow> bool" where
  "conversation_exists cid db = list_ex (\<lambda>r. cv_id r = cid) (db_conversations db)"

text \<open>The keys of a set of item rows inserted by one statement.\<close>

definition item_key_clash :: "item_row list \<Rightarrow> item_row list \<Rightarrow> bool" where
  "item_key_clash new old =
     (let seqs = (\<lambda>rows. List.map_filter
            (\<lambda>r. case (it_conversation_id r, it_seq r) of (Some c, Some n) \<Rightarrow> Some (c, n) | _ \<Rightarrow> None) rows)
      in \<not> distinct (map it_id (old @ new)) \<or> \<not> distinct (seqs (old @ new)))"

definition insert_item_rows :: "item_row list \<Rightarrow> database \<Rightarrow> storage_error + database" where
  "insert_item_rows rows db =
     (if item_key_clash rows (db_items db) then Inl unique_violation
      else if list_ex (\<lambda>r. case it_conversation_id r of None \<Rightarrow> False | Some c \<Rightarrow> \<not> conversation_exists c db) rows
      then Inl foreign_key_violation
      else Inr (db\<lparr>db_items := db_items db @ rows\<rparr>))"

definition conversation_items :: "string \<Rightarrow> database \<Rightarrow> item_row list" where
  "conversation_items cid db = filter (\<lambda>r. it_conversation_id r = Some cid) (db_items db)"

definition max_seq :: "item_row list \<Rightarrow> i64 option" where
  "max_seq rows = (case List.map_filter it_seq rows of [] \<Rightarrow> None | n # ns \<Rightarrow> Some (fold max ns n))"

definition create_batch :: "i64 \<Rightarrow> string option \<Rightarrow> database \<Rightarrow> (string \<times> string) list \<Rightarrow> storage_error + database" where
  "create_batch now cid db items =
     (case cid of
        None \<Rightarrow> insert_item_rows (map (\<lambda>(i, d). \<lparr>it_id = i, it_data = d, it_created_at = now,
                  it_conversation_id = None, it_seq = None\<rparr>) items) db
      | Some c \<Rightarrow>
          (let start = unwrap_or (max_seq (conversation_items c db)) (- 1) + 1
           in insert_item_rows (map (\<lambda>(n, i, d). \<lparr>it_id = i, it_data = d, it_created_at = now,
                  it_conversation_id = Some c, it_seq = Some (start + int n)\<rparr>) (enumerate 0 items)) db))"

definition create_items :: "i64 \<Rightarrow> (string \<times> string) list \<Rightarrow> string option \<Rightarrow> database \<Rightarrow> storage_error + database" where
  "create_items now items cid db = run_steps (create_batch now cid) db (batches max_items_per_insert items)"

definition get_item_rows :: "string list \<Rightarrow> database \<Rightarrow> item_row list" where
  "get_item_rows ids db =
     concat (map (\<lambda>batch. filter (\<lambda>r. it_id r \<in> set batch) (db_items db)) (batches max_bind_parameters ids))"

definition get_response_row :: "string \<Rightarrow> database \<Rightarrow> response_row option" where
  "get_response_row rid db = List.find (\<lambda>r. rr_id r = rid) (db_responses db)"

definition get_conversation_turn :: "string \<Rightarrow> string \<Rightarrow> database \<Rightarrow> response_row option" where
  "get_conversation_turn cid rid db =
     List.find (\<lambda>r. rr_id r = rid \<and> rr_conversation_id r = Some cid) (db_responses db)"

definition create_response :: "response_row \<Rightarrow> database \<Rightarrow> storage_error + database" where
  "create_response row db =
     (if rr_id row \<in> set (map rr_id (db_responses db)) then Inl unique_violation
      else if (case rr_conversation_id row of None \<Rightarrow> False | Some c \<Rightarrow> \<not> conversation_exists c db)
         \<or> (case rr_previous_response_id row of None \<Rightarrow> False
              | Some p \<Rightarrow> p \<noteq> rr_id row \<and> get_response_row p db = None)
      then Inl foreign_key_violation
      else Inr (db\<lparr>db_responses := db_responses db @ [row]\<rparr>))"

definition get_conversation_row :: "string \<Rightarrow> database \<Rightarrow> conversation_row option" where
  "get_conversation_row cid db = List.find (\<lambda>r. cv_id r = cid) (db_conversations db)"

definition create_conversation :: "i64 \<Rightarrow> string \<Rightarrow> database \<Rightarrow> storage_error + conversation_row \<times> database" where
  "create_conversation now cid db =
     (if conversation_exists cid db then Inl unique_violation
      else
        let row = \<lparr>cv_id = cid, cv_metadata = None, cv_created_at = now, cv_latest_response_id = None\<rparr>
        in Inr (row, db\<lparr>db_conversations := db_conversations db @ [row]\<rparr>))"

definition get_or_create_conversation :: "i64 \<Rightarrow> string \<Rightarrow> database \<Rightarrow> storage_error + conversation_row \<times> database" where
  "get_or_create_conversation now cid db =
     (case get_conversation_row cid db of
        Some row \<Rightarrow> Inr (row, db)
      | None \<Rightarrow> create_conversation now cid db)"

definition lock_conversation :: "string \<Rightarrow> database \<Rightarrow> storage_error + conversation_row" where
  "lock_conversation cid db = ok_or (get_conversation_row cid db) row_not_found"

definition set_latest_response :: "string \<Rightarrow> string \<Rightarrow> database \<Rightarrow> storage_error + database" where
  "set_latest_response cid rid db =
     (if conversation_exists cid db
      then Inr (db\<lparr>db_conversations := map (\<lambda>r. if cv_id r = cid then r\<lparr>cv_latest_response_id := Some rid\<rparr> else r)
             (db_conversations db)\<rparr>)
      else Inl row_not_found)"

text \<open>Rows ordered by sequence; rows without one come first.\<close>

definition snapshot_items :: "string \<Rightarrow> database \<Rightarrow> item_row list" where
  "snapshot_items cid db = (if conversation_exists cid db then sort_key it_seq (conversation_items cid db) else [])"

definition snapshot_latest :: "string \<Rightarrow> database \<Rightarrow> string option" where
  "snapshot_latest cid db = Option.bind (get_conversation_row cid db) cv_latest_response_id"

section \<open>The response store\<close>

record response_data =
  rd_response_id :: string
  rd_conversation_id :: "string option"
  rd_previous_response_id :: "string option"
  rd_created_at :: i64
  rd_history_item_ids :: "string list"
  rd_metadata :: response_metadata

definition default_metadata :: response_metadata where
  "default_metadata = \<lparr>rm_model = '''', rm_previous_response_id = None, rm_effective_tools = None,
     rm_tool_search_loaded_tools = None, rm_effective_tool_choice = ChoiceAuto, rm_effective_instructions = None\<rparr>"

definition response_data_of_row :: "text_codec \<Rightarrow> response_row \<Rightarrow> response_data" where
  "response_data_of_row c row =
     \<lparr>rd_response_id = rr_id row, rd_conversation_id = rr_conversation_id row,
      rd_previous_response_id = rr_previous_response_id row, rd_created_at = rr_created_at row,
      rd_history_item_ids = unwrap_or (Option.bind (rr_history_item_ids row) (tc_ids_of_text c)) [],
      rd_metadata = unwrap_or (Option.bind (rr_metadata row) (tc_metadata_of_text c)) default_metadata\<rparr>"

definition metadata_text :: "text_codec \<Rightarrow> response_metadata \<Rightarrow> storage_error + string" where
  "metadata_text c m =
     serialization (tc_metadata_text c
       (m\<lparr>rm_effective_tools := map_option (map sanitize_for_persistence) (rm_effective_tools m),
          rm_tool_search_loaded_tools := map_option (map sanitize_for_persistence) (rm_tool_search_loaded_tools m)\<rparr>))"

definition with_pool :: "database option \<Rightarrow> (database \<Rightarrow> storage_error + 'a) \<Rightarrow> storage_error + 'a" where
  "with_pool pool f = and_then (ok_or pool NotConfigured) f"

definition response_get :: "text_codec \<Rightarrow> string \<Rightarrow> database option \<Rightarrow> storage_error + response_data" where
  "response_get c rid pool =
     with_pool pool (\<lambda>db.
       and_then (ok_or (get_response_row rid db) (StorageNotFound ''Response'' rid)) (\<lambda>row.
         Inr (response_data_of_row c row)))"

fun take_items :: "string list \<Rightarrow> (string \<rightharpoonup> in_out_item) \<Rightarrow> in_out_item list" where
  "take_items [] m = []"
| "take_items (i # ids) m = (case m i of None \<Rightarrow> take_items ids m | Some x \<Rightarrow> x # take_items ids (m(i := None)))"

definition items_by_id :: "text_codec \<Rightarrow> item_row list \<Rightarrow> string \<rightharpoonup> in_out_item" where
  "items_by_id c rows =
     fold (\<lambda>row m. case row_as_inout c row of None \<Rightarrow> m | Some x \<Rightarrow> m(it_id row \<mapsto> x)) rows Map.empty"

definition response_rehydrate :: "text_codec \<Rightarrow> string \<Rightarrow> database option \<Rightarrow> storage_error + in_out_item list" where
  "response_rehydrate c rid pool =
     with_pool pool (\<lambda>db.
       and_then (response_get c rid pool) (\<lambda>response.
         Inr (take_items (rd_history_item_ids response)
               (items_by_id c (get_item_rows (rd_history_item_ids response) db)))))"

definition new_item_texts ::
  "text_codec \<Rightarrow> (nat \<Rightarrow> string) \<Rightarrow> in_out_item list \<Rightarrow> storage_error + (string \<times> string) list" where
  "new_item_texts c draw items =
     collect_results (map (\<lambda>(n, x). and_then (item_text c x) (\<lambda>t. Inr (draw n, t))) (enumerate 0 items))"

definition response_persist ::
  "text_codec \<Rightarrow> (nat \<Rightarrow> string) \<Rightarrow> i64 \<Rightarrow> string \<Rightarrow> string option \<Rightarrow> string option \<Rightarrow> in_out_item list
   \<Rightarrow> response_metadata \<Rightarrow> database option \<Rightarrow> storage_error + database" where
  "response_persist c draw now rid cid previous_id items metadata pool =
     with_pool pool (\<lambda>db.
       and_then (case previous_id of
                   None \<Rightarrow> Inr []
                 | Some p \<Rightarrow> and_then (response_get c p pool) (\<lambda>r. Inr (rd_history_item_ids r))) (\<lambda>previous_ids.
       and_then (new_item_texts c draw items) (\<lambda>texts.
       and_then (serialization (tc_ids_text c (previous_ids @ map fst texts))) (\<lambda>ids_json.
       and_then (metadata_text c metadata) (\<lambda>metadata_json.
       and_then (create_items now texts None db) (\<lambda>db'.
         create_response \<lparr>rr_id = rid, rr_conversation_id = cid, rr_previous_response_id = previous_id,
           rr_history_item_ids = Some ids_json, rr_metadata = Some metadata_json, rr_created_at = now\<rparr> db'))))))"

section \<open>The conversation store\<close>

datatype conversation_version =
    EmptyVersion
  | LastSequence i64
  | LastResponse string "i64 option"

fun version_from_snapshot :: "i64 option \<Rightarrow> string option \<Rightarrow> conversation_version" where
  "version_from_snapshot seq (Some rid) = LastResponse rid seq"
| "version_from_snapshot (Some n) None = LastSequence n"
| "version_from_snapshot None None = EmptyVersion"

record conversation_snapshot =
  cs_items :: "in_out_item list"
  cs_version :: conversation_version

definition conversation_create :: "i64 \<Rightarrow> string \<Rightarrow> database option \<Rightarrow> storage_error + conversation_row \<times> database" where
  "conversation_create now cid pool = with_pool pool (create_conversation now cid)"

definition conversation_get_or_create ::
  "i64 \<Rightarrow> string \<Rightarrow> database option \<Rightarrow> storage_error + conversation_row \<times> database" where
  "conversation_get_or_create now cid pool = with_pool pool (get_or_create_conversation now cid)"

definition conversation_get :: "string \<Rightarrow> database option \<Rightarrow> storage_error + conversation_row" where
  "conversation_get cid pool =
     with_pool pool (\<lambda>db. ok_or (get_conversation_row cid db) (StorageNotFound ''Conversation'' cid))"

text \<open>The last sequence of the rows in order; a row without one is an error.\<close>

fun last_sequence :: "string \<Rightarrow> i64 option \<Rightarrow> item_row list \<Rightarrow> storage_error + i64 option" where
  "last_sequence cid acc [] = Inr acc"
| "last_sequence cid acc (row # rows) =
     (case it_seq row of
        None \<Rightarrow> Inl (InvalidConversationSequence cid (it_id row))
      | Some n \<Rightarrow> last_sequence cid (Some n) rows)"

definition rehydrate_snapshot :: "text_codec \<Rightarrow> string \<Rightarrow> database option \<Rightarrow> storage_error + conversation_snapshot" where
  "rehydrate_snapshot c cid pool =
     with_pool pool (\<lambda>db.
       let rows = snapshot_items cid db
       in and_then (last_sequence cid None rows) (\<lambda>seq.
            Inr \<lparr>cs_items = List.map_filter (row_as_inout c) rows,
                 cs_version = version_from_snapshot seq (snapshot_latest cid db)\<rparr>))"

definition response_metadata_at_version ::
  "text_codec \<Rightarrow> string \<Rightarrow> conversation_version \<Rightarrow> database option \<Rightarrow> storage_error + response_metadata option" where
  "response_metadata_at_version c cid version pool =
     (case version of
        LastResponse rid _ \<Rightarrow>
          with_pool pool (\<lambda>db.
            Inr (Option.bind (get_conversation_turn cid rid db)
                   (\<lambda>row. Option.bind (rr_metadata row) (tc_metadata_of_text c))))
      | _ \<Rightarrow> Inr None)"

definition conversation_persist ::
  "text_codec \<Rightarrow> (nat \<Rightarrow> string) \<Rightarrow> i64 \<Rightarrow> string \<Rightarrow> conversation_version option \<Rightarrow> string \<Rightarrow> string option
   \<Rightarrow> in_out_item list \<Rightarrow> response_metadata \<Rightarrow> database option \<Rightarrow> storage_error + database" where
  "conversation_persist c draw now cid expected rid previous_id items metadata pool =
     with_pool pool (\<lambda>db.
       and_then (new_item_texts c draw items) (\<lambda>texts.
       and_then (serialization (tc_ids_text c (map fst texts))) (\<lambda>ids_json.
       and_then (metadata_text c metadata) (\<lambda>metadata_json.
       and_then (case lock_conversation cid db of
                   Inl e \<Rightarrow> Inl (if e = row_not_found then StorageNotFound ''Conversation'' cid else e)
                 | Inr row \<Rightarrow> Inr row) (\<lambda>locked.
       and_then (case expected of
                   None \<Rightarrow> Inr ()
                 | Some version \<Rightarrow>
                     if version_from_snapshot (max_seq (conversation_items cid db)) (cv_latest_response_id locked)
                          \<noteq> version
                     then Inl (ConversationConflict cid) else Inr ()) (\<lambda>_.
       and_then (create_items now texts (Some cid) db) (\<lambda>db'.
       and_then (create_response \<lparr>rr_id = rid, rr_conversation_id = Some cid, rr_previous_response_id = previous_id,
           rr_history_item_ids = Some ids_json, rr_metadata = Some metadata_json, rr_created_at = now\<rparr> db') (\<lambda>db''.
         set_latest_response cid rid db''))))))))"

end
