(* ===== verification/Request.thy ===== *)
theory Request
  imports Storage Accumulator
begin

text \<open>
  The request of a turn and the context built from it: the payload types of
  \<open>types/request_response.rs\<close>, and \<open>RequestContext\<close> of \<open>executor/request.rs\<close>. Floating-point
  settings are only passed on and are kept as their decimal text. A continuation in a context
  is the index of its lease in the session store.
\<close>

section \<open>Request payload\<close>

type_synonym f64 = string

record reasoning_config =
  rsn_context :: "string option"
  rsn_effort :: "string option"
  rsn_generate_summary :: "string option"
  rsn_mode :: "string option"
  rsn_summary :: "string option"

datatype response_text_format =
    TextFormat json_map
  | JsonObjectFormat json_map
  | JsonSchemaFormat string json_map "string option" "bool option" json_map

record response_text_config =
  txt_format :: "response_text_format option"
  txt_verbosity :: "string option"
  txt_extra :: json_map

record context_management =
  cm_type :: string
  cm_compact_threshold :: "u64 option"

record request_payload =
  rq_model :: string
  rq_input :: responses_input
  rq_instructions :: "string option"
  rq_previous_response_id :: "string option"
  rq_conversation_id :: "string option"
  rq_tools :: "responses_tool list option"
  rq_tool_choice :: "tool_choice option"
  rq_stream :: bool
  rq_store :: bool
  rq_include :: "string list option"
  rq_reasoning :: "reasoning_config option"
  rq_text :: "response_text_config option"
  rq_temperature :: "f64 option"
  rq_top_p :: "f64 option"
  rq_max_output_tokens :: "u32 option"
  rq_ignore_eos :: "bool option"
  rq_truncation :: "string option"
  rq_metadata :: "json option"
  rq_parallel_tool_calls :: "bool option"
  rq_cache_salt :: "string option"
  rq_context_management :: "context_management list option"

fun is_function_tool :: "responses_tool \<Rightarrow> bool" where
  "is_function_tool (FunctionTool _) = True"
| "is_function_tool _ = False"

definition in_process_feature :: "request_payload \<Rightarrow> string option" where
  "in_process_feature r =
     (if rq_conversation_id r \<noteq> None then Some ''conversation_id''
      else if (case rq_tools r of None \<Rightarrow> False | Some tools \<Rightarrow> list_ex (\<lambda>t. \<not> is_function_tool t) tools)
      then Some ''gateway-owned tools''
      else if contains_compaction (rq_input r) \<or> has_compaction_trigger (rq_input r)
      then Some ''compaction input''
      else if (case rq_context_management r of None \<Rightarrow> False | Some entries \<Rightarrow> entries \<noteq> [])
      then Some ''context_management''
      else None)"

definition terminal_event_type :: "response_payload \<Rightarrow> string" where
  "terminal_event_type r =
     (if rp_status r = ''incomplete'' then ''response.incomplete''
      else if rp_status r = ''failed'' \<or> rp_status r = ''error'' then ''response.failed''
      else if rp_status r = ''in_progress'' then ''response.in_progress''
      else ''response.completed'')"

section \<open>Request context\<close>

record request_context =
  rc_original_request :: request_payload
  rc_enriched_request :: request_payload
  rc_new_input_items :: "input_item list"
  rc_response_id :: string
  rc_conversation_id :: "string option"
  rc_conversation_version :: "conversation_version option"
  rc_continuation :: "lease_id option"

definition inject_ids :: "request_context \<Rightarrow> response_payload \<Rightarrow> response_payload" where
  "inject_ids ctx payload =
     payload\<lparr>rp_id := rc_response_id ctx, rp_conversation_id := rc_conversation_id ctx,
             rp_previous_response_id := rq_previous_response_id (rc_original_request ctx)\<rparr>"

definition apply_effective_settings :: "response_metadata \<Rightarrow> request_context \<Rightarrow> request_context" where
  "apply_effective_settings stored ctx =
     (let original = rc_original_request ctx
      in ctx\<lparr>rc_enriched_request := (rc_enriched_request ctx)
           \<lparr>rq_tools := resolve_tools (rq_tools original) (rm_effective_tools stored) (rq_tools original \<noteq> None),
            rq_tool_choice := Some (resolve_tool_choice (rq_tool_choice original) (rm_effective_tool_choice stored)
              (rq_tool_choice original \<noteq> None))\<rparr>\<rparr>)"

end
