(* ===== verification/Turn.thy ===== *)
theory Turn
  imports Request
begin

text \<open>
  One turn of the pipeline around inference: building the context from stored or cached
  history (\<open>executor/rehydrate.rs\<close>), the storage handlers (\<open>executor/modes\<close>), persisting the
  finished turn (\<open>executor/persist.rs\<close>) and the metadata lookup of \<open>executor/prepare.rs\<close>. The
  world is the durable store and the session store. A context that is dropped, on an error or
  at the end, drops its lease; a prepared checkpoint that is dropped frees its bytes.
\<close>

section \<open>World\<close>

record world =
  wd_db :: "database option"
  wd_sessions :: store

record turn_env =
  te_codec :: text_codec
  te_printers :: printers
  te_writes :: "response_checkpoint \<Rightarrow> writes"

definition lease_at :: "store \<Rightarrow> lease_id \<Rightarrow> continuation option" where
  "lease_at s i = (if i < length (st_leases s) then st_leases s ! i else None)"

definition end_lease :: "lease_id option \<Rightarrow> world \<Rightarrow> world" where
  "end_lease l w =
     (case l of
        None \<Rightarrow> w
      | Some i \<Rightarrow>
          (case lease_at (wd_sessions w) i of
             None \<Rightarrow> w
           | Some c \<Rightarrow> w\<lparr>wd_sessions := drop_lease i c (wd_sessions w)\<rparr>))"

definition lease_checkpoint :: "store \<Rightarrow> continuation \<Rightarrow> response_checkpoint option" where
  "lease_checkpoint s c = Option.bind (co_parent c) (\<lambda>h. map_option rt_checkpoint (st_heap s ! h))"

definition storage_result :: "storage_error + 'a \<Rightarrow> executor_error + 'a" where
  "storage_result r = (case r of Inl e \<Rightarrow> Inl (Storage e) | Inr x \<Rightarrow> Inr x)"

section \<open>Storage handlers\<close>

definition response_handler_get :: "turn_env \<Rightarrow> request_payload \<Rightarrow> database option \<Rightarrow> executor_error + response_data" where
  "response_handler_get env original pool =
     and_then (ok_or (rq_previous_response_id original) (InvalidRequest ''previous_response_id is required for get''))
       (\<lambda>p. storage_result (response_get (te_codec env) p pool))"

definition response_handler_rehydrate ::
  "turn_env \<Rightarrow> request_payload \<Rightarrow> database option \<Rightarrow> executor_error + in_out_item list" where
  "response_handler_rehydrate env original pool =
     (case rq_previous_response_id original of
        None \<Rightarrow> Inr []
      | Some p \<Rightarrow> storage_result (response_rehydrate (te_codec env) p pool))"

definition conversation_handler_get_or_create ::
  "i64 \<Rightarrow> request_payload \<Rightarrow> database option \<Rightarrow> executor_error + conversation_row \<times> database" where
  "conversation_handler_get_or_create now original pool =
     and_then (ok_or (rq_conversation_id original) (InvalidRequest ''conversation_id is required for get_or_create''))
       (\<lambda>cid. storage_result (conversation_get_or_create now cid pool))"

definition conversation_handler_get :: "request_payload \<Rightarrow> database option \<Rightarrow> executor_error + conversation_row" where
  "conversation_handler_get original pool =
     and_then (ok_or (rq_conversation_id original) (InvalidRequest ''conversation_id is required for get''))
       (\<lambda>cid. storage_result (conversation_get cid pool))"

definition conversation_handler_snapshot ::
  "turn_env \<Rightarrow> request_payload \<Rightarrow> database option \<Rightarrow> executor_error + conversation_snapshot" where
  "conversation_handler_snapshot env original pool =
     and_then (ok_or (rq_conversation_id original) (InvalidRequest ''conversation_id is required for rehydrate''))
       (\<lambda>cid. storage_result (rehydrate_snapshot (te_codec env) cid pool))"

definition conversation_handler_metadata ::
  "turn_env \<Rightarrow> request_payload \<Rightarrow> conversation_version \<Rightarrow> database option \<Rightarrow> executor_error + response_metadata option" where
  "conversation_handler_metadata env original version pool =
     and_then (ok_or (rq_conversation_id original)
         (InvalidRequest ''conversation_id is required for response metadata lookup''))
       (\<lambda>cid. storage_result (response_metadata_at_version (te_codec env) cid version pool))"

section \<open>Rehydration\<close>

definition no_pending :: "input_item list \<Rightarrow> executor_error + unit" where
  "no_pending items =
     and_then (pending_calls items) (\<lambda>ids. case ids of [] \<Rightarrow> Inr () | i # _ \<Rightarrow> Inl (Tool (MissingOutput i)))"

definition set_input :: "input_item list \<Rightarrow> request_context \<Rightarrow> request_context" where
  "set_input items ctx = ctx\<lparr>rc_enriched_request := (rc_enriched_request ctx)\<lparr>rq_input := ItemsInput items\<rparr>\<rparr>"

definition clear_previous :: "request_context \<Rightarrow> request_context" where
  "clear_previous ctx =
     ctx\<lparr>rc_enriched_request := (rc_enriched_request ctx)\<lparr>rq_previous_response_id := None\<rparr>\<rparr>"

text \<open>The durable path of \<open>from_response\<close>.\<close>

definition from_stored_response ::
  "turn_env \<Rightarrow> request_context \<Rightarrow> database option \<Rightarrow> executor_error + request_context" where
  "from_stored_response env ctx pool =
     (let original = rc_original_request ctx; p = te_printers env
      in and_then (response_handler_get env original pool) (\<lambda>stored.
         and_then (response_handler_rehydrate env original pool) (\<lambda>history.
           let items = into_input_items p history @ items_of_input p (rq_input original)
           in and_then (no_pending items) (\<lambda>_.
                Inr ((apply_effective_settings (rd_metadata stored) (set_input items (clear_previous ctx)))
                  \<lparr>rc_conversation_id := rd_conversation_id stored\<rparr>)))))"

definition map_missing :: "string \<Rightarrow> executor_error + 'a \<Rightarrow> executor_error + 'a" where
  "map_missing previous_id r =
     (case r of
        Inl (Storage source) \<Rightarrow>
          Inl (if storage_is_not_found source then PreviousResponseNotFound previous_id else Storage source)
      | other \<Rightarrow> other)"

definition stored_parent ::
  "turn_env \<Rightarrow> request_payload \<Rightarrow> database option \<Rightarrow> executor_error + response_checkpoint" where
  "stored_parent env original pool =
     (let previous_id = unwrap_or (rq_previous_response_id original) ''''
      in if \<not> rq_store original then Inl (PreviousResponseNotFound previous_id)
         else
           and_then (map_missing previous_id (response_handler_get env original pool)) (\<lambda>stored.
           and_then (map_missing previous_id (response_handler_rehydrate env original pool)) (\<lambda>history.
             Inr \<lparr>ck_response_id = rd_response_id stored, ck_conversation_id = rd_conversation_id stored,
                  ck_history = canonical_session_history (into_input_items (te_printers env) history),
                  ck_metadata = rd_metadata stored, ck_durable = True\<rparr>)))"

definition continue_session :: "turn_env \<Rightarrow> request_context \<Rightarrow> response_checkpoint \<Rightarrow> executor_error + request_context" where
  "continue_session env ctx parent =
     (let items = canonical_session_history
            (ck_history parent @ items_of_input (te_printers env) (rq_input (rc_original_request ctx)))
      in and_then (no_pending items) (\<lambda>_.
           Inr ((apply_effective_settings (ck_metadata parent) (set_input items (clear_previous ctx)))
             \<lparr>rc_conversation_id := ck_conversation_id parent\<rparr>)))"

definition from_session_response ::
  "turn_env \<Rightarrow> request_context \<Rightarrow> lease_id \<Rightarrow> world \<Rightarrow> (executor_error + request_context) \<times> world" where
  "from_session_response env ctx l w =
     (case lease_at (wd_sessions w) l of
        None \<Rightarrow> (Inl (InvalidRequest ''session response requires a continuation lease''), w)
      | Some c \<Rightarrow>
          (case lease_checkpoint (wd_sessions w) c of
             Some parent \<Rightarrow> (continue_session env ctx parent, w)
           | None \<Rightarrow>
               (case stored_parent env (rc_original_request ctx) (wd_db w) of
                  Inl e \<Rightarrow> (Inl e, w)
                | Inr parent \<Rightarrow>
                    (case retain_parent (te_writes env) c parent (wd_sessions w) of
                       Inl e \<Rightarrow> (Inl e, w)
                     | Inr (h, s) \<Rightarrow>
                         (case continue_session env ctx parent of
                            Inl e \<Rightarrow> (Inl e, w\<lparr>wd_sessions := drop_prepared h s\<rparr>)
                          | Inr ctx' \<Rightarrow> (Inr ctx', w\<lparr>wd_sessions := pin_parent l c h s\<rparr>))))))"

definition from_response ::
  "turn_env \<Rightarrow> request_context \<Rightarrow> world \<Rightarrow> (executor_error + request_context) \<times> world" where
  "from_response env ctx w =
     (case rc_continuation ctx of
        Some l \<Rightarrow> from_session_response env ctx l w
      | None \<Rightarrow> (from_stored_response env ctx (wd_db w), w))"

text \<open>
  \<open>from_conversation\<close>: the two lookups of its \<open>try_join!\<close> are written in sequence; the snapshot
  does not depend on whether the conversation was created before it (a lemma of
  \<open>Turn_Properties\<close>).
\<close>

definition from_conversation ::
  "turn_env \<Rightarrow> i64 \<Rightarrow> request_context \<Rightarrow> world \<Rightarrow> (executor_error + request_context) \<times> world" where
  "from_conversation env now ctx w =
     (let original = rc_original_request ctx; p = te_printers env;
          (found, pool) =
            (if rq_store original
             then (case conversation_handler_get_or_create now original (wd_db w) of
                     Inl e \<Rightarrow> (Inl e, wd_db w)
                   | Inr (row, db) \<Rightarrow> (Inr row, Some db))
             else (conversation_handler_get original (wd_db w), wd_db w))
      in (and_then found (\<lambda>row.
          and_then (conversation_handler_snapshot env original (wd_db w)) (\<lambda>snapshot.
            let items = into_input_items p (cs_items snapshot) @ items_of_input p (rq_input original)
            in and_then (no_pending items) (\<lambda>_.
                 Inr ((set_input items ctx)
                   \<lparr>rc_conversation_id := Some (cv_id row), rc_conversation_version := Some (cs_version snapshot)\<rparr>)))),
          w\<lparr>wd_db := pool\<rparr>))"

definition initial_context :: "printers \<Rightarrow> string \<Rightarrow> request_payload \<Rightarrow> lease_id option \<Rightarrow> request_context" where
  "initial_context p response_id request l =
     \<lparr>rc_original_request = request, rc_enriched_request = request,
      rc_new_input_items = new_input_items p (rq_input request), rc_response_id = response_id,
      rc_conversation_id = None, rc_conversation_version = None, rc_continuation = l\<rparr>"

definition resolve_history ::
  "turn_env \<Rightarrow> i64 \<Rightarrow> request_context \<Rightarrow> world \<Rightarrow> (executor_error + request_context) \<times> world" where
  "resolve_history env now ctx w =
     (let original = rc_original_request ctx
      in if rq_conversation_id original \<noteq> None \<and> rq_previous_response_id original \<noteq> None
         then (Inl (InvalidRequest ''provide only one of conversation_id or previous_response_id''), w)
         else if rq_conversation_id original \<noteq> None then from_conversation env now ctx w
         else if rq_previous_response_id original \<noteq> None then from_response env ctx w
         else (Inr (set_input (items_of_input (te_printers env) (rq_input original)) ctx), w))"

definition rehydrate_with_continuation ::
  "turn_env \<Rightarrow> i64 \<Rightarrow> string \<Rightarrow> request_payload \<Rightarrow> lease_id option \<Rightarrow> world
   \<Rightarrow> (executor_error + request_context) \<times> world" where
  "rehydrate_with_continuation env now response_id request l w =
     (case validate_message_files (rq_input request) of
        Inl e \<Rightarrow> (Inl e, end_lease l w)
      | Inr _ \<Rightarrow>
          (case resolve_history env now (initial_context (te_printers env) response_id request l) w of
             (Inl e, w') \<Rightarrow> (Inl e, end_lease l w')
           | (Inr ctx, w') \<Rightarrow>
               (case validate_message_files (rq_input (rc_enriched_request ctx)) of
                  Inl e \<Rightarrow> (Inl e, end_lease l w')
                | Inr _ \<Rightarrow> (Inr ctx, w'))))"

definition rehydrate_conversation ::
  "turn_env \<Rightarrow> i64 \<Rightarrow> string \<Rightarrow> request_payload \<Rightarrow> world \<Rightarrow> (executor_error + request_context) \<times> world" where
  "rehydrate_conversation env now response_id request w = rehydrate_with_continuation env now response_id request None w"

definition rehydrate_in_session ::
  "turn_env \<Rightarrow> i64 \<Rightarrow> string \<Rightarrow> request_payload \<Rightarrow> session_id \<Rightarrow> world \<Rightarrow> (executor_error + request_context) \<times> world" where
  "rehydrate_in_session env now response_id request session w =
     (case begin_turn session (rq_previous_response_id request) (wd_sessions w) of
        Inl e \<Rightarrow> (Inl e, w)
      | Inr (l, s) \<Rightarrow> rehydrate_with_continuation env now response_id request (Some l) (w\<lparr>wd_sessions := s\<rparr>))"

text \<open>\<open>restored_loaded_tools\<close> of \<open>prepare.rs\<close>.\<close>

definition restored_loaded_tools ::
  "turn_env \<Rightarrow> request_context \<Rightarrow> world \<Rightarrow> executor_error + responses_tool list \<times> request_context" where
  "restored_loaded_tools env ctx w =
     (if \<not> contains_compaction (rq_input (rc_enriched_request ctx)) then Inr ([], ctx)
      else if rq_previous_response_id (rc_original_request ctx) \<noteq> None
      then
        (case Option.bind (Option.bind (rc_continuation ctx) (lease_at (wd_sessions w))) (lease_checkpoint (wd_sessions w)) of
           Some parent \<Rightarrow> Inr (unwrap_or (rm_tool_search_loaded_tools (ck_metadata parent)) [], ctx)
         | None \<Rightarrow>
             and_then (response_handler_get env (rc_original_request ctx) (wd_db w)) (\<lambda>stored.
               Inr (unwrap_or (rm_tool_search_loaded_tools (rd_metadata stored)) [], ctx)))
      else
        (case rc_conversation_version ctx of
           None \<Rightarrow> Inr ([], ctx)
         | Some version \<Rightarrow>
             and_then (conversation_handler_metadata env (rc_original_request ctx) version (wd_db w)) (\<lambda>metadata.
               case metadata of
                 None \<Rightarrow> Inr ([], ctx)
               | Some m \<Rightarrow>
                   Inr (unwrap_or (rm_tool_search_loaded_tools m) [],
                        if rm_tool_search_loaded_tools m \<noteq> None then apply_effective_settings m ctx else ctx))))"

section \<open>Persistence\<close>

text \<open>\<open>execute_turn_with_metadata\<close> of the response handler.\<close>

definition turn_items :: "request_context \<Rightarrow> continuation option \<Rightarrow> output_item list \<Rightarrow> in_out_item list" where
  "turn_items ctx c output =
     map StoredInput (rc_new_input_items ctx)
     @ map (\<lambda>(_, x). StoredOutput x)
         (filter (\<lambda>(index, x). case c of None \<Rightarrow> True | Some l \<Rightarrow> retains_output l index x) (enumerate 0 output))"

definition transient_parent :: "store \<Rightarrow> continuation \<Rightarrow> bool" where
  "transient_parent s c =
     (case lease_checkpoint s c of None \<Rightarrow> False | Some parent \<Rightarrow> \<not> ck_durable parent)"

definition write_response ::
  "turn_env \<Rightarrow> (nat \<Rightarrow> string) \<Rightarrow> i64 \<Rightarrow> request_context \<Rightarrow> string option \<Rightarrow> in_out_item list \<Rightarrow> response_metadata
   \<Rightarrow> database option \<Rightarrow> executor_error + database option" where
  "write_response env draw now ctx previous_id items metadata pool =
     (case response_persist (te_codec env) draw now (rc_response_id ctx) (rc_conversation_id ctx) previous_id items
             metadata pool of
        Inl e \<Rightarrow>
          Inl (if storage_is_unique_violation e
               then Conflict (''a turn is already stored under '' @ quoted (rc_response_id ctx))
               else Storage e)
      | Inr db \<Rightarrow> Inr (Some db))"

definition response_execute_turn ::
  "turn_env \<Rightarrow> (nat \<Rightarrow> string) \<Rightarrow> i64 \<Rightarrow> request_context \<Rightarrow> output_item list \<Rightarrow> response_metadata \<Rightarrow> world
   \<Rightarrow> (executor_error + unit) \<times> world" where
  "response_execute_turn env draw now ctx output metadata w =
     (case Option.bind (rc_continuation ctx)
             (\<lambda>i. map_option (\<lambda>c. (i, c)) (lease_at (wd_sessions w) i)) of
        None \<Rightarrow>
          (case write_response env draw now ctx (rm_previous_response_id metadata) (turn_items ctx None output)
                  metadata (wd_db w) of
             Inl e \<Rightarrow> (Inl e, w)
           | Inr pool \<Rightarrow> (Inr (), w\<lparr>wd_db := pool\<rparr>))
      | Some (i, c) \<Rightarrow>
          (let s = wd_sessions w; write_durable = rq_store (rc_original_request ctx);
               new_items = turn_items ctx (Some c) output;
               transient = transient_parent s c
           in case checkpoint (te_printers env) (te_writes env) c (rc_response_id ctx) (rc_conversation_id ctx)
                     metadata new_items write_durable s of
                Inl e \<Rightarrow> (Inl e, w\<lparr>wd_sessions := drop_lease i c s\<rparr>)
              | Inr (h, s') \<Rightarrow>
                  (case (if write_durable
                         then write_response env draw now ctx
                                (if transient then None else rm_previous_response_id metadata)
                                (if transient then map StoredInput (parent_items s c) @ new_items else new_items)
                                metadata (wd_db w)
                         else Inr (wd_db w)) of
                     Inl e \<Rightarrow> (Inl e, w\<lparr>wd_sessions := drop_lease i c (drop_prepared h s')\<rparr>)
                   | Inr pool \<Rightarrow>
                       (case publish i c h s' of
                          (None, s'') \<Rightarrow> (Inr (), w\<lparr>wd_db := pool, wd_sessions := s''\<rparr>)
                        | (Some e, s'') \<Rightarrow> (Inl e, w\<lparr>wd_db := pool, wd_sessions := s''\<rparr>)))))"

text \<open>\<open>execute_turn_with_metadata\<close> of the conversation handler; it never publishes a checkpoint.\<close>

definition conversation_execute_turn ::
  "turn_env \<Rightarrow> (nat \<Rightarrow> string) \<Rightarrow> i64 \<Rightarrow> request_context \<Rightarrow> output_item list \<Rightarrow> response_metadata \<Rightarrow> world
   \<Rightarrow> (executor_error + unit) \<times> world" where
  "conversation_execute_turn env draw now ctx output metadata w =
     (let result =
        and_then (ok_or (rc_conversation_id ctx) (InvalidRequest ''conversation_id is required for execute_turn'')) (\<lambda>cid.
        and_then (ok_or (rc_conversation_version ctx)
            (InvalidRequest ''conversation version is required for execute_turn'')) (\<lambda>version.
          case conversation_persist (te_codec env) draw now cid (Some version) (rc_response_id ctx)
                 (rm_previous_response_id metadata) (turn_items ctx None output) metadata (wd_db w) of
            Inl e \<Rightarrow> Inl (if storage_is_conversation_conflict e then ConversationLocked e else Storage e)
          | Inr db \<Rightarrow> Inr db))
      in case result of
           Inl e \<Rightarrow> (Inl e, end_lease (rc_continuation ctx) w)
         | Inr db \<Rightarrow> (Inr (), end_lease (rc_continuation ctx) (w\<lparr>wd_db := Some db\<rparr>)))"

record tool_search_metadata =
  tsm_effective_tools :: "responses_tool list option"
  tsm_loaded_tools :: "responses_tool list"

definition turn_metadata :: "request_context \<Rightarrow> tool_search_metadata option \<Rightarrow> response_metadata" where
  "turn_metadata ctx search =
     (let r = rc_enriched_request ctx;
          metadata = \<lparr>rm_model = rq_model r, rm_previous_response_id = rq_previous_response_id (rc_original_request ctx),
            rm_effective_tools = rq_tools r, rm_tool_search_loaded_tools = None,
            rm_effective_tool_choice = unwrap_or (rq_tool_choice r) ChoiceAuto,
            rm_effective_instructions = rq_instructions r\<rparr>
      in case search of
           None \<Rightarrow> metadata
         | Some m \<Rightarrow> metadata\<lparr>rm_effective_tools := tsm_effective_tools m,
                            rm_tool_search_loaded_tools := Some (tsm_loaded_tools m)\<rparr>)"

definition persist_prepared_turn ::
  "turn_env \<Rightarrow> (nat \<Rightarrow> string) \<Rightarrow> i64 \<Rightarrow> request_context \<Rightarrow> tool_search_metadata option \<Rightarrow> output_item list \<Rightarrow> world
   \<Rightarrow> (executor_error + unit) \<times> world" where
  "persist_prepared_turn env draw now ctx search output w =
     (if rq_conversation_id (rc_original_request ctx) \<noteq> None
      then conversation_execute_turn env draw now ctx output (turn_metadata ctx search) w
      else response_execute_turn env draw now ctx output (turn_metadata ctx search) w)"

definition should_persist :: "request_context \<Rightarrow> bool" where
  "should_persist ctx \<longleftrightarrow>
     rc_continuation ctx \<noteq> None \<or> rq_store (rc_original_request ctx)
     \<or> rq_previous_response_id (rc_original_request ctx) \<noteq> None
     \<or> rq_conversation_id (rc_original_request ctx) \<noteq> None"

definition persist_prepared_response ::
  "turn_env \<Rightarrow> (nat \<Rightarrow> string) \<Rightarrow> i64 \<Rightarrow> response_payload \<Rightarrow> request_context \<Rightarrow> tool_search_metadata option \<Rightarrow> world
   \<Rightarrow> (executor_error + unit) \<times> world" where
  "persist_prepared_response env draw now payload ctx search w =
     (if response_status_of_str (rp_status payload) \<notin> {StatusCompleted, StatusIncomplete} \<or> rp_id payload = ''''
      then (Inr (), end_lease (rc_continuation ctx) w)
      else persist_prepared_turn env draw now ctx search (rp_output payload) w)"

fun persistence_error :: "executor_error \<Rightarrow> executor_error" where
  "persistence_error (Conflict m) = Conflict m"
| "persistence_error (PayloadTooLarge m) = PayloadTooLarge m"
| "persistence_error source = Persistence source"

definition persist_if_needed ::
  "turn_env \<Rightarrow> (nat \<Rightarrow> string) \<Rightarrow> i64 \<Rightarrow> response_payload \<Rightarrow> request_context \<Rightarrow> tool_search_metadata option \<Rightarrow> world
   \<Rightarrow> (executor_error + unit) \<times> world" where
  "persist_if_needed env draw now payload ctx search w =
     (if should_persist ctx
      then (case persist_prepared_response env draw now payload ctx search w of
              (Inl e, w') \<Rightarrow> (Inl (persistence_error e), w')
            | (Inr _, w') \<Rightarrow> (Inr (), w'))
      else (Inr (), end_lease (rc_continuation ctx) w))"

section \<open>Committing a decoded turn\<close>

fun output_call :: "output_item \<Rightarrow> (string \<times> string) option" where
  "output_call (OutFunctionCall x) = Some (''function_call'', fc_call_id x)"
| "output_call (OutToolSearchCall x) = Some (''tool_search_call'', ts_call_id x)"
| "output_call (OutCustomToolCall x) = Some (''custom_tool_call'', ct_call_id x)"
| "output_call (OutShellCall x) = Some (''shell_call'', sc_call_id x)"
| "output_call _ = None"

fun input_call_id :: "input_item \<Rightarrow> string option" where
  "input_call_id (InFunctionCall x) = Some (ifn_call_id x)"
| "input_call_id (InToolSearchCall x) = Some (its_call_id x)"
| "input_call_id (InCustomToolCall x) = Some (ct_call_id x)"
| "input_call_id (InShellCall x) = Some (sc_call_id x)"
| "input_call_id _ = None"

fun stored_call_id :: "in_out_item \<Rightarrow> string option" where
  "stored_call_id (StoredInput x) = input_call_id x"
| "stored_call_id (StoredOutput x) = map_option snd (output_call x)"

type_synonym call_id_map = "(string, nat \<times> string) index_map"

fun collect_call_ids :: "nat \<Rightarrow> output_item list \<Rightarrow> call_id_map \<Rightarrow> executor_error + call_id_map" where
  "collect_call_ids index [] m = Inr m"
| "collect_call_ids index (x # xs) m =
     (case output_call x of
        None \<Rightarrow> collect_call_ids (Suc index) xs m
      | Some (item_type, call_id) \<Rightarrow>
          if call_id = ''''
          then Inl (InvalidRequest (''upstream response output['' @ show_nat index @ ''] '' @ item_type
                 @ '' has no valid '' @ quoted ''call_id''))
          else
            (case im_get m call_id of
               Some (first, _) \<Rightarrow> Inl (InvalidRequest (''upstream response output['' @ show_nat index @ ''] '' @ item_type
                 @ '' repeats '' @ quoted ''call_id'' @ '' from output['' @ show_nat first @ '']''))
             | None \<Rightarrow> collect_call_ids (Suc index) xs (im_insert call_id (index, item_type) m)))"

text \<open>The two scans of call ids already in use, over history and over the request's input.\<close>

fun check_call_ids :: "string \<Rightarrow> call_id_map \<Rightarrow> nat \<Rightarrow> string option list \<Rightarrow> executor_error + unit" where
  "check_call_ids origin m n [] = Inr ()"
| "check_call_ids origin m n (i # ids) =
     (case Option.bind i (im_get m) of
        None \<Rightarrow> check_call_ids origin m (Suc n) ids
      | Some (index, item_type) \<Rightarrow>
          Inl (InvalidRequest (''upstream response output['' @ show_nat index @ ''] '' @ item_type
            @ '' repeats '' @ quoted ''call_id'' @ '' from '' @ origin @ ''['' @ show_nat n @ '']'')))"

definition validate_output_call_ids ::
  "turn_env \<Rightarrow> request_context \<Rightarrow> output_item list \<Rightarrow> world \<Rightarrow> executor_error + unit" where
  "validate_output_call_ids env ctx output w =
     and_then (collect_call_ids 0 output []) (\<lambda>m.
       if m = [] then Inr ()
       else if rc_continuation ctx \<noteq> None
       then check_call_ids ''continued history item'' m 0
              (map input_call_id (model_items (rq_input (rc_enriched_request ctx))))
       else
         and_then (response_handler_rehydrate env (rc_original_request ctx) (wd_db w)) (\<lambda>history.
         and_then (check_call_ids ''continued history item'' m 0 (map stored_call_id history)) (\<lambda>_.
           check_call_ids ''request input'' m 0 (map input_call_id (rc_new_input_items ctx)))))"

definition commit_turn ::
  "turn_env \<Rightarrow> (nat \<Rightarrow> string) \<Rightarrow> i64 \<Rightarrow> request_context \<Rightarrow> response_payload \<Rightarrow> world
   \<Rightarrow> (executor_error + response_payload) \<times> world" where
  "commit_turn env draw now ctx payload w =
     (if rc_response_id ctx = ''''
      then (Inl (InvalidRequest ''context has no reserved response id''), end_lease (rc_continuation ctx) w)
      else
        let status = response_status_of_str (rp_status payload)
        in if status = StatusInProgress
           then (Inl (InvalidRequest (''upstream response status '' @ quoted (rp_status payload) @ '' is not terminal'')),
                 end_lease (rc_continuation ctx) w)
           else
             (case (if status \<in> {StatusCompleted, StatusIncomplete}
                    then validate_output_call_ids env ctx (rp_output payload) w else Inr ()) of
                Inl e \<Rightarrow> (Inl e, end_lease (rc_continuation ctx) w)
              | Inr _ \<Rightarrow>
                  (case persist_if_needed env draw now payload ctx None w of
                     (Inl e, w') \<Rightarrow> (Inl e, w')
                   | (Inr _, w') \<Rightarrow> (Inr payload, w'))))"

end
