(* ===== verification/Session_Invariant.thy ===== *)
theory Session_Invariant
  imports Session
begin

text \<open>
  The invariant of the session store and the proof that every step keeps it: checkpoints are
  allocated exactly while they are owned, every budget equals the reservations in the heap,
  leases are exclusive, closed sessions cache nothing, and groups keep their session cap.
\<close>

section \<open>Ownership invariant\<close>

definition allocated :: "store \<Rightarrow> handle \<Rightarrow> bool" where
  "allocated w h \<longleftrightarrow> h < length (st_heap w) \<and> st_heap w ! h \<noteq> None"

text \<open>Every owned checkpoint is allocated, and every allocated one is owned or about to be released.\<close>

definition owned_ok :: "handle set \<Rightarrow> store \<Rightarrow> bool" where
  "owned_ok D w \<longleftrightarrow> (\<forall>h. held w h \<longrightarrow> allocated w h) \<and> (\<forall>h. allocated w h \<longrightarrow> held w h \<or> h \<in> D)"

lemma held_iff: "held w h \<longleftrightarrow> h \<in> set (owners w)"
  by (auto simp: held_def list_ex_iff)

lemma set_option_list [simp]: "set (option_list x) = set_option x"
  by (cases x) (simp_all add: option_list_def)

lemma owners_iff:
  "h \<in> set (owners w) \<longleftrightarrow> h \<in> set (st_prepared w)
     \<or> (\<exists>i < length (st_sessions w). se_latest (st_sessions w ! i) = Some h)
     \<or> (\<exists>l < length (st_leases w). lease_parent (st_leases w ! l) = Some h)"
  by (fastforce simp: owners_def in_set_conv_nth)

lemma owned_ok_drop:
  assumes "owned_ok D w" "st_heap w' = st_heap w" "set (owners w') \<subseteq> set (owners w)"
    "set (owners w) \<subseteq> set (owners w') \<union> E"
  shows "owned_ok (D \<union> E) w'"
proof -
  have same: "allocated w' h = allocated w h" for h unfolding allocated_def assms(2) ..
  show ?thesis
    using assms(1) subsetD [OF assms(3)] subsetD [OF assms(4)]
    unfolding owned_ok_def held_iff same by blast
qed

text \<open>The charges of a budget: the reservations of the checkpoints in the heap.\<close>

definition charge_of :: "group_id \<Rightarrow> retained_checkpoint option \<Rightarrow> usize" where
  "charge_of g r =
     (case Option.bind r rt_reservation of
        None \<Rightarrow> 0
      | Some (g', bytes) \<Rightarrow> if g' = g then bytes else 0)"

definition charges :: "store \<Rightarrow> group_id \<Rightarrow> usize" where
  "charges w g = sum_list (map (charge_of g) (st_heap w))"

definition accounts_ok :: "store \<Rightarrow> bool" where
  "accounts_ok w \<longleftrightarrow>
     (\<forall>g < length (st_budgets w). bu_used (st_budgets w ! g) = charges w g
        \<and> charges w g \<le> bu_limit (st_budgets w ! g) \<and> bu_limit (st_budgets w ! g) \<le> usize_max)
     \<and> (\<forall>r g bytes. Some r \<in> set (st_heap w) \<longrightarrow> rt_reservation r = Some (g, bytes) \<longrightarrow> g < length (st_budgets w))"

lemma charges_free:
  assumes "h < length (st_heap w)"
  shows "sum_list (map (charge_of g) ((st_heap w)[h := None])) + charge_of g (st_heap w ! h) = charges w g"
proof -
  have "charge_of g (st_heap w ! h) \<le> sum_list (map (charge_of g) (st_heap w))"
    using assms by (intro member_le_sum_list) auto
  moreover have "charge_of g None = 0" by (simp add: charge_of_def)
  ultimately show ?thesis
    using assms by (simp add: charges_def map_update sum_list_update)
qed

lemma release_sessions [simp]:
  "st_sessions (release h w) = st_sessions w" "st_leases (release h w) = st_leases w"
  "st_prepared (release h w) = st_prepared w" "st_groups (release h w) = st_groups w"
  "length (st_budgets (release h w)) = length (st_budgets w)" "length (st_heap (release h w)) = length (st_heap w)"
  "owners (release h w) = owners w"
  by (auto simp: release_def refund_def owners_def split: option.splits)

lemma release_opt_sessions [simp]:
  "st_sessions (release_opt h w) = st_sessions w" "st_leases (release_opt h w) = st_leases w"
  "st_prepared (release_opt h w) = st_prepared w" "st_groups (release_opt h w) = st_groups w"
  "length (st_budgets (release_opt h w)) = length (st_budgets w)" "length (st_heap (release_opt h w)) = length (st_heap w)"
  "owners (release_opt h w) = owners w"
  by (cases h; simp add: release_opt_def)+

lemma release_owned:
  assumes "owned_ok (insert h D) w"
  shows "owned_ok D (release h w)"
proof (cases "held w h")
  case True
  with assms show ?thesis by (auto simp: release_def owned_ok_def)
next
  case False
  show ?thesis
  proof (cases "allocated w h")
    case True
    then obtain r where r: "st_heap w ! h = Some r" "h < length (st_heap w)" by (auto simp: allocated_def)
    have "allocated (release h w) k \<longleftrightarrow> allocated w k \<and> k \<noteq> h" for k
      using False r by (auto simp: release_def allocated_def nth_list_update)
    moreover have "held (release h w) k \<longleftrightarrow> held w k" for k by (simp add: held_iff)
    ultimately show ?thesis using assms False by (auto simp: owned_ok_def)
  next
    case notin: False
    have "allocated (release h w) k \<longleftrightarrow> allocated w k" for k
      using False notin
      by (cases "h < length (st_heap w)")
         (auto simp: release_def allocated_def nth_list_update split: option.splits)
    moreover have "held (release h w) k \<longleftrightarrow> held w k" for k by (simp add: held_iff)
    ultimately show ?thesis using assms notin by (auto simp: owned_ok_def)
  qed
qed

lemma release_opt_owned: "owned_ok (set_option h \<union> D) w \<Longrightarrow> owned_ok D (release_opt h w)"
  by (cases h) (simp_all add: release_opt_def release_owned)

lemma refund_other: "(\<And>bytes. r \<noteq> Some (g, bytes)) \<Longrightarrow> refund r bs ! g = bs ! g"
  by (auto simp: refund_def split: option.splits prod.splits) (metis nth_list_update_neq)

lemma refund_own:
  "g < length bs \<Longrightarrow> refund (Some (g, bytes)) bs ! g =
     (bs ! g)\<lparr>bu_used := (bu_used (bs ! g) + 2 ^ 64 - bytes) mod 2 ^ 64\<rparr>"
  by (simp add: refund_def)

lemma release_accounts:
  assumes "accounts_ok w" "h < length (st_heap w)"
  shows "accounts_ok (release h w)"
proof (cases "held w h \<or> st_heap w ! h = None")
  case True
  with assms(1) show ?thesis by (auto simp: release_def)
next
  case False
  then obtain r where r: "st_heap w ! h = Some r" by auto
  let ?w = "release h w"
  have heap: "st_heap ?w = (st_heap w)[h := None]"
    and budgets: "st_budgets ?w = refund (rt_reservation r) (st_budgets w)"
    using False r by (simp_all add: release_def)
  have free: "charges ?w g + charge_of g (Some r) = charges w g" for g
    using charges_free [OF assms(2), of g] r by (simp add: charges_def heap)
  have "bu_used (st_budgets ?w ! g) = charges ?w g \<and> bu_limit (st_budgets ?w ! g) = bu_limit (st_budgets w ! g)"
    if g: "g < length (st_budgets w)" for g
  proof (cases "\<exists>bytes. rt_reservation r = Some (g, bytes)")
    case True
    then obtain bytes where res: "rt_reservation r = Some (g, bytes)" by blast
    with free [of g] have sum: "charges ?w g + bytes = charges w g" by (simp add: charge_of_def)
    have acc: "bu_used (st_budgets w ! g) = charges w g" "charges w g \<le> usize_max"
      using assms(1) g by (auto simp: accounts_ok_def intro: order_trans)
    then have "(bu_used (st_budgets w ! g) + 2 ^ 64 - bytes) mod 2 ^ 64 = charges ?w g"
    proof -
      have "charges w g + 2 ^ 64 - bytes = charges ?w g + 2 ^ 64" using sum by simp
      moreover have "charges ?w g < 2 ^ 64" using sum acc(2) by (simp add: usize_max_def)
      ultimately show ?thesis by (simp add: acc(1))
    qed
    with res g show ?thesis by (simp add: budgets refund_own)
  next
    case False
    with free [of g] have "charges ?w g = charges w g" by (auto simp: charge_of_def split: option.splits)
    with False assms(1) g show ?thesis by (simp add: budgets refund_other accounts_ok_def)
  qed
  moreover have "charges ?w g \<le> bu_limit (st_budgets w ! g)" if "g < length (st_budgets w)" for g
  proof -
    have "charges ?w g \<le> charges w g" using free [of g] by simp
    with assms(1) that show ?thesis by (auto simp: accounts_ok_def intro: order_trans)
  qed
  moreover have "g < length (st_budgets w)" if "Some r' \<in> set (st_heap ?w)" "rt_reservation r' = Some (g, bytes)" for r' g bytes
  proof -
    from that(1) have "Some r' \<in> set (st_heap w)"
      unfolding heap using set_update_subset_insert [of "st_heap w" h None] by auto
    with that(2) assms(1) show ?thesis by (auto simp: accounts_ok_def)
  qed
  ultimately show ?thesis
    using assms(1) by (simp add: accounts_ok_def)
qed

lemma release_opt_accounts:
  "accounts_ok w \<Longrightarrow> (\<And>x. h = Some x \<Longrightarrow> x < length (st_heap w)) \<Longrightarrow> accounts_ok (release_opt h w)"
  by (cases h) (auto simp: release_opt_def intro: release_accounts)

text \<open>Both invariants of the heap together, with the checkpoints about to be released.\<close>

definition heap_ok :: "handle set \<Rightarrow> store \<Rightarrow> bool" where
  "heap_ok D w \<longleftrightarrow> owned_ok D w \<and> accounts_ok w \<and> (\<forall>h \<in> D. h < length (st_heap w))"

lemma heap_ok_release_opt:
  assumes "heap_ok (set_option h \<union> D) w"
  shows "heap_ok D (release_opt h w)"
  using assms by (auto simp: heap_ok_def release_opt_owned intro: release_opt_accounts)

lemma heap_ok_release: "heap_ok (insert h D) w \<Longrightarrow> heap_ok D (release h w)"
  by (auto simp: heap_ok_def release_owned intro: release_accounts)

lemma heap_ok_owner: "heap_ok D w \<Longrightarrow> h \<in> set (owners w) \<Longrightarrow> h < length (st_heap w)"
  by (auto simp: heap_ok_def owned_ok_def held_iff allocated_def)

lemma accounts_cong: "st_heap w' = st_heap w \<Longrightarrow> st_budgets w' = st_budgets w \<Longrightarrow> accounts_ok w' = accounts_ok w"
  by (simp add: accounts_ok_def charges_def)

lemma heap_ok_drop:
  assumes "heap_ok D w" "st_heap w' = st_heap w" "st_budgets w' = st_budgets w"
    "set (owners w') \<subseteq> set (owners w)" "set (owners w) \<subseteq> set (owners w') \<union> E" "E \<subseteq> set (owners w)"
  shows "heap_ok (E \<union> D) w'"
proof -
  have "owned_ok (D \<union> E) w'"
    using assms by (intro owned_ok_drop [of D w]) (auto simp: heap_ok_def)
  moreover have "h < length (st_heap w')" if "h \<in> E \<union> D" for h
    using that assms heap_ok_owner [OF assms(1)] by (auto simp: heap_ok_def)
  ultimately show ?thesis
    using assms(1) accounts_cong [OF assms(2,3)] by (simp add: heap_ok_def Un_commute)
qed

section \<open>Owners under updates\<close>

lemma set_session_fields [simp]:
  "st_heap (set_session i s w) = st_heap w" "st_budgets (set_session i s w) = st_budgets w"
  "st_leases (set_session i s w) = st_leases w" "st_groups (set_session i s w) = st_groups w"
  "st_prepared (set_session i s w) = st_prepared w" "st_sessions (set_session i s w) = (st_sessions w)[i := s]"
  by (simp_all add: set_session_def)

lemma set_lease_fields [simp]:
  "st_heap (set_lease l c w) = st_heap w" "st_budgets (set_lease l c w) = st_budgets w"
  "st_leases (set_lease l c w) = (st_leases w)[l := c]" "st_groups (set_lease l c w) = st_groups w"
  "st_prepared (set_lease l c w) = st_prepared w" "st_sessions (set_lease l c w) = st_sessions w"
  by (simp_all add: set_lease_def)

lemma lease_parent_simps [simp]: "lease_parent None = None" "lease_parent (Some c) = co_parent c"
  by (simp_all add: lease_parent_def)

lemma owners_set_session:
  assumes "i < length (st_sessions w)"
  shows "set (owners (set_session i s w)) \<subseteq> set (owners w) \<union> set_option (se_latest s)"
    "set (owners w) \<subseteq> set (owners (set_session i s w)) \<union> set_option (se_latest (st_sessions w ! i))"
    "set_option (se_latest s) \<subseteq> set (owners (set_session i s w))"
  using assms by (auto simp: owners_iff nth_list_update split: if_splits; metis)+

lemma owners_set_lease:
  assumes "l < length (st_leases w)"
  shows "set (owners (set_lease l c w)) \<subseteq> set (owners w) \<union> set_option (lease_parent c)"
    "set (owners w) \<subseteq> set (owners (set_lease l c w)) \<union> set_option (lease_parent (st_leases w ! l))"
    "set_option (lease_parent c) \<subseteq> set (owners (set_lease l c w))"
  using assms by (auto simp: owners_iff nth_list_update split: if_splits; metis)+

lemma owners_unprepare:
  "set (owners (w\<lparr>st_prepared := removeAll h (st_prepared w)\<rparr>)) \<subseteq> set (owners w)"
  "set (owners w) \<subseteq> set (owners (w\<lparr>st_prepared := removeAll h (st_prepared w)\<rparr>)) \<union> {h}"
  by (auto simp: owners_def)

lemma latest_owner: "i < length (st_sessions w) \<Longrightarrow> se_latest (st_sessions w ! i) = Some h \<Longrightarrow> h \<in> set (owners w)"
  by (auto simp: owners_iff)

lemma parent_owner: "l < length (st_leases w) \<Longrightarrow> st_leases w ! l = Some c \<Longrightarrow> co_parent c = Some h \<Longrightarrow> h \<in> set (owners w)"
  by (force simp: owners_iff)

lemma prepared_owner: "h \<in> set (st_prepared w) \<Longrightarrow> h \<in> set (owners w)"
  by (simp add: owners_def)

section \<open>Every operation keeps the heap invariant\<close>

lemma heap_ok_same:
  "heap_ok D w \<Longrightarrow> st_heap w' = st_heap w \<Longrightarrow> st_budgets w' = st_budgets w
     \<Longrightarrow> set (owners w') = set (owners w) \<Longrightarrow> heap_ok D w'"
  using heap_ok_drop [of D w w' "{}"] by simp

lemma heap_close_session:
  assumes "heap_ok {} w" "i < length (st_sessions w)"
  shows "heap_ok {} (close_session i w)"
proof -
  let ?s = "st_sessions w ! i"
  let ?w = "set_session i (?s\<lparr>se_closed := True, se_latest := None\<rparr>) w"
  have "set_option (se_latest ?s) \<subseteq> set (owners w)" using latest_owner [OF assms(2)] by auto
  then have "heap_ok (set_option (se_latest ?s) \<union> {}) ?w"
    using owners_set_session [OF assms(2), of "?s\<lparr>se_closed := True, se_latest := None\<rparr>"]
    by (intro heap_ok_drop [OF assms(1)]) auto
  then show ?thesis unfolding close_session_def Let_def by (rule heap_ok_release_opt)
qed

lemma heap_discard:
  assumes "heap_ok {} w" "i < length (st_sessions w)"
  shows "heap_ok {} (discard_cached_response i rid w)"
proof (cases "se_latest (st_sessions w ! i)")
  case None
  with assms show ?thesis by (simp add: discard_cached_response_def)
next
  case (Some h)
  let ?w = "set_session i ((st_sessions w ! i)\<lparr>se_latest := None\<rparr>) w"
  have "heap_ok (set_option (Some h) \<union> {}) ?w"
    using owners_set_session [OF assms(2), of "(st_sessions w ! i)\<lparr>se_latest := None\<rparr>"] Some
      latest_owner [OF assms(2) Some]
    by (intro heap_ok_drop [OF assms(1)]) auto
  with assms(1) Some show ?thesis
    by (auto simp: discard_cached_response_def Let_def intro: heap_ok_release)
qed

lemma heap_drop_prepared:
  assumes "heap_ok {} w" "h \<in> set (st_prepared w)"
  shows "heap_ok {} (drop_prepared h w)"
  unfolding drop_prepared_def
  by (rule heap_ok_release, rule heap_ok_drop [where E = "{h}" and D = "{}", simplified, OF assms(1)])
     (use owners_unprepare(1) [of h w] owners_unprepare(2) [of w h] prepared_owner [OF assms(2)] in auto)

lemma heap_drop_lease:
  assumes "heap_ok {} w" "l < length (st_leases w)" "st_leases w ! l = Some c" "co_session c < length (st_sessions w)"
  shows "heap_ok {} (drop_lease l c w)"
proof -
  define s where "s = st_sessions w ! co_session c"
  define s' where "s' = s\<lparr>se_latest := (if (case (co_parent c, se_latest s) of
                     (Some parent, Some latest) \<Rightarrow> response_id_of w latest = response_id_of w parent
                   | _ \<Rightarrow> False) then None else se_latest s), se_active := False\<rparr>"
  let ?w1 = "set_session (co_session c) s' w" and ?w2 = "set_lease l None (set_session (co_session c) s' w)"
  have l1: "l < length (st_leases ?w1)" "st_leases ?w1 ! l = Some c" using assms(2,3) by simp_all
  have latest: "set_option (se_latest s') \<subseteq> set_option (se_latest s)" by (simp add: s'_def)
  have roots: "set_option (se_latest s) \<subseteq> set (owners w)" "set_option (co_parent c) \<subseteq> set (owners w)"
    using latest_owner [OF assms(4)] parent_owner [OF assms(2,3)] by (auto simp: s_def)
  have "heap_ok ((set_option (se_latest s) \<union> set_option (co_parent c)) \<union> {}) ?w2"
    using owners_set_session [OF assms(4), of s'] owners_set_lease [OF l1(1), of None] latest roots l1(2)
    by (intro heap_ok_drop [OF assms(1)]) (auto simp: s_def [symmetric])
  then have "heap_ok {} (release_opt (co_parent c) (release_opt (se_latest s) ?w2))"
    by (intro heap_ok_release_opt) (simp add: Un_assoc)
  then show ?thesis unfolding drop_lease_def Let_def s_def [symmetric] s'_def [symmetric] .
qed

lemma heap_publish:
  assumes "heap_ok {} w" "l < length (st_leases w)" "st_leases w ! l = Some c" "co_session c < length (st_sessions w)"
    and "h \<in> set (st_prepared w)"
  shows "heap_ok {} (snd (publish l c h w))"
proof (cases "se_closed (st_sessions w ! co_session c)")
  case True
  have "heap_ok {} (drop_lease l c (drop_prepared h w))"
    using assms(2,3,4) by (intro heap_drop_lease heap_drop_prepared assms(1,5)) (simp_all add: drop_prepared_def)
  with True show ?thesis by (simp add: publish_def Let_def)
next
  case False
  define s where "s = st_sessions w ! co_session c"
  define s' where "s' = s\<lparr>se_latest := Some h, se_active := False\<rparr>"
  let ?w0 = "w\<lparr>st_prepared := removeAll h (st_prepared w)\<rparr>"
  let ?w1 = "set_session (co_session c) s' ?w0"
  let ?w2 = "set_lease l None ?w1"
  have i: "co_session c < length (st_sessions ?w0)" "st_sessions ?w0 ! co_session c = s"
    and l1: "l < length (st_leases ?w1)" "st_leases ?w1 ! l = Some c"
    using assms(2-4) by (simp_all add: s_def)
  have roots: "set_option (se_latest s) \<subseteq> set (owners w)" "set_option (co_parent c) \<subseteq> set (owners w)"
    "h \<in> set (owners w)"
    using latest_owner [OF assms(4)] parent_owner [OF assms(2,3)] prepared_owner [OF assms(5)]
    by (auto simp: s_def)
  have in1: "h \<in> set (owners ?w1)" using owners_set_session(3) [OF i(1), of s'] by (simp add: s'_def)
  have in2: "h \<in> set (owners ?w2) \<or> h \<in> set_option (co_parent c)"
    using in1 owners_set_lease(2) [OF l1(1), of None] l1(2) by auto
  have up: "set (owners ?w2) \<subseteq> set (owners w)"
    using owners_set_session(1) [OF i(1), of s'] owners_set_lease(1) [OF l1(1), of None] owners_unprepare(1) [of h w] roots
    by (auto simp: s'_def)
  have down: "set (owners w) \<subseteq> set (owners ?w2) \<union> (set_option (se_latest s) \<union> set_option (co_parent c))"
    using owners_unprepare(2) [of w h] owners_set_session(2) [OF i(1), of s'] owners_set_lease(2) [OF l1(1), of None]
      in2 i(2) l1(2) by auto
  have "heap_ok ((set_option (se_latest s) \<union> set_option (co_parent c)) \<union> {}) ?w2"
    by (rule heap_ok_drop [OF assms(1) _ _ up down]) (use roots in simp_all)
  then have "heap_ok {} (release_opt (co_parent c) (release_opt (se_latest s) ?w2))"
    by (intro heap_ok_release_opt) (simp add: Un_assoc)
  with False show ?thesis by (simp add: publish_def Let_def s_def s'_def)
qed

lemma heap_pin_parent:
  assumes "heap_ok {} w" "l < length (st_leases w)" "st_leases w ! l = Some c" "h \<in> set (st_prepared w)"
  shows "heap_ok {} (pin_parent l c h w)"
proof -
  let ?w0 = "w\<lparr>st_prepared := removeAll h (st_prepared w)\<rparr>"
  let ?c = "Some (c\<lparr>co_parent := Some h\<rparr>)"
  have l0: "l < length (st_leases ?w0)" "st_leases ?w0 ! l = Some c" using assms(2,3) by simp_all
  have roots: "set_option (co_parent c) \<subseteq> set (owners w)" "h \<in> set (owners w)"
    using parent_owner [OF assms(2,3)] prepared_owner [OF assms(4)] by auto
  have "heap_ok (set_option (co_parent c) \<union> {}) (set_lease l ?c ?w0)"
    using owners_unprepare(1) [of h w] owners_unprepare(2) [of w h] owners_set_lease [OF l0(1), of ?c] roots l0(2)
    by (intro heap_ok_drop [OF assms(1)]) auto
  then show ?thesis unfolding pin_parent_def by (rule heap_ok_release_opt)
qed

section \<open>Turns are serial, closed sessions stay empty, groups keep their cap\<close>

text \<open>
  \<open>serial A L\<close>: \<open>A\<close> says which sessions are active and \<open>L\<close> which session each lease holds. Every
  lease holds an active session, no two leases the same one, and every active session is held.
\<close>

definition serial :: "bool list \<Rightarrow> session_id option list \<Rightarrow> bool" where
  "serial A L \<longleftrightarrow>
     (\<forall>l < length L. \<forall>i. L ! l = Some i \<longrightarrow> i < length A \<and> A ! i)
     \<and> (\<forall>l1 < length L. \<forall>l2 < length L. \<forall>i. L ! l1 = Some i \<longrightarrow> L ! l2 = Some i \<longrightarrow> l1 = l2)
     \<and> (\<forall>i < length A. A ! i \<longrightarrow> (\<exists>l < length L. L ! l = Some i))"

definition actives :: "store \<Rightarrow> bool list" where
  "actives w = map se_active (st_sessions w)"

definition holders :: "store \<Rightarrow> session_id option list" where
  "holders w = map (map_option co_session) (st_leases w)"

definition group_list :: "store \<Rightarrow> group_id option list" where
  "group_list w = map se_group (st_sessions w)"

definition grouped :: "group_id option list \<Rightarrow> group_id \<Rightarrow> session_id list" where
  "grouped gs g = filter (\<lambda>i. gs ! i = Some g) [0..<length gs]"

definition groups_ok :: "group_id option list \<Rightarrow> session_group list \<Rightarrow> bool" where
  "groups_ok gs groups \<longleftrightarrow>
     (\<forall>i < length gs. \<forall>g. gs ! i = Some g \<longrightarrow> g < length groups)
     \<and> (\<forall>g < length groups. length (grouped gs g) \<le> gr_max_sessions (groups ! g)
          \<and> (\<not> gr_closed (groups ! g) \<longrightarrow> gr_members (groups ! g) = grouped gs g))"

definition closed_ok :: "store \<Rightarrow> bool" where
  "closed_ok w \<longleftrightarrow>
     (\<forall>s \<in> set (st_sessions w). (se_closed s \<longrightarrow> se_latest s = None)
        \<and> (\<forall>g. se_group s = Some g \<longrightarrow> gr_closed (st_groups w ! g) \<longrightarrow> se_closed s))"

definition store_ok :: "store \<Rightarrow> bool" where
  "store_ok w \<longleftrightarrow> heap_ok {} w \<and> serial (actives w) (holders w) \<and> groups_ok (group_list w) (st_groups w)
     \<and> length (st_budgets w) = length (st_groups w) \<and> closed_ok w"

lemma serial_add: "serial A L \<Longrightarrow> serial (A @ [False]) L"
  by (auto simp: serial_def nth_append)

lemma serial_begin:
  assumes "serial A L" "i < length A" "\<not> A ! i"
  shows "serial (A[i := True]) (L @ [Some i])"
proof -
  have free: "L ! l \<noteq> Some i" if "l < length L" for l using assms that by (auto simp: serial_def)
  have "\<exists>l < length (L @ [Some i]). (L @ [Some i]) ! l = Some j" if "j < length A" "A[i := True] ! j" for j
  proof (cases "j = i")
    case True
    then show ?thesis by (intro exI [of _ "length L"]) simp
  next
    case False
    with that assms(1) obtain l where "l < length L" "L ! l = Some j" by (auto simp: serial_def)
    then show ?thesis by (intro exI [of _ l]) (simp add: nth_append)
  qed
  with assms(1,2) free show ?thesis
    unfolding serial_def by (auto simp: nth_append nth_list_update less_Suc_eq)
qed

lemma serial_finish:
  assumes "serial A L" "l < length L" "L ! l = Some i"
  shows "serial (A[i := False]) (L[l := None])"
proof -
  have uniq: "k = l" if "k < length L" "L ! k = Some i" for k using assms that by (auto simp: serial_def)
  have "\<exists>k < length L. L[l := None] ! k = Some j" if "j < length A" "A[i := False] ! j" for j
  proof -
    have "j \<noteq> i" using that by auto
    with that assms(1) obtain k where k: "k < length L" "L ! k = Some j" by (auto simp: serial_def)
    with assms(3) \<open>j \<noteq> i\<close> have "k \<noteq> l" by auto
    with k show ?thesis by (intro exI [of _ k]) simp
  qed
  moreover have "L[l := None] ! k = Some j \<longleftrightarrow> k \<noteq> l \<and> L ! k = Some j" if "k < length L" for k j
    using that by (cases "k = l") simp_all
  moreover have "A[i := False] ! j \<longleftrightarrow> j \<noteq> i \<and> A ! j" if "j < length A" for j
    using that by (cases "j = i") simp_all
  ultimately show ?thesis
    using assms(1) uniq unfolding serial_def by (simp del: not_None_eq) metis
qed

lemma grouped_append:
  "grouped (gs @ [x]) g = grouped gs g @ (if x = Some g then [length gs] else [])"
proof -
  have "filter (\<lambda>i. (gs @ [x]) ! i = Some g) [0..<length gs] = filter (\<lambda>i. gs ! i = Some g) [0..<length gs]"
    by (rule filter_cong) (auto simp: nth_append)
  then show ?thesis by (simp add: grouped_def)
qed

lemma groups_ok_add:
  assumes "groups_ok gs groups" "g < length groups" "length (gr_members (groups ! g)) < gr_max_sessions (groups ! g)"
    "\<not> gr_closed (groups ! g)"
  shows "groups_ok (gs @ [Some g]) (groups[g := (groups ! g)\<lparr>gr_members := gr_members (groups ! g) @ [length gs]\<rparr>])"
  using assms by (auto simp: groups_ok_def grouped_append nth_append nth_list_update less_Suc_eq)

lemma groups_ok_standalone: "groups_ok gs groups \<Longrightarrow> groups_ok (gs @ [None]) groups"
  by (auto simp: groups_ok_def grouped_append nth_append less_Suc_eq)

lemma groups_ok_close:
  "groups_ok gs groups \<Longrightarrow> g < length groups \<Longrightarrow>
     groups_ok gs (groups[g := (groups ! g)\<lparr>gr_closed := True, gr_members := []\<rparr>])"
  by (auto simp: groups_ok_def nth_list_update)

lemma groups_ok_new:
  assumes "groups_ok gs groups" "gr_members new = []"
  shows "groups_ok gs (groups @ [new])"
proof -
  have "grouped gs (length groups) = []"
    using assms(1) by (auto simp: groups_ok_def grouped_def filter_empty_conv)
  with assms show ?thesis by (auto simp: groups_ok_def nth_append less_Suc_eq)
qed

lemma view_release [simp]:
  "actives (release_opt h w) = actives w" "holders (release_opt h w) = holders w"
  "group_list (release_opt h w) = group_list w" "closed_ok (release_opt h w) = closed_ok w"
  "actives (release k w) = actives w" "holders (release k w) = holders w"
  "group_list (release k w) = group_list w" "closed_ok (release k w) = closed_ok w"
  by (simp_all add: actives_def holders_def group_list_def closed_ok_def)

lemma view_set_session:
  assumes "i < length (st_sessions w)" "se_group s = se_group (st_sessions w ! i)"
  shows "actives (set_session i s w) = (actives w)[i := se_active s]" "holders (set_session i s w) = holders w"
    "group_list (set_session i s w) = group_list w"
proof -
  have "map se_group (st_sessions w) ! i = se_group s" using assms by simp
  then show "group_list (set_session i s w) = group_list w"
    using list_update_id [of "map se_group (st_sessions w)" i] by (simp add: group_list_def map_update)
qed (simp_all add: actives_def holders_def map_update)

lemma view_set_lease:
  "actives (set_lease l c w) = actives w" "holders (set_lease l c w) = (holders w)[l := map_option co_session c]"
  "group_list (set_lease l c w) = group_list w" "closed_ok (set_lease l c w) = closed_ok w"
  by (simp_all add: actives_def holders_def group_list_def closed_ok_def map_update)

lemma closed_set_session:
  assumes "closed_ok w" "i < length (st_sessions w)" "se_group s = se_group (st_sessions w ! i)"
    "se_closed (st_sessions w ! i) \<Longrightarrow> se_closed s" "se_closed s \<Longrightarrow> se_latest s = None"
  shows "closed_ok (set_session i s w)"
proof -
  have old: "st_sessions w ! i \<in> set (st_sessions w)" using assms(2) by simp
  have "t = s \<or> t \<in> set (st_sessions w)" if "t \<in> set ((st_sessions w)[i := s])" for t
    using that set_update_subset_insert [of "st_sessions w" i s] by auto
  moreover have "(se_closed s \<longrightarrow> se_latest s = None)
      \<and> (\<forall>g. se_group s = Some g \<longrightarrow> gr_closed (st_groups w ! g) \<longrightarrow> se_closed s)"
    using assms old by (auto simp: closed_ok_def)
  ultimately show ?thesis
    using assms(1) unfolding closed_ok_def by (metis set_session_fields(4,6))
qed

lemma actives_same: "i < length (st_sessions w) \<Longrightarrow> (actives w)[i := se_active (st_sessions w ! i)] = actives w"
  using list_update_id [of "actives w" i] by (simp add: actives_def)

section \<open>Every step keeps the store invariant\<close>

lemma store_ok_close:
  assumes "store_ok w" "i < length (st_sessions w)"
  shows "store_ok (close_session i w)"
proof -
  let ?s = "st_sessions w ! i"
  let ?s' = "?s\<lparr>se_closed := True, se_latest := None\<rparr>"
  have "serial ((actives w)[i := se_active ?s]) (holders w)"
    using assms by (simp add: store_ok_def actives_same)
  moreover have "closed_ok (set_session i ?s' w)"
    using assms by (intro closed_set_session) (auto simp: store_ok_def)
  ultimately show ?thesis
    using assms heap_close_session [of w i]
    by (simp add: store_ok_def close_session_def Let_def view_set_session)
qed

lemma close_session_fields:
  assumes "i < length (st_sessions w)"
  shows "length (st_sessions (close_session i w)) = length (st_sessions w)"
    "st_groups (close_session i w) = st_groups w" "st_leases (close_session i w) = st_leases w"
    "j < length (st_sessions w) \<Longrightarrow> se_closed (st_sessions (close_session i w) ! j) = (j = i \<or> se_closed (st_sessions w ! j))"
    "j < length (st_sessions w) \<Longrightarrow> se_group (st_sessions (close_session i w) ! j) = se_group (st_sessions w ! j)"
  using assms by (auto simp: close_session_def Let_def nth_list_update)

text \<open>
  While a group is being dropped its own sessions may still be open: \<open>closing g\<close> is the
  invariant of closed sessions without that group.
\<close>

definition closing :: "group_id \<Rightarrow> store \<Rightarrow> bool" where
  "closing g w \<longleftrightarrow>
     heap_ok {} w \<and> serial (actives w) (holders w) \<and> groups_ok (group_list w) (st_groups w)
     \<and> length (st_budgets w) = length (st_groups w)
     \<and> (\<forall>i < length (st_sessions w). (se_closed (st_sessions w ! i) \<longrightarrow> se_latest (st_sessions w ! i) = None)
          \<and> (\<forall>g'. se_group (st_sessions w ! i) = Some g' \<longrightarrow> g' \<noteq> g \<longrightarrow> gr_closed (st_groups w ! g')
               \<longrightarrow> se_closed (st_sessions w ! i)))"

lemma closing_close:
  assumes "closing g w" "i < length (st_sessions w)"
  shows "closing g (close_session i w)"
proof -
  have "serial ((actives w)[i := se_active (st_sessions w ! i)]) (holders w)"
    using assms by (simp add: closing_def actives_same)
  then show ?thesis
    using assms heap_close_session [of w i]
    by (auto simp: closing_def close_session_def Let_def view_set_session nth_list_update)
qed

lemma closing_fold:
  assumes "closing g w" "set ms \<subseteq> {..< length (st_sessions w)}"
  shows "closing g (fold close_session ms w)
    \<and> length (st_sessions (fold close_session ms w)) = length (st_sessions w)
    \<and> st_groups (fold close_session ms w) = st_groups w
    \<and> (\<forall>j < length (st_sessions w).
         se_closed (st_sessions (fold close_session ms w) ! j) = (j \<in> set ms \<or> se_closed (st_sessions w ! j))
         \<and> se_group (st_sessions (fold close_session ms w) ! j) = se_group (st_sessions w ! j))"
  using assms
proof (induction ms arbitrary: w)
  case (Cons m ms)
  then have m: "m < length (st_sessions w)" by simp
  from Cons.IH [of "close_session m w"] Cons.prems closing_close [OF Cons.prems(1) m]
  show ?case by (simp add: close_session_fields [OF m]) blast
qed simp

lemma store_ok_drop_group:
  assumes "store_ok w" "g < length (st_groups w)" "\<not> gr_closed (st_groups w ! g)"
  shows "store_ok (drop_group g w)"
proof -
  let ?gr = "st_groups w ! g"
  let ?w = "w\<lparr>st_groups := (st_groups w)[g := ?gr\<lparr>gr_closed := True, gr_members := []\<rparr>]\<rparr>"
  have members: "gr_members ?gr = grouped (group_list w) g"
    using assms by (simp add: store_ok_def groups_ok_def)
  then have ms: "j \<in> set (gr_members ?gr) \<longleftrightarrow> j < length (st_sessions w) \<and> se_group (st_sessions w ! j) = Some g" for j
    by (auto simp: grouped_def group_list_def)
  have "heap_ok {} ?w"
    by (rule heap_ok_same [of "{}" w]) (use assms(1) in \<open>simp_all add: store_ok_def owners_def\<close>)
  moreover have "closed_ok w" using assms(1) by (simp add: store_ok_def)
  moreover have "groups_ok (group_list w) (st_groups ?w)"
    using assms by (simp add: store_ok_def groups_ok_close)
  ultimately have "closing g ?w"
    using assms(1) unfolding closing_def
    by (simp add: store_ok_def closed_ok_def actives_def holders_def group_list_def)
  from closing_fold [OF this, of "gr_members ?gr"] ms
  have c: "closing g (drop_group g w)"
    and len: "length (st_sessions (drop_group g w)) = length (st_sessions w)"
    and groups: "st_groups (drop_group g w) = st_groups ?w"
    and sessions: "\<And>j. j < length (st_sessions w) \<Longrightarrow>
       se_closed (st_sessions (drop_group g w) ! j) = (j \<in> set (gr_members ?gr) \<or> se_closed (st_sessions w ! j))
       \<and> se_group (st_sessions (drop_group g w) ! j) = se_group (st_sessions w ! j)"
    by (auto simp: drop_group_def Let_def subset_iff)
  have "closed_ok (drop_group g w)"
    unfolding closed_ok_def
  proof (intro ballI)
    fix s assume "s \<in> set (st_sessions (drop_group g w))"
    then obtain j where j: "j < length (st_sessions w)" and s: "s = st_sessions (drop_group g w) ! j"
      by (auto simp: in_set_conv_nth len)
    show "(se_closed s \<longrightarrow> se_latest s = None)
        \<and> (\<forall>g'. se_group s = Some g' \<longrightarrow> gr_closed (st_groups (drop_group g w) ! g') \<longrightarrow> se_closed s)"
      using c sessions [OF j] j ms [of j] unfolding closing_def len s by auto
  qed
  with c show ?thesis by (simp add: closing_def store_ok_def)
qed

lemma store_ok_new_group:
  assumes "store_ok w" "max_retained_bytes \<le> usize_max"
  shows "store_ok (new_group max_sessions max_items max_bytes max_retained_bytes w)"
proof -
  let ?w = "new_group max_sessions max_items max_bytes max_retained_bytes w"
  have eqs: "st_heap ?w = st_heap w" "owners ?w = owners w" "st_sessions ?w = st_sessions w" "st_leases ?w = st_leases w"
    by (simp_all add: new_group_def owners_def)
  have acc: "accounts_ok w" and owned: "owned_ok {} w" and gok: "groups_ok (group_list w) (st_groups w)"
    and clo: "closed_ok w" and len: "length (st_budgets w) = length (st_groups w)"
    using assms(1) by (simp_all add: store_ok_def heap_ok_def)
  have zero: "charges w (length (st_budgets w)) = 0"
  proof -
    have "charge_of (length (st_budgets w)) r = 0" if "r \<in> set (st_heap w)" for r
      using acc that by (cases r) (auto simp: accounts_ok_def charge_of_def split: option.splits)
    then have "map (charge_of (length (st_budgets w))) (st_heap w) = map (\<lambda>_. 0) (st_heap w)" by simp
    then show ?thesis unfolding charges_def by (simp del: map_eq_conv)
  qed
  have charges_new: "charges ?w = charges w" by (simp add: charges_def fun_eq_iff eqs)
  have budgets: "st_budgets ?w = st_budgets w @ [\<lparr>bu_used = 0, bu_limit = max_retained_bytes\<rparr>]"
    by (simp add: new_group_def)
  have "bu_used (st_budgets ?w ! g) = charges w g \<and> charges w g \<le> bu_limit (st_budgets ?w ! g)
      \<and> bu_limit (st_budgets ?w ! g) \<le> usize_max" if "g < length (st_budgets ?w)" for g
    using acc assms(2) zero that
    by (cases "g = length (st_budgets w)") (simp_all add: budgets nth_append accounts_ok_def)
  moreover have "g < length (st_budgets ?w)"
    if "Some r \<in> set (st_heap w)" "rt_reservation r = Some (g, bytes)" for r g bytes
    using acc that by (auto simp: accounts_ok_def budgets intro: less_SucI)
  ultimately have "accounts_ok ?w" unfolding accounts_ok_def charges_new eqs by blast
  moreover have "owned_ok {} ?w" using owned unfolding owned_ok_def held_iff allocated_def eqs .
  moreover have "groups_ok (group_list ?w) (st_groups ?w)"
    using groups_ok_new [OF gok] by (simp add: group_list_def eqs) (simp add: new_group_def)
  moreover have "closed_ok ?w"
  proof -
    have "g < length (st_groups w)" if "s \<in> set (st_sessions w)" "se_group s = Some g" for s g
      using that gok by (force simp: groups_ok_def group_list_def in_set_conv_nth)
    with clo show ?thesis by (auto simp: closed_ok_def eqs new_group_def nth_append)
  qed
  ultimately show ?thesis
    using assms(1) len
    by (simp add: store_ok_def heap_ok_def actives_def holders_def eqs) (simp add: new_group_def)
qed

lemma add_session_fields:
  "st_heap (add_session a b g w) = st_heap w" "st_budgets (add_session a b g w) = st_budgets w"
  "set (owners (add_session a b g w)) = set (owners w)" "actives (add_session a b g w) = actives w @ [False]"
  "holders (add_session a b g w) = holders w" "group_list (add_session a b g w) = group_list w @ [g]"
  "st_groups (add_session a b g w) = st_groups w"
  by (simp_all add: add_session_def owners_def actives_def holders_def group_list_def option_list_def)

lemma store_ok_standalone: "store_ok w \<Longrightarrow> store_ok (add_session a b None w)"
  by (auto simp: store_ok_def add_session_fields serial_add groups_ok_standalone intro: heap_ok_same)
     (auto simp: closed_ok_def add_session_def)

lemma store_ok_new_session:
  assumes "store_ok w" "g < length (st_groups w)" "new_session g w = Inr (i, w')"
  shows "store_ok w'"
proof -
  let ?gr = "st_groups w ! g" and ?n = "length (st_sessions w)"
  let ?groups = "(st_groups w)[g := ?gr\<lparr>gr_members := gr_members ?gr @ [?n]\<rparr>]"
  let ?w = "add_session (gr_max_items ?gr) (gr_max_bytes ?gr) (Some g) w"
  have open': "\<not> gr_closed ?gr" "length (gr_members ?gr) < gr_max_sessions ?gr"
    and w': "w' = ?w\<lparr>st_groups := ?groups\<rparr>"
    using assms(3) by (auto simp: new_session_def Let_def split: if_splits)
  have n: "length (group_list w) = ?n" by (simp add: group_list_def)
  have "heap_ok {} w'"
    by (rule heap_ok_same [of "{}" w])
       (use assms(1) add_session_fields(3) in \<open>simp_all add: store_ok_def w' add_session_fields owners_def\<close>)
  moreover have "actives w' = actives w @ [False]" "holders w' = holders w" "group_list w' = group_list w @ [Some g]"
    "st_groups w' = ?groups" "length (st_budgets w') = length (st_budgets w)"
    using add_session_fields by (simp_all add: w' actives_def holders_def group_list_def add_session_def)
  moreover have "groups_ok (group_list w @ [Some g]) ?groups"
    using groups_ok_add [of "group_list w" "st_groups w" g] assms(1,2) open' n by (simp add: store_ok_def)
  moreover have "closed_ok w'"
    using assms(1,2) open'
    by (auto simp: store_ok_def closed_ok_def w' add_session_def nth_list_update)
  ultimately show ?thesis
    using assms(1) serial_add by (simp add: store_ok_def)
qed

lemma store_ok_discard:
  assumes "store_ok w" "i < length (st_sessions w)"
  shows "store_ok (discard_cached_response i rid w)"
proof -
  let ?s = "st_sessions w ! i"
  let ?w = "set_session i (?s\<lparr>se_latest := None\<rparr>) w"
  have "closed_ok ?w"
    using assms by (intro closed_set_session) (auto simp: store_ok_def)
  moreover have "serial ((actives w)[i := se_active ?s]) (holders w)"
    using assms by (simp add: store_ok_def actives_same)
  ultimately show ?thesis
    using assms heap_discard [of w i rid]
    by (auto simp: store_ok_def discard_cached_response_def Let_def view_set_session split: option.splits)
qed

lemma find_fork_owner:
  "find_fork w self pid ms = Some h \<Longrightarrow>
     \<exists>m \<in> set ms. m \<noteq> self \<and> \<not> se_closed (st_sessions w ! m) \<and> se_latest (st_sessions w ! m) = Some h
       \<and> response_id_of w h = pid"
  by (induction ms)
     (auto simp: latest_match_def filter_option_def split: if_splits option.splits)

text \<open>How a turn that begins picks its parent.\<close>

definition picks_parent :: "store \<Rightarrow> session_id \<Rightarrow> string option \<Rightarrow> handle option \<Rightarrow> bool" where
  "picks_parent w i pid parent \<longleftrightarrow>
     (let s = st_sessions w ! i
      in parent = latest_match w s pid \<and> (parent \<noteq> None \<or> pid = None \<or> se_group s = None)
       \<or> (\<exists>g pid'. pid = Some pid' \<and> se_group s = Some g \<and> \<not> gr_closed (st_groups w ! g)
            \<and> latest_match w s pid = None \<and> parent = find_fork w i pid' (gr_members (st_groups w ! g))))"

lemma begin_turn_Inr:
  assumes "begin_turn i pid w = Inr (l, w')"
  obtains parent where "\<not> se_closed (st_sessions w ! i)" "\<not> se_active (st_sessions w ! i)"
    "l = length (st_leases w)"
    "w' = (set_session i ((st_sessions w ! i)\<lparr>se_active := True\<rparr>) w)
       \<lparr>st_leases := st_leases w @ [Some \<lparr>co_session = i, co_parent = parent, co_history_replaced = False,
          co_recorded_output_count = 0\<rparr>]\<rparr>"
    "picks_parent w i pid parent"
  using assms
  by (cases "se_group (st_sessions w ! i)"; cases "latest_match w (st_sessions w ! i) pid"; cases pid)
     (auto simp: begin_turn_def Let_def picks_parent_def split: if_splits)

lemma latest_match_Some: "latest_match w s pid = Some h \<longleftrightarrow> se_latest s = Some h \<and> pid = Some (response_id_of w h)"
  by (auto simp: latest_match_def filter_option_def split: option.splits if_splits)

lemma store_ok_begin:
  assumes "store_ok w" "i < length (st_sessions w)" "begin_turn i pid w = Inr (l, w')"
  shows "store_ok w'"
proof -
  let ?s = "st_sessions w ! i"
  from begin_turn_Inr [OF assms(3)] obtain parent where
    open': "\<not> se_closed ?s" "\<not> se_active ?s"
    and w': "w' = (set_session i (?s\<lparr>se_active := True\<rparr>) w)
       \<lparr>st_leases := st_leases w @ [Some \<lparr>co_session = i, co_parent = parent, co_history_replaced = False,
          co_recorded_output_count = 0\<rparr>]\<rparr>"
    and parent: "picks_parent w i pid parent" by metis
  have gok: "groups_ok (group_list w) (st_groups w)" using assms(1) by (simp add: store_ok_def)
  have root: "h \<in> set (owners w)" if h: "parent = Some h" for h
    using parent unfolding picks_parent_def Let_def
  proof (elim disjE exE)
    assume "parent = latest_match w ?s pid \<and> (parent \<noteq> None \<or> pid = None \<or> se_group ?s = None)"
    then have "parent = latest_match w ?s pid" ..
    with h latest_owner [OF assms(2)] show ?thesis by (simp add: latest_match_Some)
  next
    fix g pid' assume picks: "pid = Some pid' \<and> se_group ?s = Some g \<and> \<not> gr_closed (st_groups w ! g)
      \<and> latest_match w ?s pid = None \<and> parent = find_fork w i pid' (gr_members (st_groups w ! g))"
    then have g: "se_group ?s = Some g" "\<not> gr_closed (st_groups w ! g)" by simp_all
    from picks h find_fork_owner [of w i pid' "gr_members (st_groups w ! g)" h] obtain m where
      m: "m \<in> set (gr_members (st_groups w ! g))" "se_latest (st_sessions w ! m) = Some h" by auto
    have "group_list w ! i = Some g" "i < length (group_list w)" using g assms(2) by (simp_all add: group_list_def)
    with gok have "g < length (st_groups w)" by (simp add: groups_ok_def)
    with gok g have "gr_members (st_groups w ! g) = grouped (group_list w) g" by (simp add: groups_ok_def)
    with m(1) have "m < length (st_sessions w)" by (simp add: grouped_def group_list_def)
    with m(2) show ?thesis by (simp add: latest_owner)
  qed
  have latest: "set_option (se_latest ?s) \<subseteq> set (owners w)" using latest_owner [OF assms(2)] by auto
  have "set (owners (set_session i (?s\<lparr>se_active := True\<rparr>) w)) = set (owners w)"
    using owners_set_session [OF assms(2), of "?s\<lparr>se_active := True\<rparr>"] latest by auto
  moreover have "set (owners w') = set (owners (set_session i (?s\<lparr>se_active := True\<rparr>) w)) \<union> set_option parent"
    by (simp add: w' owners_def Un_assoc)
  ultimately have "set (owners w') = set (owners w)" using root by auto
  then have "heap_ok {} w'"
    by (rule heap_ok_same [where w = w, rotated 3]) (use assms(1) in \<open>simp_all add: store_ok_def w'\<close>)
  moreover have "closed_ok w'"
  proof -
    have "closed_ok (set_session i (?s\<lparr>se_active := True\<rparr>) w)"
      by (rule closed_set_session) (use assms(1,2) open' in \<open>simp_all add: store_ok_def\<close>)
    then show ?thesis by (simp add: closed_ok_def w')
  qed
  moreover have "actives w' = (actives w)[i := True]" "holders w' = holders w @ [Some i]"
    "group_list w' = group_list w" "st_groups w' = st_groups w" "length (st_budgets w') = length (st_budgets w)"
    using view_set_session [OF assms(2), of "?s\<lparr>se_active := True\<rparr>"]
    by (simp_all add: w' actives_def holders_def group_list_def)
  moreover have "serial ((actives w)[i := True]) (holders w @ [Some i])"
    using assms(1,2) open' by (intro serial_begin) (simp_all add: store_ok_def actives_def)
  ultimately show ?thesis using assms(1) by (simp add: store_ok_def)
qed

text \<open>A retained checkpoint is a fresh cell with one owner, charged to the budget of its group.\<close>

lemma retain_cases:
  assumes "retain i ck bytes w = Inr (h, w')"
  obtains (standalone) "se_group (st_sessions w ! i) = None" "h = length (st_heap w)"
      "w' = w\<lparr>st_heap := st_heap w @ [Some \<lparr>rt_checkpoint = ck, rt_reservation = None\<rparr>],
              st_prepared := st_prepared w @ [h]\<rparr>"
  | (grouped) g b where "se_group (st_sessions w ! i) = Some g" "h = length (st_heap w)"
      "reserve (st_budgets w ! g) bytes = Inr b"
      "w' = w\<lparr>st_heap := st_heap w @ [Some \<lparr>rt_checkpoint = ck, rt_reservation = Some (g, bytes)\<rparr>],
              st_budgets := (st_budgets w)[g := b], st_prepared := st_prepared w @ [h]\<rparr>"
  using assms by (auto simp: retain_def Let_def split: option.splits elim!: and_then_InrE)

lemma retain_frame:
  assumes "retain i ck bytes w = Inr (h, w')"
  shows "h = length (st_heap w)" "st_sessions w' = st_sessions w" "st_leases w' = st_leases w" "st_groups w' = st_groups w"
    "length (st_budgets w') = length (st_budgets w)" "st_prepared w' = st_prepared w @ [h]"
    "\<exists>r. st_heap w' = st_heap w @ [Some \<lparr>rt_checkpoint = ck, rt_reservation = r\<rparr>]"
  using assms by (cases rule: retain_cases; simp)+

lemma charge_of_Some: "charge_of g (Some \<lparr>rt_checkpoint = ck, rt_reservation = Some (g', bytes)\<rparr>) = (if g' = g then bytes else 0)"
  "charge_of g (Some \<lparr>rt_checkpoint = ck, rt_reservation = None\<rparr>) = 0"
  by (simp_all add: charge_of_def)

lemma retain_accounts:
  assumes "accounts_ok w" "retain i ck bytes w = Inr (h, w')"
    "\<And>g. se_group (st_sessions w ! i) = Some g \<Longrightarrow> g < length (st_budgets w)"
  shows "accounts_ok w'"
  using assms(2)
proof (cases rule: retain_cases)
  case standalone
  have "charges w' g = charges w g" for g by (simp add: standalone charges_def charge_of_Some)
  with assms(1) show ?thesis by (auto simp: accounts_ok_def standalone)
next
  case (grouped g b)
  have g: "g < length (st_budgets w)" using assms(3) grouped by simp
  have bw: "st_budgets w' = (st_budgets w)[g := b]" by (simp add: grouped)
  have sum: "charges w' g' = charges w g' + (if g' = g then bytes else 0)" for g'
    by (simp add: grouped charges_def charge_of_Some)
  have "bu_limit (st_budgets w ! g) \<le> usize_max" using assms(1) g by (simp add: accounts_ok_def)
  from checkpoint_bytes.charge_Inr [OF this grouped(3)]
  have b: "bu_used b = bu_used (st_budgets w ! g) + bytes" "bu_limit b = bu_limit (st_budgets w ! g)" "bu_used b \<le> bu_limit b"
    by auto
  have "bu_used (st_budgets w' ! k) = charges w' k \<and> charges w' k \<le> bu_limit (st_budgets w' ! k)
      \<and> bu_limit (st_budgets w' ! k) \<le> usize_max" if k: "k < length (st_budgets w')" for k
  proof (cases "k = g")
    case True
    with assms(1) g b show ?thesis by (simp add: sum bw accounts_ok_def)
  next
    case False
    with assms(1) k show ?thesis by (simp add: sum bw accounts_ok_def)
  qed
  moreover have "k < length (st_budgets w')"
    if "Some r \<in> set (st_heap w')" "rt_reservation r = Some (k, n)" for r k n
    using that assms(1) g by (auto simp: grouped(4) accounts_ok_def)
  ultimately show ?thesis unfolding accounts_ok_def by blast
qed

lemma retain_owned:
  assumes "owned_ok {} w" "retain i ck bytes w = Inr (h, w')"
  shows "owned_ok {} w'"
proof -
  obtain r where heap: "st_heap w' = st_heap w @ [Some r]" using retain_frame(7) [OF assms(2)] by blast
  have "k \<in> set (owners w') \<longleftrightarrow> k \<in> set (owners w) \<or> k = length (st_heap w)" for k
    using retain_frame(1,2,3,6) [OF assms(2)] by (auto simp: owners_def)
  moreover have "allocated w' k \<longleftrightarrow> allocated w k \<or> k = length (st_heap w)" for k
    by (auto simp: allocated_def heap nth_append)
  ultimately show ?thesis using assms(1) unfolding owned_ok_def held_iff by blast
qed

lemma budget_of_session:
  assumes "store_ok w" "i < length (st_sessions w)" "se_group (st_sessions w ! i) = Some g"
  shows "g < length (st_budgets w)"
proof -
  have "groups_ok (group_list w) (st_groups w)" using assms(1) by (simp add: store_ok_def)
  then have "g < length (st_groups w)" using assms(2,3) by (auto simp: groups_ok_def group_list_def)
  with assms(1) show ?thesis by (simp add: store_ok_def)
qed

lemma store_ok_retain:
  assumes "store_ok w" "i < length (st_sessions w)" "retain i ck bytes w = Inr (h, w')"
  shows "store_ok w'"
proof -
  have "heap_ok {} w'"
    using retain_accounts [OF _ assms(3)] retain_owned [OF _ assms(3)] budget_of_session [OF assms(1,2)] assms(1)
    by (simp add: heap_ok_def store_ok_def)
  moreover note retain_frame [OF assms(3)]
  ultimately show ?thesis
    using assms(1) unfolding store_ok_def actives_def holders_def group_list_def closed_ok_def by simp
qed

lemma checkpoint_Inr:
  assumes "checkpoint p writes c rid cid meta items durable w = Inr (h, w')"
  obtains ck where
    "ck = \<lparr>ck_response_id = rid, ck_conversation_id = cid,
           ck_history = canonical_session_history (parent_items w c @ into_input_items p items),
           ck_metadata = sanitize_metadata meta, ck_durable = durable\<rparr>"
    "length (ck_history ck) \<le> se_max_items (st_sessions w ! co_session c)"
    "serialized_size_up_to (writes ck) (se_max_bytes (st_sessions w ! co_session c)) = Inr (Some (sum_list (fst (writes ck))))"
    "sum_list (fst (writes ck)) \<le> se_max_bytes (st_sessions w ! co_session c)"
    "retain (co_session c) ck (sum_list (fst (writes ck))) w = Inr (h, w')"
  using assms
  by (auto simp: checkpoint_def Let_def split: sum.splits option.splits if_splits dest: serialized_size_Some)

lemma retain_parent_Inr:
  assumes "retain_parent writes c ck w = Inr (h, w')"
  obtains bytes where "retain (co_session c) ck bytes w = Inr (h, w')"
  using assms by (auto simp: retain_parent_def split: sum.splits option.splits)

lemma live_lease:
  assumes "store_ok w" "l < length (st_leases w)" "st_leases w ! l = Some c"
  shows "co_session c < length (st_sessions w)" "se_active (st_sessions w ! co_session c)"
    "holders w ! l = Some (co_session c)"
proof -
  show h: "holders w ! l = Some (co_session c)" using assms(2,3) by (simp add: holders_def)
  have "serial (actives w) (holders w)" "l < length (holders w)"
    using assms by (simp_all add: store_ok_def holders_def)
  with h have i: "co_session c < length (actives w)" "actives w ! co_session c" by (auto simp: serial_def)
  then show "co_session c < length (st_sessions w)" by (simp add: actives_def)
  with i show "se_active (st_sessions w ! co_session c)" by (simp add: actives_def)
qed

lemma view_prepared:
  "actives (w\<lparr>st_prepared := ps\<rparr>) = actives w" "holders (w\<lparr>st_prepared := ps\<rparr>) = holders w"
  "group_list (w\<lparr>st_prepared := ps\<rparr>) = group_list w" "closed_ok (w\<lparr>st_prepared := ps\<rparr>) = closed_ok w"
  by (simp_all add: actives_def holders_def group_list_def closed_ok_def)

lemma store_ok_drop_prepared: "store_ok w \<Longrightarrow> h \<in> set (st_prepared w) \<Longrightarrow> store_ok (drop_prepared h w)"
  using heap_drop_prepared [of w h] by (simp add: store_ok_def drop_prepared_def view_prepared)

lemma holders_same:
  "l < length (st_leases w) \<Longrightarrow> st_leases w ! l = Some c \<Longrightarrow> (holders w)[l := Some (co_session c)] = holders w"
  using list_update_id [of "holders w" l] by (simp add: holders_def)

lemma store_ok_mark:
  assumes "store_ok w" "l < length (st_leases w)" "st_leases w ! l = Some c"
    "co_session c' = co_session c" "co_parent c' = co_parent c"
  shows "store_ok (set_lease l (Some c') w)"
proof -
  have "set (owners (set_lease l (Some c') w)) = set (owners w)"
    using owners_set_lease [OF assms(2), of "Some c'"] assms(3,5) parent_owner [OF assms(2,3)] by auto
  then have "heap_ok {} (set_lease l (Some c') w)"
    by (rule heap_ok_same [where w = w, rotated 3]) (use assms(1) in \<open>simp_all add: store_ok_def\<close>)
  with assms show ?thesis by (simp add: store_ok_def view_set_lease holders_same)
qed

lemma store_ok_pin_parent:
  assumes "store_ok w" "l < length (st_leases w)" "st_leases w ! l = Some c" "h \<in> set (st_prepared w)"
  shows "store_ok (pin_parent l c h w)"
  using heap_pin_parent [OF _ assms(2-4)] assms(1) holders_same [OF assms(2,3)]
  by (simp add: store_ok_def pin_parent_def view_set_lease view_prepared)

lemma store_ok_drop_lease:
  assumes "store_ok w" "l < length (st_leases w)" "st_leases w ! l = Some c"
  shows "store_ok (drop_lease l c w)"
proof -
  note live = live_lease [OF assms]
  let ?s = "st_sessions w ! co_session c"
  have "serial ((actives w)[co_session c := False]) ((holders w)[l := None])"
    using assms live(3) by (intro serial_finish) (simp_all add: store_ok_def holders_def)
  moreover have "closed_ok (set_session (co_session c) (?s\<lparr>se_latest := x, se_active := False\<rparr>) w)"
    if "x = None \<or> x = se_latest ?s" for x
    using assms(1) live(1) that
    by (intro closed_set_session) (auto simp: store_ok_def closed_ok_def)
  moreover have "heap_ok {} (drop_lease l c w)"
    using assms live(1) by (intro heap_drop_lease) (simp_all add: store_ok_def)
  ultimately show ?thesis
    using assms(1) live(1)
    by (simp add: store_ok_def drop_lease_def Let_def view_set_lease view_set_session)
qed

lemma store_ok_publish:
  assumes "store_ok w" "l < length (st_leases w)" "st_leases w ! l = Some c" "h \<in> set (st_prepared w)"
  shows "store_ok (snd (publish l c h w))"
proof (cases "se_closed (st_sessions w ! co_session c)")
  case True
  have "store_ok (drop_lease l c (drop_prepared h w))"
    by (rule store_ok_drop_lease [OF store_ok_drop_prepared [OF assms(1,4)]])
       (use assms(2,3) in \<open>simp_all add: drop_prepared_def\<close>)
  with True show ?thesis by (simp add: publish_def Let_def)
next
  case False
  note live = live_lease [OF assms(1-3)]
  let ?s = "st_sessions w ! co_session c"
  let ?w = "w\<lparr>st_prepared := removeAll h (st_prepared w)\<rparr>"
  have "serial ((actives w)[co_session c := False]) ((holders w)[l := None])"
    using assms live(3) by (intro serial_finish) (simp_all add: store_ok_def holders_def)
  moreover have "closed_ok (set_session (co_session c) (?s\<lparr>se_latest := Some h, se_active := False\<rparr>) ?w)"
    using assms(1) live(1) False by (intro closed_set_session) (simp_all add: store_ok_def view_prepared)
  moreover have "heap_ok {} (snd (publish l c h w))"
    using assms live(1) by (intro heap_publish) (simp_all add: store_ok_def)
  ultimately show ?thesis
    using assms(1) live(1) False view_set_session [of "co_session c" ?w "?s\<lparr>se_latest := Some h, se_active := False\<rparr>"]
    by (simp add: store_ok_def publish_def Let_def view_set_lease view_prepared)
qed

lemma store_ok_step: "session_step p writes w w' \<Longrightarrow> store_ok w \<Longrightarrow> store_ok w'"
proof (induction rule: session_step.induct)
  case (step_mark_replaced l w c)
  then show ?case by (intro store_ok_mark) (simp_all add: mark_history_replaced_def)
next
  case (step_mark_recorded l w c n)
  then show ?case by (intro store_ok_mark) (simp_all add: mark_outputs_recorded_def)
next
  case (step_checkpoint l w c rid cid meta items durable h w')
  from step_checkpoint(3) show ?case
    by (rule checkpoint_Inr) (metis step_checkpoint(1,2,4) store_ok_retain live_lease(1))
next
  case (step_retain_parent l w c ck h w')
  from step_retain_parent(3) show ?case
    by (rule retain_parent_Inr) (metis step_retain_parent(1,2,4) store_ok_retain live_lease(1))
qed (auto intro: store_ok_new_group store_ok_standalone store_ok_new_session store_ok_close store_ok_drop_group
      store_ok_discard store_ok_begin store_ok_drop_prepared store_ok_pin_parent store_ok_drop_lease store_ok_publish)

lemma store_ok_empty: "store_ok empty_store"
  by (simp add: store_ok_def heap_ok_def owned_ok_def accounts_ok_def empty_store_def held_iff owners_def allocated_def
      serial_def actives_def holders_def groups_ok_def group_list_def closed_ok_def)

lemma store_ok_reachable: "session_reachable p writes w \<Longrightarrow> store_ok w"
  by (induction rule: session_reachable.induct) (auto intro: store_ok_empty store_ok_step)

end
