(* ===== verification/Session_Properties.thy ===== *)
theory Session_Properties
  imports Session_Invariant
begin

text \<open>
  What the session store promises its callers, for every store the operations can reach: exact
  byte accounting, one turn at a time, resuming the response just published, finding the parent
  of a fork, and eviction limited to the failed lease's own parent.
\<close>

section \<open>What holds in every reachable store\<close>

lemma held_heap: "held w h \<Longrightarrow> st_heap (release k w) ! h = st_heap w ! h"
  by (cases "h = k") (auto simp: release_def split: option.splits)

lemma held_heap_opt: "held w h \<Longrightarrow> st_heap (release_opt k w) ! h = st_heap w ! h"
  by (cases k) (simp_all add: release_opt_def held_heap)

lemma held_release_opt [simp]: "held (release_opt k w) h = held w h"
  by (simp add: held_iff)

text \<open>Facts about a live lease and the store after its end.\<close>

lemma drop_lease_sessions:
  assumes "co_session c < length (st_sessions w)"
  shows "st_sessions (drop_lease l c w) = (st_sessions w)[co_session c := (st_sessions w ! co_session c)
     \<lparr>se_latest := (if (case (co_parent c, se_latest (st_sessions w ! co_session c)) of
                     (Some parent, Some latest) \<Rightarrow> response_id_of w latest = response_id_of w parent
                   | _ \<Rightarrow> False) then None else se_latest (st_sessions w ! co_session c)),
      se_active := False\<rparr>]"
  by (simp add: drop_lease_def Let_def)

lemma publish_open:
  assumes "\<not> se_closed (st_sessions w ! co_session c)"
  shows "fst (publish l c h w) = None"
    "st_sessions (snd (publish l c h w)) = (st_sessions w)[co_session c := (st_sessions w ! co_session c)
       \<lparr>se_latest := Some h, se_active := False\<rparr>]"
    "st_groups (snd (publish l c h w)) = st_groups w"
  using assms by (simp_all add: publish_def Let_def)

lemma publish_keeps_checkpoint:
  assumes "\<not> se_closed (st_sessions w ! co_session c)" "co_session c < length (st_sessions w)"
  shows "st_heap (snd (publish l c h w)) ! h = st_heap w ! h"
proof -
  let ?w = "set_lease l None (set_session (co_session c)
      ((st_sessions w ! co_session c)\<lparr>se_latest := Some h, se_active := False\<rparr>)
      (w\<lparr>st_prepared := removeAll h (st_prepared w)\<rparr>))"
  have "held ?w h"
    using assms(2) unfolding held_iff owners_iff by (intro disjI2 disjI1 exI [of _ "co_session c"]) simp
  with assms(1) show ?thesis by (simp add: publish_def Let_def held_heap_opt)
qed

lemma open_group: 
  assumes "store_ok w" "i < length (st_sessions w)" "\<not> se_closed (st_sessions w ! i)" "se_group (st_sessions w ! i) = Some g"
  shows "\<not> gr_closed (st_groups w ! g)"
proof -
  have "closed_ok w" using assms(1) by (simp add: store_ok_def)
  with assms(2-4) show ?thesis by (auto simp: closed_ok_def)
qed

lemma open_members:
  assumes "store_ok w" "i < length (st_sessions w)" "\<not> se_closed (st_sessions w ! i)" "se_group (st_sessions w ! i) = Some g"
  shows "j \<in> set (gr_members (st_groups w ! g)) \<longleftrightarrow> j < length (st_sessions w) \<and> se_group (st_sessions w ! j) = Some g"
proof -
  have gok: "groups_ok (group_list w) (st_groups w)" using assms(1) by (simp add: store_ok_def)
  have "g < length (st_groups w)" using budget_of_session [OF assms(1,2,4)] assms(1) by (simp add: store_ok_def)
  with gok open_group [OF assms] show ?thesis by (auto simp: groups_ok_def grouped_def group_list_def)
qed

lemma find_fork_None:
  "find_fork w self pid ms = None \<longleftrightarrow>
     (\<forall>m \<in> set ms. m = self \<or> se_closed (st_sessions w ! m) \<or> latest_match w (st_sessions w ! m) (Some pid) = None)"
  by (induction ms) (auto split: option.splits)

section \<open>A run with one turn\<close>

definition demo_printers :: printers where
  "demo_printers = \<lparr>pr_json = (\<lambda>_. ''''), pr_action = (\<lambda>_. ''''), pr_shell_output = (\<lambda>_. '''')\<rparr>"

definition demo_writes :: "response_checkpoint \<Rightarrow> writes" where
  "demo_writes ck = ([40, 60], None)"

definition demo_metadata :: response_metadata where
  "demo_metadata = \<lparr>rm_model = ''m'', rm_previous_response_id = None, rm_effective_tools = None,
     rm_tool_search_loaded_tools = None, rm_effective_tool_choice = ChoiceAuto, rm_effective_instructions = None\<rparr>"

definition demo_lease :: continuation where
  "demo_lease = \<lparr>co_session = 0, co_parent = None, co_history_replaced = False, co_recorded_output_count = 0\<rparr>"

definition demo_session :: "handle option \<Rightarrow> bool \<Rightarrow> session_state" where
  "demo_session latest active = \<lparr>se_latest = latest, se_active = active, se_closed = False,
     se_max_items = 10, se_max_bytes = 1000, se_group = Some 0\<rparr>"

definition demo_checkpoint :: response_checkpoint where
  "demo_checkpoint = \<lparr>ck_response_id = ''resp_1'', ck_conversation_id = None, ck_history = [],
     ck_metadata = demo_metadata, ck_durable = False\<rparr>"

text \<open>One session of a group; the store while its turn runs, with its checkpoint prepared, and after publishing.\<close>

definition demo_store :: "bool \<Rightarrow> bool \<Rightarrow> bool \<Rightarrow> store" where
  "demo_store turn ready published =
     \<lparr>st_heap = (if ready then [Some \<lparr>rt_checkpoint = demo_checkpoint, rt_reservation = Some (0, 100)\<rparr>] else []),
      st_budgets = [\<lparr>bu_used = (if ready then 100 else 0), bu_limit = 5000\<rparr>],
      st_groups = [\<lparr>gr_closed = False, gr_members = [0], gr_max_sessions = 2, gr_max_items = 10, gr_max_bytes = 1000\<rparr>],
      st_sessions = [demo_session (if published then Some 0 else None) (turn \<and> \<not> published)],
      st_leases = (if turn then [if published then None else Some demo_lease] else []),
      st_prepared = (if ready \<and> \<not> published then [0] else [])\<rparr>"

lemma demo_new: "new_session 0 (new_group 2 10 1000 5000 empty_store) = Inr (0, demo_store False False False)"
  by (simp add: new_session_def new_group_def empty_store_def add_session_def demo_store_def demo_session_def)

lemma demo_begin: "begin_turn 0 None (demo_store False False False) = Inr (0, demo_store True False False)"
  by (simp add: begin_turn_def demo_store_def demo_session_def set_session_def latest_match_def demo_lease_def)

lemma demo_history: "into_input_items p [] = []" "canonical_session_history [] = []"
  by (simp_all add: into_input_items_def items_of_input_def canonical_session_history_def latest_compaction_window_def)

lemma demo_prepare:
  "checkpoint demo_printers demo_writes demo_lease ''resp_1'' None demo_metadata [] False (demo_store True False False)
     = Inr (0, demo_store True True False)"
  by (simp add: checkpoint_def demo_store_def demo_session_def demo_lease_def parent_items_def history_of_def
      demo_history demo_writes_def serialized_size_up_to_def counter_write_def sanitize_metadata_def demo_metadata_def
      retain_def reserve_def usize_checked_add_def usize_max_def demo_checkpoint_def)

lemma demo_publish: "publish 0 demo_lease 0 (demo_store True True False) = (None, demo_store True True True)"
  by (simp add: publish_def demo_store_def demo_session_def demo_lease_def set_session_def set_lease_def
      release_opt_def)

lemma demo_live:
  "0 < length (st_leases (demo_store True r False))" "st_leases (demo_store True r False) ! 0 = Some demo_lease"
  "0 \<in> set (st_prepared (demo_store True True False))"
  by (simp_all add: demo_store_def)

lemma demo_reachable:
  "session_reachable demo_printers demo_writes (demo_store True False False)"
  "session_reachable demo_printers demo_writes (demo_store True True False)"
  "session_reachable demo_printers demo_writes (demo_store True True True)"
proof -
  let ?r = "session_reachable demo_printers demo_writes"
  have "?r (new_group 2 10 1000 5000 empty_store)"
    by (rule reach_step [OF reach_empty step_new_group]) (simp add: usize_max_def)
  then have "?r (demo_store False False False)"
    by (rule reach_step) (rule step_new_session [OF _ demo_new], simp add: new_group_def)
  then show turn: "?r (demo_store True False False)"
    by (rule reach_step) (rule step_begin [OF _ demo_begin], simp add: demo_store_def)
  then show ready: "?r (demo_store True True False)"
    by (rule reach_step) (rule step_checkpoint [where l = 0, OF _ _ demo_prepare], simp_all add: demo_store_def)
  then show "?r (demo_store True True True)"
    using step_publish [of 0 "demo_store True True False" demo_lease 0] demo_publish demo_live
    by (intro reach_step [OF ready]) simp
qed

section \<open>Properties\<close>

text \<open>
  C3: retained bytes are accounted exactly. In every reachable store each group's budget counts
  precisely the bytes of the checkpoints charged to it that are still alive, this never exceeds
  the limit, and a checkpoint is alive exactly while a session, a lease or a prepared value
  owns it: nothing leaks, nothing is freed twice and nothing dangles.
\<close>

theorem retained_bytes_are_exact:
  assumes "session_reachable p writes w"
  shows "(\<forall>g < length (st_budgets w). bu_used (st_budgets w ! g) = charges w g
           \<and> bu_used (st_budgets w ! g) \<le> bu_limit (st_budgets w ! g))
    \<and> (\<forall>h. allocated w h = held w h)"
  using store_ok_reachable [OF assms]
  by (auto simp: store_ok_def heap_ok_def accounts_ok_def owned_ok_def)

theorem retained_bytes_are_exact_witness:
  "bu_used (st_budgets (demo_store True True True) ! 0) = 100
   \<and> charges (demo_store True True True) 0 = 100 \<and> held (demo_store True True True) 0"
proof -
  have "bu_used (st_budgets (demo_store True True True) ! 0) = charges (demo_store True True True) 0"
    "allocated (demo_store True True True) 0 = held (demo_store True True True) 0"
    using retained_bytes_are_exact [OF demo_reachable(3)] by (simp_all add: demo_store_def)
  moreover have "bu_used (st_budgets (demo_store True True True) ! 0) = 100" "allocated (demo_store True True True) 0"
    by (simp_all add: demo_store_def allocated_def)
  ultimately show ?thesis by simp
qed

text \<open>
  C30: turns are serial and closing is final. In every reachable store a session is active exactly
  while one lease holds it, and no two leases hold the same session; a closed session caches no
  response; every session of a closed group is closed; and a group never has more sessions
  than its cap over its whole life.
\<close>

theorem turns_are_serial:
  assumes "session_reachable p writes w"
  shows "(\<forall>i < length (st_sessions w). se_active (st_sessions w ! i)
            = (\<exists>l < length (st_leases w). map_option co_session (st_leases w ! l) = Some i))
    \<and> (\<forall>l < length (st_leases w). \<forall>k < length (st_leases w). \<forall>i.
          map_option co_session (st_leases w ! l) = Some i \<longrightarrow> map_option co_session (st_leases w ! k) = Some i \<longrightarrow> l = k)
    \<and> (\<forall>s \<in> set (st_sessions w). (se_closed s \<longrightarrow> se_latest s = None)
          \<and> (\<forall>g. se_group s = Some g \<longrightarrow> gr_closed (st_groups w ! g) \<longrightarrow> se_closed s))
    \<and> (\<forall>g < length (st_groups w). length (filter (\<lambda>s. se_group s = Some g) (st_sessions w)) \<le> gr_max_sessions (st_groups w ! g))"
proof -
  have ok: "serial (actives w) (holders w)" "groups_ok (group_list w) (st_groups w)" "closed_ok w"
    using store_ok_reachable [OF assms] by (simp_all add: store_ok_def)
  have count: "length (filter (\<lambda>s. se_group s = Some g) (st_sessions w)) = length (grouped (group_list w) g)" for g
    by (simp add: grouped_def group_list_def length_filter_conv_card) (auto intro!: arg_cong [where f = card])
  have hold: "holders w ! l = map_option co_session (st_leases w ! l)" if "l < length (st_leases w)" for l
    using that by (simp add: holders_def)
  have lens: "length (actives w) = length (st_sessions w)" "length (holders w) = length (st_leases w)"
    by (simp_all add: actives_def holders_def)
  have act: "actives w ! i = se_active (st_sessions w ! i)" if "i < length (st_sessions w)" for i
    using that by (simp add: actives_def)
  have "se_active (st_sessions w ! i) = (\<exists>l < length (st_leases w). map_option co_session (st_leases w ! l) = Some i)"
    if i: "i < length (st_sessions w)" for i
    using ok(1) i act [OF i] hold unfolding serial_def lens by metis
  moreover have "l = k" if "l < length (st_leases w)" "k < length (st_leases w)"
    "map_option co_session (st_leases w ! l) = Some i" "map_option co_session (st_leases w ! k) = Some i" for l k i
    using ok(1) that hold unfolding serial_def lens by metis
  moreover have "\<forall>g < length (st_groups w).
      length (filter (\<lambda>s. se_group s = Some g) (st_sessions w)) \<le> gr_max_sessions (st_groups w ! g)"
    using ok(2) by (simp add: groups_ok_def count)
  ultimately show ?thesis using ok(3) unfolding closed_ok_def by blast
qed

theorem turns_are_serial_witness:
  "se_active (st_sessions (demo_store True True False) ! 0)
   \<and> (\<exists>l < length (st_leases (demo_store True True False)).
        map_option co_session (st_leases (demo_store True True False) ! l) = Some 0)
   \<and> \<not> se_active (st_sessions (demo_store True True True) ! 0)"
proof -
  have act: "se_active (st_sessions (demo_store True True False) ! 0)"
    and len: "0 < length (st_sessions (demo_store True True False))"
    by (simp_all add: demo_store_def demo_session_def)
  from turns_are_serial [OF demo_reachable(2), THEN conjunct1] act len
  have "\<exists>l < length (st_leases (demo_store True True False)).
      map_option co_session (st_leases (demo_store True True False) ! l) = Some 0" by blast
  with act show ?thesis by (simp add: demo_store_def demo_session_def)
qed

text \<open>Publishing and beginning the next turn.\<close>

lemma publish_resumes:
  assumes "session_reachable p writes w" "l < length (st_leases w)" "st_leases w ! l = Some c" "h \<in> set (st_prepared w)"
  shows "(case publish l c h w of
      (Some e, w') \<Rightarrow> se_closed (st_sessions w ! co_session c) \<and> \<not> se_active (st_sessions w' ! co_session c)
    | (None, w') \<Rightarrow> \<not> se_closed (st_sessions w ! co_session c) \<and> st_heap w' ! h = st_heap w ! h \<and> allocated w' h
        \<and> (\<exists>w''. begin_turn (co_session c) (Some (response_id_of w h)) w'
              = Inr (length (st_leases w), w'')
            \<and> st_leases w'' ! length (st_leases w) = Some \<lparr>co_session = co_session c, co_parent = Some h,
                co_history_replaced = False, co_recorded_output_count = 0\<rparr>))"
proof -
  have ok: "store_ok w" using assms(1) by (rule store_ok_reachable)
  note live = live_lease [OF ok assms(2,3)]
  let ?i = "co_session c" and ?w' = "snd (publish l c h w)"
  show ?thesis
  proof (cases "se_closed (st_sessions w ! ?i)")
    case True
    moreover have "st_sessions (drop_prepared h w) = st_sessions w" by (simp add: drop_prepared_def)
    ultimately show ?thesis
      using live(1) by (simp add: publish_def Let_def drop_lease_sessions)
  next
    case False
    note pub = publish_open [where l = l and h = h, OF False]
    have s: "st_sessions ?w' ! ?i = (st_sessions w ! ?i)\<lparr>se_latest := Some h, se_active := False\<rparr>"
      using live(1) by (simp add: pub)
    have heap: "st_heap ?w' ! h = st_heap w ! h" by (rule publish_keeps_checkpoint [OF False live(1)])
    have "held ?w' h" unfolding held_iff owners_iff
      using live(1) by (intro disjI2 disjI1 exI [of _ ?i]) (simp add: pub)
    moreover have "owned_ok {} ?w'"
      using store_ok_publish [OF ok assms(2-4)] by (simp add: store_ok_def heap_ok_def)
    ultimately have alloc: "allocated ?w' h" by (simp add: owned_ok_def)
    have rid: "response_id_of ?w' h = response_id_of w h" by (simp add: response_id_of_def heap)
    have len: "length (st_leases ?w') = length (st_leases w)" using False by (simp add: publish_def Let_def)
    have group: "\<not> gr_closed (st_groups ?w' ! g)" if "se_group (st_sessions w ! ?i) = Some g" for g
      using open_group [OF ok live(1) False that] by (simp add: pub)
    have match: "latest_match ?w' (st_sessions ?w' ! ?i) (Some (response_id_of w h)) = Some h"
      unfolding latest_match_Some by (simp add: s rid)
    have "\<exists>w''. begin_turn ?i (Some (response_id_of w h)) ?w' = Inr (length (st_leases w), w'')
            \<and> st_leases w'' ! length (st_leases w) = Some \<lparr>co_session = ?i, co_parent = Some h,
                co_history_replaced = False, co_recorded_output_count = 0\<rparr>"
      using False group match len
      by (cases "se_group (st_sessions w ! ?i)") (simp_all add: begin_turn_def Let_def s nth_append)
    with False heap alloc pub(1) show ?thesis by (cases "publish l c h w") simp
  qed
qed

text \<open>
  A published response is the parent of the next turn. In a reachable store, publishing
  is refused exactly when the session is closed; otherwise the session is idle afterwards and
  a turn that names the published response begins with that very checkpoint, content
  unchanged, as its parent.
\<close>

theorem publish_then_resume:
  assumes "session_reachable p writes w" "l < length (st_leases w)" "st_leases w ! l = Some c" "h \<in> set (st_prepared w)"
  shows "(case publish l c h w of
      (Some e, w') \<Rightarrow> se_closed (st_sessions w ! co_session c) \<and> \<not> se_active (st_sessions w' ! co_session c)
    | (None, w') \<Rightarrow> \<not> se_closed (st_sessions w ! co_session c) \<and> st_heap w' ! h = st_heap w ! h \<and> allocated w' h
        \<and> (\<exists>w''. begin_turn (co_session c) (Some (response_id_of w h)) w'
              = Inr (length (st_leases w), w'')
            \<and> st_leases w'' ! length (st_leases w) = Some \<lparr>co_session = co_session c, co_parent = Some h,
                co_history_replaced = False, co_recorded_output_count = 0\<rparr>))"
  using assms by (rule publish_resumes)

theorem publish_then_resume_witness:
  "fst (publish 0 demo_lease 0 (demo_store True True False)) = None
   \<and> (\<exists>w. begin_turn 0 (Some ''resp_1'') (demo_store True True True) = Inr (1, w)
        \<and> co_parent (the (st_leases w ! 1)) = Some 0)"
proof -
  have "co_session demo_lease = 0" "response_id_of (demo_store True True False) 0 = ''resp_1''"
    "length (st_leases (demo_store True True False)) = 1"
    by (simp_all add: demo_lease_def response_id_of_def demo_store_def demo_checkpoint_def)
  then show ?thesis
    using publish_then_resume [OF demo_reachable(2) demo_live] by (auto simp: demo_publish)
qed

text \<open>
  A turn finds its parent wherever its group still caches it. Beginning a turn that names a
  previous response picks a parent exactly when the session itself or another open session
  of its group caches a response with that id; the parent has that id and stays alive, no
  other session's cache changes, and a turn that names none starts without a parent.
\<close>

theorem begin_finds_parent:
  assumes "session_reachable p writes w" "i < length (st_sessions w)" "begin_turn i previous_id w = Inr (l, w')"
  shows "(case st_leases w' ! l of None \<Rightarrow> False | Some c \<Rightarrow>
     co_session c = i
     \<and> (co_parent c = None \<longleftrightarrow>
          (\<forall>pid. previous_id = Some pid \<longrightarrow>
            \<not> (\<exists>j < length (st_sessions w). \<exists>h.
                (j = i \<or> se_group (st_sessions w ! j) = se_group (st_sessions w ! i) \<and> se_group (st_sessions w ! i) \<noteq> None)
                \<and> se_latest (st_sessions w ! j) = Some h \<and> response_id_of w h = pid)))
     \<and> (\<forall>h. co_parent c = Some h \<longrightarrow> previous_id = Some (response_id_of w h) \<and> allocated w' h))
   \<and> map se_latest (st_sessions w') = map se_latest (st_sessions w)"
proof -
  have ok: "store_ok w" using assms(1) by (rule store_ok_reachable)
  let ?s = "st_sessions w ! i"
  from begin_turn_Inr [OF assms(3)] obtain parent where
    open': "\<not> se_closed ?s" "\<not> se_active ?s" and l: "l = length (st_leases w)"
    and w': "w' = (set_session i (?s\<lparr>se_active := True\<rparr>) w)
       \<lparr>st_leases := st_leases w @ [Some \<lparr>co_session = i, co_parent = parent, co_history_replaced = False,
          co_recorded_output_count = 0\<rparr>]\<rparr>"
    and parent: "picks_parent w i previous_id parent" by metis
  have lease: "st_leases w' ! l = Some \<lparr>co_session = i, co_parent = parent, co_history_replaced = False,
          co_recorded_output_count = 0\<rparr>" by (simp add: w' l)
  have "map se_latest (st_sessions w') = (map se_latest (st_sessions w))[i := se_latest ?s]"
    by (simp add: w' map_update)
  then have latest: "map se_latest (st_sessions w') = map se_latest (st_sessions w)"
    using list_update_id [of "map se_latest (st_sessions w)" i] assms(2) by simp
  have alloc: "allocated w' h" if "parent = Some h" for h
  proof -
    have "owned_ok {} w'" using store_ok_begin [OF ok assms(2,3)] by (simp add: store_ok_def heap_ok_def)
    moreover have "held w' h" unfolding held_iff owners_iff
      using that by (intro disjI2 exI [of _ l]) (simp add: lease, simp add: w' l)
    ultimately show ?thesis by (simp add: owned_ok_def)
  qed
  define caches where "caches j pid \<longleftrightarrow> j < length (st_sessions w)
      \<and> (j = i \<or> se_group (st_sessions w ! j) = se_group ?s \<and> se_group ?s \<noteq> None)
      \<and> (\<exists>h. se_latest (st_sessions w ! j) = Some h \<and> response_id_of w h = pid)" for j pid
  have own: "latest_match w ?s (Some pid) = None \<longleftrightarrow> \<not> (\<exists>h. se_latest ?s = Some h \<and> response_id_of w h = pid)" for pid
    by (auto simp: latest_match_def filter_option_def split: option.splits)
  have "(parent = None \<longleftrightarrow> (\<forall>pid. previous_id = Some pid \<longrightarrow> \<not> (\<exists>j. caches j pid)))
      \<and> (\<forall>h. parent = Some h \<longrightarrow> previous_id = Some (response_id_of w h))"
    using parent unfolding picks_parent_def Let_def
  proof (elim disjE exE conjE)
    assume p: "parent = latest_match w ?s previous_id" and "parent \<noteq> None"
    then obtain h where h: "se_latest ?s = Some h" "previous_id = Some (response_id_of w h)" "parent = Some h"
      by (cases parent) (auto simp: latest_match_Some)
    then have "caches i (response_id_of w h)" using assms(2) by (simp add: caches_def)
    with h show ?thesis by auto
  next
    assume p: "parent = latest_match w ?s previous_id" and "previous_id = None"
    then have "parent = None" by (simp add: latest_match_def filter_option_def split: option.split)
    with \<open>previous_id = None\<close> show ?thesis by simp
  next
    assume p: "parent = latest_match w ?s previous_id" and g: "se_group ?s = None"
    show ?thesis
    proof (cases parent)
      case None
      with p have none: "latest_match w ?s previous_id = None" by simp
      have "\<not> caches j pid" if "previous_id = Some pid" for j pid
        using none g own [of pid] that by (auto simp: caches_def)
      with None p show ?thesis by auto
    next
      case (Some h)
      with p have h: "se_latest ?s = Some h" "previous_id = Some (response_id_of w h)"
        by (metis latest_match_Some)+
      then have "caches i (response_id_of w h)" using assms(2) by (simp add: caches_def)
      with h Some show ?thesis by auto
    qed
  next
    fix g pid assume pid: "previous_id = Some pid" and g: "se_group ?s = Some g"
      and none: "latest_match w ?s previous_id = None"
      and p: "parent = find_fork w i pid (gr_members (st_groups w ! g))"
    note members = open_members [OF ok assms(2) open'(1) g]
    show ?thesis
    proof (cases parent)
      case None
      have "\<not> caches j pid" for j
      proof
        assume c: "caches j pid"
        with none pid own have "j \<noteq> i" by (auto simp: caches_def)
        with c g members [of j] have "j \<in> set (gr_members (st_groups w ! g))" by (auto simp: caches_def)
        with None p \<open>j \<noteq> i\<close> have "se_closed (st_sessions w ! j) \<or> latest_match w (st_sessions w ! j) (Some pid) = None"
          by (auto simp: find_fork_None)
        moreover obtain h where "se_latest (st_sessions w ! j) = Some h" "response_id_of w h = pid"
          using c by (auto simp: caches_def)
        moreover have "st_sessions w ! j \<in> set (st_sessions w)" using c by (simp add: caches_def)
        moreover have "closed_ok w" using ok by (simp add: store_ok_def)
        ultimately show False
          by (auto simp: closed_ok_def latest_match_def)
      qed
      with None pid show ?thesis by simp
    next
      case (Some h)
      with p find_fork_owner [of w i pid "gr_members (st_groups w ! g)" h] obtain m where
        "m \<in> set (gr_members (st_groups w ! g))" "se_latest (st_sessions w ! m) = Some h" "response_id_of w h = pid" by auto
      with members [of m] g have "caches m pid" by (auto simp: caches_def)
      with Some pid \<open>response_id_of w h = pid\<close> show ?thesis by auto
    qed
  qed
  then show ?thesis using lease latest alloc unfolding caches_def by auto
qed

theorem begin_finds_parent_witness:
  "\<exists>l w c. begin_turn 0 (Some ''resp_1'') (demo_store True True True) = Inr (l, w)
     \<and> st_leases w ! l = Some c \<and> co_parent c \<noteq> None"
proof -
  have s: "st_sessions (demo_store True True True) ! 0 = demo_session (Some 0) False"
    "se_latest (demo_session (Some 0) False) = Some 0" "response_id_of (demo_store True True True) 0 = ''resp_1''"
    "0 < length (st_sessions (demo_store True True True))"
    by (simp_all add: demo_store_def demo_session_def response_id_of_def demo_checkpoint_def)
  have "\<exists>l w. begin_turn 0 (Some ''resp_1'') (demo_store True True True) = Inr (l, w)"
    by (simp add: begin_turn_def Let_def demo_store_def demo_session_def)
  then obtain l w where b: "begin_turn 0 (Some ''resp_1'') (demo_store True True True) = Inr (l, w)" by blast
  from begin_finds_parent [OF demo_reachable(3) s(4) b] s show ?thesis
    unfolding b by (fastforce split: option.splits)
qed

text \<open>
  A failed turn evicts only its own parent. Dropping an unfinished lease frees its session for
  the next turn and forgets the session's cached response only when it is the one the turn
  continued; every other session keeps its cache, so a failed fork never costs the source its
  checkpoint, and a checkpoint that anyone still owns keeps its content.
\<close>

theorem failed_turn_evicts_only_its_parent:
  assumes "session_reachable p writes w" "l < length (st_leases w)" "st_leases w ! l = Some c"
  shows "(let w' = drop_lease l c w; i = co_session c; latest = se_latest (st_sessions w ! i)
    in \<not> se_active (st_sessions w' ! i)
       \<and> se_latest (st_sessions w' ! i) =
           (if latest \<noteq> None \<and> map_option (response_id_of w) latest = map_option (response_id_of w) (co_parent c)
            then None else latest)
       \<and> (\<forall>j. j \<noteq> i \<longrightarrow> st_sessions w' ! j = st_sessions w ! j)
       \<and> (\<forall>h. held w' h \<longrightarrow> st_heap w' ! h = st_heap w ! h \<and> allocated w' h))"
proof -
  have ok: "store_ok w" using assms(1) by (rule store_ok_reachable)
  note live = live_lease [OF ok assms(2,3)]
  let ?w' = "drop_lease l c w" and ?s = "st_sessions w ! co_session c"
  note sessions = drop_lease_sessions [where l = l, OF live(1)]
  have "se_latest (st_sessions ?w' ! co_session c) =
      (if se_latest ?s \<noteq> None \<and> map_option (response_id_of w) (se_latest ?s) = map_option (response_id_of w) (co_parent c)
       then None else se_latest ?s)"
    using live(1) by (cases "co_parent c"; cases "se_latest ?s") (simp_all add: sessions)
  moreover have "\<not> se_active (st_sessions ?w' ! co_session c)" using live(1) by (simp add: sessions)
  moreover have "st_sessions ?w' ! j = st_sessions w ! j" if "j \<noteq> co_session c" for j
    using that by (simp add: sessions)
  moreover have "st_heap ?w' ! h = st_heap w ! h" if "held ?w' h" for h
    using that by (simp add: drop_lease_def Let_def held_heap_opt)
  moreover have "allocated ?w' h" if "held ?w' h" for h
    using store_ok_drop_lease [OF ok assms(2,3)] that by (simp add: store_ok_def heap_ok_def owned_ok_def)
  ultimately show ?thesis by (simp add: Let_def)
qed

theorem failed_turn_evicts_only_its_parent_witness:
  "\<not> se_active (st_sessions (drop_lease 0 demo_lease (demo_store True True False)) ! 0)
   \<and> se_latest (st_sessions (drop_lease 0 demo_lease (demo_store True True False)) ! 0) = None
   \<and> held (drop_lease 0 demo_lease (demo_store True True False)) 0"
proof -
  have "co_session demo_lease = 0" "se_latest (st_sessions (demo_store True True False) ! 0) = None"
    by (simp_all add: demo_lease_def demo_store_def demo_session_def)
  moreover have "held (drop_lease 0 demo_lease (demo_store True True False)) 0"
    by (simp add: held_iff owners_def drop_lease_def Let_def demo_store_def)
  ultimately show ?thesis
    using failed_turn_evicts_only_its_parent [OF demo_reachable(2) demo_live(1,2)] by (simp add: Let_def)
qed

text \<open>
  C31: a checkpoint is retained only within every budget. A checkpoint that a live turn prepares
  has at most the session's number of items and bytes, only its canonical history, and no MCP
  credentials among its effective tools; its bytes are charged once to its group's budget,
  which stays within its limit, and to no other; a refusal for size is the client's 413.
\<close>

theorem checkpoint_within_budgets:
  assumes "session_reachable p writes w" "l < length (st_leases w)" "st_leases w ! l = Some c"
  shows "(case checkpoint p writes c rid cid meta items durable w of
      Inl e \<Rightarrow> http_status e = 413 \<or> (\<exists>m. e = JsonError m)
    | Inr (h, w') \<Rightarrow> (\<exists>ck r. st_heap w' ! h = Some \<lparr>rt_checkpoint = ck, rt_reservation = r\<rparr> \<and> h \<in> set (st_prepared w')
        \<and> ck_response_id ck = rid
        \<and> canonical_session_history (ck_history ck) = ck_history ck
        \<and> length (ck_history ck) \<le> se_max_items (st_sessions w ! co_session c)
        \<and> sum_list (fst (writes ck)) \<le> se_max_bytes (st_sessions w ! co_session c)
        \<and> (\<forall>tools. rm_effective_tools (ck_metadata ck) = Some tools \<longrightarrow> \<not> list_ex carries_credentials tools)
        \<and> (\<forall>g < length (st_budgets w). bu_used (st_budgets w' ! g) = bu_used (st_budgets w ! g)
              + (if se_group (st_sessions w ! co_session c) = Some g then sum_list (fst (writes ck)) else 0)
            \<and> bu_used (st_budgets w' ! g) \<le> bu_limit (st_budgets w' ! g))))"
proof (cases "checkpoint p writes c rid cid meta items durable w")
  case (Inl e)
  have "http_status e = 413 \<or> (\<exists>m. e = JsonError m)"
    using Inl by (auto simp: checkpoint_def Let_def retain_def reserve_def aggregate_budget_error_def http_status_def
        and_then_eq_Inl split: sum.splits option.splits if_splits)
  with Inl show ?thesis by simp
next
  case (Inr hw)
  obtain h w' where hw: "hw = (h, w')" by (cases hw)
  have ok: "store_ok w" using assms(1) by (rule store_ok_reachable)
  note live = live_lease [OF ok assms(2,3)]
  from checkpoint_Inr [OF Inr [unfolded hw]] obtain ck where
    ck: "ck = \<lparr>ck_response_id = rid, ck_conversation_id = cid,
           ck_history = canonical_session_history (parent_items w c @ into_input_items p items),
           ck_metadata = sanitize_metadata meta, ck_durable = durable\<rparr>"
    and len: "length (ck_history ck) \<le> se_max_items (st_sessions w ! co_session c)"
    and size: "sum_list (fst (writes ck)) \<le> se_max_bytes (st_sessions w ! co_session c)"
    and ret: "retain (co_session c) ck (sum_list (fst (writes ck))) w = Inr (h, w')" by metis
  have tools: "\<not> list_ex carries_credentials tools" if "rm_effective_tools (ck_metadata ck) = Some tools" for tools
    using that by (auto simp: ck sanitize_metadata_def list_ex_iff sanitize_no_credentials)
  obtain r where r: "st_heap w' = st_heap w @ [Some \<lparr>rt_checkpoint = ck, rt_reservation = r\<rparr>]"
    using retain_frame(7) [OF ret] by blast
  have acc: "accounts_ok w" "accounts_ok w'"
    using ok store_ok_retain [OF ok live(1) ret] by (simp_all add: store_ok_def heap_ok_def)
  have res: "r = map_option (\<lambda>g. (g, sum_list (fst (writes ck)))) (se_group (st_sessions w ! co_session c))"
    using ret by (cases rule: retain_cases) (use r in auto)
  have charge: "charges w' g = charges w g
      + (if se_group (st_sessions w ! co_session c) = Some g then sum_list (fst (writes ck)) else 0)" for g
    by (cases "se_group (st_sessions w ! co_session c)") (auto simp: charges_def r res charge_of_def)
  have len_b: "length (st_budgets w') = length (st_budgets w)" by (rule retain_frame(5) [OF ret])
  have budgets: "bu_used (st_budgets w' ! g) = bu_used (st_budgets w ! g)
              + (if se_group (st_sessions w ! co_session c) = Some g then sum_list (fst (writes ck)) else 0)
            \<and> bu_used (st_budgets w' ! g) \<le> bu_limit (st_budgets w' ! g)" if "g < length (st_budgets w)" for g
    using acc that charge [of g] unfolding accounts_ok_def len_b by auto
  have "h \<in> set (st_prepared w')" "st_heap w' ! h = Some \<lparr>rt_checkpoint = ck, rt_reservation = r\<rparr>"
    using retain_frame(1,6) [OF ret] r by simp_all
  moreover have "canonical_session_history (ck_history ck) = ck_history ck" "ck_response_id ck = rid"
    by (simp_all add: ck canonical_idem)
  ultimately show ?thesis
    unfolding Inr hw sum.case prod.case
    using len size tools budgets by (intro exI [of _ ck] exI [of _ r]) blast
qed

theorem checkpoint_within_budgets_witness:
  "\<exists>h w. checkpoint demo_printers demo_writes demo_lease ''resp_1'' None demo_metadata [] False (demo_store True False False)
        = Inr (h, w)
     \<and> bu_used (st_budgets w ! 0) = 100 \<and> bu_used (st_budgets w ! 0) \<le> bu_limit (st_budgets w ! 0)"
proof -
  have "0 < length (st_budgets (demo_store True False False))" "bu_used (st_budgets (demo_store True False False) ! 0) = 0"
    "se_group (st_sessions (demo_store True False False) ! co_session demo_lease) = Some 0"
    by (simp_all add: demo_store_def demo_session_def demo_lease_def)
  moreover have "sum_list (fst (demo_writes ck)) = 100" for ck by (simp add: demo_writes_def)
  ultimately show ?thesis
    using checkpoint_within_budgets [OF demo_reachable(1) demo_live(1,2) [of False], of "''resp_1''" None demo_metadata "[]" False]
    unfolding demo_prepare by auto
qed

end
