(* ===== verification/Storage_Properties.thy ===== *)
theory Storage_Properties
  imports Storage "HOL-Library.Multiset"
begin

text \<open>
  What the durable store promises: a stored item reads back as itself, items inserted in
  batches get one contiguous run of sequence numbers, a persisted response rehydrates to its
  parent's history followed by its own items, no credentials reach the database, and two
  writers that read the same version of a conversation cannot both append to it.
\<close>

section \<open>Stored items\<close>

lemma im_insert_absent: "im_get m k = None \<Longrightarrow> im_insert k v m = m @ [(k, v)]"
  by (rule im_insert_new) (simp add: im_get_None_iff)

lemma swap_remove_appended: "im_get m k = None \<Longrightarrow> swap_remove k (m @ [(k, v)]) = m"
  by (induction m) (auto simp: im_get_def split: if_splits)

text \<open>
  An item that the codec can store: it serializes to an object without the marker's key, the
  marked text parses to the marked object, and the object deserializes to the item.
\<close>

definition marked :: "item_kind \<Rightarrow> json_map \<Rightarrow> json" where
  "marked k m = JObject (m @ [(stored_item_kind_key, JString (item_kind_str k))])"

fun storable :: "text_codec \<Rightarrow> in_out_item \<Rightarrow> bool" where
  "storable c (StoredInput x) \<longleftrightarrow>
     (case tc_input_json c x of
        Inr (JObject m) \<Rightarrow> im_get m stored_item_kind_key = None
          \<and> tc_parse c (tc_print c (marked InputKind m)) = Some (marked InputKind m)
          \<and> tc_input_of_json c (JObject m) = Some x
      | _ \<Rightarrow> False)"
| "storable c (StoredOutput x) \<longleftrightarrow>
     (case tc_output_json c x of
        Inr (JObject m) \<Rightarrow> im_get m stored_item_kind_key = None
          \<and> tc_parse c (tc_print c (marked OutputKind m)) = Some (marked OutputKind m)
          \<and> tc_output_of_json c (JObject m) = Some x
      | _ \<Rightarrow> False)"

lemma item_kind_round_trip [simp]: "item_kind_of_str (item_kind_str k) = Some k"
  by (cases k) (simp_all add: item_kind_of_str_def)

lemma get_marked: "im_get m k = None \<Longrightarrow> im_get (m @ [(k, v)]) k = Some v"
  by (auto simp: im_get_def map_add_def map_of_append split: option.split)

lemma storable_text:
  assumes "storable c x"
  obtains k m where "item_text c x = Inr (tc_print c (marked k m))"
    "tc_parse c (tc_print c (marked k m)) = Some (marked k m)" "im_get m stored_item_kind_key = None"
    "(case k of InputKind \<Rightarrow> map_option StoredInput (tc_input_of_json c (JObject m))
              | OutputKind \<Rightarrow> map_option StoredOutput (tc_output_of_json c (JObject m))) = Some x"
proof (cases x)
  case (StoredInput y)
  with assms obtain m where "tc_input_json c y = Inr (JObject m)" "im_get m stored_item_kind_key = None"
    "tc_parse c (tc_print c (marked InputKind m)) = Some (marked InputKind m)" "tc_input_of_json c (JObject m) = Some y"
    by (auto split: sum.splits json.splits)
  with StoredInput that [of InputKind m] show thesis
    by (simp add: marked_def im_insert_absent serialization_def)
next
  case (StoredOutput y)
  with assms obtain m where "tc_output_json c y = Inr (JObject m)" "im_get m stored_item_kind_key = None"
    "tc_parse c (tc_print c (marked OutputKind m)) = Some (marked OutputKind m)" "tc_output_of_json c (JObject m) = Some y"
    by (auto split: sum.splits json.splits)
  with StoredOutput that [of OutputKind m] show thesis
    by (simp add: marked_def im_insert_absent serialization_def)
qed

lemma storable_read:
  assumes "storable c x" "item_text c x = Inr t" "it_data row = t"
  shows "row_as_inout c row = Some x"
proof -
  from storable_text [OF assms(1)] obtain k m where
    km: "item_text c x = Inr (tc_print c (marked k m))"
      "tc_parse c (tc_print c (marked k m)) = Some (marked k m)" "im_get m stored_item_kind_key = None"
      "(case k of InputKind \<Rightarrow> map_option StoredInput (tc_input_of_json c (JObject m))
              | OutputKind \<Rightarrow> map_option StoredOutput (tc_output_of_json c (JObject m))) = Some x" by metis
  have parse: "tc_parse c (it_data row) = Some (marked k m)" using km(1,2) assms(2,3) by simp
  have "row_item_kind c row = Some k"
    using km(3) by (simp add: row_item_kind_def parse marked_def json_get_def get_marked)
  moreover have "data_without_storage_marker c row = Some (JObject m)"
    using km(3) by (simp add: data_without_storage_marker_def parse marked_def swap_remove_appended)
  ultimately show ?thesis
    using km(4) by (cases k) (auto simp: row_as_inout_def Let_def row_as_input_def row_as_output_def)
qed

lemma storable_item_text: "storable c x \<Longrightarrow> \<exists>t. item_text c x = Inr t"
  by (erule storable_text) auto

section \<open>Batches\<close>

lemma concat_batches: "concat (batches n xs) = xs"
proof (induction n xs rule: batches.induct)
  case (1 n xs)
  then show ?case by (subst batches.simps) (simp del: max.absorb1)
qed

lemma set_get_item_rows: "set (get_item_rows ids db) = {r \<in> set (db_items db). it_id r \<in> set ids}"
proof -
  have "set ids = (\<Union>b \<in> set (batches max_bind_parameters ids). set b)"
    using concat_batches [of max_bind_parameters ids] by (metis set_concat)
  then show ?thesis by (auto simp: get_item_rows_def)
qed

definition item_rows :: "i64 \<Rightarrow> string option \<Rightarrow> i64 \<Rightarrow> (string \<times> string) list \<Rightarrow> item_row list" where
  "item_rows now cid start texts = map (\<lambda>(n, i, d). \<lparr>it_id = i, it_data = d, it_created_at = now,
     it_conversation_id = cid, it_seq = map_option (\<lambda>_. start + int n) cid\<rparr>) (enumerate 0 texts)"

definition next_seq :: "string option \<Rightarrow> database \<Rightarrow> i64" where
  "next_seq cid db = (case cid of None \<Rightarrow> 0 | Some c \<Rightarrow> unwrap_or (max_seq (conversation_items c db)) (- 1) + 1)"

lemma enumerate_append: "enumerate n (xs @ ys) = enumerate n xs @ enumerate (n + length xs) ys"
  by (induction xs arbitrary: n) (simp_all add: ac_simps)

lemma enumerate_shift: "enumerate (k + n) xs = map (\<lambda>(i, x). (k + i, x)) (enumerate n xs)"
  by (induction xs arbitrary: n) (simp_all flip: add_Suc_right)

lemma item_rows_append:
  "item_rows now cid start (xs @ ys) = item_rows now cid start xs @ item_rows now cid (start + int (length xs)) ys"
proof -
  have "enumerate (length xs) ys = map (\<lambda>(i, x). (length xs + i, x)) (enumerate 0 ys)"
    using enumerate_shift [of "length xs" 0 ys] by simp
  then show ?thesis
    by (cases cid) (simp_all add: item_rows_def enumerate_append case_prod_beta add.assoc)
qed

lemma item_rows_Nil [simp]: "item_rows now cid start [] = []"
  by (simp add: item_rows_def)

lemma create_batch_rows:
  "create_batch now cid db texts = insert_item_rows (item_rows now cid (next_seq cid db) texts) db"
  by (cases cid)
     (auto simp: create_batch_def item_rows_def next_seq_def Let_def case_prod_beta enumerate_eq_zip
        intro!: arg_cong2 [where f = insert_item_rows] nth_equalityI)

lemma insert_item_rows_Inr: "insert_item_rows rows db = Inr db' \<Longrightarrow> db' = db\<lparr>db_items := db_items db @ rows\<rparr>"
  by (auto simp: insert_item_rows_def split: if_splits)

lemma map_filter_append': "List.map_filter f (xs @ ys) = List.map_filter f xs @ List.map_filter f ys"
  by (rule map_filter_append)

lemma fold_max: "fold max ns (n :: i64) = Max (set (n # ns))"
  by (metis Max.set_eq_fold)

lemma max_seq_Max: "max_seq rows = (if List.map_filter it_seq rows = [] then None else Some (Max (set (List.map_filter it_seq rows))))"
  by (simp add: max_seq_def fold_max split: list.split)

lemma seqs_item_rows: "List.map_filter it_seq (item_rows now (Some c) start texts) = map (\<lambda>n. start + int n) [0..<length texts]"
proof (induction texts rule: rev_induct)
  case (snoc x xs)
  then show ?case by (simp add: item_rows_append) (simp add: item_rows_def case_prod_beta)
qed simp

lemma next_seq_after:
  assumes "texts \<noteq> []"
  shows "next_seq (Some c) (db\<lparr>db_items := db_items db @ item_rows now (Some c) (next_seq (Some c) db) texts\<rparr>)
    = next_seq (Some c) db + int (length texts)"
proof -
  let ?s = "next_seq (Some c) db" and ?old = "List.map_filter it_seq (conversation_items c db)"
  let ?db = "db\<lparr>db_items := db_items db @ item_rows now (Some c) ?s texts\<rparr>"
  have "filter (\<lambda>r. it_conversation_id r = Some c) (item_rows now (Some c) ?s texts) = item_rows now (Some c) ?s texts"
    by (auto simp: item_rows_def filter_id_conv)
  then have seqs: "List.map_filter it_seq (conversation_items c ?db) = ?old @ map (\<lambda>n. ?s + int n) [0..<length texts]"
    by (simp add: conversation_items_def seqs_item_rows)
  have old: "\<forall>n \<in> set ?old. n < ?s"
  proof
    fix n assume n: "n \<in> set ?old"
    then have "n \<le> Max (set ?old)" "?old \<noteq> []" by auto
    then show "n < ?s" by (simp add: next_seq_def max_seq_Max)
  qed
  have "Max (set (?old @ map (\<lambda>n. ?s + int n) [0..<length texts])) = ?s + int (length texts - 1)"
  proof (rule Max_eqI)
    show "?s + int (length texts - 1) \<in> set (?old @ map (\<lambda>n. ?s + int n) [0..<length texts])"
      using assms by auto
    fix y assume "y \<in> set (?old @ map (\<lambda>n. ?s + int n) [0..<length texts])"
    with old assms show "y \<le> ?s + int (length texts - 1)" by (fastforce simp: of_nat_diff)
  qed simp
  moreover have "max_seq (conversation_items c ?db)
      = Some (Max (set (?old @ map (\<lambda>n. ?s + int n) [0..<length texts])))"
    using assms by (simp add: max_seq_Max seqs)
  ultimately have "max_seq (conversation_items c ?db) = Some (?s + int (length texts - 1))" by simp
  then have "next_seq (Some c) ?db = ?s + int (length texts - 1) + 1" by (simp add: next_seq_def)
  with assms show ?thesis by (cases texts) simp_all
qed

lemma next_seq_after':
  "next_seq cid (db\<lparr>db_items := db_items db @ item_rows now cid (next_seq cid db) texts\<rparr>)
     = (if cid = None then 0 else next_seq cid db + int (length texts))"
  using next_seq_after [of texts] by (cases cid; cases "texts = []") (simp_all add: next_seq_def)

lemma item_rows_None: "item_rows now None s texts = item_rows now None s' texts"
  by (simp add: item_rows_def)

lemma create_items_rows:
  assumes "create_items now texts cid db = Inr db'"
  shows "db' = db\<lparr>db_items := db_items db @ item_rows now cid (next_seq cid db) texts\<rparr>"
proof -
  have runs: "run_steps (create_batch now cid) db bs = Inr db' \<Longrightarrow>
      db' = db\<lparr>db_items := db_items db @ item_rows now cid (next_seq cid db) (concat bs)\<rparr>" for bs
  proof (induction bs arbitrary: db)
    case (Cons b bs)
    from run_steps_ConsD [OF Cons.prems] obtain d where
      d: "create_batch now cid db b = Inr d" "run_steps (create_batch now cid) d bs = Inr db'" by blast
    from d(1) have d': "d = db\<lparr>db_items := db_items db @ item_rows now cid (next_seq cid db) b\<rparr>"
      by (simp add: create_batch_rows insert_item_rows_Inr)
    have "db' = d\<lparr>db_items := db_items d @ item_rows now cid (next_seq cid d) (concat bs)\<rparr>"
      by (rule Cons.IH [OF d(2)])
    moreover have "item_rows now cid (next_seq cid d) (concat bs)
        = item_rows now cid (next_seq cid db + int (length b)) (concat bs)"
      using next_seq_after' [of cid db now b] item_rows_None by (cases cid) (simp_all add: d')
    ultimately show ?case by (simp add: d' item_rows_append)
  qed simp
  show ?thesis
    using runs [of "batches max_items_per_insert texts"] assms by (simp add: create_items_def concat_batches)
qed

section \<open>A consistent database\<close>

text \<open>
  Primary keys are unique, every item that a response's history lists exists, and the latest
  response of a conversation exists.
\<close>

definition history_ids :: "text_codec \<Rightarrow> response_row \<Rightarrow> string list" where
  "history_ids c row = rd_history_item_ids (response_data_of_row c row)"

definition database_ok :: "text_codec \<Rightarrow> database \<Rightarrow> bool" where
  "database_ok c db \<longleftrightarrow>
     distinct (map it_id (db_items db)) \<and> distinct (map rr_id (db_responses db)) \<and> distinct (map cv_id (db_conversations db))
     \<and> (\<forall>r \<in> set (db_responses db). set (history_ids c r) \<subseteq> set (map it_id (db_items db)))
     \<and> (\<forall>v \<in> set (db_conversations db).
           case cv_latest_response_id v of None \<Rightarrow> True | Some rid \<Rightarrow> rid \<in> set (map rr_id (db_responses db)))"

definition ids_round_trip :: "text_codec \<Rightarrow> string list \<Rightarrow> bool" where
  "ids_round_trip c ids \<longleftrightarrow> (case tc_ids_text c ids of Inr t \<Rightarrow> tc_ids_of_text c t = Some ids | Inl _ \<Rightarrow> True)"

lemma item_rows_single: "item_rows now cid s [(i, d)] = [\<lparr>it_id = i, it_data = d, it_created_at = now,
     it_conversation_id = cid, it_seq = map_option (\<lambda>_. s) cid\<rparr>]"
  by (simp add: item_rows_def)

lemma item_rows_columns: "map it_id (item_rows now cid s texts) = map fst texts \<and> map it_data (item_rows now cid s texts) = map snd texts"
proof (induction texts rule: rev_induct)
  case (snoc x xs)
  then show ?case by (cases x) (simp add: item_rows_append item_rows_single)
qed simp

lemmas item_rows_ids = item_rows_columns [THEN conjunct1]
lemmas item_rows_data = item_rows_columns [THEN conjunct2]

lemma insert_item_rows_distinct:
  "insert_item_rows rows db = Inr db' \<Longrightarrow> distinct (map it_id (db_items db @ rows))"
  by (auto simp: insert_item_rows_def item_key_clash_def Let_def split: if_splits)

lemma create_items_distinct:
  assumes "create_items now texts cid db = Inr db'" "distinct (map it_id (db_items db))"
  shows "distinct (map it_id (db_items db'))"
proof -
  have "run_steps (create_batch now cid) db bs = Inr db' \<Longrightarrow> distinct (map it_id (db_items db)) \<Longrightarrow> ?thesis" for bs
  proof (induction bs arbitrary: db)
    case (Cons b bs)
    from run_steps_ConsD [OF Cons.prems(1)] obtain d where
      d: "create_batch now cid db b = Inr d" "run_steps (create_batch now cid) d bs = Inr db'" by blast
    from d(1) have ins: "insert_item_rows (item_rows now cid (next_seq cid db) b) db = Inr d"
      by (simp add: create_batch_rows)
    have "distinct (map it_id (db_items d))"
      using insert_item_rows_distinct [OF ins] insert_item_rows_Inr [OF ins] by simp
    with Cons.IH [OF d(2)] show ?case by simp
  qed simp
  with assms show ?thesis unfolding create_items_def by blast
qed

lemma new_item_texts_Inr:
  assumes "new_item_texts c draw items = Inr texts"
  shows "length texts = length items" "map fst texts = map draw [0..<length items]"
    "\<And>n. n < length items \<Longrightarrow> item_text c (items ! n) = Inr (snd (texts ! n))"
proof -
  let ?f = "\<lambda>(n, x). and_then (item_text c x) (\<lambda>t. Inr (draw n, t))"
  have eq: "map ?f (enumerate 0 items) = map Inr texts"
    using assms by (simp add: new_item_texts_def collect_results_Inr)
  show len: "length texts = length items"
    using arg_cong [OF eq, of length] by simp
  have nth: "?f (n, items ! n) = Inr (texts ! n)" if "n < length items" for n
    using arg_cong [OF eq, of "\<lambda>l. l ! n"] that len by (simp add: nth_enumerate_eq)
  show "item_text c (items ! n) = Inr (snd (texts ! n))" if "n < length items" for n
    using nth [OF that] by (cases "item_text c (items ! n)"; cases "texts ! n") auto
  have "fst (texts ! n) = draw n" if "n < length items" for n
    using nth [OF that] by (cases "item_text c (items ! n)"; cases "texts ! n") auto
  then show "map fst texts = map draw [0..<length items]"
    by (intro nth_equalityI) (simp_all add: len)
qed

section \<open>Reading a history back\<close>

lemma items_by_id_eq:
  assumes "\<And>r r'. r \<in> set rows \<Longrightarrow> r' \<in> set rows \<Longrightarrow> it_id r = it_id r' \<Longrightarrow> r = r'"
  shows "items_by_id c rows i = Some x \<longleftrightarrow> (\<exists>r \<in> set rows. it_id r = i \<and> row_as_inout c r = Some x)"
  using assms
proof (induction rows rule: rev_induct)
  case Nil
  show ?case by (simp add: items_by_id_def)
next
  case (snoc r rows)
  have IH: "items_by_id c rows i = Some x \<longleftrightarrow> (\<exists>r \<in> set rows. it_id r = i \<and> row_as_inout c r = Some x)"
    by (rule snoc.IH) (use snoc.prems in auto)
  have step: "items_by_id c (rows @ [r]) = (case row_as_inout c r of None \<Rightarrow> items_by_id c rows
      | Some y \<Rightarrow> (items_by_id c rows)(it_id r \<mapsto> y))"
    by (simp add: items_by_id_def split: option.split)
  have same: "r' = r" if "r' \<in> set rows" "it_id r' = it_id r" for r' using snoc.prems that by auto
  show ?case
  proof (cases "it_id r = i")
    case True
    have "(\<exists>r' \<in> set (rows @ [r]). it_id r' = i \<and> row_as_inout c r' = Some x) \<longleftrightarrow> row_as_inout c r = Some x"
      using same True by auto
    with IH True show ?thesis by (cases "row_as_inout c r") (simp_all add: step)
  next
    case False
    with IH show ?thesis by (cases "row_as_inout c r") (auto simp: step)
  qed
qed

text \<open>The item a database stores under an identifier.\<close>

definition stored_item :: "text_codec \<Rightarrow> database \<Rightarrow> string \<rightharpoonup> in_out_item" where
  "stored_item c db i = Option.bind (List.find (\<lambda>r. it_id r = i) (db_items db)) (row_as_inout c)"

lemma find_id: "distinct (map f xs) \<Longrightarrow> List.find (\<lambda>y. f y = i) xs = Some x \<longleftrightarrow> x \<in> set xs \<and> f x = i"
  by (induction xs) (auto simp: rev_image_eqI)

lemma items_by_id_stored:
  assumes "distinct (map it_id (db_items db))"
  shows "items_by_id c (get_item_rows ids db) i = (if i \<in> set ids then stored_item c db i else None)"
proof -
  have inj: "inj_on it_id (set (db_items db))" using assms by (simp add: distinct_map)
  have "items_by_id c (get_item_rows ids db) i = Some x
      \<longleftrightarrow> (\<exists>r \<in> set (get_item_rows ids db). it_id r = i \<and> row_as_inout c r = Some x)" for x
    by (rule items_by_id_eq) (use inj in \<open>auto simp: set_get_item_rows inj_on_def\<close>)
  moreover have "stored_item c db i = Some x \<longleftrightarrow> (\<exists>r \<in> set (db_items db). it_id r = i \<and> row_as_inout c r = Some x)" for x
    using find_id [OF assms] by (auto simp: stored_item_def bind_eq_Some_conv)
  ultimately have "items_by_id c (get_item_rows ids db) i = Some x
      \<longleftrightarrow> (if i \<in> set ids then stored_item c db i else None) = Some x" for x
    by (auto simp: set_get_item_rows)
  then show ?thesis by (metis not_Some_eq)
qed

lemma take_items_cong: "(\<And>i. i \<in> set ids \<Longrightarrow> m i = m' i) \<Longrightarrow> take_items ids m = take_items ids m'"
proof (induction ids arbitrary: m m')
  case (Cons i ids)
  have "m i = m' i" using Cons.prems by simp
  moreover have "take_items ids (m(i := None)) = take_items ids (m'(i := None))"
    by (rule Cons.IH) (use Cons.prems in auto)
  moreover have "take_items ids m = take_items ids m'" by (rule Cons.IH) (use Cons.prems in auto)
  ultimately show ?case by (simp split: option.split)
qed simp

lemma take_items_append:
  assumes "set xs \<inter> set ys = {}"
  shows "take_items (xs @ ys) m = take_items xs m @ take_items ys m"
  using assms
proof (induction xs arbitrary: m)
  case (Cons x xs)
  have "take_items ys (m(x := None)) = take_items ys m"
    by (rule take_items_cong) (use Cons.prems in auto)
  with Cons show ?case by (auto split: option.split)
qed simp

lemma take_items_distinct:
  assumes "distinct ys" "length ys = length xs" "\<And>n. n < length xs \<Longrightarrow> m (ys ! n) = Some (xs ! n)"
  shows "take_items ys m = xs"
  using assms
proof (induction ys arbitrary: xs m)
  case (Cons y ys)
  then obtain x xs' where xs: "xs = x # xs'" by (cases xs) auto
  have "m y = Some x" using Cons.prems(3) [of 0] by (simp add: xs)
  moreover have "take_items ys (m(y := None)) = xs'"
  proof (rule Cons.IH)
    fix n assume n: "n < length xs'"
    with Cons.prems have "ys ! n \<noteq> y" by (auto simp: xs)
    with Cons.prems(3) [of "Suc n"] n show "(m(y := None)) (ys ! n) = Some (xs' ! n)" by (simp add: xs)
  qed (use Cons.prems xs in simp_all)
  ultimately show ?case by (simp add: xs)
qed simp

lemma rehydrate_row:
  assumes "distinct (map it_id (db_items db))" "get_response_row rid db = Some row"
  shows "response_rehydrate c rid (Some db) = Inr (take_items (history_ids c row) (stored_item c db))"
proof -
  have "take_items (history_ids c row) (items_by_id c (get_item_rows (history_ids c row) db))
      = take_items (history_ids c row) (stored_item c db)"
    by (rule take_items_cong) (simp add: items_by_id_stored [OF assms(1)])
  with assms(2) show ?thesis
    by (simp add: response_rehydrate_def with_pool_def response_get_def history_ids_def)
qed

lemma stored_item_new:
  assumes "distinct (map it_id (db_items db @ rows))"
  shows "i \<in> set (map it_id (db_items db)) \<Longrightarrow> stored_item c (db\<lparr>db_items := db_items db @ rows\<rparr>) i = stored_item c db i"
    "r \<in> set rows \<Longrightarrow> stored_item c (db\<lparr>db_items := db_items db @ rows\<rparr>) (it_id r) = row_as_inout c r"
proof -
  let ?db = "db\<lparr>db_items := db_items db @ rows\<rparr>"
  have d: "distinct (map it_id (db_items ?db))" "distinct (map it_id (db_items db))" using assms by simp_all
  show "stored_item c ?db i = stored_item c db i" if "i \<in> set (map it_id (db_items db))"
  proof -
    from that obtain r where r: "r \<in> set (db_items db)" "i = it_id r" by auto
    have "List.find (\<lambda>y. it_id y = i) (db_items ?db) = Some r" "List.find (\<lambda>y. it_id y = i) (db_items db) = Some r"
      using r find_id [OF d(1), of i r] find_id [OF d(2), of i r] by auto
    then show ?thesis by (simp add: stored_item_def)
  qed
  show "stored_item c ?db (it_id r) = row_as_inout c r" if "r \<in> set rows"
    using find_id [OF d(1), of "it_id r" r] that by (simp add: stored_item_def)
qed

section \<open>The response chain\<close>

definition previous_history :: "text_codec \<Rightarrow> string option \<Rightarrow> database \<Rightarrow> string list" where
  "previous_history c previous_id db =
     (case Option.bind previous_id (\<lambda>p. get_response_row p db) of None \<Rightarrow> [] | Some row \<Rightarrow> history_ids c row)"

lemma create_response_Inr:
  "create_response row db = Inr db' \<Longrightarrow>
     rr_id row \<notin> set (map rr_id (db_responses db)) \<and> db' = db\<lparr>db_responses := db_responses db @ [row]\<rparr>"
  by (auto simp: create_response_def split: if_splits)

lemma serialization_Inr: "serialization r = Inr x \<longleftrightarrow> r = Inr x"
  by (cases r) (simp_all add: serialization_def)

lemma response_persist_Inr:
  assumes "response_persist c draw now rid cid previous_id items metadata (Some db) = Inr db'"
  obtains texts ids_json metadata_json where
    "previous_id = None \<or> (\<exists>p row. previous_id = Some p \<and> get_response_row p db = Some row)"
    "new_item_texts c draw items = Inr texts"
    "tc_ids_text c (previous_history c previous_id db @ map fst texts) = Inr ids_json"
    "metadata_text c metadata = Inr metadata_json"
    "create_items now texts None db = Inr (db\<lparr>db_items := db_items db @ item_rows now None 0 texts\<rparr>)"
    "rid \<notin> set (map rr_id (db_responses db))"
    "db' = db\<lparr>db_items := db_items db @ item_rows now None 0 texts,
       db_responses := db_responses db @ [\<lparr>rr_id = rid, rr_conversation_id = cid, rr_previous_response_id = previous_id,
           rr_history_item_ids = Some ids_json, rr_metadata = Some metadata_json, rr_created_at = now\<rparr>]\<rparr>"
proof -
  from assms obtain previous_ids texts ids_json metadata_json d where
    prev: "(case previous_id of None \<Rightarrow> Inr []
                 | Some p \<Rightarrow> and_then (response_get c p (Some db)) (\<lambda>r. Inr (rd_history_item_ids r))) = Inr previous_ids"
    and texts: "new_item_texts c draw items = Inr texts"
    and ids: "tc_ids_text c (previous_ids @ map fst texts) = Inr ids_json"
    and meta: "metadata_text c metadata = Inr metadata_json"
    and d: "create_items now texts None db = Inr d"
    and resp: "create_response \<lparr>rr_id = rid, rr_conversation_id = cid, rr_previous_response_id = previous_id,
           rr_history_item_ids = Some ids_json, rr_metadata = Some metadata_json, rr_created_at = now\<rparr> d = Inr db'"
    unfolding response_persist_def with_pool_def
    by (elim and_then_InrE) (simp add: ok_or_eq_Inr serialization_Inr)
  have d': "d = db\<lparr>db_items := db_items db @ item_rows now None 0 texts\<rparr>"
    using create_items_rows [OF d] by (simp add: next_seq_def)
  have p: "previous_ids = previous_history c previous_id db
      \<and> (previous_id = None \<or> (\<exists>p row. previous_id = Some p \<and> get_response_row p db = Some row))"
    using prev
    by (cases previous_id)
       (auto simp: response_get_def with_pool_def previous_history_def history_ids_def ok_or_eq_Inr elim!: and_then_InrE)
  note r = create_response_Inr [OF resp]
  show thesis
  proof (rule that [of texts ids_json metadata_json])
    show "rid \<notin> set (map rr_id (db_responses db))" using r by (simp add: d')
    show "db' = db\<lparr>db_items := db_items db @ item_rows now None 0 texts,
       db_responses := db_responses db @ [\<lparr>rr_id = rid, rr_conversation_id = cid, rr_previous_response_id = previous_id,
           rr_history_item_ids = Some ids_json, rr_metadata = Some metadata_json, rr_created_at = now\<rparr>]\<rparr>"
      using r by (simp add: d')
  qed (use p texts ids meta d d' in simp_all)
qed

lemma get_response_row_append:
  "get_response_row i (db\<lparr>db_items := rows, db_responses := db_responses db @ [row]\<rparr>) =
     (case get_response_row i db of Some r \<Rightarrow> Some r | None \<Rightarrow> if rr_id row = i then Some row else None)"
proof -
  have "List.find P (xs @ [y]) = (case List.find P xs of Some r \<Rightarrow> Some r | None \<Rightarrow> if P y then Some y else None)" for P xs and y :: response_row
    by (induction xs) auto
  then show ?thesis by (simp add: get_response_row_def)
qed

lemma get_response_row_id: "get_response_row i db = Some row \<Longrightarrow> row \<in> set (db_responses db) \<and> rr_id row = i"
  by (auto simp: get_response_row_def find_Some_iff)

lemma get_response_row_None: "get_response_row i db = None \<longleftrightarrow> i \<notin> set (map rr_id (db_responses db))"
  by (auto simp: get_response_row_def find_None_iff)

text \<open>Adding rows for new items and one response that lists existing and new items keeps the database consistent.\<close>

lemma database_ok_add:
  assumes "database_ok c db" "distinct (map it_id (db_items db @ rows))" "rr_id row \<notin> set (map rr_id (db_responses db))"
    "set (history_ids c row) \<subseteq> set (map it_id (db_items db @ rows))"
  shows "database_ok c (db\<lparr>db_items := db_items db @ rows, db_responses := db_responses db @ [row]\<rparr>)"
  using assms unfolding database_ok_def by (auto 0 3 split: option.split)

lemma history_stored:
  assumes "database_ok c db" "get_response_row p db = Some row"
  shows "set (history_ids c row) \<subseteq> set (map it_id (db_items db))"
  using assms(1) get_response_row_id [OF assms(2)] unfolding database_ok_def by blast

lemma previous_history_stored:
  assumes "database_ok c db"
  shows "set (previous_history c previous_id db) \<subseteq> set (map it_id (db_items db))"
proof (cases "Option.bind previous_id (\<lambda>p. get_response_row p db)")
  case (Some row)
  then obtain p where "get_response_row p db = Some row" by (auto simp: bind_eq_Some_conv)
  from history_stored [OF assms this] Some show ?thesis by (simp add: previous_history_def)
qed (simp add: previous_history_def)

lemma rehydrate_after:
  assumes ok: "database_ok c db" and rows: "distinct (map it_id (db_items db @ rows))"
    and r: "get_response_row other db = Some r"
  shows "response_rehydrate c other (Some (db\<lparr>db_items := db_items db @ rows, db_responses := db_responses db @ [row]\<rparr>))
    = response_rehydrate c other (Some db)"
proof -
  let ?db = "db\<lparr>db_items := db_items db @ rows, db_responses := db_responses db @ [row]\<rparr>"
  have "set (history_ids c r) \<subseteq> set (map it_id (db_items db))"
    using ok r by (rule history_stored)
  then have "stored_item c ?db i = stored_item c db i" if "i \<in> set (history_ids c r)" for i
    using stored_item_new(1) [OF rows, of i c] that by (auto simp: stored_item_def)
  then have "take_items (history_ids c r) (stored_item c ?db) = take_items (history_ids c r) (stored_item c db)"
    by (rule take_items_cong)
  moreover have "get_response_row other ?db = Some r" by (simp add: get_response_row_append r)
  ultimately show ?thesis
    using rehydrate_row [of ?db other r c] rehydrate_row [of db other r c] r rows ok
    by (simp add: database_ok_def)
qed

text \<open>The rows just inserted read back as the items they were made from.\<close>

lemma new_items_read:
  assumes texts: "new_item_texts c draw items = Inr texts"
    and rows: "distinct (map it_id (db_items db @ item_rows now cid s texts))"
    and ok: "\<forall>x \<in> set items. storable c x"
  shows "take_items (map fst texts) (stored_item c (db\<lparr>db_items := db_items db @ item_rows now cid s texts, db_responses := rs\<rparr>))
    = items"
proof (rule take_items_distinct)
  let ?rows = "item_rows now cid s texts"
  note t = new_item_texts_Inr [OF texts]
  show "distinct (map fst texts)" using rows by (simp add: item_rows_ids)
  show "length (map fst texts) = length items" by (simp add: t(1))
  fix n assume n: "n < length items"
  have len: "length ?rows = length texts" using arg_cong [OF item_rows_ids, of length] by simp
  have row: "?rows ! n \<in> set ?rows" using n t(1) len by simp
  have cols: "it_id (?rows ! n) = fst (texts ! n)" "it_data (?rows ! n) = snd (texts ! n)"
    using n t(1) len arg_cong [OF item_rows_ids, of "\<lambda>l. l ! n" now cid s texts]
      arg_cong [OF item_rows_data, of "\<lambda>l. l ! n" now cid s texts] by simp_all
  have "storable c (items ! n)" using ok n by simp
  then have "row_as_inout c (?rows ! n) = Some (items ! n)"
    using t(3) [OF n] cols(2) by (rule storable_read)
  then show "stored_item c (db\<lparr>db_items := db_items db @ ?rows, db_responses := rs\<rparr>) (map fst texts ! n) = Some (items ! n)"
    using stored_item_new(2) [OF rows row, of c] n t(1) cols(1) by (simp add: stored_item_def)
qed

text \<open>What a persisted response reads back as.\<close>

lemma response_persist_rehydrates:
  assumes "database_ok c db"
    and "response_persist c draw now rid cid previous_id items metadata (Some db) = Inr db'"
    and "\<forall>x \<in> set items. storable c x"
    and "ids_round_trip c (previous_history c previous_id db @ map draw [0..<length items])"
  shows "response_rehydrate c rid (Some db') =
      (case previous_id of
         None \<Rightarrow> Inr items
       | Some p \<Rightarrow> and_then (response_rehydrate c p (Some db)) (\<lambda>h. Inr (h @ items)))
    \<and> (\<forall>other \<in> set (map rr_id (db_responses db)).
         response_rehydrate c other (Some db') = response_rehydrate c other (Some db))
    \<and> database_ok c db'"
proof -
  from assms(2) obtain texts ids_json metadata_json where
    prev: "previous_id = None \<or> (\<exists>p row. previous_id = Some p \<and> get_response_row p db = Some row)"
    and texts: "new_item_texts c draw items = Inr texts"
    and ids: "tc_ids_text c (previous_history c previous_id db @ map fst texts) = Inr ids_json"
    and meta: "metadata_text c metadata = Inr metadata_json"
    and items: "create_items now texts None db = Inr (db\<lparr>db_items := db_items db @ item_rows now None 0 texts\<rparr>)"
    and fresh: "rid \<notin> set (map rr_id (db_responses db))"
    and db': "db' = db\<lparr>db_items := db_items db @ item_rows now None 0 texts,
       db_responses := db_responses db @ [\<lparr>rr_id = rid, rr_conversation_id = cid, rr_previous_response_id = previous_id,
           rr_history_item_ids = Some ids_json, rr_metadata = Some metadata_json, rr_created_at = now\<rparr>]\<rparr>"
    by (rule response_persist_Inr)
  let ?rows = "item_rows now None 0 texts" and ?prev = "previous_history c previous_id db"
  let ?row = "\<lparr>rr_id = rid, rr_conversation_id = cid, rr_previous_response_id = previous_id,
           rr_history_item_ids = Some ids_json, rr_metadata = Some metadata_json, rr_created_at = now\<rparr>"
  note t = new_item_texts_Inr [OF texts]
  have rows: "distinct (map it_id (db_items db @ ?rows))"
    using create_items_distinct [OF items] assms(1) by (simp add: database_ok_def)
  have hist: "history_ids c ?row = ?prev @ map fst texts"
    using assms(4) ids t(2) by (simp add: history_ids_def response_data_of_row_def ids_round_trip_def)
  have prev_in: "set ?prev \<subseteq> set (map it_id (db_items db))"
    using assms(1) by (rule previous_history_stored)
  have ok': "database_ok c db'"
    unfolding db' by (rule database_ok_add [OF assms(1) rows]) (use fresh prev_in hist in \<open>auto simp: item_rows_ids\<close>)
  have other: "response_rehydrate c i (Some db') = response_rehydrate c i (Some db)"
    if "i \<in> set (map rr_id (db_responses db))" for i
    using that rehydrate_after [OF assms(1) rows] get_response_row_None [of i db]
    by (cases "get_response_row i db") (auto simp: db')
  have "get_response_row rid db' = Some ?row"
    using fresh get_response_row_None [of rid db] by (simp add: db' get_response_row_append)
  then have "response_rehydrate c rid (Some db') = Inr (take_items (?prev @ map fst texts) (stored_item c db'))"
    using rehydrate_row [of db' rid ?row c] rows by (simp add: hist) (simp add: db')
  also have "take_items (?prev @ map fst texts) (stored_item c db')
      = take_items ?prev (stored_item c db') @ take_items (map fst texts) (stored_item c db')"
    by (rule take_items_append) (use rows prev_in in \<open>auto simp: item_rows_ids\<close>)
  also have "take_items (map fst texts) (stored_item c db') = items"
    unfolding db' by (rule new_items_read [OF texts rows assms(3)])
  also have "take_items ?prev (stored_item c db') = take_items ?prev (stored_item c db)"
    by (rule take_items_cong) (use stored_item_new(1) [OF rows] prev_in in \<open>auto simp: db' stored_item_def\<close>)
  finally have new: "response_rehydrate c rid (Some db') = Inr (take_items ?prev (stored_item c db) @ items)" .
  have "response_rehydrate c rid (Some db') =
      (case previous_id of None \<Rightarrow> Inr items
       | Some p \<Rightarrow> and_then (response_rehydrate c p (Some db)) (\<lambda>h. Inr (h @ items)))"
  proof (cases previous_id)
    case None
    then show ?thesis using new by (simp add: previous_history_def)
  next
    case (Some p)
    with prev obtain r where r: "get_response_row p db = Some r" by auto
    have "distinct (map it_id (db_items db))" using assms(1) by (simp add: database_ok_def)
    from rehydrate_row [OF this r, of c] new Some r show ?thesis by (simp add: previous_history_def)
  qed
  with other ok' show ?thesis by blast
qed

text \<open>
  C38: a persisted response reads back as its parent's history followed by its own items. When
  the store accepts a response, rehydrating it returns what rehydrating its parent returned
  (nothing, without a parent) and then exactly the new items in order; every other response
  still rehydrates to what it did, and the database stays consistent.
\<close>

theorem persist_then_rehydrate:
  assumes "database_ok c db"
    and "response_persist c draw now rid cid previous_id items metadata (Some db) = Inr db'"
    and "\<forall>x \<in> set items. storable c x"
    and "ids_round_trip c (previous_history c previous_id db @ map draw [0..<length items])"
  shows "response_rehydrate c rid (Some db') =
      (case previous_id of
         None \<Rightarrow> Inr items
       | Some p \<Rightarrow> and_then (response_rehydrate c p (Some db)) (\<lambda>h. Inr (h @ items)))
    \<and> (\<forall>other \<in> set (map rr_id (db_responses db)).
         response_rehydrate c other (Some db') = response_rehydrate c other (Some db))
    \<and> database_ok c db'"
  using assms by (rule response_persist_rehydrates)

text \<open>A codec that stores input items whose kind it does not know, for the witnesses.\<close>

definition tiny_codec :: text_codec where
  "tiny_codec = \<lparr>tc_parse = (\<lambda>t. if t = ''t'' then Some (marked InputKind []) else None), tc_print = (\<lambda>_. ''t''),
     tc_input_json = (\<lambda>_. Inr (JObject [])), tc_input_of_json = (\<lambda>_. Some InUnknown),
     tc_output_json = (\<lambda>_. Inl ''unsupported''), tc_output_of_json = (\<lambda>_. None),
     tc_ids_text = (\<lambda>ids. Inr (concat ids)), tc_ids_of_text = (\<lambda>t. Some (map (\<lambda>ch. [ch]) t)),
     tc_metadata_text = (\<lambda>_. Inr ''m''), tc_metadata_of_text = (\<lambda>_. None)\<rparr>"

definition tiny_draw :: "nat \<Rightarrow> string" where
  "tiny_draw n = [char_of (97 + n)]"

definition tiny_database :: database where
  "tiny_database = empty_database\<lparr>
     db_items := [\<lparr>it_id = ''a'', it_data = ''t'', it_created_at = 1, it_conversation_id = None, it_seq = None\<rparr>],
     db_responses := [\<lparr>rr_id = ''r0'', rr_conversation_id = None, rr_previous_response_id = None,
       rr_history_item_ids = Some ''a'', rr_metadata = None, rr_created_at = 1\<rparr>]\<rparr>"

lemma not_isl_InrE:
  assumes "\<not> isl r"
  obtains x where "r = Inr x"
  using assms by (cases r) auto

lemma persist_then_rehydrate_witness:
  "\<exists>db'. response_persist tiny_codec (\<lambda>n. tiny_draw (Suc n)) 2 ''r1'' None (Some ''r0'') [StoredInput InUnknown] default_metadata
       (Some tiny_database) = Inr db'
     \<and> response_rehydrate tiny_codec ''r1'' (Some db') = Inr [StoredInput InUnknown, StoredInput InUnknown]"
proof -
  have "\<not> isl (response_persist tiny_codec (\<lambda>n. tiny_draw (Suc n)) 2 ''r1'' None (Some ''r0'') [StoredInput InUnknown] default_metadata
       (Some tiny_database))" by code_simp
  then obtain d where d: "response_persist tiny_codec (\<lambda>n. tiny_draw (Suc n)) 2 ''r1'' None (Some ''r0'') [StoredInput InUnknown] default_metadata
       (Some tiny_database) = Inr d" by (rule not_isl_InrE)
  have ok: "database_ok tiny_codec tiny_database" by code_simp
  have st: "\<forall>x \<in> set [StoredInput InUnknown]. storable tiny_codec x" by code_simp
  have rt: "ids_round_trip tiny_codec (previous_history tiny_codec (Some ''r0'') tiny_database @ map (\<lambda>n. tiny_draw (Suc n)) [0..<length [StoredInput InUnknown]])"
    by code_simp
  have parent: "response_rehydrate tiny_codec ''r0'' (Some tiny_database) = Inr [StoredInput InUnknown]" by code_simp
  from persist_then_rehydrate [OF ok d st rt] parent d show ?thesis by simp
qed

section \<open>Conversations\<close>

lemma last_sequence_Inr: "last_sequence cid acc rows = Inr n \<Longrightarrow> \<forall>r \<in> set rows. it_seq r \<noteq> None"
  by (induction rows arbitrary: acc) (auto split: option.splits)

lemma last_sequence_last:
  "\<forall>r \<in> set rows. it_seq r \<noteq> None \<Longrightarrow>
     last_sequence cid acc rows = Inr (if rows = [] then acc else it_seq (last rows))"
  by (induction rows arbitrary: acc) (auto split: option.splits)

lemma max_seq_mset:
  assumes "mset rows = mset rows'"
  shows "max_seq rows = max_seq rows'"
proof -
  have "set (List.map_filter it_seq rows) = set (List.map_filter it_seq rows')"
    using mset_eq_setD [OF assms] by (simp add: map_filter_def)
  then show ?thesis by (metis max_seq_Max set_empty)
qed

lemma max_seq_sorted:
  assumes "sorted (map it_seq rows)" "\<forall>r \<in> set rows. it_seq r \<noteq> None"
  shows "max_seq rows = (if rows = [] then None else it_seq (last rows))"
  using assms
proof (induction rows rule: rev_induct)
  case (snoc r rows)
  from snoc.prems(2) obtain n where n: "it_seq r = Some n" by auto
  have "m \<le> n" if "m \<in> set (List.map_filter it_seq rows)" for m
    using that snoc.prems(1) n by (fastforce simp: sorted_append map_filter_def)
  then have "Max (insert n (set (List.map_filter it_seq rows))) = n"
    by (intro Max_eqI) auto
  then show ?case by (simp add: max_seq_Max n)
qed (simp add: max_seq_def)

text \<open>The version a snapshot carries is the version the lock computes.\<close>

definition current_version :: "string \<Rightarrow> database \<Rightarrow> conversation_version" where
  "current_version cid db = version_from_snapshot (max_seq (conversation_items cid db)) (snapshot_latest cid db)"

lemma get_conversation_row_exists: "conversation_exists cid db \<longleftrightarrow> get_conversation_row cid db \<noteq> None"
  by (auto simp: conversation_exists_def get_conversation_row_def list_ex_iff find_None_iff)

lemma last_sequence_snapshot:
  assumes "conversation_exists cid db" "\<forall>r \<in> set (conversation_items cid db). it_seq r \<noteq> None"
  shows "last_sequence cid None (snapshot_items cid db) = Inr (max_seq (conversation_items cid db))"
proof -
  let ?rows = "sort_key it_seq (conversation_items cid db)"
  have "max_seq (conversation_items cid db) = max_seq ?rows" by (rule max_seq_mset) simp
  also have "\<dots> = (if ?rows = [] then None else it_seq (last ?rows))"
    by (rule max_seq_sorted) (use assms(2) in simp_all)
  finally show ?thesis using assms by (simp add: snapshot_items_def last_sequence_last)
qed

lemma rehydrate_snapshot_Inr:
  assumes "conversation_exists cid db" "rehydrate_snapshot c cid (Some db) = Inr snap"
  shows "cs_version snap = current_version cid db"
    "cs_items snap = List.map_filter (row_as_inout c) (snapshot_items cid db)"
    "\<forall>r \<in> set (conversation_items cid db). it_seq r \<noteq> None"
proof -
  from assms(2) obtain n where n: "last_sequence cid None (snapshot_items cid db) = Inr n"
    and snap: "snap = \<lparr>cs_items = List.map_filter (row_as_inout c) (snapshot_items cid db),
                       cs_version = version_from_snapshot n (snapshot_latest cid db)\<rparr>"
    by (auto simp: rehydrate_snapshot_def with_pool_def Let_def elim!: and_then_InrE)
  show all: "\<forall>r \<in> set (conversation_items cid db). it_seq r \<noteq> None"
    using last_sequence_Inr [OF n] assms(1) by (simp add: snapshot_items_def)
  show "cs_version snap = current_version cid db"
    using last_sequence_snapshot [OF assms(1) all] n by (simp add: snap current_version_def)
  show "cs_items snap = List.map_filter (row_as_inout c) (snapshot_items cid db)" by (simp add: snap)
qed

text \<open>What a conversation turn writes.\<close>

definition appended ::
  "i64 \<Rightarrow> string \<Rightarrow> (string \<times> string) list \<Rightarrow> response_row \<Rightarrow> database \<Rightarrow> database" where
  "appended now cid texts row db = db\<lparr>
     db_items := db_items db @ item_rows now (Some cid) (next_seq (Some cid) db) texts,
     db_responses := db_responses db @ [row],
     db_conversations := map (\<lambda>r. if cv_id r = cid then r\<lparr>cv_latest_response_id := Some (rr_id row)\<rparr> else r)
       (db_conversations db)\<rparr>"

lemma with_pool_Some: "with_pool (Some db) f = f db"
  by (simp add: with_pool_def)

lemma conversation_persist_Inr:
  assumes "conversation_persist c draw now cid expected rid previous_id items metadata (Some db) = Inr db'"
  obtains texts row where "new_item_texts c draw items = Inr texts" "conversation_exists cid db"
    "expected = None \<or> expected = Some (current_version cid db)"
    "create_items now texts (Some cid) db
       = Inr (db\<lparr>db_items := db_items db @ item_rows now (Some cid) (next_seq (Some cid) db) texts\<rparr>)"
    "rid \<notin> set (map rr_id (db_responses db))" "rr_id row = rid" "rr_conversation_id row = Some cid"
    "rr_previous_response_id row = previous_id"
    "\<exists>t. metadata_text c metadata = Inr t \<and> rr_metadata row = Some t"
    "\<exists>t. tc_ids_text c (map fst texts) = Inr t \<and> rr_history_item_ids row = Some t"
    "db' = appended now cid texts row db"
proof -
  from assms obtain texts ids_json metadata_json locked u d d' where
    texts: "new_item_texts c draw items = Inr texts"
    and ids: "tc_ids_text c (map fst texts) = Inr ids_json"
    and meta: "metadata_text c metadata = Inr metadata_json"
    and lock: "(case lock_conversation cid db of
                   Inl e \<Rightarrow> Inl (if e = row_not_found then StorageNotFound ''Conversation'' cid else e)
                 | Inr row \<Rightarrow> Inr row) = Inr locked"
    and version: "(case expected of
                   None \<Rightarrow> Inr ()
                 | Some version \<Rightarrow>
                     if version_from_snapshot (max_seq (conversation_items cid db)) (cv_latest_response_id locked)
                          \<noteq> version
                     then Inl (ConversationConflict cid) else Inr ()) = Inr u"
    and d: "create_items now texts (Some cid) db = Inr d"
    and resp: "create_response \<lparr>rr_id = rid, rr_conversation_id = Some cid, rr_previous_response_id = previous_id,
           rr_history_item_ids = Some ids_json, rr_metadata = Some metadata_json, rr_created_at = now\<rparr> d = Inr d'"
    and latest: "set_latest_response cid rid d' = Inr db'"
    unfolding conversation_persist_def with_pool_Some
    by (elim and_then_InrE) (unfold serialization_Inr, rule that)
  from lock have locked: "get_conversation_row cid db = Some locked"
    by (auto simp: lock_conversation_def ok_or_eq_Inr split: sum.splits)
  note rows = create_items_rows [OF d] and r = create_response_Inr [OF resp]
  show thesis
  proof (rule that [of texts "\<lparr>rr_id = rid, rr_conversation_id = Some cid, rr_previous_response_id = previous_id,
           rr_history_item_ids = Some ids_json, rr_metadata = Some metadata_json, rr_created_at = now\<rparr>"])
    show "conversation_exists cid db" using locked by (simp add: get_conversation_row_exists)
    show "expected = None \<or> expected = Some (current_version cid db)"
      using version locked by (auto simp: current_version_def snapshot_latest_def split: option.splits if_splits)
    show "rid \<notin> set (map rr_id (db_responses db))" using r rows by simp
    show "db' = appended now cid texts \<lparr>rr_id = rid, rr_conversation_id = Some cid, rr_previous_response_id = previous_id,
           rr_history_item_ids = Some ids_json, rr_metadata = Some metadata_json, rr_created_at = now\<rparr> db"
      using latest r rows by (auto simp: set_latest_response_def appended_def split: if_splits)
  qed (use texts ids meta d rows in simp_all)
qed

lemma conversation_exists_ids: "conversation_exists cid db \<longleftrightarrow> cid \<in> set (map cv_id (db_conversations db))"
  by (auto simp: conversation_exists_def list_ex_iff)

lemma appended_ids [simp]: "map cv_id (db_conversations (appended now cid texts row db)) = map cv_id (db_conversations db)"
  by (simp add: appended_def)

lemma conversation_exists_appended [simp]:
  "conversation_exists other (appended now cid texts row db) = conversation_exists other db"
  by (simp only: conversation_exists_ids appended_ids)

lemma find_map_update:
  "List.find (\<lambda>r. cv_id r = other) (map (\<lambda>r. if cv_id r = cid then r\<lparr>cv_latest_response_id := v\<rparr> else r) rows) =
     map_option (\<lambda>r. if cv_id r = cid then r\<lparr>cv_latest_response_id := v\<rparr> else r) (List.find (\<lambda>r. cv_id r = other) rows)"
  by (induction rows) simp_all

lemma snapshot_latest_appended:
  "snapshot_latest other (appended now cid texts row db) =
     (if other = cid \<and> conversation_exists cid db then Some (rr_id row) else snapshot_latest other db)"
proof -
  have id: "cv_id r = other" if "get_conversation_row other db = Some r" for r
    using that by (auto simp: get_conversation_row_def find_Some_iff)
  show ?thesis
    using id get_conversation_row_exists [of cid db]
    by (cases "get_conversation_row other db")
       (auto simp: snapshot_latest_def appended_def get_conversation_row_def find_map_update)
qed

lemma conversation_items_appended:
  "conversation_items other (appended now cid texts row db) =
     conversation_items other db @ (if other = cid then item_rows now (Some cid) (next_seq (Some cid) db) texts else [])"
  by (auto simp: conversation_items_def appended_def item_rows_def filter_empty_conv filter_id_conv)

definition serialization_error :: "storage_error \<Rightarrow> bool" where
  "serialization_error e = (case e of Serialization _ \<Rightarrow> True | _ \<Rightarrow> False)"

lemma serialization_Inl: "serialization r = Inl e \<Longrightarrow> serialization_error e"
  by (cases r) (auto simp: serialization_def serialization_error_def)

lemma item_text_Inl: "item_text c x = Inl e \<Longrightarrow> serialization_error e"
  by (cases x) (auto simp: and_then_eq_Inl dest: serialization_Inl)

lemma collect_results_Inl: "collect_results rs = Inl e \<Longrightarrow> Inl e \<in> set rs"
  by (induction rs) (auto split: sum.splits)

lemma new_item_texts_Inl: "new_item_texts c draw items = Inl e \<Longrightarrow> serialization_error e"
  unfolding new_item_texts_def
  by (drule collect_results_Inl) (auto simp: and_then_eq_Inl eq_commute [of "Inl e"] dest: item_text_Inl)

lemma metadata_text_Inl: "metadata_text c m = Inl e \<Longrightarrow> serialization_error e"
  by (auto simp: metadata_text_def dest: serialization_Inl)

lemma conversation_persist_conflict:
  assumes "expected \<noteq> current_version cid db" "conversation_exists cid db"
  shows "case conversation_persist c draw now cid (Some expected) rid previous_id items metadata (Some db) of
      Inr _ \<Rightarrow> False | Inl e \<Rightarrow> e = ConversationConflict cid \<or> serialization_error e"
proof (cases "conversation_persist c draw now cid (Some expected) rid previous_id items metadata (Some db)")
  case (Inr db')
  then show ?thesis using assms by (auto elim: conversation_persist_Inr)
next
  case (Inl e)
  from assms(2) obtain row where row: "get_conversation_row cid db = Some row"
    by (auto simp: get_conversation_row_exists)
  with assms(1) have conflict:
    "version_from_snapshot (max_seq (conversation_items cid db)) (cv_latest_response_id row) \<noteq> expected"
    by (auto simp: current_version_def snapshot_latest_def)
  have "e = ConversationConflict cid \<or> serialization_error e"
    using Inl conflict
    by (auto simp: conversation_persist_def with_pool_Some and_then_eq_Inl lock_conversation_def row
        dest: serialization_Inl new_item_texts_Inl metadata_text_Inl)
  with Inl show ?thesis by simp
qed

lemma sort_key_append:
  assumes "sorted (map f ys)" "\<forall>x \<in> set xs. \<forall>y \<in> set ys. f x \<le> f y"
  shows "sort_key f (xs @ ys) = sort_key f xs @ ys"
proof (rule properties_for_sort_key)
  fix k
  show "filter (\<lambda>x. f k = f x) (sort_key f xs @ ys) = filter (\<lambda>x. f k = f x) (xs @ ys)"
    using sort_key_stable [of f "f k" xs] by (simp add: eq_commute)
qed (use assms in \<open>simp_all add: sorted_append\<close>)

lemma item_rows_seq: "map it_seq (item_rows now (Some cid) s texts) = map (\<lambda>n. Some (s + int n)) [0..<length texts]"
proof (induction texts rule: rev_induct)
  case (snoc x xs)
  then show ?case by (cases x) (simp add: item_rows_append item_rows_single)
qed simp

lemma item_rows_sorted: "sorted (map it_seq (item_rows now (Some cid) s texts))"
  unfolding item_rows_seq by (simp add: sorted_iff_nth_mono)

lemma item_rows_all_seq: "r \<in> set (item_rows now (Some cid) s texts) \<Longrightarrow> \<exists>n. it_seq r = Some n \<and> s \<le> n"
  by (auto simp: item_rows_def)

lemma old_before_new:
  assumes "r \<in> set (conversation_items cid db)" "it_seq r = Some n"
  shows "n < next_seq (Some cid) db"
proof -
  have n: "n \<in> set (List.map_filter it_seq (conversation_items cid db))"
    using assms by (auto simp: map_filter_def intro: rev_image_eqI)
  then have "n \<le> Max (set (List.map_filter it_seq (conversation_items cid db)))" by simp
  with n show ?thesis by (auto simp: next_seq_def max_seq_Max)
qed

lemma snapshot_items_appended:
  "snapshot_items other (appended now cid texts row db) =
     snapshot_items other db @
     (if other = cid \<and> conversation_exists cid db then item_rows now (Some cid) (next_seq (Some cid) db) texts else [])"
proof (cases "other = cid \<and> conversation_exists cid db")
  case True
  have "it_seq r \<le> it_seq r'"
    if "r \<in> set (conversation_items cid db)" "r' \<in> set (item_rows now (Some cid) (next_seq (Some cid) db) texts)" for r r'
    using old_before_new [OF that(1)] item_rows_all_seq [OF that(2)] by (cases "it_seq r") force+
  with True show ?thesis
    by (simp add: snapshot_items_def conversation_items_appended sort_key_append item_rows_sorted)
qed (auto simp: snapshot_items_def conversation_items_appended)

lemma item_rows_read:
  assumes "new_item_texts c draw items = Inr texts" "\<forall>x \<in> set items. storable c x"
  shows "map (row_as_inout c) (item_rows now cid s texts) = map Some items"
proof (rule nth_equalityI)
  note t = new_item_texts_Inr [OF assms(1)]
  show len: "length (map (row_as_inout c) (item_rows now cid s texts)) = length (map Some items)"
    using t(1) arg_cong [OF item_rows_ids, of length now cid s texts] by simp
  fix n assume "n < length (map (row_as_inout c) (item_rows now cid s texts))"
  then have n: "n < length items" "n < length (item_rows now cid s texts)" using len by simp_all
  have "it_data (item_rows now cid s texts ! n) = snd (texts ! n)"
    using n t(1) arg_cong [OF item_rows_data, of "\<lambda>l. l ! n" now cid s texts] by simp
  moreover have "storable c (items ! n)" using assms(2) n by simp
  ultimately show "map (row_as_inout c) (item_rows now cid s texts) ! n = map Some items ! n"
    using storable_read [OF _ t(3) [OF n(1)]] n by simp
qed

lemma map_filter_Some: "map f xs = map Some ys \<Longrightarrow> List.map_filter f xs = ys"
  by (induction xs arbitrary: ys) (auto simp: map_filter_def)

lemma database_ok_appended:
  assumes ok: "database_ok c db"
    and items: "distinct (map it_id (db_items db @ item_rows now (Some cid) (next_seq (Some cid) db) texts))"
    and row: "rr_id row \<notin> set (map rr_id (db_responses db))" "set (history_ids c row) \<subseteq> set (map fst texts)"
  shows "database_ok c (appended now cid texts row db)"
proof -
  let ?db = "appended now cid texts row db"
  have "distinct (map it_id (db_items ?db))" using items by (simp add: appended_def)
  moreover have "distinct (map rr_id (db_responses ?db))" using ok row(1) by (simp add: appended_def database_ok_def)
  moreover have "distinct (map cv_id (db_conversations ?db))" using ok by (simp add: database_ok_def)
  moreover have "\<forall>r \<in> set (db_responses ?db). set (history_ids c r) \<subseteq> set (map it_id (db_items ?db))"
    using ok row(2) unfolding database_ok_def by (auto simp: appended_def item_rows_ids simp del: set_map)
  moreover have "\<forall>v \<in> set (db_conversations ?db).
           case cv_latest_response_id v of None \<Rightarrow> True | Some rid \<Rightarrow> rid \<in> set (map rr_id (db_responses ?db))"
    using ok unfolding database_ok_def by (auto simp: appended_def split: option.splits)
  ultimately show ?thesis unfolding database_ok_def by blast
qed

lemma latest_stored:
  assumes "database_ok c db" "snapshot_latest cid db = Some rid"
  shows "rid \<in> set (map rr_id (db_responses db))"
proof -
  from assms(2) obtain v where v: "get_conversation_row cid db = Some v" "cv_latest_response_id v = Some rid"
    by (auto simp: snapshot_latest_def bind_eq_Some_conv)
  then have "v \<in> set (db_conversations db)" by (auto simp: get_conversation_row_def find_Some_iff)
  with assms(1) v(2) show ?thesis unfolding database_ok_def by force
qed

lemma snapshot_after:
  assumes "conversation_exists cid db" "rehydrate_snapshot c cid (Some db) = Inr snap"
    "new_item_texts c draw items = Inr texts" "\<forall>x \<in> set items. storable c x"
  shows "rehydrate_snapshot c cid (Some (appended now cid texts row db)) =
    Inr \<lparr>cs_items = cs_items snap @ items,
         cs_version = LastResponse (rr_id row) (max_seq (conversation_items cid (appended now cid texts row db)))\<rparr>"
proof -
  let ?db = "appended now cid texts row db"
  note old = rehydrate_snapshot_Inr [OF assms(1,2)]
  have "\<forall>r \<in> set (conversation_items cid ?db). it_seq r \<noteq> None"
    using old(3) by (auto simp: conversation_items_appended dest!: item_rows_all_seq)
  then have "last_sequence cid None (snapshot_items cid ?db) = Inr (max_seq (conversation_items cid ?db))"
    using assms(1) by (intro last_sequence_snapshot) simp_all
  moreover have "List.map_filter (row_as_inout c) (snapshot_items cid ?db) = cs_items snap @ items"
    using item_rows_read [OF assms(3,4)]
    by (simp add: snapshot_items_appended assms(1) old(2) map_filter_append' map_filter_Some)
  moreover have "snapshot_latest cid ?db = Some (rr_id row)"
    using assms(1) by (simp add: snapshot_latest_appended)
  ultimately show ?thesis by (simp add: rehydrate_snapshot_def with_pool_Some)
qed

lemma rehydrate_snapshot_other:
  "other \<noteq> cid \<Longrightarrow>
     rehydrate_snapshot c other (Some (appended now cid texts row db)) = rehydrate_snapshot c other (Some db)"
  by (simp add: rehydrate_snapshot_def with_pool_Some snapshot_items_appended snapshot_latest_appended)

text \<open>
  C24: concurrent writers of a conversation lose no update. A turn that the store accepts was
  written on top of the version it expected; the next snapshot is the one it read followed by
  exactly its items, under a new version; the other conversations are untouched; and every
  other writer that still expects the version this turn replaced is refused with a conflict
  (or could not serialize its items), whatever it tries to write.
\<close>

theorem conversation_writers_never_overwrite:
  assumes "database_ok c db"
    and "rehydrate_snapshot c cid (Some db) = Inr snap"
    and "conversation_persist c draw now cid expected rid previous_id items metadata (Some db) = Inr db'"
    and "\<forall>x \<in> set items. storable c x"
    and "ids_round_trip c (map draw [0..<length items])"
  shows "(expected = None \<or> expected = Some (cs_version snap))
    \<and> (\<exists>n. rehydrate_snapshot c cid (Some db') = Inr \<lparr>cs_items = cs_items snap @ items, cs_version = LastResponse rid n\<rparr>)
    \<and> (\<forall>other. other \<noteq> cid \<longrightarrow> rehydrate_snapshot c other (Some db') = rehydrate_snapshot c other (Some db))
    \<and> database_ok c db'
    \<and> (\<forall>draw2 now2 rid2 previous2 items2 metadata2.
         case conversation_persist c draw2 now2 cid (Some (cs_version snap)) rid2 previous2 items2 metadata2 (Some db') of
           Inr _ \<Rightarrow> False | Inl e \<Rightarrow> e = ConversationConflict cid \<or> serialization_error e)"
proof -
  from assms(3) obtain texts row where texts: "new_item_texts c draw items = Inr texts"
    and exists: "conversation_exists cid db"
    and expected: "expected = None \<or> expected = Some (current_version cid db)"
    and created: "create_items now texts (Some cid) db
       = Inr (db\<lparr>db_items := db_items db @ item_rows now (Some cid) (next_seq (Some cid) db) texts\<rparr>)"
    and fresh: "rid \<notin> set (map rr_id (db_responses db))" and row: "rr_id row = rid"
    and ids: "\<exists>t. tc_ids_text c (map fst texts) = Inr t \<and> rr_history_item_ids row = Some t"
    and db': "db' = appended now cid texts row db"
    by (rule conversation_persist_Inr) (rule that)
  note snap = rehydrate_snapshot_Inr [OF exists assms(2)]
  have after: "rehydrate_snapshot c cid (Some db') = Inr \<lparr>cs_items = cs_items snap @ items,
      cs_version = LastResponse rid (max_seq (conversation_items cid db'))\<rparr>"
    using snapshot_after [OF exists assms(2) texts assms(4), of now row] by (simp add: db' row)
  have exists': "conversation_exists cid db'" using exists by (simp add: db')
  have "current_version cid db' = LastResponse rid (max_seq (conversation_items cid db'))"
    using rehydrate_snapshot_Inr(1) [OF exists' after] by simp
  moreover have "snapshot_latest cid db \<noteq> Some rid" using latest_stored [OF assms(1)] fresh by blast
  ultimately have stale: "cs_version snap \<noteq> current_version cid db'"
    unfolding snap(1) current_version_def [of cid db]
    by (cases "snapshot_latest cid db"; cases "max_seq (conversation_items cid db)") simp_all
  have "history_ids c row = map fst texts"
    using ids assms(5) new_item_texts_Inr(2) [OF texts]
    by (auto simp: history_ids_def response_data_of_row_def ids_round_trip_def)
  moreover have "distinct (map it_id (db_items db @ item_rows now (Some cid) (next_seq (Some cid) db) texts))"
    using create_items_distinct [OF created] assms(1) by (simp add: database_ok_def)
  ultimately have ok: "database_ok c db'"
    unfolding db' using assms(1) fresh row by (intro database_ok_appended) simp_all
  from expected snap(1) after rehydrate_snapshot_other ok conversation_persist_conflict [OF stale exists']
  show ?thesis by (simp add: db')
qed

text \<open>A conversation with one item, for the witnesses.\<close>

definition talk_database :: database where
  "talk_database = empty_database\<lparr>
     db_items := [\<lparr>it_id = ''a'', it_data = ''t'', it_created_at = 1, it_conversation_id = Some ''c'', it_seq = Some 0\<rparr>],
     db_conversations := [\<lparr>cv_id = ''c'', cv_metadata = None, cv_created_at = 1, cv_latest_response_id = None\<rparr>]\<rparr>"

lemma conversation_writers_never_overwrite_witness:
  "\<exists>db' n. conversation_persist tiny_codec (\<lambda>n. tiny_draw (Suc n)) 2 ''c'' (Some (LastSequence 0)) ''r1'' None
       [StoredInput InUnknown] default_metadata (Some talk_database) = Inr db'
     \<and> rehydrate_snapshot tiny_codec ''c'' (Some db') =
         Inr \<lparr>cs_items = [StoredInput InUnknown, StoredInput InUnknown], cs_version = LastResponse ''r1'' n\<rparr>"
proof -
  have "\<not> isl (conversation_persist tiny_codec (\<lambda>n. tiny_draw (Suc n)) 2 ''c'' (Some (LastSequence 0)) ''r1'' None
       [StoredInput InUnknown] default_metadata (Some talk_database))" by code_simp
  then obtain d where d: "conversation_persist tiny_codec (\<lambda>n. tiny_draw (Suc n)) 2 ''c'' (Some (LastSequence 0)) ''r1'' None
       [StoredInput InUnknown] default_metadata (Some talk_database) = Inr d" by (rule not_isl_InrE)
  have ok: "database_ok tiny_codec talk_database" by code_simp
  have snap: "rehydrate_snapshot tiny_codec ''c'' (Some talk_database)
      = Inr \<lparr>cs_items = [StoredInput InUnknown], cs_version = LastSequence 0\<rparr>" by code_simp
  have st: "\<forall>x \<in> set [StoredInput InUnknown]. storable tiny_codec x" by code_simp
  have rt: "ids_round_trip tiny_codec (map (\<lambda>n. tiny_draw (Suc n)) [0..<length [StoredInput InUnknown]])" by code_simp
  from conversation_writers_never_overwrite [OF ok snap d st rt] d show ?thesis by auto
qed

text \<open>
  No credentials reach the database. Either way of persisting a turn adds exactly one
  response row, whose metadata text is the serialization of the turn's metadata with every
  declared and every loaded tool stripped of its credentials, and nothing else changed.
\<close>

theorem stored_metadata_has_no_credentials:
  assumes "response_persist c draw now rid cid previous_id items metadata (Some db) = Inr db'
    \<or> conversation_persist c draw now talk expected rid previous_id items metadata (Some db) = Inr db'"
  shows "\<exists>row t m. db_responses db' = db_responses db @ [row] \<and> rr_id row = rid \<and> rr_previous_response_id row = previous_id
    \<and> rr_metadata row = Some t \<and> tc_metadata_text c m = Inr t
    \<and> m\<lparr>rm_effective_tools := rm_effective_tools metadata, rm_tool_search_loaded_tools := rm_tool_search_loaded_tools metadata\<rparr> = metadata
    \<and> list_all (\<lambda>tool. \<not> carries_credentials tool) (unwrap_or (rm_effective_tools m) [] @ unwrap_or (rm_tool_search_loaded_tools m) [])"
proof -
  let ?m = "metadata\<lparr>rm_effective_tools := map_option (map sanitize_for_persistence) (rm_effective_tools metadata),
          rm_tool_search_loaded_tools := map_option (map sanitize_for_persistence) (rm_tool_search_loaded_tools metadata)\<rparr>"
  from assms obtain row t where row: "db_responses db' = db_responses db @ [row]" "rr_id row = rid"
      "rr_previous_response_id row = previous_id" "rr_metadata row = Some t" "metadata_text c metadata = Inr t"
  proof
    assume "response_persist c draw now rid cid previous_id items metadata (Some db) = Inr db'"
    then show thesis by (rule response_persist_Inr) (auto intro: that)
  next
    assume "conversation_persist c draw now talk expected rid previous_id items metadata (Some db) = Inr db'"
    then show thesis by (rule conversation_persist_Inr) (auto simp: appended_def intro: that)
  qed
  have "tc_metadata_text c ?m = Inr t" using row(5) by (simp add: metadata_text_def serialization_Inr)
  moreover have "list_all (\<lambda>tool. \<not> carries_credentials tool) (unwrap_or (map_option (map sanitize_for_persistence) ts) [])" for ts
    by (cases ts) (simp_all add: list_all_iff sanitize_no_credentials)
  ultimately show ?thesis using row(1-4) by (intro exI [of _ row] exI [of _ t] exI [of _ ?m]) simp
qed

lemma stored_metadata_has_no_credentials_witness:
  "\<exists>db' row t. conversation_persist tiny_codec (\<lambda>n. tiny_draw (Suc n)) 2 ''c'' None ''r1'' None
       [StoredInput InUnknown] default_metadata (Some talk_database) = Inr db'
     \<and> db_responses db' = [row] \<and> rr_metadata row = Some t"
proof -
  have "\<not> isl (conversation_persist tiny_codec (\<lambda>n. tiny_draw (Suc n)) 2 ''c'' None ''r1'' None
       [StoredInput InUnknown] default_metadata (Some talk_database))" by code_simp
  then obtain d where d: "conversation_persist tiny_codec (\<lambda>n. tiny_draw (Suc n)) 2 ''c'' None ''r1'' None
       [StoredInput InUnknown] default_metadata (Some talk_database) = Inr d" by (rule not_isl_InrE)
  from stored_metadata_has_no_credentials [OF disjI2 [OF d]] d show ?thesis
    by (auto simp: talk_database_def empty_database_def)
qed

end
