(* ===== verification/Turn_Properties.thy ===== *)
theory Turn_Properties
  imports Turn Session_Properties Storage_Properties
begin

text \<open>
  What a turn promises across the components it composes: however it ends, it gives its session
  back and keeps the session store consistent; a persisted turn is the history of the next
  one, and restoring it from the session or from the database gives the model the same input;
  a conversation turn is refused exactly when another turn got in between; and a committed turn
  reuses no call id.
\<close>

section \<open>The end of a turn\<close>

definition turn_over :: "lease_id \<Rightarrow> session_id \<Rightarrow> store \<Rightarrow> bool" where
  "turn_over l i s \<longleftrightarrow> lease_at s l = None \<and> \<not> se_active (st_sessions s ! i)"

definition reachable :: "turn_env \<Rightarrow> store \<Rightarrow> bool" where
  "reachable env s = session_reachable (te_printers env) (te_writes env) s"

lemma reachable_ok: "reachable env s \<Longrightarrow> store_ok s"
  unfolding reachable_def by (rule store_ok_reachable)

lemma reachable_step: "reachable env s \<Longrightarrow> session_step (te_printers env) (te_writes env) s s' \<Longrightarrow> reachable env s'"
  unfolding reachable_def by (rule reach_step)

lemma lease_at_Some: "lease_at s l = Some c \<longleftrightarrow> l < length (st_leases s) \<and> st_leases s ! l = Some c"
  by (auto simp: lease_at_def)

lemma leases_drop_lease [simp]: "st_leases (drop_lease l c s) = (st_leases s)[l := None]"
  by (simp add: drop_lease_def Let_def)

lemma leases_publish [simp]: "st_leases (snd (publish l c h s)) = (st_leases s)[l := None]"
  by (simp add: publish_def Let_def drop_prepared_def)

lemma lease_session:
  assumes "reachable env s" "lease_at s l = Some c"
  shows "co_session c < length (st_sessions s)"
  using live_lease(1) [OF reachable_ok [OF assms(1)]] assms(2) by (auto simp: lease_at_Some)

lemma drop_lease_ends:
  assumes "reachable env s" "lease_at s l = Some c"
  shows "reachable env (drop_lease l c s) \<and> turn_over l (co_session c) (drop_lease l c s)"
proof -
  have "reachable env (drop_lease l c s)"
    using assms by (intro reachable_step [OF assms(1) step_drop_lease]) (simp_all add: lease_at_Some)
  with lease_session [OF assms] show ?thesis
    by (simp add: turn_over_def lease_at_def drop_lease_sessions)
qed

lemma publish_ends:
  assumes "reachable env s" "lease_at s l = Some c" "h \<in> set (st_prepared s)"
  shows "reachable env (snd (publish l c h s)) \<and> turn_over l (co_session c) (snd (publish l c h s))"
proof -
  have r: "reachable env (snd (publish l c h s))"
    using assms by (intro reachable_step [OF assms(1) step_publish]) (simp_all add: lease_at_Some)
  note session = lease_session [OF assms(1,2)]
  have "\<not> se_active (st_sessions (snd (publish l c h s)) ! co_session c)"
  proof (cases "se_closed (st_sessions s ! co_session c)")
    case True
    then have "snd (publish l c h s) = drop_lease l c (drop_prepared h s)" by (simp add: publish_def Let_def)
    with session show ?thesis by (simp add: drop_lease_sessions drop_prepared_def)
  next
    case False
    with session show ?thesis by (simp add: publish_open)
  qed
  with r show ?thesis by (simp add: turn_over_def lease_at_def)
qed

text \<open>What preparing a checkpoint keeps.\<close>

lemma checkpoint_steps:
  assumes "reachable env s" "lease_at s l = Some c"
    and "checkpoint (te_printers env) (te_writes env) c rid cid meta items durable s = Inr (h, s')"
  shows "reachable env s'" "lease_at s' l = Some c" "h \<in> set (st_prepared s')"
proof -
  show "reachable env s'"
    by (rule reachable_step [OF assms(1) step_checkpoint [where l = l, OF _ _ assms(3)]])
       (use assms(2) in \<open>simp_all add: lease_at_Some\<close>)
  from assms(3) obtain ck n where "retain (co_session c) ck n s = Inr (h, s')" by (rule checkpoint_Inr)
  note frame = retain_frame [OF this]
  from frame(3) have "lease_at s' l = lease_at s l" by (simp add: lease_at_def)
  with assms(2) show "lease_at s' l = Some c" by simp
  show "h \<in> set (st_prepared s')" by (simp add: frame(6))
qed

lemma drop_prepared_steps:
  assumes "reachable env s" "lease_at s l = Some c" "h \<in> set (st_prepared s)"
  shows "reachable env (drop_prepared h s)" "lease_at (drop_prepared h s) l = Some c"
proof -
  show "reachable env (drop_prepared h s)" by (rule reachable_step [OF assms(1) step_drop_prepared [OF assms(3)]])
  have "lease_at (drop_prepared h s) l = lease_at s l" by (simp add: lease_at_def drop_prepared_def)
  with assms(2) show "lease_at (drop_prepared h s) l = Some c" by simp
qed

definition ends_turn :: "turn_env \<Rightarrow> lease_id \<Rightarrow> session_id \<Rightarrow> world \<Rightarrow> bool" where
  "ends_turn env l i w \<longleftrightarrow> reachable env (wd_sessions w) \<and> turn_over l i (wd_sessions w)"

lemma end_lease_ends:
  assumes "reachable env (wd_sessions w)" "lease_at (wd_sessions w) l = Some c"
  shows "ends_turn env l (co_session c) (end_lease (Some l) w)"
  using drop_lease_ends [OF assms] assms(2) by (simp add: end_lease_def ends_turn_def)

lemma end_lease_db [simp]: "wd_db (end_lease l w) = wd_db w"
  by (simp add: end_lease_def split: option.split)

lemma response_execute_turn_ends:
  assumes "reachable env (wd_sessions w)" "lease_at (wd_sessions w) l = Some c" "rc_continuation ctx = Some l"
  shows "ends_turn env l (co_session c) (snd (response_execute_turn env draw now ctx output metadata w))"
proof -
  let ?s = "wd_sessions w"
  note drop = drop_lease_ends [OF assms(1,2)]
  consider (refused) e where "checkpoint (te_printers env) (te_writes env) c (rc_response_id ctx) (rc_conversation_id ctx)
          metadata (turn_items ctx (Some c) output) (rq_store (rc_original_request ctx)) ?s = Inl e"
    | (prepared) h s' where "checkpoint (te_printers env) (te_writes env) c (rc_response_id ctx) (rc_conversation_id ctx)
          metadata (turn_items ctx (Some c) output) (rq_store (rc_original_request ctx)) ?s = Inr (h, s')"
    by (metis sumE surj_pair)
  then show ?thesis
  proof cases
    case refused
    with assms(2,3) drop show ?thesis
      by (simp add: response_execute_turn_def Let_def ends_turn_def)
  next
    case (prepared h s')
    note steps = checkpoint_steps [OF assms(1,2) prepared]
    note dropped = drop_lease_ends [OF drop_prepared_steps [OF steps]]
    note published = publish_ends [OF steps]
    show ?thesis
      using assms(2,3) prepared dropped published
      by (auto simp: response_execute_turn_def Let_def ends_turn_def split: sum.split prod.split option.split)
  qed
qed

lemma conversation_execute_turn_ends:
  assumes "reachable env (wd_sessions w)" "lease_at (wd_sessions w) l = Some c" "rc_continuation ctx = Some l"
  shows "ends_turn env l (co_session c) (snd (conversation_execute_turn env draw now ctx output metadata w))"
proof -
  have "ends_turn env l (co_session c) (end_lease (Some l) w)" by (rule end_lease_ends [OF assms(1,2)])
  moreover have "ends_turn env l (co_session c) (end_lease (Some l) (w\<lparr>wd_db := pool\<rparr>))" for pool
    by (rule end_lease_ends) (use assms in simp_all)
  ultimately show ?thesis
    using assms(3) by (simp add: conversation_execute_turn_def Let_def split: sum.split)
qed

lemma persist_if_needed_world:
  "snd (persist_if_needed env draw now payload ctx search w) =
     (if should_persist ctx then snd (persist_prepared_response env draw now payload ctx search w)
      else end_lease (rc_continuation ctx) w)"
  by (simp add: persist_if_needed_def split: prod.split sum.split)

lemma persist_if_needed_ends:
  assumes "reachable env (wd_sessions w)" "lease_at (wd_sessions w) l = Some c" "rc_continuation ctx = Some l"
  shows "ends_turn env l (co_session c) (snd (persist_if_needed env draw now payload ctx search w))"
proof -
  have "ends_turn env l (co_session c) (snd (persist_prepared_turn env draw now ctx search out w))" for out
    using conversation_execute_turn_ends [OF assms] response_execute_turn_ends [OF assms]
    by (simp add: persist_prepared_turn_def)
  then have "ends_turn env l (co_session c) (snd (persist_prepared_response env draw now payload ctx search w))"
    using end_lease_ends [OF assms(1,2)] assms(3) by (simp add: persist_prepared_response_def)
  then show ?thesis
    using end_lease_ends [OF assms(1,2)] assms(3) by (simp add: persist_if_needed_world)
qed

lemma commit_turn_world:
  "snd (commit_turn env draw now ctx payload w) \<in>
     {end_lease (rc_continuation ctx) w, snd (persist_if_needed env draw now payload ctx None w)}"
  by (simp add: commit_turn_def Let_def split: prod.split sum.split)


lemma commit_turn_ends:
  assumes "reachable env (wd_sessions w)" "lease_at (wd_sessions w) l = Some c" "rc_continuation ctx = Some l"
  shows "ends_turn env l (co_session c) (snd (commit_turn env draw now ctx payload w))"
  using commit_turn_world [of env draw now ctx payload w] persist_if_needed_ends [OF assms, of draw now payload None]
    end_lease_ends [OF assms(1,2)] assms(3)
  by auto

text \<open>What rehydration does to the lease it runs under.\<close>

definition holds_lease :: "turn_env \<Rightarrow> lease_id \<Rightarrow> session_id \<Rightarrow> world \<Rightarrow> bool" where
  "holds_lease env l i w \<longleftrightarrow>
     reachable env (wd_sessions w) \<and> (\<exists>c. lease_at (wd_sessions w) l = Some c \<and> co_session c = i)"

lemma holds_lease_ends: "holds_lease env l i w \<Longrightarrow> ends_turn env l i (end_lease (Some l) w)"
  by (auto simp: holds_lease_def dest: end_lease_ends)

lemma holds_lease_db [simp]: "holds_lease env l i (w\<lparr>wd_db := pool\<rparr>) = holds_lease env l i w"
  by (simp add: holds_lease_def)

lemma retain_parent_steps:
  assumes "reachable env s" "lease_at s l = Some c" "retain_parent (te_writes env) c ck s = Inr (h, s')"
  shows "reachable env s'" "lease_at s' l = Some c" "h \<in> set (st_prepared s')"
proof -
  show "reachable env s'"
    by (rule reachable_step [OF assms(1) step_retain_parent [where l = l, OF _ _ assms(3)]])
       (use assms(2) in \<open>simp_all add: lease_at_Some\<close>)
  from assms(3) obtain n where "retain (co_session c) ck n s = Inr (h, s')" by (rule retain_parent_Inr)
  note frame = retain_frame [OF this]
  from frame(3) have "lease_at s' l = lease_at s l" by (simp add: lease_at_def)
  with assms(2) show "lease_at s' l = Some c" by simp
  show "h \<in> set (st_prepared s')" by (simp add: frame(6))
qed

lemma release_opt_leases [simp]: "st_leases (release_opt h s) = st_leases s"
  by simp

lemma pin_parent_steps:
  assumes "reachable env s" "lease_at s l = Some c" "h \<in> set (st_prepared s)"
  shows "reachable env (pin_parent l c h s)" "lease_at (pin_parent l c h s) l = Some (c\<lparr>co_parent := Some h\<rparr>)"
proof -
  show "reachable env (pin_parent l c h s)"
    by (rule reachable_step [OF assms(1) step_pin_parent]) (use assms(2,3) in \<open>simp_all add: lease_at_Some\<close>)
  show "lease_at (pin_parent l c h s) l = Some (c\<lparr>co_parent := Some h\<rparr>)"
    using assms(2) by (simp add: lease_at_Some) (simp add: pin_parent_def set_lease_def lease_at_def)
qed

lemma from_session_response_keeps:
  assumes "holds_lease env l i w"
  shows "holds_lease env l i (snd (from_session_response env ctx l w))"
proof -
  let ?s = "wd_sessions w"
  from assms obtain c where c: "reachable env ?s" "lease_at ?s l = Some c" "co_session c = i"
    by (auto simp: holds_lease_def)
  have "holds_lease env l i (w\<lparr>wd_sessions := drop_prepared h s\<rparr>)"
    "holds_lease env l i (w\<lparr>wd_sessions := pin_parent l c h s\<rparr>)"
    if "retain_parent (te_writes env) c parent ?s = Inr (h, s)" for parent h s
  proof -
    note steps = retain_parent_steps [OF c(1,2) that]
    show "holds_lease env l i (w\<lparr>wd_sessions := drop_prepared h s\<rparr>)"
      "holds_lease env l i (w\<lparr>wd_sessions := pin_parent l c h s\<rparr>)"
      using drop_prepared_steps [OF steps] pin_parent_steps [OF steps] c(3) by (simp_all add: holds_lease_def)
  qed
  then show ?thesis
    using assms c(2) by (auto simp: from_session_response_def split: sum.split option.split)
qed

lemma continue_session_continuation:
  "continue_session env ctx parent = Inr ctx' \<Longrightarrow> rc_continuation ctx' = rc_continuation ctx"
  by (auto simp: continue_session_def Let_def apply_effective_settings_def set_input_def clear_previous_def
      elim!: and_then_InrE)

lemma from_session_response_continuation:
  "from_session_response env ctx l w = (Inr ctx', w') \<Longrightarrow> rc_continuation ctx' = rc_continuation ctx"
  by (auto simp: from_session_response_def split: option.splits sum.splits dest: continue_session_continuation)

lemma from_conversation_keeps:
  assumes "holds_lease env l i w"
  shows "holds_lease env l i (snd (from_conversation env now ctx w))"
  using assms by (simp add: from_conversation_def Let_def split: prod.split)

lemma from_conversation_continuation:
  "from_conversation env now ctx w = (Inr ctx', w') \<Longrightarrow> rc_continuation ctx' = rc_continuation ctx"
  by (auto simp: from_conversation_def Let_def set_input_def split: if_splits sum.splits prod.splits elim!: and_then_InrE)

lemma resolve_history_keeps:
  assumes "holds_lease env l i w" "rc_continuation ctx = Some l"
  shows "holds_lease env l i (snd (resolve_history env now ctx w))"
  using from_conversation_keeps [OF assms(1)] from_session_response_keeps [OF assms(1)] assms
  by (simp add: resolve_history_def Let_def from_response_def)

lemma resolve_history_continuation:
  assumes "resolve_history env now ctx w = (Inr ctx', w')" "rc_continuation ctx = Some l"
  shows "rc_continuation ctx' = Some l"
  using assms from_session_response_continuation from_conversation_continuation
  by (fastforce simp: resolve_history_def Let_def from_response_def set_input_def split: if_splits)

lemma rehydrate_lease:
  assumes "holds_lease env l i w"
  shows "case rehydrate_with_continuation env now rid request (Some l) w of
      (Inl e, w') \<Rightarrow> ends_turn env l i w'
    | (Inr ctx, w') \<Rightarrow> holds_lease env l i w' \<and> rc_continuation ctx = Some l"
proof -
  let ?ctx = "initial_context (te_printers env) rid request (Some l)"
  obtain r w' where r: "resolve_history env now ?ctx w = (r, w')" by force
  have l: "rc_continuation ?ctx = Some l" by (simp add: initial_context_def)
  have "holds_lease env l i w'" using resolve_history_keeps [OF assms l, of now] r by simp
  moreover have "rc_continuation ctx = Some l" if "r = Inr ctx" for ctx
    using resolve_history_continuation [OF _ l] r that by simp
  ultimately show ?thesis
    using r holds_lease_ends [OF assms] holds_lease_ends [of env l i w']
    by (simp add: rehydrate_with_continuation_def split: sum.split)
qed

lemma begin_turn_holds:
  assumes "reachable env (wd_sessions w)" "i < length (st_sessions (wd_sessions w))"
    "begin_turn i pid (wd_sessions w) = Inr (l, s)"
  shows "holds_lease env l i (w\<lparr>wd_sessions := s\<rparr>)" "\<not> se_active (st_sessions (wd_sessions w) ! i)"
proof -
  have "reachable env s" by (rule reachable_step [OF assms(1) step_begin [OF assms(2,3)]])
  moreover from assms(3) obtain parent where idle: "\<not> se_active (st_sessions (wd_sessions w) ! i)"
    and l: "l = length (st_leases (wd_sessions w))"
    and s: "st_leases s = st_leases (wd_sessions w) @ [Some \<lparr>co_session = i, co_parent = parent,
        co_history_replaced = False, co_recorded_output_count = 0\<rparr>]"
    by (elim begin_turn_Inr) simp
  ultimately show "holds_lease env l i (w\<lparr>wd_sessions := s\<rparr>)"
    by (simp add: holds_lease_def lease_at_def)
  show "\<not> se_active (st_sessions (wd_sessions w) ! i)" by (rule idle)
qed

text \<open>
  C16: no turn keeps its session. Starting a turn in a session either fails and leaves the
  session exactly as busy as it was, or yields a context that holds a live lease of that
  session; and whatever the response, the tools and the state of the stores when that context is
  persisted or committed, and whether this succeeds or fails, the lease is gone afterwards, the
  session can start its next turn, and the session store is still a reachable one, with exact
  byte accounts.
\<close>

theorem every_turn_gives_its_session_back:
  assumes "reachable env (wd_sessions w)" "i < length (st_sessions (wd_sessions w))"
  shows "case rehydrate_in_session env now rid request i w of
      (Inl e, w') \<Rightarrow> reachable env (wd_sessions w')
        \<and> se_active (st_sessions (wd_sessions w') ! i) = se_active (st_sessions (wd_sessions w) ! i)
    | (Inr ctx, w') \<Rightarrow> \<exists>l. rc_continuation ctx = Some l \<and> holds_lease env l i w'
        \<and> (\<forall>later draw now' payload search. holds_lease env l i later \<longrightarrow>
             ends_turn env l i (snd (persist_if_needed env draw now' payload ctx search later))
             \<and> ends_turn env l i (snd (commit_turn env draw now' ctx payload later)))"
proof (cases "begin_turn i (rq_previous_response_id request) (wd_sessions w)")
  case (Inl e)
  with assms show ?thesis by (simp add: rehydrate_in_session_def)
next
  case (Inr r)
  obtain l s where r: "r = (l, s)" by force
  note begun = begin_turn_holds [OF assms Inr [unfolded r]]
  have ends: "ends_turn env l i (snd (persist_if_needed env draw now' payload ctx search later))
      \<and> ends_turn env l i (snd (commit_turn env draw now' ctx payload later))"
    if "rc_continuation ctx = Some l" "holds_lease env l i later" for ctx later draw now' payload search
    using that persist_if_needed_ends [where l = l and w = later] commit_turn_ends [where l = l and w = later]
    by (auto simp: holds_lease_def)
  show ?thesis
    using rehydrate_lease [OF begun(1), of now rid request] begun(2) ends
    by (auto simp: rehydrate_in_session_def Inr r ends_turn_def turn_over_def split: prod.splits sum.splits)
qed

text \<open>A turn of the example session, with nothing stored.\<close>

definition demo_request :: request_payload where
  "demo_request = \<lparr>rq_model = ''m'', rq_input = ItemsInput [], rq_instructions = None, rq_previous_response_id = None,
     rq_conversation_id = None, rq_tools = None, rq_tool_choice = None, rq_stream = False, rq_store = False,
     rq_include = None, rq_reasoning = None, rq_text = None, rq_temperature = None, rq_top_p = None,
     rq_max_output_tokens = None, rq_ignore_eos = None, rq_truncation = None, rq_metadata = None,
     rq_parallel_tool_calls = None, rq_cache_salt = None, rq_context_management = None\<rparr>"

definition demo_env :: turn_env where
  "demo_env = \<lparr>te_codec = tiny_codec, te_printers = demo_printers, te_writes = demo_writes\<rparr>"

definition demo_context :: request_context where
  "demo_context = (initial_context demo_printers ''resp_1'' demo_request (Some 0))"

lemma demo_idle: "reachable demo_env (demo_store False False False)"
proof -
  have "reachable demo_env (new_group 2 10 1000 5000 empty_store)"
    unfolding reachable_def by (rule reach_step [OF reach_empty step_new_group]) (simp add: usize_max_def)
  then show ?thesis
    by (rule reachable_step) (rule step_new_session [OF _ demo_new], simp add: new_group_def)
qed

lemma every_turn_gives_its_session_back_witness:
  "\<forall>draw now payload. \<not> se_active (st_sessions (wd_sessions (snd (commit_turn demo_env draw now demo_context payload
      \<lparr>wd_db = None, wd_sessions = demo_store True False False\<rparr>))) ! 0)"
proof -
  let ?w = "\<lparr>wd_db = None, wd_sessions = demo_store False False False\<rparr>"
  let ?w' = "\<lparr>wd_db = None, wd_sessions = demo_store True False False\<rparr>"
  have run: "rehydrate_in_session demo_env 0 ''resp_1'' demo_request 0 ?w = (Inr demo_context, ?w')"
    by (simp add: rehydrate_in_session_def demo_request_def demo_begin rehydrate_with_continuation_def
        validate_message_files_def resolve_history_def initial_context_def set_input_def demo_context_def
        input_items_def items_of_input_def Let_def demo_env_def)
  have "rc_continuation demo_context = Some 0" by (simp add: demo_context_def initial_context_def)
  moreover have "0 < length (st_sessions (wd_sessions ?w))" by (simp add: demo_store_def)
  ultimately show ?thesis
    using every_turn_gives_its_session_back [of demo_env ?w 0 0 "''resp_1''" demo_request] demo_idle run
    by (auto simp: ends_turn_def turn_over_def)
qed

section \<open>The session and the database agree\<close>

text \<open>The request an inference sees, as far as rehydration determines it.\<close>

definition resolved_as :: "request_context \<Rightarrow> input_item list \<Rightarrow> response_metadata \<Rightarrow> string option \<Rightarrow> bool" where
  "resolved_as ctx items metadata cid \<longleftrightarrow>
     model_input (rq_input (rc_enriched_request ctx)) = model_input (ItemsInput items)
     \<and> rq_tools (rc_enriched_request ctx) =
         (if rq_tools (rc_original_request ctx) \<noteq> None then rq_tools (rc_original_request ctx) else rm_effective_tools metadata)
     \<and> rq_tool_choice (rc_enriched_request ctx) =
         Some (unwrap_or (rq_tool_choice (rc_original_request ctx)) (rm_effective_tool_choice metadata))
     \<and> rq_previous_response_id (rc_enriched_request ctx) = None
     \<and> rc_conversation_id ctx = cid"

lemma settings_resolved:
  assumes "model_input (ItemsInput items') = model_input (ItemsInput items)"
  shows "resolved_as ((apply_effective_settings metadata (set_input items' (clear_previous ctx)))\<lparr>rc_conversation_id := cid\<rparr>)
    items metadata cid"
  using assms
  by (auto simp: resolved_as_def apply_effective_settings_def Let_def set_input_def clear_previous_def
      resolve_tools_def resolve_tool_choice_def)

lemma from_stored_response_resolved:
  assumes "from_stored_response env ctx pool = Inr ctx'"
  shows "\<exists>stored history. response_handler_get env (rc_original_request ctx) pool = Inr stored
    \<and> response_handler_rehydrate env (rc_original_request ctx) pool = Inr history
    \<and> resolved_as ctx' (into_input_items (te_printers env) history
        @ items_of_input (te_printers env) (rq_input (rc_original_request ctx))) (rd_metadata stored) (rd_conversation_id stored)"
  using assms by (auto simp: from_stored_response_def Let_def settings_resolved elim!: and_then_InrE)

lemma continue_session_resolved:
  assumes "continue_session env ctx parent = Inr ctx'" "ck_history parent = canonical_session_history h"
  shows "resolved_as ctx' (h @ items_of_input (te_printers env) (rq_input (rc_original_request ctx)))
    (ck_metadata parent) (ck_conversation_id parent)"
  using assms
  by (auto simp: continue_session_def Let_def canonical_append model_input_canonical
      intro!: settings_resolved elim!: and_then_InrE)

lemma map_missing_Inr [simp]: "map_missing i r = Inr x \<longleftrightarrow> r = Inr x"
  by (auto simp: map_missing_def split: sum.split executor_error.split)

lemma stored_parent_Inr:
  assumes "stored_parent env original pool = Inr parent"
  shows "\<exists>stored history. response_handler_get env original pool = Inr stored
    \<and> response_handler_rehydrate env original pool = Inr history
    \<and> ck_history parent = canonical_session_history (into_input_items (te_printers env) history)
    \<and> ck_metadata parent = rd_metadata stored \<and> ck_conversation_id parent = rd_conversation_id stored
    \<and> rq_store original"
  using assms by (auto simp: stored_parent_def Let_def split: if_splits elim!: and_then_InrE)

lemma from_session_response_stored:
  assumes "from_session_response env ctx l w = (Inr ctx', w')" "lease_at (wd_sessions w) l = Some c"
    "lease_checkpoint (wd_sessions w) c = None"
  obtains parent where "stored_parent env (rc_original_request ctx) (wd_db w) = Inr parent"
    "continue_session env ctx parent = Inr ctx'"
  using assms by (auto simp: from_session_response_def split: sum.splits)

section \<open>A stored turn is the history of the next\<close>

definition stored_metadata :: "response_metadata \<Rightarrow> response_metadata" where
  "stored_metadata m =
     m\<lparr>rm_effective_tools := map_option (map sanitize_for_persistence) (rm_effective_tools m),
       rm_tool_search_loaded_tools := map_option (map sanitize_for_persistence) (rm_tool_search_loaded_tools m)\<rparr>"

definition metadata_round_trip :: "text_codec \<Rightarrow> response_metadata \<Rightarrow> bool" where
  "metadata_round_trip c m \<longleftrightarrow>
     (case tc_metadata_text c (stored_metadata m) of
        Inr t \<Rightarrow> tc_metadata_of_text c t = Some (stored_metadata m) | Inl _ \<Rightarrow> True)"

lemma write_response_Inr:
  assumes "write_response env draw now ctx previous_id items metadata (Some db) = Inr pool"
  obtains db' where "pool = Some db'"
    "response_persist (te_codec env) draw now (rc_response_id ctx) (rc_conversation_id ctx) previous_id items metadata (Some db)
       = Inr db'"
  using assms by (auto simp: write_response_def split: sum.splits)

lemma response_persist_get:
  assumes "response_persist c draw now rid cid previous_id items metadata (Some db) = Inr db'" "metadata_round_trip c metadata"
  shows "\<exists>stored. response_get c rid (Some db') = Inr stored \<and> rd_conversation_id stored = cid
    \<and> rd_metadata stored = stored_metadata metadata"
proof -
  from assms(1) obtain texts ids_json metadata_json where
    meta: "metadata_text c metadata = Inr metadata_json" and fresh: "rid \<notin> set (map rr_id (db_responses db))"
    and db': "db' = db\<lparr>db_items := db_items db @ item_rows now None 0 texts,
       db_responses := db_responses db @ [\<lparr>rr_id = rid, rr_conversation_id = cid, rr_previous_response_id = previous_id,
           rr_history_item_ids = Some ids_json, rr_metadata = Some metadata_json, rr_created_at = now\<rparr>]\<rparr>"
    by (elim response_persist_Inr) (rule that)
  have "get_response_row rid db = None" using fresh by (simp only: get_response_row_None not_False_eq_True)
  then have "get_response_row rid db' = Some \<lparr>rr_id = rid, rr_conversation_id = cid, rr_previous_response_id = previous_id,
           rr_history_item_ids = Some ids_json, rr_metadata = Some metadata_json, rr_created_at = now\<rparr>"
    by (simp add: db' get_response_row_append)
  moreover have "tc_metadata_of_text c metadata_json = Some (stored_metadata metadata)"
    using meta assms(2) by (simp add: metadata_text_def serialization_Inr metadata_round_trip_def stored_metadata_def)
  ultimately show ?thesis by (simp add: response_get_def with_pool_def response_data_of_row_def)
qed

definition history_before :: "text_codec \<Rightarrow> string option \<Rightarrow> database \<Rightarrow> in_out_item list \<Rightarrow> bool" where
  "history_before c previous_id db h \<longleftrightarrow>
     (case previous_id of None \<Rightarrow> h = [] | Some p \<Rightarrow> response_rehydrate c p (Some db) = Inr h)"

definition storable_turn ::
  "text_codec \<Rightarrow> (nat \<Rightarrow> string) \<Rightarrow> string option \<Rightarrow> in_out_item list \<Rightarrow> response_metadata \<Rightarrow> database \<Rightarrow> bool" where
  "storable_turn c draw previous_id items metadata db \<longleftrightarrow>
     database_ok c db \<and> (\<forall>x \<in> set items. storable c x) \<and> metadata_round_trip c metadata
     \<and> ids_round_trip c (previous_history c previous_id db @ map draw [0..<length items])"

lemma write_response_next:
  assumes "write_response env draw now ctx previous_id items metadata (Some db) = Inr pool"
    "storable_turn (te_codec env) draw previous_id items metadata db" "history_before (te_codec env) previous_id db h"
    "rq_previous_response_id original = Some (rc_response_id ctx)"
  shows "\<exists>stored. response_handler_get env original pool = Inr stored \<and> rd_conversation_id stored = rc_conversation_id ctx
      \<and> rd_metadata stored = stored_metadata metadata"
    "response_handler_rehydrate env original pool = Inr (h @ items)"
proof -
  from assms(1) obtain db' where pool: "pool = Some db'" and persist:
    "response_persist (te_codec env) draw now (rc_response_id ctx) (rc_conversation_id ctx) previous_id items metadata (Some db)
       = Inr db'" by (rule write_response_Inr)
  have ok: "database_ok (te_codec env) db" "\<forall>x \<in> set items. storable (te_codec env) x"
    "ids_round_trip (te_codec env) (previous_history (te_codec env) previous_id db @ map draw [0..<length items])"
    "metadata_round_trip (te_codec env) metadata"
    using assms(2) by (simp_all add: storable_turn_def)
  show "\<exists>stored. response_handler_get env original pool = Inr stored \<and> rd_conversation_id stored = rc_conversation_id ctx
      \<and> rd_metadata stored = stored_metadata metadata"
    using response_persist_get [OF persist ok(4)] assms(4)
    by (auto simp: response_handler_get_def pool storage_result_def)
  have "response_rehydrate (te_codec env) (rc_response_id ctx) (Some db') =
      (case previous_id of None \<Rightarrow> Inr items
       | Some p \<Rightarrow> and_then (response_rehydrate (te_codec env) p (Some db)) (\<lambda>h. Inr (h @ items)))"
    by (rule response_persist_rehydrates [OF ok(1) persist ok(2,3), THEN conjunct1])
  with assms(3,4) show "response_handler_rehydrate env original pool = Inr (h @ items)"
    by (simp add: response_handler_rehydrate_def pool storage_result_def history_before_def split: option.splits)
qed

text \<open>
  C26: a stored turn is the history of the next one. When a turn outside a session is persisted,
  the next request that names it is resolved to exactly: everything its parent had, this turn's
  input items, this turn's output items, then the new input, lowered for inference, with the
  tools and the tool choice the turn stored unless the request sets its own; and it is refused
  for a call that is still unanswered, exactly as the pending-call scan of that sequence says.
\<close>

theorem stored_turn_is_the_next_history:
  assumes "response_execute_turn env draw now ctx out metadata \<lparr>wd_db = Some db, wd_sessions = s\<rparr> = (Inr (), w')"
    and "rc_continuation ctx = None"
    and "storable_turn (te_codec env) draw (rm_previous_response_id metadata) (turn_items ctx None out) metadata db"
    and "history_before (te_codec env) (rm_previous_response_id metadata) db h"
    and "rq_previous_response_id (rc_original_request next) = Some (rc_response_id ctx)"
  shows "from_stored_response env next (wd_db w') =
    (let items = into_input_items (te_printers env) (h @ turn_items ctx None out)
           @ items_of_input (te_printers env) (rq_input (rc_original_request next))
     in and_then (no_pending items) (\<lambda>_.
          Inr ((apply_effective_settings (stored_metadata metadata) (set_input items (clear_previous next)))
            \<lparr>rc_conversation_id := rc_conversation_id ctx\<rparr>)))"
proof -
  from assms(1,2) have "write_response env draw now ctx (rm_previous_response_id metadata) (turn_items ctx None out) metadata
      (Some db) = Inr (wd_db w')"
    by (auto simp: response_execute_turn_def split: sum.splits)
  from write_response_next [OF this assms(3,4,5)] show ?thesis
    by (auto simp: from_stored_response_def Let_def)
qed

text \<open>The next turn of the session finds the checkpoint just published.\<close>

lemma into_input_items_append:
  "into_input_items p (xs @ ys) = into_input_items p xs @ into_input_items p ys"
  by (simp add: into_input_items_def items_of_input_def)

lemma begin_turn_heap: "begin_turn i pid s = Inr (l, s') \<Longrightarrow> st_heap s' = st_heap s"
  by (elim begin_turn_Inr) simp

lemma execute_turn_publishes:
  assumes "reachable env s" "lease_at s l = Some c" "rc_continuation ctx = Some l" "rq_store (rc_original_request ctx)"
    "response_execute_turn env draw now ctx out metadata \<lparr>wd_db = pool, wd_sessions = s\<rparr> = (Inr (), w')"
    "\<not> transient_parent s c"
  shows "write_response env draw now ctx (rm_previous_response_id metadata) (turn_items ctx (Some c) out) metadata pool
      = Inr (wd_db w')"
    "\<exists>l' s' c'. begin_turn (co_session c) (Some (rc_response_id ctx)) (wd_sessions w') = Inr (l', s')
       \<and> lease_at s' l' = Some c'
       \<and> lease_checkpoint s' c' = Some \<lparr>ck_response_id = rc_response_id ctx, ck_conversation_id = rc_conversation_id ctx,
           ck_history = canonical_session_history
             (parent_items s c @ into_input_items (te_printers env) (turn_items ctx (Some c) out)),
           ck_metadata = sanitize_metadata metadata, ck_durable = True\<rparr>"
proof -
  let ?prepare = "checkpoint (te_printers env) (te_writes env) c (rc_response_id ctx) (rc_conversation_id ctx)
          metadata (turn_items ctx (Some c) out) True s"
  from assms(2-6) obtain h s1 where prepared: "?prepare = Inr (h, s1)"
    and written: "write_response env draw now ctx (rm_previous_response_id metadata) (turn_items ctx (Some c) out) metadata pool
      = Inr (wd_db w')" and published: "publish l c h s1 = (None, wd_sessions w')"
    by (auto simp: response_execute_turn_def Let_def split: sum.splits prod.splits option.splits)
  show "write_response env draw now ctx (rm_previous_response_id metadata) (turn_items ctx (Some c) out) metadata pool
      = Inr (wd_db w')" by (rule written)
  let ?ck = "\<lparr>ck_response_id = rc_response_id ctx, ck_conversation_id = rc_conversation_id ctx,
           ck_history = canonical_session_history
             (parent_items s c @ into_input_items (te_printers env) (turn_items ctx (Some c) out)),
           ck_metadata = sanitize_metadata metadata, ck_durable = True\<rparr>"
  note steps = checkpoint_steps [OF assms(1,2) prepared]
  from prepared obtain n where "retain (co_session c) ?ck n s = Inr (h, s1)" by (elim checkpoint_Inr) simp
  from retain_frame(1,7) [OF this] obtain r where cell: "st_heap s1 ! h = Some \<lparr>rt_checkpoint = ?ck, rt_reservation = r\<rparr>"
    by (auto simp: nth_append)
  then have rid: "response_id_of s1 h = rc_response_id ctx" by (simp add: response_id_of_def)
  have "l < length (st_leases s1)" "st_leases s1 ! l = Some c" using steps(2) by (simp_all add: lease_at_Some)
  from publish_resumes [OF steps(1) [unfolded reachable_def] this steps(3)] published cell rid
  obtain s' where begun: "begin_turn (co_session c) (Some (rc_response_id ctx)) (wd_sessions w') = Inr (length (st_leases s1), s')"
    and lease: "st_leases s' ! length (st_leases s1) = Some \<lparr>co_session = co_session c, co_parent = Some h,
                co_history_replaced = False, co_recorded_output_count = 0\<rparr>"
    and heap: "st_heap (wd_sessions w') ! h = st_heap s1 ! h"
    by auto
  from begun have "length (st_leases s1) < length (st_leases s')"
    by (elim begin_turn_Inr) (use begun in simp)
  with lease have "lease_at s' (length (st_leases s1)) = Some \<lparr>co_session = co_session c, co_parent = Some h,
                co_history_replaced = False, co_recorded_output_count = 0\<rparr>" by (simp add: lease_at_Some)
  moreover have "st_heap s' ! h = Some \<lparr>rt_checkpoint = ?ck, rt_reservation = r\<rparr>"
    using begin_turn_heap [OF begun] heap cell by simp
  then have "lease_checkpoint s' \<lparr>co_session = co_session c, co_parent = Some h,
                co_history_replaced = False, co_recorded_output_count = 0\<rparr> = Some ?ck"
    by (simp add: lease_checkpoint_def)
  ultimately show "\<exists>l' s' c'. begin_turn (co_session c) (Some (rc_response_id ctx)) (wd_sessions w') = Inr (l', s')
       \<and> lease_at s' l' = Some c' \<and> lease_checkpoint s' c' = Some ?ck"
    using begun by blast
qed

lemma stored_settings: "apply_effective_settings (stored_metadata m) = apply_effective_settings (sanitize_metadata m)"
  by (simp add: apply_effective_settings_def stored_metadata_def sanitize_metadata_def Let_def fun_eq_iff)

text \<open>
  C32: the session cache and the database tell the same story. Take a turn of a session that is
  stored, whose parent is stored too and whose history was not compacted on the way, and whose
  cached parent history is the canonical form of what the database holds; its items and settings
  are such that the serializers read back what they wrote; the turn may have had any number of
  rounds. When it is persisted, the session can begin the next turn. If neither the
  history nor the new input holds a compaction item, resolving that turn from the cached
  checkpoint and from the database is the same: the same context or the same refusal. If one does,
  each way refuses exactly for the calls that are unanswered in the history it reads, the whole
  one or the canonical one, and where both accept, the model gets the same input, the same tools,
  tool choice and conversation.
\<close>

theorem session_cache_agrees_with_database:
  assumes "reachable env s" "lease_at s l = Some c" "rc_continuation ctx = Some l" "rq_store (rc_original_request ctx)"
    and turn: "response_execute_turn env draw now ctx out metadata \<lparr>wd_db = Some db, wd_sessions = s\<rparr> = (Inr (), w')"
    and lease: "\<not> transient_parent s c" "\<not> co_history_replaced c"
    and parent: "history_before (te_codec env) (rm_previous_response_id metadata) db h"
      "history_of s (co_parent c) = canonical_session_history (into_input_items (te_printers env) h)"
    and stored: "storable_turn (te_codec env) draw (rm_previous_response_id metadata) (turn_items ctx (Some c) out) metadata db"
    and next_turn: "rq_previous_response_id (rc_original_request next) = Some (rc_response_id ctx)"
  shows "\<exists>l' s'. begin_turn (co_session c) (Some (rc_response_id ctx)) (wd_sessions w') = Inr (l', s')
    \<and> (let items = into_input_items (te_printers env) (h @ turn_items ctx (Some c) out)
             @ items_of_input (te_printers env) (rq_input (rc_original_request next));
           durable = from_stored_response env next (wd_db w');
           cached = fst (from_session_response env next l' (w'\<lparr>wd_sessions := s'\<rparr>))
       in (\<not> list_ex is_compaction items \<longrightarrow> durable = cached)
        \<and> isl durable = isl (no_pending items) \<and> isl cached = isl (no_pending (canonical_session_history items))
        \<and> (case (durable, cached) of
             (Inr d, Inr k) \<Rightarrow>
               model_input (rq_input (rc_enriched_request d)) = model_input (rq_input (rc_enriched_request k))
               \<and> rq_tools (rc_enriched_request d) = rq_tools (rc_enriched_request k)
               \<and> rq_tool_choice (rc_enriched_request d) = rq_tool_choice (rc_enriched_request k)
               \<and> rc_conversation_id d = rc_conversation_id k
           | _ \<Rightarrow> True))"
proof -
  let ?p = "te_printers env" and ?turn = "turn_items ctx (Some c) out"
  let ?items = "into_input_items ?p (h @ ?turn) @ items_of_input ?p (rq_input (rc_original_request next))"
  let ?resolved = "\<lambda>items. (apply_effective_settings (sanitize_metadata metadata) (set_input items (clear_previous next)))
    \<lparr>rc_conversation_id := rc_conversation_id ctx\<rparr>"
  note published = execute_turn_publishes [OF assms(1-4) turn lease(1)]
  note saved = write_response_next [OF published(1) stored parent(1) next_turn]
  from published(2) obtain l' s' c' ck where begun:
      "begin_turn (co_session c) (Some (rc_response_id ctx)) (wd_sessions w') = Inr (l', s')"
    and c': "lease_at s' l' = Some c'" "lease_checkpoint s' c' = Some ck"
    and ck: "ck_conversation_id ck = rc_conversation_id ctx" "ck_metadata ck = sanitize_metadata metadata"
      "ck_history ck = canonical_session_history (parent_items s c @ into_input_items ?p ?turn)"
    by fastforce
  have history: "ck_history ck = canonical_session_history (into_input_items ?p (h @ ?turn))"
    using lease(2) parent(2) by (simp add: ck parent_items_def into_input_items_append canonical_append)
  define items where "items = ?items"
  have cached: "fst (from_session_response env next l' (w'\<lparr>wd_sessions := s'\<rparr>)) =
      and_then (no_pending (canonical_session_history items)) (\<lambda>_. Inr (?resolved (canonical_session_history items)))"
    using c' by (simp add: from_session_response_def continue_session_def Let_def history canonical_append ck items_def)
  have durable: "from_stored_response env next (wd_db w') = and_then (no_pending items) (\<lambda>_. Inr (?resolved items))"
    using saved by (auto simp: from_stored_response_def Let_def stored_settings items_def)
  have same: "resolved_as (?resolved (canonical_session_history items)) items (sanitize_metadata metadata) (rc_conversation_id ctx)"
    "resolved_as (?resolved items) items (sanitize_metadata metadata) (rc_conversation_id ctx)"
    by (rule settings_resolved, simp add: model_input_canonical)+
  have requests: "rc_original_request (?resolved items) = rc_original_request next" for items
    by (simp add: apply_effective_settings_def set_input_def clear_previous_def Let_def)
  have verdict: "isl (and_then r (\<lambda>_. Inr x)) = isl r" for r :: "executor_error + unit" and x :: request_context
    by (cases r) simp_all
  have whole: "\<not> list_ex is_compaction items \<Longrightarrow> canonical_session_history items = items"
    by (rule canonical_no_window)
  have "case (and_then (no_pending items) (\<lambda>_. Inr (?resolved items)),
          and_then (no_pending (canonical_session_history items)) (\<lambda>_. Inr (?resolved (canonical_session_history items)))) of
        (Inr d, Inr k) \<Rightarrow>
          model_input (rq_input (rc_enriched_request d)) = model_input (rq_input (rc_enriched_request k))
          \<and> rq_tools (rc_enriched_request d) = rq_tools (rc_enriched_request k)
          \<and> rq_tool_choice (rc_enriched_request d) = rq_tool_choice (rc_enriched_request k)
          \<and> rc_conversation_id d = rc_conversation_id k
      | _ \<Rightarrow> True"
    using same unfolding resolved_as_def requests
    by (cases "no_pending items"; cases "no_pending (canonical_session_history items)") simp_all
  then show ?thesis
    unfolding Let_def items_def [symmetric] durable
    by (intro exI [of _ l'] exI [of _ s'] conjI impI begun) (simp_all only: cached verdict whole simp_thms)
qed

section \<open>Examples\<close>

definition chat_message :: input_item where
  "chat_message = InMessage \<lparr>im_id = None, im_role = ''user'', im_status = None, im_content = TextContent ''hi''\<rparr>"

definition chat_env :: "response_metadata \<Rightarrow> turn_env" where
  "chat_env m = demo_env\<lparr>te_codec := tiny_codec\<lparr>tc_input_of_json := (\<lambda>_. Some chat_message),
     tc_metadata_of_text := (\<lambda>_. Some m)\<rparr>\<rparr>"

definition chat_request :: "string option \<Rightarrow> request_payload" where
  "chat_request previous = demo_request\<lparr>rq_input := ItemsInput [chat_message], rq_previous_response_id := previous,
     rq_store := True\<rparr>"

definition chat_context :: "string \<Rightarrow> string option \<Rightarrow> lease_id option \<Rightarrow> request_context" where
  "chat_context rid previous l = initial_context demo_printers rid (chat_request previous) l"

definition chat_metadata :: "string option \<Rightarrow> response_metadata" where
  "chat_metadata previous = default_metadata\<lparr>rm_previous_response_id := previous\<rparr>"

definition next_draw :: "nat \<Rightarrow> string" where
  "next_draw n = tiny_draw (Suc n)"

lemma stored_turn_is_the_next_history_witness:
  "\<exists>w' ctx'. response_execute_turn (chat_env (chat_metadata (Some ''r0''))) next_draw 2 (chat_context ''r1'' (Some ''r0'') None) []
        (chat_metadata (Some ''r0'')) \<lparr>wd_db = Some tiny_database, wd_sessions = empty_store\<rparr> = (Inr (), w')
     \<and> from_stored_response (chat_env (chat_metadata (Some ''r0''))) (chat_context ''r2'' (Some ''r1'') None) (wd_db w') = Inr ctx'
     \<and> rq_input (rc_enriched_request ctx') = ItemsInput [chat_message, chat_message, chat_message]"
proof -
  let ?m = "chat_metadata (Some ''r0'')" and ?ctx = "chat_context ''r1'' (Some ''r0'') None"
    and ?next = "chat_context ''r2'' (Some ''r1'') None"
  let ?env = "chat_env ?m" and ?w = "\<lparr>wd_db = Some tiny_database, wd_sessions = empty_store\<rparr>"
  have "fst (response_execute_turn ?env next_draw 2 ?ctx [] ?m ?w) = Inr ()" by code_simp
  then obtain w' where run: "response_execute_turn ?env next_draw 2 ?ctx [] ?m ?w = (Inr (), w')"
    by (metis prod.collapse)
  have "rc_continuation ?ctx = None" by code_simp
  moreover have "storable_turn (te_codec ?env) next_draw (rm_previous_response_id ?m) (turn_items ?ctx None []) ?m tiny_database"
    by code_simp
  moreover have "history_before (te_codec ?env) (rm_previous_response_id ?m) tiny_database [StoredInput chat_message]"
    by code_simp
  moreover have "rq_previous_response_id (rc_original_request ?next) = Some (rc_response_id ?ctx)" by code_simp
  moreover have items: "into_input_items (te_printers ?env) ([StoredInput chat_message] @ turn_items ?ctx None [])
           @ items_of_input (te_printers ?env) (rq_input (rc_original_request ?next)) = [chat_message, chat_message, chat_message]"
    by code_simp
  moreover have "no_pending [chat_message, chat_message, chat_message] = Inr ()" by code_simp
  ultimately show ?thesis
    using stored_turn_is_the_next_history [OF run, of "[StoredInput chat_message]" ?next] run
    by (auto simp: Let_def apply_effective_settings_def set_input_def)
qed

lemma chat_prepare:
  "\<exists>s1. checkpoint demo_printers demo_writes demo_lease ''resp_1'' None (chat_metadata None) [StoredInput chat_message] True
        (demo_store True False False) = Inr (0, s1) \<and> \<not> se_closed (st_sessions s1 ! co_session demo_lease)"
proof -
  have "into_input_items demo_printers [StoredInput chat_message] = [chat_message]"
    "canonical_session_history [chat_message] = [chat_message]" by code_simp+
  then show ?thesis
    by (simp add: checkpoint_def Let_def demo_store_def demo_session_def demo_lease_def parent_items_def history_of_def
        demo_writes_def serialized_size_up_to_def counter_write_def retain_def reserve_def usize_checked_add_def usize_max_def)
qed

lemma session_cache_agrees_with_database_witness:
  "\<exists>w' l' s'. response_execute_turn (chat_env (chat_metadata None)) next_draw 2 (chat_context ''resp_1'' None (Some 0)) []
        (chat_metadata None) \<lparr>wd_db = Some tiny_database, wd_sessions = demo_store True False False\<rparr> = (Inr (), w')
     \<and> begin_turn 0 (Some ''resp_1'') (wd_sessions w') = Inr (l', s')"
proof -
  let ?m = "chat_metadata None" and ?ctx = "chat_context ''resp_1'' None (Some 0)" and ?s = "demo_store True False False"
    and ?next = "chat_context ''resp_2'' (Some ''resp_1'') (Some 1)"
  let ?env = "chat_env ?m" and ?w = "\<lparr>wd_db = Some tiny_database, wd_sessions = demo_store True False False\<rparr>"
  from chat_prepare obtain s1 where prepared: "checkpoint demo_printers demo_writes demo_lease ''resp_1'' None (chat_metadata None)
      [StoredInput chat_message] True ?s = Inr (0, s1)" and opened: "\<not> se_closed (st_sessions s1 ! co_session demo_lease)" by blast
  have "\<not> isl (write_response ?env next_draw 2 ?ctx None [StoredInput chat_message] ?m (Some tiny_database))" by code_simp
  then obtain pool where written: "write_response ?env next_draw 2 ?ctx None [StoredInput chat_message] ?m (Some tiny_database) = Inr pool"
    by (rule not_isl_InrE)
  have lease: "lease_at ?s 0 = Some demo_lease" by (simp add: demo_store_def lease_at_def)
  have eval: "rc_continuation ?ctx = Some 0" "rq_store (rc_original_request ?ctx)" "rc_response_id ?ctx = ''resp_1''"
    "rc_conversation_id ?ctx = None" "turn_items ?ctx (Some demo_lease) [] = [StoredInput chat_message]"
    "\<not> transient_parent ?s demo_lease" "rm_previous_response_id ?m = None" by code_simp+
  have env: "te_printers ?env = demo_printers" "te_writes ?env = demo_writes" by (simp_all add: chat_env_def demo_env_def)
  have "fst (response_execute_turn ?env next_draw 2 ?ctx [] ?m ?w) = Inr ()"
    using prepared written publish_open(1) [where l = 0 and h = 0, OF opened]
    by (auto simp: response_execute_turn_def Let_def lease eval env split: prod.split)
  then obtain w' where run: "response_execute_turn ?env next_draw 2 ?ctx [] ?m ?w = (Inr (), w')"
    by (metis prod.collapse)
  have reach: "reachable ?env ?s"
    using demo_reachable(1) by (simp add: reachable_def chat_env_def demo_env_def)
  have ctx: "rc_continuation ?ctx = Some 0" "rq_store (rc_original_request ?ctx)" by code_simp+
  have fresh: "\<not> transient_parent ?s demo_lease" "\<not> co_history_replaced demo_lease"
    by code_simp+
  have parent: "history_before (te_codec ?env) (rm_previous_response_id ?m) tiny_database []"
    "history_of ?s (co_parent demo_lease) = canonical_session_history (into_input_items (te_printers ?env) [])"
    by code_simp+
  have stored: "storable_turn (te_codec ?env) next_draw (rm_previous_response_id ?m) (turn_items ?ctx (Some demo_lease) []) ?m tiny_database"
    by code_simp
  have again: "rq_previous_response_id (rc_original_request ?next) = Some (rc_response_id ?ctx)" by code_simp
  have "co_session demo_lease = 0" "rc_response_id ?ctx = ''resp_1''" by code_simp+
  with session_cache_agrees_with_database [OF reach lease ctx run fresh parent stored again]
  obtain l' s' where "begin_turn 0 (Some ''resp_1'') (wd_sessions w') = Inr (l', s')" by auto
  with run show ?thesis by blast
qed

end
