(* ===== verification/Conversation_Turns.thy ===== *)
theory Conversation_Turns
  imports Turn_Properties
begin

text \<open>
  Turns of a durable conversation as compare-and-swap operations on its version, what a client
  sees when it loses the race, and the call ids a committed turn may use.
\<close>

section \<open>Errors of the statements\<close>

definition statement_error :: "storage_error \<Rightarrow> bool" where
  "statement_error e \<longleftrightarrow> e = unique_violation \<or> e = foreign_key_violation \<or> e = row_not_found"

lemma statement_error_no_conflict: "statement_error e \<Longrightarrow> \<not> storage_is_conversation_conflict e"
  by (auto simp: statement_error_def unique_violation_def foreign_key_violation_def row_not_found_def)

lemma create_items_Inl: "create_items now texts cid db = Inl e \<Longrightarrow> statement_error e"
proof -
  have "run_steps (create_batch now cid) db bs = Inl e \<Longrightarrow> statement_error e" for bs
    by (induction bs arbitrary: db)
       (auto simp: create_batch_rows insert_item_rows_def statement_error_def split: sum.splits if_splits)
  then show "create_items now texts cid db = Inl e \<Longrightarrow> statement_error e" by (simp add: create_items_def)
qed

lemma create_response_Inl: "create_response row db = Inl e \<Longrightarrow> statement_error e"
  by (auto simp: create_response_def statement_error_def split: if_splits)

lemma set_latest_response_Inl: "set_latest_response cid rid db = Inl e \<Longrightarrow> statement_error e"
  by (auto simp: set_latest_response_def statement_error_def split: if_splits)

definition serializes :: "text_codec \<Rightarrow> (nat \<Rightarrow> string) \<Rightarrow> in_out_item list \<Rightarrow> response_metadata \<Rightarrow> bool" where
  "serializes c draw items metadata \<longleftrightarrow>
     (case new_item_texts c draw items of
        Inl _ \<Rightarrow> False
      | Inr texts \<Rightarrow> \<not> isl (tc_ids_text c (map fst texts)) \<and> \<not> isl (metadata_text c metadata))"

lemma conversation_persist_current:
  assumes "conversation_exists cid db" "serializes c draw items metadata"
  shows "case conversation_persist c draw now cid (Some (current_version cid db)) rid previous_id items metadata (Some db) of
      Inl e \<Rightarrow> statement_error e | Inr _ \<Rightarrow> True"
proof -
  from assms(1) obtain row where row: "get_conversation_row cid db = Some row"
    by (auto simp: get_conversation_row_exists)
  from assms(2) obtain texts t m where texts: "new_item_texts c draw items = Inr texts" and t: "tc_ids_text c (map fst texts) = Inr t"
    and m: "metadata_text c metadata = Inr m"
    by (auto simp: serializes_def split: sum.splits elim!: not_isl_InrE)
  have version: "version_from_snapshot (max_seq (conversation_items cid db)) (cv_latest_response_id row) = current_version cid db"
    by (simp add: current_version_def snapshot_latest_def row)
  show ?thesis
    by (auto simp: conversation_persist_def with_pool_Some texts t m serialization_Inr [THEN iffD2] lock_conversation_def
        row version and_then_eq_Inl serialization_def
        split: sum.split dest: create_items_Inl create_response_Inl set_latest_response_Inl)
qed

section \<open>Compare and swap\<close>

text \<open>An item of a conversation refers to one that exists.\<close>

definition foreign_keys_ok :: "database \<Rightarrow> bool" where
  "foreign_keys_ok db \<longleftrightarrow>
     list_all (\<lambda>r. case it_conversation_id r of None \<Rightarrow> True | Some c \<Rightarrow> conversation_exists c db) (db_items db)"

lemma missing_conversation:
  assumes "foreign_keys_ok db" "\<not> conversation_exists cid db"
  shows "conversation_items cid db = []"
  using assms by (auto simp: foreign_keys_ok_def list_all_iff conversation_items_def filter_empty_conv split: option.splits)

lemma get_conversation_row_id: "get_conversation_row cid db = Some row \<Longrightarrow> cv_id row = cid"
  by (auto simp: get_conversation_row_def find_Some_iff)

lemma find_append: "List.find P (xs @ ys) = (case List.find P xs of None \<Rightarrow> List.find P ys | Some x \<Rightarrow> Some x)"
  by (induction xs) simp_all

lemma create_conversation_Inr:
  assumes "create_conversation now cid db = Inr (row, db')"
  shows "cv_id row = cid" "conversation_exists cid db'" "\<not> conversation_exists cid db"
    "snapshot_latest cid db' = None" "conversation_items cid db' = conversation_items cid db"
proof -
  from assms have missing: "\<not> conversation_exists cid db" and row: "cv_id row = cid" "cv_latest_response_id row = None"
    and db': "db' = db\<lparr>db_conversations := db_conversations db @ [row]\<rparr>"
    by (auto simp: create_conversation_def Let_def split: if_splits)
  then have none: "List.find (\<lambda>r. cv_id r = cid) (db_conversations db) = None"
    by (simp add: get_conversation_row_exists) (simp add: get_conversation_row_def)
  show "cv_id row = cid" "\<not> conversation_exists cid db" by (fact row missing)+
  show "conversation_exists cid db'" using row by (simp add: conversation_exists_def db')
  show "snapshot_latest cid db' = None" using row by (simp add: snapshot_latest_def get_conversation_row_def db' find_append none)
  show "conversation_items cid db' = conversation_items cid db" by (simp add: conversation_items_def db')
qed

text \<open>The snapshot is the same before and after its conversation is created.\<close>

lemma get_or_create_Inr:
  assumes "get_or_create_conversation now cid db = Inr (row, db')" "foreign_keys_ok db"
  shows "cv_id row = cid" "conversation_exists cid db'" "current_version cid db' = current_version cid db"
    "rehydrate_snapshot c cid (Some db') = rehydrate_snapshot c cid (Some db)"
proof -
  have "cv_id row = cid \<and> conversation_exists cid db' \<and> current_version cid db' = current_version cid db
      \<and> rehydrate_snapshot c cid (Some db') = rehydrate_snapshot c cid (Some db)"
  proof (cases "get_conversation_row cid db")
    case (Some r)
    with assms(1) show ?thesis
      by (auto simp: get_or_create_conversation_def get_conversation_row_exists dest: get_conversation_row_id)
  next
    case None
    with assms(1) have created: "create_conversation now cid db = Inr (row, db')"
      by (simp add: get_or_create_conversation_def)
    note facts = create_conversation_Inr [OF created]
    have "conversation_items cid db = []" by (rule missing_conversation [OF assms(2) facts(3)])
    moreover have "snapshot_latest cid db = None" by (simp add: snapshot_latest_def None)
    ultimately show ?thesis
      using facts by (simp add: current_version_def rehydrate_snapshot_def with_pool_Some snapshot_items_def Let_def)
  qed
  then show "cv_id row = cid" "conversation_exists cid db'" "current_version cid db' = current_version cid db"
    "rehydrate_snapshot c cid (Some db') = rehydrate_snapshot c cid (Some db)" by simp_all
qed

lemma from_conversation_captures:
  assumes "from_conversation env now ctx w = (Inr ctx', w')" "rq_conversation_id (rc_original_request ctx) = Some cid"
    "wd_db w = Some db" "foreign_keys_ok db"
  obtains (captured) db' where "wd_db w' = Some db'" "conversation_exists cid db'" "rc_conversation_id ctx' = Some cid"
    "rc_conversation_version ctx' = Some (current_version cid db')"
    "rehydrate_snapshot (te_codec env) cid (Some db') = rehydrate_snapshot (te_codec env) cid (Some db)"
proof -
  let ?original = "rc_original_request ctx"
  have "\<exists>db' snap. wd_db w' = Some db' \<and> conversation_exists cid db'
      \<and> rehydrate_snapshot (te_codec env) cid (Some db) = Inr snap
      \<and> rehydrate_snapshot (te_codec env) cid (Some db') = Inr snap
      \<and> rc_conversation_id ctx' = Some cid \<and> rc_conversation_version ctx' = Some (cs_version snap)"
  proof (cases "rq_store ?original")
    case True
    with assms(1-3) obtain row db' snap where
      found: "get_or_create_conversation now cid db = Inr (row, db')" and snap: "rehydrate_snapshot (te_codec env) cid (Some db) = Inr snap"
      and w': "w' = w\<lparr>wd_db := Some db'\<rparr>" and ctx': "rc_conversation_id ctx' = Some (cv_id row)"
        "rc_conversation_version ctx' = Some (cs_version snap)"
      by (auto simp: from_conversation_def Let_def conversation_handler_get_or_create_def conversation_get_or_create_def
          conversation_handler_snapshot_def with_pool_Some storage_result_def set_input_def
          split: sum.splits prod.splits elim!: and_then_InrE)
    with get_or_create_Inr(1,2) [OF found assms(4)] get_or_create_Inr(4) [OF found assms(4), of "te_codec env"] show ?thesis by auto
  next
    case False
    with assms(1-3) obtain row snap where
      found: "get_conversation_row cid db = Some row" and snap: "rehydrate_snapshot (te_codec env) cid (Some db) = Inr snap"
      and w': "w' = w\<lparr>wd_db := Some db\<rparr>" and ctx': "rc_conversation_id ctx' = Some (cv_id row)"
        "rc_conversation_version ctx' = Some (cs_version snap)"
      by (auto simp: from_conversation_def Let_def conversation_handler_get_def conversation_get_def
          conversation_handler_snapshot_def with_pool_Some storage_result_def set_input_def ok_or_eq_Inr
          split: sum.splits prod.splits elim!: and_then_InrE)
    with get_conversation_row_id [OF found] show ?thesis by (auto simp: get_conversation_row_exists)
  qed
  then obtain db' snap where f: "wd_db w' = Some db'" "conversation_exists cid db'"
    "rehydrate_snapshot (te_codec env) cid (Some db') = Inr snap" "rehydrate_snapshot (te_codec env) cid (Some db) = Inr snap"
    "rc_conversation_id ctx' = Some cid" "rc_conversation_version ctx' = Some (cs_version snap)" by blast
  with rehydrate_snapshot_Inr(1) [OF f(2,3)] captured [of db'] show thesis by simp
qed

definition is_locked :: "executor_error + 'a \<Rightarrow> bool" where
  "is_locked r = (case r of Inl e \<Rightarrow> contains_conversation_locked e | Inr _ \<Rightarrow> False)"

lemma conversation_execute_turn_locked:
  assumes "rc_conversation_id ctx = Some cid" "rc_conversation_version ctx = Some version" "conversation_exists cid db"
    "serializes (te_codec env) draw (turn_items ctx None out) metadata"
  shows "is_locked (fst (conversation_execute_turn env draw now ctx out metadata \<lparr>wd_db = Some db, wd_sessions = s\<rparr>))
    \<longleftrightarrow> version \<noteq> current_version cid db"
    "is_locked (fst (conversation_execute_turn env draw now ctx out metadata \<lparr>wd_db = Some db, wd_sessions = s\<rparr>)) \<Longrightarrow>
     wd_db (snd (conversation_execute_turn env draw now ctx out metadata \<lparr>wd_db = Some db, wd_sessions = s\<rparr>)) = Some db"
proof -
  let ?persist = "conversation_persist (te_codec env) draw now cid (Some version) (rc_response_id ctx)
    (rm_previous_response_id metadata) (turn_items ctx None out) metadata (Some db)"
  have result: "fst (conversation_execute_turn env draw now ctx out metadata \<lparr>wd_db = Some db, wd_sessions = s\<rparr>) =
      (case ?persist of Inl e \<Rightarrow> Inl (if storage_is_conversation_conflict e then ConversationLocked e else Storage e)
       | Inr _ \<Rightarrow> Inr ())"
    by (simp add: conversation_execute_turn_def Let_def assms(1,2) split: sum.split)
  show "is_locked (fst (conversation_execute_turn env draw now ctx out metadata \<lparr>wd_db = Some db, wd_sessions = s\<rparr>))
    \<longleftrightarrow> version \<noteq> current_version cid db"
  proof (cases "version = current_version cid db")
    case True
    with conversation_persist_current [OF assms(3,4), of now "rc_response_id ctx" "rm_previous_response_id metadata"]
    show ?thesis unfolding result by (auto simp: is_locked_def dest: statement_error_no_conflict split: sum.splits)
  next
    case False
    from assms(4) obtain texts t m where "new_item_texts (te_codec env) draw (turn_items ctx None out) = Inr texts"
      "tc_ids_text (te_codec env) (map fst texts) = Inr t" "metadata_text (te_codec env) metadata = Inr m"
      by (auto simp: serializes_def split: sum.splits elim!: not_isl_InrE)
    moreover from assms(3) obtain row where "get_conversation_row cid db = Some row"
      by (auto simp: get_conversation_row_exists)
    ultimately have "?persist = Inl (ConversationConflict cid)"
      using False
      by (auto simp: conversation_persist_def with_pool_Some serialization_def lock_conversation_def
          current_version_def snapshot_latest_def)
    with False show ?thesis unfolding result by (simp add: is_locked_def)
  qed
  show "wd_db (snd (conversation_execute_turn env draw now ctx out metadata \<lparr>wd_db = Some db, wd_sessions = s\<rparr>)) = Some db"
    if "is_locked (fst (conversation_execute_turn env draw now ctx out metadata \<lparr>wd_db = Some db, wd_sessions = s\<rparr>))"
    using that unfolding result
    by (auto simp: conversation_execute_turn_def Let_def assms(1,2) is_locked_def split: sum.splits)
qed

text \<open>
  C12: a conversation turn is a compare-and-swap on the conversation's version. Rehydration
  captures the version that the database then has, whether or not it had to create the
  conversation and in whichever order its two lookups run; and the turn's persistence, run
  later on any database that still has the conversation, is refused as locked exactly when the
  version has changed since, in which case it writes nothing.
\<close>

theorem conversation_turn_is_compare_and_swap:
  assumes "from_conversation env now ctx w = (Inr ctx', w')"
    and "rq_conversation_id (rc_original_request ctx) = Some cid"
    and "wd_db w = Some db" and "foreign_keys_ok db"
    and "conversation_exists cid later"
    and "serializes (te_codec env) draw (turn_items ctx' None out) metadata"
  shows "conversation_handler_snapshot env (rc_original_request ctx) (wd_db w') =
      conversation_handler_snapshot env (rc_original_request ctx) (wd_db w)
    \<and> (\<exists>captured. wd_db w' = Some captured
        \<and> rc_conversation_version ctx' = Some (current_version cid captured)
        \<and> (let r = conversation_execute_turn env draw now' ctx' out metadata \<lparr>wd_db = Some later, wd_sessions = s\<rparr>
           in (is_locked (fst r) \<longleftrightarrow> current_version cid later \<noteq> current_version cid captured)
              \<and> (is_locked (fst r) \<longrightarrow> wd_db (snd r) = Some later)))"
  using assms(1-4)
proof (rule from_conversation_captures)
  fix db' assume db': "wd_db w' = Some db'" "rc_conversation_id ctx' = Some cid"
    "rc_conversation_version ctx' = Some (current_version cid db')"
    "rehydrate_snapshot (te_codec env) cid (Some db') = rehydrate_snapshot (te_codec env) cid (Some db)"
  note locked = conversation_execute_turn_locked [OF db'(2,3) assms(5,6), of now' s]
  have "conversation_handler_snapshot env (rc_original_request ctx) (wd_db w') =
      conversation_handler_snapshot env (rc_original_request ctx) (wd_db w)"
    by (simp add: conversation_handler_snapshot_def assms(2,3) db'(1,4))
  with db'(1,3) locked show ?thesis by (auto simp: Let_def)
qed

text \<open>
  C34: losing the race is reported as such and nothing is written. When another turn changed
  the conversation after this one was rehydrated, persisting it fails with an error whose HTTP
  status is 400 and whose code says that the conversation is locked; the database is unchanged.
\<close>

theorem stale_conversation_turn_is_refused:
  assumes "rq_conversation_id (rc_original_request ctx) \<noteq> None"
    and "rc_conversation_id ctx = Some cid" "rc_conversation_version ctx = Some version"
    and "conversation_exists cid db" "version \<noteq> current_version cid db"
    and "serializes (te_codec env) draw (turn_items ctx None (rp_output payload)) (turn_metadata ctx search)"
    and "response_status_of_str (rp_status payload) \<in> {StatusCompleted, StatusIncomplete}" "rp_id payload \<noteq> ''''"
  shows "\<exists>e w'. persist_if_needed env draw now payload ctx search \<lparr>wd_db = Some db, wd_sessions = s\<rparr> = (Inl e, w')
    \<and> http_status e = 400 \<and> error_code e = ''conversation_locked'' \<and> wd_db w' = Some db"
proof -
  let ?w = "\<lparr>wd_db = Some db, wd_sessions = s\<rparr>"
  let ?run = "conversation_execute_turn env draw now ctx (rp_output payload) (turn_metadata ctx search) ?w"
  note locked = conversation_execute_turn_locked [OF assms(2-4,6), of now s]
  have run: "persist_prepared_response env draw now payload ctx search ?w = ?run" and should: "should_persist ctx"
    using assms(1,7,8) by (auto simp: persist_prepared_response_def persist_prepared_turn_def should_persist_def)
  from locked(1) assms(5) have lock: "is_locked (fst ?run)" by simp
  then obtain e where e: "fst ?run = Inl e" "contains_conversation_locked e"
    by (auto simp: is_locked_def split: sum.splits)
  with assms(2,3) obtain source where "e = ConversationLocked source"
    by (auto simp: conversation_execute_turn_def Let_def split: sum.splits if_splits)
  with e run should locked(2) [OF lock] show ?thesis
    by (cases ?run) (auto simp: persist_if_needed_def http_status_def error_code_def)
qed

section \<open>Call ids of a committed turn\<close>

definition output_call_ids :: "output_item list \<Rightarrow> string list" where
  "output_call_ids out = map snd (List.map_filter output_call out)"

lemma output_call_ids_Cons:
  "output_call_ids (x # xs) = (case output_call x of None \<Rightarrow> [] | Some (_, i) \<Rightarrow> [i]) @ output_call_ids xs"
  by (simp add: output_call_ids_def split: option.split prod.split)

lemma collect_call_ids_Inr:
  assumes "collect_call_ids n out m = Inr m'" "distinct (im_keys m)" "'''' \<notin> set (im_keys m)"
  shows "im_keys m' = im_keys m @ output_call_ids out" "distinct (im_keys m')" "'''' \<notin> set (im_keys m')"
proof -
  have "im_keys m' = im_keys m @ output_call_ids out \<and> distinct (im_keys m') \<and> '''' \<notin> set (im_keys m')"
    using assms
  proof (induction n out m rule: collect_call_ids.induct)
    case (1 n m)
    then show ?case by (simp add: output_call_ids_def)
  next
    case (2 n x xs m)
    show ?case
    proof (cases "output_call x")
      case None
      with 2 show ?thesis by (auto simp: output_call_ids_Cons)
    next
      case (Some r)
      obtain ty i where r: "r = (ty, i)" by force
      with Some 2(3) have i: "i \<noteq> ''''" "im_get m i = None"
        and rest: "collect_call_ids (Suc n) xs (im_insert i (n, ty) m) = Inr m'"
        by (auto split: if_splits option.splits)
      have "im_keys (im_insert i (n, ty) m) = im_keys m @ [i]" "i \<notin> set (im_keys m)"
        using i(2) by (simp_all add: im_keys_insert im_get_None_iff)
      with 2(2) [OF Some r [symmetric] i rest] 2(4,5) i(1) Some r show ?thesis by (auto simp: output_call_ids_Cons)
    qed
  qed
  then show "im_keys m' = im_keys m @ output_call_ids out" "distinct (im_keys m')" "'''' \<notin> set (im_keys m')" by blast+
qed

lemma check_call_ids_Inr: "check_call_ids origin m n ids = Inr () \<longleftrightarrow> (\<forall>i. Some i \<in> set ids \<longrightarrow> im_get m i = None)"
  by (induction ids arbitrary: n) (auto split: option.splits bind_splits)

text \<open>The call ids already taken: those of the history, and those of the request's own items.\<close>

definition taken_call_ids :: "turn_env \<Rightarrow> request_context \<Rightarrow> world \<Rightarrow> string option list" where
  "taken_call_ids env ctx w =
     (if rc_continuation ctx \<noteq> None
      then map input_call_id (model_items (rq_input (rc_enriched_request ctx)))
      else
        (case response_handler_rehydrate env (rc_original_request ctx) (wd_db w) of
           Inl _ \<Rightarrow> [] | Inr history \<Rightarrow> map stored_call_id history)
        @ map input_call_id (rc_new_input_items ctx))"

lemma validate_output_call_ids_Inr:
  assumes "validate_output_call_ids env ctx out w = Inr ()"
  shows "distinct (output_call_ids out) \<and> '''' \<notin> set (output_call_ids out)
    \<and> (\<forall>i \<in> set (output_call_ids out). Some i \<notin> set (taken_call_ids env ctx w))"
proof -
  from assms obtain m where m: "collect_call_ids 0 out [] = Inr m"
    by (auto simp: validate_output_call_ids_def)
  note keys = collect_call_ids_Inr [OF m, simplified]
  have "im_get m i = None" if "m \<noteq> []" "Some i \<in> set (taken_call_ids env ctx w)" for i
    using assms that
    by (auto simp: validate_output_call_ids_def m taken_call_ids_def check_call_ids_Inr and_then_eq_Inr
        split: if_splits sum.splits)
  then have "Some i \<notin> set (taken_call_ids env ctx w)" if "i \<in> set (im_keys m)" for i
    using that im_get_None_iff [of m i] by (cases m) auto
  with keys show ?thesis by simp
qed

text \<open>
  C37: a committed turn reuses no call id. When a finished turn that was run elsewhere is
  committed, every tool call of its output has a call id, no two calls share one, and none of
  them was used in the history the turn continued or in the request's own items; the payload
  is returned unchanged.
\<close>

theorem committed_call_ids_are_new:
  assumes "commit_turn env draw now ctx payload w = (Inr payload', w')"
    and "response_status_of_str (rp_status payload) \<in> {StatusCompleted, StatusIncomplete}"
  shows "payload' = payload \<and> distinct (output_call_ids (rp_output payload)) \<and> '''' \<notin> set (output_call_ids (rp_output payload))
    \<and> (\<forall>i \<in> set (output_call_ids (rp_output payload)). Some i \<notin> set (taken_call_ids env ctx w))"
proof -
  from assms have "validate_output_call_ids env ctx (rp_output payload) w = Inr ()" "payload' = payload"
    by (auto simp: commit_turn_def Let_def split: if_splits sum.splits prod.splits)
  with validate_output_call_ids_Inr show ?thesis by blast
qed

section \<open>Examples\<close>

definition talk_request :: request_payload where
  "talk_request = (chat_request None)\<lparr>rq_conversation_id := Some ''c''\<rparr>"

definition talk_context :: "conversation_version option \<Rightarrow> request_context" where
  "talk_context version = (initial_context demo_printers ''r1'' talk_request None)
     \<lparr>rc_conversation_id := Some ''c'', rc_conversation_version := version\<rparr>"

definition call_output :: "string \<Rightarrow> output_item" where
  "call_output i = OutFunctionCall \<lparr>fc_id = ''fc'', fc_call_id = i, fc_name = ''f'', fc_namespace = None,
     fc_arguments = ''x'', fc_status = MessageCompleted\<rparr>"

definition done_payload :: "output_item list \<Rightarrow> response_payload" where
  "done_payload out = \<lparr>rp_id = ''r1'', rp_object = ''response'', rp_created_at = 0, rp_model = ''m'',
     rp_status = ''completed'', rp_output = out, rp_usage = None, rp_incomplete_details = None, rp_error = None,
     rp_previous_response_id = None, rp_conversation_id = None, rp_instructions = None, rp_tools = None,
     rp_tool_choice = None\<rparr>"

lemma conversation_turn_is_compare_and_swap_witness:
  "\<exists>ctx' w'. from_conversation (chat_env (chat_metadata None)) 2 (initial_context demo_printers ''r1'' talk_request None)
        \<lparr>wd_db = Some talk_database, wd_sessions = empty_store\<rparr> = (Inr ctx', w')
     \<and> is_locked (fst (conversation_execute_turn (chat_env (chat_metadata None)) next_draw 3 ctx' [] (chat_metadata None)
         \<lparr>wd_db = Some (talk_database\<lparr>db_items := []\<rparr>), wd_sessions = empty_store\<rparr>))"
proof -
  let ?env = "chat_env (chat_metadata None)" and ?ctx = "initial_context demo_printers ''r1'' talk_request None"
    and ?w = "\<lparr>wd_db = Some talk_database, wd_sessions = empty_store\<rparr>" and ?later = "talk_database\<lparr>db_items := []\<rparr>"
  let ?ctx' = "(set_input [chat_message, chat_message] ?ctx)
    \<lparr>rc_conversation_id := Some ''c'', rc_conversation_version := Some (LastSequence 0)\<rparr>"
  have run: "from_conversation ?env 2 ?ctx ?w = (Inr ?ctx', ?w)" by code_simp
  have cid: "rq_conversation_id (rc_original_request ?ctx) = Some ''c''" and db: "wd_db ?w = Some talk_database"
    and fk: "foreign_keys_ok talk_database" and exists: "conversation_exists ''c'' ?later"
    and ser: "serializes (te_codec ?env) next_draw (turn_items ?ctx' None []) (chat_metadata None)" by code_simp+
  have "current_version ''c'' ?later \<noteq> current_version ''c'' talk_database" by code_simp
  with conversation_turn_is_compare_and_swap [OF run cid db fk exists ser, of 3 empty_store] run db
  show ?thesis by (auto simp: Let_def)
qed

lemma stale_conversation_turn_is_refused_witness:
  "\<exists>e w'. persist_if_needed (chat_env (chat_metadata None)) next_draw 3 (done_payload []) (talk_context (Some EmptyVersion)) None
       \<lparr>wd_db = Some talk_database, wd_sessions = empty_store\<rparr> = (Inl e, w')
     \<and> http_status e = 400 \<and> wd_db w' = Some talk_database"
proof -
  let ?ctx = "talk_context (Some EmptyVersion)"
  have "rq_conversation_id (rc_original_request ?ctx) \<noteq> None" "rc_conversation_id ?ctx = Some ''c''"
    "rc_conversation_version ?ctx = Some EmptyVersion" "conversation_exists ''c'' talk_database"
    "EmptyVersion \<noteq> current_version ''c'' talk_database"
    "serializes (te_codec (chat_env (chat_metadata None))) next_draw (turn_items ?ctx None (rp_output (done_payload [])))
       (turn_metadata ?ctx None)"
    "response_status_of_str (rp_status (done_payload [])) \<in> {StatusCompleted, StatusIncomplete}" "rp_id (done_payload []) \<noteq> ''''"
    by code_simp+
  from stale_conversation_turn_is_refused [OF this] show ?thesis by blast
qed

lemma committed_call_ids_are_new_witness:
  "output_call_ids [call_output ''x''] = [''x''] \<and> Some ''x'' \<notin> set (taken_call_ids demo_env
     (initial_context demo_printers ''r1'' demo_request None) \<lparr>wd_db = None, wd_sessions = empty_store\<rparr>)"
proof -
  have "commit_turn demo_env next_draw 3 (initial_context demo_printers ''r1'' demo_request None) (done_payload [call_output ''x''])
      \<lparr>wd_db = None, wd_sessions = empty_store\<rparr>
    = (Inr (done_payload [call_output ''x'']), \<lparr>wd_db = None, wd_sessions = empty_store\<rparr>)" by code_simp
  from committed_call_ids_are_new [OF this] show ?thesis
    by (simp add: done_payload_def response_status_of_str_def output_call_ids_def call_output_def)
qed

end
