(* ===== verification/Proxy.thy ===== *)
theory Proxy
  imports Errors Normalize
begin

text \<open>
  The raw proxy and the header rules it shares with the executor, \<open>proxy.rs\<close>. A header map is
  the list of its entries with lower-case names, as the \<open>http\<close> crate keeps them; that crate's
  reading of a header name and its check of a header value are parameters. What the HTTP
  client answers is a \<open>http_reply\<close>: no reply, with or without a timeout, or a status, headers
  and the reads of the body.
\<close>

section \<open>Headers\<close>

record header_rules =
  hr_name :: "string \<Rightarrow> string option"
  hr_value_ok :: "string \<Rightarrow> bool"

definition ascii_lower_char :: "char \<Rightarrow> char" where
  "ascii_lower_char b =
     (if 0x41 \<le> (of_char b :: nat) \<and> (of_char b :: nat) \<le> 0x5A then char_of ((of_char b :: nat) + 32) else b)"

definition ascii_lower :: "string \<Rightarrow> string" where
  "ascii_lower s = map ascii_lower_char s"

definition hop_by_hop :: "string list" where
  "hop_by_hop =
     [''connection'', ''keep-alive'', ''proxy-authenticate'', ''proxy-authorization'', ''te'', ''trailers'',
      ''transfer-encoding'', ''upgrade'']"

definition request_drop_extra :: "string list" where
  "request_drop_extra = [''host'', ''content-length'', ''accept-encoding'']"

definition processed_response_drop_extra :: "string list" where
  "processed_response_drop_extra = [''content-length'', ''content-encoding'']"

definition is_hop_by_hop :: "string \<Rightarrow> bool" where
  "is_hop_by_hop name \<longleftrightarrow> list_ex (\<lambda>h. ascii_lower h = ascii_lower name) hop_by_hop"

definition is_request_drop :: "string \<Rightarrow> bool" where
  "is_request_drop name \<longleftrightarrow>
     is_hop_by_hop name \<or> list_ex (\<lambda>h. ascii_lower h = ascii_lower name) request_drop_extra"

text \<open>\<open>split\<close> of a byte string at commas, and \<open>trim_ascii\<close>.\<close>

fun split_at :: "char \<Rightarrow> string \<Rightarrow> string list" where
  "split_at d [] = [[]]"
| "split_at d (b # s) =
     (if b = d then [] # split_at d s
      else (case split_at d s of [] \<Rightarrow> [[b]] | p # ps \<Rightarrow> (b # p) # ps))"

definition ascii_white_space :: "char \<Rightarrow> bool" where
  "ascii_white_space b \<longleftrightarrow> b \<in> {CHR 0x09, CHR 0x0A, CHR 0x0C, CHR 0x0D, CHR 0x20}"

definition trim_ascii :: "string \<Rightarrow> string" where
  "trim_ascii s = rev (dropWhile ascii_white_space (rev (dropWhile ascii_white_space s)))"

definition connection_options :: "header_rules \<Rightarrow> header_map \<Rightarrow> string list" where
  "connection_options hr headers =
     List.map_filter (\<lambda>option. hr_name hr (trim_ascii option))
       (concat (map (\<lambda>(_, value). split_at (CHR 0x2C) value) (filter (\<lambda>(name, _). name = ''connection'') headers)))"

definition header_insert :: "string \<Rightarrow> string \<Rightarrow> header_map \<Rightarrow> header_map" where
  "header_insert name value headers = filter (\<lambda>(n, _). n \<noteq> name) headers @ [(name, value)]"

definition header_remove :: "string \<Rightarrow> header_map \<Rightarrow> header_map" where
  "header_remove name headers = filter (\<lambda>(n, _). n \<noteq> name) headers"

definition header_get :: "string \<Rightarrow> header_map \<Rightarrow> string option" where
  "header_get name headers = map_of headers name"

definition copy_header :: "header_rules \<Rightarrow> string \<times> string \<Rightarrow> (string \<times> string) option" where
  "copy_header hr h =
     Option.bind (hr_name hr (fst h)) (\<lambda>n. if hr_value_ok hr (snd h) then Some (n, snd h) else None)"

section \<open>Credentials\<close>

record config =
  cf_llm_api_base :: string
  cf_openai_api_key :: "string option"

datatype proxy_auth = OpenAiBearer | Anthropic

fun auth_header :: "proxy_auth \<Rightarrow> string \<Rightarrow> string \<times> string" where
  "auth_header OpenAiBearer key = (''authorization'', ''Bearer '' @ key)"
| "auth_header Anthropic key = (''x-api-key'', key)"

definition upstream_request_headers :: "header_rules \<Rightarrow> config \<Rightarrow> proxy_auth \<Rightarrow> header_map \<Rightarrow> header_map" where
  "upstream_request_headers hr cfg auth headers =
     (let options = connection_options hr headers;
          out = List.map_filter (copy_header hr)
                  (filter (\<lambda>(name, _). \<not> (is_request_drop name \<or> name \<in> set options)) headers)
      in if header_get ''authorization'' out = None \<and> header_get ''x-api-key'' out = None
         then (case cf_openai_api_key cfg of
                 None \<Rightarrow> out
               | Some key \<Rightarrow>
                   let trimmed = str_trim key; (name, value) = auth_header auth trimmed
                   in if trimmed \<noteq> '''' \<and> hr_value_ok hr value then header_insert name value out else out)
         else out)"

definition filter_response_headers :: "header_rules \<Rightarrow> header_map \<Rightarrow> header_map" where
  "filter_response_headers hr headers =
     (let options = connection_options hr headers
      in List.map_filter (copy_header hr)
           (filter (\<lambda>(name, _). \<not> (is_hop_by_hop name \<or> name \<in> set options)) headers))"

definition processed_response_headers :: "header_rules \<Rightarrow> header_map \<Rightarrow> header_map" where
  "processed_response_headers hr headers =
     fold header_remove processed_response_drop_extra (filter_response_headers hr headers)"

section \<open>Proxied requests\<close>

datatype http_reply = Unsent bool | Reply status_code header_map "(executor_error + string) list"

datatype proxy_body = FullBody string | StreamBody "(executor_error + string) list"

record proxy_response =
  px_status :: status_code
  px_headers :: header_map
  px_body :: proxy_body

record proxy_request =
  pq_headers :: header_map
  pq_body :: string
  pq_query :: "string option"

record upstream_call =
  uc_streaming_client :: bool
  uc_url :: string
  uc_headers :: header_map
  uc_body :: "string option"

definition is_sse_content_type :: "header_map \<Rightarrow> bool" where
  "is_sse_content_type headers =
     (case filter_option (list_all (\<lambda>b. b = CHR 0x09 \<or> 0x20 \<le> (of_char b :: nat) \<and> (of_char b :: nat) < 0x7F))
             (header_get ''content-type'' headers) of
        None \<Rightarrow> False
      | Some ct \<Rightarrow> prefix ''text/event-stream'' (ascii_lower ct))"

definition error_response_for_auth ::
  "(json \<Rightarrow> string) \<Rightarrow> status_code \<Rightarrow> string \<Rightarrow> string \<Rightarrow> proxy_auth \<Rightarrow> proxy_response" where
  "error_response_for_auth to_text status code message auth =
     (let body = (case auth of
             OpenAiBearer \<Rightarrow> JObject [(''error'', JObject [(''message'', JString message),
               (''type'', JString ''api_error''), (''param'', JNull), (''code'', JString code)])]
           | Anthropic \<Rightarrow> JObject [(''type'', JString ''error''),
               (''error'', JObject [(''type'', JString ''api_error''), (''message'', JString message)])])
      in \<lparr>px_status = status, px_headers = [(''content-type'', ''application/json'')],
          px_body = FullBody (to_text body)\<rparr>)"

definition error_response :: "(json \<Rightarrow> string) \<Rightarrow> status_code \<Rightarrow> string \<Rightarrow> string \<Rightarrow> proxy_response" where
  "error_response to_text status code message = error_response_for_auth to_text status code message OpenAiBearer"

definition upstream_url :: "config \<Rightarrow> string \<Rightarrow> string option \<Rightarrow> string" where
  "upstream_url cfg path query =
     rev (dropWhile (\<lambda>b. b = CHR 0x2F) (rev (cf_llm_api_base cfg))) @ ''/'' @ dropWhile (\<lambda>b. b = CHR 0x2F) path
     @ (case query of None \<Rightarrow> '''' | Some q \<Rightarrow> ''?'' @ q)"

definition proxy_get_call :: "header_rules \<Rightarrow> config \<Rightarrow> string \<Rightarrow> header_map \<Rightarrow> upstream_call" where
  "proxy_get_call hr cfg path headers =
     \<lparr>uc_streaming_client = False, uc_url = upstream_url cfg path None,
      uc_headers = upstream_request_headers hr cfg OpenAiBearer headers, uc_body = None\<rparr>"

definition reply_status :: "status_code \<Rightarrow> status_code" where
  "reply_status status = (if 100 \<le> status \<and> status < 1000 then status else 502)"

definition proxy_get_reply :: "header_rules \<Rightarrow> (json \<Rightarrow> string) \<Rightarrow> http_reply \<Rightarrow> proxy_response" where
  "proxy_get_reply hr to_text reply =
     (case reply of
        Unsent timed_out \<Rightarrow>
          if timed_out then error_response to_text 504 ''upstream_timeout'' ''upstream timeout''
          else error_response to_text 502 ''upstream_unavailable'' ''upstream unavailable''
      | Reply status headers body \<Rightarrow>
          (case collect_results body of
             Inl _ \<Rightarrow> error_response to_text 502 ''upstream_unavailable'' ''failed to read upstream response''
           | Inr chunks \<Rightarrow> \<lparr>px_status = reply_status status, px_headers = filter_response_headers hr headers,
                            px_body = FullBody (concat chunks)\<rparr>))"

definition proxy_call ::
  "header_rules \<Rightarrow> codec \<Rightarrow> config \<Rightarrow> proxy_request \<Rightarrow> string \<Rightarrow> proxy_auth \<Rightarrow> upstream_call" where
  "proxy_call hr c cfg request path auth =
     \<lparr>uc_streaming_client = (case Option.bind (cd_parse c (pq_body request)) (\<lambda>v. json_get v ''stream'') of
          Some (JBool b) \<Rightarrow> b | _ \<Rightarrow> False),
      uc_url = upstream_url cfg path (pq_query request),
      uc_headers = upstream_request_headers hr cfg auth (pq_headers request),
      uc_body = Some (pq_body request)\<rparr>"

definition proxy_reply :: "header_rules \<Rightarrow> (json \<Rightarrow> string) \<Rightarrow> proxy_auth \<Rightarrow> http_reply \<Rightarrow> proxy_response" where
  "proxy_reply hr to_text auth reply =
     (case reply of
        Unsent timed_out \<Rightarrow>
          if timed_out then error_response_for_auth to_text 504 ''llm_timeout'' ''LLM timeout'' auth
          else error_response_for_auth to_text 502 ''llm_unavailable'' ''LLM unavailable'' auth
      | Reply status headers body \<Rightarrow>
          let response_headers = filter_response_headers hr headers
          in if is_sse_content_type headers
             then \<lparr>px_status = reply_status status,
                   px_headers = header_insert ''x-accel-buffering'' ''no'' response_headers, px_body = StreamBody body\<rparr>
             else
               (case collect_results body of
                  Inl _ \<Rightarrow> error_response_for_auth to_text 502 ''llm_unavailable'' ''Failed to read LLM response'' auth
                | Inr chunks \<Rightarrow> \<lparr>px_status = reply_status status, px_headers = response_headers,
                                 px_body = FullBody (concat chunks)\<rparr>))"

section \<open>What is forwarded\<close>

text \<open>A header map holds valid values under valid lower-case names.\<close>

definition header_map_ok :: "header_rules \<Rightarrow> header_map \<Rightarrow> bool" where
  "header_map_ok hr headers \<longleftrightarrow>
     list_all (\<lambda>(name, value). hr_name hr name = Some name \<and> hr_value_ok hr value \<and> ascii_lower name = name) headers"

definition end_to_end :: "header_rules \<Rightarrow> string list \<Rightarrow> header_map \<Rightarrow> header_map" where
  "end_to_end hr extra headers =
     filter (\<lambda>(name, _). name \<notin> set (hop_by_hop @ extra @ connection_options hr headers)) headers"

definition is_credential :: "string \<Rightarrow> bool" where
  "is_credential name \<longleftrightarrow> name = ''authorization'' \<or> name = ''x-api-key''"

definition configured_credential :: "header_rules \<Rightarrow> config \<Rightarrow> proxy_auth \<Rightarrow> header_map" where
  "configured_credential hr cfg auth =
     (case cf_openai_api_key cfg of
        None \<Rightarrow> []
      | Some key \<Rightarrow>
          if str_trim key \<noteq> '''' \<and> hr_value_ok hr (snd (auth_header auth (str_trim key)))
          then [auth_header auth (str_trim key)] else [])"

lemma ascii_lower_fixed:
  "list_ex (\<lambda>h. ascii_lower h = ascii_lower name) hop_by_hop \<longleftrightarrow> ascii_lower name \<in> set hop_by_hop"
  "list_ex (\<lambda>h. ascii_lower h = ascii_lower name) request_drop_extra \<longleftrightarrow> ascii_lower name \<in> set request_drop_extra"
proof -
  have "map ascii_lower hop_by_hop = hop_by_hop" "map ascii_lower request_drop_extra = request_drop_extra"
    by code_simp+
  then have "ascii_lower h = h" if "h \<in> set hop_by_hop \<or> h \<in> set request_drop_extra" for h
    using that by (metis map_eq_conv map_ident)
  then show "list_ex (\<lambda>h. ascii_lower h = ascii_lower name) hop_by_hop \<longleftrightarrow> ascii_lower name \<in> set hop_by_hop"
    "list_ex (\<lambda>h. ascii_lower h = ascii_lower name) request_drop_extra \<longleftrightarrow> ascii_lower name \<in> set request_drop_extra"
    by (auto simp: list_ex_iff)
qed

lemma copied_headers:
  assumes "header_map_ok hr headers"
  shows "List.map_filter (copy_header hr) (filter P headers) = filter P headers"
  using assms by (induction headers) (auto simp: header_map_ok_def copy_header_def List.map_filter_simps)

lemma filter_request_drop:
  assumes "header_map_ok hr headers"
  shows "filter (\<lambda>(name, _). \<not> is_request_drop name \<and> name \<notin> S) headers =
      filter (\<lambda>(name, _). name \<notin> set hop_by_hop \<and> name \<notin> set request_drop_extra \<and> name \<notin> S) headers"
    "filter (\<lambda>(name, _). \<not> is_hop_by_hop name \<and> name \<notin> S) headers =
      filter (\<lambda>(name, _). name \<notin> set hop_by_hop \<and> name \<notin> S) headers"
  using assms
  by (auto simp: header_map_ok_def list_all_iff is_request_drop_def is_hop_by_hop_def ascii_lower_fixed intro!: filter_cong)

text \<open>
  C35: what the proxy forwards. A request goes upstream with its end-to-end headers, in order
  and unchanged: no hop-by-hop header, none named by the connection header, none the HTTP client
  sets itself. The configured credential is added exactly when no credential is left, and it
  never replaces one. A processed response keeps its end-to-end headers but those that describe
  the body.
\<close>

theorem forwarded_headers:
  assumes "header_map_ok hr headers"
  shows "upstream_request_headers hr cfg auth headers =
      (let kept = end_to_end hr request_drop_extra headers
       in kept @ (if list_ex (\<lambda>(name, _). is_credential name) kept then [] else configured_credential hr cfg auth))
    \<and> filter_response_headers hr headers = end_to_end hr [] headers
    \<and> processed_response_headers hr headers = end_to_end hr processed_response_drop_extra headers"
proof -
  have kept: "List.map_filter (copy_header hr) (filter (\<lambda>(name, _). \<not> is_request_drop name \<and> name \<notin> set (connection_options hr headers)) headers)
      = end_to_end hr request_drop_extra headers"
    "filter_response_headers hr headers = end_to_end hr [] headers"
    using assms by (simp_all add: copied_headers filter_request_drop end_to_end_def filter_response_headers_def)
  have none: "header_get name out = None \<longleftrightarrow> \<not> list_ex (\<lambda>(n, _). n = name) out" for name out
    by (force simp: header_get_def map_of_eq_None_iff list_ex_iff)
  have insert_new: "header_insert name v out = out @ [(name, v)]" if "\<not> list_ex (\<lambda>(n, _). n = name) out" for name v out
    using that by (auto simp: header_insert_def list_ex_iff filter_id_conv)
  have cred: "list_ex (\<lambda>(name, _). is_credential name) out \<longleftrightarrow>
      list_ex (\<lambda>(n, _). n = ''authorization'') out \<or> list_ex (\<lambda>(n, _). n = ''x-api-key'') out" for out
    by (auto simp: list_ex_iff is_credential_def)
  have "processed_response_headers hr headers = end_to_end hr processed_response_drop_extra headers"
    unfolding processed_response_headers_def kept
    by (auto simp: processed_response_drop_extra_def header_remove_def end_to_end_def intro!: filter_cong)
  moreover have "upstream_request_headers hr cfg auth headers =
      (let kept = end_to_end hr request_drop_extra headers
       in kept @ (if list_ex (\<lambda>(name, _). is_credential name) kept then [] else configured_credential hr cfg auth))"
  proof (cases "list_ex (\<lambda>(name, _). is_credential name) (end_to_end hr request_drop_extra headers)")
    case True
    then show ?thesis using cred [of "end_to_end hr request_drop_extra headers"]
      by (auto simp: upstream_request_headers_def kept Let_def none)
  next
    case False
    with cred [of "end_to_end hr request_drop_extra headers"]
    have "\<not> list_ex (\<lambda>(n, _). n = ''authorization'') (end_to_end hr request_drop_extra headers)"
      "\<not> list_ex (\<lambda>(n, _). n = ''x-api-key'') (end_to_end hr request_drop_extra headers)" by auto
    with False insert_new [OF this(1)] insert_new [OF this(2)] show ?thesis
      by (cases auth; cases "cf_openai_api_key cfg")
        (simp_all add: upstream_request_headers_def kept Let_def none configured_credential_def)
  qed
  ultimately show ?thesis using kept(2) by simp
qed

definition plain_rules :: header_rules where
  "plain_rules = \<lparr>hr_name = Some \<circ> ascii_lower, hr_value_ok = (\<lambda>_. True)\<rparr>"

theorem forwarded_headers_witness:
  "upstream_request_headers plain_rules \<lparr>cf_llm_api_base = ''http://llm'', cf_openai_api_key = Some ''k ''\<rparr> Anthropic
     [(''host'', ''h''), (''connection'', ''X-Hop, te''), (''x-hop'', ''1''), (''accept'', ''a'')] =
   [(''accept'', ''a''), (''x-api-key'', ''k'')]"
proof -
  let ?h = "[(''host'', ''h''), (''connection'', ''X-Hop, te''), (''x-hop'', ''1''), (''accept'', ''a'')]"
  let ?cfg = "\<lparr>cf_llm_api_base = ''http://llm'', cf_openai_api_key = Some ''k ''\<rparr>"
  have "header_map_ok plain_rules ?h" "end_to_end plain_rules request_drop_extra ?h = [(''accept'', ''a'')]"
    "configured_credential plain_rules ?cfg Anthropic = [(''x-api-key'', ''k'')]"
    by code_simp+
  then show ?thesis
    using forwarded_headers [of plain_rules ?h ?cfg Anthropic] by (simp add: is_credential_def)
qed

end
