(* ===== verification/Transport.thy ===== *)
theory Transport
  imports Proxy
begin

text \<open>
  Reading the upstream body, \<open>executor/inference.rs\<close>: chunks of bytes are cut into lines, lines
  that are not UTF-8 are skipped, data lines are brought to one spelling and passed on, and
  bodies and lines are bounded. A body is the list of what the HTTP client returns for each
  read, a chunk or an error; the end of the list is the end of the body. A string is the
  sequence of its bytes.
\<close>

section \<open>UTF-8\<close>

text \<open>\<open>std::str::from_utf8\<close> succeeds exactly on the byte sequences of the Unicode standard, table 3-7.\<close>

definition byte_in :: "nat \<Rightarrow> nat \<Rightarrow> char \<Rightarrow> bool" where
  "byte_in lo hi b \<longleftrightarrow> lo \<le> (of_char b :: nat) \<and> (of_char b :: nat) \<le> hi"

abbreviation continuation_byte :: "char \<Rightarrow> bool" where
  "continuation_byte \<equiv> byte_in 0x80 0xBF"

fun utf8_second :: "char \<Rightarrow> char \<Rightarrow> bool" where
  "utf8_second a b =
     (if byte_in 0xE0 0xE0 a then byte_in 0xA0 0xBF b
      else if byte_in 0xED 0xED a then byte_in 0x80 0x9F b
      else if byte_in 0xF0 0xF0 a then byte_in 0x90 0xBF b
      else if byte_in 0xF4 0xF4 a then byte_in 0x80 0x8F b
      else continuation_byte b)"

definition utf8_width :: "char \<Rightarrow> nat" where
  "utf8_width a =
     (if byte_in 0 0x7F a then 1
      else if byte_in 0xC2 0xDF a then 2
      else if byte_in 0xE0 0xEF a then 3
      else if byte_in 0xF0 0xF4 a then 4
      else 0)"

fun utf8_valid :: "string \<Rightarrow> bool" where
  "utf8_valid [] = True"
| "utf8_valid (a # s) =
     (case utf8_width a of
        0 \<Rightarrow> False
      | Suc n \<Rightarrow> length (take n s) = n
          \<and> (n = 0 \<or> utf8_second a (hd s))
          \<and> list_all continuation_byte (take (n - 1) (tl s))
          \<and> utf8_valid (drop n s))"

section \<open>Cutting chunks into lines\<close>

definition newline :: char where
  "newline = CHR 0x0A"

definition carriage_return :: char where
  "carriage_return = CHR 0x0D"

definition max_sse_line_bytes :: usize where
  "max_sse_line_bytes = 256 * 1024"

definition max_executor_response_bytes :: usize where
  "max_executor_response_bytes = 1024 * 1024"

definition line_too_long :: executor_error where
  "line_too_long = StreamError (''upstream SSE line exceeded '' @ show_nat max_sse_line_bytes @ '' bytes'')"

function drain_complete_utf8_lines :: "string \<Rightarrow> executor_error + string list \<times> string" where
  "drain_complete_utf8_lines buffer =
     (let pos = length (takeWhile (\<lambda>b. b \<noteq> newline) buffer) in
      if pos < length buffer
      then if max_sse_line_bytes < pos
           then Inl line_too_long
           else
             let line_end = (if 0 < pos \<and> buffer ! (pos - 1) = carriage_return then pos - 1 else pos);
                 line = take line_end buffer
             in (case drain_complete_utf8_lines (drop (Suc pos) buffer) of
                   Inl e \<Rightarrow> Inl e
                 | Inr (lines, rest) \<Rightarrow> Inr (if utf8_valid line then line # lines else lines, rest))
      else if max_sse_line_bytes < length buffer
      then Inl line_too_long
      else Inr ([], buffer))"
  by pat_completeness auto
termination by (relation "measure length") auto

declare drain_complete_utf8_lines.simps [simp del]

text \<open>The lines of one chunk that are passed on, and whether the end marker was met.\<close>

definition done_marker_data :: string where
  "done_marker_data = ''[DONE]''"

fun forward_lines :: "string list \<Rightarrow> string list \<times> bool" where
  "forward_lines [] = ([], False)"
| "forward_lines (line # lines) =
     (case str_strip_prefix ''data:'' line of
        None \<Rightarrow> forward_lines lines
      | Some data \<Rightarrow>
          if unwrap_or (str_strip_prefix '' '' data) data = done_marker_data
          then ([], True)
          else
            let line' = (if prefix '' '' data then line else ''data:'' @ '' '' @ data);
                (rest, fin) = forward_lines lines
            in (line' # rest, fin))"

fun response_lines :: "string \<Rightarrow> (executor_error + string) list \<Rightarrow> (executor_error + string) list" where
  "response_lines buf [] = []"
| "response_lines buf (Inl e # chunks) = [Inl e]"
| "response_lines buf (Inr chunk # chunks) =
     (case drain_complete_utf8_lines (buf @ chunk) of
        Inl e \<Rightarrow> [Inl e]
      | Inr (lines, buf') \<Rightarrow>
          let (ys, fin) = forward_lines lines
          in map Inr ys @ (if fin then [] else response_lines buf' chunks))"

section \<open>Whole bodies\<close>

definition body_too_long :: executor_error where
  "body_too_long = StreamError (''upstream response exceeded '' @ show_nat max_executor_response_bytes @ '' bytes'')"

definition extend_body :: "string \<Rightarrow> string \<Rightarrow> executor_error + string" where
  "extend_body body chunk =
     (if max_executor_response_bytes - length body < length chunk then Inl body_too_long else Inr (body @ chunk))"

fun read_body :: "string \<Rightarrow> (executor_error + string) list \<Rightarrow> executor_error + string" where
  "read_body body [] = Inr body"
| "read_body body (r # chunks) = and_then r (\<lambda>chunk. and_then (extend_body body chunk) (\<lambda>b. read_body b chunks))"

definition response_text_limited :: "(executor_error + string) list \<Rightarrow> executor_error + string" where
  "response_text_limited chunks =
     and_then (read_body [] chunks) (\<lambda>body.
       if utf8_valid body then Inr body
       else Inl (StreamError ''upstream response body was not valid UTF-8''))"

section \<open>Sending the request\<close>

text \<open>The \<open>http\<close> crate admits status codes of three digits.\<close>

definition send_request ::
  "header_rules \<Rightarrow> http_reply \<Rightarrow> executor_error + (executor_error + string) list" where
  "send_request hr reply =
     (case reply of
        Unsent timed_out \<Rightarrow>
          Inl (if timed_out then LLMTransport 504 ''LLM timeout'' else LLMTransport 502 ''LLM unavailable'')
      | Reply status headers body \<Rightarrow>
          if 200 \<le> status \<and> status < 300
          then Inr body
          else Inl (LLMRequest (if 100 \<le> status \<and> status < 1000 then status else 500)
                 (case response_text_limited body of Inl _ \<Rightarrow> '''' | Inr text \<Rightarrow> text)
                 (processed_response_headers hr headers)))"

definition fetch_response_json :: "header_rules \<Rightarrow> http_reply \<Rightarrow> executor_error + string" where
  "fetch_response_json hr reply = and_then (send_request hr reply) response_text_limited"

definition call_inference :: "header_rules \<Rightarrow> http_reply \<Rightarrow> (executor_error + string) list" where
  "call_inference hr reply =
     (case send_request hr reply of Inl e \<Rightarrow> [Inl e] | Inr body \<Rightarrow> response_lines [] body)"

section \<open>Lines do not depend on the chunks\<close>

text \<open>The reference: cut the whole body at newlines, drop the unfinished last line.\<close>

definition strip_cr :: "string \<Rightarrow> string" where
  "strip_cr line = (if line \<noteq> [] \<and> last line = carriage_return then butlast line else line)"

definition body_lines :: "string \<Rightarrow> string list" where
  "body_lines body = filter utf8_valid (map strip_cr (butlast (split_at newline body)))"

definition lines_within_limit :: "string \<Rightarrow> bool" where
  "lines_within_limit body \<longleftrightarrow> list_all (\<lambda>l. length l \<le> max_sse_line_bytes) (split_at newline body)"

lemma split_at_nonempty [simp]: "split_at d s \<noteq> []"
  by (cases s) (auto split: list.splits)

lemma split_at_no_delimiter: "d \<notin> set s \<Longrightarrow> split_at d s = [s]"
  by (induction s) auto

lemma split_at_first: "d \<notin> set p \<Longrightarrow> split_at d (p @ d # s) = p # split_at d s"
  by (induction p) (auto split: list.splits)

lemma split_at_cases:
  obtains "d \<notin> set s" "split_at d s = [s]"
  | p t where "s = p @ d # t" "d \<notin> set p" "split_at d s = p # split_at d t"
proof (cases "d \<in> set s")
  case True
  then obtain p t where "s = p @ d # t" "d \<notin> set p" by (blast dest: split_list_first)
  then show thesis using that(2) by (simp add: split_at_first)
next
  case False
  then show thesis using that(1) by (simp add: split_at_no_delimiter)
qed

lemma split_at_last: "d \<notin> set (last (split_at d s))"
proof (induction "length s" arbitrary: s rule: less_induct)
  case less
  show ?case
    by (cases s rule: split_at_cases [of d]) (use less in auto)
qed

lemma split_at_append:
  "split_at d (s @ t) = butlast (split_at d s) @ split_at d (last (split_at d s) @ t)"
proof (induction "length s" arbitrary: s rule: less_induct)
  case less
  show ?case
  proof (cases s rule: split_at_cases [of d])
    case (2 p r)
    with less [of r] show ?thesis by (simp add: split_at_first)
  qed simp
qed

lemma drain_partial:
  "newline \<notin> set buffer \<Longrightarrow> drain_complete_utf8_lines buffer =
     (if max_sse_line_bytes < length buffer then Inl line_too_long else Inr ([], buffer))"
proof -
  assume "newline \<notin> set buffer"
  then have whole: "takeWhile (\<lambda>b. b \<noteq> newline) buffer = buffer"
    by (auto simp: takeWhile_eq_all_conv)
  show ?thesis by (subst drain_complete_utf8_lines.simps) (simp add: whole)
qed

lemma drain_line:
  assumes "newline \<notin> set p"
  shows "drain_complete_utf8_lines (p @ newline # t) =
     (if max_sse_line_bytes < length p then Inl line_too_long
      else and_then (drain_complete_utf8_lines t)
        (\<lambda>(ls, rest). Inr (filter utf8_valid [strip_cr p] @ ls, rest)))"
proof -
  have "takeWhile (\<lambda>b. b \<noteq> newline) (p @ newline # t) = p"
    using assms by (subst takeWhile_append2) auto
  moreover have "take (if 0 < length p \<and> (p @ newline # t) ! (length p - 1) = carriage_return
      then length p - 1 else length p) (p @ newline # t) = strip_cr p"
    by (auto simp: strip_cr_def nth_append last_conv_nth butlast_conv_take)
  ultimately show ?thesis
    by (subst drain_complete_utf8_lines.simps)
      (auto simp: Let_def and_then_def split: sum.splits)
qed

lemma drain_complete:
  "drain_complete_utf8_lines buffer =
     (if lines_within_limit buffer then Inr (body_lines buffer, last (split_at newline buffer)) else Inl line_too_long)"
proof (induction "length buffer" arbitrary: buffer rule: less_induct)
  case less
  show ?case
  proof (cases buffer rule: split_at_cases [of newline])
    case 1
    then show ?thesis by (simp add: drain_partial body_lines_def lines_within_limit_def)
  next
    case (2 p t)
    with less.hyps [of t] show ?thesis
      by (simp add: drain_line body_lines_def lines_within_limit_def)
  qed
qed

lemma forward_lines_append:
  "fst (forward_lines (xs @ ys)) =
     fst (forward_lines xs) @ (if snd (forward_lines xs) then [] else fst (forward_lines ys))"
  by (induction xs) (auto split: option.splits prod.splits simp: Let_def)

lemma body_lines_append:
  "body_lines (s @ t) = body_lines s @ body_lines (last (split_at newline s) @ t)"
  unfolding body_lines_def by (subst split_at_append) (simp add: butlast_append)

lemma lines_within_limit_append:
  "lines_within_limit (s @ t) \<longleftrightarrow> list_all (\<lambda>l. length l \<le> max_sse_line_bytes) (butlast (split_at newline s))
     \<and> lines_within_limit (last (split_at newline s) @ t)"
  unfolding lines_within_limit_def by (subst split_at_append) simp

lemma lines_within_limit_prefix: "lines_within_limit (s @ t) \<Longrightarrow> lines_within_limit s"
proof (induction "length s" arbitrary: s rule: less_induct)
  case less
  show ?case
  proof (cases s rule: split_at_cases [of newline])
    case 1
    have "length s \<le> length (hd (split_at newline (s @ t)))"
    proof (cases t rule: split_at_cases [of newline])
      case 1
      with \<open>newline \<notin> set s\<close> show ?thesis by (simp add: split_at_no_delimiter)
    next
      case (2 p r)
      with \<open>newline \<notin> set s\<close> split_at_first [of newline "s @ p" r] show ?thesis by simp
    qed
    moreover have "length (hd (split_at newline (s @ t))) \<le> max_sse_line_bytes"
      using less.prems by (simp add: lines_within_limit_def list_all_iff)
    ultimately show ?thesis using 1 by (simp add: lines_within_limit_def)
  next
    case (2 p r)
    with less show ?thesis by (auto simp: lines_within_limit_def split_at_first)
  qed
qed

lemma response_lines_chunked:
  "newline \<notin> set buf \<Longrightarrow> lines_within_limit (buf @ concat chunks) \<Longrightarrow>
     response_lines buf (map Inr chunks) = map Inr (fst (forward_lines (body_lines (buf @ concat chunks))))"
proof (induction chunks arbitrary: buf)
  case Nil
  then show ?case by (simp add: body_lines_def split_at_no_delimiter)
next
  case (Cons chunk chunks)
  let ?s = "buf @ chunk"
  from Cons.prems have all: "lines_within_limit (?s @ concat chunks)" by simp
  from all have "lines_within_limit ?s" by (rule lines_within_limit_prefix)
  with drain_complete [of ?s] have drain: "drain_complete_utf8_lines ?s = Inr (body_lines ?s, last (split_at newline ?s))"
    by simp
  have rest: "response_lines (last (split_at newline ?s)) (map Inr chunks) =
      map Inr (fst (forward_lines (body_lines (last (split_at newline ?s) @ concat chunks))))"
    using all lines_within_limit_append [of ?s "concat chunks"]
    by (intro Cons.IH split_at_last) (rule conjunct2, blast)
  show ?case
    using body_lines_append [of ?s "concat chunks"]
    by (simp add: drain rest forward_lines_append split: prod.splits)
qed

text \<open>Without the limit: what is read before an over-long line stops the reader is the start of the same lines.\<close>

lemma response_lines_any:
  assumes "newline \<notin> set buf"
  shows "response_lines buf (map Inr chunks) = map Inr (fst (forward_lines (body_lines (buf @ concat chunks))))
    \<or> \<not> lines_within_limit (buf @ concat chunks)
      \<and> (\<exists>xs. prefix xs (fst (forward_lines (body_lines (buf @ concat chunks))))
           \<and> response_lines buf (map Inr chunks) = map Inr xs @ [Inl line_too_long])"
  using assms
proof (induction chunks arbitrary: buf)
  case Nil
  then show ?case by (simp add: body_lines_def split_at_no_delimiter)
next
  case (Cons chunk chunks)
  let ?s = "buf @ chunk"
  let ?rest = "last (split_at newline ?s)"
  show ?case
  proof (cases "lines_within_limit ?s")
    case False
    then have "\<not> lines_within_limit (?s @ concat chunks)" using lines_within_limit_prefix by blast
    with False show ?thesis by (auto simp: drain_complete)
  next
    case True
    have lines: "fst (forward_lines (body_lines (buf @ concat (chunk # chunks)))) =
        fst (forward_lines (body_lines ?s)) @ (if snd (forward_lines (body_lines ?s)) then []
          else fst (forward_lines (body_lines (?rest @ concat chunks))))"
      using body_lines_append [of ?s "concat chunks"] by (simp add: forward_lines_append)
    have here: "response_lines buf (map Inr (chunk # chunks)) = map Inr (fst (forward_lines (body_lines ?s)))
        @ (if snd (forward_lines (body_lines ?s)) then [] else response_lines ?rest (map Inr chunks))"
      using True by (simp add: drain_complete split: prod.splits)
    have limit: "lines_within_limit (buf @ concat (chunk # chunks)) \<Longrightarrow> lines_within_limit (?rest @ concat chunks)"
      using lines_within_limit_append [of ?s "concat chunks"] by simp
    show ?thesis
    proof (cases "snd (forward_lines (body_lines ?s))")
      case True
      then show ?thesis by (simp only: lines here if_True append_Nil2 simp_thms)
    next
      case False
      from Cons.IH [OF split_at_last [of newline ?s]] show ?thesis
      proof (elim disjE conjE exE)
        assume "response_lines ?rest (map Inr chunks) = map Inr (fst (forward_lines (body_lines (?rest @ concat chunks))))"
        with False show ?thesis by (simp only: lines here if_False map_append simp_thms)
      next
        fix xs
        assume "\<not> lines_within_limit (?rest @ concat chunks)"
          "prefix xs (fst (forward_lines (body_lines (?rest @ concat chunks))))"
          "response_lines ?rest (map Inr chunks) = map Inr xs @ [Inl line_too_long]"
        with False limit show ?thesis
          by (intro disjI2 conjI exI [of _ "fst (forward_lines (body_lines ?s)) @ xs"])
            (auto simp only: lines here if_False map_append append_assoc same_prefix_prefix)
      qed
    qed
  qed
qed

text \<open>
  C21: what the executor reads does not depend on how the network cut the body into chunks, up to
  the limit on lines. It passes on the lines of the whole body, cut at newlines once, without the
  unfinished last line and without everything from the end marker on; only when some line is
  longer than the limit may it stop instead with that error, and then what it passed on before is
  the start of the same lines, where the chunks say how much of it.
\<close>

theorem lines_do_not_depend_on_chunks:
  "response_lines [] (map Inr chunks) = map Inr (fst (forward_lines (body_lines (concat chunks))))
   \<or> \<not> lines_within_limit (concat chunks)
     \<and> (\<exists>xs. prefix xs (fst (forward_lines (body_lines (concat chunks))))
          \<and> response_lines [] (map Inr chunks) = map Inr xs @ [Inl line_too_long])"
  using response_lines_any [of "[]" chunks] by simp

theorem lines_do_not_depend_on_chunks_witness:
  "response_lines [] (map Inr [''data:{'', ''}'' @ [newline] @ ''data'', '': [DONE]'' @ [newline]]) = [Inr ''data: {}'']"
proof -
  let ?chunks = "[''data:{'', ''}'' @ [newline] @ ''data'', '': [DONE]'' @ [newline]]"
  have "split_at newline (concat ?chunks) = [''data:{}'', ''data: [DONE]'', []]"
    by (simp add: newline_def)
  then have "lines_within_limit (concat ?chunks)" "body_lines (concat ?chunks) = [''data:{}'', ''data: [DONE]'']"
    by (simp_all add: lines_within_limit_def max_sse_line_bytes_def body_lines_def strip_cr_def carriage_return_def
        utf8_width_def byte_in_def)
  moreover have "fst (forward_lines [''data:{}'', ''data: [DONE]'']) = [''data: {}'']"
    by (simp add: str_strip_prefix_def done_marker_data_def)
  ultimately show ?thesis
    using lines_do_not_depend_on_chunks [of ?chunks] by simp
qed

section \<open>Bounds\<close>

lemma split_at_parts: "p \<in> set (split_at d s) \<Longrightarrow> d \<notin> set p"
  by (induction s arbitrary: p) (auto split: if_splits list.splits)

lemma body_lines_line:
  assumes "lines_within_limit body" "line \<in> set (body_lines body)"
  shows "length line \<le> max_sse_line_bytes \<and> utf8_valid line"
proof -
  from assms(2) obtain l where l: "l \<in> set (butlast (split_at newline body))" "line = strip_cr l" "utf8_valid line"
    by (auto simp: body_lines_def)
  from l(1) assms(1) have "length l \<le> max_sse_line_bytes"
    by (auto simp: lines_within_limit_def list_all_iff dest: in_set_butlastD)
  with l show ?thesis by (auto simp: strip_cr_def)
qed

definition forwarded :: "executor_error + string \<Rightarrow> bool" where
  "forwarded r \<longleftrightarrow>
     (case r of Inl _ \<Rightarrow> True
      | Inr line \<Rightarrow> prefix ''data: '' line \<and> line \<noteq> ''data: '' @ done_marker_data
          \<and> length line \<le> Suc max_sse_line_bytes)"

lemma forward_lines_forwarded:
  "(\<And>l. l \<in> set ls \<Longrightarrow> length l \<le> max_sse_line_bytes) \<Longrightarrow> list_all (\<lambda>l. forwarded (Inr l)) (fst (forward_lines ls))"
proof (induction ls)
  case (Cons l ls)
  have IH: "list_all (\<lambda>l. forwarded (Inr l)) (fst (forward_lines ls))" and len: "length l \<le> max_sse_line_bytes"
    using Cons by auto
  show ?case
  proof (cases "str_strip_prefix ''data:'' l")
    case None
    with IH show ?thesis by simp
  next
    case (Some data)
    then have l: "l = ''data:'' @ data" by (simp only: str_strip_prefix_iff)
    have "forwarded (Inr (if prefix '' '' data then l else ''data:'' @ '' '' @ data))"
      if "unwrap_or (str_strip_prefix '' '' data) data \<noteq> done_marker_data"
      using that len by (auto simp: forwarded_def l str_strip_prefix_def prefix_def done_marker_data_def)
    with IH Some show ?thesis by (auto simp: Let_def split: prod.splits)
  qed
qed simp

lemma response_lines_forwarded: "list_all forwarded (response_lines buf chunks)"
proof (induction buf chunks rule: response_lines.induct)
  case (3 buf chunk chunks)
  show ?case
  proof (cases "lines_within_limit (buf @ chunk)")
    case True
    with body_lines_line have "list_all (\<lambda>l. forwarded (Inr l)) (fst (forward_lines (body_lines (buf @ chunk))))"
      by (intro forward_lines_forwarded) blast
    moreover obtain ys fin where ys: "forward_lines (body_lines (buf @ chunk)) = (ys, fin)" by force
    moreover have "list_all forwarded (response_lines (last (split_at newline (buf @ chunk))) chunks)" if "\<not> fin"
      using 3 [OF _ refl _ _ that] True ys by (simp add: drain_complete)
    ultimately show ?thesis
      using True by (cases fin) (auto simp: drain_complete list_all_iff)
  qed (simp add: drain_complete forwarded_def)
qed (simp_all add: forwarded_def)

lemma read_body_Inr:
  "length body \<le> max_executor_response_bytes \<Longrightarrow> read_body body chunks = Inr text \<longleftrightarrow>
     (\<exists>cs. chunks = map Inr cs \<and> text = body @ concat cs \<and> length text \<le> max_executor_response_bytes)"
proof (induction chunks arbitrary: body)
  case Nil
  then show ?case by auto
next
  case (Cons r chunks)
  show ?case
  proof (cases r)
    case (Inl e)
    then show ?thesis by auto
  next
    case (Inr chunk)
    show ?thesis
    proof (cases "length body + length chunk \<le> max_executor_response_bytes")
      case True
      then have "extend_body body chunk = Inr (body @ chunk)" by (auto simp: extend_body_def)
      moreover have "(\<exists>cs. Inr chunk # chunks = map Inr cs \<and> text = body @ concat cs \<and> P) \<longleftrightarrow>
          (\<exists>cs. chunks = map Inr cs \<and> text = body @ chunk @ concat cs \<and> P)" for P
        by (auto simp: Cons_eq_map_conv)
      ultimately show ?thesis using Inr True Cons.IH [of "body @ chunk"] by simp
    next
      case False
      then have "extend_body body chunk = Inl body_too_long" using Cons.prems by (auto simp: extend_body_def)
      with Inr False show ?thesis by (auto simp: Cons_eq_map_conv)
    qed
  qed
qed

text \<open>
  C36: what is read from the upstream server is bounded. A whole body is accepted exactly when
  every read succeeded, the bytes together stay within the response limit and are UTF-8; every
  line passed on is a data line in one spelling, within the line limit, and never the end marker;
  and between two reads no more than one line's worth of bytes is kept.
\<close>

theorem upstream_reads_are_bounded:
  "(response_text_limited chunks = Inr text \<longleftrightarrow>
      (\<exists>cs. chunks = map Inr cs \<and> text = concat cs \<and> length text \<le> max_executor_response_bytes \<and> utf8_valid text))
   \<and> list_all forwarded (response_lines buf chunks)
   \<and> (case drain_complete_utf8_lines buf of
        Inl e \<Rightarrow> e = line_too_long \<and> \<not> lines_within_limit buf
      | Inr (ls, rest) \<Rightarrow> length rest \<le> max_sse_line_bytes \<and> newline \<notin> set rest)"
proof -
  have "lines_within_limit buf \<Longrightarrow> length (last (split_at newline buf)) \<le> max_sse_line_bytes"
    by (simp add: lines_within_limit_def list_all_iff)
  moreover have "response_text_limited chunks = Inr text \<longleftrightarrow>
      (\<exists>cs. chunks = map Inr cs \<and> text = concat cs \<and> length text \<le> max_executor_response_bytes \<and> utf8_valid text)"
    using read_body_Inr [of "[]" chunks]
    by (auto simp: response_text_limited_def result_simps split: if_splits)
  ultimately show ?thesis
    using response_lines_forwarded [of buf chunks] split_at_last [of newline buf] by (simp add: drain_complete)
qed

end
