(* ===== verification/Namespaces.thy ===== *)
theory Namespaces
  imports Transport
begin

text \<open>
  Codex namespaces, \<open>tool/codex.rs\<close>: the model sees flat function names, the client sees members of
  a namespace. The flat names are computed from the declarations of the request, collisions are
  refused, and the map kept for the request leads back from a flat name to the member.
\<close>

unbundle bit_operations_syntax

section \<open>Flat names\<close>

datatype tool_type =
    FunctionType | ToolSearchType | CustomType | ShellType | CodexNamespaceType | McpType | WebSearchType
  | FileSearchType | CodeInterpreterType

fun tool_type_description :: "tool_type \<Rightarrow> string" where
  "tool_type_description FunctionType = ''function tool''"
| "tool_type_description ToolSearchType = ''tool search''"
| "tool_type_description CustomType = ''custom tool''"
| "tool_type_description ShellType = ''shell tool''"
| "tool_type_description CodexNamespaceType = ''Codex namespace tool''"
| "tool_type_description McpType = ''MCP tool''"
| "tool_type_description WebSearchType = ''web search tool''"
| "tool_type_description FileSearchType = ''file search tool''"
| "tool_type_description CodeInterpreterType = ''code interpreter tool''"

definition type_is_gateway_owned :: "tool_type \<Rightarrow> bool" where
  "type_is_gateway_owned t \<longleftrightarrow> t \<notin> {FunctionType, ToolSearchType, CustomType, ShellType, CodexNamespaceType}"

text \<open>The characters of a string of UTF-8: a byte and the continuation bytes after it.\<close>

function utf8_chars :: "string \<Rightarrow> string list" where
  "utf8_chars [] = []"
| "utf8_chars (a # s) = (a # takeWhile continuation_byte s) # utf8_chars (dropWhile continuation_byte s)"
  by pat_completeness auto
termination by (relation "measure length") (auto simp: less_Suc_eq_le length_dropWhile_le)

definition stable_name_hash :: "string \<Rightarrow> u64" where
  "stable_name_hash s = fold (\<lambda>b h. (h XOR of_nat (of_char b)) * 0x100000001b3) s 0xcbf29ce484222325"

definition hex_digit :: "nat \<Rightarrow> char" where
  "hex_digit n = char_of (if n < 10 then 48 + n else 87 + n)"

definition hex16 :: "u64 \<Rightarrow> string" where
  "hex16 h = map (\<lambda>i. hex_digit (unat (drop_bit (4 * i) h AND 15))) (rev [0..<16])"

definition model_visible_namespace_member_prefix :: string where
  "model_visible_namespace_member_prefix = ''agentic_ns__''"

definition max_model_visible_tool_name_len :: usize where
  "max_model_visible_tool_name_len = 64"

definition hashed_namespace_member_suffix_len :: usize where
  "hashed_namespace_member_suffix_len = 18"

definition model_visible_namespace_member_name :: "string \<Rightarrow> string \<Rightarrow> string" where
  "model_visible_namespace_member_name namespace member =
     (let full_name = model_visible_namespace_member_prefix @ namespace @ ''__'' @ member
      in if length (utf8_chars full_name) \<le> max_model_visible_tool_name_len then full_name
         else
           let hash = stable_name_hash full_name;
               readable_len = max_model_visible_tool_name_len - hashed_namespace_member_suffix_len
           in concat (take readable_len (utf8_chars full_name)) @ ''__'' @ hex16 hash)"

section \<open>The map of a request\<close>

record namespace_member_name =
  nn_namespace :: string
  nn_name :: string

record namespace_call_mapping =
  nc_member :: namespace_member_name
  nc_upstream_name :: string

record namespace_map =
  nm_calls :: "string \<rightharpoonup> namespace_call_mapping"
  nm_members :: "namespace_member_name \<rightharpoonup> string"

definition mapping_for_call :: "namespace_map \<Rightarrow> string \<Rightarrow> namespace_call_mapping option" where
  "mapping_for_call m name = nm_calls m name"

definition public_member :: "namespace_map \<Rightarrow> string \<Rightarrow> (string \<times> string) option" where
  "public_member m name =
     map_option (\<lambda>c. (nn_namespace (nc_member c), nn_name (nc_member c))) (mapping_for_call m name)"

definition mapping_for_member :: "namespace_map \<Rightarrow> string \<Rightarrow> string \<Rightarrow> namespace_call_mapping option" where
  "mapping_for_member m namespace name =
     Option.bind (nm_members m \<lparr>nn_namespace = namespace, nn_name = name\<rparr>) (nm_calls m)"

record namespace_map_builder =
  nb_top_level_registry_keys :: "string \<rightharpoonup> tool_type"
  nb_map :: namespace_map

definition new_namespace_map_builder :: "(string \<rightharpoonup> tool_type) \<Rightarrow> namespace_map_builder" where
  "new_namespace_map_builder keys =
     \<lparr>nb_top_level_registry_keys = keys, nb_map = \<lparr>nm_calls = Map.empty, nm_members = Map.empty\<rparr>\<rparr>"

definition record_flat_member :: "string \<Rightarrow> string \<Rightarrow> string \<Rightarrow> namespace_map_builder \<Rightarrow> namespace_map_builder" where
  "record_flat_member namespace member flat_name b =
     (let mem = \<lparr>nn_namespace = namespace, nn_name = member\<rparr>
      in b\<lparr>nb_map := \<lparr>nm_calls = (nm_calls (nb_map b))(flat_name \<mapsto> \<lparr>nc_member = mem, nc_upstream_name = flat_name\<rparr>),
                     nm_members = (nm_members (nb_map b))(mem \<mapsto> flat_name)\<rparr>\<rparr>)"

definition validate_and_record_flat_member ::
  "string \<Rightarrow> string \<Rightarrow> namespace_map_builder \<Rightarrow> tool_error + string \<times> namespace_map_builder" where
  "validate_and_record_flat_member namespace member b =
     (let flat_name = model_visible_namespace_member_name namespace member
      in case nb_top_level_registry_keys b flat_name of
           Some kind \<Rightarrow> Inl (Config (''codex namespace member '' @ namespace @ ''.'' @ member
             @ '' generates name '' @ flat_name @ '', which collides with a declared '' @ tool_type_description kind))
         | None \<Rightarrow>
             (case filter_option (\<lambda>c. nn_namespace (nc_member c) \<noteq> namespace \<or> nn_name (nc_member c) \<noteq> member)
                     (nm_calls (nb_map b) flat_name) of
                Some c \<Rightarrow> Inl (Config (''codex namespace member '' @ namespace @ ''.'' @ member @ '' collides with ''
                  @ nn_namespace (nc_member c) @ ''.'' @ nn_name (nc_member c) @ '' at generated name '' @ flat_name))
              | None \<Rightarrow> Inr (flat_name, record_flat_member namespace member flat_name b)))"

fun top_level_registry_key :: "responses_tool \<Rightarrow> (string \<times> tool_type) option" where
  "top_level_registry_key (FunctionTool f) = Some (tool_name_str (ftp_name f), FunctionType)"
| "top_level_registry_key (WebSearchTool _) = Some (''web_search'', WebSearchType)"
| "top_level_registry_key (FileSearchTool _) = Some (''file_search'', FileSearchType)"
| "top_level_registry_key CodeInterpreterTool = Some (''code_interpreter'', CodeInterpreterType)"
| "top_level_registry_key _ = None"

definition typed_top_level_registry_keys :: "responses_tool list \<Rightarrow> string \<rightharpoonup> tool_type" where
  "typed_top_level_registry_keys tools =
     fold (\<lambda>t m. case top_level_registry_key t of None \<Rightarrow> m | Some (k, v) \<Rightarrow> m(k \<mapsto> v)) tools Map.empty"

fun rename_members ::
  "string \<Rightarrow> codex_namespace_member list \<Rightarrow> namespace_map_builder
   \<Rightarrow> tool_error + codex_namespace_member list \<times> namespace_map_builder" where
  "rename_members namespace [] b = Inr ([], b)"
| "rename_members namespace (MemberUnknown # ms) b =
     and_then (rename_members namespace ms b) (\<lambda>(ms', b'). Inr (MemberUnknown # ms', b'))"
| "rename_members namespace (MemberFunction f # ms) b =
     and_then (validate_and_record_flat_member namespace (tool_name_str (ftp_name f)) b) (\<lambda>(flat, b').
     and_then (rename_members namespace ms b') (\<lambda>(ms', b'').
       Inr (MemberFunction (f\<lparr>ftp_name := Abs_tool_name flat\<rparr>) # ms', b'')))"

definition rename_namespace_members ::
  "codex_namespace_tool_param \<Rightarrow> namespace_map_builder
   \<Rightarrow> tool_error + codex_namespace_tool_param \<times> namespace_map_builder" where
  "rename_namespace_members p b =
     and_then (rename_members (ntp_name p) (ntp_tools p) b) (\<lambda>(ms, b'). Inr (p\<lparr>ntp_tools := ms\<rparr>, b'))"

fun resolve_members ::
  "responses_tool list \<Rightarrow> namespace_map_builder \<Rightarrow> tool_error + responses_tool list \<times> namespace_map_builder" where
  "resolve_members [] b = Inr ([], b)"
| "resolve_members (NamespaceTool p # ts) b =
     and_then (rename_namespace_members p b) (\<lambda>(p', b').
     and_then (resolve_members ts b') (\<lambda>(ts', b''). Inr (NamespaceTool p' # ts', b'')))"
| "resolve_members (t # ts) b = and_then (resolve_members ts b) (\<lambda>(ts', b'). Inr (t # ts', b'))"

definition resolve_namespace_members :: "responses_tool list \<Rightarrow> tool_error + responses_tool list" where
  "resolve_namespace_members tools =
     and_then (resolve_members tools (new_namespace_map_builder (typed_top_level_registry_keys tools)))
       (\<lambda>(ts, _). Inr ts)"

definition build_namespace_map :: "responses_tool list option \<Rightarrow> tool_error + namespace_map option" where
  "build_namespace_map tools =
     (case tools of
        None \<Rightarrow> Inr None
      | Some ts \<Rightarrow>
          and_then (resolve_members ts (new_namespace_map_builder (typed_top_level_registry_keys ts)))
            (\<lambda>(_, b). Inr (Some (nb_map b))))"

section \<open>Requests and history\<close>

definition rewrite_tool_choice_with_map :: "tool_choice \<Rightarrow> namespace_map \<Rightarrow> tool_choice" where
  "rewrite_tool_choice_with_map choice m =
     (case choice of
        ChoiceFunction namespace name \<Rightarrow>
          (case (case namespace of
                   Some ns \<Rightarrow> mapping_for_member m ns (tool_name_str name)
                 | None \<Rightarrow> mapping_for_call m (tool_name_str name)) of
             None \<Rightarrow> choice
           | Some c \<Rightarrow> (case tool_name_try_from (nc_upstream_name c) of
                         Inl _ \<Rightarrow> choice
                       | Inr n \<Rightarrow> ChoiceFunction None n))
      | _ \<Rightarrow> choice)"

definition namespace_tool_choice :: "namespace_map option \<Rightarrow> tool_choice option \<Rightarrow> tool_choice" where
  "namespace_tool_choice m choice =
     (case m of None \<Rightarrow> unwrap_or choice ChoiceAuto
      | Some nm \<Rightarrow> rewrite_tool_choice_with_map (unwrap_or choice ChoiceAuto) nm)"

fun rewrite_item_with_map :: "namespace_map \<Rightarrow> input_item \<Rightarrow> input_item" where
  "rewrite_item_with_map m (InFunctionCall call) =
     (case Option.bind (ifn_namespace call) (\<lambda>ns. mapping_for_member m ns (ifn_name call)) of
        None \<Rightarrow> InFunctionCall call
      | Some c \<Rightarrow> InFunctionCall (call\<lparr>ifn_name := nc_upstream_name c, ifn_namespace := None\<rparr>))"
| "rewrite_item_with_map m x = x"

text \<open>The early return of \<open>resolve_input\<close> avoids a copy; the items it leaves alone are fixed points.\<close>

definition namespace_input :: "namespace_map option \<Rightarrow> responses_input \<Rightarrow> responses_input" where
  "namespace_input m input =
     (case (m, input) of
        (Some nm, ItemsInput items) \<Rightarrow> ItemsInput (map (rewrite_item_with_map nm) items)
      | _ \<Rightarrow> input)"

section \<open>Recording the members of a request\<close>

definition namespace_functions :: "codex_namespace_tool_param \<Rightarrow> (string \<times> string) list" where
  "namespace_functions p =
     List.map_filter (\<lambda>m. case m of MemberFunction f \<Rightarrow> Some (ntp_name p, tool_name_str (ftp_name f)) | MemberUnknown \<Rightarrow> None)
       (ntp_tools p)"

fun declared_members :: "responses_tool list \<Rightarrow> (string \<times> string) list" where
  "declared_members [] = []"
| "declared_members (NamespaceTool p # ts) = namespace_functions p @ declared_members ts"
| "declared_members (t # ts) = declared_members ts"

definition record_step :: "namespace_map_builder \<Rightarrow> string \<times> string \<Rightarrow> tool_error + namespace_map_builder" where
  "record_step b mem = and_then (validate_and_record_flat_member (fst mem) (snd mem) b) (\<lambda>(_, b'). Inr b')"

definition flat_name :: "string \<times> string \<Rightarrow> string" where
  "flat_name mem = model_visible_namespace_member_name (fst mem) (snd mem)"

definition recorded :: "namespace_map_builder \<Rightarrow> (string \<times> string) set" where
  "recorded b = {mem. nm_members (nb_map b) \<lparr>nn_namespace = fst mem, nn_name = snd mem\<rparr> \<noteq> None}"

definition builder_ok :: "namespace_map_builder \<Rightarrow> bool" where
  "builder_ok b \<longleftrightarrow>
     (\<forall>flat c. nm_calls (nb_map b) flat = Some c \<longrightarrow> nc_upstream_name c = flat
        \<and> flat = model_visible_namespace_member_name (nn_namespace (nc_member c)) (nn_name (nc_member c))
        \<and> nm_members (nb_map b) (nc_member c) = Some flat
        \<and> nb_top_level_registry_keys b flat = None)
     \<and> (\<forall>mem flat. nm_members (nb_map b) mem = Some flat \<longrightarrow>
          (\<exists>c. nm_calls (nb_map b) flat = Some c \<and> nc_member c = mem))"

definition builder_grows :: "namespace_map_builder \<Rightarrow> namespace_map_builder \<Rightarrow> bool" where
  "builder_grows b b' \<longleftrightarrow> nb_top_level_registry_keys b' = nb_top_level_registry_keys b \<and> recorded b \<subseteq> recorded b'"

lemma record_step_Inr:
  "record_step b mem = Inr b' \<longleftrightarrow>
     nb_top_level_registry_keys b (flat_name mem) = None
     \<and> (\<forall>c. nm_calls (nb_map b) (flat_name mem) = Some c \<longrightarrow> nc_member c = \<lparr>nn_namespace = fst mem, nn_name = snd mem\<rparr>)
     \<and> b' = record_flat_member (fst mem) (snd mem) (flat_name mem) b"
  by (cases "nm_calls (nb_map b) (flat_name mem)")
    (auto simp: record_step_def validate_and_record_flat_member_def flat_name_def Let_def split: option.splits)

lemma recorded_step: "record_step b mem = Inr b' \<Longrightarrow> recorded b' = insert mem (recorded b)"
  by (auto simp: record_step_Inr recorded_def record_flat_member_def Let_def)

lemma builder_ok_step:
  assumes ok: "builder_ok b" and step: "record_step b mem = Inr b'"
  shows "builder_ok b'"
proof -
  let ?mem = "\<lparr>nn_namespace = fst mem, nn_name = snd mem\<rparr>"
  from step have b': "b' = record_flat_member (fst mem) (snd mem) (flat_name mem) b"
    and key: "nb_top_level_registry_keys b (flat_name mem) = None"
    and old: "\<And>c. nm_calls (nb_map b) (flat_name mem) = Some c \<Longrightarrow> nc_member c = ?mem"
    by (auto simp: record_step_Inr)
  have same: "flat = flat_name mem" if "nm_members (nb_map b) ?mem = Some flat" for flat
    using that ok by (force simp: builder_ok_def flat_name_def)
  show ?thesis
    unfolding builder_ok_def
  proof (intro conjI allI impI)
    fix flat c assume c: "nm_calls (nb_map b') flat = Some c"
    then show "nc_upstream_name c = flat" "nb_top_level_registry_keys b' flat = None"
      "flat = model_visible_namespace_member_name (nn_namespace (nc_member c)) (nn_name (nc_member c))"
      using ok key by (auto simp: b' record_flat_member_def Let_def builder_ok_def flat_name_def split: if_splits)
    show "nm_members (nb_map b') (nc_member c) = Some flat"
    proof (cases "flat = flat_name mem")
      case True
      with c show ?thesis by (auto simp: b' record_flat_member_def Let_def)
    next
      case False
      with c have old: "nm_calls (nb_map b) flat = Some c" by (simp add: b' record_flat_member_def Let_def)
      with ok have "nm_members (nb_map b) (nc_member c) = Some flat" by (simp add: builder_ok_def)
      moreover from this same False have "nc_member c \<noteq> ?mem" by auto
      ultimately show ?thesis by (simp add: b' record_flat_member_def Let_def)
    qed
  next
    fix x flat assume x: "nm_members (nb_map b') x = Some flat"
    show "\<exists>c. nm_calls (nb_map b') flat = Some c \<and> nc_member c = x"
    proof (cases "x = ?mem")
      case True
      with x show ?thesis by (simp add: b' record_flat_member_def Let_def)
    next
      case False
      with x have "nm_members (nb_map b) x = Some flat"
        by (simp add: b' record_flat_member_def Let_def)
      with ok obtain c where c: "nm_calls (nb_map b) flat = Some c" "nc_member c = x"
        unfolding builder_ok_def by blast
      with False old have "flat \<noteq> flat_name mem" by auto
      with c show ?thesis by (simp add: b' record_flat_member_def Let_def)
    qed
  qed
qed

interpretation members: guarded_machine record_step builder_ok builder_grows
proof unfold_locales
  show "builder_ok b \<Longrightarrow> record_step b mem = Inr b' \<Longrightarrow> builder_ok b'" for b b' mem
    by (rule builder_ok_step)
  show "builder_ok b \<Longrightarrow> record_step b mem = Inr b' \<Longrightarrow> builder_grows b b'" for b b' mem
    using recorded_step [of b mem b'] by (auto simp: builder_grows_def record_step_Inr record_flat_member_def Let_def)
qed (auto simp: builder_grows_def)

lemma rename_members_run:
  "rename_members (ntp_name p) ms b = Inr (ms', b') \<Longrightarrow>
     run_steps record_step b (namespace_functions (p\<lparr>ntp_tools := ms\<rparr>)) = Inr b'"
proof (induction "ntp_name p" ms b arbitrary: ms' b' rule: rename_members.induct)
  case (3 ms b f)
  then show ?case
    by (auto simp: namespace_functions_def List.map_filter_simps record_step_def result_simps and_then_def
        split: sum.splits prod.splits)
qed (auto simp: namespace_functions_def List.map_filter_simps result_simps)

lemma rename_members_fail:
  "rename_members (ntp_name p) ms b = Inl e \<Longrightarrow>
     run_steps record_step b (namespace_functions (p\<lparr>ntp_tools := ms\<rparr>)) = Inl e"
proof (induction "ntp_name p" ms b arbitrary: rule: rename_members.induct)
  case (3 ms b f)
  then show ?case
    by (auto simp: namespace_functions_def List.map_filter_simps record_step_def result_simps and_then_def
        split: sum.splits prod.splits)
qed (auto simp: namespace_functions_def List.map_filter_simps result_simps)

lemma resolve_members_run:
  "(case resolve_members ts b of Inl e \<Rightarrow> Inl e | Inr (_, b') \<Rightarrow> Inr b') = run_steps record_step b (declared_members ts)"
proof (induction ts b rule: resolve_members.induct)
  case (2 p ts b)
  have p: "p\<lparr>ntp_tools := ntp_tools p\<rparr> = p" by simp
  show ?case
  proof (cases "rename_members (ntp_name p) (ntp_tools p) b")
    case (Inl e)
    with rename_members_fail [OF Inl] show ?thesis
      by (simp add: rename_namespace_members_def run_steps_append)
  next
    case (Inr r)
    obtain ms b1 where r: "r = (ms, b1)" by force
    from rename_members_run [OF Inr [unfolded r]] 2 [of "(p\<lparr>ntp_tools := ms\<rparr>, b1)"] Inr r
    show ?thesis
      by (auto simp: rename_namespace_members_def run_steps_append split: sum.splits prod.splits)
  qed
qed (auto split: sum.splits prod.splits simp: and_then_def)

lemma empty_builder_ok [simp]: "builder_ok (new_namespace_map_builder keys)" "recorded (new_namespace_map_builder keys) = {}"
  by (simp_all add: builder_ok_def new_namespace_map_builder_def recorded_def)

lemma run_recorded:
  "run_steps record_step b ms = Inr b' \<Longrightarrow> recorded b' = recorded b \<union> set ms"
proof (induction ms arbitrary: b)
  case (Cons m ms)
  then obtain b1 where "record_step b m = Inr b1" "run_steps record_step b1 ms = Inr b'"
    by (blast dest: run_steps_ConsD)
  with Cons.IH [of b1] recorded_step [of b m b1] show ?case by auto
qed simp

lemma recorded_call:
  assumes "builder_ok b" "mem \<in> recorded b"
  shows "nm_calls (nb_map b) (flat_name mem) =
      Some \<lparr>nc_member = \<lparr>nn_namespace = fst mem, nn_name = snd mem\<rparr>, nc_upstream_name = flat_name mem\<rparr>
    \<and> nm_members (nb_map b) \<lparr>nn_namespace = fst mem, nn_name = snd mem\<rparr> = Some (flat_name mem)
    \<and> nb_top_level_registry_keys b (flat_name mem) = None"
proof -
  from assms(2) obtain flat where flat: "nm_members (nb_map b) \<lparr>nn_namespace = fst mem, nn_name = snd mem\<rparr> = Some flat"
    by (auto simp: recorded_def)
  with assms(1) obtain c where c: "nm_calls (nb_map b) flat = Some c" "nc_member c = \<lparr>nn_namespace = fst mem, nn_name = snd mem\<rparr>"
    unfolding builder_ok_def by blast
  with assms(1) have up: "nc_upstream_name c = flat" "flat = flat_name mem" "nb_top_level_registry_keys b flat = None"
    unfolding builder_ok_def flat_name_def by fastforce+
  have "c = \<lparr>nc_member = \<lparr>nn_namespace = fst mem, nn_name = snd mem\<rparr>, nc_upstream_name = flat\<rparr>"
    using c(2) up(1) by (cases c) simp
  with c flat up show ?thesis by simp
qed

text \<open>Recording succeeds exactly when no two members share a flat name and none hits a top-level key.\<close>

lemma run_record_iff:
  "builder_ok b \<Longrightarrow> (\<exists>b'. run_steps record_step b ms = Inr b') \<longleftrightarrow>
     (\<forall>mem \<in> set ms. nb_top_level_registry_keys b (flat_name mem) = None)
     \<and> (\<forall>mem \<in> set ms. \<forall>other \<in> recorded b \<union> set ms. flat_name mem = flat_name other \<longrightarrow> mem = other)"
proof (induction ms arbitrary: b)
  case (Cons mem ms)
  have step: "(\<exists>b1. record_step b mem = Inr b1) \<longleftrightarrow> nb_top_level_registry_keys b (flat_name mem) = None
      \<and> (\<forall>other \<in> recorded b. flat_name mem = flat_name other \<longrightarrow> mem = other)"
  proof -
    have "(\<forall>c. nm_calls (nb_map b) (flat_name mem) = Some c \<longrightarrow> nc_member c = \<lparr>nn_namespace = fst mem, nn_name = snd mem\<rparr>)
        \<longleftrightarrow> (\<forall>other \<in> recorded b. flat_name mem = flat_name other \<longrightarrow> mem = other)" (is "?L \<longleftrightarrow> ?R")
    proof
      assume ?L
      then show ?R using recorded_call [OF Cons.prems] by (auto intro!: prod_eqI)
    next
      assume R: ?R
      show ?L
      proof (intro allI impI)
        fix c assume c: "nm_calls (nb_map b) (flat_name mem) = Some c"
        with Cons.prems have same: "flat_name mem = flat_name (nn_namespace (nc_member c), nn_name (nc_member c))"
          "nm_members (nb_map b) (nc_member c) = Some (flat_name mem)"
          unfolding builder_ok_def flat_name_def by auto
        then have "(nn_namespace (nc_member c), nn_name (nc_member c)) \<in> recorded b"
          by (cases "nc_member c") (simp add: recorded_def)
        with R same(1) have "mem = (nn_namespace (nc_member c), nn_name (nc_member c))" by blast
        then show "nc_member c = \<lparr>nn_namespace = fst mem, nn_name = snd mem\<rparr>" by simp
      qed
    qed
    then show ?thesis by (auto simp: record_step_Inr)
  qed
  show ?case
  proof (cases "record_step b mem")
    case (Inl e)
    with step show ?thesis by auto
  next
    case (Inr b1)
    then have keys: "nb_top_level_registry_keys b1 = nb_top_level_registry_keys b"
      by (auto simp: record_step_Inr record_flat_member_def Let_def)
    from Cons.IH [OF builder_ok_step [OF Cons.prems Inr]] recorded_step [OF Inr] step Inr keys
    show ?thesis by auto
  qed
qed simp

section \<open>Length of a flat name\<close>

definition char_starts :: "string \<Rightarrow> nat" where
  "char_starts s = length (filter (\<lambda>b. \<not> continuation_byte b) s)"

lemma char_starts_simps [simp]:
  "char_starts [] = 0"
  "char_starts (a # s) = (if continuation_byte a then 0 else 1) + char_starts s"
  "char_starts (s @ t) = char_starts s + char_starts t"
  by (simp_all add: char_starts_def)

lemma char_starts_conts: "list_all continuation_byte s \<Longrightarrow> char_starts s = 0"
  by (induction s) auto

lemma length_utf8_chars: "length (utf8_chars s) = (if s = [] then 0 else Suc (char_starts (tl s)))"
proof (induction s rule: utf8_chars.induct)
  case (2 a s)
  let ?d = "dropWhile continuation_byte s"
  have "char_starts s = char_starts (takeWhile continuation_byte s) + char_starts ?d"
    by (metis char_starts_simps(3) takeWhile_dropWhile_id)
  moreover have "char_starts (takeWhile continuation_byte s) = 0"
    by (intro char_starts_conts) (auto simp: list_all_iff dest: set_takeWhileD)
  moreover have "?d \<noteq> [] \<Longrightarrow> \<not> continuation_byte (hd ?d)" by (rule hd_dropWhile)
  ultimately show ?case using 2 by (cases ?d) (simp_all del: dropWhile_eq_Nil_conv)
qed simp

lemma char_starts_chars: "char_starts (concat (take n (utf8_chars s))) \<le> n"
proof (induction s arbitrary: n rule: utf8_chars.induct)
  case (2 a s)
  have "char_starts (takeWhile continuation_byte s) = 0"
    by (intro char_starts_conts) (auto simp: list_all_iff dest: set_takeWhileD)
  with 2 show ?case by (cases n) (auto simp: add_le_mono le_SucI)
qed simp

lemma length_hex16 [simp]: "length (hex16 h) = 16"
  by (simp add: hex16_def)

lemma length_flat_name: "length (utf8_chars (model_visible_namespace_member_name namespace member)) \<le> max_model_visible_tool_name_len"
proof -
  let ?full = "model_visible_namespace_member_prefix @ namespace @ ''__'' @ member"
  have starts: "char_starts (''__'' @ hex16 h) \<le> 18" for h
    using length_filter_le [of "\<lambda>b. \<not> continuation_byte b" "''__'' @ hex16 h"] by (simp add: char_starts_def)
  have "length (utf8_chars (concat (take 46 (utf8_chars ?full)) @ ''__'' @ hex16 h)) \<le> 64" for h
  proof -
    obtain t where t: "utf8_chars ?full = [CHR ''a''] # t"
      by (simp add: model_visible_namespace_member_prefix_def byte_in_def)
    have "char_starts (concat (take 46 (utf8_chars ?full)) @ ''__'' @ hex16 h) \<le> 64"
      using char_starts_chars [of 46 ?full] starts [of h] by (simp only: char_starts_simps)
    moreover obtain u where "concat (take 46 (utf8_chars ?full)) = CHR ''a'' # u"
      unfolding t by (simp add: take_Cons')
    ultimately show ?thesis
      by (simp only: append_Cons length_utf8_chars char_starts_simps) (simp add: byte_in_def)
  qed
  then show ?thesis
    by (simp add: model_visible_namespace_member_name_def Let_def max_model_visible_tool_name_len_def
        hashed_namespace_member_suffix_len_def)
qed

section \<open>Names are reversible\<close>

lemma build_map_run:
  "build_namespace_map (Some tools) = Inr (Some m) \<longleftrightarrow>
     (\<exists>b. run_steps record_step (new_namespace_map_builder (typed_top_level_registry_keys tools)) (declared_members tools) = Inr b
        \<and> m = nb_map b)"
  by (cases "resolve_members tools (new_namespace_map_builder (typed_top_level_registry_keys tools))")
    (auto simp: build_namespace_map_def resolve_members_run [symmetric] split: prod.splits)

lemma flat_name_nonempty: "flat_name mem \<noteq> []"
  by (simp add: flat_name_def model_visible_namespace_member_name_def Let_def model_visible_namespace_member_prefix_def
      del: utf8_chars.simps)

lemma namespace_map_exists_iff:
  "(\<exists>m. build_namespace_map (Some tools) = Inr (Some m)) \<longleftrightarrow>
      inj_on flat_name (set (declared_members tools))
      \<and> list_all (\<lambda>mem. typed_top_level_registry_keys tools (flat_name mem) = None) (declared_members tools)"
  using run_record_iff [OF empty_builder_ok(1), of "typed_top_level_registry_keys tools" "declared_members tools"]
  unfolding build_map_run inj_on_def list_all_iff empty_builder_ok(2) by (auto simp: new_namespace_map_builder_def)

definition reversible_member :: "namespace_map \<Rightarrow> input_function_tool_call \<Rightarrow> string \<times> string \<Rightarrow> bool" where
  "reversible_member m call mem \<longleftrightarrow>
     public_member m (flat_name mem) = Some mem
     \<and> length (utf8_chars (flat_name mem)) \<le> max_model_visible_tool_name_len
     \<and> rewrite_item_with_map m (InFunctionCall (call\<lparr>ifn_namespace := Some (fst mem), ifn_name := snd mem\<rparr>)) =
         InFunctionCall (call\<lparr>ifn_namespace := None, ifn_name := flat_name mem\<rparr>)
     \<and> (\<forall>n. tool_name_str n = snd mem \<longrightarrow> (\<exists>flat. tool_name_str flat = flat_name mem
           \<and> namespace_tool_choice (Some m) (Some (ChoiceFunction (Some (fst mem)) n)) = ChoiceFunction None flat))"

lemma declared_member_reversible:
  assumes "build_namespace_map (Some tools) = Inr (Some m)" and "mem \<in> set (declared_members tools)"
  shows "reversible_member m call mem"
proof -
  from assms(1) obtain b where m: "m = nb_map b" and
    run: "run_steps record_step (new_namespace_map_builder (typed_top_level_registry_keys tools)) (declared_members tools) = Inr b"
    by (auto simp: build_map_run)
  have ok: "builder_ok b" using members.inv_run [OF empty_builder_ok(1) run] .
  have "mem \<in> recorded b" using run_recorded [OF run] assms(2) by simp
  from recorded_call [OF ok this] have call: "nm_calls m (flat_name mem) =
      Some \<lparr>nc_member = \<lparr>nn_namespace = fst mem, nn_name = snd mem\<rparr>, nc_upstream_name = flat_name mem\<rparr>"
    "nm_members m \<lparr>nn_namespace = fst mem, nn_name = snd mem\<rparr> = Some (flat_name mem)"
    by (simp_all add: m)
  have flat: "tool_name_try_from (flat_name mem) = Inr (Abs_tool_name (flat_name mem))"
    "tool_name_str (Abs_tool_name (flat_name mem)) = flat_name mem"
    using flat_name_nonempty [of mem] by (simp_all add: tool_name_try_from_def Abs_tool_name_inverse)
  have "namespace_tool_choice (Some m) (Some (ChoiceFunction (Some (fst mem)) n)) = ChoiceFunction None (Abs_tool_name (flat_name mem))"
    if "tool_name_str n = snd mem" for n
    using that call flat by (simp add: namespace_tool_choice_def rewrite_tool_choice_with_map_def mapping_for_member_def)
  moreover have "length (utf8_chars (flat_name mem)) \<le> max_model_visible_tool_name_len"
    unfolding flat_name_def by (rule length_flat_name)
  ultimately show ?thesis
    using flat(2) call by (auto simp: reversible_member_def public_member_def mapping_for_call_def mapping_for_member_def)
qed


definition plain_function :: "string \<Rightarrow> function_tool_param" where
  "plain_function name = \<lparr>ftp_name = Abs_tool_name name, ftp_description = None, ftp_parameters = None,
     ftp_strict = None, ftp_defer_loading = None, ftp_extra = []\<rparr>"

definition two_members :: "responses_tool list" where
  "two_members =
     [FunctionTool (plain_function ''run''),
      NamespaceTool \<lparr>ntp_name = ''sh'', ntp_description = None,
        ntp_tools = [MemberFunction (plain_function ''run''), MemberUnknown, MemberFunction (plain_function ''stop'')],
        ntp_extra = []\<rparr>]"

definition empty_call :: input_function_tool_call where
  "empty_call = \<lparr>ifn_id = None, ifn_call_id = ''c'', ifn_name = [], ifn_namespace = None, ifn_arguments = [], ifn_status = None\<rparr>"


end
