(* ===== verification/Relay.thy ===== *)
theory Relay
  imports Request Transport
begin

text \<open>
  The stream the gateway writes to its client: \<open>executor/gateway_accumulator.rs\<close> numbers events,
  passes each lifecycle event once, shifts output indices of later rounds and frames events as
  server-sent events of bounded size; \<open>executor/response_budget.rs\<close> bounds what one response may
  add up to. The channel to the client is the list of events it has accepted, and \<open>opn n\<close> says
  whether the receiver is still there for the event number \<open>n\<close>. Printing JSON is a parameter
  that may fail, as \<open>serialize_to_string\<close> may.
\<close>

section \<open>Numbering\<close>

record gateway_stream =
  gs_next_sequence_number :: u64
  gs_emitted_created :: bool
  gs_emitted_in_progress :: bool

definition new_gateway_stream :: gateway_stream where
  "new_gateway_stream = \<lparr>gs_next_sequence_number = 0, gs_emitted_created = False, gs_emitted_in_progress = False\<rparr>"

record stream_event =
  sv_content :: string
  sv_sequence_number :: u64

definition max_stream_event_bytes :: usize where
  "max_stream_event_bytes = 1024 * 1024"

fun should_emit_lifecycle :: "sse_event_type \<Rightarrow> gateway_stream \<Rightarrow> bool \<times> gateway_stream" where
  "should_emit_lifecycle ResponseCreated g = (\<not> gs_emitted_created g, g\<lparr>gs_emitted_created := True\<rparr>)"
| "should_emit_lifecycle ResponseInProgress g = (\<not> gs_emitted_in_progress g, g\<lparr>gs_emitted_in_progress := True\<rparr>)"
| "should_emit_lifecycle _ g = (True, g)"

definition take_sequence_number :: "gateway_stream \<Rightarrow> u64 \<times> gateway_stream" where
  "take_sequence_number g =
     (gs_next_sequence_number g,
      g\<lparr>gs_next_sequence_number := u64_saturating_add (gs_next_sequence_number g) 1\<rparr>)"

definition rebase_output_index :: "usize \<Rightarrow> wire_event \<Rightarrow> wire_event" where
  "rebase_output_index output_offset w =
     (case filter_option (\<lambda>n. 0 < n) (u64_of_usize output_offset) of
        None \<Rightarrow> w
      | Some n \<Rightarrow>
          (case we_output_index w of
             None \<Rightarrow> w
           | Some i \<Rightarrow> w\<lparr>we_output_index := Some (u64_saturating_add i n)\<rparr>))"

definition stamp_event :: "usize \<Rightarrow> event_frame \<Rightarrow> gateway_stream \<Rightarrow> event_frame \<times> gateway_stream" where
  "stamp_event output_offset f g =
     (let (n, g') = take_sequence_number g
      in (f\<lparr>ef_wire := rebase_output_index output_offset ((ef_wire f)\<lparr>we_sequence_number := Some n\<rparr>)\<rparr>, g'))"

definition process_event :: "usize \<Rightarrow> event_frame \<Rightarrow> gateway_stream \<Rightarrow> event_frame option \<times> gateway_stream" where
  "process_event output_offset f g =
     (let (emit, g') = should_emit_lifecycle (ef_type f) g
      in if emit then (let (f', g'') = stamp_event output_offset f g' in (Some f', g'')) else (None, g'))"

definition process_sse_line ::
  "codec \<Rightarrow> string \<Rightarrow> string \<Rightarrow> usize \<Rightarrow> gateway_stream \<Rightarrow> event_frame option \<times> gateway_stream" where
  "process_sse_line c u line output_offset g =
     (case normalize_sse_line c u line of
        None \<Rightarrow> (None, g)
      | Some f \<Rightarrow> process_event output_offset f g)"

section \<open>Framing\<close>

type_synonym json_printer = "json \<Rightarrow> string + string"

definition serialize_sse_frame :: "json_printer \<Rightarrow> event_frame \<Rightarrow> executor_error + string" where
  "serialize_sse_frame print f =
     (case print (wire_event_to_json (ef_wire f)) of
        Inl e \<Rightarrow> Inl (JsonError e)
      | Inr event_json \<Rightarrow>
          let event_name = filter_option (\<lambda>n. n \<noteq> '''' \<and> carriage_return \<notin> set n \<and> newline \<notin> set n)
                             (we_event_type (ef_wire f))
          in Inr ((case event_name of None \<Rightarrow> '''' | Some n \<Rightarrow> ''event: '' @ n @ [newline])
                  @ ''data: '' @ event_json @ [newline, newline]))"

definition stream_event_too_long :: executor_error where
  "stream_event_too_long = StreamError (''stream event exceeded '' @ show_nat max_stream_event_bytes @ '' bytes'')"

definition checked_stream_event :: "json_printer \<Rightarrow> event_frame \<Rightarrow> executor_error + string" where
  "checked_stream_event print f =
     and_then (serialize_sse_frame print f) (\<lambda>content.
       if max_stream_event_bytes < length content then Inl stream_event_too_long else Inr content)"

definition emit_sse_frame ::
  "json_printer \<Rightarrow> (nat \<Rightarrow> bool) \<Rightarrow> event_frame \<Rightarrow> stream_event list \<Rightarrow> executor_error + stream_event list" where
  "emit_sse_frame print opn f sent =
     and_then (ok_or (frame_sequence_number f) (StreamError ''stream event has no sequence number'')) (\<lambda>n.
     and_then (checked_stream_event print f) (\<lambda>content.
       if opn (length sent) then Inr (sent @ [\<lparr>sv_content = content, sv_sequence_number = n\<rparr>])
       else Inl (StreamError ''stream receiver closed while emitting gateway event'')))"

definition synthetic_event :: "sse_event_type \<Rightarrow> json_map \<Rightarrow> executor_error + event_frame" where
  "synthetic_event t rest =
     ok_or (synthetic_frame t rest) (StreamError ''synthetic event has no wire representation'')"

definition terminal_response_frame :: "(response_payload \<Rightarrow> string + json) \<Rightarrow> response_payload \<Rightarrow> executor_error + event_frame" where
  "terminal_response_frame to_value payload =
     (let name = terminal_event_type payload;
          t = (if name = ''response.incomplete'' then ResponseIncomplete
               else if name = ''response.failed'' then ResponseFailed
               else if name = ''response.in_progress'' then ResponseInProgress
               else ResponseCompleted)
      in case to_value payload of
           Inl e \<Rightarrow> Inl (JsonError e)
         | Inr v \<Rightarrow> ok_or (synthetic_frame t [(''response'', v)])
                      (StreamError ''terminal response event has no wire representation''))"

definition terminal_response_chunk ::
  "json_printer \<Rightarrow> (response_payload \<Rightarrow> string + json) \<Rightarrow> response_payload \<Rightarrow> gateway_stream
   \<Rightarrow> (executor_error + string) \<times> gateway_stream" where
  "terminal_response_chunk print to_value payload g =
     (case terminal_response_frame to_value payload of
        Inl e \<Rightarrow> (Inl e, g)
      | Inr f \<Rightarrow> (let (f', g') = stamp_event 0 f g in (checked_stream_event print f', g')))"

text \<open>Error events; \<open>sd\<close> shows a status code.\<close>

definition error_frame :: "u64 option \<Rightarrow> json \<Rightarrow> json \<Rightarrow> event_frame" where
  "error_frame n status error =
     \<lparr>ef_type = Other, ef_payload = PNone,
      ef_wire = (new_wire_event ''error'')\<lparr>we_sequence_number := n, we_rest := [(''status'', status), (''error'', error)]\<rparr>\<rparr>"

definition executor_error_frame :: "(status_code \<Rightarrow> string) \<Rightarrow> executor_error \<Rightarrow> event_frame" where
  "executor_error_frame sd e =
     error_frame None (JNumber (PosInt (of_nat (http_status e)))) (response_error sd e)"

definition json_quoted :: "string \<Rightarrow> string" where
  "json_quoted s = CHR 0x22 # s @ [CHR 0x22]"

definition error_sse_chunk :: "json_printer \<Rightarrow> string \<Rightarrow> u64 \<Rightarrow> string" where
  "error_sse_chunk print message n =
     (case serialize_sse_frame print
             (error_frame (Some n) (JNumber (PosInt 500))
               (JObject [(''message'', JString message), (''type'', JString ''server_error''),
                         (''code'', JString ''server_error'')])) of
        Inr chunk \<Rightarrow> chunk
      | Inl _ \<Rightarrow> ''event: error'' @ [newline] @ ''data: {'' @ json_quoted ''type'' @ '':'' @ json_quoted ''error'' @ '',''
          @ json_quoted ''status'' @ '':500,'' @ json_quoted ''sequence_number'' @ '':'' @ show_nat (unat n) @ ''}''
          @ [newline, newline])"

definition executor_error_chunk_at :: "json_printer \<Rightarrow> (status_code \<Rightarrow> string) \<Rightarrow> executor_error \<Rightarrow> u64 \<Rightarrow> string" where
  "executor_error_chunk_at print sd e n =
     (let f = executor_error_frame sd e;
          f' = f\<lparr>ef_wire := (ef_wire f)\<lparr>we_sequence_number := Some n\<rparr>\<rparr>
      in case checked_stream_event print f' of
           Inr chunk \<Rightarrow> chunk
         | Inl _ \<Rightarrow> error_sse_chunk print ''executor error event exceeded the response size limit'' n)"

section \<open>The response budget\<close>

record executor_response_budget =
  eb_remaining :: usize

definition new_response_budget :: executor_response_budget where
  "new_response_budget = \<lparr>eb_remaining = max_executor_response_bytes\<rparr>"

definition budget_consume :: "executor_response_budget \<Rightarrow> usize \<Rightarrow> executor_error + executor_response_budget" where
  "budget_consume b bytes =
     (case usize_checked_sub (eb_remaining b) bytes of
        None \<Rightarrow> Inl (StreamError (''executor response budget exceeded '' @ show_nat max_executor_response_bytes @ '' bytes''))
      | Some n \<Rightarrow> Inr (b\<lparr>eb_remaining := n\<rparr>))"

interpretation response_bytes: byte_budget budget_consume "\<lambda>b. max_executor_response_bytes - eb_remaining b"
    "\<lambda>_. max_executor_response_bytes" "\<lambda>b. eb_remaining b \<le> max_executor_response_bytes"
  by unfold_locales (auto simp: budget_consume_def usize_checked_sub_def split: if_splits)

section \<open>One relay step\<close>

text \<open>What every writer of the stream does with an event: number it, then send it if it is due.\<close>

record relay =
  rl_stream :: gateway_stream
  rl_sent :: "stream_event list"

definition new_relay :: relay where
  "new_relay = \<lparr>rl_stream = new_gateway_stream, rl_sent = []\<rparr>"

definition relay_event ::
  "json_printer \<Rightarrow> (nat \<Rightarrow> bool) \<Rightarrow> usize \<Rightarrow> event_frame \<Rightarrow> relay \<Rightarrow> (executor_error + bool) \<times> relay" where
  "relay_event print opn output_offset f r =
     (case process_event output_offset f (rl_stream r) of
        (None, g) \<Rightarrow> (Inr False, r\<lparr>rl_stream := g\<rparr>)
      | (Some f', g) \<Rightarrow>
          (case emit_sse_frame print opn f' (rl_sent r) of
             Inl e \<Rightarrow> (Inl e, r\<lparr>rl_stream := g\<rparr>)
           | Inr sent \<Rightarrow> (Inr True, r\<lparr>rl_stream := g, rl_sent := sent\<rparr>)))"

section \<open>Numbers and lifecycle events\<close>

fun process_events :: "(usize \<times> event_frame) list \<Rightarrow> gateway_stream \<Rightarrow> event_frame list \<times> gateway_stream" where
  "process_events [] g = ([], g)"
| "process_events ((output_offset, f) # fs) g =
     (let (r, g') = process_event output_offset f g; (out, g'') = process_events fs g'
      in (emitted r @ out, g''))"

definition numbers_from :: "nat \<Rightarrow> nat \<Rightarrow> u64 list" where
  "numbers_from n k = map (\<lambda>i. of_nat (min (n + i) (2 ^ 64 - 1))) [0..<k]"

text \<open>What numbering and shifting leave alone.\<close>

definition unnumbered :: "event_frame \<Rightarrow> event_frame" where
  "unnumbered f = f\<lparr>ef_wire := (ef_wire f)\<lparr>we_sequence_number := None\<rparr>\<rparr>"

text \<open>The index an event has in the whole response, when its round starts at output \<open>k\<close>.\<close>

definition shifted :: "usize \<Rightarrow> event_frame \<Rightarrow> event_frame" where
  "shifted k f =
     (if k < 2 ^ 64
      then f\<lparr>ef_wire := (ef_wire f)\<lparr>we_output_index :=
             map_option (\<lambda>i. of_nat (min (unat i + k) (2 ^ 64 - 1))) (we_output_index (ef_wire f))\<rparr>\<rparr>
      else f)"

definition is_lifecycle_start :: "event_frame \<Rightarrow> bool" where
  "is_lifecycle_start f \<longleftrightarrow> ef_type f = ResponseCreated \<or> ef_type f = ResponseInProgress"

text \<open>The events without the second and later announcements of the stream.\<close>

fun without_repeats :: "sse_event_type set \<Rightarrow> (usize \<times> event_frame) list \<Rightarrow> (usize \<times> event_frame) list" where
  "without_repeats seen [] = []"
| "without_repeats seen ((k, f) # fs) =
     (if is_lifecycle_start f \<and> ef_type f \<in> seen then without_repeats seen fs
      else (k, f) # without_repeats (insert (ef_type f) seen) fs)"

definition count_type :: "sse_event_type \<Rightarrow> event_frame list \<Rightarrow> nat" where
  "count_type t fs = length (filter (\<lambda>f. ef_type f = t) fs)"

lemma numbers_from_simps [simp]:
  "numbers_from n 0 = []"
  "numbers_from n (Suc k) = of_nat (min n (2 ^ 64 - 1)) # numbers_from (Suc n) k"
  by (simp_all add: numbers_from_def upt_conv_Cons map_Suc_upt [symmetric] del: upt_Suc)

lemma numbers_from_saturated:
  "numbers_from (min n (2 ^ 64 - 1)) k = numbers_from n k"
  by (auto simp: numbers_from_def min_def)

lemma should_emit_lifecycle_eq:
  "should_emit_lifecycle t g =
     (\<not> (t = ResponseCreated \<and> gs_emitted_created g) \<and> \<not> (t = ResponseInProgress \<and> gs_emitted_in_progress g),
      g\<lparr>gs_emitted_created := gs_emitted_created g \<or> t = ResponseCreated,
        gs_emitted_in_progress := gs_emitted_in_progress g \<or> t = ResponseInProgress\<rparr>)"
  by (cases t) simp_all

lemma rebase_frame [simp]:
  "we_sequence_number (rebase_output_index k w) = we_sequence_number w"
  "we_event_type (rebase_output_index k w) = we_event_type w"
  "we_rest (rebase_output_index k w) = we_rest w"
  by (auto simp: rebase_output_index_def split: option.splits)

lemma stamp_event_simps:
  "stamp_event k f g =
     (f\<lparr>ef_wire := rebase_output_index k ((ef_wire f)\<lparr>we_sequence_number := Some (gs_next_sequence_number g)\<rparr>)\<rparr>,
      g\<lparr>gs_next_sequence_number := u64_saturating_add (gs_next_sequence_number g) 1\<rparr>)"
  by (simp add: stamp_event_def take_sequence_number_def)

lemma u64_saturating_add_min:
  "k < 2 ^ 64 \<Longrightarrow> u64_saturating_add a (of_nat k) = of_nat (min (unat a + k) (2 ^ 64 - 1))"
  by (auto simp: u64_saturating_add_def unat_of_nat take_bit_nat_eq_self min_def)

lemma rebase_shifted:
  "f\<lparr>ef_wire := rebase_output_index k ((ef_wire f)\<lparr>we_sequence_number := n\<rparr>)\<rparr> =
     (shifted k f)\<lparr>ef_wire := (ef_wire (shifted k f))\<lparr>we_sequence_number := n\<rparr>\<rparr>"
proof -
  have "unat i \<le> 18446744073709551615" for i :: u64
    using unsigned_less [of i, where 'a = nat] by simp
  then show ?thesis
    by (cases "k = 0"; cases "we_output_index (ef_wire f)")
    (auto simp: rebase_output_index_def shifted_def u64_of_usize_def filter_option_def u64_saturating_add_min
      word_less_nat_alt unat_of_nat take_bit_nat_eq_self min_def)
qed

lemma event_unnumbered_stamped [simp]:
  "unnumbered (f\<lparr>ef_wire := rebase_output_index k ((ef_wire f)\<lparr>we_sequence_number := n\<rparr>)\<rparr>) = unnumbered (shifted k f)"
  by (simp add: rebase_shifted unnumbered_def)

lemma process_event_cases:
  obtains (Emitted) g' where "process_event k f g =
      (Some (f\<lparr>ef_wire := rebase_output_index k ((ef_wire f)\<lparr>we_sequence_number := Some (gs_next_sequence_number g)\<rparr>)\<rparr>), g')"
      "gs_next_sequence_number g' = u64_saturating_add (gs_next_sequence_number g) 1"
      "gs_emitted_created g' \<longleftrightarrow> gs_emitted_created g \<or> ef_type f = ResponseCreated"
      "gs_emitted_in_progress g' \<longleftrightarrow> gs_emitted_in_progress g \<or> ef_type f = ResponseInProgress"
      "ef_type f = ResponseCreated \<longrightarrow> \<not> gs_emitted_created g"
      "ef_type f = ResponseInProgress \<longrightarrow> \<not> gs_emitted_in_progress g"
  | (Dropped) "process_event k f g = (None, g)" "is_lifecycle_start f"
      "ef_type f = ResponseCreated \<longrightarrow> gs_emitted_created g"
      "ef_type f = ResponseInProgress \<longrightarrow> gs_emitted_in_progress g"
proof (cases "fst (should_emit_lifecycle (ef_type f) g)")
  case True
  then show thesis
    by (intro Emitted) (auto simp: process_event_def stamp_event_simps should_emit_lifecycle_eq)
next
  case False
  then show thesis
    by (intro Dropped) (auto simp: process_event_def should_emit_lifecycle_eq is_lifecycle_start_def)
qed

lemma process_events_spec:
  assumes "process_events fs g = (out, g')"
  shows "map frame_sequence_number out = map Some (numbers_from (unat (gs_next_sequence_number g)) (length out))
    \<and> unat (gs_next_sequence_number g') = min (unat (gs_next_sequence_number g) + length out) (2 ^ 64 - 1)"
  using assms
proof (induction fs arbitrary: g out)
  case Nil
  have "unat (gs_next_sequence_number g) \<le> 2 ^ 64 - 1"
    using unsigned_less [of "gs_next_sequence_number g", where 'a = nat] by simp
  with Nil show ?case by simp
next
  case (Cons x fs)
  obtain k f where x: "x = (k, f)" by force
  obtain r g1 rest where steps: "process_event k f g = (r, g1)" "process_events fs g1 = (rest, g')" "out = emitted r @ rest"
    using Cons.prems by (auto simp: x split: prod.splits)
  note IH = Cons.IH [OF steps(2)]
  show ?case
  proof (cases rule: process_event_cases [of k f g])
    case (Emitted h)
    then have g1: "g1 = h" and r: "emitted r = [f\<lparr>ef_wire := rebase_output_index k
        ((ef_wire f)\<lparr>we_sequence_number := Some (gs_next_sequence_number g)\<rparr>)\<rparr>]"
      using steps(1) by (auto simp: emitted_def)
    let ?n = "unat (gs_next_sequence_number g)"
    have next1: "unat (gs_next_sequence_number g1) = min (Suc (unat (gs_next_sequence_number g))) (2 ^ 64 - 1)"
      using Emitted(2) by (simp add: g1 unat_u64_saturating_succ)
    have this_number: "gs_next_sequence_number g = of_nat (min (unat (gs_next_sequence_number g)) (2 ^ 64 - 1))"
      using unsigned_less [of "gs_next_sequence_number g", where 'a = nat] by (simp add: min_absorb1)
    have "map frame_sequence_number out =
        Some (gs_next_sequence_number g) # map frame_sequence_number rest"
      by (simp add: steps(3) r frame_sequence_number_def)
    also have "map frame_sequence_number rest = map Some (numbers_from (Suc ?n) (length rest))"
      using conjunct1 [OF IH] unfolding next1 numbers_from_saturated .
    also have "Some (gs_next_sequence_number g) # map Some (numbers_from (Suc ?n) (length rest)) =
        map Some (numbers_from ?n (length out))"
      using this_number by (simp add: steps(3) r)
    finally have numbers: "map frame_sequence_number out = map Some (numbers_from ?n (length out))" .
    have next2: "unat (gs_next_sequence_number g') = min (?n + length out) (2 ^ 64 - 1)"
      using conjunct2 [OF IH] by (simp add: next1 steps(3) r)
    show ?thesis using numbers next2 by simp
  next
    case Dropped
    then have "g1 = g" "emitted r = []" using steps(1) by (auto simp: emitted_def)
    with IH Dropped show ?thesis by (simp add: steps(3) x)
  qed
qed

lemma process_events_relayed:
  assumes "process_events fs g = (out, g')"
    and "ResponseCreated \<in> seen \<longleftrightarrow> gs_emitted_created g" "ResponseInProgress \<in> seen \<longleftrightarrow> gs_emitted_in_progress g"
  shows "map unnumbered out = map (\<lambda>(k, f). unnumbered (shifted k f)) (without_repeats seen fs)"
  using assms
proof (induction fs arbitrary: g out seen)
  case (Cons x fs)
  obtain k f where x: "x = (k, f)" by force
  obtain r g1 rest where steps: "process_event k f g = (r, g1)" "process_events fs g1 = (rest, g')" "out = emitted r @ rest"
    using Cons.prems by (auto simp: x split: prod.splits)
  show ?case
  proof (cases rule: process_event_cases [of k f g])
    case (Emitted h)
    then have g1: "g1 = h" and r: "emitted r = [f\<lparr>ef_wire := rebase_output_index k
        ((ef_wire f)\<lparr>we_sequence_number := Some (gs_next_sequence_number g)\<rparr>)\<rparr>]"
      using steps(1) by (auto simp: emitted_def)
    have "map unnumbered rest = map (\<lambda>(k, f). unnumbered (shifted k f)) (without_repeats (insert (ef_type f) seen) fs)"
      by (rule Cons.IH [OF steps(2)]) (use Emitted(3,4) Cons.prems(2,3) g1 in auto)
    moreover have "\<not> (is_lifecycle_start f \<and> ef_type f \<in> seen)"
      using Emitted(5,6) Cons.prems(2,3) by (auto simp: is_lifecycle_start_def)
    ultimately show ?thesis by (auto simp: steps(3) r x)
  next
    case Dropped
    then have "g1 = g" "emitted r = []" using steps(1) by (auto simp: emitted_def)
    moreover have "ef_type f \<in> seen"
      using Dropped(2-4) Cons.prems(2,3) by (auto simp: is_lifecycle_start_def)
    ultimately show ?thesis
      using Dropped(2) Cons.IH [OF steps(2), of seen] Cons.prems(2,3) by (simp add: steps(3) x)
  qed
qed simp

lemma without_repeats_once:
  "t = ResponseCreated \<or> t = ResponseInProgress \<Longrightarrow>
     count_type t (map snd (without_repeats seen fs)) = (if t \<in> seen then 0 else min 1 (count_type t (map snd fs)))"
  by (induction seen fs rule: without_repeats.induct) (auto simp: count_type_def is_lifecycle_start_def)

lemma count_unnumbered: "count_type t (map unnumbered fs) = count_type t fs"
  by (simp add: count_type_def unnumbered_def filter_map o_def)

lemma process_events_once:
  assumes "process_events fs new_gateway_stream = (out, g)" "t = ResponseCreated \<or> t = ResponseInProgress"
  shows "count_type t out = min 1 (count_type t (map snd fs))"
proof -
  have "count_type t out = count_type t (map (\<lambda>(k, f). unnumbered (shifted k f)) (without_repeats {} fs))"
    using process_events_relayed [OF assms(1), of "{}"] count_unnumbered [of t out] by (simp add: new_gateway_stream_def)
  also have "\<dots> = count_type t (map snd (without_repeats {} fs))"
    by (induction "without_repeats {} fs" rule: list.induct)
     (simp_all add: count_type_def unnumbered_def shifted_def filter_map o_def case_prod_unfold)
  finally show ?thesis using without_repeats_once [OF assms(2), of "{}" fs] by simp
qed

text \<open>
  C18: the client stream. Whatever upstream events and gateway events are fed to it, over however
  many rounds, the events that come out are numbered 0, 1, 2 and so on without a gap (the number
  stays at its maximum should it ever be reached). They are the events fed in, in order, without
  the second and later announcements of the stream, each with its output index shifted by the
  offset of its round and otherwise unchanged; so each of the two announcements comes exactly once
  if it was ever fed in.
\<close>

theorem relayed_events_are_numbered:
  "(case process_events fs new_gateway_stream of (out, g) \<Rightarrow>
      map frame_sequence_number out = map Some (numbers_from 0 (length out))
      \<and> unat (gs_next_sequence_number g) = min (length out) (2 ^ 64 - 1)
      \<and> map unnumbered out = map (\<lambda>(k, f). unnumbered (shifted k f)) (without_repeats {} fs)
      \<and> count_type ResponseCreated out = min 1 (count_type ResponseCreated (map snd fs))
      \<and> count_type ResponseInProgress out = min 1 (count_type ResponseInProgress (map snd fs)))"
proof -
  obtain out g where run: "process_events fs new_gateway_stream = (out, g)" by force
  from process_events_spec [OF run] process_events_relayed [OF run, of "{}"] process_events_once [OF run]
  show ?thesis unfolding run prod.case by (simp add: new_gateway_stream_def)
qed

section \<open>Reading an event back\<close>

text \<open>
  What an event printed as JSON is expected to be: an object on one line of UTF-8 that the parser
  reads back.
\<close>

definition printed_object :: "codec \<Rightarrow> json \<Rightarrow> string \<Rightarrow> bool" where
  "printed_object c j s \<longleftrightarrow> newline \<notin> set s \<and> utf8_valid s \<and> cd_parse c s = Some j
     \<and> s = ''{'' @ butlast (tl s) @ ''}''"

lemma str_trim_braces: "str_trim (''{'' @ t @ ''}'') = ''{'' @ t @ ''}''"
proof -
  have "strip_one white_space (''{'' @ t @ ''}'') = None"
    "strip_one (map rev white_space) (rev (''{'' @ t @ ''}'')) = None"
    by (simp_all add: strip_one_def white_space_def)
  then show ?thesis
    unfolding str_trim_def by (subst (1 2) strip_all.simps) simp
qed

lemma utf8_valid_data: "utf8_valid (''data: '' @ s) = utf8_valid s"
  by (simp add: utf8_width_def byte_in_def)

lemma framed_lines:
  assumes "newline \<notin> set name" "newline \<notin> set s"
  shows "split_at newline (''event: '' @ name @ [newline] @ ''data: '' @ s @ [newline, newline]) =
      [''event: '' @ name, ''data: '' @ s, [], []]"
    "split_at newline (''data: '' @ s @ [newline, newline]) = [''data: '' @ s, [], []]"
  using assms split_at_first [of newline "''event: '' @ name" "''data: '' @ s @ [newline, newline]"]
    split_at_first [of newline "''data: '' @ s" "[newline]"]
  by (simp_all add: newline_def)

lemma forward_event_line: "forward_lines (filter utf8_valid [strip_cr (''event: '' @ name)] @ ls) = forward_lines ls"
proof -
  have "str_strip_prefix ''data:'' (strip_cr (''event: '' @ name)) = None"
    by (auto simp: str_strip_prefix_def strip_cr_def)
  then show ?thesis by simp
qed

lemma forward_framed:
  assumes "printed_object c j s" "name = None \<or> newline \<notin> set (the name)"
  shows "fst (forward_lines (body_lines ((case name of None \<Rightarrow> [] | Some n \<Rightarrow> ''event: '' @ n @ [newline])
      @ ''data: '' @ s @ [newline, newline]))) = [''data: '' @ s]"
proof -
  obtain t where s: "s = ''{'' @ t @ ''}''" "newline \<notin> set s" "utf8_valid s"
    using assms(1) unfolding printed_object_def by blast
  have last: "last s = CHR ''}''" by (simp add: s(1))
  have data: "filter utf8_valid (map strip_cr [''data: '' @ s, []]) = [''data: '' @ s, []]"
    using s(3) utf8_valid_data [of s] last by (simp add: strip_cr_def carriage_return_def s(1))
  have "str_strip_prefix ''data:'' (''data: '' @ s) = Some ('' '' @ s)"
    "str_strip_prefix '' '' ('' '' @ s) = Some s" "s \<noteq> done_marker_data"
    by (simp_all add: str_strip_prefix_def s(1) done_marker_data_def)
  then have fwd: "fst (forward_lines [''data: '' @ s, []]) = [''data: '' @ s]"
    by (simp add: str_strip_prefix_def)
  show ?thesis
  proof (cases name)
    case None
    then show ?thesis
      using fwd data framed_lines(2) [OF s(2) s(2)] by (simp add: body_lines_def)
  next
    case (Some n)
    then have n: "newline \<notin> set n" using assms(2) by simp
    have "body_lines (''event: '' @ n @ [newline] @ ''data: '' @ s @ [newline, newline]) =
        filter utf8_valid [strip_cr (''event: '' @ n)] @ filter utf8_valid (map strip_cr [''data: '' @ s, []])"
      unfolding body_lines_def framed_lines(1) [OF n s(2)] by simp
    with fwd show ?thesis
      by (simp only: data forward_event_line Some option.case append_assoc)
  qed
qed

text \<open>
  C33: events survive the wire. Take a well-formed event whose JSON is printed on one line that
  parses back. When it is sent, it is at most the event limit long, carries exactly one data line
  whatever the name of the event holds, and a client that cuts the text at newlines gets back the
  event, with its number, index and every other field. So does the reader of this program, unless
  the data line is over its own limit of 256 KiB per line, which is below the limit of 1 MiB per
  event.
\<close>

theorem sent_events_read_back:
  assumes "emit_sse_frame print opn f sent = Inr sent'"
    and "print (wire_event_to_json (ef_wire f)) = Inr s"
    and "printed_object c (wire_event_to_json (ef_wire f)) s"
    and "wire_event_wf (ef_wire f)"
  shows "butlast sent' = sent \<and> Some (sv_sequence_number (last sent')) = frame_sequence_number f
    \<and> length (sv_content (last sent')) \<le> max_stream_event_bytes
    \<and> fst (forward_lines (body_lines (sv_content (last sent')))) = [''data: '' @ s]
    \<and> (lines_within_limit (sv_content (last sent')) \<longrightarrow>
         response_lines [] [Inr (sv_content (last sent'))] = [Inr (''data: '' @ s)])
    \<and> sse_line_parse (''data: '' @ s) = SseData s
    \<and> Option.bind (cd_parse c s) wire_event_of_json = Some (ef_wire f)"
proof -
  let ?name = "filter_option (\<lambda>n. n \<noteq> '''' \<and> carriage_return \<notin> set n \<and> newline \<notin> set n) (we_event_type (ef_wire f))"
  let ?content = "(case ?name of None \<Rightarrow> [] | Some n \<Rightarrow> ''event: '' @ n @ [newline]) @ ''data: '' @ s @ [newline, newline]"
  from assms(1,2) obtain n where n: "frame_sequence_number f = Some n"
      "sent' = sent @ [\<lparr>sv_content = ?content, sv_sequence_number = n\<rparr>]" "length ?content \<le> max_stream_event_bytes"
    by (auto simp: emit_sse_frame_def checked_stream_event_def serialize_sse_frame_def result_simps split: if_splits)
  have "?name = None \<or> newline \<notin> set (the ?name)" by (cases "we_event_type (ef_wire f)") auto
  from forward_framed [OF assms(3) this] have "fst (forward_lines (body_lines ?content)) = [''data: '' @ s]" .
  moreover from this have "response_lines [] [Inr ?content] = [Inr (''data: '' @ s)]" if "lines_within_limit ?content"
    using response_lines_chunked [of "[]" "[?content]"] that by simp
  moreover have "sse_line_parse (''data: '' @ s) = SseData s"
  proof -
    obtain t where s: "s = ''{'' @ t @ ''}''" using assms(3) unfolding printed_object_def by blast
    then have "str_trim s = s" using str_trim_braces by blast
    then show ?thesis by (simp add: sse_line_parse_def str_strip_prefix_def s)
  qed
  moreover have "wire_event_of_json (wire_event_to_json (ef_wire f)) = Some (ef_wire f)"
    using assms(4) by (rule wire_event_of_to_json)
  ultimately show ?thesis
    using n assms(3) by (simp add: printed_object_def)
qed

definition toy_event :: event_frame where
  "toy_event = error_frame (Some 7) (JNumber (PosInt 500)) JNull"

definition toy_print_codec :: codec where
  "toy_print_codec = plain_codec\<lparr>cd_parse := (\<lambda>_. Some (wire_event_to_json (ef_wire toy_event)))\<rparr>"

theorem sent_events_read_back_witness:
  "response_lines [] [Inr (''event: error'' @ [newline] @ ''data: {}'' @ [newline, newline])] = [Inr ''data: {}'']
   \<and> Option.bind (cd_parse toy_print_codec ''{}'') wire_event_of_json = Some (ef_wire toy_event)"
proof -
  let ?content = "''event: error'' @ [newline] @ ''data: {}'' @ [newline, newline]"
  have "emit_sse_frame (\<lambda>_. Inr ''{}'') (\<lambda>_. True) toy_event [] = Inr [\<lparr>sv_content = ?content, sv_sequence_number = 7\<rparr>]"
    by (simp add: emit_sse_frame_def checked_stream_event_def serialize_sse_frame_def toy_event_def error_frame_def
        new_wire_event_def frame_sequence_number_def carriage_return_def newline_def max_stream_event_bytes_def)
  moreover have "printed_object toy_print_codec (wire_event_to_json (ef_wire toy_event)) ''{}''"
    by (simp add: printed_object_def toy_print_codec_def newline_def utf8_width_def byte_in_def)
  moreover have "wire_event_wf (ef_wire toy_event)"
    by (simp add: wire_event_wf_def wire_event_keys_def toy_event_def error_frame_def new_wire_event_def im_keys_def)
  moreover have "lines_within_limit ?content"
    by (simp add: lines_within_limit_def newline_def max_sse_line_bytes_def)
  ultimately show ?thesis
    using sent_events_read_back [of "\<lambda>_. Inr ''{}''" "\<lambda>_. True" toy_event "[]"
        "[\<lparr>sv_content = ?content, sv_sequence_number = 7\<rparr>]" "''{}''" toy_print_codec]
    by simp
qed

end
