(* ===== verification/Registry.thy ===== *)
theory Registry
  imports Namespaces Relay
begin

text \<open>
  The tools of a request, \<open>tool/registry.rs\<close> and \<open>tool/ownership.rs\<close>: what name the model may
  call, and who executes it. A handler of a gateway tool is the three operations the code calls
  on it: execute, start item and public item. Discovery of MCP tools, the sizes of its results and
  the handler of web search are parameters. A hash map is an insertion-ordered map; its iteration
  order shows only in which of several conflicts is reported.
\<close>

section \<open>Ownership\<close>

record tool_output =
  tu_call_id :: string
  tu_output :: string

record gateway_binding =
  gb_execute :: "string \<Rightarrow> string \<Rightarrow> string \<Rightarrow> tool_error + tool_output"
  gb_started_output :: "function_tool_call \<Rightarrow> output_item option"
  gb_public_output :: "function_tool_call \<Rightarrow> tool_output \<Rightarrow> gateway_call_status \<Rightarrow> output_item option"

datatype tool_ownership = ClientOwned | GatewayOwned "gateway_binding option"

fun is_gateway :: "tool_ownership \<Rightarrow> bool" where
  "is_gateway ClientOwned = False"
| "is_gateway (GatewayOwned _) = True"

record tool_entry =
  ty_tool_type :: tool_type
  ty_server_label :: "string option"
  ty_ownership :: tool_ownership

definition client_entry :: "tool_type \<Rightarrow> string option \<Rightarrow> tool_entry" where
  "client_entry t label = \<lparr>ty_tool_type = t, ty_server_label = label, ty_ownership = ClientOwned\<rparr>"

definition gateway_entry :: "tool_type \<Rightarrow> string option \<Rightarrow> gateway_binding option \<Rightarrow> tool_entry" where
  "gateway_entry t label b = \<lparr>ty_tool_type = t, ty_server_label = label, ty_ownership = GatewayOwned b\<rparr>"

type_synonym tool_entries = "(string, tool_entry) index_map"

record discovered_handler =
  dh_param :: mcp_discovered_tool_param
  dh_handler :: gateway_binding

record mcp_server_tool_set =
  mt_discovered_handlers :: "discovered_handler list"
  mt_list_tools_item :: mcp_list_tools

record tool_registry =
  tr_entries :: tool_entries
  tr_namespace_map :: "namespace_map option"
  tr_custom_tool_map :: "(string, custom_tool_param) index_map option"
  tr_mcp_list_tools_items :: "(string, mcp_list_tools list) index_map"

definition empty_registry :: tool_registry where
  "empty_registry =
     \<lparr>tr_entries = [], tr_namespace_map = None, tr_custom_tool_map = None, tr_mcp_list_tools_items = []\<rparr>"

section \<open>Queries\<close>

definition lookup :: "tool_registry \<Rightarrow> string \<Rightarrow> tool_entry option" where
  "lookup reg name = im_get (tr_entries reg) name"

definition registered_type :: "tool_registry \<Rightarrow> string \<Rightarrow> tool_type" where
  "registered_type reg name = (case lookup reg name of None \<Rightarrow> FunctionType | Some e \<Rightarrow> ty_tool_type e)"

definition is_gateway_owned_name :: "tool_registry \<Rightarrow> string \<Rightarrow> bool" where
  "is_gateway_owned_name reg name = (case lookup reg name of None \<Rightarrow> False | Some e \<Rightarrow> is_gateway (ty_ownership e))"

definition is_client_custom_name :: "tool_registry \<Rightarrow> string \<Rightarrow> bool" where
  "is_client_custom_name reg name = (case lookup reg name of None \<Rightarrow> False | Some e \<Rightarrow> ty_tool_type e = CustomType)"

definition is_client_shell_name :: "tool_registry \<Rightarrow> string \<Rightarrow> bool" where
  "is_client_shell_name reg name =
     (case lookup reg name of None \<Rightarrow> False
      | Some e \<Rightarrow> ty_tool_type e = ShellType \<and> \<not> is_gateway (ty_ownership e))"

definition gateway_owned :: "tool_registry \<Rightarrow> function_tool_call list \<Rightarrow> function_tool_call list" where
  "gateway_owned reg cs = filter (\<lambda>x. is_gateway_owned_name reg (fc_name x)) cs"

definition client_owned :: "tool_registry \<Rightarrow> function_tool_call list \<Rightarrow> function_tool_call list" where
  "client_owned reg cs =
     filter (\<lambda>x. case lookup reg (fc_name x) of None \<Rightarrow> True | Some e \<Rightarrow> \<not> is_gateway (ty_ownership e)) cs"

definition contains_mcp_server_label :: "tool_registry \<Rightarrow> string \<Rightarrow> bool" where
  "contains_mcp_server_label reg label =
     list_ex (\<lambda>(_, e). ty_tool_type e = McpType \<and> ty_server_label e = Some label) (tr_entries reg)"

definition dispatch :: "tool_registry \<Rightarrow> function_tool_call \<Rightarrow> (tool_type \<times> (tool_error + tool_output)) option" where
  "dispatch reg call =
     Option.bind (lookup reg (fc_name call)) (\<lambda>e.
       case ty_ownership e of
         GatewayOwned (Some b) \<Rightarrow>
           Some (ty_tool_type e, gb_execute b (fc_call_id call) (fc_name call) (fc_arguments call))
       | _ \<Rightarrow> None)"

fun requires_client_action :: "tool_registry \<Rightarrow> output_item \<Rightarrow> bool" where
  "requires_client_action reg (OutFunctionCall call) =
     (case lookup reg (fc_name call) of None \<Rightarrow> True | Some e \<Rightarrow> \<not> is_gateway (ty_ownership e))"
| "requires_client_action reg (OutToolSearchCall _) = True"
| "requires_client_action reg (OutCustomToolCall _) = True"
| "requires_client_action reg (OutShellCall _) = True"
| "requires_client_action reg _ = False"

section \<open>Building\<close>

definition tool_search_name :: string where
  "tool_search_name = ''tool_search''"

definition max_mcp_servers_per_request :: nat where
  "max_mcp_servers_per_request = 64"

definition max_discovered_mcp_tools_per_request :: nat where
  "max_discovered_mcp_tools_per_request = 128"

definition max_mcp_discovery_bytes :: usize where
  "max_mcp_discovery_bytes = 1024 * 1024"

text \<open>What a client of the registry supplies: who materializes discovery, and what it costs.\<close>

record ('b, 'e) discovery =
  dy_server_tools :: "mcp_tool_param \<Rightarrow> tool_error + mcp_server_tool_set"
  dy_web_search :: "web_search_tool_param \<Rightarrow> gateway_binding"
  dy_fresh_list_id :: "string \<Rightarrow> string"
  dy_param_bytes :: "mcp_discovered_tool_param \<Rightarrow> string + usize"
  dy_list_bytes :: "mcp_list_tools \<Rightarrow> string + usize"
  dy_of_tool_error :: "tool_error \<Rightarrow> 'e"
  dy_consume :: "'b \<Rightarrow> usize \<Rightarrow> 'e + 'b"

fun insert_unique_tool_entries :: "tool_entries \<Rightarrow> tool_entries \<Rightarrow> tool_error + tool_entries" where
  "insert_unique_tool_entries entries [] = Inr entries"
| "insert_unique_tool_entries entries ((name, e) # resolved) =
     (case im_get entries name of
        Some existing \<Rightarrow> Inl (Config (tool_type_description (ty_tool_type e) @ '' registry name '' @ quoted name
          @ '' conflicts with existing '' @ tool_type_description (ty_tool_type existing)))
      | None \<Rightarrow> insert_unique_tool_entries (im_insert name e entries) resolved)"

definition namespace_entries :: "codex_namespace_tool_param \<Rightarrow> tool_entries" where
  "namespace_entries p =
     fold (\<lambda>m entries. case m of
         MemberFunction f \<Rightarrow> im_insert (tool_name_str (ftp_name f)) (client_entry CodexNamespaceType (Some (ntp_name p))) entries
       | MemberUnknown \<Rightarrow> entries) (ntp_tools p) []"

fun declared_entries :: "('b, 'e) discovery \<Rightarrow> responses_tool \<Rightarrow> tool_entries" where
  "declared_entries d (FunctionTool p) = [(tool_name_str (ftp_name p), client_entry FunctionType None)]"
| "declared_entries d (ToolSearchTool _) = [(tool_search_name, client_entry ToolSearchType None)]"
| "declared_entries d (WebSearchTool p) = [(''web_search'', gateway_entry WebSearchType None (Some (dy_web_search d p)))]"
| "declared_entries d (FileSearchTool _) = [(''file_search'', gateway_entry FileSearchType None None)]"
| "declared_entries d CodeInterpreterTool = [(''code_interpreter'', gateway_entry CodeInterpreterType None None)]"
| "declared_entries d (ShellTool _) = [(shell_function_name, client_entry ShellType None)]"
| "declared_entries d (NamespaceTool p) = namespace_entries p"
| "declared_entries d (CustomTool p) = [(tool_name_str (ctp_name p), client_entry CustomType None)]"
| "declared_entries d (McpTool _) = []"
| "declared_entries d UnknownTool = []"

definition discovered_entry :: "discovered_handler \<Rightarrow> string \<times> tool_entry" where
  "discovered_entry h =
     (mdp_internal_name (dh_param h),
      gateway_entry McpType (Some (mdp_server_label (dh_param h))) (Some (dh_handler h)))"

definition consume_serialized :: "('b, 'e) discovery \<Rightarrow> string + usize \<Rightarrow> 'b \<Rightarrow> 'e + 'b" where
  "consume_serialized d r b =
     (case r of
        Inl e \<Rightarrow> Inl (dy_of_tool_error d (Execution (''failed to account for MCP discovery metadata: '' @ e)))
      | Inr n \<Rightarrow> dy_consume d b n)"

definition tool_result :: "('b, 'e) discovery \<Rightarrow> tool_error + 'a \<Rightarrow> 'e + 'a" where
  "tool_result d r = (case r of Inl e \<Rightarrow> Inl (dy_of_tool_error d e) | Inr x \<Rightarrow> Inr x)"

definition failed_list_tools_item :: "('b, 'e) discovery \<Rightarrow> string \<Rightarrow> tool_error \<Rightarrow> mcp_list_tools" where
  "failed_list_tools_item d label e =
     (new_mcp_list_tools (dy_fresh_list_id d label) label [])\<lparr>ml_error := Some (tool_error_display e)\<rparr>"

record 'b registration =
  rg_tools :: "responses_tool list"
  rg_entries :: tool_entries
  rg_items :: "(string, mcp_list_tools list) index_map"
  rg_discovered :: usize
  rg_budget :: 'b

definition push_item :: "string \<Rightarrow> mcp_list_tools \<Rightarrow> 'b registration \<Rightarrow> 'b registration" where
  "push_item label item r =
     r\<lparr>rg_items := im_insert label (unwrap_or (im_get (rg_items r) label) [] @ [item]) (rg_items r)\<rparr>"

fun set_discovered :: "mcp_discovered_tool_param list \<Rightarrow> responses_tool \<Rightarrow> responses_tool" where
  "set_discovered params (McpTool p) = McpTool (p\<lparr>mtp_discovered_tools := params\<rparr>)"
| "set_discovered params t = t"

definition register_discovered ::
  "('b, 'e) discovery \<Rightarrow> nat \<Rightarrow> string \<Rightarrow> mcp_server_tool_set \<Rightarrow> 'b registration \<Rightarrow> 'e + 'b registration" where
  "register_discovered d index label tool_set r =
     (let handlers = mt_discovered_handlers tool_set; item = mt_list_tools_item tool_set
      in and_then (tool_result d (ok_or (usize_checked_add (rg_discovered r) (length handlers))
            (Execution ''discovered MCP tool count overflowed the platform limit''))) (\<lambda>count.
         if max_discovered_mcp_tools_per_request < count
         then Inl (dy_of_tool_error d (Execution (''request discovered '' @ show_nat count @ '' MCP tools; at most ''
           @ show_nat max_discovered_mcp_tools_per_request @ '' discovered MCP tools are allowed'')))
         else
         and_then (run_steps (\<lambda>b h. consume_serialized d (dy_param_bytes d (dh_param h)) b) (rg_budget r) handlers) (\<lambda>b.
         and_then (consume_serialized d (dy_list_bytes d item) b) (\<lambda>b'.
         let r' = push_item label item
                    (r\<lparr>rg_discovered := count, rg_budget := b',
                       rg_tools := (rg_tools r)[index := set_discovered (map dh_param handlers) (rg_tools r ! index)]\<rparr>)
         in and_then (tool_result d (run_steps (\<lambda>es h. insert_unique_tool_entries es [discovered_entry h]) (rg_entries r') handlers))
              (\<lambda>es. Inr (r'\<lparr>rg_entries := es\<rparr>))))))"

definition register_tool ::
  "('b, 'e) discovery \<Rightarrow> 'b registration \<Rightarrow> nat \<times> responses_tool \<Rightarrow> 'e + 'b registration" where
  "register_tool d r indexed =
     (case indexed of
        (index, McpTool p) \<Rightarrow>
          (case dy_server_tools d p of
             Inl (Config m) \<Rightarrow> Inl (dy_of_tool_error d (Config m))
           | Inl e \<Rightarrow>
               let item = failed_list_tools_item d (mtp_server_label p) e
               in and_then (consume_serialized d (dy_list_bytes d item) (rg_budget r))
                    (\<lambda>b. Inr (push_item (mtp_server_label p) item (r\<lparr>rg_budget := b\<rparr>)))
           | Inr tool_set \<Rightarrow> register_discovered d index (mtp_server_label p) tool_set r)
      | (_, t) \<Rightarrow>
          and_then (tool_result d (insert_unique_tool_entries (rg_entries r) (declared_entries d t)))
            (\<lambda>es. Inr (r\<lparr>rg_entries := es\<rparr>)))"

definition mcp_labels :: "responses_tool list \<Rightarrow> string list" where
  "mcp_labels tools = List.map_filter (\<lambda>t. case t of McpTool p \<Rightarrow> Some (mtp_server_label p) | _ \<Rightarrow> None) tools"

fun validate_labels :: "string set \<Rightarrow> string list \<Rightarrow> tool_error + unit" where
  "validate_labels seen [] = Inr ()"
| "validate_labels seen (label # labels) =
     (if label \<in> seen
      then Inl (Config (''duplicate MCP declarations are not allowed for server_label '' @ quoted label))
      else validate_labels (insert label seen) labels)"

definition validate_server_labels :: "responses_tool list \<Rightarrow> tool_error + unit" where
  "validate_server_labels tools = validate_labels {} (mcp_labels tools)"

definition validate_mcp_server_count :: "responses_tool list \<Rightarrow> tool_error + unit" where
  "validate_mcp_server_count tools =
     (let count = length (mcp_labels tools)
      in if max_mcp_servers_per_request < count
         then Inl (Config (''request declared '' @ show_nat count @ '' MCP servers; at most ''
           @ show_nat max_mcp_servers_per_request @ '' MCP server declarations are allowed''))
         else Inr ())"

definition build_tool_map :: "responses_tool list \<Rightarrow> (string, custom_tool_param) index_map option" where
  "build_tool_map tools =
     (let declarations = fold (\<lambda>t m. case t of CustomTool p \<Rightarrow> im_insert (tool_name_str (ctp_name p)) p m | _ \<Rightarrow> m) tools []
      in if declarations = [] then None else Some declarations)"

definition build_with_handlers_guarded ::
  "('b, 'e) discovery \<Rightarrow> responses_tool list \<Rightarrow> 'b \<Rightarrow> 'e + tool_registry \<times> responses_tool list \<times> 'b" where
  "build_with_handlers_guarded d tools b =
     and_then (tool_result d (resolve_namespace_members tools)) (\<lambda>resolved.
     and_then (tool_result d (validate_server_labels resolved)) (\<lambda>_.
     and_then (tool_result d (validate_mcp_server_count resolved)) (\<lambda>_.
     and_then (run_steps (register_tool d)
         \<lparr>rg_tools = tools, rg_entries = [], rg_items = [], rg_discovered = 0, rg_budget = b\<rparr> (enumerate 0 resolved)) (\<lambda>r.
     and_then (tool_result d (build_namespace_map (if rg_tools r = [] then None else Some (rg_tools r)))) (\<lambda>m.
       Inr (\<lparr>tr_entries = rg_entries r, tr_namespace_map = m, tr_custom_tool_map = build_tool_map (rg_tools r),
             tr_mcp_list_tools_items = rg_items r\<rparr>, rg_tools r, rg_budget r))))))"

text \<open>\<open>build_with_handlers\<close>: the registry outside a request keeps its own budget of discovered bytes.\<close>

definition discovery_consume :: "usize \<Rightarrow> usize \<Rightarrow> tool_error + usize" where
  "discovery_consume remaining bytes =
     ok_or (usize_checked_sub remaining bytes)
       (Execution (''MCP discovery metadata exceeded '' @ show_nat max_mcp_discovery_bytes @ '' bytes''))"

interpretation discovery_bytes: byte_budget discovery_consume "\<lambda>r. max_mcp_discovery_bytes - r"
    "\<lambda>_. max_mcp_discovery_bytes" "\<lambda>r. r \<le> max_mcp_discovery_bytes"
  by unfold_locales (auto simp: discovery_consume_def usize_checked_sub_def ok_or_def split: if_splits option.splits)

definition build_with_handlers ::
  "(usize, tool_error) discovery \<Rightarrow> responses_tool list \<Rightarrow> tool_error + tool_registry \<times> responses_tool list" where
  "build_with_handlers d tools =
     and_then (build_with_handlers_guarded (d\<lparr>dy_of_tool_error := id, dy_consume := discovery_consume\<rparr>) tools
         max_mcp_discovery_bytes) (\<lambda>(reg, tools', _). Inr (reg, tools'))"

section \<open>Discovery history and availability\<close>

fun cache_listed_item :: "input_item \<Rightarrow> tool_registry \<Rightarrow> tool_registry" where
  "cache_listed_item (InMcpListTools item) reg =
     (case im_get (tr_mcp_list_tools_items reg) (ml_server_label item) of
        None \<Rightarrow> reg
      | Some items \<Rightarrow>
          reg\<lparr>tr_mcp_list_tools_items := im_insert (ml_server_label item) (items @ [item]) (tr_mcp_list_tools_items reg)\<rparr>)"
| "cache_listed_item _ reg = reg"

definition cache_listed_mcp_tools :: "responses_input \<Rightarrow> tool_registry \<Rightarrow> tool_registry" where
  "cache_listed_mcp_tools input reg =
     (case input of TextInput _ \<Rightarrow> reg | ItemsInput items \<Rightarrow> fold cache_listed_item items reg)"

text \<open>The derived equality of listed tools compares JSON values as the values do.\<close>

definition mcp_list_tool_eq :: "mcp_list_tool \<Rightarrow> mcp_list_tool \<Rightarrow> bool" where
  "mcp_list_tool_eq a b \<longleftrightarrow> mlt_name a = mlt_name b \<and> mlt_description a = mlt_description b
     \<and> json_eq (mlt_input_schema a) (mlt_input_schema b)
     \<and> (case (mlt_annotations a, mlt_annotations b) of
          (None, None) \<Rightarrow> True | (Some x, Some y) \<Rightarrow> json_eq x y | _ \<Rightarrow> False)"

fun current_discovery :: "mcp_list_tools list \<Rightarrow> mcp_list_tools option" where
  "current_discovery [] = None"
| "current_discovery (current # history) =
     (if ml_error current = None \<and> list_ex (\<lambda>previous. ml_error previous = None \<and> list_all2 mcp_list_tool_eq (ml_tools previous) (ml_tools current)) history
      then None else Some current)"

definition mcp_list_tool_items :: "tool_registry \<Rightarrow> mcp_list_tools list" where
  "mcp_list_tool_items reg = List.map_filter current_discovery (map snd (tr_mcp_list_tools_items reg))"

definition clear_mcp_list_tool_items :: "tool_registry \<Rightarrow> tool_registry" where
  "clear_mcp_list_tool_items reg = reg\<lparr>tr_mcp_list_tools_items := []\<rparr>"

definition validate_tool_availability :: "string set \<Rightarrow> bool \<Rightarrow> tool_registry \<Rightarrow> tool_error + unit" where
  "validate_tool_availability withheld requires_tool_search reg =
     (if list_ex (\<lambda>name. name \<in> withheld) (im_keys (tr_entries reg))
      then Inl (Config ''a loaded tool collides with a withheld function name'')
      else if \<not> requires_tool_search then Inr ()
      else
        and_then (ok_or (lookup reg tool_search_name)
            (Config ''prepared tool-search declaration is missing from the private registry'')) (\<lambda>e.
          if ty_tool_type e \<noteq> ToolSearchType \<or> is_gateway (ty_ownership e)
          then Inl (Config ''prepared tool-search declaration has invalid private registry ownership'')
          else Inr ()))"

section \<open>Every tool is registered once\<close>

definition entries_of :: "('b, 'e) discovery \<Rightarrow> responses_tool \<Rightarrow> tool_entries" where
  "entries_of d t =
     (case t of
        McpTool p \<Rightarrow> (case dy_server_tools d p of
                        Inl _ \<Rightarrow> [] | Inr tool_set \<Rightarrow> map discovered_entry (mt_discovered_handlers tool_set))
      | _ \<Rightarrow> declared_entries d t)"

definition owned_by_kind :: "string \<times> tool_entry \<Rightarrow> bool" where
  "owned_by_kind x \<longleftrightarrow> is_gateway (ty_ownership (snd x)) = type_is_gateway_owned (ty_tool_type (snd x))"

definition is_mcp_entry :: "string \<times> tool_entry \<Rightarrow> bool" where
  "is_mcp_entry x \<longleftrightarrow> ty_tool_type (snd x) = McpType"

definition registration_ok :: "'b registration \<Rightarrow> bool" where
  "registration_ok r \<longleftrightarrow> im_wf (rg_entries r) \<and> list_all owned_by_kind (rg_entries r)
     \<and> length (filter is_mcp_entry (rg_entries r)) = rg_discovered r
     \<and> rg_discovered r \<le> max_discovered_mcp_tools_per_request"

lemma insert_unique_Inr:
  "im_wf entries \<Longrightarrow> insert_unique_tool_entries entries resolved = Inr es \<longleftrightarrow> es = entries @ resolved \<and> im_wf (entries @ resolved)"
proof (induction entries resolved rule: insert_unique_tool_entries.induct)
  case (2 entries name e resolved)
  show ?case
  proof (cases "im_get entries name")
    case None
    then have new: "name \<notin> set (im_keys entries)" by (simp add: im_get_None_iff)
    with 2 None show ?thesis by (auto simp: im_insert_new im_wf_def im_keys_def)
  next
    case (Some x)
    then have "name \<in> set (im_keys entries)" by (rule im_get_Some_key)
    with Some show ?thesis by (auto simp: im_wf_def im_keys_def)
  qed
qed auto

lemma insert_handlers_Inr:
  "im_wf entries \<Longrightarrow> run_steps (\<lambda>es h. insert_unique_tool_entries es [discovered_entry h]) entries hs = Inr es \<Longrightarrow>
     es = entries @ map discovered_entry hs \<and> im_wf es"
proof (induction hs arbitrary: entries)
  case (Cons h hs)
  then obtain es1 where es1: "insert_unique_tool_entries entries [discovered_entry h] = Inr es1"
      "run_steps (\<lambda>es h. insert_unique_tool_entries es [discovered_entry h]) es1 hs = Inr es"
    by (blast dest: run_steps_ConsD)
  with insert_unique_Inr [OF Cons.prems(1), of "[discovered_entry h]" es1]
  have "es1 = entries @ [discovered_entry h]" "im_wf es1" by simp_all
  with Cons.IH [of es1] es1(2) show ?case by auto
qed simp

lemma namespace_entries_client:
  "list_all (\<lambda>x. owned_by_kind x \<and> \<not> is_mcp_entry x) (namespace_entries p)"
proof -
  have "list_all (\<lambda>x. owned_by_kind x \<and> \<not> is_mcp_entry x)
      (fold (\<lambda>m entries. case m of
         MemberFunction f \<Rightarrow> im_insert (tool_name_str (ftp_name f)) (client_entry CodexNamespaceType (Some (ntp_name p))) entries
       | MemberUnknown \<Rightarrow> entries) ms es)"
    if "list_all (\<lambda>x. owned_by_kind x \<and> \<not> is_mcp_entry x) es" for ms es
    using that
  proof (induction ms arbitrary: es)
    case (Cons m ms)
    have "list_all (\<lambda>x. owned_by_kind x \<and> \<not> is_mcp_entry x) (im_insert k (client_entry CodexNamespaceType l) es)" for k l
      using Cons.prems
      by (induction es) (auto simp: owned_by_kind_def is_mcp_entry_def client_entry_def type_is_gateway_owned_def split: if_splits)
    with Cons show ?case by (cases m) simp_all
  qed simp
  then show ?thesis by (simp add: namespace_entries_def)
qed

lemma declared_entries_kinds: "list_all (\<lambda>x. owned_by_kind x \<and> \<not> is_mcp_entry x) (declared_entries d t)"
  using namespace_entries_client
  by (cases t) (auto simp: owned_by_kind_def is_mcp_entry_def client_entry_def gateway_entry_def type_is_gateway_owned_def)

lemma discovered_entry_kinds: "owned_by_kind (discovered_entry h) \<and> is_mcp_entry (discovered_entry h)"
  by (simp add: owned_by_kind_def is_mcp_entry_def discovered_entry_def gateway_entry_def type_is_gateway_owned_def)

lemma tool_result_Inr [simp]: "tool_result d r = Inr x \<longleftrightarrow> r = Inr x"
  by (cases r) (simp_all add: tool_result_def)

lemma register_tool_step:
  assumes ok: "registration_ok r" and step: "register_tool d r (i, t) = Inr r'"
  shows "registration_ok r' \<and> rg_entries r' = rg_entries r @ entries_of d t"
proof (cases "\<exists>p. t = McpTool p")
  case False
  then have "r' = r\<lparr>rg_entries := rg_entries r @ declared_entries d t\<rparr>" "im_wf (rg_entries r @ declared_entries d t)"
    "entries_of d t = declared_entries d t"
    using step insert_unique_Inr [of "rg_entries r" "declared_entries d t"] ok
    by (auto simp: register_tool_def entries_of_def registration_ok_def result_simps split: responses_tool.splits)
  moreover have "filter is_mcp_entry (declared_entries d t) = []"
    using declared_entries_kinds [of d t] by (auto simp: list_all_iff filter_empty_conv)
  ultimately show ?thesis
    using ok declared_entries_kinds [of d t] by (auto simp: registration_ok_def list_all_iff)
next
  case True
  then obtain p where t: "t = McpTool p" by blast
  show ?thesis
  proof (cases "dy_server_tools d p")
    case (Inl e)
    with step ok show ?thesis
      by (cases e) (auto simp: t register_tool_def entries_of_def registration_ok_def result_simps push_item_def Let_def)
  next
    case (Inr tool_set)
    let ?hs = "mt_discovered_handlers tool_set"
    from step obtain b es where r': "rg_entries r' = es" "rg_discovered r' = rg_discovered r + length ?hs"
      "rg_discovered r' \<le> max_discovered_mcp_tools_per_request"
      "run_steps (\<lambda>es h. insert_unique_tool_entries es [discovered_entry h]) (rg_entries r) ?hs = Inr es"
      by (auto simp: t Inr register_tool_def register_discovered_def result_simps Let_def push_item_def split: if_splits)
    with insert_handlers_Inr [OF _ r'(4)] ok have es: "es = rg_entries r @ map discovered_entry ?hs" "im_wf es"
      by (auto simp: registration_ok_def)
    have "filter is_mcp_entry (map discovered_entry ?hs) = map discovered_entry ?hs" "list_all owned_by_kind (map discovered_entry ?hs)"
      using discovered_entry_kinds by (auto simp: list_all_iff filter_id_conv)
    with ok r' es show ?thesis
      by (simp add: registration_ok_def entries_of_def t Inr)
  qed
qed

lemma register_tools_run:
  "registration_ok r \<Longrightarrow> run_steps (register_tool d) r (enumerate n ts) = Inr r' \<Longrightarrow>
     registration_ok r' \<and> rg_entries r' = rg_entries r @ concat (map (entries_of d) ts)"
proof (induction ts arbitrary: r n)
  case (Cons t ts)
  then obtain r1 where r1: "register_tool d r (n, t) = Inr r1" "run_steps (register_tool d) r1 (enumerate (Suc n) ts) = Inr r'"
    by (auto split: sum.splits)
  with register_tool_step [OF Cons.prems(1) r1(1)] Cons.IH [of r1 "Suc n"] show ?case by simp
qed simp

lemma validate_labels_Inr: "validate_labels seen labels = Inr () \<longleftrightarrow> distinct labels \<and> set labels \<inter> seen = {}"
  by (induction seen labels rule: validate_labels.induct) auto

lemma built_registry:
  fixes d :: "('b, 'e) discovery"
  assumes "build_with_handlers_guarded d tools b = Inr (reg, tools', b')"
  obtains resolved and r :: "'b registration" where "resolve_namespace_members tools = Inr resolved" "registration_ok r"
    "tr_entries reg = rg_entries r" "rg_entries r = concat (map (entries_of d) resolved)"
    "distinct (mcp_labels resolved)" "length (mcp_labels resolved) \<le> max_mcp_servers_per_request"
    "tr_custom_tool_map reg = build_tool_map tools'"
proof -
  from assms obtain resolved r u v m where res: "resolve_namespace_members tools = Inr resolved"
      "validate_server_labels resolved = Inr u" "validate_mcp_server_count resolved = Inr v"
      "run_steps (register_tool d) \<lparr>rg_tools = tools, rg_entries = [], rg_items = [], rg_discovered = 0, rg_budget = b\<rparr>
         (enumerate 0 resolved) = Inr r"
      "tr_entries reg = rg_entries r" "tr_custom_tool_map reg = build_tool_map tools'"
    by (auto simp: build_with_handlers_guarded_def result_simps)
  have "registration_ok \<lparr>rg_tools = tools, rg_entries = [], rg_items = [], rg_discovered = 0, rg_budget = b\<rparr>"
    by (simp add: registration_ok_def)
  from register_tools_run [OF this res(4)] have run: "registration_ok r" "rg_entries r = concat (map (entries_of d) resolved)"
    by simp_all
  have labels: "distinct (mcp_labels resolved)" "length (mcp_labels resolved) \<le> max_mcp_servers_per_request"
    using res(2,3) by (auto simp: validate_server_labels_def validate_labels_Inr validate_mcp_server_count_def Let_def split: if_splits)
  show thesis by (rule that [OF res(1) run(1) res(5) run(2) labels res(6)])
qed

definition function_names :: "responses_tool list \<Rightarrow> string list" where
  "function_names tools = List.map_filter (\<lambda>t. case t of FunctionTool p \<Rightarrow> Some (tool_name_str (ftp_name p)) | _ \<Rightarrow> None) tools"

lemma function_names_Cons [simp]:
  "function_names [] = []"
  "function_names (t # ts) = (case t of FunctionTool p \<Rightarrow> [tool_name_str (ftp_name p)] | _ \<Rightarrow> []) @ function_names ts"
  by (simp_all add: function_names_def List.map_filter_simps split: responses_tool.split)

lemma resolve_members_functions: "resolve_members ts b = Inr (ts', b') \<Longrightarrow> function_names ts' = function_names ts"
  by (induction ts b arbitrary: ts' b' rule: resolve_members.induct) (auto simp: result_simps)

lemma function_names_registered: "set (function_names ts) \<subseteq> set (im_keys (concat (map (entries_of d) ts)))"
  by (induction ts) (auto simp: entries_of_def im_keys_def split: responses_tool.splits)

lemma function_names_distinct:
  "distinct (im_keys (concat (map (entries_of d) ts))) \<Longrightarrow> distinct (function_names ts)"
proof (induction ts)
  case (Cons t ts)
  then have "distinct (function_names ts)" by (simp add: im_keys_def)
  moreover have "tool_name_str (ftp_name p) \<notin> set (function_names ts)" if "t = FunctionTool p" for p
    using Cons.prems that function_names_registered [of ts d] by (auto simp: entries_of_def im_keys_def)
  ultimately show ?case by (cases t) simp_all
qed simp

lemma built_function_names:
  fixes d :: "('b, 'e) discovery"
  assumes "build_with_handlers_guarded d tools b = Inr (reg, tools', b')"
  shows "distinct (function_names tools)"
  using assms
proof (rule built_registry)
  fix resolved and r :: "'b registration"
  assume "resolve_namespace_members tools = Inr resolved" "registration_ok r"
    "tr_entries reg = rg_entries r" "rg_entries r = concat (map (entries_of d) resolved)"
  then have "distinct (im_keys (concat (map (entries_of d) resolved)))"
    by (simp add: registration_ok_def im_wf_def im_keys_def)
  moreover have "function_names resolved = function_names tools"
    using \<open>resolve_namespace_members tools = Inr resolved\<close>
    by (auto simp: resolve_namespace_members_def result_simps dest: resolve_members_functions)
  ultimately show ?thesis by (metis function_names_distinct)
qed

text \<open>
  C28: the registry of a request lists every tool once. When it is built, its names are distinct and
  are exactly the names of the declared tools, of the flattened namespace members and of the
  tools discovered on reachable servers, in order of declaration, each with the owner its kind
  prescribes; no request has more servers or discovered tools than the limits, and a function
  call is the client's to act on exactly when the registry does not give it to the gateway. So a
  request in which two declarations get one name has no registry and is refused. No two plain
  functions have the same name either, where the design document and a warning in the code expect
  the last declaration to win.
\<close>

theorem registry_lists_every_tool_once:
  fixes d :: "('b, 'e) discovery"
  assumes "build_with_handlers_guarded d tools b = Inr (reg, tools', b')"
  shows "(case resolve_namespace_members tools of
      Inl _ \<Rightarrow> False
    | Inr resolved \<Rightarrow> tr_entries reg = concat (map (entries_of d) resolved)
        \<and> distinct (mcp_labels resolved) \<and> length (mcp_labels resolved) \<le> max_mcp_servers_per_request)
    \<and> distinct (im_keys (tr_entries reg))
    \<and> distinct (function_names tools)
    \<and> list_all owned_by_kind (tr_entries reg)
    \<and> length (filter is_mcp_entry (tr_entries reg)) \<le> max_discovered_mcp_tools_per_request
    \<and> requires_client_action reg (OutFunctionCall call) = (\<not> is_gateway_owned_name reg (fc_name call))"
  using assms
proof (rule built_registry)
  fix resolved and r :: "'b registration"
  assume r: "resolve_namespace_members tools = Inr resolved" "registration_ok r"
    "tr_entries reg = rg_entries r" "rg_entries r = concat (map (entries_of d) resolved)"
    "distinct (mcp_labels resolved)" "length (mcp_labels resolved) \<le> max_mcp_servers_per_request"
  then have "im_wf (tr_entries reg)" "list_all owned_by_kind (tr_entries reg)"
    "length (filter is_mcp_entry (tr_entries reg)) \<le> max_discovered_mcp_tools_per_request"
    by (simp_all add: registration_ok_def)
  with r built_function_names [OF assms] show ?thesis
    by (auto simp: im_wf_def im_keys_def is_gateway_owned_name_def split: option.split)
qed

definition local_discovery :: "(usize, tool_error) discovery" where
  "local_discovery = \<lparr>dy_server_tools = (\<lambda>_. Inl (Execution ''unreachable'')),
     dy_web_search = (\<lambda>_. \<lparr>gb_execute = (\<lambda>i _ _. Inr \<lparr>tu_call_id = i, tu_output = ''found''\<rparr>),
        gb_started_output = (\<lambda>_. None), gb_public_output = (\<lambda>_ _ _. None)\<rparr>),
     dy_fresh_list_id = (\<lambda>label. ''mcpl_'' @ label), dy_param_bytes = (\<lambda>_. Inr 1), dy_list_bytes = (\<lambda>_. Inr 1),
     dy_of_tool_error = id, dy_consume = discovery_consume\<rparr>"

definition web_and_function :: "responses_tool list" where
  "web_and_function =
     [WebSearchTool \<lparr>wtp_search_context_size = None, wtp_filters = None, wtp_user_location = None\<rparr>,
      FunctionTool (plain_function ''run'')]"

theorem registry_lists_every_tool_once_witness:
  "(case build_with_handlers_guarded local_discovery web_and_function 10 of
      Inl _ \<Rightarrow> False
    | Inr (reg, _, _) \<Rightarrow> im_keys (tr_entries reg) = [''web_search'', ''run''] \<and> distinct (im_keys (tr_entries reg))
        \<and> list_all owned_by_kind (tr_entries reg))"
proof -
  have run: "tool_name_str (ftp_name (plain_function ''run'')) = ''run''"
    by (simp add: plain_function_def Abs_tool_name_inverse)
  have res: "resolve_namespace_members web_and_function = Inr web_and_function"
    by (simp add: web_and_function_def resolve_namespace_members_def)
  have built: "\<exists>reg. build_with_handlers_guarded local_discovery web_and_function 10 = Inr (reg, web_and_function, 10)"
    by (simp add: build_with_handlers_guarded_def res tool_result_def validate_server_labels_def mcp_labels_def
        validate_mcp_server_count_def max_mcp_servers_per_request_def)
       (simp add: web_and_function_def register_tool_def run tool_result_def build_namespace_map_def List.map_filter_simps)
  then obtain reg where reg: "build_with_handlers_guarded local_discovery web_and_function 10 = Inr (reg, web_and_function, 10)" ..
  have entries: "tr_entries reg = concat (map (entries_of local_discovery) web_and_function)"
    "distinct (im_keys (tr_entries reg))" "list_all owned_by_kind (tr_entries reg)"
    using registry_lists_every_tool_once [OF reg, of undefined] unfolding res sum.case by blast+
  have "im_keys (tr_entries reg) = [''web_search'', ''run'']"
    by (simp add: entries(1)) (simp add: web_and_function_def entries_of_def im_keys_def run)
  with entries(2,3) show ?thesis by (simp add: reg)
qed

end
