(* ===== verification/Gateway.thy ===== *)
theory Gateway
  imports Registry "HOL-Library.Multiset"
begin

text \<open>
  Calls the gateway executes itself, \<open>executor/gateway.rs\<close>, with the item conversions of
  \<open>tool/custom.rs\<close>, \<open>tool/shell.rs\<close> and \<open>tool/mcp/handler.rs\<close> it uses. Calls of a round run
  concurrently; \<open>join_all\<close> gathers their results in the order of the plan. The model runs them in an
  arbitrary order of completion, which is an argument. Whether a call exceeds its time is an
  argument too. Emitted events go through the relay one after the other; the first error ends
  the sequence.
\<close>

section \<open>Items shown to the client\<close>

definition starts_with_prefix_id :: "string \<Rightarrow> string \<Rightarrow> string" where
  "starts_with_prefix_id p item_id =
     (if prefix p item_id then item_id
      else (case filter_option (\<lambda>s. s \<noteq> '''') (str_strip_prefix ''fc_'' item_id) of
              Some s \<Rightarrow> p @ s
            | None \<Rightarrow> p @ hex16 (stable_name_hash item_id)))"

definition custom_public_item_id :: "string \<Rightarrow> string" where
  "custom_public_item_id = starts_with_prefix_id ''ctc_''"

definition shell_public_item_id :: "string \<Rightarrow> string" where
  "shell_public_item_id = starts_with_prefix_id ''sh_''"

definition try_input_from_arguments :: "codec \<Rightarrow> string \<Rightarrow> string option" where
  "try_input_from_arguments c arguments =
     (case cd_parse c arguments of
        Some (JString input) \<Rightarrow> Some input
      | Some (JObject m) \<Rightarrow> Option.bind (im_get m ''input'') as_str
      | _ \<Rightarrow> None)"

definition input_from_arguments :: "codec \<Rightarrow> string \<Rightarrow> string" where
  "input_from_arguments c arguments = unwrap_or (try_input_from_arguments c arguments) arguments"

definition custom_output_item :: "codec \<Rightarrow> function_tool_call \<Rightarrow> output_item" where
  "custom_output_item c call =
     OutCustomToolCall \<lparr>ct_id = custom_public_item_id (fc_id call), ct_status = Some (fc_status call),
       ct_call_id = fc_call_id call, ct_name = fc_name call, ct_input = input_from_arguments c (fc_arguments call)\<rparr>"

definition shell_output_item :: "(string \<Rightarrow> shell_call_action option) \<Rightarrow> function_tool_call \<Rightarrow> output_item option" where
  "shell_output_item action_of_text call =
     map_option (\<lambda>action.
       OutShellCall \<lparr>sc_id = Some (shell_public_item_id (fc_id call)), sc_call_id = fc_call_id call, sc_action = action,
         sc_status = Some (shell_status_of_message (fc_status call)), sc_extra = []\<rparr>)
       (action_of_text (fc_arguments call))"

definition started_list_tools_output_item :: "mcp_list_tools \<Rightarrow> output_item" where
  "started_list_tools_output_item item = OutMcpListTools (new_mcp_list_tools (ml_id item) (ml_server_label item) [])"

section \<open>Plans\<close>

record gateway_call_result =
  gr_item_index :: usize
  gr_input_item :: input_item
  gr_public_output :: "output_item option"

record gateway_event_plan =
  gp_output_index :: u32
  gp_started_output :: "output_item option"
  gp_completed_output :: "output_item option"
  gp_arguments :: "string option"

datatype gateway_execution_plan = Bound gateway_binding | MissingHandler

record gateway_call_plan =
  gc_item_index :: usize
  gc_call :: function_tool_call
  gc_execution :: gateway_execution_plan
  gc_events :: gateway_event_plan

definition plan_output_index :: "usize \<Rightarrow> usize \<Rightarrow> u32" where
  "plan_output_index output_offset item_index =
     unwrap_or (u32_of_usize (usize_saturating_add output_offset item_index)) (- 1)"

definition plan_call :: "tool_registry \<Rightarrow> usize \<Rightarrow> usize \<times> output_item \<Rightarrow> gateway_call_plan option" where
  "plan_call reg output_offset indexed =
     (case indexed of
        (item_index, OutFunctionCall call) \<Rightarrow>
          Option.bind (lookup reg (fc_name call)) (\<lambda>e.
            case ty_ownership e of
              ClientOwned \<Rightarrow> None
            | GatewayOwned b \<Rightarrow>
                Some \<lparr>gc_item_index = item_index, gc_call = call,
                  gc_execution = (case b of None \<Rightarrow> MissingHandler | Some h \<Rightarrow> Bound h),
                  gc_events = \<lparr>gp_output_index = plan_output_index output_offset item_index,
                    gp_started_output = Option.bind b (\<lambda>h. gb_started_output h call),
                    gp_completed_output = None, gp_arguments = Some (fc_arguments call)\<rparr>\<rparr>)
      | _ \<Rightarrow> None)"

definition plan_calls :: "output_item list \<Rightarrow> tool_registry \<Rightarrow> usize \<Rightarrow> gateway_call_plan list" where
  "plan_calls output_items reg output_offset = List.map_filter (plan_call reg output_offset) (enumerate 0 output_items)"

definition call_index_for_item :: "gateway_call_plan list \<Rightarrow> usize \<Rightarrow> usize option" where
  "call_index_for_item plans item_index =
     find (\<lambda>i. gc_item_index (plans ! i) = item_index) [0..<length plans]"

definition initial_event_run_len :: "output_item list \<Rightarrow> tool_registry \<Rightarrow> gateway_call_plan list \<Rightarrow> usize" where
  "initial_event_run_len output_items reg plans =
     (case plans of
        [] \<Rightarrow> 0
      | p # _ \<Rightarrow>
          if list_ex (\<lambda>x. case x of OutFunctionCall call \<Rightarrow> is_client_custom_name reg (fc_name call) | _ \<Rightarrow> False)
               (take (gc_item_index p) output_items)
          then 0
          else length (takeWhile (\<lambda>(n, q). gc_item_index q = usize_saturating_add (gc_item_index p) n) (enumerate 0 plans)))"

section \<open>Execution\<close>

definition max_gateway_tool_output_bytes :: usize where
  "max_gateway_tool_output_bytes = 1024 * 1024"

definition enforce_gateway_tool_output_size :: "usize \<Rightarrow> executor_error + unit" where
  "enforce_gateway_tool_output_size bytes =
     (if max_gateway_tool_output_bytes < bytes
      then Inl (StreamError (''gateway tool output exceeded '' @ show_nat max_gateway_tool_output_bytes @ '' bytes''))
      else Inr ())"

definition execution_error_output :: "json_printer \<Rightarrow> function_tool_call \<Rightarrow> string \<Rightarrow> executor_error + tool_output" where
  "execution_error_output print call message =
     (case print (JObject [(''error'', JString message)]) of
        Inl e \<Rightarrow> Inl (JsonError e)
      | Inr out \<Rightarrow> Inr \<lparr>tu_call_id = fc_call_id call, tu_output = out\<rparr>)"

definition input_of_tool_output :: "tool_output \<Rightarrow> input_item" where
  "input_of_tool_output out =
     InFunctionCallOutput \<lparr>fr_call_id = tu_call_id out, fr_output = OutputString (tu_output out)\<rparr>"

text \<open>What a call comes to before its output is charged: the output and the public item.\<close>

definition call_outcome ::
  "json_printer \<Rightarrow> (function_tool_call \<Rightarrow> bool) \<Rightarrow> gateway_call_plan \<Rightarrow> executor_error + tool_output \<times> output_item option" where
  "call_outcome print elapsed p =
     (let call = gc_call p
      in case gc_execution p of
           MissingHandler \<Rightarrow>
             and_then (execution_error_output print call
                 (''gateway tool '' @ quoted (fc_name call) @ '' has no registered handler'')) (\<lambda>out. Inr (out, None))
         | Bound b \<Rightarrow>
             let dispatched =
               (if elapsed call
                then Inl (Execution (''gateway tool '' @ quoted (fc_name call) @ '' timed out after 60s''))
                else gb_execute b (fc_call_id call) (fc_name call) (fc_arguments call))
             in and_then
                 (case dispatched of
                    Inr out \<Rightarrow> Inr (out, GatewayCompleted)
                  | Inl (Execution m) \<Rightarrow> and_then (execution_error_output print call m) (\<lambda>out. Inr (out, GatewayFailed))
                  | Inl (Config m) \<Rightarrow> and_then (execution_error_output print call m) (\<lambda>out. Inr (out, GatewayFailed))
                  | Inl e \<Rightarrow> Inl (Tool e))
                 (\<lambda>(out, status). Inr (out, gb_public_output b call out status)))"

definition run_one ::
  "json_printer \<Rightarrow> (function_tool_call \<Rightarrow> bool) \<Rightarrow> gateway_call_plan \<Rightarrow> executor_response_budget
   \<Rightarrow> (executor_error + gateway_call_result) \<times> executor_response_budget" where
  "run_one print elapsed p b =
     (case and_then (call_outcome print elapsed p) (\<lambda>(out, public).
             and_then (enforce_gateway_tool_output_size (length (tu_output out))) (\<lambda>_.
             and_then (budget_consume b (length (tu_output out))) (\<lambda>b'.
               Inr (\<lparr>gr_item_index = gc_item_index p, gr_input_item = input_of_tool_output out, gr_public_output = public\<rparr>, b')))) of
        Inl e \<Rightarrow> (Inl e, b)
      | Inr (r, b') \<Rightarrow> (Inr r, b'))"

fun run_in_order ::
  "json_printer \<Rightarrow> (function_tool_call \<Rightarrow> bool) \<Rightarrow> gateway_call_plan list \<Rightarrow> nat list \<Rightarrow> executor_response_budget
   \<Rightarrow> (nat \<times> (executor_error + gateway_call_result)) list \<times> executor_response_budget" where
  "run_in_order print elapsed plans [] b = ([], b)"
| "run_in_order print elapsed plans (i # order) b =
     (let (r, b') = run_one print elapsed (plans ! i) b;
          (rs, b'') = run_in_order print elapsed plans order b'
      in ((i, r) # rs, b''))"

definition execute_with_budget ::
  "json_printer \<Rightarrow> (function_tool_call \<Rightarrow> bool) \<Rightarrow> nat list \<Rightarrow> gateway_call_plan list \<Rightarrow> executor_response_budget
   \<Rightarrow> (executor_error + gateway_call_result list \<times> gateway_call_plan list) \<times> executor_response_budget" where
  "execute_with_budget print elapsed order plans b =
     (let (results, b') = run_in_order print elapsed plans order b
      in (and_then (collect_results (map (\<lambda>i. the (map_of results i)) [0..<length plans])) (\<lambda>rs.
            Inr (rs, map2 (\<lambda>p r. p\<lparr>gc_events := (gc_events p)\<lparr>gp_completed_output := gr_public_output r\<rparr>\<rparr>) plans rs)), b'))"

section \<open>Public output\<close>

definition has_client_owned_calls :: "output_item list \<Rightarrow> tool_registry \<Rightarrow> bool" where
  "has_client_owned_calls output_items reg = list_ex (requires_client_action reg) output_items"

definition public_output_item ::
  "codec \<Rightarrow> (string \<Rightarrow> shell_call_action option) \<Rightarrow> tool_registry \<Rightarrow> gateway_call_result list \<Rightarrow> usize \<times> output_item
   \<Rightarrow> executor_error + output_item" where
  "public_output_item c action_of_text reg results indexed =
     (case indexed of
        (item_index, OutFunctionCall call) \<Rightarrow>
          if is_client_custom_name reg (fc_name call) then Inr (custom_output_item c call)
          else if is_client_shell_name reg (fc_name call)
          then ok_or (shell_output_item action_of_text call)
                 (ParseError ''shell function call contains invalid action arguments'')
          else if is_gateway_owned_name reg (fc_name call)
          then Inr (unwrap_or (Option.bind (find (\<lambda>r. gr_item_index r = item_index) results) gr_public_output)
                      (OutFunctionCall call))
          else Inr (OutFunctionCall call)
      | (_, other) \<Rightarrow> Inr other)"

definition public_output_items ::
  "codec \<Rightarrow> (string \<Rightarrow> shell_call_action option) \<Rightarrow> output_item list \<Rightarrow> tool_registry \<Rightarrow> gateway_call_result list
   \<Rightarrow> executor_error + output_item list" where
  "public_output_items c action_of_text output_items reg results =
     collect_results (map (public_output_item c action_of_text reg results) (enumerate 0 output_items))"

section \<open>Lifecycle events\<close>

text \<open>
  What writing events needs from outside: printing, the client, and the JSON of items and
  payloads. Writing events is a list of frames to build and send in order; building one may fail.
\<close>

record emitter =
  em_print :: json_printer
  em_open :: "nat \<Rightarrow> bool"
  em_item :: "output_item \<Rightarrow> string + json"
  em_payload :: "response_payload \<Rightarrow> string + json"

type_synonym planned_event = "executor_error + event_frame"

definition emit_gateway_event :: "emitter \<Rightarrow> event_frame \<Rightarrow> relay \<Rightarrow> (executor_error + unit) \<times> relay" where
  "emit_gateway_event em f r =
     (case relay_event (em_print em) (em_open em) 0 f r of
        (Inl e, r') \<Rightarrow> (Inl e, r')
      | (Inr _, r') \<Rightarrow> (Inr (), r'))"

fun emit_gateway_events :: "emitter \<Rightarrow> planned_event list \<Rightarrow> relay \<Rightarrow> (executor_error + unit) \<times> relay" where
  "emit_gateway_events em [] r = (Inr (), r)"
| "emit_gateway_events em (Inl e # es) r = (Inl e, r)"
| "emit_gateway_events em (Inr f # es) r =
     (case emit_gateway_event em f r of
        (Inl e, r') \<Rightarrow> (Inl e, r')
      | (Inr _, r') \<Rightarrow> emit_gateway_events em es r')"

definition output_item_value :: "emitter \<Rightarrow> output_item \<Rightarrow> executor_error + json" where
  "output_item_value em item = (case em_item em item of Inl e \<Rightarrow> Inl (JsonError e) | Inr v \<Rightarrow> Inr v)"

definition response_start_events :: "emitter \<Rightarrow> response_payload \<Rightarrow> planned_event list" where
  "response_start_events em payload =
     (case em_payload em (payload\<lparr>rp_status := ''in_progress'', rp_output := [], rp_usage := None\<rparr>) of
        Inl e \<Rightarrow> [Inl (JsonError e)]
      | Inr v \<Rightarrow> map (\<lambda>t. synthetic_event t [(''response'', v)]) [ResponseCreated, ResponseInProgress])"

definition item_event :: "sse_event_type \<Rightarrow> json_map \<Rightarrow> string \<Rightarrow> u32 \<Rightarrow> json_map \<Rightarrow> planned_event" where
  "item_event t before item_id i after =
     synthetic_event t (before @ [(''item_id'', JString item_id), (''output_index'', json_u32_value i)] @ after)"

fun started_item_events :: "gateway_event_plan \<Rightarrow> output_item \<Rightarrow> planned_event list" where
  "started_item_events p (OutWebSearchCall x) =
     [item_event WebSearchCallInProgress [] (ws_id x) (gp_output_index p) [],
      item_event WebSearchCallSearching [] (ws_id x) (gp_output_index p) []]"
| "started_item_events p (OutMcpCall x) =
     (let arguments = JString (unwrap_or (gp_arguments p) '''')
      in [item_event McpCallInProgress [] (mc_id x) (gp_output_index p) [],
          item_event McpCallArgumentsDelta [(''delta'', arguments)] (mc_id x) (gp_output_index p) [],
          item_event McpCallArgumentsDone [(''arguments'', arguments)] (mc_id x) (gp_output_index p) []])"
| "started_item_events p (OutMcpListTools x) = [item_event McpListToolsInProgress [] (ml_id x) (gp_output_index p) []]"
| "started_item_events p _ = []"

definition item_frame :: "sse_event_type \<Rightarrow> u32 \<Rightarrow> json \<Rightarrow> planned_event" where
  "item_frame t i item = synthetic_event t [(''output_index'', json_u32_value i), (''item'', item)]"

definition start_events_of :: "emitter \<Rightarrow> gateway_event_plan \<Rightarrow> planned_event list" where
  "start_events_of em p =
     (case gp_started_output p of
        None \<Rightarrow> []
      | Some x \<Rightarrow>
          (case output_item_value em x of
             Inl e \<Rightarrow> [Inl e]
           | Inr item \<Rightarrow> item_frame OutputItemAdded (gp_output_index p) item # started_item_events p x))"

definition emit_gateway_start_events ::
  "emitter \<Rightarrow> gateway_event_plan list \<Rightarrow> relay \<Rightarrow> (executor_error + unit) \<times> relay" where
  "emit_gateway_start_events em plans = emit_gateway_events em (concat (map (start_events_of em) plans))"

text \<open>The event that completes an item, if it has one, and whether the item is completed here at all.\<close>

fun completed_kind :: "output_item \<Rightarrow> (sse_event_type \<times> string) option option" where
  "completed_kind (OutWebSearchCall x) = Some (Some (WebSearchCallCompleted, ws_id x))"
| "completed_kind (OutMcpCall x) =
     Some (Some (if mc_status x = Some McpFailed then McpCallFailed else McpCallCompleted, mc_id x))"
| "completed_kind (OutMcpListTools x) =
     Some (Some (if ml_error x \<noteq> None then McpListToolsFailed else McpListToolsCompleted, ml_id x))"
| "completed_kind (OutCompaction _) = Some None"
| "completed_kind (OutShellCall _) = Some None"
| "completed_kind _ = None"

definition completed_events_of :: "emitter \<Rightarrow> output_item option \<times> gateway_event_plan \<Rightarrow> planned_event list" where
  "completed_events_of em indexed =
     (case indexed of (public, p) \<Rightarrow>
        (case or_else (gp_completed_output p) public of
           None \<Rightarrow> []
         | Some x \<Rightarrow>
             (case completed_kind x of
                None \<Rightarrow> []
              | Some kind \<Rightarrow>
                  (case output_item_value em x of
                     Inl e \<Rightarrow> [Inl e]
                   | Inr item \<Rightarrow>
                       (case kind of
                          None \<Rightarrow> []
                        | Some (t, item_id) \<Rightarrow>
                            [item_event t [] item_id (gp_output_index p)
                               (case x of OutWebSearchCall _ \<Rightarrow> [(''item'', item)] | _ \<Rightarrow> [])])
                       @ [item_frame OutputItemDone (gp_output_index p) item]))))"

text \<open>\<open>results\<close> holds the public output of each result, in the order of the plans.\<close>

definition with_results :: "output_item option list \<Rightarrow> gateway_event_plan list \<Rightarrow> (output_item option \<times> gateway_event_plan) list" where
  "with_results results plans =
     map (\<lambda>(i, p). (if i < length results then results ! i else None, p)) (enumerate 0 plans)"

definition emit_gateway_completed_events ::
  "emitter \<Rightarrow> output_item option list \<Rightarrow> gateway_event_plan list \<Rightarrow> relay \<Rightarrow> (executor_error + unit) \<times> relay" where
  "emit_gateway_completed_events em results plans =
     emit_gateway_events em (concat (map (completed_events_of em) (with_results results plans)))"

definition mcp_list_tools_event_plans :: "output_item list \<Rightarrow> usize \<Rightarrow> gateway_event_plan list" where
  "mcp_list_tools_event_plans public output_offset =
     List.map_filter (\<lambda>(i, x). case x of
         OutMcpListTools item \<Rightarrow>
           Some \<lparr>gp_output_index = plan_output_index output_offset i,
             gp_started_output = Some (started_list_tools_output_item item), gp_completed_output = Some x,
             gp_arguments = None\<rparr>
       | _ \<Rightarrow> None) (enumerate 0 public)"

definition compaction_event_plans :: "output_item list \<Rightarrow> usize \<Rightarrow> gateway_event_plan list" where
  "compaction_event_plans public output_offset =
     List.map_filter (\<lambda>(i, x). case x of
         OutCompaction _ \<Rightarrow>
           Some \<lparr>gp_output_index = plan_output_index output_offset i, gp_started_output = Some x,
             gp_completed_output = Some x, gp_arguments = None\<rparr>
       | _ \<Rightarrow> None) (enumerate 0 public)"

section \<open>A round of calls\<close>

text \<open>
  How a round runs: the order in which calls complete, and which of them take too long. The order
  is a permutation of the calls.
\<close>

record schedule =
  sh_order :: "nat \<Rightarrow> nat list"
  sh_elapsed :: "function_tool_call \<Rightarrow> bool"

definition execute_plans ::
  "emitter \<Rightarrow> schedule \<Rightarrow> gateway_call_plan list \<Rightarrow> executor_response_budget
   \<Rightarrow> (executor_error + gateway_call_result list \<times> gateway_call_plan list) \<times> executor_response_budget" where
  "execute_plans em sh plans = execute_with_budget (em_print em) (sh_elapsed sh) (sh_order sh (length plans)) plans"

definition execute_and_emit_output_calls ::
  "emitter \<Rightarrow> schedule \<Rightarrow> output_item list \<Rightarrow> tool_registry \<Rightarrow> usize \<Rightarrow> executor_response_budget \<Rightarrow> relay option
   \<Rightarrow> (executor_error + gateway_call_result list) \<times> executor_response_budget \<times> relay option" where
  "execute_and_emit_output_calls em sh output_items reg output_offset b stream =
     (let plans = plan_calls output_items reg output_offset;
          (started, stream') =
            (case stream of
               None \<Rightarrow> (Inr (), None)
             | Some r \<Rightarrow> map_prod id Some (emit_gateway_start_events em (map gc_events plans) r))
      in case started of
           Inl e \<Rightarrow> (Inl e, b, stream')
         | Inr _ \<Rightarrow>
             (case execute_plans em sh plans b of
                (Inl e, b') \<Rightarrow> (Inl e, b', stream')
              | (Inr (rs, done_plans), b') \<Rightarrow>
                  (case stream' of
                     None \<Rightarrow> (Inr rs, b', None)
                   | Some r \<Rightarrow>
                       (case emit_gateway_completed_events em (map gr_public_output rs) (map gc_events done_plans) r of
                          (Inl e, r') \<Rightarrow> (Inl e, b', Some r')
                        | (Inr _, r') \<Rightarrow> (Inr rs, b', Some r')))))"

section \<open>Feeding a round back\<close>

definition append_input_item :: "printers \<Rightarrow> input_item \<Rightarrow> responses_input \<Rightarrow> responses_input" where
  "append_input_item p item input =
     (case input of
        ItemsInput items \<Rightarrow> ItemsInput (items @ [item])
      | TextInput t \<Rightarrow> ItemsInput (items_of_input p (TextInput t) @ [item]))"

definition append_output_items_to_input :: "printers \<Rightarrow> output_item list \<Rightarrow> responses_input \<Rightarrow> responses_input" where
  "append_output_items_to_input p output_items =
     fold (append_input_item p) (List.map_filter (to_input_item (pr_json p) (pr_action p)) output_items)"

definition append_tool_outputs :: "printers \<Rightarrow> input_item list \<Rightarrow> request_context \<Rightarrow> request_context" where
  "append_tool_outputs p outs ctx =
     fold (\<lambda>item x. x\<lparr>rc_new_input_items := rc_new_input_items x @ [item],
         rc_enriched_request := (rc_enriched_request x)
           \<lparr>rq_input := append_input_item p item (rq_input (rc_enriched_request x))\<rparr>\<rparr>) outs ctx"

definition append_gateway_calls_to_new_input ::
  "output_item list \<Rightarrow> tool_registry \<Rightarrow> request_context \<Rightarrow> request_context" where
  "append_gateway_calls_to_new_input output_items reg ctx =
     ctx\<lparr>rc_new_input_items := rc_new_input_items ctx
       @ List.map_filter (\<lambda>x. case x of
             OutFunctionCall call \<Rightarrow>
               if is_gateway_owned_name reg (fc_name call) then Some (InFunctionCall (input_call_of_function call)) else None
           | _ \<Rightarrow> None) output_items\<rparr>"

section \<open>The order of completion\<close>

abbreviation isr :: "'e + 'a \<Rightarrow> bool" where
  "isr r \<equiv> \<not> isl r"

text \<open>What a call comes to when the budget is left out, and what it costs.\<close>

definition call_result ::
  "json_printer \<Rightarrow> (function_tool_call \<Rightarrow> bool) \<Rightarrow> gateway_call_plan \<Rightarrow> executor_error + gateway_call_result \<times> usize" where
  "call_result print elapsed p =
     and_then (call_outcome print elapsed p) (\<lambda>(out, public).
     and_then (enforce_gateway_tool_output_size (length (tu_output out))) (\<lambda>_.
       Inr (\<lparr>gr_item_index = gc_item_index p, gr_input_item = input_of_tool_output out, gr_public_output = public\<rparr>,
            length (tu_output out))))"

definition result_of :: "'e + 'a \<times> usize \<Rightarrow> 'a" where
  "result_of r = (case r of Inr (x, _) \<Rightarrow> x)"

definition cost_of :: "'e + 'a \<times> usize \<Rightarrow> usize" where
  "cost_of r = (case r of Inl _ \<Rightarrow> 0 | Inr (_, n) \<Rightarrow> n)"

text \<open>All calls come to a result and their outputs fit into what is left of the budget.\<close>

definition round_fits ::
  "json_printer \<Rightarrow> (function_tool_call \<Rightarrow> bool) \<Rightarrow> gateway_call_plan list \<Rightarrow> executor_response_budget \<Rightarrow> bool" where
  "round_fits print elapsed plans b \<longleftrightarrow>
     list_all (\<lambda>p. isr (call_result print elapsed p)) plans
     \<and> sum_list (map (\<lambda>p. cost_of (call_result print elapsed p)) plans) \<le> eb_remaining b"

lemma run_one_eq:
  "run_one print elapsed p b =
     (case call_result print elapsed p of
        Inl e \<Rightarrow> (Inl e, b)
      | Inr (r, n) \<Rightarrow> (case budget_consume b n of Inl e \<Rightarrow> (Inl e, b) | Inr b' \<Rightarrow> (Inr r, b')))"
  by (auto simp: run_one_def call_result_def and_then_def split: sum.splits prod.splits)

lemma isr_cases: "isr r \<longleftrightarrow> (\<exists>x n. r = Inr (x, n))" for r :: "'e + 'a \<times> 'b"
  by (cases r) auto

lemma budget_consume_eq:
  "budget_consume b n =
     (if n \<le> eb_remaining b then Inr (b\<lparr>eb_remaining := eb_remaining b - n\<rparr>)
      else Inl (StreamError (''executor response budget exceeded '' @ show_nat max_executor_response_bytes @ '' bytes'')))"
  by (simp add: budget_consume_def usize_checked_sub_def)

lemma run_in_order_fits:
  assumes "\<forall>i\<in>set order. isr (call_result print elapsed (plans ! i))"
    and "sum_list (map (\<lambda>i. cost_of (call_result print elapsed (plans ! i))) order) \<le> eb_remaining b"
  shows "run_in_order print elapsed plans order b =
    (map (\<lambda>i. (i, Inr (result_of (call_result print elapsed (plans ! i))))) order,
     b\<lparr>eb_remaining := eb_remaining b - sum_list (map (\<lambda>i. cost_of (call_result print elapsed (plans ! i))) order)\<rparr>)"
  using assms
proof (induction order arbitrary: b)
  case Nil
  then show ?case by simp
next
  case (Cons i order)
  then obtain r n where r: "call_result print elapsed (plans ! i) = Inr (r, n)" by (auto simp: isr_cases)
  let ?b = "b\<lparr>eb_remaining := eb_remaining b - n\<rparr>"
  have "run_one print elapsed (plans ! i) b = (Inr r, ?b)"
    using Cons.prems(2) by (simp add: run_one_eq r budget_consume_eq cost_of_def)
  moreover from Cons.prems r have "\<forall>i\<in>set order. isr (call_result print elapsed (plans ! i))"
    "sum_list (map (\<lambda>i. cost_of (call_result print elapsed (plans ! i))) order) \<le> eb_remaining ?b"
    by (auto simp: cost_of_def)
  note Cons.IH [OF this]
  ultimately show ?case by (simp add: r result_of_def cost_of_def)
qed

lemma run_in_order_ok:
  assumes "run_in_order print elapsed plans order b = (rs, b')" "list_all (\<lambda>(_, r). isr r) rs"
  shows "(\<forall>i\<in>set order. isr (call_result print elapsed (plans ! i)))
    \<and> sum_list (map (\<lambda>i. cost_of (call_result print elapsed (plans ! i))) order) \<le> eb_remaining b"
  using assms
proof (induction order arbitrary: b rs)
  case Nil
  then show ?case by simp
next
  case (Cons i order)
  obtain r b1 rest where steps: "run_one print elapsed (plans ! i) b = (r, b1)"
      "run_in_order print elapsed plans order b1 = (rest, b')" "rs = (i, r) # rest"
    using Cons.prems(1) by (auto split: prod.splits)
  then have ok: "isr r" "list_all (\<lambda>(_, r). isr r) rest" using Cons.prems(2) by simp_all
  obtain x n where x: "call_result print elapsed (plans ! i) = Inr (x, n)"
    using steps(1) ok(1) by (cases "call_result print elapsed (plans ! i)") (auto simp: run_one_eq)
  then have "budget_consume b n = Inr b1"
    using steps(1) ok(1) by (cases "budget_consume b n") (auto simp: run_one_eq)
  then have n: "n \<le> eb_remaining b" "b1 = b\<lparr>eb_remaining := eb_remaining b - n\<rparr>"
    by (simp_all only: budget_consume_eq split: if_splits) auto
  have "cost_of (call_result print elapsed (plans ! i)) = n" by (simp add: x cost_of_def)
  then show ?case using Cons.IH [OF steps(2) ok(2)] n by (auto simp: x)
qed

lemma run_in_order_keys: "map fst (fst (run_in_order print elapsed plans order b)) = order"
proof (induction order arbitrary: b)
  case (Cons i order)
  then show ?case by (simp add: split_beta)
qed simp

lemma execute_with_budget_spec:
  assumes perm: "mset order = mset [0..<length plans]"
  shows "execute_with_budget print elapsed order plans b =
      (let rs = map (\<lambda>p. result_of (call_result print elapsed p)) plans
       in if round_fits print elapsed plans b
          then (Inr (rs, map2 (\<lambda>p r. p\<lparr>gc_events := (gc_events p)\<lparr>gp_completed_output := gr_public_output r\<rparr>\<rparr>) plans rs),
                b\<lparr>eb_remaining := eb_remaining b - sum_list (map (\<lambda>p. cost_of (call_result print elapsed p)) plans)\<rparr>)
          else execute_with_budget print elapsed order plans b)
    \<and> (\<not> round_fits print elapsed plans b \<longrightarrow> (\<exists>e. fst (execute_with_budget print elapsed order plans b) = Inl e))"
proof -
  let ?c = "\<lambda>i. call_result print elapsed (plans ! i)"
  obtain results b' where run: "run_in_order print elapsed plans order b = (results, b')" by force
  have keys: "map fst results = order" using run_in_order_keys [of print elapsed plans order b] by (simp add: run)
  have order: "set order = {0..<length plans}" "distinct order"
    using arg_cong [OF perm, of set_mset] mset_eq_imp_distinct_iff [OF perm] by simp_all
  have sums: "sum_list (map (\<lambda>i. cost_of (?c i)) order) = sum_list (map (\<lambda>p. cost_of (call_result print elapsed p)) plans)"
  proof -
    have "mset (map (\<lambda>i. cost_of (?c i)) order) = mset (map (\<lambda>i. cost_of (?c i)) [0..<length plans])"
      using perm by simp
    then have "sum_list (map (\<lambda>i. cost_of (?c i)) order) = sum_list (map (\<lambda>i. cost_of (?c i)) [0..<length plans])"
      by (metis sum_mset_sum_list)
    also have "map (\<lambda>i. cost_of (?c i)) [0..<length plans] = map (\<lambda>p. cost_of (call_result print elapsed p)) plans"
      by (rule nth_equalityI) simp_all
    finally show ?thesis .
  qed
  have all: "(\<forall>i\<in>set order. isr (?c i)) \<longleftrightarrow> list_all (\<lambda>p. isr (call_result print elapsed p)) plans"
    by (auto simp: order(1) list_all_length)
  show ?thesis
  proof (cases "round_fits print elapsed plans b")
    case True
    then have "results = map (\<lambda>i. (i, Inr (result_of (?c i)))) order"
      and b': "b' = b\<lparr>eb_remaining := eb_remaining b - sum_list (map (\<lambda>p. cost_of (call_result print elapsed p)) plans)\<rparr>"
      using run_in_order_fits [of order print elapsed plans b] run by (auto simp: round_fits_def all sums)
    then have found: "map_of results i = Some (Inr (result_of (?c i)))" if "i < length plans" for i
      using that order(1) by (auto simp: map_of_map_restrict o_def)
    have "map (\<lambda>i. the (map_of results i)) [0..<length plans] =
        map Inr (map (\<lambda>p. result_of (call_result print elapsed p)) plans)"
      by (rule nth_equalityI) (simp_all add: found)
    then have "collect_results (map (\<lambda>i. the (map_of results i)) [0..<length plans]) =
        Inr (map (\<lambda>p. result_of (call_result print elapsed p)) plans)"
      by (simp only: collect_results_map_Inr)
    then show ?thesis using True by (simp add: execute_with_budget_def run b' Let_def)
  next
    case False
    then have "\<not> list_all (\<lambda>(_, r). isr r) results"
      using run_in_order_ok [OF run] by (auto simp: round_fits_def all sums)
    then obtain i e where i: "(i, Inl e) \<in> set results" by (auto simp: list_all_iff split_beta isl_def elim!: sum.exhaust)
    then have "map_of results i = Some (Inl e)" using order(2) keys by simp
    moreover have "i < length plans"
      using i keys order(1) by (metis atLeastLessThan_iff fst_conv image_eqI list.set_map)
    ultimately have "Inl e \<in> set (map (\<lambda>i. the (map_of results i)) [0..<length plans])" by force
    then have "\<exists>e. collect_results (map (\<lambda>i. the (map_of results i)) [0..<length plans]) = Inl e"
      by (metis (no_types) collect_results_Inr sum.exhaust_sel Inl_Inr_False image_iff list.set_map sum.collapse(1) sum.collapse(2))
    then show ?thesis using False by (auto simp: execute_with_budget_def run)
  qed
qed

definition is_gateway_call :: "tool_registry \<Rightarrow> output_item \<Rightarrow> bool" where
  "is_gateway_call reg x = (case x of OutFunctionCall call \<Rightarrow> is_gateway_owned_name reg (fc_name call) | _ \<Rightarrow> False)"

lemma plan_call_eq:
  "plan_call reg k (i, x) =
     (case x of
        OutFunctionCall call \<Rightarrow>
          (case lookup reg (fc_name call) of
             Some e \<Rightarrow>
               (case ty_ownership e of
                  ClientOwned \<Rightarrow> None
                | GatewayOwned b \<Rightarrow>
                    Some \<lparr>gc_item_index = i, gc_call = call,
                      gc_execution = (case b of None \<Rightarrow> MissingHandler | Some h \<Rightarrow> Bound h),
                      gc_events = \<lparr>gp_output_index = plan_output_index k i,
                        gp_started_output = Option.bind b (\<lambda>h. gb_started_output h call),
                        gp_completed_output = None, gp_arguments = Some (fc_arguments call)\<rparr>\<rparr>)
           | None \<Rightarrow> None)
      | _ \<Rightarrow> None)"
  by (cases x) (auto simp: plan_call_def split: option.splits)

lemma plan_call_planned: "is_gateway_call reg x \<longleftrightarrow> plan_call reg k (i, x) \<noteq> None"
  by (cases x) (auto simp: plan_call_eq is_gateway_call_def is_gateway_owned_name_def
      split: option.splits tool_ownership.splits)

lemma plan_call_index: "plan_call reg k (i, x) = Some p \<Longrightarrow> gc_item_index p = i \<and> x = OutFunctionCall (gc_call p)"
  by (auto simp: plan_call_eq split: output_item.splits option.splits tool_ownership.splits)

lemma plan_calls_from:
  "map (\<lambda>p. (gc_item_index p, OutFunctionCall (gc_call p))) (List.map_filter (plan_call reg k) (enumerate n xs)) =
     filter (\<lambda>(_, x). is_gateway_call reg x) (enumerate n xs)"
proof (induction xs arbitrary: n)
  case (Cons x xs)
  then show ?case
    using plan_call_planned [of reg x k n] plan_call_index [of reg k n x]
    by (auto simp: map_filter_simps split: option.splits)
qed (simp add: map_filter_simps)

lemmas plan_calls_items = plan_calls_from [where n = 0, folded plan_calls_def]

lemma plan_calls_indexes:
  "map gc_item_index (plan_calls xs reg k) = map fst (filter (\<lambda>(_, x). is_gateway_call reg x) (enumerate 0 xs))"
  using arg_cong [OF plan_calls_items [where xs = xs and reg = reg and k = k], of "map fst"] by (simp add: o_def)

lemma call_result_index: "isr (call_result print elapsed p) \<Longrightarrow> gr_item_index (result_of (call_result print elapsed p)) = gc_item_index p"
  by (auto simp: call_result_def isr_cases and_then_eq_Inr result_of_def split: prod.splits)

text \<open>
  C23: calls of one round may finish in any order. Exactly the calls owned by the gateway run. If
  every call comes to an output within the limit and together they fit into the response budget,
  then every order of completion gives the same results, one for each call in the order of the
  items, the same completed items for the client and the same rest of the budget, which is charged
  the bytes of every output once; otherwise the round fails in every order.
\<close>

theorem completion_order_does_not_matter:
  fixes items :: "output_item list" and reg :: tool_registry and output_offset :: usize
  defines "plans \<equiv> plan_calls items reg output_offset"
  assumes "mset order = mset [0..<length plans]" "mset order' = mset [0..<length plans]"
  shows "(case execute_with_budget print elapsed order plans b of
      (Inr (rs, completed), b') \<Rightarrow>
        round_fits print elapsed plans b
        \<and> map gr_item_index rs = map fst (filter (\<lambda>(_, x). is_gateway_call reg x) (enumerate 0 items))
        \<and> map (gp_completed_output \<circ> gc_events) completed = map gr_public_output rs
        \<and> eb_remaining b' + sum_list (map (\<lambda>p. cost_of (call_result print elapsed p)) plans) = eb_remaining b
        \<and> execute_with_budget print elapsed order' plans b = (Inr (rs, completed), b')
    | (Inl _, _) \<Rightarrow>
        \<not> round_fits print elapsed plans b
        \<and> (case execute_with_budget print elapsed order' plans b of (r, _) \<Rightarrow> isl r))"
proof (cases "round_fits print elapsed plans b")
  case True
  let ?rs = "map (\<lambda>p. result_of (call_result print elapsed p)) plans"
  have ok: "list_all (\<lambda>p. isr (call_result print elapsed p)) plans"
    "sum_list (map (\<lambda>p. cost_of (call_result print elapsed p)) plans) \<le> eb_remaining b"
    using True by (simp_all add: round_fits_def)
  let ?completed = "map2 (\<lambda>p r. p\<lparr>gc_events := (gc_events p)\<lparr>gp_completed_output := gr_public_output r\<rparr>\<rparr>) plans ?rs"
  let ?b = "b\<lparr>eb_remaining := eb_remaining b - sum_list (map (\<lambda>p. cost_of (call_result print elapsed p)) plans)\<rparr>"
  have executed: "execute_with_budget print elapsed order plans b = (Inr (?rs, ?completed), ?b)"
    "execute_with_budget print elapsed order' plans b = (Inr (?rs, ?completed), ?b)"
    using True conjunct1 [OF execute_with_budget_spec [OF assms(2), of print elapsed b]]
      conjunct1 [OF execute_with_budget_spec [OF assms(3), of print elapsed b]]
    unfolding Let_def by (simp_all only: if_True)
  have "map gr_item_index ?rs = map gc_item_index plans"
    using ok(1) call_result_index by (auto simp: list_all_iff)
  then have "map gr_item_index ?rs = map fst (filter (\<lambda>(_, x). is_gateway_call reg x) (enumerate 0 items))"
    unfolding plans_def plan_calls_indexes .
  moreover have "map (gp_completed_output \<circ> gc_events) ?completed = map gr_public_output ?rs"
    by (rule nth_equalityI) simp_all
  moreover have "eb_remaining ?b + sum_list (map (\<lambda>p. cost_of (call_result print elapsed p)) plans) = eb_remaining b"
    using ok(2) by simp
  ultimately show ?thesis
    unfolding executed prod.case sum.case using True by blast
next
  case False
  then obtain e e' where "fst (execute_with_budget print elapsed order plans b) = Inl e"
      "fst (execute_with_budget print elapsed order' plans b) = Inl e'"
    using execute_with_budget_spec [OF assms(2), of print elapsed b]
      execute_with_budget_spec [OF assms(3), of print elapsed b] by blast
  with False show ?thesis by (auto split: prod.splits)
qed

definition toy_binding :: gateway_binding where
  "toy_binding =
     \<lparr>gb_execute = (\<lambda>call_id _ arguments. Inr \<lparr>tu_call_id = call_id, tu_output = arguments\<rparr>),
      gb_started_output = (\<lambda>_. None), gb_public_output = (\<lambda>_ _ _. None)\<rparr>"

definition toy_registry :: tool_registry where
  "toy_registry = empty_registry\<lparr>tr_entries := [(''web_search'', gateway_entry WebSearchType None (Some toy_binding))]\<rparr>"

definition toy_call :: "string \<Rightarrow> output_item" where
  "toy_call call_id =
     OutFunctionCall \<lparr>fc_id = ''fc_'' @ call_id, fc_call_id = call_id, fc_name = ''web_search'', fc_namespace = None,
       fc_arguments = ''{}'', fc_status = MessageCompleted\<rparr>"

theorem completion_order_does_not_matter_witness:
  "(case execute_with_budget (\<lambda>_. Inl '''') (\<lambda>_. False) [1, 0]
        (plan_calls [toy_call ''a'', OutUnknown, toy_call ''b''] toy_registry 5) new_response_budget of
      (Inr (rs, _), b) \<Rightarrow> map gr_item_index rs = [0, 2] \<and> eb_remaining b + 4 = eb_remaining new_response_budget
    | (Inl _, _) \<Rightarrow> False)"
proof -
  let ?items = "[toy_call ''a'', OutUnknown, toy_call ''b'']"
  let ?plans = "plan_calls ?items toy_registry 5"
  have found: "lookup toy_registry ''web_search'' = Some (gateway_entry WebSearchType None (Some toy_binding))"
    by (simp add: lookup_def toy_registry_def empty_registry_def im_get_def)
  have indexes: "map fst (filter (\<lambda>(_, x). is_gateway_call toy_registry x) (enumerate 0 ?items)) = [0, 2]"
    by (simp add: is_gateway_call_def is_gateway_owned_name_def toy_call_def found gateway_entry_def)
  have len: "length ?plans = 2"
    using arg_cong [OF plan_calls_indexes [of ?items toy_registry 5, unfolded indexes], of length] by simp
  have result: "call_result (\<lambda>_. Inl '''') (\<lambda>_. False) p = Inr (result_of (call_result (\<lambda>_. Inl '''') (\<lambda>_. False) p), 2)"
    if "p \<in> set ?plans" for p
    using that
    by (auto simp: plan_calls_def map_filter_simps plan_call_eq toy_call_def found gateway_entry_def call_result_def
        call_outcome_def toy_binding_def enforce_gateway_tool_output_size_def max_gateway_tool_output_bytes_def result_of_def)
  have total: "sum_list (map (\<lambda>p. cost_of (call_result (\<lambda>_. Inl '''') (\<lambda>_. False) p)) ?plans) = 4"
  proof -
    have "map (\<lambda>p. cost_of (call_result (\<lambda>_. Inl '''') (\<lambda>_. False) p)) ?plans = map (\<lambda>_. 2) ?plans"
      by (rule map_cong [OF refl], subst result) (simp_all add: cost_of_def)
    then show ?thesis by (simp only: len sum_list_triv) simp
  qed
  have fits: "round_fits (\<lambda>_. Inl '''') (\<lambda>_. False) ?plans new_response_budget"
    unfolding round_fits_def total using result
    by (auto simp: list_all_iff isl_def new_response_budget_def max_executor_response_bytes_def) (metis Inl_Inr_False)
  have perm: "mset [1, 0] = mset [0..<length ?plans]" "mset [0, 1] = mset [0..<length ?plans]"
    by (simp_all add: len upt_rec)
  obtain r b' where x: "execute_with_budget (\<lambda>_. Inl '''') (\<lambda>_. False) [1, 0] ?plans new_response_budget = (r, b')"
    by (metis surj_pair)
  note completion_order_does_not_matter [OF perm, where print = "\<lambda>_. Inl ''''" and elapsed = "\<lambda>_. False" and b = new_response_budget]
  from this [unfolded x indexes total prod.case] fits show ?thesis
    unfolding x prod.case by (cases r) (simp_all only: sum.case split_beta, blast+)
qed

end
