(* ===== verification/Delivery.thy ===== *)
theory Delivery
  imports Gateway "HOL-Library.Option_ord"
begin

text \<open>
  Ordered delivery to the client, \<open>executor/pipeline/delivery.rs\<close>: translated frames are sent at
  once unless they belong to an item at or behind the first hidden one; those wait, within a byte
  limit, and are released in the order of their items when the boundary moves. Loops over an
  effect stop at the first error and keep what happened before it.
\<close>

section \<open>Loops with an effect\<close>

fun for_each :: "('a \<Rightarrow> 's \<Rightarrow> ('e + unit) \<times> 's) \<Rightarrow> 'a list \<Rightarrow> 's \<Rightarrow> ('e + unit) \<times> 's" where
  "for_each step [] s = (Inr (), s)"
| "for_each step (x # xs) s =
     (case step x s of
        (Inl e, s') \<Rightarrow> (Inl e, s')
      | (Inr _, s') \<Rightarrow> for_each step xs s')"

section \<open>State\<close>

record translation =
  tl_frames :: "event_frame list"
  tl_defer_from :: "u32 option"

definition max_deferred_stream_bytes :: usize where
  "max_deferred_stream_bytes = 256 * 1024"

text \<open>\<open>sender: Option<Sender>\<close> is whether there is a client.\<close>

record stream_delivery =
  sd_sending :: bool
  sd_relay :: relay
  sd_defer_from :: "u64 option"
  sd_deferred :: "event_frame list"
  sd_deferred_bytes :: usize

definition new_stream_delivery :: "bool \<Rightarrow> stream_delivery" where
  "new_stream_delivery sending =
     \<lparr>sd_sending = sending, sd_relay = new_relay, sd_defer_from = None, sd_deferred = [], sd_deferred_bytes = 0\<rparr>"

definition take_deferred_events :: "stream_delivery \<Rightarrow> event_frame list \<times> stream_delivery" where
  "take_deferred_events d = (sd_deferred d, d\<lparr>sd_defer_from := None, sd_deferred := [], sd_deferred_bytes := 0\<rparr>)"

section \<open>Sending\<close>

definition response_ids :: "request_context \<Rightarrow> json_map \<Rightarrow> json_map" where
  "response_ids ctx m =
     (let m1 = im_insert ''id'' (JString (rc_response_id ctx)) m;
          m2 = (case rq_previous_response_id (rc_original_request ctx) of
                  None \<Rightarrow> m1 | Some p \<Rightarrow> im_insert ''previous_response_id'' (JString p) m1)
      in case rc_conversation_id ctx of None \<Rightarrow> m2 | Some c \<Rightarrow> im_insert ''conversation_id'' (JString c) m2)"

definition apply_context_response_ids :: "request_context \<Rightarrow> wire_event \<Rightarrow> wire_event" where
  "apply_context_response_ids ctx w =
     (case im_get (we_rest w) ''response'' of
        Some (JObject m) \<Rightarrow> w\<lparr>we_rest := im_insert ''response'' (JObject (response_ids ctx m)) (we_rest w)\<rparr>
      | _ \<Rightarrow> w)"

definition with_context_ids :: "request_context \<Rightarrow> event_frame \<Rightarrow> event_frame" where
  "with_context_ids ctx f = f\<lparr>ef_wire := apply_context_response_ids ctx (ef_wire f)\<rparr>"

definition emit_stream_frame ::
  "emitter \<Rightarrow> request_context \<Rightarrow> usize \<Rightarrow> event_frame \<Rightarrow> relay \<Rightarrow> (executor_error + bool) \<times> relay" where
  "emit_stream_frame em ctx output_offset f r =
     relay_event (em_print em) (em_open em) output_offset (with_context_ids ctx f) r"

definition emit_deferred_stream_events ::
  "emitter \<Rightarrow> request_context \<Rightarrow> usize \<Rightarrow> event_frame list \<Rightarrow> relay \<Rightarrow> (executor_error + unit) \<times> relay" where
  "emit_deferred_stream_events em ctx output_offset =
     for_each (\<lambda>f r. case emit_stream_frame em ctx output_offset f r of
         (Inl e, r') \<Rightarrow> (Inl e, r')
       | (Inr _, r') \<Rightarrow> (Inr (), r'))"

definition should_defer_stream_event :: "event_frame \<Rightarrow> u64 option \<Rightarrow> bool" where
  "should_defer_stream_event f defer_from =
     (case defer_from of
        None \<Rightarrow> False
      | Some first \<Rightarrow> (case we_output_index (ef_wire f) of None \<Rightarrow> False | Some i \<Rightarrow> first \<le> i))"

definition emit_or_defer_stream_frame ::
  "emitter \<Rightarrow> request_context \<Rightarrow> usize \<Rightarrow> event_frame \<Rightarrow> stream_delivery \<Rightarrow> (executor_error + bool) \<times> stream_delivery" where
  "emit_or_defer_stream_frame em ctx output_offset f d =
     (if should_defer_stream_event f (sd_defer_from d)
      then
        (case em_print em (wire_event_to_json (ef_wire f)) of
           Inl e \<Rightarrow> (Inl (JsonError e), d)
         | Inr s \<Rightarrow>
             (let next = usize_saturating_add (sd_deferred_bytes d) (length s)
              in if max_deferred_stream_bytes < next
                 then (Inl (StreamError (''deferred stream exceeded '' @ show_nat max_deferred_stream_bytes
                         @ '' buffered bytes'')), d)
                 else (Inr False, d\<lparr>sd_deferred := sd_deferred d @ [f], sd_deferred_bytes := next\<rparr>)))
      else map_prod id (\<lambda>r. d\<lparr>sd_relay := r\<rparr>) (emit_stream_frame em ctx output_offset f (sd_relay d)))"

definition without_flag :: "('e + bool) \<times> 's \<Rightarrow> ('e + unit) \<times> 's" where
  "without_flag r = (case r of (Inl e, s) \<Rightarrow> (Inl e, s) | (Inr _, s) \<Rightarrow> (Inr (), s))"

definition flush_released_stream_frames ::
  "emitter \<Rightarrow> request_context \<Rightarrow> usize \<Rightarrow> stream_delivery \<Rightarrow> (executor_error + unit) \<times> stream_delivery" where
  "flush_released_stream_frames em ctx output_offset d =
     for_each (\<lambda>f x. without_flag (emit_or_defer_stream_frame em ctx output_offset f x))
       (sort_key (\<lambda>f. we_output_index (ef_wire f)) (sd_deferred d)) (d\<lparr>sd_deferred := [], sd_deferred_bytes := 0\<rparr>)"

definition is_terminal_response_event :: "sse_event_type \<Rightarrow> bool" where
  "is_terminal_response_event t \<longleftrightarrow> t \<in> {ResponseCompleted, ResponseFailed, ResponseIncomplete}"

text \<open>\<open>cdc\<close> and \<open>action\<close> are the JSON readers \<open>public_output_items\<close> uses.\<close>

definition emit_mcp_discovery_lifecycle ::
  "emitter \<Rightarrow> codec \<Rightarrow> (string \<Rightarrow> shell_call_action option) \<Rightarrow> tool_registry \<Rightarrow> relay \<Rightarrow> (executor_error + unit) \<times> relay" where
  "emit_mcp_discovery_lifecycle em cdc action reg r =
     (case public_output_items cdc action (map OutMcpListTools (mcp_list_tool_items reg)) reg [] of
        Inl e \<Rightarrow> (Inl e, r)
      | Inr public \<Rightarrow>
          (let plans = mcp_list_tools_event_plans public 0
           in case emit_gateway_start_events em plans r of
                (Inl e, r') \<Rightarrow> (Inl e, r')
              | (Inr _, r') \<Rightarrow> emit_gateway_completed_events em (map Some public) plans r'))"

section \<open>Accepting a translation\<close>

record delivery_env =
  de_emitter :: emitter
  de_codec :: codec
  de_action :: "string \<Rightarrow> shell_call_action option"
  de_registry :: tool_registry
  de_context :: request_context
  de_output_offset :: usize

definition accept_frame :: "delivery_env \<Rightarrow> event_frame \<Rightarrow> stream_delivery \<Rightarrow> (executor_error + unit) \<times> stream_delivery" where
  "accept_frame env f d =
     (if is_terminal_response_event (ef_type f) then (Inr (), d)
      else
        (case emit_or_defer_stream_frame (de_emitter env) (de_context env) (de_output_offset env) f d of
           (Inl e, d') \<Rightarrow> (Inl e, d')
         | (Inr sent, d') \<Rightarrow>
             if ef_type f = ResponseInProgress \<and> sent
             then map_prod id (\<lambda>r. d'\<lparr>sd_relay := r\<rparr>)
                    (emit_mcp_discovery_lifecycle (de_emitter env) (de_codec env) (de_action env) (de_registry env) (sd_relay d'))
             else (Inr (), d')))"

definition accept :: "delivery_env \<Rightarrow> translation \<Rightarrow> stream_delivery \<Rightarrow> (executor_error + unit) \<times> stream_delivery" where
  "accept env t d =
     (let d' = d\<lparr>sd_defer_from := map_option u64_of_u32 (tl_defer_from t)\<rparr>
      in if \<not> sd_sending d then (Inr (), d')
         else
           (case for_each (accept_frame env) (tl_frames t) d' of
              (Inl e, d'') \<Rightarrow> (Inl e, d'')
            | (Inr _, d'') \<Rightarrow>
                if sd_defer_from d' \<noteq> sd_defer_from d
                then flush_released_stream_frames (de_emitter env) (de_context env) (de_output_offset env) d''
                else (Inr (), d'')))"

end
