(* ===== verification/Compaction.thy ===== *)
theory Compaction
  imports Turn Relay
begin

text \<open>
  Compaction, \<open>executor/compaction.rs\<close>: the estimate of the input size, the window a history is
  compacted to, the summarization call, the automatic compaction of a request and the standalone
  endpoint. The summarization call is a parameter that answers a request context; fresh ids are
  drawn from \<open>draw\<close>; the derived JSON of tools and shell items is the record \<open>estimate_codec\<close>.
\<close>

section \<open>Estimating the input\<close>

definition u64_len :: "string \<Rightarrow> u64" where
  "u64_len s = unwrap_or (u64_of_usize (length s)) (- 1)"

record input_token_estimate =
  et_text_bytes :: u64
  et_fixed_tokens :: u64

definition no_estimate :: input_token_estimate where
  "no_estimate = \<lparr>et_text_bytes = 0, et_fixed_tokens = 0\<rparr>"

definition add_text :: "string \<Rightarrow> input_token_estimate \<Rightarrow> input_token_estimate" where
  "add_text t e = e\<lparr>et_text_bytes := u64_saturating_add (et_text_bytes e) (u64_len t)\<rparr>"

definition add_optional_text :: "string option \<Rightarrow> input_token_estimate \<Rightarrow> input_token_estimate" where
  "add_optional_text t e = (case t of None \<Rightarrow> e | Some s \<Rightarrow> add_text s e)"

definition add_tokens :: "u64 \<Rightarrow> input_token_estimate \<Rightarrow> input_token_estimate" where
  "add_tokens n e = e\<lparr>et_fixed_tokens := u64_saturating_add (et_fixed_tokens e) n\<rparr>"

definition estimated_input_overhead_tokens :: u64 where "estimated_input_overhead_tokens = 1"
definition estimated_item_overhead_tokens :: u64 where "estimated_item_overhead_tokens = 12"
definition estimated_content_part_overhead_tokens :: u64 where "estimated_content_part_overhead_tokens = 7"
definition estimated_json_value_overhead_tokens :: u64 where "estimated_json_value_overhead_tokens = 1"
definition estimated_image_tokens :: u64 where "estimated_image_tokens = 1024"
definition estimated_bytes_per_token :: u64 where "estimated_bytes_per_token = 4"

fun number_text :: "json_number \<Rightarrow> string" where
  "number_text (PosInt n) = show_nat (unat n)"
| "number_text (NegInt i) = ''-'' @ show_nat (nat (- i))"
| "number_text (Float s) = s"

fun add_json_value :: "json \<Rightarrow> input_token_estimate \<Rightarrow> input_token_estimate" where
  "add_json_value (JString t) e = add_text t (add_tokens estimated_json_value_overhead_tokens e)"
| "add_json_value (JNumber n) e = add_text (number_text n) (add_tokens estimated_json_value_overhead_tokens e)"
| "add_json_value (JArray xs) e = fold (\<lambda>v. add_json_value v) xs (add_tokens estimated_json_value_overhead_tokens e)"
| "add_json_value (JObject m) e =
     fold (\<lambda>(k, v) x. add_json_value v (add_text k x)) m (add_tokens estimated_json_value_overhead_tokens e)"
| "add_json_value JNull e = add_tokens estimated_json_value_overhead_tokens e"
| "add_json_value (JBool _) e = add_tokens estimated_json_value_overhead_tokens e"

definition total_tokens :: "input_token_estimate \<Rightarrow> u64" where
  "total_tokens e =
     (let text_tokens = et_text_bytes e div estimated_bytes_per_token
            + (if et_text_bytes e mod estimated_bytes_per_token \<noteq> 0 then 1 else 0)
      in u64_saturating_add (et_fixed_tokens e) text_tokens)"

definition add_file_content :: "input_file_content \<Rightarrow> input_token_estimate \<Rightarrow> input_token_estimate" where
  "add_file_content f e =
     add_optional_text (ifc_detail f) (add_optional_text (ifc_filename f) (add_optional_text (ifc_file_url f)
       (add_optional_text (ifc_file_id f) (add_optional_text (ifc_file_data f)
         (add_tokens estimated_content_part_overhead_tokens e)))))"

fun add_content_part :: "input_content \<Rightarrow> input_token_estimate \<Rightarrow> input_token_estimate" where
  "add_content_part (InputText t) e = add_text t (add_tokens estimated_content_part_overhead_tokens e)"
| "add_content_part (OutputText t) e = add_text t (add_tokens estimated_content_part_overhead_tokens e)"
| "add_content_part (ReasoningText t) e = add_text t (add_tokens estimated_content_part_overhead_tokens e)"
| "add_content_part (InputImage _) e = add_tokens estimated_image_tokens e"
| "add_content_part (InputFile f) e = add_file_content f e"
| "add_content_part UnknownContent e = add_tokens estimated_content_part_overhead_tokens e"

fun add_message_content :: "input_message_content \<Rightarrow> input_token_estimate \<Rightarrow> input_token_estimate" where
  "add_message_content (TextContent t) e = add_text t e"
| "add_message_content (PartsContent parts) e = fold add_content_part parts e"

fun add_tool_content :: "tool_output_content \<Rightarrow> input_token_estimate \<Rightarrow> input_token_estimate" where
  "add_tool_content (ToolText t) e = add_text t (add_tokens estimated_content_part_overhead_tokens e)"
| "add_tool_content (ToolImage _) e = add_tokens estimated_image_tokens e"
| "add_tool_content (ToolFile f) e = add_file_content f e"

fun add_tool_call_output :: "tool_call_output \<Rightarrow> input_token_estimate \<Rightarrow> input_token_estimate" where
  "add_tool_call_output (OutputString t) e = add_text t e"
| "add_tool_call_output (OutputContent parts) e = fold add_tool_content parts e"

record estimate_codec =
  ec_tool :: "responses_tool \<Rightarrow> json option"
  ec_item :: "input_item \<Rightarrow> json option"

definition add_value_or_max :: "json option \<Rightarrow> input_token_estimate \<Rightarrow> input_token_estimate" where
  "add_value_or_max v e = (case v of Some j \<Rightarrow> add_json_value j e | None \<Rightarrow> add_tokens (- 1) e)"

definition add_tool_definition :: "estimate_codec \<Rightarrow> responses_tool \<Rightarrow> input_token_estimate \<Rightarrow> input_token_estimate" where
  "add_tool_definition c t = add_value_or_max (ec_tool c t)"

fun add_item_fields :: "estimate_codec \<Rightarrow> input_item \<Rightarrow> input_token_estimate \<Rightarrow> input_token_estimate" where
  "add_item_fields c (InMessage m) e =
     add_message_content (im_content m) (add_text (im_role m) (add_optional_text (im_id m) e))"
| "add_item_fields c (InFunctionCall x) e =
     add_text (ifn_arguments x) (add_optional_text (ifn_namespace x) (add_text (ifn_name x)
       (add_text (ifn_call_id x) (add_optional_text (ifn_id x) e))))"
| "add_item_fields c (InFunctionCallOutput x) e = add_tool_call_output (fr_output x) (add_text (fr_call_id x) e)"
| "add_item_fields c (InToolSearchCall x) e = add_json_value (its_arguments x) (add_text (its_call_id x) (add_text (its_id x) e))"
| "add_item_fields c (InToolSearchOutput x) e = fold (add_tool_definition c) (tso_tools x) (add_text (tso_call_id x) e)"
| "add_item_fields c (InCustomToolCall x) e =
     add_text (ct_input x) (add_text (ct_name x) (add_text (ct_call_id x) (add_text (ct_id x) e)))"
| "add_item_fields c (InCustomToolCallOutput x) e =
     add_tool_call_output (cto_output x) (add_optional_text (cto_name x) (add_text (cto_call_id x) e))"
| "add_item_fields c (InShellCall x) e = add_value_or_max (ec_item c (InShellCall x)) e"
| "add_item_fields c (InShellCallOutput x) e = add_value_or_max (ec_item c (InShellCallOutput x)) e"
| "add_item_fields c (InReasoning x) e =
     (let texts = fold (\<lambda>t r. add_text (rtc_text t) (add_tokens estimated_content_part_overhead_tokens r)) (ro_content x)
                    (add_optional_text (ro_status x) (add_text (ro_id x) e));
          summaries = fold (\<lambda>j. add_json_value j) (ro_summary x) texts
      in case ro_encrypted_content x of None \<Rightarrow> summaries | Some j \<Rightarrow> add_json_value j summaries)"
| "add_item_fields c (InCompaction x) e =
     add_text (ci_encrypted_content x) (add_tokens estimated_content_part_overhead_tokens (add_text ''assistant'' e))"
| "add_item_fields c (InMcpListTools _) e = e"
| "add_item_fields c InCompactionTrigger e = e"
| "add_item_fields c InUnknown e = e"

definition add_input_item :: "estimate_codec \<Rightarrow> input_item \<Rightarrow> input_token_estimate \<Rightarrow> input_token_estimate" where
  "add_input_item c x e =
     (if is_mcp_list_tools x \<or> is_compaction_trigger x then e
      else add_item_fields c x (add_tokens estimated_item_overhead_tokens e))"

definition estimate_input_tokens :: "estimate_codec \<Rightarrow> responses_input \<Rightarrow> u64" where
  "estimate_input_tokens c inp =
     (let e = add_tokens estimated_input_overhead_tokens no_estimate
      in total_tokens (case inp of TextInput t \<Rightarrow> add_text t e
                        | ItemsInput _ \<Rightarrow> fold (add_input_item c) (model_items inp) e))"

section \<open>The compacted window\<close>

text \<open>\<open>filter_map\<close> over \<open>enumerate\<close>; the id of a retained message is drawn with its index.\<close>

definition retain_user_message :: "(nat \<Rightarrow> string) \<Rightarrow> compaction_window option \<Rightarrow> usize \<times> input_item \<Rightarrow> input_item option" where
  "retain_user_message draw window indexed =
     (case indexed of
        (index, InMessage m) \<Rightarrow>
          if im_role m \<noteq> ''user''
             \<or> (case window of None \<Rightarrow> False
                | Some w \<Rightarrow> index < cw_latest_index w \<and> \<not> retains_user_item w index (InMessage m))
          then None
          else Some (InMessage (m\<lparr>im_id := Some (''msg_'' @ draw index), im_status := Some MessageCompleted\<rparr>))
      | _ \<Rightarrow> None)"

definition retained_user_window :: "(nat \<Rightarrow> string) \<Rightarrow> input_item list \<Rightarrow> input_item list" where
  "retained_user_window draw items =
     List.map_filter (retain_user_message draw (latest_compaction_window items)) (enumerate 0 items)"

definition finish_compacted_window :: "string \<Rightarrow> input_item list \<Rightarrow> string \<Rightarrow> input_item list" where
  "finish_compacted_window i retained summary =
     retained @ [InCompaction \<lparr>ci_id = Some (''cmp_'' @ i), ci_encrypted_content = summary\<rparr>]"

fun join_with :: "string \<Rightarrow> string list \<Rightarrow> string" where
  "join_with sep [] = ''''"
| "join_with sep [s] = s"
| "join_with sep (s # ss) = s @ sep @ join_with sep ss"

definition response_output_text :: "output_item list \<Rightarrow> string option" where
  "response_output_text items =
     (let texts = concat (map (\<lambda>x. case x of OutMessage m \<Rightarrow> map otc_text (om_content m) | _ \<Rightarrow> []) items);
          text = join_with [newline] (filter (\<lambda>t. t \<noteq> '''') (map str_trim texts))
      in if text = '''' then None else Some text)"

fun value_has_content :: "json \<Rightarrow> bool" where
  "value_has_content JNull = False"
| "value_has_content (JString t) = (str_trim t \<noteq> '''')"
| "value_has_content (JArray xs) = list_ex (\<lambda>x. value_has_content x) xs"
| "value_has_content (JObject m) = list_ex (\<lambda>(k, v). value_has_content v) m"
| "value_has_content (JBool _) = True"
| "value_has_content (JNumber _) = True"

fun tool_output_has_content :: "tool_call_output \<Rightarrow> bool" where
  "tool_output_has_content (OutputString t) = (str_trim t \<noteq> '''')"
| "tool_output_has_content (OutputContent parts) = (parts \<noteq> [])"

fun part_has_context :: "input_content \<Rightarrow> bool" where
  "part_has_context (InputText t) = (str_trim t \<noteq> '''')"
| "part_has_context (OutputText t) = (str_trim t \<noteq> '''')"
| "part_has_context (ReasoningText t) = (str_trim t \<noteq> '''')"
| "part_has_context (InputImage i) = (case iic_image_url i of None \<Rightarrow> False | Some url \<Rightarrow> str_trim url \<noteq> '''')"
| "part_has_context (InputFile _) = False"
| "part_has_context UnknownContent = False"

fun item_has_meaningful_context :: "input_item \<Rightarrow> bool" where
  "item_has_meaningful_context (InMessage m) =
     (case im_content m of TextContent t \<Rightarrow> str_trim t \<noteq> '''' | PartsContent parts \<Rightarrow> list_ex part_has_context parts)"
| "item_has_meaningful_context (InFunctionCall x) = (str_trim (ifn_name x) \<noteq> '''' \<or> str_trim (ifn_arguments x) \<noteq> '''')"
| "item_has_meaningful_context (InFunctionCallOutput x) = tool_output_has_content (fr_output x)"
| "item_has_meaningful_context (InToolSearchCall x) = (str_trim (its_call_id x) \<noteq> '''' \<or> value_has_content (its_arguments x))"
| "item_has_meaningful_context (InToolSearchOutput x) = (str_trim (tso_call_id x) \<noteq> '''' \<or> tso_tools x \<noteq> [])"
| "item_has_meaningful_context (InCustomToolCall x) = (str_trim (ct_name x) \<noteq> '''' \<or> str_trim (ct_input x) \<noteq> '''')"
| "item_has_meaningful_context (InCustomToolCallOutput x) = tool_output_has_content (cto_output x)"
| "item_has_meaningful_context (InShellCall x) = (sa_commands (sc_action x) \<noteq> [])"
| "item_has_meaningful_context (InShellCallOutput x) = (som_output x \<noteq> [])"
| "item_has_meaningful_context (InReasoning x) =
     (list_ex (\<lambda>t. str_trim (rtc_text t) \<noteq> '''') (ro_content x) \<or> list_ex value_has_content (ro_summary x)
      \<or> (case ro_encrypted_content x of None \<Rightarrow> False | Some j \<Rightarrow> value_has_content j))"
| "item_has_meaningful_context (InCompaction x) = (str_trim (ci_encrypted_content x) \<noteq> '''')"
| "item_has_meaningful_context (InMcpListTools _) = False"
| "item_has_meaningful_context InCompactionTrigger = False"
| "item_has_meaningful_context InUnknown = False"

definition completed_summary_text :: "json_printer \<Rightarrow> response_payload \<Rightarrow> executor_error + string" where
  "completed_summary_text print r =
     (if rp_status r \<noteq> ''completed'' \<or> rp_error r \<noteq> None
      then Inl (CompactionFailed (rp_status r)
             (case Option.bind (rp_error r) (\<lambda>j. case print j of Inr t \<Rightarrow> Some t | Inl _ \<Rightarrow> None) of
                Some t \<Rightarrow> t
              | None \<Rightarrow> unwrap_or (Option.bind (rp_incomplete_details r) id_reason) ''upstream returned no failure details''))
      else ok_or (response_output_text (rp_output r))
             (CompactionFailed (rp_status r) ''upstream returned no summary text''))"

section \<open>Summarizing\<close>

definition compaction_prompt :: string where
  "compaction_prompt = ''You are performing a CONTEXT CHECKPOINT COMPACTION. Create a concise handoff summary ''
     @ ''that preserves current progress, decisions, constraints, unresolved work, and critical references ''
     @ ''for the next model. Return only the summary.''"

record compaction_env =
  ce_printers :: printers
  ce_print :: json_printer
  ce_estimate :: estimate_codec
  ce_draw :: "nat \<Rightarrow> string"
  ce_infer :: "request_context \<Rightarrow> executor_error + response_payload"

definition compaction_request :: "string \<Rightarrow> responses_input \<Rightarrow> string option \<Rightarrow> request_payload" where
  "compaction_request model inp instructions =
     \<lparr>rq_model = model, rq_input = inp, rq_instructions = instructions, rq_previous_response_id = None,
      rq_conversation_id = None, rq_tools = None, rq_tool_choice = None, rq_stream = False, rq_store = False,
      rq_include = None, rq_reasoning = None, rq_text = None, rq_temperature = None, rq_top_p = None,
      rq_max_output_tokens = None, rq_ignore_eos = None, rq_truncation = None, rq_metadata = None,
      rq_parallel_tool_calls = None, rq_cache_salt = None, rq_context_management = None\<rparr>"

definition no_usage :: response_usage where
  "no_usage = \<lparr>ru_input_tokens = 0, ru_output_tokens = 0, ru_total_tokens = 0, ru_cached_tokens = 0, ru_reasoning_tokens = 0\<rparr>"

definition summary_context :: "compaction_env \<Rightarrow> string \<Rightarrow> input_item list \<Rightarrow> string option \<Rightarrow> request_context" where
  "summary_context env model items instructions =
     (let summary_items = filter (\<lambda>x. \<not> is_compaction_trigger x) items
            @ [InMessage \<lparr>im_id = None, im_role = ''user'', im_status = None, im_content = TextContent compaction_prompt\<rparr>]
      in \<lparr>rc_original_request = compaction_request model (ItemsInput []) instructions,
          rc_enriched_request = compaction_request model (ItemsInput summary_items) instructions,
          rc_new_input_items = [], rc_response_id = ''resp_'' @ ce_draw env (length items),
          rc_conversation_id = None, rc_conversation_version = None, rc_continuation = None\<rparr>)"

definition compact_items ::
  "compaction_env \<Rightarrow> string \<Rightarrow> responses_input \<Rightarrow> string option \<Rightarrow> executor_error + input_item list \<times> response_usage" where
  "compact_items env model inp instructions =
     (let items = items_of_input (ce_printers env) inp
      in if \<not> list_ex item_has_meaningful_context items
         then Inl (InvalidRequest ''compaction requires non-empty input or previous_response_id context'')
         else
           and_then (ce_infer env (summary_context env model items instructions)) (\<lambda>response.
           and_then (completed_summary_text (ce_print env) response) (\<lambda>summary.
             Inr (finish_compacted_window (ce_draw env (length items + 1)) (retained_user_window (ce_draw env) items) summary,
                  unwrap_or (rp_usage response) no_usage))))"

section \<open>Automatic compaction\<close>

definition compaction_threshold :: "request_payload \<Rightarrow> u64 option" where
  "compaction_threshold r =
     Option.bind (find (\<lambda>e. cm_type e = ''compaction'') (unwrap_or (rq_context_management r) [])) cm_compact_threshold"

definition update_lease :: "(continuation \<Rightarrow> continuation) \<Rightarrow> lease_id option \<Rightarrow> world \<Rightarrow> world" where
  "update_lease f l w =
     (case l of
        None \<Rightarrow> w
      | Some i \<Rightarrow>
          (case lease_at (wd_sessions w) i of
             None \<Rightarrow> w
           | Some c \<Rightarrow> w\<lparr>wd_sessions := set_lease i (Some (f c)) (wd_sessions w)\<rparr>))"

definition replace_history :: "input_item list \<Rightarrow> request_context \<Rightarrow> request_context" where
  "replace_history items ctx = (set_input items ctx)\<lparr>rc_new_input_items := items\<rparr>"

definition maybe_compact_context ::
  "compaction_env \<Rightarrow> request_context \<Rightarrow> world \<Rightarrow> executor_error + response_usage option \<times> request_context \<times> world" where
  "maybe_compact_context env ctx w =
     (let r = rc_enriched_request ctx
      in case compaction_threshold r of
           None \<Rightarrow> Inr (None, ctx, w)
         | Some threshold \<Rightarrow>
             if estimate_input_tokens (ce_estimate env) (rq_input r) \<le> threshold then Inr (None, ctx, w)
             else
               and_then (compact_items env (rq_model r) (rq_input r) (rq_instructions r)) (\<lambda>(compacted, usage).
                 Inr (Some usage, replace_history compacted ctx, update_lease mark_history_replaced (rc_continuation ctx) w)))"

section \<open>Preparation and the compaction endpoint\<close>

text \<open>
  What the executor reads of the prepared tool-search state. Preparing it is the operation
  \<open>ToolSearchHandler::prepare_request\<close>, a parameter.
\<close>

record tool_search_state =
  tss_active :: bool
  tss_withheld :: "string set"
  tss_synthetic :: bool
  tss_response_tools :: "responses_tool list"
  tss_metadata :: tool_search_metadata

type_synonym search_handler =
  "request_payload \<Rightarrow> responses_tool list \<Rightarrow> bool \<Rightarrow> tool_error + request_payload \<times> tool_search_state option"

definition prepare_request_tools ::
  "turn_env \<Rightarrow> search_handler \<Rightarrow> request_context \<Rightarrow> world \<Rightarrow> executor_error + request_context \<times> tool_search_state option" where
  "prepare_request_tools env search ctx w =
     and_then (restored_loaded_tools env ctx w) (\<lambda>(restored, ctx').
       case search (rc_enriched_request ctx') restored (rq_tools (rc_original_request ctx') \<noteq> None) of
         Inl e \<Rightarrow> Inl (Tool e)
       | Inr (r, state) \<Rightarrow> Inr (ctx'\<lparr>rc_enriched_request := r\<rparr>, state))"

record compact_request =
  cr_model :: string
  cr_input :: "responses_input option"
  cr_instructions :: "string option"
  cr_previous_response_id :: "string option"

record compacted_response =
  cp_id :: string
  cp_object :: string
  cp_created_at :: i64
  cp_output :: "input_item list"
  cp_usage :: response_usage

text \<open>No lease is held here, so a failure leaves only what was written before it.\<close>

definition compact_response ::
  "turn_env \<Rightarrow> search_handler \<Rightarrow> compaction_env \<Rightarrow> (nat \<Rightarrow> string) \<Rightarrow> i64 \<Rightarrow> string \<Rightarrow> compact_request \<Rightarrow> world
   \<Rightarrow> (executor_error + compacted_response) \<times> world" where
  "compact_response env search cenv draw now response_id request w =
     (if cr_input request = None \<and> cr_previous_response_id request = None
      then (Inl (InvalidRequest ''compaction requires input or previous_response_id''), w)
      else
        (let payload = (compaction_request (cr_model request) (unwrap_or (cr_input request) (ItemsInput [])) (cr_instructions request))
               \<lparr>rq_previous_response_id := cr_previous_response_id request\<rparr>
         in case rehydrate_conversation env now response_id payload w of
              (Inl e, w') \<Rightarrow> (Inl e, w')
            | (Inr ctx, w') \<Rightarrow>
                (case and_then (prepare_request_tools env search ctx w') (\<lambda>(ctx', state).
                        let r = rc_enriched_request ctx'
                        in and_then (compact_items cenv (rq_model r) (rq_input r) (rq_instructions r)) (\<lambda>(items, usage).
                             Inr (ctx'\<lparr>rc_enriched_request := r\<lparr>rq_input := ItemsInput []\<rparr>, rc_new_input_items := items\<rparr>,
                                  map_option tss_metadata state, items, usage))) of
                   Inl e \<Rightarrow> (Inl e, w')
                 | Inr (ctx', metadata, items, usage) \<Rightarrow>
                     (let response = \<lparr>cp_id = rc_response_id ctx', cp_object = ''response.compaction'', cp_created_at = now,
                            cp_output = items, cp_usage = usage\<rparr>
                      in case persist_prepared_turn env draw now ctx' metadata [] w' of
                           (Inr _, w'') \<Rightarrow> (Inr response, w'')
                         | (Inl (Storage NotConfigured), w'') \<Rightarrow> (Inr response, w'')
                         | (Inl e, w'') \<Rightarrow> (Inl e, w'')))))"

section \<open>What compaction keeps\<close>

definition user_content :: "input_item \<Rightarrow> input_message_content option" where
  "user_content x = (case x of InMessage m \<Rightarrow> if im_role m = ''user'' then Some (im_content m) else None | _ \<Rightarrow> None)"

definition user_contents :: "input_item list \<Rightarrow> input_message_content list" where
  "user_contents items = List.map_filter user_content items"

lemma user_contents_simps [simp]:
  "user_contents [] = []"
  "user_contents (x # xs) = (case user_content x of None \<Rightarrow> user_contents xs | Some c \<Rightarrow> c # user_contents xs)"
  by (simp_all add: user_contents_def map_filter_simps split: option.splits)

lemma retain_user_message_Some:
  "retain_user_message draw window (i, x) = Some y \<Longrightarrow> is_completed_user_message y \<and> user_content y = user_content x
     \<and> user_content x \<noteq> None \<and> is_model_visible x \<and> in_window window i x"
  by (cases x) (auto simp: retain_user_message_def user_content_def is_model_visible_def in_window_def
      split: if_splits option.splits)

lemma retain_user_message_None:
  "retain_user_message draw window (i, x) = None \<Longrightarrow> user_content x = None \<or> \<not> in_window window i x"
  by (cases x) (auto simp: retain_user_message_def user_content_def in_window_def split: if_splits option.splits)

lemma retained_contents:
  "user_contents (List.map_filter (retain_user_message draw window) (enumerate n xs)) =
     user_contents (filter_from (\<lambda>i x. is_model_visible x \<and> in_window window i x) n xs)
   \<and> list_all is_completed_user_message (List.map_filter (retain_user_message draw window) (enumerate n xs))"
proof (induction xs arbitrary: n)
  case (Cons x xs)
  show ?case
  proof (cases "retain_user_message draw window (n, x)")
    case None
    with Cons.IH [of "Suc n"] retain_user_message_None [OF None] show ?thesis
      by (auto simp: map_filter_simps)
  next
    case (Some y)
    with Cons.IH [of "Suc n"] retain_user_message_Some [OF Some] show ?thesis
      by (auto simp: map_filter_simps)
  qed
qed (simp add: map_filter_simps)

lemma retained_user_window_spec:
  "user_contents (retained_user_window draw items) = user_contents (model_items (ItemsInput items))
   \<and> list_all is_completed_user_message (retained_user_window draw items)"
  using retained_contents [of draw "latest_compaction_window items" 0 items]
  by (simp add: retained_user_window_def model_items_def filter_indexed_def input_items_def Let_def)

lemma scan_silent:
  "list_all (\<lambda>x. is_compaction x \<or> is_completed_user_message x) xs \<Longrightarrow> run_steps scan_item s xs = Inr s"
proof (induction xs)
  case (Cons x xs)
  then show ?case by (cases x) simp_all
qed simp

lemma pending_calls_silent:
  "list_all (\<lambda>x. is_compaction x \<or> is_completed_user_message x) xs \<Longrightarrow> pending_calls xs = Inr []"
  by (simp add: pending_calls_def scan_silent im_keys_def)

lemma summary_message_other: "\<not> is_compaction x \<Longrightarrow> summary_message x = x"
  by (cases x) simp_all

lemma compacted_window_facts:
  assumes users: "list_all is_completed_user_message users" and c: "is_compaction c" and rest: "\<not> list_ex is_compaction rest"
  shows "model_input (ItemsInput (users @ c # rest)) = ItemsInput (users @ summary_message c # filter is_model_visible rest)
    \<and> canonical_session_history (users @ c # rest) = users @ c # rest
    \<and> pending_calls (users @ [c]) = Inr []"
proof -
  have "\<not> list_ex is_compaction users"
    using users user_message_item by (auto simp: list_all_iff list_ex_iff)
  then have w: "windowed [] users c rest" using c rest by (simp add: windowed_def)
  have kept: "filter is_completed_user_message users = users"
    "filter (\<lambda>x. is_completed_user_message x \<or> is_mcp_list_tools x) users = users"
    using users by (auto simp: list_all_iff filter_id_conv)
  have "map summary_message users = users" "map summary_message (filter is_model_visible rest) = filter is_model_visible rest"
    using users rest user_message_item summary_message_other
    by (auto simp: list_all_iff list_ex_iff intro!: map_idI)
  then have "model_input (ItemsInput (users @ c # rest)) = ItemsInput (users @ summary_message c # filter is_model_visible rest)"
    using model_items_windowed [OF w] latest_window_of_windowed [OF w] by (simp add: model_input_def kept)
  moreover have "canonical_session_history (users @ c # rest) = users @ c # rest"
    using canonical_windowed [OF w] by (simp add: kept)
  moreover have "pending_calls (users @ [c]) = Inr []"
    using users c by (intro pending_calls_silent) (auto simp: list_all_iff)
  ultimately show ?thesis by blast
qed

lemma response_output_text_nonempty: "response_output_text items = Some t \<Longrightarrow> t \<noteq> ''''"
  unfolding response_output_text_def Let_def by (metis option.distinct(1) option.inject)

lemma completed_summary_text_Inr:
  assumes "completed_summary_text print r = Inr summary"
  shows "rp_status r = ''completed'' \<and> rp_error r = None \<and> response_output_text (rp_output r) = Some summary \<and> summary \<noteq> ''''"
proof (cases "rp_status r \<noteq> ''completed'' \<or> rp_error r \<noteq> None")
  case True
  with assms show ?thesis unfolding completed_summary_text_def if_P [OF True] by simp
next
  case False
  with assms have "response_output_text (rp_output r) = Some summary"
    unfolding completed_summary_text_def if_not_P [OF False] by (cases "response_output_text (rp_output r)") simp_all
  with False response_output_text_nonempty show ?thesis by blast
qed

lemma compact_items_Inr:
  assumes "compact_items env model inp instructions = Inr (window, usage)"
  obtains i summary response where
    "window = retained_user_window (ce_draw env) (items_of_input (ce_printers env) inp)
       @ [InCompaction \<lparr>ci_id = Some i, ci_encrypted_content = summary\<rparr>]"
    "ce_infer env (summary_context env model (items_of_input (ce_printers env) inp) instructions) = Inr response"
    "rp_status response = ''completed''" "rp_error response = None"
    "response_output_text (rp_output response) = Some summary" "summary \<noteq> ''''"
proof -
  from assms obtain response summary where
    "ce_infer env (summary_context env model (items_of_input (ce_printers env) inp) instructions) = Inr response"
    "completed_summary_text (ce_print env) response = Inr summary"
    "window = finish_compacted_window (ce_draw env (length (items_of_input (ce_printers env) inp) + 1))
       (retained_user_window (ce_draw env) (items_of_input (ce_printers env) inp)) summary"
    by (auto simp: compact_items_def Let_def result_simps split: if_splits)
  note parts = this
  from completed_summary_text_Inr [OF parts(2)] show thesis
    by (elim conjE) (rule that [OF parts(3) [unfolded finish_compacted_window_def] parts(1)])
qed


definition toy_env :: compaction_env where
  "toy_env =
     \<lparr>ce_printers = \<lparr>pr_json = (\<lambda>_. ''''), pr_action = (\<lambda>_. ''''), pr_shell_output = (\<lambda>_. '''')\<rparr>,
      ce_print = (\<lambda>_. Inl ''''), ce_estimate = \<lparr>ec_tool = (\<lambda>_. None), ec_item = (\<lambda>_. None)\<rparr>,
      ce_draw = show_nat,
      ce_infer = (\<lambda>_. Inr \<lparr>rp_id = ''r'', rp_object = ''response'', rp_created_at = 0, rp_model = ''m'', rp_status = ''completed'',
        rp_output = [OutMessage ((new_output_message ''o'' MessageCompleted)\<lparr>om_content := [new_output_text ''sum'']\<rparr>)],
        rp_usage = None, rp_incomplete_details = None, rp_error = None, rp_previous_response_id = None,
        rp_conversation_id = None, rp_instructions = None, rp_tools = None, rp_tool_choice = None\<rparr>)\<rparr>"

definition toy_context :: request_context where
  "toy_context =
     (let r = (compaction_request ''m'' (TextInput ''hi'') None)
            \<lparr>rq_context_management := Some [\<lparr>cm_type = ''compaction'', cm_compact_threshold = Some 0\<rparr>]\<rparr>
      in \<lparr>rc_original_request = r, rc_enriched_request = r, rc_new_input_items = [], rc_response_id = ''x'',
          rc_conversation_id = None, rc_conversation_version = None, rc_continuation = None\<rparr>)"

lemma str_trim_word: "str_trim ''hi'' = ''hi''" "str_trim ''sum'' = ''sum''"
  by (simp_all add: str_trim_def strip_all.simps strip_one_def str_strip_prefix_def white_space_def)


end
