(* ===== verification/Rounds.thy ===== *)
theory Rounds
  imports Delivery Compaction
begin

text \<open>
  The engine, \<open>executor/engine.rs\<close>: inference rounds until no gateway tool is left to run, the
  compaction trigger, and what the client of a streamed or blocking request gets. One upstream
  round (\<open>fetch_stream_payload\<close> or \<open>fetch_blocking_payload\<close>) is a parameter of the loop: it answers a
  payload and the frames waiting back, and may write to the client and use up budget. A branch the
  source marks \<open>unreachable!\<close> is the result \<open>None\<close>, a panic, beside the state it leaves.
\<close>

section \<open>Decisions and usage\<close>

definition max_gateway_tool_rounds :: usize where
  "max_gateway_tool_rounds = 10"

datatype loop_decision = LoopContinue | LoopDone | RequiresClientAction | LoopIncomplete string

definition classify_round :: "bool \<Rightarrow> gateway_call_result list \<Rightarrow> usize \<Rightarrow> usize \<Rightarrow> loop_decision" where
  "classify_round handed_back results round max_rounds =
     (if handed_back then RequiresClientAction
      else if results = [] then LoopDone
      else if max_rounds \<le> round + 1
      then LoopIncomplete (''gateway tool execution exceeded '' @ show_nat max_rounds @ '' rounds'')
      else LoopContinue)"

definition add_usage :: "response_usage \<Rightarrow> response_usage \<Rightarrow> response_usage" where
  "add_usage running usage =
     \<lparr>ru_input_tokens = i64_saturating_add (ru_input_tokens running) (ru_input_tokens usage),
      ru_output_tokens = i64_saturating_add (ru_output_tokens running) (ru_output_tokens usage),
      ru_total_tokens = i64_saturating_add (ru_total_tokens running) (ru_total_tokens usage),
      ru_cached_tokens = i64_saturating_add (ru_cached_tokens running) (ru_cached_tokens usage),
      ru_reasoning_tokens = i64_saturating_add (ru_reasoning_tokens running) (ru_reasoning_tokens usage)\<rparr>"

definition accumulate_usage :: "response_usage option \<Rightarrow> response_usage option \<Rightarrow> response_usage option" where
  "accumulate_usage usage running =
     (case usage of
        None \<Rightarrow> running
      | Some u \<Rightarrow> Some (case running of None \<Rightarrow> u | Some current \<Rightarrow> add_usage current u))"

section \<open>The engine\<close>

type_synonym upstream_round =
  "request_context \<Rightarrow> tool_registry \<Rightarrow> usize \<Rightarrow> executor_response_budget \<Rightarrow> relay option
   \<Rightarrow> (executor_error + response_payload \<times> event_frame list) \<times> executor_response_budget \<times> relay option"

record engine_env =
  ge_emitter :: emitter
  ge_printers :: printers
  ge_codec :: codec
  ge_action :: "string \<Rightarrow> shell_call_action option"
  ge_discovery :: "(executor_response_budget, executor_error) discovery"
  ge_schedule :: "nat \<Rightarrow> schedule"
  ge_compaction :: "nat \<Rightarrow> compaction_env"
  ge_fetch :: "nat \<Rightarrow> upstream_round"

record engine =
  eg_context :: request_context
  eg_registry :: tool_registry
  eg_budget :: executor_response_budget
  eg_stream :: "relay option"
  eg_search :: "tool_search_state option"
  eg_world :: world

definition engine_input :: "engine \<Rightarrow> responses_input" where
  "engine_input g = rq_input (rc_enriched_request (eg_context g))"

definition set_engine_input :: "responses_input \<Rightarrow> engine \<Rightarrow> engine" where
  "set_engine_input inp g =
     g\<lparr>eg_context := (eg_context g)\<lparr>rc_enriched_request := (rc_enriched_request (eg_context g))\<lparr>rq_input := inp\<rparr>\<rparr>\<rparr>"

definition build_tool_registry :: "engine_env \<Rightarrow> engine \<Rightarrow> executor_error + engine" where
  "build_tool_registry env g =
     (let d = (ge_discovery env)\<lparr>dy_of_tool_error := Tool, dy_consume := budget_consume\<rparr>
      in and_then
           (case rq_tools (rc_enriched_request (eg_context g)) of
              None \<Rightarrow> Inr (g\<lparr>eg_registry := empty_registry\<rparr>)
            | Some tools \<Rightarrow>
                and_then (build_with_handlers_guarded d tools (eg_budget g)) (\<lambda>(reg, tools', b).
                  Inr (g\<lparr>eg_registry := reg, eg_budget := b,
                    eg_context := (eg_context g)\<lparr>rc_enriched_request :=
                      (rc_enriched_request (eg_context g))\<lparr>rq_tools := Some tools'\<rparr>\<rparr>\<rparr>))) (\<lambda>g'.
         and_then
           (case filter_option tss_active (eg_search g') of
              None \<Rightarrow> Inr ()
            | Some state \<Rightarrow>
                (case validate_tool_availability (tss_withheld state) (tss_synthetic state) (eg_registry g') of
                   Inl e \<Rightarrow> Inl (Tool e)
                 | Inr _ \<Rightarrow> Inr ())) (\<lambda>_.
           Inr (g'\<lparr>eg_registry := cache_listed_mcp_tools (engine_input g') (eg_registry g')\<rparr>))))"

definition prepare_initial_reasoning_for_vllm :: "responses_input \<Rightarrow> nat \<Rightarrow> bool \<Rightarrow> executor_error + responses_input" where
  "prepare_initial_reasoning_for_vllm inp round compacted =
     (if round = 0 \<and> \<not> compacted then prepare_reasoning_for_vllm inp else Inr inp)"

definition record_round_history :: "printers \<Rightarrow> output_item list \<Rightarrow> usize \<Rightarrow> engine \<Rightarrow> engine" where
  "record_round_history p output_items public_count g =
     (let ctx = eg_context g
      in if rc_continuation ctx \<noteq> None \<and> rq_conversation_id (rc_original_request ctx) = None
         then g\<lparr>eg_context := ctx\<lparr>rc_new_input_items := rc_new_input_items ctx
                  @ List.map_filter (to_input_item (pr_json p) (pr_action p)) (filter (\<lambda>x. \<not> is_mcp_output x) output_items)\<rparr>,
                eg_world := update_lease (mark_outputs_recorded public_count) (rc_continuation ctx) (eg_world g)\<rparr>
         else g\<lparr>eg_context := append_gateway_calls_to_new_input output_items (eg_registry g) ctx\<rparr>)"

definition record_gateway_results :: "printers \<Rightarrow> gateway_call_result list \<Rightarrow> engine \<Rightarrow> engine" where
  "record_gateway_results p results g =
     g\<lparr>eg_context := append_tool_outputs p (map gr_input_item results) (eg_context g)\<rparr>"

definition finalize_loop :: "output_item list \<Rightarrow> response_usage option \<Rightarrow> request_context \<Rightarrow> response_payload \<Rightarrow> response_payload" where
  "finalize_loop combined_output combined_usage ctx payload =
     inject_ids ctx (payload\<lparr>rp_output := combined_output, rp_usage := combined_usage\<rparr>)"

definition take_tool_search_metadata :: "engine \<Rightarrow> tool_search_metadata option \<times> engine" where
  "take_tool_search_metadata g = (map_option tss_metadata (filter_option tss_active (eg_search g)), g\<lparr>eg_search := None\<rparr>)"

section \<open>The output of a round\<close>

definition frame_at :: "usize \<Rightarrow> event_frame \<Rightarrow> usize option" where
  "frame_at n f = filter_option (\<lambda>i. i < n) (map_option unat (we_output_index (ef_wire f)))"

definition emit_indexed_output ::
  "emitter \<Rightarrow> request_context \<Rightarrow> usize \<Rightarrow> gateway_call_plan list \<Rightarrow> gateway_call_result list \<Rightarrow> usize \<Rightarrow> event_frame list
   \<Rightarrow> usize \<Rightarrow> relay \<Rightarrow> (executor_error + unit) \<times> relay" where
  "emit_indexed_output em ctx output_offset plans results started_run waiting index r =
     (let (own, r1) =
        (case call_index_for_item plans index of
           None \<Rightarrow> (Inr (), r)
         | Some k \<Rightarrow>
             (let plan = gc_events (plans ! k);
                  (begun, r') = (if started_run \<le> k then emit_gateway_start_events em [plan] r else (Inr (), r))
              in case begun of
                   Inl e \<Rightarrow> (Inl e, r')
                 | Inr _ \<Rightarrow> emit_gateway_completed_events em [gr_public_output (results ! k)] [plan] r'))
      in case own of
           Inl e \<Rightarrow> (Inl e, r1)
         | Inr _ \<Rightarrow> emit_deferred_stream_events em ctx output_offset waiting r1)"

definition execute_with_deferred ::
  "engine_env \<Rightarrow> schedule \<Rightarrow> engine \<Rightarrow> output_item list \<Rightarrow> usize \<Rightarrow> event_frame list \<Rightarrow> relay
   \<Rightarrow> (executor_error + gateway_call_result list) \<times> executor_response_budget \<times> relay" where
  "execute_with_deferred env sh g output_items output_offset deferred r =
     (let em = ge_emitter env; ctx = eg_context g; n = length output_items;
          waiting = (\<lambda>i. filter (\<lambda>f. frame_at n f = Some i) deferred);
          remaining = filter (\<lambda>f. frame_at n f = None) deferred;
          plans = plan_calls output_items (eg_registry g) output_offset;
          started_run = initial_event_run_len output_items (eg_registry g) plans
      in case emit_gateway_start_events em (take started_run (map gc_events plans)) r of
           (Inl e, r1) \<Rightarrow> (Inl e, eg_budget g, r1)
         | (Inr _, r1) \<Rightarrow>
             (case execute_plans em sh plans (eg_budget g) of
                (Inl e, b) \<Rightarrow> (Inl e, b, r1)
              | (Inr (results, done_plans), b) \<Rightarrow>
                  (case for_each (\<lambda>i. emit_indexed_output em ctx output_offset done_plans results started_run (waiting i) i) [0..<n] r1 of
                     (Inl e, r2) \<Rightarrow> (Inl e, b, r2)
                   | (Inr _, r2) \<Rightarrow>
                       (case emit_deferred_stream_events em ctx output_offset remaining r2 of
                          (Inl e, r3) \<Rightarrow> (Inl e, b, r3)
                        | (Inr _, r3) \<Rightarrow> (Inr results, b, r3)))))"

definition execute_round_output ::
  "engine_env \<Rightarrow> schedule \<Rightarrow> output_item list \<Rightarrow> usize \<Rightarrow> event_frame list \<Rightarrow> engine
   \<Rightarrow> (executor_error + gateway_call_result list) \<times> engine" where
  "execute_round_output env sh output_items output_offset deferred g =
     (case eg_stream g of
        Some r \<Rightarrow>
          if deferred \<noteq> []
          then (case execute_with_deferred env sh g output_items output_offset deferred r of
                  (res, b, r') \<Rightarrow> (res, g\<lparr>eg_budget := b, eg_stream := Some r'\<rparr>))
          else (case execute_and_emit_output_calls (ge_emitter env) sh output_items (eg_registry g) output_offset
                       (eg_budget g) (Some r) of
                  (res, b, s) \<Rightarrow> (res, g\<lparr>eg_budget := b, eg_stream := s\<rparr>))
      | None \<Rightarrow>
          (case execute_and_emit_output_calls (ge_emitter env) sh output_items (eg_registry g) output_offset
                  (eg_budget g) None of
             (res, b, s) \<Rightarrow> (res, g\<lparr>eg_budget := b, eg_stream := s\<rparr>)))"

section \<open>Rounds\<close>

datatype round_result =
    Finished response_payload "tool_search_metadata option"
  | NextRound "output_item list" "response_usage option"

definition finished :: "output_item list \<Rightarrow> response_usage option \<Rightarrow> response_payload \<Rightarrow> engine \<Rightarrow> (executor_error + round_result) \<times> engine" where
  "finished combined_output combined_usage payload g =
     (let result = finalize_loop combined_output combined_usage (eg_context g) payload;
          (metadata, g') = take_tool_search_metadata g
      in (Inr (Finished result metadata), g'))"

definition mark_incomplete :: "string \<Rightarrow> response_payload \<Rightarrow> response_payload" where
  "mark_incomplete reason payload =
     payload\<lparr>rp_status := ''incomplete'', rp_incomplete_details := Some \<lparr>id_reason = Some reason\<rparr>\<rparr>"

text \<open>The upstream call of a round, with what precedes it.\<close>

definition fetch_round ::
  "engine_env \<Rightarrow> bool \<Rightarrow> nat \<Rightarrow> output_item list \<Rightarrow> response_usage option \<Rightarrow> engine
   \<Rightarrow> (executor_error + response_payload \<times> event_frame list \<times> response_usage option) \<times> engine" where
  "fetch_round env stream_upstream round combined_output combined_usage g =
     (case maybe_compact_context (ge_compaction env round) (eg_context g) (eg_world g) of
        Inl e \<Rightarrow> (Inl e, g)
      | Inr (compaction_usage, ctx, w) \<Rightarrow>
          (let g1 = g\<lparr>eg_context := ctx, eg_world := w\<rparr>
           in case prepare_initial_reasoning_for_vllm (engine_input g1) round (compaction_usage \<noteq> None) of
                Inl e \<Rightarrow> (Inl e, g1)
              | Inr inp \<Rightarrow>
                  (let g2 = set_engine_input inp g1
                   in case ge_fetch env round (eg_context g2) (eg_registry g2) (length combined_output) (eg_budget g2) (eg_stream g2) of
                        (Inl e, b, s) \<Rightarrow> (Inl e, g2\<lparr>eg_budget := b, eg_stream := s\<rparr>)
                      | (Inr (payload, deferred), b, s) \<Rightarrow>
                          (Inr (payload, if stream_upstream then deferred else [],
                                accumulate_usage compaction_usage combined_usage),
                           g2\<lparr>eg_budget := b, eg_stream := s,
                              eg_registry := (if stream_upstream \<and> round = 0 then clear_mcp_list_tool_items (eg_registry g2)
                                              else eg_registry g2)\<rparr>))))"

text \<open>What happens after the calls of a round ran.\<close>

definition conclude_round ::
  "engine_env \<Rightarrow> nat \<Rightarrow> output_item list \<Rightarrow> response_usage option \<Rightarrow> response_payload \<Rightarrow> output_item list
   \<Rightarrow> gateway_call_result list \<Rightarrow> bool \<Rightarrow> engine \<Rightarrow> (executor_error + round_result) \<times> engine" where
  "conclude_round env round combined_output combined_usage payload current results handed_back g =
     (let p = ge_printers env;
          recorded = record_gateway_results p results g
      in if rp_status payload = ''incomplete'' then finished combined_output combined_usage payload recorded
         else
           (case classify_round handed_back results round max_gateway_tool_rounds of
              RequiresClientAction \<Rightarrow> finished combined_output combined_usage payload recorded
            | LoopDone \<Rightarrow> finished combined_output combined_usage payload g
            | LoopIncomplete reason \<Rightarrow>
                (case finished combined_output combined_usage payload recorded of
                   (Inr (Finished result metadata), g') \<Rightarrow> (Inr (Finished (mark_incomplete reason result) metadata), g')
                 | other \<Rightarrow> other)
            | LoopContinue \<Rightarrow>
                (let r = rc_enriched_request (eg_context g);
                     g1 = g\<lparr>eg_context := (eg_context g)\<lparr>rc_enriched_request := r\<lparr>rq_tool_choice := Some ChoiceAuto,
                            rq_input := append_output_items_to_input p current (rq_input r)\<rparr>\<rparr>\<rparr>
                 in (Inr (NextRound combined_output combined_usage), record_gateway_results p results g1))))"

definition run_round ::
  "engine_env \<Rightarrow> bool \<Rightarrow> nat \<Rightarrow> output_item list \<Rightarrow> response_usage option \<Rightarrow> engine
   \<Rightarrow> (executor_error + round_result) \<times> engine" where
  "run_round env stream_upstream round combined_output combined_usage g =
     (case fetch_round env stream_upstream round combined_output combined_usage g of
        (Inl e, g1) \<Rightarrow> (Inl e, g1)
      | (Inr (fetched, deferred, usage), g1) \<Rightarrow>
          (let usage' = accumulate_usage (rp_usage fetched) usage;
               current = rp_output fetched;
               payload = fetched\<lparr>rp_usage := None, rp_output := []\<rparr>
           in if rp_status payload = ''error'' \<or> rp_status payload = ''failed''
              then finished (combined_output @ current) usage' payload g1
              else
                (case execute_round_output env (ge_schedule env round) current (length combined_output) deferred g1 of
                   (Inl e, g2) \<Rightarrow> (Inl e, g2)
                 | (Inr results, g2) \<Rightarrow>
                     (case public_output_items (ge_codec env) (ge_action env) current (eg_registry g2) results of
                        Inl e \<Rightarrow> (Inl e, g2)
                      | Inr public \<Rightarrow>
                          (let combined = combined_output @ public
                           in conclude_round env round combined usage' payload current results
                                (has_client_owned_calls current (eg_registry g1))
                                (record_round_history (ge_printers env) current (length combined) g2))))))"

type_synonym agent_result = "executor_error + response_payload \<times> tool_search_metadata option"

fun run_rounds ::
  "engine_env \<Rightarrow> bool \<Rightarrow> nat list \<Rightarrow> output_item list \<Rightarrow> response_usage option \<Rightarrow> engine
   \<Rightarrow> agent_result option \<times> engine" where
  "run_rounds env stream_upstream [] combined_output combined_usage g = (None, g)"
| "run_rounds env stream_upstream (round # rounds) combined_output combined_usage g =
     (case run_round env stream_upstream round combined_output combined_usage g of
        (Inl e, g') \<Rightarrow> (Some (Inl e), g')
      | (Inr (Finished payload metadata), g') \<Rightarrow> (Some (Inr (payload, metadata)), g')
      | (Inr (NextRound combined_output' combined_usage'), g') \<Rightarrow>
          run_rounds env stream_upstream rounds combined_output' combined_usage' g')"

definition run_engine :: "engine_env \<Rightarrow> bool \<Rightarrow> engine \<Rightarrow> agent_result option \<times> engine" where
  "run_engine env stream_upstream g =
     run_rounds env stream_upstream [0..<max_gateway_tool_rounds]
       (map OutMcpListTools (mcp_list_tool_items (eg_registry g))) None g"

section \<open>The compaction trigger\<close>

definition run_compaction_trigger ::
  "compaction_env \<Rightarrow> i64 \<Rightarrow> engine \<Rightarrow> (executor_error + response_payload) option \<times> engine" where
  "run_compaction_trigger cenv now g =
     (let ctx = eg_context g; r = rc_enriched_request ctx;
          taken = set_engine_input (ItemsInput []) g
      in case compact_items cenv (rq_model r) (rq_input r) (rq_instructions r) of
           Inl e \<Rightarrow> (Some (Inl e), taken)
         | Inr (items, usage) \<Rightarrow>
             (case rev items of
                InCompaction c # kept \<Rightarrow>
                  (let ctx' = (eg_context taken)\<lparr>rc_new_input_items := rev kept\<rparr>;
                       payload = \<lparr>rp_id = rc_response_id ctx, rp_object = ''response'', rp_created_at = now, rp_model = rq_model r,
                         rp_status = ''completed'', rp_output = [OutCompaction c], rp_usage = Some usage,
                         rp_incomplete_details = None, rp_error = None,
                         rp_previous_response_id = rq_previous_response_id (rc_original_request ctx),
                         rp_conversation_id = rc_conversation_id ctx, rp_instructions = rq_instructions r,
                         rp_tools = None, rp_tool_choice = None\<rparr>
                   in (Some (Inr (inject_ids ctx' payload)),
                            taken\<lparr>eg_context := ctx',
                              eg_world := update_lease mark_history_replaced (rc_continuation ctx) (eg_world g)\<rparr>))
              | _ \<Rightarrow> (None, taken)))"

definition emit_compaction_lifecycle :: "emitter \<Rightarrow> response_payload \<Rightarrow> relay \<Rightarrow> (executor_error + unit) \<times> relay" where
  "emit_compaction_lifecycle em payload r =
     (let plans = compaction_event_plans (rp_output payload) 0
      in case emit_gateway_events em (response_start_events em payload) r of
           (Inl e, r') \<Rightarrow> (Inl e, r')
         | (Inr _, r') \<Rightarrow>
             (case emit_gateway_start_events em plans r' of
                (Inl e, r'') \<Rightarrow> (Inl e, r'')
              | (Inr _, r'') \<Rightarrow> emit_gateway_completed_events em (map Some (rp_output payload)) plans r''))"

definition run_until_gateway_tools_complete ::
  "engine_env \<Rightarrow> compaction_env \<Rightarrow> i64 \<Rightarrow> bool \<Rightarrow> engine \<Rightarrow> agent_result option \<times> engine" where
  "run_until_gateway_tools_complete env cenv now stream_upstream g =
     (if has_compaction_trigger (rq_input (rc_original_request (eg_context g)))
      then
        (let (metadata, g1) = take_tool_search_metadata g
         in case run_compaction_trigger cenv now g1 of
              (None, g2) \<Rightarrow> (None, g2)
            | (Some (Inl e), g2) \<Rightarrow> (Some (Inl e), g2)
            | (Some (Inr payload), g2) \<Rightarrow>
                (case eg_stream g2 of
                   None \<Rightarrow> (Some (Inr (payload, metadata)), g2)
                 | Some r \<Rightarrow>
                     (case emit_compaction_lifecycle (ge_emitter env) payload r of
                        (Inl e, r') \<Rightarrow> (Some (Inl e), g2\<lparr>eg_stream := Some r'\<rparr>)
                      | (Inr _, r') \<Rightarrow> (Some (Inr (payload, metadata)), g2\<lparr>eg_stream := Some r'\<rparr>))))
      else
        (case build_tool_registry env (g\<lparr>eg_budget := new_response_budget\<rparr>) of
           Inl e \<Rightarrow> (Some (Inl e), g)
         | Inr g' \<Rightarrow> run_engine env stream_upstream g'))"

end
