(* ===== verification/Execute.thy ===== *)
theory Execute
  imports Rounds Turn_Properties
begin

text \<open>
  A whole request, \<open>ExecuteRequest::run\<close> of \<open>executor/engine.rs\<close>: rehydration, tool preparation,
  the engine, persistence, and the chunks a streaming client reads. The consumer forwards the
  events of the channel in order, drains the channel before it reacts to the end of the task, and
  persists before it yields the terminal chunk. A context that is dropped gives its lease back.
\<close>

section \<open>Preparing\<close>

record request_env =
  re_turn :: turn_env
  re_search :: search_handler
  re_engine :: engine_env
  re_compaction :: compaction_env
  re_status :: "status_code \<Rightarrow> string"
  re_draw :: "nat \<Rightarrow> string"
  re_now :: i64
  re_panic :: string

text \<open>The part of \<open>run\<close> up to the choice between a stream and one body.\<close>

definition prepare_execution ::
  "request_env \<Rightarrow> string \<Rightarrow> request_payload \<Rightarrow> lease_id option \<Rightarrow> world
   \<Rightarrow> (executor_error + request_context \<times> tool_search_state option) \<times> world" where
  "prepare_execution env response_id request l w =
     (case rehydrate_with_continuation (re_turn env) (re_now env) response_id request l w of
        (Inl e, w') \<Rightarrow> (Inl e, w')
      | (Inr ctx, w') \<Rightarrow>
          (let inp = rq_input (rc_enriched_request ctx)
           in case and_then (if has_compaction_trigger inp then Inr () else validate_reasoning_for_vllm inp)
                     (\<lambda>_. prepare_request_tools (re_turn env) (re_search env) ctx w') of
                Inl e \<Rightarrow> (Inl e, end_lease (rc_continuation ctx) w')
              | Inr prepared \<Rightarrow> (Inr prepared, w')))"

definition start_engine :: "request_context \<Rightarrow> tool_search_state option \<Rightarrow> relay option \<Rightarrow> world \<Rightarrow> engine" where
  "start_engine ctx search stream w =
     \<lparr>eg_context = ctx, eg_registry = empty_registry, eg_budget = new_response_budget, eg_stream = stream,
      eg_search = search, eg_world = w\<rparr>"

definition run_agent :: "request_env \<Rightarrow> bool \<Rightarrow> engine \<Rightarrow> agent_result option \<times> engine" where
  "run_agent env = run_until_gateway_tools_complete (re_engine env) (re_compaction env) (re_now env)"

definition drop_context :: "engine \<Rightarrow> world" where
  "drop_context g = end_lease (rc_continuation (eg_context g)) (eg_world g)"

section \<open>One body\<close>

text \<open>A panic unwinds and drops the context.\<close>

definition run_blocking ::
  "request_env \<Rightarrow> request_context \<Rightarrow> tool_search_state option \<Rightarrow> world \<Rightarrow> (executor_error + response_payload) option \<times> world" where
  "run_blocking env ctx search w =
     (let g = start_engine ctx search None w
      in case run_agent env False g of
           (None, g') \<Rightarrow> (None, drop_context g')
         | (Some (Inl e), g') \<Rightarrow> (Some (Inl e), drop_context g')
         | (Some (Inr (payload, metadata)), g') \<Rightarrow>
             (case persist_if_needed (re_turn env) (re_draw env) (re_now env) payload (eg_context g') metadata (eg_world g') of
                (Inl e, w') \<Rightarrow> (Some (Inl e), w')
              | (Inr _, w') \<Rightarrow> (Some (Inr payload), w')))"

section \<open>A stream\<close>

definition failed_payload :: "request_env \<Rightarrow> request_context \<Rightarrow> executor_error \<Rightarrow> response_payload" where
  "failed_payload env ctx e =
     \<lparr>rp_id = rc_response_id ctx, rp_object = ''response'', rp_created_at = re_now env,
      rp_model = rq_model (rc_enriched_request ctx), rp_status = ''failed'', rp_output = [], rp_usage = None,
      rp_incomplete_details = None,
      rp_error = Some (JObject [(''message'', JString (error_message (re_status env) e)), (''type'', JString (error_type e)),
        (''code'', JString (error_code e))]),
      rp_previous_response_id = rq_previous_response_id (rc_original_request ctx),
      rp_conversation_id = rc_conversation_id ctx, rp_instructions = rq_instructions (rc_original_request ctx),
      rp_tools = None, rp_tool_choice = None\<rparr>"

definition done_marker :: string where
  "done_marker = ''data: [DONE]'' @ [newline, newline]"

definition consume_stream_event :: "stream_event \<Rightarrow> u64 \<Rightarrow> string \<times> u64" where
  "consume_stream_event ev n = (sv_content ev, u64_saturating_add (sv_sequence_number ev) 1)"

fun consume_stream_events :: "stream_event list \<Rightarrow> u64 \<Rightarrow> string list \<times> u64" where
  "consume_stream_events [] n = ([], n)"
| "consume_stream_events (ev # evs) n =
     (let (chunk, n') = consume_stream_event ev n; (chunks, n'') = consume_stream_events evs n'
      in (chunk # chunks, n''))"

text \<open>How the stream ends: the last chunk before the marker, and the world after it.\<close>

definition stream_end ::
  "request_env \<Rightarrow> request_context \<Rightarrow> u64
   \<Rightarrow> agent_result option \<Rightarrow> engine \<Rightarrow> string \<times> world" where
  "stream_end env ctx n result g =
     (let em = ge_emitter (re_engine env);
          error_chunk = (\<lambda>e. executor_error_chunk_at (em_print em) (re_status env) e n)
      in case result of
           None \<Rightarrow> (error_sse_chunk (em_print em) (''stream task failed: '' @ re_panic env) n, drop_context g)
         | Some (Inl e) \<Rightarrow>
             ((if is_invalid_upstream_tool_search e
               then (case fst (terminal_response_chunk (em_print em) (em_payload em) (failed_payload env ctx e)
                              (rl_stream (the (eg_stream g)))) of
                       Inr chunk \<Rightarrow> chunk
                     | Inl serialize_error \<Rightarrow> error_chunk serialize_error)
               else error_chunk e),
              drop_context g)
         | Some (Inr (payload, metadata)) \<Rightarrow>
             (case fst (terminal_response_chunk (em_print em) (em_payload em) payload (rl_stream (the (eg_stream g)))) of
                Inl e \<Rightarrow> (error_chunk e, drop_context g)
              | Inr chunk \<Rightarrow>
                  (case persist_if_needed (re_turn env) (re_draw env) (re_now env) payload (eg_context g) metadata (eg_world g) of
                     (Inr _, w') \<Rightarrow> (chunk, w')
                   | (Inl e, w') \<Rightarrow> (error_chunk e, w'))))"

definition run_stream ::
  "request_env \<Rightarrow> request_context \<Rightarrow> tool_search_state option \<Rightarrow> world \<Rightarrow> string list \<times> world" where
  "run_stream env ctx search w =
     (let (result, g) = run_agent env True (start_engine ctx search (Some new_relay) w);
          (chunks, n) = consume_stream_events (rl_sent (the (eg_stream g))) 0;
          (last_chunk, w') = stream_end env ctx n result g
      in (chunks @ [last_chunk, done_marker], w'))"

section \<open>The request\<close>

datatype executed = Body response_payload | Streamed "string list" | Panicked

definition execute_request ::
  "request_env \<Rightarrow> string \<Rightarrow> request_payload \<Rightarrow> lease_id option \<Rightarrow> world \<Rightarrow> (executor_error + executed) \<times> world" where
  "execute_request env response_id request l w =
     (case prepare_execution env response_id request l w of
        (Inl e, w') \<Rightarrow> (Inl e, w')
      | (Inr (ctx, search), w') \<Rightarrow>
          if rq_stream (rc_original_request ctx)
          then map_prod (\<lambda>chunks. Inr (Streamed chunks)) id (run_stream env ctx search w')
          else
            (case run_blocking env ctx search w' of
               (None, w'') \<Rightarrow> (Inr Panicked, w'')
             | (Some (Inl e), w'') \<Rightarrow> (Inl e, w'')
             | (Some (Inr payload), w'') \<Rightarrow> (Inr (Body payload), w'')))"

definition execute_in_session ::
  "request_env \<Rightarrow> string \<Rightarrow> request_payload \<Rightarrow> session_id \<Rightarrow> world \<Rightarrow> (executor_error + executed) \<times> world" where
  "execute_in_session env response_id request session w =
     (case begin_turn session (rq_previous_response_id request) (wd_sessions w) of
        Inl e \<Rightarrow> (Inl e, w)
      | Inr (l, s) \<Rightarrow> execute_request env response_id request (Some l) (w\<lparr>wd_sessions := s\<rparr>))"

end
