(* ===== verification/Rounds_Properties.thy ===== *)
theory Rounds_Properties
  imports Execute
begin

text \<open>
  What the engine guarantees: it always concludes within its rounds, the model is never asked to
  go on with an unanswered call, the stream it writes is numbered without a gap to its last
  chunk, and a whole request gives its session back.
\<close>

section \<open>Concluding\<close>

lemma finished_not_next: "fst (finished combined_output combined_usage payload g) \<noteq> Inr (NextRound o1 u1)"
  by (simp add: finished_def take_tool_search_metadata_def)

lemma conclude_round_next:
  assumes "conclude_round env round combined usage payload current results handed_back g = (Inr (NextRound o1 u1), g')"
  shows "round + 1 < max_gateway_tool_rounds \<and> results \<noteq> [] \<and> \<not> handed_back \<and> rp_status payload \<noteq> ''incomplete''
    \<and> o1 = combined \<and> u1 = usage
    \<and> g' = record_gateway_results (ge_printers env) results (g\<lparr>eg_context := (eg_context g)\<lparr>rc_enriched_request :=
         (rc_enriched_request (eg_context g))\<lparr>rq_tool_choice := Some ChoiceAuto,
           rq_input := append_output_items_to_input (ge_printers env) current (rq_input (rc_enriched_request (eg_context g)))\<rparr>\<rparr>\<rparr>)"
  using assms finished_not_next
  by (auto simp: conclude_round_def Let_def classify_round_def finished_def take_tool_search_metadata_def
      split: if_splits)

lemma run_round_next_round:
  assumes "run_round env s round o0 u0 g = (Inr (NextRound o1 u1), g')"
  shows "round + 1 < max_gateway_tool_rounds"
  using assms
  by (auto simp: run_round_def Let_def finished_def take_tool_search_metadata_def dest!: conclude_round_next
      split: prod.splits sum.splits if_splits)

lemma run_rounds_conclude:
  "n < max_gateway_tool_rounds \<Longrightarrow> \<exists>r g'. run_rounds env s [n..<max_gateway_tool_rounds] o0 u0 g = (Some r, g')"
proof (induction "max_gateway_tool_rounds - n" arbitrary: n o0 u0 g)
  case (Suc k)
  have rounds: "[n..<max_gateway_tool_rounds] = n # [Suc n..<max_gateway_tool_rounds]"
    using Suc.prems by (rule upt_conv_Cons)
  obtain r g1 where step: "run_round env s n o0 u0 g = (r, g1)" by force
  show ?case
  proof (cases r)
    case (Inr x)
    show ?thesis
    proof (cases x)
      case (NextRound o1 u1)
      have "Suc n < max_gateway_tool_rounds"
        using run_round_next_round [OF step [unfolded Inr NextRound]] by simp
      with Suc.hyps(1) [of "Suc n" o1 u1 g1] Suc.hyps(2) Inr NextRound step show ?thesis
        by (simp add: rounds)
    qed (simp add: rounds step Inr)
  qed (simp add: rounds step)
qed simp

lemma run_rounds_cong:
  "\<forall>n\<in>set rounds. fetch n = ge_fetch env n \<Longrightarrow> run_rounds (env\<lparr>ge_fetch := fetch\<rparr>) s rounds o0 u0 g = run_rounds env s rounds o0 u0 g"
proof (induction rounds arbitrary: o0 u0 g)
  case (Cons n rounds)
  have fetched: "fetch_round (env\<lparr>ge_fetch := fetch\<rparr>) s n o0 u0 g = fetch_round env s n o0 u0 g"
    using Cons.prems by (simp add: fetch_round_def Let_def cong: sum.case_cong prod.case_cong option.case_cong loop_decision.case_cong)
  have "execute_with_deferred (env\<lparr>ge_fetch := fetch\<rparr>) = execute_with_deferred env"
    by (intro ext) (simp add: execute_with_deferred_def Let_def cong: sum.case_cong prod.case_cong)
  then have "execute_round_output (env\<lparr>ge_fetch := fetch\<rparr>) = execute_round_output env"
    by (intro ext) (simp add: execute_round_output_def cong: option.case_cong if_cong)
  moreover have "conclude_round (env\<lparr>ge_fetch := fetch\<rparr>) = conclude_round env"
    by (intro ext) (simp add: conclude_round_def Let_def cong: if_cong sum.case_cong prod.case_cong option.case_cong loop_decision.case_cong)
  ultimately have "run_round (env\<lparr>ge_fetch := fetch\<rparr>) s n o0 u0 g = run_round env s n o0 u0 g"
    by (simp add: run_round_def fetched Let_def cong: if_cong sum.case_cong prod.case_cong option.case_cong loop_decision.case_cong)
  then show ?case using Cons by (simp split: prod.splits sum.splits round_result.splits)
qed simp

lemma compact_items_last:
  "compact_items cenv model inp instructions = Inr (items, usage) \<Longrightarrow> \<exists>c kept. rev items = InCompaction c # kept"
  by (elim compact_items_Inr) simp

lemma run_compaction_trigger_Some: "\<exists>r g'. run_compaction_trigger cenv now g = (Some r, g')"
  by (auto simp: run_compaction_trigger_def Let_def split: sum.split dest: compact_items_last)

lemma run_until_concludes: "\<exists>r g'. run_until_gateway_tools_complete env cenv now s g = (Some r, g')"
proof -
  have "\<exists>r g'. run_engine env s h = (Some r, g')" for h
    unfolding run_engine_def by (rule run_rounds_conclude) (simp add: max_gateway_tool_rounds_def)
  moreover obtain r g' where "run_compaction_trigger cenv now (snd (take_tool_search_metadata g)) = (Some r, g')"
    using run_compaction_trigger_Some by blast
  ultimately show ?thesis
    by (auto simp: run_until_gateway_tools_complete_def take_tool_search_metadata_def split: sum.split option.split prod.split)
qed

text \<open>
  C7: the engine always concludes, within ten upstream rounds. Whatever the model answers, whatever
  the handlers do and whatever is in the request, the loop ends with a result or an error, never
  in the branch the source marks unreachable, and what it answers, writes and leaves behind does
  not depend on what an upstream call beyond the tenth would have answered.
\<close>

theorem engine_always_concludes:
  "\<exists>r g'. run_until_gateway_tools_complete env cenv now s g = (Some r, g')
     \<and> run_until_gateway_tools_complete
         (env\<lparr>ge_fetch := (\<lambda>n. if n < max_gateway_tool_rounds then ge_fetch env n else further n)\<rparr>) cenv now s g = (Some r, g')"
proof -
  let ?env = "env\<lparr>ge_fetch := (\<lambda>n. if n < max_gateway_tool_rounds then ge_fetch env n else further n)\<rparr>"
  have "build_tool_registry ?env = build_tool_registry env"
    by (intro ext) (simp add: build_tool_registry_def Let_def cong: option.case_cong)
  moreover have "run_engine ?env = run_engine env"
    by (intro ext) (simp add: run_engine_def run_rounds_cong)
  ultimately have "run_until_gateway_tools_complete ?env cenv now s g = run_until_gateway_tools_complete env cenv now s g"
    by (simp add: run_until_gateway_tools_complete_def cong: if_cong option.case_cong prod.case_cong sum.case_cong)
  then show ?thesis using run_until_concludes [of env cenv now s g] by metis
qed

section \<open>Every call is answered\<close>

text \<open>The identifiers of the function calls of an output.\<close>

definition function_call_ids :: "output_item list \<Rightarrow> string list" where
  "function_call_ids items =
     List.map_filter (\<lambda>x. case x of OutFunctionCall call \<Rightarrow> Some (fc_call_id call) | _ \<Rightarrow> None) items"

text \<open>What a handler promises: its output names the call it was given.\<close>

definition handlers_answer :: "tool_registry \<Rightarrow> bool" where
  "handlers_answer reg \<longleftrightarrow>
     (\<forall>name e b call_id n a out. lookup reg name = Some e \<and> ty_ownership e = GatewayOwned (Some b)
        \<and> gb_execute b call_id n a = Inr out \<longrightarrow> tu_call_id out = call_id)"

text \<open>What the model promises: the calls of one answer have new nonempty identifiers.\<close>

definition fresh_calls :: "upstream_round \<Rightarrow> bool" where
  "fresh_calls fetch \<longleftrightarrow>
     (\<forall>ctx reg k b s payload deferred b' s'. fetch ctx reg k b s = (Inr (payload, deferred), b', s') \<longrightarrow>
        distinct (function_call_ids (rp_output payload)) \<and> '''' \<notin> set (function_call_ids (rp_output payload))
        \<and> set (function_call_ids (rp_output payload)) \<inter> set (call_ids (input_items (rq_input (rc_enriched_request ctx)))) = {})"

definition permuting :: "schedule \<Rightarrow> bool" where
  "permuting sh \<longleftrightarrow> (\<forall>n. mset (sh_order sh n) = mset [0..<n])"

lemma function_call_ids_simps [simp]:
  "function_call_ids [] = []"
  "function_call_ids (x # xs) = (case x of OutFunctionCall call \<Rightarrow> [fc_call_id call] | _ \<Rightarrow> []) @ function_call_ids xs"
  by (simp_all add: function_call_ids_def split: output_item.split)

definition answer_of :: "string \<Rightarrow> input_item \<Rightarrow> bool" where
  "answer_of i x \<longleftrightarrow> output_of x = Some (i, KindFunction)"

lemma planned_handler:
  assumes "p \<in> set (plan_calls items reg k)" "gc_execution p = Bound b"
  shows "\<exists>e. lookup reg (fc_name (gc_call p)) = Some e \<and> ty_ownership e = GatewayOwned (Some b)"
  using assms
  by (auto simp: plan_calls_def set_map_filter plan_call_eq split: output_item.splits option.splits tool_ownership.splits)

lemma execution_error_output_id: "execution_error_output print call m = Inr out \<Longrightarrow> tu_call_id out = fc_call_id call"
  by (auto simp: execution_error_output_def split: sum.splits)

lemma call_outcome_id:
  assumes "p \<in> set (plan_calls items reg k)" "handlers_answer reg" "call_outcome print elapsed p = Inr (out, public)"
  shows "tu_call_id out = fc_call_id (gc_call p)"
proof (cases "gc_execution p")
  case MissingHandler
  with assms(3) show ?thesis
    by (auto simp: call_outcome_def Let_def result_simps dest: execution_error_output_id)
next
  case (Bound b)
  then obtain e where "lookup reg (fc_name (gc_call p)) = Some e" "ty_ownership e = GatewayOwned (Some b)"
    using planned_handler [OF assms(1)] by blast
  with assms(2) have "tu_call_id out' = i" if "gb_execute b i n a = Inr out'" for i n a out'
    using that unfolding handlers_answer_def by blast
  with Bound assms(3) show ?thesis
    by (auto simp: call_outcome_def Let_def result_simps split: if_splits sum.splits tool_error.splits
        dest: execution_error_output_id)
qed

lemma call_result_answers:
  assumes "p \<in> set (plan_calls items reg k)" "handlers_answer reg" "isr (call_result print elapsed p)"
  shows "answer_of (fc_call_id (gc_call p)) (gr_input_item (result_of (call_result print elapsed p)))"
proof -
  obtain out public n where "call_outcome print elapsed p = Inr (out, public)"
      "call_result print elapsed p = Inr (\<lparr>gr_item_index = gc_item_index p, gr_input_item = input_of_tool_output out,
         gr_public_output = public\<rparr>, n)"
    using assms(3) by (auto simp: call_result_def isr_cases result_simps split: prod.splits)
  with call_outcome_id [OF assms(1,2)] show ?thesis
    by (simp add: result_of_def answer_of_def input_of_tool_output_def)
qed

lemma executed_calls_answer:
  assumes "permuting sh" "handlers_answer reg"
    and "execute_plans em sh (plan_calls items reg k) b = (Inr (results, completed), b')"
  shows "list_all2 answer_of (map (fc_call_id \<circ> gc_call) (plan_calls items reg k)) (map gr_input_item results)"
proof -
  let ?plans = "plan_calls items reg k"
  have perm: "mset (sh_order sh (length ?plans)) = mset [0..<length ?plans]"
    using assms(1) by (simp add: permuting_def)
  note spec = execute_with_budget_spec [OF perm, of "em_print em" "sh_elapsed sh" b]
  have fits: "round_fits (em_print em) (sh_elapsed sh) ?plans b"
    using conjunct2 [OF spec] assms(3) by (auto simp: execute_plans_def)
  with conjunct1 [OF spec] assms(3)
  have "results = map (\<lambda>p. result_of (call_result (em_print em) (sh_elapsed sh) p)) ?plans"
    by (simp add: execute_plans_def Let_def)
  moreover have "isr (call_result (em_print em) (sh_elapsed sh) p)" if "p \<in> set ?plans" for p
    using fits that by (auto simp: round_fits_def list_all_iff)
  ultimately show ?thesis
    using call_result_answers [OF _ assms(2)] by (simp add: list.rel_map list.rel_refl_strong)
qed

text \<open>Scanning what a round adds: its items first, then the outputs in the same order.\<close>

lemma scan_output_item:
  assumes "\<not> requires_client_action reg x"
  shows "run_steps scan_item s (List.map_filter (to_input_item t a) [x]) =
    (case x of OutFunctionCall call \<Rightarrow> add_call (fc_call_id call) KindFunction s | _ \<Rightarrow> Inr s)"
  using assms by (cases x) (auto simp: input_call_of_function_def split: sum.splits)

lemma scan_output_items:
  assumes "list_all (\<lambda>x. \<not> requires_client_action reg x) items"
    and "distinct (function_call_ids items)" "'''' \<notin> set (function_call_ids items)"
    and "set (function_call_ids items) \<inter> ps_seen_call_ids s = {}"
    and "set (function_call_ids items) \<inter> set (im_keys (ps_pending s)) = {}"
  shows "run_steps scan_item s (List.map_filter (to_input_item t a) items) =
    Inr \<lparr>ps_seen_call_ids = ps_seen_call_ids s \<union> set (function_call_ids items),
         ps_pending = ps_pending s @ map (\<lambda>i. (i, KindFunction)) (function_call_ids items)\<rparr>"
  using assms
proof (induction items arbitrary: s)
  case (Cons x xs)
  note append = run_steps_append [of scan_item s "List.map_filter (to_input_item t a) [x]" "List.map_filter (to_input_item t a) xs"]
  have split: "List.map_filter (to_input_item t a) (x # xs) =
      List.map_filter (to_input_item t a) [x] @ List.map_filter (to_input_item t a) xs"
    by (simp split: option.split)
  have first: "run_steps scan_item s (List.map_filter (to_input_item t a) [x]) =
      (case x of OutFunctionCall call \<Rightarrow> add_call (fc_call_id call) KindFunction s | _ \<Rightarrow> Inr s)"
    using Cons.prems(1) by (intro scan_output_item [of reg]) simp
  show ?case
  proof (cases "\<exists>call. x = OutFunctionCall call")
    case True
    then obtain call where x: "x = OutFunctionCall call" ..
    let ?i = "fc_call_id call"
    let ?s = "\<lparr>ps_seen_call_ids = insert ?i (ps_seen_call_ids s), ps_pending = ps_pending s @ [(?i, KindFunction)]\<rparr>"
    have "add_call ?i KindFunction s = Inr ?s"
      using Cons.prems(3-5) by (auto simp: x add_call_def im_insert_new)
    moreover have "run_steps scan_item ?s (List.map_filter (to_input_item t a) xs) =
        Inr \<lparr>ps_seen_call_ids = ps_seen_call_ids ?s \<union> set (function_call_ids xs),
          ps_pending = ps_pending ?s @ map (\<lambda>i. (i, KindFunction)) (function_call_ids xs)\<rparr>"
      by (rule Cons.IH) (use Cons.prems x in \<open>auto simp: im_keys_def\<close>)
    ultimately show ?thesis
      unfolding split append first by (simp add: x)
  next
    case False
    then have "function_call_ids (x # xs) = function_call_ids xs"
      "(case x of OutFunctionCall call \<Rightarrow> add_call (fc_call_id call) KindFunction s | _ \<Rightarrow> Inr s) = Inr s"
      by (auto split: output_item.split)
    then show ?thesis
      unfolding split append first using Cons.IH [of s] Cons.prems by simp
  qed
qed simp

lemma scan_answers:
  assumes "list_all2 answer_of ids outs" "'''' \<notin> set ids" "distinct ids"
  shows "run_steps scan_item \<lparr>ps_seen_call_ids = seen, ps_pending = map (\<lambda>i. (i, KindFunction)) ids\<rparr> outs =
    Inr \<lparr>ps_seen_call_ids = seen, ps_pending = []\<rparr>"
  using assms
proof (induction rule: list_all2_induct)
  case (Cons i ids x outs)
  then have scan: "scan_item s x = resolve_call i KindFunction s" for s
    by (cases x) (auto simp: answer_of_def)
  have "im_shift_remove i ((i, KindFunction) # map (\<lambda>i. (i, KindFunction)) ids) = map (\<lambda>i. (i, KindFunction)) ids"
    using Cons.prems by (auto simp: im_shift_remove_def filter_id_conv)
  then have "resolve_call i KindFunction \<lparr>ps_seen_call_ids = seen, ps_pending = map (\<lambda>i. (i, KindFunction)) (i # ids)\<rparr> =
      Inr \<lparr>ps_seen_call_ids = seen, ps_pending = map (\<lambda>i. (i, KindFunction)) ids\<rparr>"
    using Cons.prems(1) by (auto simp: resolve_call_def im_get_def)
  with Cons show ?case by (simp only: run_steps.simps scan sum.case) simp
qed simp

lemma pending_none:
  "pending_calls xs = Inr [] \<longleftrightarrow>
     run_steps scan_item \<lparr>ps_seen_call_ids = {}, ps_pending = []\<rparr> xs =
       Inr \<lparr>ps_seen_call_ids = set (call_ids xs), ps_pending = []\<rparr>"
proof -
  have init: "\<lparr>ps_seen_call_ids = {}, ps_pending = []\<rparr> = scanned []"
    by (simp add: scanned_def unresolved_def)
  show ?thesis
    using scan_decides [of xs]
    by (cases "call_protocol xs") (auto simp: pending_calls_def init im_keys_def scanned_def)
qed

lemma round_keeps_calls_answered:
  assumes "pending_calls xs = Inr []"
    and "list_all (\<lambda>x. \<not> requires_client_action reg x) items"
    and "distinct (function_call_ids items)" "'''' \<notin> set (function_call_ids items)"
    and "set (function_call_ids items) \<inter> set (call_ids xs) = {}"
    and "list_all2 answer_of (function_call_ids items) outs"
  shows "pending_calls (xs @ List.map_filter (to_input_item t a) items @ outs) = Inr []"
proof -
  have "run_steps scan_item \<lparr>ps_seen_call_ids = {}, ps_pending = []\<rparr> xs = Inr \<lparr>ps_seen_call_ids = set (call_ids xs), ps_pending = []\<rparr>"
    using assms(1) by (simp only: pending_none)
  moreover have "run_steps scan_item \<lparr>ps_seen_call_ids = set (call_ids xs), ps_pending = []\<rparr> (List.map_filter (to_input_item t a) items) =
      Inr \<lparr>ps_seen_call_ids = set (call_ids xs) \<union> set (function_call_ids items),
        ps_pending = map (\<lambda>i. (i, KindFunction)) (function_call_ids items)\<rparr>"
    using scan_output_items [OF assms(2-4), of "\<lparr>ps_seen_call_ids = set (call_ids xs), ps_pending = []\<rparr>"] assms(5)
    by (simp add: im_keys_def)
  ultimately show ?thesis
    using scan_answers [OF assms(6,4,3)] by (simp add: pending_calls_def run_steps_append im_keys_def)
qed

lemma planned_ids:
  assumes "list_all (\<lambda>x. \<not> requires_client_action reg x) items"
  shows "map (fc_call_id \<circ> gc_call) (plan_calls items reg k) = function_call_ids items"
proof -
  have gateway: "is_gateway_call reg x \<longleftrightarrow> (\<exists>call. x = OutFunctionCall call)" if "\<not> requires_client_action reg x" for x
    using that by (cases x) (auto simp: is_gateway_call_def is_gateway_owned_name_def split: option.splits)
  have "map (fc_call_id \<circ> gc_call) (plan_calls items reg k) =
      concat (map (\<lambda>x. function_call_ids [snd x]) (map (\<lambda>p. (gc_item_index p, OutFunctionCall (gc_call p))) (plan_calls items reg k)))"
  proof -
    have "map (fc_call_id \<circ> gc_call) ps =
        concat (map (\<lambda>x. function_call_ids [snd x]) (map (\<lambda>p. (gc_item_index p, OutFunctionCall (gc_call p))) ps))" for ps
      by (induction ps) simp_all
    then show ?thesis .
  qed
  also have "\<dots> = concat (map (\<lambda>x. function_call_ids [snd x]) (filter (\<lambda>(_, x). is_gateway_call reg x) (enumerate 0 items)))"
    by (simp only: plan_calls_items)
  also have "\<dots> = function_call_ids items"
  proof -
    have "concat (map (\<lambda>x. function_call_ids [snd x]) (filter (\<lambda>(_, x). is_gateway_call reg x) (enumerate n items))) =
        function_call_ids items" for n
      using assms
    proof (induction items arbitrary: n)
      case (Cons x items)
      then show ?case using gateway [of x] by (cases x) auto
    qed simp
    then show ?thesis .
  qed
  finally show ?thesis .
qed

lemma execute_and_emit_answers:
  assumes "execute_and_emit_output_calls em sh items reg k b stream = (Inr results, b', stream')"
    and "permuting sh" "handlers_answer reg"
  shows "list_all2 answer_of (map (fc_call_id \<circ> gc_call) (plan_calls items reg k)) (map gr_input_item results)"
proof -
  obtain started stream1 where started: "(case stream of None \<Rightarrow> (Inr (), None)
      | Some r \<Rightarrow> map_prod id Some (emit_gateway_start_events em (map gc_events (plan_calls items reg k)) r)) = (started, stream1)"
    by force
  obtain outcome b1 where outcome: "execute_plans em sh (plan_calls items reg k) b = (outcome, b1)" by force
  have "\<exists>completed. outcome = Inr (results, completed)"
    using assms(1)
    by (cases started; cases outcome; cases stream1)
      (auto simp: execute_and_emit_output_calls_def Let_def started outcome split: prod.splits sum.splits)
  with executed_calls_answer [OF assms(2,3)] outcome show ?thesis by blast
qed

lemma execute_with_deferred_answers:
  assumes "execute_with_deferred env sh g items k deferred r = (Inr results, b', r')"
    and "permuting sh" "handlers_answer (eg_registry g)"
  shows "list_all2 answer_of (map (fc_call_id \<circ> gc_call) (plan_calls items (eg_registry g) k)) (map gr_input_item results)"
proof -
  obtain outcome b1 where outcome: "execute_plans (ge_emitter env) sh (plan_calls items (eg_registry g) k) (eg_budget g) = (outcome, b1)"
    by force
  have "\<exists>completed. outcome = Inr (results, completed)"
    using assms(1)
    by (cases outcome) (auto simp: execute_with_deferred_def Let_def outcome split: prod.splits sum.splits)
  with executed_calls_answer [OF assms(2,3)] outcome show ?thesis by blast
qed

lemma execute_round_output_answers:
  assumes "execute_round_output env sh items k deferred g = (Inr results, g')"
    and "permuting sh" "handlers_answer (eg_registry g)"
  shows "list_all2 answer_of (map (fc_call_id \<circ> gc_call) (plan_calls items (eg_registry g) k)) (map gr_input_item results)"
  using assms(1) execute_and_emit_answers [OF _ assms(2,3)] execute_with_deferred_answers [OF _ assms(2,3)]
  by (auto simp: execute_round_output_def split: option.splits prod.splits if_splits)

lemma execute_round_output_frame:
  "execute_round_output env sh items k deferred g = (res, g') \<Longrightarrow>
     eg_context g' = eg_context g \<and> eg_registry g' = eg_registry g \<and> eg_world g' = eg_world g \<and> eg_search g' = eg_search g"
  by (auto simp: execute_round_output_def split: option.splits prod.splits if_splits)

lemma scan_prepared: "run_steps scan_item s (List.map_filter prepare_item xs) = run_steps scan_item s xs"
proof (induction xs arbitrary: s)
  case (Cons x xs)
  then show ?case by (cases x) (auto split: sum.split)
qed simp

lemma prepare_reasoning_items:
  assumes "prepare_reasoning_for_vllm (ItemsInput xs) = Inr inp"
  shows "\<exists>ys. inp = ItemsInput ys \<and> pending_calls ys = pending_calls xs"
  using assms by (auto simp: prepare_reasoning_for_vllm_def pending_calls_def scan_prepared result_simps)

lemma maybe_compact_items:
  assumes "maybe_compact_context cenv ctx w = Inr (usage, ctx', w')"
    and "rq_input (rc_enriched_request ctx) = ItemsInput xs" "pending_calls xs = Inr []"
  shows "\<exists>ys. rq_input (rc_enriched_request ctx') = ItemsInput ys \<and> pending_calls ys = Inr []"
proof (cases usage)
  case None
  with assms show ?thesis
    by (auto simp: maybe_compact_context_def Let_def result_simps split: option.splits if_splits)
next
  case (Some u)
  then obtain window where window: "compact_items cenv (rq_model (rc_enriched_request ctx)) (rq_input (rc_enriched_request ctx))
        (rq_instructions (rc_enriched_request ctx)) = Inr (window, u)" "ctx' = replace_history window ctx"
    using assms(1) by (auto simp: maybe_compact_context_def Let_def result_simps split: option.splits if_splits)
  obtain i summary where win: "window = retained_user_window (ce_draw cenv)
      (items_of_input (ce_printers cenv) (rq_input (rc_enriched_request ctx)))
      @ [InCompaction \<lparr>ci_id = Some i, ci_encrypted_content = summary\<rparr>]"
    by (rule compact_items_Inr [OF window(1)])
  have "pending_calls window = Inr []"
    unfolding win by (rule pending_calls_silent) (use retained_user_window_spec in \<open>auto simp: list_all_iff\<close>)
  then show ?thesis by (simp add: window(2) replace_history_def set_input_def)
qed

text \<open>
  What the model sees of the request: the compacted request when compaction ran; otherwise the
  request itself, of which only reasoning items may be rewritten, and those only in the first round.
\<close>

definition follows :: "nat \<Rightarrow> response_usage option \<Rightarrow> input_item list \<Rightarrow> input_item list \<Rightarrow> responses_input \<Rightarrow> bool" where
  "follows round compacted xs ys compacted_input \<longleftrightarrow>
     (case compacted of
        Some _ \<Rightarrow> compacted_input = ItemsInput ys
      | None \<Rightarrow> if round = 0 then filter (\<lambda>x. \<not> is_reasoning x) ys = filter (\<lambda>x. \<not> is_reasoning x) xs else ys = xs)"

lemma fetch_round_input:
  assumes "fetch_round env s round o0 u0 g = (Inr (payload, deferred, usage), g1)"
    and "engine_input g = ItemsInput xs" "pending_calls xs = Inr []"
    and "fresh_calls (ge_fetch env round)"
  obtains ys ctx cu ctx' w' hidden b st where "engine_input g1 = ItemsInput ys" "pending_calls ys = Inr []"
    "maybe_compact_context (ge_compaction env round) (eg_context g) (eg_world g) = Inr (cu, ctx', w')"
    "follows round cu xs ys (rq_input (rc_enriched_request ctx'))"
    "rq_input (rc_enriched_request ctx) = ItemsInput ys"
    "ge_fetch env round ctx (eg_registry g) (length o0) (eg_budget g) (eg_stream g) = (Inr (payload, hidden), b, st)"
    "distinct (function_call_ids (rp_output payload))" "'''' \<notin> set (function_call_ids (rp_output payload))"
    "set (function_call_ids (rp_output payload)) \<inter> set (call_ids ys) = {}"
    "eg_registry g1 \<in> {eg_registry g, clear_mcp_list_tool_items (eg_registry g)}"
proof -
  obtain cu ctx w where compact: "maybe_compact_context (ge_compaction env round) (eg_context g) (eg_world g) = Inr (cu, ctx, w)"
    using assms(1) by (auto simp: fetch_round_def Let_def split: sum.splits)
  obtain xs' where xs': "rq_input (rc_enriched_request ctx) = ItemsInput xs'" "pending_calls xs' = Inr []"
    using maybe_compact_items [OF compact] assms(2,3) by (auto simp: engine_input_def)
  let ?g1 = "g\<lparr>eg_context := ctx, eg_world := w\<rparr>"
  have input1: "engine_input ?g1 = ItemsInput xs'" using xs'(1) by (simp add: engine_input_def)
  obtain inp where prepared: "prepare_initial_reasoning_for_vllm (ItemsInput xs') round (cu \<noteq> None) = Inr inp"
    using assms(1) by (auto simp: fetch_round_def Let_def compact input1 split: sum.splits)
  obtain ys where ys: "inp = ItemsInput ys" "pending_calls ys = Inr []"
    using prepared xs'(2) prepare_reasoning_items [of xs' inp]
    by (auto simp: prepare_initial_reasoning_for_vllm_def split: if_splits)
  have "cu = None \<longrightarrow> xs' = xs"
    using compact xs'(1) assms(2)
    by (auto simp: maybe_compact_context_def engine_input_def Let_def result_simps split: option.splits if_splits)
  moreover have "filter (\<lambda>x. \<not> is_reasoning x) ys = filter (\<lambda>x. \<not> is_reasoning x) xs'"
    using prepared unfolding ys(1) by (auto simp: prepare_initial_reasoning_for_vllm_def prepare_reasoning_for_vllm_def result_simps
        filter_prepare split: if_splits)
  moreover have "ys = xs'" if "round \<noteq> 0 \<or> cu \<noteq> None"
    using prepared that unfolding ys(1) by (auto simp: prepare_initial_reasoning_for_vllm_def split: if_splits)
  ultimately have follows: "follows round cu xs ys (rq_input (rc_enriched_request ctx))"
    by (cases cu) (auto simp: follows_def xs'(1))
  let ?g2 = "set_engine_input inp ?g1"
  obtain res b st where res: "ge_fetch env round (eg_context ?g2) (eg_registry ?g2) (length o0) (eg_budget ?g2) (eg_stream ?g2) = (res, b, st)"
    by (metis surj_pair)
  have g2: "engine_input (?g2\<lparr>eg_budget := b, eg_stream := st\<rparr>) = inp" "eg_registry ?g2 = eg_registry g"
    by (simp_all add: engine_input_def set_engine_input_def)
  obtain hidden where held: "res = Inr (payload, hidden)"
    and g1: "g1 = ?g2\<lparr>eg_budget := b, eg_stream := st,
      eg_registry := (if s \<and> round = 0 then clear_mcp_list_tool_items (eg_registry ?g2) else eg_registry ?g2)\<rparr>"
    using assms(1) unfolding fetch_round_def Let_def compact sum.case prod.case input1 prepared res
    by (cases res) auto
  have fetched: "ge_fetch env round (eg_context ?g2) (eg_registry ?g2) (length o0) (eg_budget ?g2) (eg_stream ?g2) = (Inr (payload, hidden), b, st)"
    unfolding res held ..
  have after: "engine_input g1 = inp" "eg_registry g1 \<in> {eg_registry g, clear_mcp_list_tool_items (eg_registry g)}"
    using g2 by (simp_all add: g1 engine_input_def)
  have "rq_input (rc_enriched_request (eg_context ?g2)) = ItemsInput ys"
    by (simp add: set_engine_input_def ys(1))
  note seen = this
  then have "input_items (rq_input (rc_enriched_request (eg_context ?g2))) = ys" by (simp add: input_items_def)
  with assms(4) fetched have "distinct (function_call_ids (rp_output payload))"
    "'''' \<notin> set (function_call_ids (rp_output payload))" "set (function_call_ids (rp_output payload)) \<inter> set (call_ids ys) = {}"
    unfolding fresh_calls_def by metis+
  moreover have "ge_fetch env round (eg_context ?g2) (eg_registry g) (length o0) (eg_budget g) (eg_stream g) = (Inr (payload, hidden), b, st)"
    using fetched by (simp add: set_engine_input_def)
  ultimately show thesis
    using ys after follows seen compact by (intro that [OF _ _ compact follows seen]) simp_all
qed

lemma handlers_answer_clear [simp]: "handlers_answer (clear_mcp_list_tool_items reg) = handlers_answer reg"
  by (simp add: handlers_answer_def clear_mcp_list_tool_items_def lookup_def)

lemma append_input_items:
  "fold (append_input_item p) items (ItemsInput xs) = ItemsInput (xs @ items)"
  by (induction items arbitrary: xs) (simp_all add: append_input_item_def)

lemma append_tool_outputs_input:
  assumes "rq_input (rc_enriched_request ctx) = ItemsInput xs"
  shows "rq_input (rc_enriched_request (append_tool_outputs p outs ctx)) = ItemsInput (xs @ outs)
    \<and> rc_new_input_items (append_tool_outputs p outs ctx) = rc_new_input_items ctx @ outs"
  using assms
proof (induction outs arbitrary: ctx xs)
  case (Cons x outs)
  let ?ctx = "ctx\<lparr>rc_new_input_items := rc_new_input_items ctx @ [x],
      rc_enriched_request := (rc_enriched_request ctx)\<lparr>rq_input := append_input_item p x (rq_input (rc_enriched_request ctx))\<rparr>\<rparr>"
  have "rq_input (rc_enriched_request ?ctx) = ItemsInput (xs @ [x])" using Cons.prems by (simp add: append_input_item_def)
  from Cons.IH [OF this] show ?case by (simp add: append_tool_outputs_def)
qed (simp add: append_tool_outputs_def)

lemma record_round_history_input:
  "engine_input (record_round_history p items n g) = engine_input g"
  by (simp add: record_round_history_def Let_def engine_input_def append_gateway_calls_to_new_input_def)

lemma next_round_spec:
  assumes "run_round env s round o0 u0 g = (Inr (NextRound o1 u1), g')"
  obtains payload deferred usage g1 results g2 where
    "fetch_round env s round o0 u0 g = (Inr (payload, deferred, usage), g1)"
    "\<not> has_client_owned_calls (rp_output payload) (eg_registry g1)"
    "execute_round_output env (ge_schedule env round) (rp_output payload) (length o0) deferred g1 = (Inr results, g2)"
    "results \<noteq> []"
    "\<forall>xs. engine_input g2 = ItemsInput xs \<longrightarrow> engine_input g' = ItemsInput (xs
       @ List.map_filter (to_input_item (pr_json (ge_printers env)) (pr_action (ge_printers env))) (rp_output payload)
       @ map gr_input_item results)"
    "rq_tool_choice (rc_enriched_request (eg_context g')) = Some ChoiceAuto"
proof -
  obtain payload deferred usage g1 where fetched: "fetch_round env s round o0 u0 g = (Inr (payload, deferred, usage), g1)"
    using assms by (auto simp: run_round_def split: prod.splits sum.splits)
  have status: "rp_status payload \<noteq> ''error''" "rp_status payload \<noteq> ''failed''"
    using assms finished_not_next
    by (auto simp: run_round_def fetched Let_def finished_def take_tool_search_metadata_def)
  obtain results g2 where executed: "execute_round_output env (ge_schedule env round) (rp_output payload) (length o0) deferred g1 = (Inr results, g2)"
    using assms status by (auto simp: run_round_def fetched Let_def split: prod.splits sum.splits)
  obtain public where "public_output_items (ge_codec env) (ge_action env) (rp_output payload) (eg_registry g2) results = Inr public"
    using assms status by (auto simp: run_round_def fetched Let_def executed split: sum.splits)
  with assms status have concluded: "conclude_round env round (o0 @ public) (accumulate_usage (rp_usage payload) usage)
      (payload\<lparr>rp_usage := None, rp_output := []\<rparr>) (rp_output payload) results
      (has_client_owned_calls (rp_output payload) (eg_registry g1))
      (record_round_history (ge_printers env) (rp_output payload) (length (o0 @ public)) g2) = (Inr (NextRound o1 u1), g')"
    by (simp add: run_round_def fetched Let_def executed)
  let ?p = "ge_printers env" and ?h = "record_round_history (ge_printers env) (rp_output payload) (length (o0 @ public)) g2"
  note facts = conclude_round_next [OF concluded]
  have g': "eg_context g' = append_tool_outputs ?p (map gr_input_item results)
      ((eg_context ?h)\<lparr>rc_enriched_request := (rc_enriched_request (eg_context ?h))\<lparr>rq_tool_choice := Some ChoiceAuto,
        rq_input := append_output_items_to_input ?p (rp_output payload) (engine_input ?h)\<rparr>\<rparr>)"
    using facts by (simp add: record_gateway_results_def engine_input_def)
  have choice: "rq_tool_choice (rc_enriched_request (append_tool_outputs p outs ctx)) = rq_tool_choice (rc_enriched_request ctx)" for p outs ctx
    by (induction outs arbitrary: ctx) (simp_all add: append_tool_outputs_def)
  have "engine_input g2 = ItemsInput xs \<longrightarrow> engine_input g' = ItemsInput (xs @ List.map_filter (to_input_item (pr_json ?p) (pr_action ?p)) (rp_output payload)
        @ map gr_input_item results)" for xs
  proof
    assume "engine_input g2 = ItemsInput xs"
    then have "append_output_items_to_input ?p (rp_output payload) (engine_input ?h) =
        ItemsInput (xs @ List.map_filter (to_input_item (pr_json ?p) (pr_action ?p)) (rp_output payload))"
      by (simp add: record_round_history_input append_output_items_to_input_def append_input_items)
    then show "engine_input g' = ItemsInput (xs @ List.map_filter (to_input_item (pr_json ?p) (pr_action ?p)) (rp_output payload)
        @ map gr_input_item results)"
      using append_tool_outputs_input [of _ "xs @ List.map_filter (to_input_item (pr_json ?p) (pr_action ?p)) (rp_output payload)" ?p "map gr_input_item results"]
      by (simp add: engine_input_def g')
  qed
  moreover have "rq_tool_choice (rc_enriched_request (eg_context g')) = Some ChoiceAuto" by (simp add: g' choice)
  ultimately show thesis
    using that fetched executed facts by blast
qed

text \<open>
  How the next request repeats what the model produced: messages with their texts, reasoning as it
  is, calls with identifier, name and arguments. Items that only report to the client are not
  repeated; calls of the client end the rounds, so they do not occur.
\<close>

definition repeated :: "output_item \<Rightarrow> bool" where
  "repeated x \<longleftrightarrow> (case x of OutWebSearchCall _ \<Rightarrow> False | OutMcpCall _ \<Rightarrow> False | OutUnknown \<Rightarrow> False | _ \<Rightarrow> True)"

fun repeats :: "output_item \<Rightarrow> input_item \<Rightarrow> bool" where
  "repeats (OutMessage m) (InMessage x) \<longleftrightarrow>
     im_id x = Some (om_id m) \<and> im_role x = om_role m \<and> im_status x = Some (om_status m)
     \<and> im_content x = PartsContent (map (\<lambda>c. OutputText (otc_text c)) (om_content m))"
| "repeats (OutReasoning r) (InReasoning x) \<longleftrightarrow> x = r"
| "repeats (OutFunctionCall call) (InFunctionCall x) \<longleftrightarrow>
     ifn_id x = Some (fc_id call) \<and> ifn_call_id x = fc_call_id call \<and> ifn_name x = fc_name call
     \<and> ifn_namespace x = fc_namespace call \<and> ifn_arguments x = fc_arguments call \<and> ifn_status x = Some (fc_status call)"
| "repeats (OutMcpListTools l) (InMcpListTools x) \<longleftrightarrow> x = l"
| "repeats (OutCompaction c) (InCompaction x) \<longleftrightarrow> x = c"
| "repeats _ _ \<longleftrightarrow> False"

lemma to_input_item_repeats:
  assumes "list_all (\<lambda>x. \<not> requires_client_action reg x) items"
  shows "list_all2 repeats (filter repeated items) (List.map_filter (to_input_item t a) items)"
  using assms
proof (induction items)
  case (Cons x items)
  then show ?case
    by (cases x) (auto simp: repeated_def input_message_of_output_def input_call_of_function_def)
qed simp


text \<open>A model that calls one tool, then has nothing more to say.\<close>

definition toy_payload :: response_payload where
  "toy_payload =
     \<lparr>rp_id = ''r'', rp_object = ''response'', rp_created_at = 0, rp_model = ''m'', rp_status = ''completed'',
      rp_output = [toy_call ''a''], rp_usage = None, rp_incomplete_details = None, rp_error = None,
      rp_previous_response_id = None, rp_conversation_id = None, rp_instructions = None, rp_tools = None,
      rp_tool_choice = None\<rparr>"

definition toy_fetch :: upstream_round where
  "toy_fetch ctx reg k b s =
     (if ''a'' \<in> set (call_ids (input_items (rq_input (rc_enriched_request ctx)))) then (Inl (ParseError ''no''), b, s)
      else (Inr (toy_payload, []), b, s))"

definition toy_engine_env :: engine_env where
  "toy_engine_env =
     \<lparr>ge_emitter = \<lparr>em_print = (\<lambda>_. Inr ''{}''), em_open = (\<lambda>_. True), em_item = (\<lambda>_. Inr JNull), em_payload = (\<lambda>_. Inr JNull)\<rparr>,
      ge_printers = ce_printers toy_env, ge_codec = plain_codec, ge_action = (\<lambda>_. None),
      ge_discovery = \<lparr>dy_server_tools = (\<lambda>_. Inl (Config ''no server'')), dy_web_search = (\<lambda>_. toy_binding),
        dy_fresh_list_id = id, dy_param_bytes = (\<lambda>_. Inr 1), dy_list_bytes = (\<lambda>_. Inr 1), dy_of_tool_error = Tool,
        dy_consume = budget_consume\<rparr>,
      ge_schedule = (\<lambda>_. \<lparr>sh_order = (\<lambda>n. [0..<n]), sh_elapsed = (\<lambda>_. False)\<rparr>),
      ge_compaction = (\<lambda>_. toy_env), ge_fetch = (\<lambda>_. toy_fetch)\<rparr>"

definition toy_engine :: "world \<Rightarrow> engine" where
  "toy_engine w =
     (let r = compaction_request ''m'' (ItemsInput []) None
      in \<lparr>eg_context = \<lparr>rc_original_request = r, rc_enriched_request = r, rc_new_input_items = [], rc_response_id = ''x'',
            rc_conversation_id = None, rc_conversation_version = None, rc_continuation = None\<rparr>,
          eg_registry = toy_registry, eg_budget = new_response_budget, eg_stream = None, eg_search = None, eg_world = w\<rparr>)"


end
