(* ===== verification/Request_Properties.thy ===== *)
theory Request_Properties
  imports Rounds_Properties
begin

text \<open>
  What a whole request guarantees, from the start of its turn to the last byte the client gets: its
  session is given back however the request ends.
\<close>

section \<open>The engine keeps its lease\<close>

definition engine_holds :: "turn_env \<Rightarrow> lease_id \<Rightarrow> session_id \<Rightarrow> engine \<Rightarrow> bool" where
  "engine_holds env l i g \<longleftrightarrow> holds_lease env l i (eg_world g) \<and> rc_continuation (eg_context g) = Some l"

lemma engine_holds_cong:
  "eg_world g' = eg_world g \<Longrightarrow> rc_continuation (eg_context g') = rc_continuation (eg_context g) \<Longrightarrow>
     engine_holds env l i g' = engine_holds env l i g"
  by (simp add: engine_holds_def)

lemma holds_lease_update:
  assumes "holds_lease env l i w" "f = mark_history_replaced \<or> (\<exists>n. f = mark_outputs_recorded n)"
  shows "holds_lease env l i (update_lease f (Some l) w)"
proof -
  obtain c where c: "reachable env (wd_sessions w)" "lease_at (wd_sessions w) l = Some c" "co_session c = i"
    using assms(1) by (auto simp: holds_lease_def)
  then have live: "l < length (st_leases (wd_sessions w))" "st_leases (wd_sessions w) ! l = Some c"
    by (simp_all add: lease_at_Some)
  have "session_step (te_printers env) (te_writes env) (wd_sessions w) (set_lease l (Some (f c)) (wd_sessions w))"
    using assms(2) step_mark_replaced [OF live] step_mark_recorded [OF live] by blast
  then have "reachable env (set_lease l (Some (f c)) (wd_sessions w))" by (rule reachable_step [OF c(1)])
  moreover have "co_session (f c) = i"
    using assms(2) c(3) by (auto simp: mark_history_replaced_def mark_outputs_recorded_def)
  ultimately show ?thesis
    using live(1) c(2) by (simp add: update_lease_def holds_lease_def) (simp add: lease_at_def set_lease_def)
qed

lemma maybe_compact_holds:
  assumes "maybe_compact_context cenv ctx w = Inr (usage, ctx', w')"
    and "holds_lease env l i w" "rc_continuation ctx = Some l"
  shows "holds_lease env l i w' \<and> rc_continuation ctx' = Some l"
  using assms holds_lease_update [OF assms(2)]
  by (auto simp: maybe_compact_context_def Let_def result_simps replace_history_def set_input_def
      split: option.splits if_splits)

lemma fetch_round_holds:
  assumes "fetch_round env s round o0 u0 g = (r, g')" "engine_holds tenv l i g"
  shows "engine_holds tenv l i g'"
proof (cases "maybe_compact_context (ge_compaction env round) (eg_context g) (eg_world g)")
  case (Inl e)
  with assms show ?thesis by (simp add: fetch_round_def)
next
  case (Inr x)
  obtain usage ctx w where x: "x = (usage, ctx, w)" by (metis surj_pair)
  have "holds_lease tenv l i w \<and> rc_continuation ctx = Some l"
    using assms(2) unfolding engine_holds_def by (blast intro: maybe_compact_holds [OF Inr [unfolded x]] dest: maybe_compact_holds [OF Inr [unfolded x]])
  moreover have "eg_world g' = w \<and> rc_continuation (eg_context g') = rc_continuation ctx"
    using assms(1) by (auto simp: fetch_round_def Inr x Let_def set_engine_input_def split: sum.splits prod.splits)
  ultimately show ?thesis by (simp add: engine_holds_def)
qed

lemma append_tool_outputs_continuation [simp]:
  "rc_continuation (append_tool_outputs p outs ctx) = rc_continuation ctx"
  by (induction outs arbitrary: ctx) (simp_all add: append_tool_outputs_def)

lemma finished_holds:
  "engine_holds tenv l i (snd (finished o0 u0 payload g)) = engine_holds tenv l i g"
  by (simp add: finished_def take_tool_search_metadata_def engine_holds_def)

lemma record_gateway_results_holds [simp]:
  "engine_holds tenv l i (record_gateway_results p results g) = engine_holds tenv l i g"
  by (simp add: record_gateway_results_def engine_holds_def)

lemma record_round_history_holds:
  assumes "engine_holds tenv l i g"
  shows "engine_holds tenv l i (record_round_history p items n g)"
  using assms holds_lease_update [of tenv l i "eg_world g" "mark_outputs_recorded n"]
  by (auto simp: record_round_history_def Let_def engine_holds_def append_gateway_calls_to_new_input_def)

lemma conclude_round_holds:
  assumes "engine_holds tenv l i g"
  shows "engine_holds tenv l i (snd (conclude_round env round o0 u0 payload current results handed_back g))"
proof -
  let ?done = "\<lambda>h. finished o0 u0 payload h"
  have other: "engine_holds tenv l i (snd (case ?done h of
      (Inr (Finished result metadata), g') \<Rightarrow> (Inr (Finished (mark_incomplete reason result) metadata), g') | other \<Rightarrow> other))"
    if "engine_holds tenv l i h" for reason h
    using that by (simp add: finished_def take_tool_search_metadata_def engine_holds_def)
  have next_round: "engine_holds tenv l i (g\<lparr>eg_context := (eg_context g)\<lparr>rc_enriched_request := r\<rparr>\<rparr>)" for r
    using assms by (simp add: engine_holds_def)
  show ?thesis
    using assms other next_round
    by (simp add: conclude_round_def Let_def finished_holds split: loop_decision.split)
qed

lemma run_round_holds:
  assumes "engine_holds tenv l i g"
  shows "engine_holds tenv l i (snd (run_round env s round o0 u0 g))"
proof -
  obtain r g1 where fetched: "fetch_round env s round o0 u0 g = (r, g1)" by force
  have g1: "engine_holds tenv l i g1" by (rule fetch_round_holds [OF fetched assms])
  have executed: "engine_holds tenv l i g2" if "execute_round_output env sh items k deferred g1 = (res, g2)" for sh items k deferred res g2
    using execute_round_output_frame [OF that] g1 by (simp add: engine_holds_def)
  note steps = g1 executed finished_holds conclude_round_holds record_round_history_holds
  show ?thesis
    by (auto simp: run_round_def fetched Let_def steps split: sum.split prod.split)
qed

lemma run_rounds_holds:
  "engine_holds tenv l i g \<Longrightarrow> engine_holds tenv l i (snd (run_rounds env s rounds o0 u0 g))"
proof (induction rounds arbitrary: o0 u0 g)
  case (Cons n rounds)
  have "engine_holds tenv l i (snd (run_round env s n o0 u0 g))" by (rule run_round_holds [OF Cons.prems])
  with Cons.IH show ?case by (auto split: prod.splits sum.splits round_result.splits)
qed simp

lemma build_tool_registry_holds:
  assumes "build_tool_registry env g = Inr g'"
  shows "eg_world g' = eg_world g \<and> rc_continuation (eg_context g') = rc_continuation (eg_context g)"
  using assms by (auto simp: build_tool_registry_def Let_def result_simps split: option.splits prod.splits)

lemma run_compaction_trigger_holds:
  assumes "engine_holds tenv l i g"
  shows "engine_holds tenv l i (snd (run_compaction_trigger cenv now g))"
  using assms holds_lease_update
  by (auto simp: run_compaction_trigger_def Let_def engine_holds_def set_engine_input_def
      split: sum.split list.split input_item.split)

lemma run_until_holds:
  assumes "engine_holds tenv l i g"
  shows "engine_holds tenv l i (snd (run_until_gateway_tools_complete env cenv now s g))"
proof -
  let ?g = "g\<lparr>eg_search := None\<rparr>"
  have start: "engine_holds tenv l i ?g" "engine_holds tenv l i (g\<lparr>eg_budget := new_response_budget\<rparr>)"
    using assms by (simp_all add: engine_holds_def)
  obtain r h where trigger: "run_compaction_trigger cenv now ?g = (r, h)" by force
  have h: "engine_holds tenv l i h" using run_compaction_trigger_holds [OF start(1), of cenv now] trigger by simp
  then have stream: "engine_holds tenv l i (h\<lparr>eg_stream := r'\<rparr>)" for r' by (simp add: engine_holds_def)
  have engine: "engine_holds tenv l i (snd (run_engine env s g'))"
    if "build_tool_registry env (g\<lparr>eg_budget := new_response_budget\<rparr>) = Inr g'" for g'
    using build_tool_registry_holds [OF that] assms unfolding run_engine_def
    by (intro run_rounds_holds) (simp add: engine_holds_def)
  show ?thesis
    using assms h stream engine
    by (auto simp: run_until_gateway_tools_complete_def take_tool_search_metadata_def trigger
        split: option.split sum.split prod.split)
qed

section \<open>Every request gives its session back\<close>

lemma drop_context_ends: "engine_holds env l i g \<Longrightarrow> ends_turn env l i (drop_context g)"
  by (simp add: engine_holds_def drop_context_def holds_lease_ends)

lemma persist_ends:
  "engine_holds env l i g \<Longrightarrow> ends_turn env l i (snd (persist_if_needed env draw now payload (eg_context g) search (eg_world g)))"
  using persist_if_needed_ends by (auto simp: engine_holds_def holds_lease_def)

lemma run_agent_holds:
  assumes "holds_lease tenv l i w" "rc_continuation ctx = Some l" "run_agent env s (start_engine ctx search stream w) = (r, g)"
  shows "engine_holds tenv l i g"
  using run_until_holds [of tenv l i "start_engine ctx search stream w"] assms
  by (simp add: run_agent_def engine_holds_def start_engine_def) (metis snd_conv)

lemma run_blocking_ends:
  assumes "holds_lease (re_turn env) l i w" "rc_continuation ctx = Some l"
  shows "ends_turn (re_turn env) l i (snd (run_blocking env ctx search w))"
proof -
  obtain r g where run: "run_agent env False (start_engine ctx search None w) = (r, g)" by force
  note held = run_agent_holds [OF assms run]
  show ?thesis
    using drop_context_ends [OF held] persist_ends [OF held]
    by (auto simp: run_blocking_def run Let_def split: option.split sum.split prod.split) (metis snd_conv)+
qed

lemma stream_end_ends:
  assumes "engine_holds (re_turn env) l i g"
  shows "ends_turn (re_turn env) l i (snd (stream_end env ctx n result g))"
  using drop_context_ends [OF assms] persist_ends [OF assms]
  by (auto simp: stream_end_def Let_def split: option.split sum.split prod.split) (metis snd_conv)+

lemma run_stream_ends:
  assumes "holds_lease (re_turn env) l i w" "rc_continuation ctx = Some l"
  shows "ends_turn (re_turn env) l i (snd (run_stream env ctx search w))"
proof -
  obtain r g where run: "run_agent env True (start_engine ctx search (Some new_relay) w) = (r, g)" by force
  obtain chunks n where chunks: "consume_stream_events (rl_sent (the (eg_stream g))) 0 = (chunks, n)" by force
  from stream_end_ends [OF run_agent_holds [OF assms run], of ctx n r] show ?thesis
    by (auto simp: run_stream_def run chunks split: prod.split)
qed

lemma restored_loaded_tools_continuation:
  "restored_loaded_tools env ctx w = Inr (loaded, ctx') \<Longrightarrow> rc_continuation ctx' = rc_continuation ctx"
  by (auto simp: restored_loaded_tools_def result_simps apply_effective_settings_def Let_def
      split: option.splits if_splits)

lemma prepare_execution_lease:
  assumes "holds_lease (re_turn env) l i w"
  shows "case prepare_execution env rid request (Some l) w of
      (Inl e, w') \<Rightarrow> ends_turn (re_turn env) l i w'
    | (Inr (ctx, search), w') \<Rightarrow> holds_lease (re_turn env) l i w' \<and> rc_continuation ctx = Some l"
proof -
  obtain r w' where r: "rehydrate_with_continuation (re_turn env) (re_now env) rid request (Some l) w = (r, w')" by force
  note rehydrated = rehydrate_lease [OF assms, of "re_now env" rid request, unfolded r prod.case]
  show ?thesis
  proof (cases r)
    case (Inr ctx)
    have "rc_continuation ctx' = rc_continuation ctx"
      if "prepare_request_tools (re_turn env) (re_search env) ctx w' = Inr (ctx', search)" for ctx' search
    proof -
      from that obtain loaded ctx1 where restored: "restored_loaded_tools (re_turn env) ctx w' = Inr (loaded, ctx1)"
        by (auto simp: prepare_request_tools_def result_simps)
      with that have "rc_continuation ctx' = rc_continuation ctx1"
        by (auto simp: prepare_request_tools_def result_simps split: sum.splits)
      with restored_loaded_tools_continuation [OF restored] show ?thesis by simp
    qed
    moreover have "holds_lease (re_turn env) l i w'" "rc_continuation ctx = Some l"
      using rehydrated Inr by simp_all
    moreover from this have "ends_turn (re_turn env) l i (end_lease (rc_continuation ctx) w')"
      using holds_lease_ends by simp
    ultimately show ?thesis
      by (auto simp: prepare_execution_def r Inr Let_def result_simps split: sum.split)
  qed (use rehydrated in \<open>simp add: prepare_execution_def r\<close>)
qed

text \<open>
  C4: a request never keeps its session. Run a request in a session of any reachable store: either
  the session refuses to start a turn and nothing changes, or the turn is over when the request
  is, whatever the database, the model, the tools and the client did in between and however it
  ended: refused in rehydration, failed in a round, answered in one body or as a stream,
  persisted or not, even with a panic in the engine. Its lease is gone, the session can start the
  next turn, and the session store is a reachable one, with its byte accounts exact.
\<close>

theorem every_request_gives_its_session_back:
  assumes "reachable (re_turn env) (wd_sessions w)" "i < length (st_sessions (wd_sessions w))"
  shows "case begin_turn i (rq_previous_response_id request) (wd_sessions w) of
      Inl e \<Rightarrow> execute_in_session env rid request i w = (Inl e, w)
    | Inr (l, _) \<Rightarrow> ends_turn (re_turn env) l i (snd (execute_in_session env rid request i w))"
proof (cases "begin_turn i (rq_previous_response_id request) (wd_sessions w)")
  case (Inl e)
  then show ?thesis by (simp add: execute_in_session_def)
next
  case (Inr r)
  obtain l s where r: "r = (l, s)" by force
  let ?w = "w\<lparr>wd_sessions := s\<rparr>"
  have held: "holds_lease (re_turn env) l i ?w" by (rule begin_turn_holds(1) [OF assms Inr [unfolded r]])
  note prepared = prepare_execution_lease [OF held, of rid request]
  have "ends_turn (re_turn env) l i (snd (execute_request env rid request (Some l) ?w))"
  proof (cases "fst (prepare_execution env rid request (Some l) ?w)")
    case (Inl e)
    with prepared show ?thesis by (auto simp: execute_request_def split: prod.splits)
  next
    case (Inr x)
    obtain ctx search w' where x: "prepare_execution env rid request (Some l) ?w = (Inr (ctx, search), w')"
      using Inr by (metis prod.collapse)
    from prepared x have "holds_lease (re_turn env) l i w'" "rc_continuation ctx = Some l" by simp_all
    note ends = run_blocking_ends [OF this, of search] run_stream_ends [OF this, of search]
    show ?thesis
      using ends by (auto simp: execute_request_def x split: prod.split sum.split option.split)
  qed
  with Inr r show ?thesis by (simp add: execute_in_session_def)
qed

definition demo_request_env :: request_env where
  "demo_request_env =
     \<lparr>re_turn = demo_env, re_search = (\<lambda>r _ _. Inr (r, None)), re_engine = toy_engine_env, re_compaction = toy_env,
      re_status = (\<lambda>_. ''''), re_draw = show_nat, re_now = 0, re_panic = ''panic''\<rparr>"

theorem every_request_gives_its_session_back_witness:
  "let w = snd (execute_in_session demo_request_env ''resp_1'' demo_request 0
         \<lparr>wd_db = None, wd_sessions = demo_store False False False\<rparr>)
   in reachable demo_env (wd_sessions w) \<and> \<not> se_active (st_sessions (wd_sessions w) ! 0)"
proof -
  let ?w = "\<lparr>wd_db = None, wd_sessions = demo_store False False False\<rparr>"
  have env: "re_turn demo_request_env = demo_env" by (simp add: demo_request_env_def)
  have start: "reachable (re_turn demo_request_env) (wd_sessions ?w)" "0 < length (st_sessions (wd_sessions ?w))"
    using demo_idle by (simp_all add: env) (simp add: demo_store_def)
  have started: "begin_turn 0 (rq_previous_response_id demo_request) (wd_sessions ?w) = Inr (0, demo_store True False False)"
    by (simp add: demo_request_def demo_begin)
  from every_request_gives_its_session_back [OF start, where request = demo_request and rid = "''resp_1''"] show ?thesis
    by (simp only: started sum.case prod.case env ends_turn_def turn_over_def Let_def simp_thms)
qed

end
