(* ===== verification/Search_Calls.thy ===== *)
theory Search_Calls
  imports Gateway
begin

text \<open>
  The calls of the client-run tool search, \<open>tool/tool_search.rs\<close>: the model sees an ordinary
  function named \<open>tool_search\<close> (or a provider sends native calls), the client sees
  \<open>tool_search_call\<close> items. Here are the strict readings of both and the projections to the
  public item. Whether a JSON text parses, and the derived deserializer of a native call, are
  fields of the codec.
\<close>

section \<open>Public identifiers\<close>

definition search_public_item_id :: "string \<Rightarrow> string" where
  "search_public_item_id item_id =
     (if map_option (\<lambda>s. s \<noteq> '''') (str_strip_prefix ''tsc_'' item_id) = Some True then item_id
      else (case filter_option (\<lambda>s. s \<noteq> '''') (str_strip_prefix ''fc_'' item_id) of
              Some s \<Rightarrow> ''tsc_'' @ s
            | None \<Rightarrow> ''tsc_'' @ hex16 (stable_name_hash (''tool_search_item:'' @ item_id))))"

section \<open>Projections\<close>

definition search_arguments :: "codec \<Rightarrow> string \<Rightarrow> tool_error + json" where
  "search_arguments c arguments = ok_or (cd_parse c arguments) InvalidUpstreamToolSearch"

definition started_public_call :: "function_tool_call \<Rightarrow> tool_error + tool_search_call" where
  "started_public_call call =
     (if str_trim (fc_id call) = '''' \<or> str_trim (fc_call_id call) = ''''
         \<or> fc_name call \<noteq> tool_search_name \<or> fc_namespace call \<noteq> None
      then Inl InvalidUpstreamToolSearch
      else Inr \<lparr>ts_id = search_public_item_id (fc_id call), ts_call_id = fc_call_id call, ts_execution = SearchClient,
                ts_arguments = JObject [], ts_status = SearchInProgress\<rparr>)"

definition completed_public_call :: "codec \<Rightarrow> function_tool_call \<Rightarrow> tool_error + tool_search_call" where
  "completed_public_call c call =
     (if fc_status call \<noteq> MessageCompleted then Inl InvalidUpstreamToolSearch
      else
        and_then (started_public_call call) (\<lambda>public.
        and_then (search_arguments c (fc_arguments call)) (\<lambda>v.
          Inr (public\<lparr>ts_arguments := v, ts_status := SearchCompleted\<rparr>))))"

definition project_synthetic_call ::
  "codec \<Rightarrow> function_tool_call \<Rightarrow> response_status \<Rightarrow> bool \<Rightarrow> tool_error + tool_search_call option" where
  "project_synthetic_call c call status unfinished =
     (if \<not> unfinished \<and> fc_status call = MessageCompleted
      then and_then (completed_public_call c call) (\<lambda>public. Inr (Some public))
      else
        (case status of
           StatusIncomplete \<Rightarrow>
             and_then (started_public_call call) (\<lambda>public. Inr (Some (public\<lparr>ts_status := SearchIncomplete\<rparr>)))
         | StatusError \<Rightarrow> Inr None
         | StatusInProgress \<Rightarrow> Inl InvalidUpstreamToolSearch
         | StatusCompleted \<Rightarrow> Inl InvalidUpstreamToolSearch))"

definition project_native_call :: "tool_search_call \<Rightarrow> response_status \<Rightarrow> tool_error + tool_search_call option" where
  "project_native_call call status =
     (if ts_status call = SearchCompleted then Inr (Some call)
      else
        (case status of
           StatusIncomplete \<Rightarrow> Inr (Some (call\<lparr>ts_status := SearchIncomplete\<rparr>))
         | StatusError \<Rightarrow> Inr None
         | StatusInProgress \<Rightarrow> Inl InvalidUpstreamToolSearch
         | StatusCompleted \<Rightarrow> Inl InvalidUpstreamToolSearch))"

definition ensure_function_is_available :: "bool \<Rightarrow> tool_error + unit" where
  "ensure_function_is_available withheld = (if withheld then Inl UpstreamWithheldFunctionCall else Inr ())"

section \<open>Strict readings\<close>

text \<open>
  The derived deserializer of \<open>StrictFunctionToolCall\<close> on an object: required strings, a status
  by its exact name (alone, or as the only key of an object with value null, as serde reads unit
  variants), and a namespace that may be missing or null but nothing else.
\<close>

fun message_status_from_json :: "json \<Rightarrow> message_status option" where
  "message_status_from_json (JString s) =
     (if s = ''in_progress'' then Some MessageInProgress
      else if s = ''completed'' then Some MessageCompleted else None)"
| "message_status_from_json (JObject [(s, JNull)]) = message_status_from_json (JString s)"
| "message_status_from_json _ = None"

definition strict_fields :: "json \<Rightarrow> function_tool_call option" where
  "strict_fields item =
     Option.bind (as_object item) (\<lambda>m.
     Option.bind (Option.bind (im_get m ''id'') as_str) (\<lambda>i.
     Option.bind (Option.bind (im_get m ''call_id'') as_str) (\<lambda>ci.
     Option.bind (Option.bind (im_get m ''name'') as_str) (\<lambda>n.
     Option.bind (Option.bind (im_get m ''arguments'') as_str) (\<lambda>a.
     Option.bind (Option.bind (im_get m ''status'') message_status_from_json) (\<lambda>s.
       if unwrap_or (im_get m ''namespace'') JNull \<noteq> JNull then None
       else Some \<lparr>fc_id = i, fc_call_id = ci, fc_name = n, fc_namespace = None, fc_arguments = a, fc_status = s\<rparr>))))))"

definition strict_function_call :: "codec \<Rightarrow> json \<Rightarrow> tool_error + function_tool_call" where
  "strict_function_call c item =
     and_then (ok_or (strict_fields item) InvalidUpstreamToolSearch) (\<lambda>call.
     and_then (started_public_call call) (\<lambda>_.
     and_then (if fc_status call = MessageCompleted then search_arguments c (fc_arguments call) else Inr JNull) (\<lambda>_.
       Inr call)))"

definition strict_started_function :: "codec \<Rightarrow> json \<Rightarrow> tool_error + function_tool_call" where
  "strict_started_function c item =
     and_then (strict_function_call c item) (\<lambda>call.
       if fc_status call \<noteq> MessageInProgress \<or> fc_arguments call \<noteq> '''' then Inl InvalidUpstreamToolSearch
       else Inr call)"

definition strict_native_call :: "codec \<Rightarrow> json \<Rightarrow> tool_error + tool_search_call" where
  "strict_native_call c item =
     (if unwrap_or (json_get item ''namespace'') JNull \<noteq> JNull then Inl InvalidUpstreamToolSearch
      else ok_or (cd_tool_search_call c item) InvalidUpstreamToolSearch)"

section \<open>Complete bodies\<close>

definition might_contain_tool_search_wire :: "string \<Rightarrow> bool" where
  "might_contain_tool_search_wire wire = sublist tool_search_name wire"

definition blocking_item ::
  "codec \<Rightarrow> bool \<Rightarrow> string set \<Rightarrow> bool \<Rightarrow> bool \<Rightarrow> json \<Rightarrow> tool_error + bool" where
  "blocking_item c enabled withheld allow_unfinished saw item =
     (let kind = Option.bind (json_get item ''type'') as_str;
          nm = Option.bind (json_get item ''name'') as_str
      in if kind = Some ''function_call'' \<and> (\<exists>n \<in> set_option nm. n \<in> withheld) then Inl UpstreamWithheldFunctionCall
         else if kind = Some ''tool_search_call'' then
           (if saw then Inl InvalidUpstreamToolSearch
            else and_then (strict_native_call c item) (\<lambda>call.
                   if \<not> allow_unfinished \<and> ts_status call \<noteq> SearchCompleted then Inl InvalidUpstreamToolSearch
                   else Inr True))
         else if kind = Some ''function_call'' \<and> enabled \<and> nm = Some tool_search_name then
           (if saw then Inl InvalidUpstreamToolSearch
            else and_then (strict_function_call c item) (\<lambda>call.
                   if \<not> allow_unfinished \<and> fc_status call \<noteq> MessageCompleted then Inl InvalidUpstreamToolSearch
                   else Inr True))
         else Inr saw)"

definition validate_blocking_response :: "codec \<Rightarrow> string \<Rightarrow> bool \<Rightarrow> string set \<Rightarrow> tool_error + unit" where
  "validate_blocking_response c body enabled withheld =
     (if \<not> enabled \<and> withheld = {} \<and> \<not> might_contain_tool_search_wire body then Inr ()
      else
        (case cd_parse c body of
           None \<Rightarrow> Inr ()
         | Some v \<Rightarrow>
             (let status = (case Option.bind (json_get v ''status'') as_str of
                              None \<Rightarrow> StatusCompleted | Some s \<Rightarrow> response_status_of_str s)
              in and_then (run_steps (blocking_item c enabled withheld (status = StatusError \<or> status = StatusIncomplete))
                             False (unwrap_or (Option.bind (json_get v ''output'') as_array) []))
                   (\<lambda>_. Inr ()))))"

end
