(* ===== verification/Translators.thy ===== *)
theory Translators
  imports Search_Calls
begin

text \<open>
  The translators of \<open>executor/translate\<close>: each turns the events of one function call of the model
  into the events of the public item it stands for. Function and namespace calls pass through, a
  custom tool call streams its raw input, a shell call streams its commands, a tool search shows
  only its start and its end.

  Library calls are the record \<open>translator_env\<close>: \<open>serde_json\<close> reading a string, an action, the
  next string or value of a text (with the number of bytes read), and the derived serializers. A
  failed step ends the round, so it returns the error alone.
\<close>

section \<open>Environment and events\<close>

record translator_env =
  tv_codec :: codec
  tv_print :: json_printer
  tv_string :: "string \<Rightarrow> string + string"
  tv_action :: "string \<Rightarrow> string + shell_call_action"
  tv_next_key :: "string \<Rightarrow> (string \<times> usize) option"
  tv_next_value :: "string \<Rightarrow> usize option"
  tv_item :: "output_item \<Rightarrow> string + json"
  tv_tools :: "responses_tool list \<Rightarrow> string + json"
  tv_declaration :: "custom_tool_param \<Rightarrow> json option"

record accumulated_call =
  ac_item :: function_tool_call
  ac_arguments :: string
  ac_output_index :: u32

datatype tool_event =
    AddedEvent string string u32 "event_frame option"
  | DeltaEvent event_frame
  | ArgumentsDoneEvent event_frame
  | DoneEvent event_frame

definition max_pending_function_bytes :: usize where
  "max_pending_function_bytes = 256 * 1024"

definition ensure_function_call_size :: "string \<Rightarrow> executor_error + unit" where
  "ensure_function_call_size arguments =
     (if max_pending_function_bytes < length arguments
      then Inl (StreamError (''function-call SSE exceeded '' @ show_nat max_pending_function_bytes @ '' buffered bytes''))
      else Inr ())"

definition resolved_output_index :: "u32 option \<Rightarrow> executor_error + u32" where
  "resolved_output_index i = ok_or i (InvalidRequest ''translation requires a resolved output_index'')"

definition str_trim_start :: "string \<Rightarrow> string" where
  "str_trim_start = strip_all white_space"

definition byte_at :: "string \<Rightarrow> usize \<Rightarrow> char option" where
  "byte_at s i = (if i < length s then Some (s ! i) else None)"

definition indexed_frame :: "sse_event_type \<Rightarrow> u32 \<Rightarrow> json_map \<Rightarrow> executor_error + event_frame" where
  "indexed_frame t i entries =
     and_then (synthetic_event t entries) (\<lambda>f.
       Inr (f\<lparr>ef_wire := (ef_wire f)\<lparr>we_output_index := Some (u64_of_u32 i)\<rparr>\<rparr>))"

section \<open>JSON strings that are still arriving\<close>

definition hex_value :: "char \<Rightarrow> nat option" where
  "hex_value b =
     (let d = ascii_lower_char b
      in if byte_in 48 57 d then Some (of_char d - 48)
         else if byte_in 97 102 d then Some (of_char d - 87)
         else None)"

definition json_hex_quad :: "string \<Rightarrow> nat option" where
  "json_hex_quad bytes =
     (if length bytes \<noteq> 4 then None
      else fold (\<lambda>b v. Option.bind v (\<lambda>n. map_option (\<lambda>d. n * 16 + d) (hex_value b))) bytes (Some 0))"

text \<open>
  How many bytes of a partial string body are complete: up to the closing quote, or up to an
  escape whose end has not arrived. A high surrogate waits for its partner.
\<close>

definition escape_width :: "string \<Rightarrow> nat option" where
  "escape_width s =
     (case byte_at s 1 of
        None \<Rightarrow> None
      | Some e \<Rightarrow>
          if e = CHR ''u'' then
            (if length s < 6 then None
             else
               (case json_hex_quad (take 4 (drop 2 s)) of
                  None \<Rightarrow> Some 6
                | Some unit \<Rightarrow>
                    if 0xD800 \<le> unit \<and> unit \<le> 0xDBFF then (if length s < 12 then None else Some 12)
                    else Some 6))
          else Some 2)"

lemma escape_width_bounds: "escape_width s = Some n \<Longrightarrow> 0 < n \<and> n \<le> length s"
  by (auto simp: escape_width_def byte_at_def split: if_splits option.splits)

function complete_json_string_prefix :: "string \<Rightarrow> usize" where
  "complete_json_string_prefix [] = 0"
| "complete_json_string_prefix (b # s) =
     (if b = CHR 0x22 then 0
      else if b = CHR 0x5C then
        (case escape_width (b # s) of
           None \<Rightarrow> 0
         | Some n \<Rightarrow> n + complete_json_string_prefix (drop n (b # s)))
      else 1 + complete_json_string_prefix s)"
  by pat_completeness auto

termination
  by (relation "measure length") (auto dest: escape_width_bounds)

declare complete_json_string_prefix.simps(2) [simp del]

definition decode_body :: "translator_env \<Rightarrow> string \<Rightarrow> string + string" where
  "decode_body env encoded = tv_string env ([CHR 0x22] @ encoded @ [CHR 0x22])"

section \<open>Custom tools\<close>

record custom_call_state =
  cs_public_item_id :: string
  cs_output_index :: u32
  cs_emitted_input :: string
  cs_input_start :: "usize option"
  cs_input_cursor :: usize
  cs_input_done :: bool

definition custom_added_frame :: "accumulated_call \<Rightarrow> executor_error + event_frame" where
  "custom_added_frame call =
     indexed_frame OutputItemAdded (ac_output_index call)
       [(''item'', JObject [(''id'', JString (custom_public_item_id (fc_id (ac_item call)))), (''type'', JString ''custom_tool_call''),
          (''status'', JString ''in_progress''), (''call_id'', JString (fc_call_id (ac_item call))),
          (''input'', JString ''''), (''name'', JString (fc_name (ac_item call)))])]"

definition custom_delta_frame :: "custom_call_state \<Rightarrow> string \<Rightarrow> executor_error + event_frame" where
  "custom_delta_frame st delta =
     indexed_frame CustomToolCallInputDelta (cs_output_index st)
       [(''delta'', JString delta), (''item_id'', JString (cs_public_item_id st))]"

definition custom_done_frame :: "custom_call_state \<Rightarrow> accumulated_call \<Rightarrow> executor_error + event_frame" where
  "custom_done_frame st call =
     indexed_frame OutputItemDone (cs_output_index st)
       [(''item'', JObject [(''id'', JString (cs_public_item_id st)), (''type'', JString ''custom_tool_call''),
          (''status'', JString ''completed''), (''call_id'', JString (fc_call_id (ac_item call))),
          (''input'', JString (cs_emitted_input st)), (''name'', JString (fc_name (ac_item call)))])]"

definition custom_input_start :: "string \<Rightarrow> usize option" where
  "custom_input_start arguments =
     (let a = str_trim_start arguments;
          b = str_trim_start (unwrap_or (str_strip_prefix ''{}'' a) a)
      in map_option (\<lambda>encoded. length arguments - length encoded)
           (Option.bind (str_strip_prefix ''{'' b) (\<lambda>c.
            Option.bind (str_strip_prefix ([CHR 0x22] @ ''input'' @ [CHR 0x22]) (str_trim_start c)) (\<lambda>d.
            Option.bind (str_strip_prefix '':'' (str_trim_start d)) (\<lambda>e.
              str_strip_prefix [CHR 0x22] (str_trim_start e))))))"

text \<open>What of the input has arrived beyond the cursor, and the state that has read it.\<close>

definition partial_custom_input ::
  "translator_env \<Rightarrow> string \<Rightarrow> custom_call_state \<Rightarrow> executor_error + string option \<times> custom_call_state" where
  "partial_custom_input env arguments st =
     (case or_else (cs_input_start st) (custom_input_start arguments) of
        None \<Rightarrow> Inr (None, st)
      | Some start \<Rightarrow>
          (let st' = (if cs_input_start st = None then st\<lparr>cs_input_start := Some start, cs_input_cursor := start\<rparr> else st);
               encoded = drop (cs_input_cursor st') arguments;
               n = complete_json_string_prefix encoded
           in if cs_input_cursor st' < start \<or> length arguments < cs_input_cursor st' \<or> n = 0 then Inr (None, st')
              else
                (case decode_body env (take n encoded) of
                   Inl e \<Rightarrow> Inl (StreamError (''invalid custom tool input string: '' @ e))
                 | Inr delta \<Rightarrow>
                     Inr (if delta = '''' then None else Some delta,
                          st'\<lparr>cs_input_cursor := usize_saturating_add (cs_input_cursor st') n\<rparr>))))"

definition incremental_custom_delta ::
  "translator_env \<Rightarrow> string \<Rightarrow> custom_call_state \<Rightarrow> executor_error + event_frame list \<times> custom_call_state" where
  "incremental_custom_delta env arguments st =
     and_then (ensure_function_call_size arguments) (\<lambda>_.
     and_then (partial_custom_input env arguments st) (\<lambda>(delta, st').
       case delta of
         None \<Rightarrow> Inr ([], st')
       | Some d \<Rightarrow>
           and_then (custom_delta_frame st' d) (\<lambda>f.
             Inr ([f], st'\<lparr>cs_emitted_input := cs_emitted_input st' @ d\<rparr>))))"

definition finish_custom_input ::
  "translator_env \<Rightarrow> string \<Rightarrow> custom_call_state \<Rightarrow> executor_error + event_frame list \<times> custom_call_state" where
  "finish_custom_input env arguments st =
     (if cs_input_done st then Inr ([], st)
      else
        and_then (ensure_function_call_size arguments) (\<lambda>_.
          let input = input_from_arguments (tv_codec env) arguments
          in case str_strip_prefix (cs_emitted_input st) input of
               None \<Rightarrow> Inl (StreamError ''authoritative custom tool input contradicts streamed custom tool input'')
             | Some remaining \<Rightarrow>
                 (let st' = st\<lparr>cs_emitted_input := input, cs_input_done := True\<rparr>
                  in and_then (if remaining = '''' then Inr [] else and_then (custom_delta_frame st' remaining) (\<lambda>f. Inr [f])) (\<lambda>deltas.
                     and_then (indexed_frame CustomToolCallInputDone (cs_output_index st')
                         [(''input'', JString input), (''item_id'', JString (cs_public_item_id st'))]) (\<lambda>f.
                       Inr (deltas @ [f], st'))))))"

definition custom_started :: "string \<Rightarrow> u32 \<Rightarrow> accumulated_call option \<Rightarrow> custom_call_state" where
  "custom_started item_id output_index call =
     \<lparr>cs_public_item_id = custom_public_item_id (case call of None \<Rightarrow> item_id | Some a \<Rightarrow> fc_id (ac_item a)),
      cs_output_index = output_index, cs_emitted_input = '''', cs_input_start = None, cs_input_cursor = 0, cs_input_done = False\<rparr>"

definition translate_custom ::
  "translator_env \<Rightarrow> tool_event \<Rightarrow> accumulated_call option \<Rightarrow> custom_call_state option
   \<Rightarrow> executor_error + event_frame list \<times> custom_call_state option" where
  "translate_custom env ev call state =
     (case ev of
        AddedEvent item_id _ output_index _ \<Rightarrow>
          and_then (case call of None \<Rightarrow> Inr [] | Some a \<Rightarrow> and_then (custom_added_frame a) (\<lambda>f. Inr [f]))
            (\<lambda>fs. Inr (fs, Some (custom_started item_id output_index call)))
      | _ \<Rightarrow>
          and_then (ok_or state (StreamError ''custom translator has no started call'')) (\<lambda>st.
            case call of
              None \<Rightarrow> Inr ([], Some st)
            | Some a \<Rightarrow>
                (case ev of
                   DoneEvent _ \<Rightarrow>
                     and_then (finish_custom_input env (ac_arguments a) st) (\<lambda>(fs, st').
                     and_then (custom_done_frame st' a) (\<lambda>f. Inr (fs @ [f], Some st')))
                 | ArgumentsDoneEvent _ \<Rightarrow>
                     and_then (finish_custom_input env (ac_arguments a) st) (\<lambda>(fs, st'). Inr (fs, Some st'))
                 | _ \<Rightarrow>
                     and_then (incremental_custom_delta env (ac_arguments a) st) (\<lambda>(fs, st'). Inr (fs, Some st')))))"

section \<open>Shell commands\<close>

datatype shell_completion = CommandsStreaming | ArrayDone | ArgumentsDone

record shell_call_state =
  ss_added :: bool
  ss_output_index :: u32
  ss_commands :: "string list"
  ss_cursor :: "usize option"
  ss_command_open :: bool
  ss_completion :: shell_completion

definition shell_added_frame :: "accumulated_call \<Rightarrow> executor_error + event_frame" where
  "shell_added_frame call =
     indexed_frame OutputItemAdded (ac_output_index call)
       [(''item'', JObject [(''type'', JString ''shell_call''), (''id'', JString (shell_public_item_id (fc_id (ac_item call)))),
          (''call_id'', JString (fc_call_id (ac_item call))), (''status'', JString ''in_progress''),
          (''action'', JObject [(''commands'', JArray []), (''timeout_ms'', JNull), (''max_output_length'', JNull)])])]"

definition shell_done_frame :: "translator_env \<Rightarrow> accumulated_call \<Rightarrow> executor_error + event_frame" where
  "shell_done_frame env call =
     and_then (ok_or (shell_output_item (\<lambda>s. case tv_action env s of Inl _ \<Rightarrow> None | Inr a \<Rightarrow> Some a) (ac_item call))
         (StreamError ''shell function call contains invalid action arguments'')) (\<lambda>item.
       case tv_item env item of
         Inl e \<Rightarrow> Inl (JsonError e)
       | Inr v \<Rightarrow> indexed_frame OutputItemDone (ac_output_index call) [(''item'', v)])"

definition shell_command_frame :: "sse_event_type \<Rightarrow> u32 \<Rightarrow> usize \<Rightarrow> string \<Rightarrow> executor_error + event_frame" where
  "shell_command_frame t output_index command_index v =
     indexed_frame t output_index
       [(''command_index'', JNumber (PosInt (of_nat command_index))),
        (if t = ShellCallCommandDelta then ''delta'' else ''command'', JString v)]"

text \<open>The text after the opening bracket of the top-level \<open>commands\<close> array.\<close>

lemma strip_all_length: "length (strip_all ws s) \<le> length s"
proof (induction ws s rule: strip_all.induct)
  case (1 ws s)
  show ?case
  proof (cases "strip_one ws s")
    case (Some t)
    with 1 [OF Some] strip_one_shorter [OF Some] show ?thesis by (simp add: strip_all.simps [of ws s])
  qed (simp add: strip_all.simps [of ws s])
qed

lemma str_strip_prefix_length: "str_strip_prefix p s = Some t \<Longrightarrow> length t + length p = length s"
  by (auto simp: str_strip_prefix_def prefix_def split: if_splits)

definition after_key :: "translator_env \<Rightarrow> string \<Rightarrow> (string \<times> string) option" where
  "after_key env rest =
     Option.bind (tv_next_key env rest) (\<lambda>(name, n).
       map_option (\<lambda>s. (name, str_trim_start s)) (str_strip_prefix '':'' (str_trim_start (drop n rest))))"

definition after_value :: "translator_env \<Rightarrow> string \<Rightarrow> string option" where
  "after_value env rest =
     Option.bind (tv_next_value env rest) (\<lambda>n.
       map_option str_trim_start (str_strip_prefix '','' (str_trim_start (drop n rest))))"

lemma after_separator:
  assumes "str_strip_prefix [c] (str_trim_start (drop n s)) = Some t"
  shows "length (str_trim_start t) < length s"
proof -
  have "length t + 1 = length (str_trim_start (drop n s))" using str_strip_prefix_length [OF assms] by simp
  moreover have "length (str_trim_start (drop n s)) \<le> length (drop n s)" "length (str_trim_start t) \<le> length t"
    unfolding str_trim_start_def by (rule strip_all_length)+
  ultimately show ?thesis by simp
qed

lemma after_key_shorter: "after_key env rest = Some (name, s) \<Longrightarrow> length s < length rest"
  by (auto simp: after_key_def bind_eq_Some after_separator)

lemma after_value_shorter: "after_value env rest = Some s \<Longrightarrow> length s < length rest"
  by (auto simp: after_value_def bind_eq_Some after_separator)

function commands_array :: "translator_env \<Rightarrow> string \<Rightarrow> string option" where
  "commands_array env rest =
     (case after_key env rest of
        None \<Rightarrow> None
      | Some (name, s) \<Rightarrow>
          if name = ''commands'' then str_strip_prefix ''['' s
          else
            (case after_value env s of
               None \<Rightarrow> None
             | Some t \<Rightarrow> commands_array env t))"
  by pat_completeness auto

termination
  by (relation "measure (\<lambda>(_, s). length s)") (auto dest!: after_key_shorter after_value_shorter)

declare commands_array.simps [simp del]

definition shell_commands_start :: "translator_env \<Rightarrow> string \<Rightarrow> usize option" where
  "shell_commands_start env arguments =
     map_option (\<lambda>array. length arguments - length array)
       (Option.bind (str_strip_prefix ''{'' (str_trim_start arguments)) (\<lambda>s. commands_array env (str_trim_start s)))"

text \<open>
  One turn of the loop over the commands array. The flag says whether the loop goes on; then the
  cursor is past the closing quote of a command.
\<close>

definition is_ascii_whitespace :: "char \<Rightarrow> bool" where
  "is_ascii_whitespace b \<longleftrightarrow> b \<in> {CHR 0x20, CHR 0x09, CHR 0x0A, CHR 0x0C, CHR 0x0D}"

definition skip_whitespace :: "string \<Rightarrow> usize \<Rightarrow> usize" where
  "skip_whitespace arguments cursor = cursor + length (takeWhile is_ascii_whitespace (drop cursor arguments))"

datatype before_command = EndOfInput usize | EndOfArray usize | NextAt usize

definition before_command ::
  "string \<Rightarrow> usize \<Rightarrow> shell_call_state \<Rightarrow> executor_error + before_command" where
  "before_command arguments at st =
     (let cursor = skip_whitespace arguments at
      in if ss_commands st \<noteq> [] then
           (case byte_at arguments cursor of
              None \<Rightarrow> Inr (EndOfInput cursor)
            | Some b \<Rightarrow>
                if b = CHR '',''  then
                  (let rest = str_trim_start (drop (cursor + 1) arguments)
                   in Inr (if rest = '''' then EndOfInput cursor else NextAt (length arguments - length rest)))
                else if b = CHR '']'' then Inr (EndOfArray cursor)
                else Inl (StreamError ''invalid shell commands array separator''))
         else Inr (if byte_at arguments cursor = Some CHR '']'' then EndOfArray cursor else NextAt cursor))"

definition open_command ::
  "string \<Rightarrow> usize \<Rightarrow> shell_call_state \<Rightarrow> executor_error + (bool \<times> usize \<times> shell_call_state \<times> event_frame list)" where
  "open_command arguments at st =
     (if ss_command_open st then Inr (True, at, st, [])
      else
        and_then (before_command arguments at st) (\<lambda>place.
          case place of
            EndOfInput cursor \<Rightarrow> Inr (False, cursor, st, [])
          | EndOfArray cursor \<Rightarrow> Inr (False, cursor, st\<lparr>ss_completion := ArrayDone\<rparr>, [])
          | NextAt cursor \<Rightarrow>
              (case byte_at arguments cursor of
                 None \<Rightarrow> Inr (False, cursor, st, [])
               | Some b \<Rightarrow>
                   if b = CHR 0x22 then
                     and_then (shell_command_frame ShellCallCommandAdded (ss_output_index st) (length (ss_commands st)) '''') (\<lambda>f.
                       Inr (True, cursor + 1, st\<lparr>ss_commands := ss_commands st @ [''''], ss_command_open := True\<rparr>, [f]))
                   else Inl (StreamError ''shell command must be a JSON string''))))"

text \<open>\<open>arguments.get(cursor..)\<close> needs a character boundary.\<close>

definition str_from :: "string \<Rightarrow> usize \<Rightarrow> string option" where
  "str_from s i =
     (if length s < i \<or> (\<exists>b \<in> set_option (byte_at s i). continuation_byte b) then None else Some (drop i s))"

definition read_command ::
  "translator_env \<Rightarrow> string \<Rightarrow> usize \<Rightarrow> shell_call_state \<Rightarrow> executor_error + (usize \<times> shell_call_state \<times> event_frame list)" where
  "read_command env arguments cursor st =
     and_then (ok_or (str_from arguments cursor) (StreamError ''shell arguments changed while streaming'')) (\<lambda>encoded.
       let n = complete_json_string_prefix encoded; k = length (ss_commands st) - 1
       in if n = 0 then Inr (cursor, st, [])
          else
            (case decode_body env (take n encoded) of
               Inl e \<Rightarrow> Inl (StreamError (''invalid shell command string: '' @ e))
             | Inr delta \<Rightarrow>
                 and_then (shell_command_frame ShellCallCommandDelta (ss_output_index st) k delta) (\<lambda>f.
                   Inr (cursor + n, st\<lparr>ss_commands := (ss_commands st)[k := ss_commands st ! k @ delta]\<rparr>, [f]))))"

definition close_command ::
  "string \<Rightarrow> usize \<Rightarrow> shell_call_state \<Rightarrow> executor_error + (bool \<times> usize \<times> shell_call_state \<times> event_frame list)" where
  "close_command arguments cursor st =
     (let k = length (ss_commands st) - 1
      in if byte_at arguments cursor \<noteq> Some CHR 0x22 then Inr (False, cursor, st, [])
         else
           and_then (shell_command_frame ShellCallCommandDone (ss_output_index st) k (ss_commands st ! k)) (\<lambda>f.
             Inr (True, cursor + 1, st\<lparr>ss_command_open := False\<rparr>, [f])))"

definition shell_turn ::
  "translator_env \<Rightarrow> string \<Rightarrow> usize \<Rightarrow> shell_call_state
   \<Rightarrow> executor_error + (bool \<times> usize \<times> shell_call_state \<times> event_frame list)" where
  "shell_turn env arguments cursor st =
     and_then (open_command arguments cursor st) (\<lambda>(go, cursor, st, fs).
       if \<not> go then Inr (False, cursor, st, fs)
       else
         and_then (read_command env arguments cursor st) (\<lambda>(cursor, st, gs).
         and_then (close_command arguments cursor st) (\<lambda>(go, cursor, st, hs).
           Inr (go, cursor, st, fs @ gs @ hs))))"

lemma before_command_at: "before_command arguments at st = Inr (NextAt cursor) \<Longrightarrow> at \<le> cursor"
proof -
  have "at < length arguments - length (str_trim_start (drop (Suc (skip_whitespace arguments at)) arguments))"
    if "skip_whitespace arguments at < length arguments"
  proof -
    have "length (str_trim_start (drop (Suc (skip_whitespace arguments at)) arguments)) \<le> length arguments - Suc (skip_whitespace arguments at)"
      unfolding str_trim_start_def by (metis length_drop strip_all_length)
    moreover have "at \<le> skip_whitespace arguments at" by (simp add: skip_whitespace_def)
    ultimately show ?thesis using that by simp
  qed
  then show "before_command arguments at st = Inr (NextAt cursor) \<Longrightarrow> at \<le> cursor"
    by (auto simp: before_command_def Let_def byte_at_def skip_whitespace_def split: if_splits option.splits)
qed

lemma open_command_at:
  assumes "open_command arguments at st = Inr (True, cursor, st', fs)"
  shows "at \<le> cursor"
proof (cases "ss_command_open st")
  case False
  with assms obtain place where place: "before_command arguments at st = Inr place"
    by (auto simp: open_command_def result_simps)
  show ?thesis
  proof (cases place)
    case (NextAt c)
    with assms False place have "cursor = c + 1"
      by (auto simp: open_command_def result_simps split: option.splits if_splits)
    with before_command_at [OF place [unfolded NextAt]] show ?thesis by simp
  qed (use assms False place in \<open>auto simp: open_command_def result_simps\<close>)
qed (use assms in \<open>simp add: open_command_def\<close>)

lemma shell_turn_advances:
  assumes "shell_turn env arguments at st = Inr (True, cursor, st', fs)"
  shows "at < cursor \<and> cursor \<le> length arguments"
  using assms
  by (auto simp: shell_turn_def read_command_def close_command_def byte_at_def Let_def result_simps
      split: if_splits sum.splits option.splits dest!: open_command_at)

function shell_loop ::
  "translator_env \<Rightarrow> string \<Rightarrow> usize \<Rightarrow> shell_call_state
   \<Rightarrow> executor_error + (usize \<times> shell_call_state \<times> event_frame list)" where
  "shell_loop env arguments cursor st =
     (case shell_turn env arguments cursor st of
        Inl e \<Rightarrow> Inl e
      | Inr (False, cursor', st', fs) \<Rightarrow> Inr (cursor', st', fs)
      | Inr (True, cursor', st', fs) \<Rightarrow>
          and_then (shell_loop env arguments cursor' st') (\<lambda>(cursor'', st'', gs). Inr (cursor'', st'', fs @ gs)))"
  by pat_completeness auto

termination
  by (relation "measure (\<lambda>(_, arguments, cursor, _). length arguments - cursor)") (auto dest!: shell_turn_advances)

declare shell_loop.simps [simp del]

definition incremental_shell_commands ::
  "translator_env \<Rightarrow> string \<Rightarrow> shell_call_state \<Rightarrow> executor_error + event_frame list \<times> shell_call_state" where
  "incremental_shell_commands env arguments st =
     and_then (ensure_function_call_size arguments) (\<lambda>_.
       if ss_completion st \<noteq> CommandsStreaming then Inr ([], st)
       else
         (case or_else (ss_cursor st) (shell_commands_start env arguments) of
            None \<Rightarrow> Inr ([], st)
          | Some cursor \<Rightarrow>
              and_then (shell_loop env arguments cursor st) (\<lambda>(cursor', st', fs).
                Inr (fs, st'\<lparr>ss_cursor := Some cursor'\<rparr>))))"

definition contradicts_streamed :: executor_error where
  "contradicts_streamed = StreamError ''authoritative shell action contradicts streamed commands''"

definition finish_command ::
  "usize \<Rightarrow> string \<Rightarrow> shell_call_state \<Rightarrow> executor_error + event_frame list \<times> shell_call_state" where
  "finish_command k command st =
     (let emitted = (if k < length (ss_commands st) then Some (ss_commands st ! k) else None);
          still_open = ss_command_open st \<and> k + 1 = length (ss_commands st)
      in case emitted of
           Some e \<Rightarrow>
             if \<not> prefix e command \<or> (\<not> still_open \<and> command \<noteq> e) then Inl contradicts_streamed
             else if \<not> still_open then Inr ([], st)
             else
               and_then (if drop (length e) command = '''' then Inr []
                  else and_then (shell_command_frame ShellCallCommandDelta (ss_output_index st) k (drop (length e) command)) (\<lambda>f. Inr [f])) (\<lambda>fs.
               and_then (shell_command_frame ShellCallCommandDone (ss_output_index st) k command) (\<lambda>f.
                 Inr (fs @ [f], st\<lparr>ss_commands := (ss_commands st)[k := command], ss_command_open := False\<rparr>)))
         | None \<Rightarrow>
             and_then (shell_command_frame ShellCallCommandAdded (ss_output_index st) k '''') (\<lambda>a.
             and_then (if command = '''' then Inr []
                else and_then (shell_command_frame ShellCallCommandDelta (ss_output_index st) k command) (\<lambda>f. Inr [f])) (\<lambda>fs.
             and_then (shell_command_frame ShellCallCommandDone (ss_output_index st) k command) (\<lambda>f.
               Inr (a # fs @ [f], st\<lparr>ss_commands := ss_commands st @ [command], ss_command_open := False\<rparr>)))))"

fun finish_commands ::
  "usize \<Rightarrow> string list \<Rightarrow> shell_call_state \<Rightarrow> executor_error + event_frame list \<times> shell_call_state" where
  "finish_commands k [] st = Inr ([], st)"
| "finish_commands k (command # commands) st =
     and_then (finish_command k command st) (\<lambda>(fs, st').
     and_then (finish_commands (k + 1) commands st') (\<lambda>(gs, st''). Inr (fs @ gs, st'')))"

definition finish_shell_commands ::
  "translator_env \<Rightarrow> string \<Rightarrow> shell_call_state \<Rightarrow> executor_error + event_frame list \<times> shell_call_state" where
  "finish_shell_commands env arguments st =
     and_then (ensure_function_call_size arguments) (\<lambda>_.
       case tv_action env arguments of
         Inl e \<Rightarrow> Inl (StreamError (''shell function call contains invalid action arguments: '' @ e))
       | Inr action \<Rightarrow>
           if length (sa_commands action) < length (ss_commands st)
              \<or> (ss_completion st = ArgumentsDone \<and> ss_commands st \<noteq> sa_commands action)
           then Inl contradicts_streamed
           else
             and_then (finish_commands 0 (sa_commands action) st) (\<lambda>(fs, st').
               Inr (fs, st'\<lparr>ss_completion := ArgumentsDone\<rparr>)))"

definition shell_started :: "u32 \<Rightarrow> accumulated_call option \<Rightarrow> shell_call_state" where
  "shell_started output_index call =
     \<lparr>ss_added = (call \<noteq> None), ss_output_index = output_index, ss_commands = [], ss_cursor = None,
      ss_command_open = False, ss_completion = CommandsStreaming\<rparr>"

definition finish_shell_event ::
  "translator_env \<Rightarrow> bool \<Rightarrow> accumulated_call \<Rightarrow> shell_call_state \<Rightarrow> executor_error + event_frame list \<times> shell_call_state" where
  "finish_shell_event env final call st =
     and_then (if ss_added st then Inr [] else and_then (shell_added_frame call) (\<lambda>f. Inr [f])) (\<lambda>fs.
     and_then (finish_shell_commands env (ac_arguments call) (st\<lparr>ss_added := True\<rparr>)) (\<lambda>(gs, st').
     and_then (if final then and_then (shell_done_frame env call) (\<lambda>f. Inr [f]) else Inr []) (\<lambda>hs.
       Inr (fs @ gs @ hs, st'))))"

definition translate_shell ::
  "translator_env \<Rightarrow> tool_event \<Rightarrow> accumulated_call option \<Rightarrow> shell_call_state option
   \<Rightarrow> executor_error + event_frame list \<times> shell_call_state option" where
  "translate_shell env ev call state =
     (case ev of
        AddedEvent _ _ output_index _ \<Rightarrow>
          and_then (case call of None \<Rightarrow> Inr [] | Some a \<Rightarrow> and_then (shell_added_frame a) (\<lambda>f. Inr [f]))
            (\<lambda>fs. Inr (fs, Some (shell_started output_index call)))
      | _ \<Rightarrow>
          and_then (ok_or state (StreamError ''shell translator has no started call'')) (\<lambda>st.
            case call of
              None \<Rightarrow> Inr ([], Some st)
            | Some a \<Rightarrow>
                (case ev of
                   DoneEvent _ \<Rightarrow>
                     and_then (finish_shell_event env True a st) (\<lambda>(fs, st'). Inr (fs, Some st'))
                 | ArgumentsDoneEvent _ \<Rightarrow>
                     and_then (finish_shell_event env False a st) (\<lambda>(fs, st'). Inr (fs, Some st'))
                 | _ \<Rightarrow>
                     and_then (incremental_shell_commands env (ac_arguments a) st) (\<lambda>(fs, st'). Inr (fs, Some st')))))"

section \<open>Tool search\<close>

record search_call_state =
  sr_internal_item_id :: string
  sr_output_index :: u32

abbreviation invalid_search :: executor_error where
  "invalid_search \<equiv> Tool InvalidUpstreamToolSearch"

definition of_tool_error :: "tool_error + 'a \<Rightarrow> executor_error + 'a" where
  "of_tool_error r = (case r of Inl e \<Rightarrow> Inl (Tool e) | Inr x \<Rightarrow> Inr x)"

definition search_frame :: "translator_env \<Rightarrow> sse_event_type \<Rightarrow> u32 \<Rightarrow> tool_search_call \<Rightarrow> executor_error + event_frame" where
  "search_frame env t output_index call =
     (case tv_item env (OutToolSearchCall call) of
        Inl e \<Rightarrow> Inl (JsonError e)
      | Inr item \<Rightarrow> indexed_frame t output_index [(''item'', item)])"

definition validate_tool_search_added :: "codec \<Rightarrow> event_frame \<Rightarrow> string \<Rightarrow> executor_error + unit" where
  "validate_tool_search_added c f name =
     (case im_get (we_rest (ef_wire f)) ''item'' of
        None \<Rightarrow> Inl invalid_search
      | Some item \<Rightarrow>
          and_then
            (case json_at item ''name'' of
               JNull \<Rightarrow>
                 (case item of
                    JObject m \<Rightarrow> Inr (JObject (im_insert ''name'' (JString name) m))
                  | _ \<Rightarrow> Inl invalid_search)
             | JString _ \<Rightarrow> Inr item
             | _ \<Rightarrow> Inl invalid_search)
            (\<lambda>named. and_then (of_tool_error (strict_started_function c named)) (\<lambda>_. Inr ())))"

definition completed_item :: "event_frame \<Rightarrow> bool" where
  "completed_item f =
     (case ef_payload f of
        POutputItemDone _ _ _ item \<Rightarrow> Option.bind (json_get item ''status'') as_str = Some ''completed''
      | _ \<Rightarrow> False)"

definition translate_search ::
  "translator_env \<Rightarrow> tool_event \<Rightarrow> accumulated_call option \<Rightarrow> search_call_state option
   \<Rightarrow> executor_error + event_frame list \<times> search_call_state option" where
  "translate_search env ev call state =
     (case ev of
        DeltaEvent _ \<Rightarrow>
          and_then (case call of None \<Rightarrow> Inr () | Some a \<Rightarrow> ensure_function_call_size (ac_arguments a)) (\<lambda>_. Inr ([], state))
      | AddedEvent _ name output_index original \<Rightarrow>
          and_then (ok_or call invalid_search) (\<lambda>a.
          and_then (case original of None \<Rightarrow> Inr () | Some f \<Rightarrow> validate_tool_search_added (tv_codec env) f name) (\<lambda>_.
          and_then (of_tool_error (started_public_call (ac_item a))) (\<lambda>public.
          and_then (search_frame env OutputItemAdded output_index public) (\<lambda>f.
            Inr ([f], Some \<lparr>sr_internal_item_id = fc_id (ac_item a), sr_output_index = output_index\<rparr>)))))
      | ArgumentsDoneEvent _ \<Rightarrow>
          and_then (ok_or call invalid_search) (\<lambda>a.
          and_then (ensure_function_call_size (ac_arguments a)) (\<lambda>_.
          and_then (of_tool_error (search_arguments (tv_codec env) (ac_arguments a))) (\<lambda>_. Inr ([], state))))
      | DoneEvent original \<Rightarrow>
          and_then (ok_or call invalid_search) (\<lambda>a.
          and_then (ensure_function_call_size (ac_arguments a)) (\<lambda>_.
            if completed_item original then
              and_then (ok_or state invalid_search) (\<lambda>st.
              and_then (of_tool_error (completed_public_call (tv_codec env) (ac_item a))) (\<lambda>public.
              and_then (search_frame env OutputItemDone (sr_output_index st) public) (\<lambda>f. Inr ([f], None))))
            else Inr ([], state))))"

section \<open>All translators\<close>

definition translate_function :: "tool_event \<Rightarrow> event_frame list" where
  "translate_function ev =
     (case ev of
        AddedEvent _ _ _ original \<Rightarrow> (case original of None \<Rightarrow> [] | Some f \<Rightarrow> [f])
      | DeltaEvent f \<Rightarrow> [f]
      | ArgumentsDoneEvent f \<Rightarrow> [f]
      | DoneEvent f \<Rightarrow> [f])"

datatype tool_translator =
    FunctionTranslator
  | NamespaceTranslator
  | CustomTranslator "custom_call_state option"
  | ShellTranslator "shell_call_state option"
  | SearchTranslator "search_call_state option"

fun translate_event ::
  "translator_env \<Rightarrow> tool_event \<Rightarrow> accumulated_call option \<Rightarrow> tool_translator
   \<Rightarrow> executor_error + event_frame list \<times> tool_translator" where
  "translate_event env ev call FunctionTranslator = Inr (translate_function ev, FunctionTranslator)"
| "translate_event env ev call NamespaceTranslator = Inr (translate_function ev, NamespaceTranslator)"
| "translate_event env ev call (CustomTranslator s) =
     and_then (translate_custom env ev call s) (\<lambda>(fs, s'). Inr (fs, CustomTranslator s'))"
| "translate_event env ev call (ShellTranslator s) =
     and_then (translate_shell env ev call s) (\<lambda>(fs, s'). Inr (fs, ShellTranslator s'))"
| "translate_event env ev call (SearchTranslator s) =
     and_then (translate_search env ev call s) (\<lambda>(fs, s'). Inr (fs, SearchTranslator s'))"

fun unfinished_tool_search_item_id :: "tool_translator \<Rightarrow> string option" where
  "unfinished_tool_search_item_id (SearchTranslator s) = map_option sr_internal_item_id s"
| "unfinished_tool_search_item_id _ = None"

end
