(* ===== verification/Dispatcher.thy ===== *)
theory Dispatcher
  imports Translators Delivery
begin

text \<open>
  From a validated frame to what the client sees, the rest of \<open>executor/translate\<close>: the facts of a
  round (\<open>context.rs\<close>), the restoration of public names and declarations in wire objects
  (\<open>namespace.rs\<close>, \<open>custom.rs\<close>, \<open>tool_search.rs\<close>), the checks on tool-search calls, and the
  dispatcher, which routes each event to the translator of its call, keeps events whose call has
  no name yet, and says from which output index on the client has to wait.
\<close>

section \<open>The facts of a round\<close>

record translation_context =
  tc_tool_types :: "(string, tool_type) index_map"
  tc_gateway_owned_names :: "string set"
  tc_withheld :: "string set"
  tc_tool_search_active :: bool
  tc_namespace_map :: "namespace_map option"
  tc_custom_tool_map :: "(string, custom_tool_param) index_map option"
  tc_response_tools :: "responses_tool list option"
  tc_response_tool_choice :: "tool_choice option"

definition new_translation_context :: "(string, tool_type) index_map \<Rightarrow> string set \<Rightarrow> bool \<Rightarrow> translation_context" where
  "new_translation_context types withheld active =
     \<lparr>tc_tool_types = types, tc_gateway_owned_names = {}, tc_withheld = withheld, tc_tool_search_active = active,
      tc_namespace_map = None, tc_custom_tool_map = None, tc_response_tools = None, tc_response_tool_choice = None\<rparr>"

definition with_gateway_owned_names :: "string set \<Rightarrow> translation_context \<Rightarrow> translation_context" where
  "with_gateway_owned_names names ctx = ctx\<lparr>tc_gateway_owned_names := names\<rparr>"

definition public_response_tools :: "responses_tool list option \<Rightarrow> responses_tool list option" where
  "public_response_tools tools = map_option (map sanitize_for_persistence) tools"

definition with_response_metadata ::
  "namespace_map option \<Rightarrow> (string, custom_tool_param) index_map option \<Rightarrow> responses_tool list option \<Rightarrow> tool_choice option
   \<Rightarrow> translation_context \<Rightarrow> translation_context" where
  "with_response_metadata nm cm tools choice ctx =
     ctx\<lparr>tc_namespace_map := nm, tc_custom_tool_map := cm, tc_response_tools := public_response_tools tools,
         tc_response_tool_choice := choice\<rparr>"

definition context_tool_type :: "translation_context \<Rightarrow> string \<Rightarrow> tool_type" where
  "context_tool_type ctx name =
     (if tc_tool_search_active ctx \<and> name = tool_search_name then ToolSearchType
      else unwrap_or (im_get (tc_tool_types ctx) name) FunctionType)"

definition is_withheld_function :: "translation_context \<Rightarrow> string \<Rightarrow> bool" where
  "is_withheld_function ctx name \<longleftrightarrow> name \<in> tc_withheld ctx"

section \<open>Restoring public shapes on the wire\<close>

definition json_kind :: "json \<Rightarrow> string option" where
  "json_kind v = Option.bind (json_get v ''type'') as_str"

definition normalized_custom_name :: "(string, custom_tool_param) index_map \<Rightarrow> json \<Rightarrow> custom_tool_param option" where
  "normalized_custom_name m v =
     (if json_kind v = Some ''function''
      then Option.bind (Option.bind (json_get v ''name'') as_str) (im_get m)
      else None)"

definition restore_custom_declaration ::
  "translator_env \<Rightarrow> (string, custom_tool_param) index_map \<Rightarrow> json \<Rightarrow> json" where
  "restore_custom_declaration env m tool =
     (case Option.bind (normalized_custom_name m tool) (\<lambda>p. Option.bind (tv_declaration env p) as_object) of
        None \<Rightarrow> tool
      | Some declaration \<Rightarrow> JObject (im_insert ''type'' (JString ''custom'') declaration))"

definition restore_custom_choice_type :: "(string, custom_tool_param) index_map \<Rightarrow> json \<Rightarrow> json" where
  "restore_custom_choice_type m choice =
     (case choice of
        JObject fields' \<Rightarrow>
          if normalized_custom_name m choice = None then choice
          else JObject (swap_remove ''namespace'' (im_insert ''type'' (JString ''custom'') fields'))
      | _ \<Rightarrow> choice)"

text \<open>\<open>get_mut\<close> followed by an assignment: the value under one key is replaced in place.\<close>

definition json_update :: "string \<Rightarrow> (json \<Rightarrow> json) \<Rightarrow> json_map \<Rightarrow> json_map" where
  "json_update k f m = map (\<lambda>(k', v). (k', if k' = k then f v else v)) m"

definition restore_custom_tool_choice :: "(string, custom_tool_param) index_map \<Rightarrow> json \<Rightarrow> json" where
  "restore_custom_tool_choice m choice =
     (case choice of
        JObject fields' \<Rightarrow>
          if json_kind choice = Some ''allowed_tools''
          then JObject (json_update ''tools'' (\<lambda>ts. case ts of
                 JArray xs \<Rightarrow> JArray (map (restore_custom_choice_type m) xs) | _ \<Rightarrow> ts) fields')
          else restore_custom_choice_type m choice
      | _ \<Rightarrow> choice)"

text \<open>\<open>restore_response_map\<close> of \<open>custom.rs\<close>, on an object and on the nested response or payload.\<close>

fun restore_custom_value :: "translator_env \<Rightarrow> (string, custom_tool_param) index_map \<Rightarrow> json \<Rightarrow> json" where
  "restore_custom_value env m (JObject fields') =
     JObject (map (\<lambda>(k, v). (k,
       if k = ''tools'' then (case v of JArray xs \<Rightarrow> JArray (map (restore_custom_declaration env m) xs) | _ \<Rightarrow> v)
       else if k = ''tool_choice'' then restore_custom_tool_choice m v
       else if k = ''response'' \<or> k = ''payload'' then restore_custom_value env m v
       else v)) fields')"
| "restore_custom_value env m v = v"

text \<open>\<open>namespace.rs\<close>: flat names of calls and choices become namespace and name.\<close>

definition restore_member :: "namespace_map \<Rightarrow> string \<Rightarrow> json \<Rightarrow> json" where
  "restore_member nm kind v =
     (case v of
        JObject m \<Rightarrow>
          if json_kind v \<noteq> Some kind \<or> Option.bind (json_get v ''namespace'') as_str \<noteq> None then v
          else
            (case Option.bind (Option.bind (json_get v ''name'') as_str) (public_member nm) of
               None \<Rightarrow> v
             | Some (namespace, name) \<Rightarrow>
                 JObject (im_insert ''name'' (JString name) (im_insert ''namespace'' (JString namespace) m)))
      | _ \<Rightarrow> v)"

definition restore_call_value :: "namespace_map \<Rightarrow> json \<Rightarrow> json" where
  "restore_call_value nm = restore_member nm ''function_call''"

definition restore_tool_choice :: "namespace_map \<Rightarrow> json \<Rightarrow> json" where
  "restore_tool_choice nm = restore_member nm ''function''"

fun restore_response_value :: "namespace_map \<Rightarrow> json \<Rightarrow> json" where
  "restore_response_value nm (JObject m) =
     restore_call_value nm (JObject (map (\<lambda>(k, v). (k,
       if k = ''tool_choice'' then restore_tool_choice nm v
       else if k = ''item'' then restore_call_value nm v
       else if k = ''response'' \<or> k = ''payload'' then restore_response_value nm v
       else if k = ''output'' then (case v of JArray xs \<Rightarrow> JArray (map (restore_call_value nm) xs) | _ \<Rightarrow> v)
       else v)) m))"
| "restore_response_value nm v = v"

definition restore_response_map :: "namespace_map \<Rightarrow> json_map \<Rightarrow> json_map" where
  "restore_response_map nm m =
     map (\<lambda>(k, v). (k,
       if k = ''tool_choice'' then restore_tool_choice nm v
       else if k = ''item'' then restore_call_value nm v
       else if k = ''response'' \<or> k = ''payload'' then restore_response_value nm v
       else if k = ''output'' then (case v of JArray xs \<Rightarrow> JArray (map (restore_call_value nm) xs) | _ \<Rightarrow> v)
       else v)) m"

definition restore_response_tools ::
  "translator_env \<Rightarrow> responses_tool list option \<Rightarrow> json_map \<Rightarrow> executor_error + json_map" where
  "restore_response_tools env tools rest =
     (case Option.bind (im_get rest ''response'') as_object of
        None \<Rightarrow> Inr rest
      | Some response \<Rightarrow>
          if im_get response ''tools'' = None then Inr rest
          else
            (case tools of
               None \<Rightarrow> Inr rest
             | Some ts \<Rightarrow>
                 (case tv_tools env ts of
                    Inl _ \<Rightarrow> Inl invalid_search
                  | Inr v \<Rightarrow> Inr (json_update ''response'' (\<lambda>_. JObject (im_insert ''tools'' v response)) rest))))"

definition restore_response_choice :: "translation_context \<Rightarrow> json_map \<Rightarrow> json_map" where
  "restore_response_choice ctx rest =
     (case (tc_response_tools ctx, tc_response_tool_choice ctx) of
        (Some _, Some choice) \<Rightarrow>
          json_update ''response'' (\<lambda>v. case v of
            JObject response \<Rightarrow>
              if im_get response ''tool_choice'' = None then v
              else JObject (im_insert ''tool_choice'' (tool_choice_to_json choice) response)
          | _ \<Rightarrow> v) rest
      | _ \<Rightarrow> rest)"

definition restore_stream_event_wire ::
  "translator_env \<Rightarrow> translation_context \<Rightarrow> wire_event \<Rightarrow> executor_error + wire_event" where
  "restore_stream_event_wire env ctx wire =
     and_then (restore_response_tools env (tc_response_tools ctx) (we_rest wire)) (\<lambda>rest.
       let chosen = restore_response_choice ctx rest;
           custom = (case tc_custom_tool_map ctx of
             None \<Rightarrow> chosen | Some m \<Rightarrow> unwrap_or (as_object (restore_custom_value env m (JObject chosen))) chosen);
           named = (case tc_namespace_map ctx of None \<Rightarrow> custom | Some nm \<Rightarrow> restore_response_map nm custom)
       in Inr (wire\<lparr>we_rest := named\<rparr>))"

section \<open>Output items of a round\<close>

definition restore_function_call :: "namespace_map \<Rightarrow> function_tool_call \<Rightarrow> function_tool_call" where
  "restore_function_call nm call =
     (if fc_namespace call \<noteq> None then call
      else
        (case public_member nm (fc_name call) of
           None \<Rightarrow> call
         | Some (namespace, name) \<Rightarrow> call\<lparr>fc_namespace := Some namespace, fc_name := name\<rparr>))"

definition restore_output_items :: "namespace_map option \<Rightarrow> output_item list \<Rightarrow> output_item list" where
  "restore_output_items nm items =
     (case nm of
        None \<Rightarrow> items
      | Some m \<Rightarrow> map (\<lambda>x. case x of OutFunctionCall call \<Rightarrow> OutFunctionCall (restore_function_call m call) | _ \<Rightarrow> x) items)"

text \<open>One item of \<open>normalize_response_output\<close>; the state is whether a search call was seen and the items so far.\<close>

definition normalize_item ::
  "codec \<Rightarrow> translation_context \<Rightarrow> response_status \<Rightarrow> string set \<Rightarrow> bool \<times> output_item list \<Rightarrow> output_item
   \<Rightarrow> tool_error + bool \<times> output_item list" where
  "normalize_item c ctx status unfinished acc item =
     (let (saw, items) = acc;
          keep = (\<lambda>public. items @ (case public of None \<Rightarrow> [] | Some p \<Rightarrow> [OutToolSearchCall p]))
      in case item of
           OutFunctionCall call \<Rightarrow>
             and_then (ensure_function_is_available (is_withheld_function ctx (fc_name call))) (\<lambda>_.
               if context_tool_type ctx (fc_name call) = ToolSearchType then
                 (if saw then Inl InvalidUpstreamToolSearch
                  else and_then (project_synthetic_call c call status (fc_id call \<in> unfinished)) (\<lambda>public.
                         Inr (True, keep public)))
               else if (status = StatusError \<or> status = StatusIncomplete) \<and> fc_id call \<in> unfinished then Inr (saw, items)
               else Inr (saw, items @ [item]))
         | OutToolSearchCall call \<Rightarrow>
             if saw then Inl InvalidUpstreamToolSearch
             else and_then (project_native_call call status) (\<lambda>public. Inr (True, keep public))
         | _ \<Rightarrow> Inr (saw, items @ [item]))"

definition normalize_search_output ::
  "codec \<Rightarrow> translation_context \<Rightarrow> response_status \<Rightarrow> string set \<Rightarrow> output_item list \<Rightarrow> tool_error + output_item list" where
  "normalize_search_output c ctx status unfinished output =
     and_then (run_steps (normalize_item c ctx status unfinished) (False, []) output) (\<lambda>(_, items). Inr items)"

definition normalize_response_output ::
  "codec \<Rightarrow> translation_context \<Rightarrow> response_status \<Rightarrow> string set \<Rightarrow> output_item list \<Rightarrow> executor_error + output_item list" where
  "normalize_response_output c ctx status unfinished output =
     and_then (of_tool_error (normalize_search_output c ctx status unfinished output)) (\<lambda>items.
       Inr (restore_output_items (tc_namespace_map ctx) items))"

definition restore_response_metadata :: "translation_context \<Rightarrow> response_payload \<Rightarrow> response_payload" where
  "restore_response_metadata ctx payload =
     (case tc_response_tools ctx of
        None \<Rightarrow> payload
      | Some tools \<Rightarrow>
          payload\<lparr>rp_tools := Some tools, rp_tool_choice := Some (unwrap_or (tc_response_tool_choice ctx) ChoiceAuto)\<rparr>)"

record translation_outcome =
  to_context :: translation_context
  to_unfinished :: "string set"

definition normalize_response_payload ::
  "codec \<Rightarrow> translation_outcome \<Rightarrow> response_payload \<Rightarrow> executor_error + response_payload" where
  "normalize_response_payload c outcome payload =
     and_then (normalize_response_output c (to_context outcome) (response_status_of_str (rp_status payload))
         (to_unfinished outcome) (rp_output payload)) (\<lambda>items.
       Inr (restore_response_metadata (to_context outcome) (payload\<lparr>rp_output := items\<rparr>)))"

section \<open>Checks on tool-search calls\<close>

datatype search_source = SyntheticSearch | NativeSearch

record search_identity =
  si_source :: search_source
  si_output_index :: u32
  si_call_id :: string

record search_stream_state =
  sn_active_native :: "u32 set"
  sn_identity :: "search_identity option"

definition new_search_stream_state :: search_stream_state where
  "new_search_stream_state = \<lparr>sn_active_native = {}, sn_identity = None\<rparr>"

definition start_tool_search_call ::
  "search_source \<Rightarrow> u32 \<Rightarrow> string \<Rightarrow> search_stream_state \<Rightarrow> executor_error + search_stream_state" where
  "start_tool_search_call source output_index call_id st =
     (if sn_identity st \<noteq> None then Inl invalid_search
      else Inr (st\<lparr>sn_identity := Some \<lparr>si_source = source, si_output_index = output_index, si_call_id = call_id\<rparr>\<rparr>))"

definition observe_tool_search_call ::
  "search_source \<Rightarrow> u32 \<Rightarrow> string \<Rightarrow> search_stream_state \<Rightarrow> executor_error + search_stream_state" where
  "observe_tool_search_call source output_index call_id st =
     (case sn_identity st of
        None \<Rightarrow> start_tool_search_call source output_index call_id st
      | Some identity \<Rightarrow>
          if identity \<noteq> \<lparr>si_source = source, si_output_index = output_index, si_call_id = call_id\<rparr> then Inl invalid_search
          else Inr st)"

definition printed :: "translator_env \<Rightarrow> json \<Rightarrow> executor_error + string" where
  "printed env v = (case tv_print env v of Inl e \<Rightarrow> Inl (JsonError e) | Inr s \<Rightarrow> Inr s)"

definition validate_native_tool_search_frame :: "translator_env \<Rightarrow> event_frame \<Rightarrow> executor_error + tool_search_call" where
  "validate_native_tool_search_frame env f =
     and_then (ok_or (im_get (we_rest (ef_wire f)) ''item'') invalid_search) (\<lambda>item.
     and_then (of_tool_error (strict_native_call (tv_codec env) item)) (\<lambda>call.
     and_then (printed env (ts_arguments call)) (\<lambda>arguments.
     and_then (ensure_function_call_size arguments) (\<lambda>_.
       if ef_type f = OutputItemAdded \<and> (ts_status call \<noteq> SearchInProgress \<or> ts_arguments call \<noteq> JObject [])
       then Inl invalid_search else Inr call))))"

definition track_native_tool_search ::
  "translator_env \<Rightarrow> event_frame \<Rightarrow> search_stream_state \<Rightarrow> executor_error + search_stream_state" where
  "track_native_tool_search env f st =
     (case ef_payload f of
        POutputItemAdded _ TyToolSearchCall i _ _ _ _ \<Rightarrow>
          and_then (validate_native_tool_search_frame env f) (\<lambda>call.
          and_then (resolved_output_index i) (\<lambda>k.
          and_then (start_tool_search_call NativeSearch k (ts_call_id call) st) (\<lambda>st'.
            Inr (st'\<lparr>sn_active_native := insert k (sn_active_native st')\<rparr>))))
      | POutputItemDone _ TyToolSearchCall i _ \<Rightarrow>
          and_then (validate_native_tool_search_frame env f) (\<lambda>call.
          and_then (resolved_output_index i) (\<lambda>k.
          and_then (observe_tool_search_call NativeSearch k (ts_call_id call) st) (\<lambda>st'.
            Inr (st'\<lparr>sn_active_native := (if ts_status call = SearchCompleted then sn_active_native st' - {k}
                                         else insert k (sn_active_native st'))\<rparr>))))
      | _ \<Rightarrow> Inr st)"

definition lifecycle_name :: "event_payload \<Rightarrow> string option" where
  "lifecycle_name p =
     (case p of
        POutputItemAdded _ TyFunctionCall _ name _ _ _ \<Rightarrow> name
      | PFunctionCallArgsDone _ _ _ name _ \<Rightarrow> Some name
      | POutputItemDone _ TyFunctionCall _ item \<Rightarrow> Option.bind (json_get item ''name'') as_str
      | _ \<Rightarrow> None)"

definition terminal_output_item ::
  "translator_env \<Rightarrow> translation_context \<Rightarrow> bool \<Rightarrow> bool \<Rightarrow> json \<Rightarrow> executor_error + bool" where
  "terminal_output_item env ctx finished saw item =
     (if json_kind item = Some ''function_call'' then
        (let name = unwrap_or (Option.bind (json_get item ''name'') as_str) ''''
         in and_then (of_tool_error (ensure_function_is_available (is_withheld_function ctx name))) (\<lambda>_.
              if context_tool_type ctx name \<noteq> ToolSearchType then Inr saw
              else if saw then Inl invalid_search
              else
                and_then (of_tool_error (strict_function_call (tv_codec env) item)) (\<lambda>call.
                and_then (ensure_function_call_size (fc_arguments call)) (\<lambda>_.
                  if finished \<and> fc_status call \<noteq> MessageCompleted then Inl invalid_search else Inr True))))
      else if json_kind item = Some ''tool_search_call'' then
        (if saw then Inl invalid_search
         else
           and_then (of_tool_error (strict_native_call (tv_codec env) item)) (\<lambda>call.
           and_then (printed env (ts_arguments call)) (\<lambda>arguments.
           and_then (ensure_function_call_size arguments) (\<lambda>_.
             if finished \<and> ts_status call \<noteq> SearchCompleted then Inl invalid_search else Inr True))))
      else Inr saw)"

definition validate_search_terminal :: "translator_env \<Rightarrow> translation_context \<Rightarrow> event_frame \<Rightarrow> executor_error + unit" where
  "validate_search_terminal env ctx f =
     (case Option.bind (Option.bind (im_get (we_rest (ef_wire f)) ''response'') (\<lambda>r. json_get r ''output'')) as_array of
        None \<Rightarrow> Inr ()
      | Some output \<Rightarrow>
          and_then (run_steps (terminal_output_item env ctx (ef_type f = ResponseCompleted)) False output) (\<lambda>_. Inr ()))"

definition validate_search_frame :: "translator_env \<Rightarrow> translation_context \<Rightarrow> event_frame \<Rightarrow> executor_error + unit" where
  "validate_search_frame env ctx f =
     and_then
       (case lifecycle_name (ef_payload f) of
          None \<Rightarrow> Inr ()
        | Some name \<Rightarrow> of_tool_error (ensure_function_is_available (is_withheld_function ctx name))) (\<lambda>_.
       case ef_payload f of
         POutputItemDone _ TyFunctionCall _ item \<Rightarrow>
           if map_option (context_tool_type ctx) (Option.bind (json_get item ''name'') as_str) = Some ToolSearchType
           then and_then (of_tool_error (strict_function_call (tv_codec env) item)) (\<lambda>_. Inr ())
           else Inr ()
       | PResponse _ _ _ \<Rightarrow>
           if ef_type f \<in> {ResponseCompleted, ResponseFailed, ResponseIncomplete} then validate_search_terminal env ctx f
           else Inr ()
       | _ \<Rightarrow> Inr ())"

section \<open>The dispatcher\<close>

datatype stream_terminal_state = TerminalOpen | TerminalCompleted | TerminalAborted

record pending_function_call =
  pf_output_index :: u32
  pf_item_id :: "string option"
  pf_frames :: "event_frame list"
  pf_bytes :: usize

datatype active_call = ClientCall tool_translator | GatewayCall

record dispatcher =
  dp_context :: translation_context
  dp_active :: "(u32, active_call) index_map"
  dp_pending :: "(u32, pending_function_call) index_map"
  dp_pending_bytes :: usize
  dp_first_gateway :: "u32 option"
  dp_search :: search_stream_state
  dp_terminal :: stream_terminal_state

definition new_dispatcher :: "translation_context \<Rightarrow> dispatcher" where
  "new_dispatcher ctx =
     \<lparr>dp_context = ctx, dp_active = [], dp_pending = [], dp_pending_bytes = 0, dp_first_gateway = None,
      dp_search = new_search_stream_state, dp_terminal = TerminalOpen\<rparr>"

definition min_option :: "u32 list \<Rightarrow> u32 option" where
  "min_option xs = (case xs of [] \<Rightarrow> None | x # rest \<Rightarrow> Some (fold min rest x))"

definition dispatcher_defer_from :: "dispatcher \<Rightarrow> u32 option" where
  "dispatcher_defer_from d =
     min_option ((case dp_first_gateway d of None \<Rightarrow> [] | Some i \<Rightarrow> [i]) @ map (\<lambda>(_, p). pf_output_index p) (dp_pending d))"

definition unfinished_tool_search_item_ids :: "dispatcher \<Rightarrow> string set" where
  "unfinished_tool_search_item_ids d =
     set (List.map_filter (\<lambda>(_, a). case a of ClientCall t \<Rightarrow> unfinished_tool_search_item_id t | GatewayCall \<Rightarrow> None) (dp_active d))
     \<union> (if tc_tool_search_active (dp_context d) then set (List.map_filter (\<lambda>(_, p). pf_item_id p) (dp_pending d)) else {})"

text \<open>Which translator a call gets; none for the calls the gateway runs itself.\<close>

definition new_translator :: "translation_context \<Rightarrow> string \<Rightarrow> tool_translator option" where
  "new_translator ctx name =
     (case context_tool_type ctx name of
        FunctionType \<Rightarrow> Some FunctionTranslator
      | CodexNamespaceType \<Rightarrow> Some NamespaceTranslator
      | CustomType \<Rightarrow> Some (CustomTranslator None)
      | ShellType \<Rightarrow> if name \<in> tc_gateway_owned_names ctx then None else Some (ShellTranslator None)
      | ToolSearchType \<Rightarrow> Some (SearchTranslator None)
      | _ \<Rightarrow> None)"

type_synonym translated = "executor_error + event_frame list \<times> dispatcher"

definition start_call ::
  "translator_env \<Rightarrow> string \<Rightarrow> string \<Rightarrow> u32 \<Rightarrow> event_frame option \<Rightarrow> accumulated_call option \<Rightarrow> dispatcher \<Rightarrow> translated" where
  "start_call env item_id name output_index original call d =
     (case new_translator (dp_context d) name of
        None \<Rightarrow>
          Inr ([], d\<lparr>dp_active := im_insert output_index GatewayCall (dp_active d),
                    dp_first_gateway := (case dp_first_gateway d of
                       None \<Rightarrow> Some output_index
                     | Some first \<Rightarrow> Some (if output_index < first then output_index else first))\<rparr>)
      | Some t \<Rightarrow>
          and_then (translate_event env (AddedEvent item_id name output_index original) call t) (\<lambda>(fs, t').
          and_then (if context_tool_type (dp_context d) name = ToolSearchType
                    then and_then (ok_or call invalid_search) (\<lambda>a.
                           start_tool_search_call SyntheticSearch output_index (fc_call_id (ac_item a)) (dp_search d))
                    else Inr (dp_search d)) (\<lambda>search.
            Inr (fs, d\<lparr>dp_search := search, dp_active := im_insert output_index (ClientCall t') (dp_active d)\<rparr>))))"

definition buffer_unnamed ::
  "translator_env \<Rightarrow> string \<Rightarrow> u32 \<Rightarrow> event_frame \<Rightarrow> accumulated_call option \<Rightarrow> dispatcher \<Rightarrow> translated" where
  "buffer_unnamed env item_id output_index f call d =
     and_then (printed env (wire_event_to_json (ef_wire f))) (\<lambda>text.
       let bytes = length text
       in if max_pending_function_bytes < usize_saturating_add (dp_pending_bytes d) bytes
          then Inl (StreamError (''unnamed function-call SSE exceeded '' @ show_nat max_pending_function_bytes @ '' buffered bytes''))
          else
            (let pending = unwrap_or (im_get (dp_pending d) output_index)
                   \<lparr>pf_output_index = output_index, pf_item_id = None, pf_frames = [], pf_bytes = 0\<rparr>;
                 known = filter_option (\<lambda>i. i \<noteq> '''') (map_option (\<lambda>a. fc_id (ac_item a)) call);
                 i = (if known \<noteq> None then known
                      else if pf_item_id pending = None \<and> item_id \<noteq> '''' then Some item_id
                      else pf_item_id pending)
             in Inr ([], d\<lparr>dp_pending := im_insert output_index (pending\<lparr>pf_item_id := i, pf_frames := pf_frames pending @ [f],
                              pf_bytes := usize_saturating_add (pf_bytes pending) bytes\<rparr>) (dp_pending d),
                           dp_pending_bytes := usize_saturating_add (dp_pending_bytes d) bytes\<rparr>)))"

definition take_pending :: "u32 \<Rightarrow> dispatcher \<Rightarrow> event_frame list \<times> dispatcher" where
  "take_pending output_index d =
     (case im_get (dp_pending d) output_index of
        None \<Rightarrow> ([], d)
      | Some p \<Rightarrow> (pf_frames p, d\<lparr>dp_pending := im_shift_remove output_index (dp_pending d),
                                dp_pending_bytes := dp_pending_bytes d - pf_bytes p\<rparr>))"

definition translate_delta ::
  "translator_env \<Rightarrow> string \<Rightarrow> u32 \<Rightarrow> event_frame \<Rightarrow> accumulated_call option \<Rightarrow> dispatcher \<Rightarrow> translated" where
  "translate_delta env item_id output_index original call d =
     (case im_get (dp_active d) output_index of
        Some (ClientCall t) \<Rightarrow>
          and_then (translate_event env (DeltaEvent original) call t) (\<lambda>(fs, t').
            Inr (fs, d\<lparr>dp_active := im_insert output_index (ClientCall t') (dp_active d)\<rparr>))
      | Some GatewayCall \<Rightarrow> Inr ([], d)
      | None \<Rightarrow> buffer_unnamed env item_id output_index original call d)"

text \<open>The deltas that waited for the name, replayed to the translator of the call.\<close>

fun replay_deltas ::
  "translator_env \<Rightarrow> string \<Rightarrow> accumulated_call option \<Rightarrow> event_frame list \<Rightarrow> dispatcher \<Rightarrow> translated" where
  "replay_deltas env item_id call [] d = Inr ([], d)"
| "replay_deltas env item_id call (f # fs) d =
     (case ef_payload f of
        PFunctionCallArgsDelta _ _ _ i \<Rightarrow>
          and_then (resolved_output_index i) (\<lambda>k.
          and_then (translate_delta env item_id k f call d) (\<lambda>(gs, d').
          and_then (replay_deltas env item_id call fs d') (\<lambda>(hs, d''). Inr (gs @ hs, d''))))
      | _ \<Rightarrow> replay_deltas env item_id call fs d)"

definition is_added_function :: "event_frame \<Rightarrow> bool" where
  "is_added_function f = (case ef_payload f of POutputItemAdded _ TyFunctionCall _ _ _ _ _ \<Rightarrow> True | _ \<Rightarrow> False)"

definition resolve_pending ::
  "translator_env \<Rightarrow> string \<Rightarrow> string \<Rightarrow> u32 \<Rightarrow> accumulated_call option \<Rightarrow> dispatcher \<Rightarrow> translated" where
  "resolve_pending env item_id name output_index call d =
     (if im_get (dp_active d) output_index \<noteq> None then Inr ([], d)
      else
        (let (pending, d') = take_pending output_index d
         in and_then (start_call env item_id name output_index (find is_added_function pending) call d') (\<lambda>(fs, d'').
            and_then (replay_deltas env item_id call pending d'') (\<lambda>(gs, d'''). Inr (fs @ gs, d''')))))"

definition finish_arguments ::
  "translator_env \<Rightarrow> string \<Rightarrow> string \<Rightarrow> u32 \<Rightarrow> event_frame \<Rightarrow> accumulated_call option \<Rightarrow> dispatcher \<Rightarrow> translated" where
  "finish_arguments env item_id name output_index original call d =
     and_then (resolve_pending env item_id name output_index call d) (\<lambda>(fs, d').
       case im_get (dp_active d') output_index of
         Some (ClientCall t) \<Rightarrow>
           and_then (translate_event env (ArgumentsDoneEvent original) call t) (\<lambda>(gs, t').
             Inr (fs @ gs, d'\<lparr>dp_active := im_insert output_index (ClientCall t') (dp_active d')\<rparr>))
       | Some GatewayCall \<Rightarrow> Inr (fs, d')
       | None \<Rightarrow> Inr (fs @ [original], d'))"

definition finish_call ::
  "translator_env \<Rightarrow> string \<Rightarrow> string \<Rightarrow> u32 \<Rightarrow> event_frame \<Rightarrow> accumulated_call option \<Rightarrow> dispatcher \<Rightarrow> translated" where
  "finish_call env item_id name output_index original call d =
     and_then (resolve_pending env item_id name output_index call d) (\<lambda>(fs, d').
       let removed = d'\<lparr>dp_active := im_shift_remove output_index (dp_active d')\<rparr>
       in case im_get (dp_active d') output_index of
            Some (ClientCall t) \<Rightarrow>
              and_then (translate_event env (DoneEvent original) call t) (\<lambda>(gs, t').
                Inr (fs @ gs,
                     if unfinished_tool_search_item_id t' \<noteq> None
                     then removed\<lparr>dp_active := im_insert output_index (ClientCall t') (dp_active removed)\<rparr>
                     else removed))
          | Some GatewayCall \<Rightarrow> Inr (fs, removed)
          | None \<Rightarrow> Inr (fs @ [original], d'))"

text \<open>Which call an event is about.\<close>

definition route ::
  "translator_env \<Rightarrow> event_frame \<Rightarrow> accumulated_call option \<Rightarrow> dispatcher \<Rightarrow> translated" where
  "route env f call d =
     (case ef_payload f of
        POutputItemAdded item_id TyFunctionCall i (Some name) _ _ _ \<Rightarrow>
          and_then (resolved_output_index i) (\<lambda>k. start_call env item_id name k (Some f) call d)
      | POutputItemAdded item_id TyFunctionCall i None _ _ _ \<Rightarrow>
          and_then (resolved_output_index i) (\<lambda>k. buffer_unnamed env item_id k f call d)
      | PFunctionCallArgsDelta _ _ item_id i \<Rightarrow>
          and_then (resolved_output_index i) (\<lambda>k. translate_delta env item_id k f call d)
      | PFunctionCallArgsDone _ _ item_id name i \<Rightarrow>
          and_then (resolved_output_index i) (\<lambda>k. finish_arguments env item_id name k f call d)
      | POutputItemDone item_id TyFunctionCall i item \<Rightarrow>
          and_then (resolved_output_index i) (\<lambda>k.
            finish_call env item_id (unwrap_or (Option.bind (json_get item ''name'') as_str) '''') k f call d)
      | _ \<Rightarrow> Inr ([f], d))"

definition terminal_after :: "sse_event_type \<Rightarrow> stream_terminal_state \<Rightarrow> stream_terminal_state" where
  "terminal_after t state =
     (if t = ResponseCompleted then TerminalCompleted
      else if t = ResponseFailed \<or> t = ResponseIncomplete then TerminalAborted
      else state)"

definition restore_frame :: "translator_env \<Rightarrow> translation_context \<Rightarrow> event_frame \<Rightarrow> executor_error + event_frame" where
  "restore_frame env ctx f =
     and_then (restore_stream_event_wire env ctx (ef_wire f)) (\<lambda>w. Inr (f\<lparr>ef_wire := w\<rparr>))"

definition dispatcher_translate ::
  "translator_env \<Rightarrow> event_frame \<Rightarrow> accumulated_call option \<Rightarrow> dispatcher \<Rightarrow> executor_error + translation \<times> dispatcher" where
  "dispatcher_translate env f call d =
     and_then (validate_search_frame env (dp_context d) f) (\<lambda>_.
     and_then (track_native_tool_search env f (dp_search d)) (\<lambda>search.
     and_then (route env f call (d\<lparr>dp_search := search, dp_terminal := terminal_after (ef_type f) (dp_terminal d)\<rparr>)) (\<lambda>(fs, d').
     and_then (collect_results (map (restore_frame env (dp_context d')) fs)) (\<lambda>restored.
       Inr (\<lparr>tl_frames = restored, tl_defer_from = dispatcher_defer_from d'\<rparr>, d')))))"

definition dispatcher_validate_json_body :: "translator_env \<Rightarrow> string \<Rightarrow> dispatcher \<Rightarrow> executor_error + unit" where
  "dispatcher_validate_json_body env body d =
     of_tool_error (validate_blocking_response (tv_codec env) body (tc_tool_search_active (dp_context d)) (tc_withheld (dp_context d)))"

definition dispatcher_finish :: "dispatcher \<Rightarrow> executor_error + translation_outcome" where
  "dispatcher_finish d =
     (let unfinished = unfinished_tool_search_item_ids d
      in if dp_terminal d \<noteq> TerminalAborted \<and> (unfinished \<noteq> {} \<or> sn_active_native (dp_search d) \<noteq> {})
         then Inl invalid_search
         else Inr \<lparr>to_context = dp_context d, to_unfinished = unfinished\<rparr>)"

end
