(* ===== verification/Translated_Calls.thy ===== *)
theory Translated_Calls
  imports Dispatcher
begin

text \<open>
  What the client is told about one call. A call is a run of its translator over the events the
  dispatcher routes to it, each with what the accumulator holds of the call by then. The client
  puts the pieces it gets together; the theorems say that this gives exactly the input of a custom
  call and exactly the commands of a shell call, and that it does not matter how the arguments
  were cut into deltas.
\<close>

section \<open>Runs of a translator\<close>

fun translator_run ::
  "translator_env \<Rightarrow> tool_translator \<Rightarrow> (tool_event \<times> accumulated_call option) list
   \<Rightarrow> executor_error + event_frame list \<times> tool_translator" where
  "translator_run env t [] = Inr ([], t)"
| "translator_run env t ((ev, call) # es) =
     and_then (translate_event env ev call t) (\<lambda>(fs, t').
     and_then (translator_run env t' es) (\<lambda>(gs, t''). Inr (fs @ gs, t'')))"

lemma translator_run_append:
  "translator_run env t (es @ es') =
     and_then (translator_run env t es) (\<lambda>(fs, t').
     and_then (translator_run env t' es') (\<lambda>(gs, t''). Inr (fs @ gs, t'')))"
  by (induction es arbitrary: t) (auto simp: and_then_def split: sum.splits)

fun delta_event :: "tool_event \<Rightarrow> bool" where
  "delta_event (DeltaEvent _) = True"
| "delta_event _ = False"

fun ending_event :: "tool_event \<Rightarrow> bool" where
  "ending_event (ArgumentsDoneEvent _) = True"
| "ending_event (DoneEvent _) = True"
| "ending_event _ = False"

lemma indexed_frame_known:
  assumes "sse_event_type_str t = Some n"
  shows "indexed_frame t i entries =
    Inr \<lparr>ef_type = t, ef_payload = PNone,
         ef_wire = \<lparr>we_event_type = Some n, we_sequence_number = None, we_output_index = Some (u64_of_u32 i), we_rest = entries\<rparr>\<rparr>"
  using assms by (simp add: indexed_frame_def synthetic_event_def synthetic_frame_def ok_or_def)

definition wire_string :: "string \<Rightarrow> event_frame \<Rightarrow> string option" where
  "wire_string k f = Option.bind (im_get (we_rest (ef_wire f)) k) as_str"

section \<open>The client's view of a custom call\<close>

text \<open>The text of the deltas put together, the inputs announced as done, the inputs of done items.\<close>

definition custom_text :: "event_frame list \<Rightarrow> string" where
  "custom_text fs = concat (List.map_filter (\<lambda>f. if ef_type f = CustomToolCallInputDelta then wire_string ''delta'' f else None) fs)"

definition custom_inputs :: "event_frame list \<Rightarrow> string list" where
  "custom_inputs fs = List.map_filter (\<lambda>f. if ef_type f = CustomToolCallInputDone then wire_string ''input'' f else None) fs"

definition custom_items :: "event_frame list \<Rightarrow> string list" where
  "custom_items fs =
     List.map_filter (\<lambda>f. if ef_type f = OutputItemDone
       then Option.bind (im_get (we_rest (ef_wire f)) ''item'') (\<lambda>v. Option.bind (json_get v ''input'') as_str) else None) fs"

lemma custom_view_append [simp]:
  "custom_text (fs @ gs) = custom_text fs @ custom_text gs"
  "custom_inputs (fs @ gs) = custom_inputs fs @ custom_inputs gs"
  "custom_items (fs @ gs) = custom_items fs @ custom_items gs"
  by (simp_all add: custom_text_def custom_inputs_def custom_items_def map_filter_append)

lemma custom_view_Nil [simp]:
  "custom_text [] = ''''" "custom_inputs [] = []" "custom_items [] = []"
  by (simp_all add: custom_text_def custom_inputs_def custom_items_def List.map_filter_def)

lemma custom_view_two:
  "custom_text [f, g] = custom_text [f] @ custom_text [g]"
  "custom_inputs [f, g] = custom_inputs [f] @ custom_inputs [g]"
  "custom_items [f, g] = custom_items [f] @ custom_items [g]"
  using custom_view_append [of "[f]" "[g]"] by simp_all

lemma custom_frames_view:
  "custom_delta_frame st d = Inr f \<Longrightarrow> custom_text [f] = d \<and> custom_inputs [f] = [] \<and> custom_items [f] = []"
  "indexed_frame CustomToolCallInputDone i [(''input'', JString x), (''item_id'', y)] = Inr f
   \<Longrightarrow> custom_text [f] = '''' \<and> custom_inputs [f] = [x] \<and> custom_items [f] = []"
  "custom_done_frame st a = Inr f
   \<Longrightarrow> custom_text [f] = '''' \<and> custom_inputs [f] = [] \<and> custom_items [f] = [cs_emitted_input st]"
  "custom_added_frame a = Inr f \<Longrightarrow> custom_text [f] = '''' \<and> custom_inputs [f] = [] \<and> custom_items [f] = []"
  by (auto simp: custom_delta_frame_def custom_done_frame_def custom_added_frame_def indexed_frame_known
      custom_text_def custom_inputs_def custom_items_def wire_string_def List.map_filter_def im_get_def json_get_def)

section \<open>A custom call delivers its input\<close>

lemma partial_custom_input_emitted:
  assumes "partial_custom_input env arguments st = Inr (delta, st')"
  shows "cs_emitted_input st' = cs_emitted_input st \<and> cs_input_done st' = cs_input_done st"
  using assms by (auto simp: partial_custom_input_def Let_def split: option.splits if_splits sum.splits)

lemma incremental_custom_delta_emits:
  assumes "incremental_custom_delta env arguments st = Inr (fs, st')"
  shows "cs_emitted_input st' = cs_emitted_input st @ custom_text fs \<and> custom_inputs fs = [] \<and> custom_items fs = []
    \<and> cs_input_done st' = cs_input_done st"
  using assms
  by (auto simp: incremental_custom_delta_def result_simps custom_frames_view
      split: option.splits dest!: partial_custom_input_emitted)

lemma finish_custom_input_emits:
  assumes "finish_custom_input env arguments st = Inr (fs, st')" "\<not> cs_input_done st"
  shows "cs_emitted_input st' = input_from_arguments (tv_codec env) arguments
    \<and> cs_emitted_input st @ custom_text fs = input_from_arguments (tv_codec env) arguments
    \<and> custom_inputs fs = [input_from_arguments (tv_codec env) arguments] \<and> custom_items fs = [] \<and> cs_input_done st'"
  using assms
  by (auto simp: finish_custom_input_def result_simps Let_def str_strip_prefix_def prefix_def custom_frames_view
      custom_view_two split: if_splits option.splits)

lemma finish_custom_input_again:
  "finish_custom_input env arguments st = Inr (fs, st') \<Longrightarrow> cs_input_done st \<Longrightarrow> fs = [] \<and> st' = st"
  by (simp add: finish_custom_input_def)

lemma custom_deltas_emit:
  assumes "translator_run env (CustomTranslator (Some st)) es = Inr (fs, t)" "\<forall>(ev, _) \<in> set es. delta_event ev"
  shows "\<exists>st'. t = CustomTranslator (Some st') \<and> cs_emitted_input st' = cs_emitted_input st @ custom_text fs
    \<and> custom_inputs fs = [] \<and> custom_items fs = [] \<and> cs_input_done st' = cs_input_done st"
  using assms
proof (induction es arbitrary: st fs)
  case Nil
  then show ?case by (intro exI [of _ st]) auto
next
  case (Cons e es)
  obtain ev call where e: "e = (ev, call)" by (cases e)
  with Cons.prems obtain f where ev: "ev = DeltaEvent f" by (cases ev) auto
  from Cons.prems e obtain gs u hs where one: "translate_event env ev call (CustomTranslator (Some st)) = Inr (gs, u)"
      and rest: "translator_run env u es = Inr (hs, t)" and fs: "fs = gs @ hs"
    by (auto simp: result_simps)
  obtain st1 where u: "u = CustomTranslator (Some st1)"
      and st1: "cs_emitted_input st1 = cs_emitted_input st @ custom_text gs" "custom_inputs gs = []" "custom_items gs = []"
        "cs_input_done st1 = cs_input_done st"
    using one ev by (cases call) (auto simp: translate_custom_def result_simps dest!: incremental_custom_delta_emits)
  show ?case
    using Cons.IH [OF rest [unfolded u]] Cons.prems(2) st1 by (auto simp: fs)
qed

lemma custom_ended_stays:
  assumes "translator_run env (CustomTranslator (Some st)) es = Inr (fs, t)" "\<forall>(ev, _) \<in> set es. ending_event ev"
    and "cs_input_done st"
  shows "custom_text fs = '''' \<and> custom_inputs fs = [] \<and> (\<forall>x \<in> set (custom_items fs). x = cs_emitted_input st)"
  using assms
proof (induction es arbitrary: fs)
  case (Cons e es)
  obtain ev call where e: "e = (ev, call)" by (cases e)
  from Cons.prems e obtain gs u hs where one: "translate_event env ev call (CustomTranslator (Some st)) = Inr (gs, u)"
      and rest: "translator_run env u es = Inr (hs, t)" and fs: "fs = gs @ hs"
    by (auto simp: result_simps)
  have "u = CustomTranslator (Some st) \<and> custom_text gs = '''' \<and> custom_inputs gs = []
      \<and> (\<forall>x \<in> set (custom_items gs). x = cs_emitted_input st)"
    using one Cons.prems(2,3) e
    by (cases call; cases ev)
      (auto simp: translate_custom_def result_simps custom_frames_view dest!: finish_custom_input_again)
  with Cons.IH [of hs] rest Cons.prems show ?case by (auto simp: fs)
qed simp

lemma custom_end_emits:
  assumes "translate_event env ev (Some a) (CustomTranslator (Some st)) = Inr (gs, u)" "ending_event ev" "\<not> cs_input_done st"
  shows "\<exists>st1. u = CustomTranslator (Some st1) \<and> cs_input_done st1
    \<and> cs_emitted_input st @ custom_text gs = input_from_arguments (tv_codec env) (ac_arguments a)
    \<and> cs_emitted_input st1 = input_from_arguments (tv_codec env) (ac_arguments a)
    \<and> custom_inputs gs = [input_from_arguments (tv_codec env) (ac_arguments a)]
    \<and> (\<forall>x \<in> set (custom_items gs). x = input_from_arguments (tv_codec env) (ac_arguments a))"
proof -
  obtain fs st1 where finish: "finish_custom_input env (ac_arguments a) st = Inr (fs, st1)" and u: "u = CustomTranslator (Some st1)"
      and gs: "gs = fs \<or> (\<exists>f. custom_done_frame st1 a = Inr f \<and> gs = fs @ [f])"
    using assms by (cases ev) (auto simp: translate_custom_def result_simps)
  show ?thesis
    using finish_custom_input_emits [OF finish assms(3)] gs u by (auto simp: custom_frames_view)
qed

lemma custom_ends_emit:
  assumes "translator_run env (CustomTranslator (Some st)) es = Inr (fs, t)" "\<forall>(ev, _) \<in> set es. ending_event ev"
    and "\<not> cs_input_done st" and "List.map_filter snd es = a # rest"
  shows "custom_inputs fs = [input_from_arguments (tv_codec env) (ac_arguments a)]
    \<and> cs_emitted_input st @ custom_text fs = input_from_arguments (tv_codec env) (ac_arguments a)
    \<and> (\<forall>x \<in> set (custom_items fs). x = input_from_arguments (tv_codec env) (ac_arguments a))"
  using assms
proof (induction es arbitrary: fs)
  case (Cons e es)
  obtain ev call where e: "e = (ev, call)" by (cases e)
  from Cons.prems e obtain gs u hs where one: "translate_event env ev call (CustomTranslator (Some st)) = Inr (gs, u)"
      and rest: "translator_run env u es = Inr (hs, t)" and fs: "fs = gs @ hs"
    by (auto simp: result_simps)
  show ?case
  proof (cases call)
    case None
    with one e Cons.prems(2) have "u = CustomTranslator (Some st)" "gs = []"
      by (cases ev; auto simp: translate_custom_def result_simps)+
    with Cons.IH [of hs] rest Cons.prems e None show ?thesis by (auto simp: fs List.map_filter_def)
  next
    case (Some b)
    with Cons.prems(4) e have b: "b = a" by (simp add: List.map_filter_def)
    obtain st1 where u: "u = CustomTranslator (Some st1)" and "cs_input_done st1"
        and emitted: "cs_emitted_input st @ custom_text gs = input_from_arguments (tv_codec env) (ac_arguments a)"
        and input: "cs_emitted_input st1 = input_from_arguments (tv_codec env) (ac_arguments a)"
        and ins: "custom_inputs gs = [input_from_arguments (tv_codec env) (ac_arguments a)]"
        and items: "\<forall>x \<in> set (custom_items gs). x = input_from_arguments (tv_codec env) (ac_arguments a)"
      using custom_end_emits [of env ev a st gs u] one Some b e Cons.prems(2,3) by auto
    moreover have "custom_text hs = '''' \<and> custom_inputs hs = [] \<and> (\<forall>x \<in> set (custom_items hs). x = cs_emitted_input st1)"
      using custom_ended_stays [OF rest [unfolded u]] Cons.prems(2) \<open>cs_input_done st1\<close> by simp
    ultimately show ?thesis by (auto simp: fs)
  qed
qed (simp add: List.map_filter_def)

section \<open>It does not matter how the arguments arrive\<close>

lemma complete_prefix_simps [simp]:
  "complete_json_string_prefix (CHR 0x22 # s) = 0"
  "escape_width (CHR 0x5C # s) = None \<Longrightarrow> complete_json_string_prefix (CHR 0x5C # s) = 0"
  "escape_width (CHR 0x5C # s) = Some n \<Longrightarrow>
   complete_json_string_prefix (CHR 0x5C # s) = n + complete_json_string_prefix (drop n (CHR 0x5C # s))"
  by (simp_all add: complete_json_string_prefix.simps(2))

lemma complete_prefix_plain [simp]:
  "b \<noteq> CHR 0x22 \<Longrightarrow> b \<noteq> CHR 0x5C \<Longrightarrow> complete_json_string_prefix (b # s) = Suc (complete_json_string_prefix s)"
  by (simp add: complete_json_string_prefix.simps(2))

lemma escape_width_append: "escape_width s = Some n \<Longrightarrow> escape_width (s @ t) = Some n"
  by (auto simp: escape_width_def byte_at_def nth_append split: if_splits option.splits)

lemma complete_prefix_length: "complete_json_string_prefix s \<le> length s"
proof (induction s rule: complete_json_string_prefix.induct)
  case (2 b s)
  consider "b = CHR 0x22" | n where "b = CHR 0x5C" "escape_width (b # s) = Some n"
    | "b = CHR 0x5C" "escape_width (b # s) = None" | "b \<noteq> CHR 0x22" "b \<noteq> CHR 0x5C"
    by (cases "escape_width (b # s)") auto
  then show ?case
  proof cases
    case (2 n)
    with "2.IH" escape_width_bounds [of "b # s" n] show ?thesis by auto
  qed (use "2.IH" in auto)
qed simp

text \<open>Reading more text resumes where the reading of a part stopped.\<close>

lemma complete_prefix_resumes:
  "complete_json_string_prefix (s @ t) =
     complete_json_string_prefix s + complete_json_string_prefix (drop (complete_json_string_prefix s) s @ t)"
proof (induction s rule: complete_json_string_prefix.induct)
  case (2 b s)
  consider "b = CHR 0x22" | n where "b = CHR 0x5C" "escape_width (b # s) = Some n"
    | "b = CHR 0x5C" "escape_width (b # s) = None" | "b \<noteq> CHR 0x22" "b \<noteq> CHR 0x5C"
    by (cases "escape_width (b # s)") auto
  then show ?case
  proof cases
    case (2 n)
    then have "drop n ((b # s) @ t) = drop n (b # s) @ t"
      using escape_width_bounds [of "b # s" n] drop_append [of n "b # s" t] by simp
    with "2.IH" 2 escape_width_append [of "b # s" n t] show ?thesis by (simp add: add.commute)
  qed (use "2.IH" in auto)
qed simp

lemma escape_width_take: "escape_width s = Some n \<Longrightarrow> escape_width (take n s) = Some n"
  by (auto simp: escape_width_def byte_at_def min_def drop_take split: if_splits option.splits)

lemma complete_prefix_whole:
  "complete_json_string_prefix (take (complete_json_string_prefix s) s) = complete_json_string_prefix s"
proof (induction s rule: complete_json_string_prefix.induct)
  case (2 b s)
  consider "b = CHR 0x22" | n where "b = CHR 0x5C" "escape_width (b # s) = Some n"
    | "b = CHR 0x5C" "escape_width (b # s) = None" | "b \<noteq> CHR 0x22" "b \<noteq> CHR 0x5C"
    by (cases "escape_width (b # s)") auto
  then show ?case
  proof cases
    case (2 n)
    define m where "m = complete_json_string_prefix (drop n (b # s))"
    have n: "0 < n" "n \<le> length (b # s)" using 2 escape_width_bounds [of "b # s" n] by auto
    have m: "complete_json_string_prefix (take m (drop n (b # s))) = m"
      using "2.IH"(1) 2 by (simp add: m_def)
    have "take (n + m) (b # s) = take n (b # s) @ take m (drop n (b # s))"
      by (rule take_add)
    moreover have "escape_width (take n (b # s) @ take m (drop n (b # s))) = Some n"
      using 2 escape_width_take escape_width_append by blast
    moreover obtain r where "take n (b # s) = CHR 0x5C # r"
      using n 2 by (cases n) auto
    moreover have "drop n (take n (b # s) @ take m (drop n (b # s))) = take m (drop n (b # s))"
      using n by simp
    ultimately have "complete_json_string_prefix (take (n + m) (b # s)) = n + m"
      using m by (metis append_Cons complete_prefix_simps(3))
    with 2 show ?thesis by (simp add: m_def)
  qed (use "2.IH" in auto)
qed simp

text \<open>Where the input starts does not change when more arguments arrive.\<close>

lemma white_space_prefix_free: "w \<in> set white_space \<Longrightarrow> w' \<in> set white_space \<Longrightarrow> prefix w w' \<Longrightarrow> w = w'"
proof -
  have "list_all (\<lambda>w. list_all (\<lambda>w'. \<not> prefix w w' \<or> w = w') white_space) white_space"
    by code_simp
  then show "w \<in> set white_space \<Longrightarrow> w' \<in> set white_space \<Longrightarrow> prefix w w' \<Longrightarrow> w = w'"
    by (auto simp: list_all_iff)
qed

lemma strip_one_Some:
  "strip_one white_space s = Some r \<longleftrightarrow> (\<exists>w \<in> set white_space. w \<noteq> [] \<and> s = w @ r)"
proof -
  have unique: "find (\<lambda>w. prefix w s \<and> w \<noteq> []) white_space = Some w"
    if w: "w \<in> set white_space" "w \<noteq> []" "prefix w s" for w
  proof -
    obtain w' where find: "find (\<lambda>w. prefix w s \<and> w \<noteq> []) white_space = Some w'"
      using w by (cases "find (\<lambda>w. prefix w s \<and> w \<noteq> []) white_space") (auto simp: find_None_iff)
    then have "w' \<in> set white_space" "prefix w' s"
      by (auto simp: find_Some_iff)
    then have "w' = w"
      using w prefix_same_cases [of w s w'] white_space_prefix_free by blast
    with find show ?thesis by simp
  qed
  show ?thesis
  proof
    assume "strip_one white_space s = Some r"
    then obtain w where "find (\<lambda>w. prefix w s \<and> w \<noteq> []) white_space = Some w" "str_strip_prefix w s = Some r"
      by (auto simp: strip_one_def bind_eq_Some)
    then show "\<exists>w \<in> set white_space. w \<noteq> [] \<and> s = w @ r"
      by (auto simp: find_Some_iff str_strip_prefix_def prefix_def split: if_splits)
  next
    assume "\<exists>w \<in> set white_space. w \<noteq> [] \<and> s = w @ r"
    then show "strip_one white_space s = Some r"
      using unique by (auto simp: strip_one_def str_strip_prefix_def)
  qed
qed

lemma trim_start_append:
  assumes "str_trim_start s = r" and "strip_one white_space (r @ t) = None"
  shows "str_trim_start (s @ t) = r @ t"
proof -
  have "strip_all white_space (s @ t) = r @ t" if "strip_all white_space s = r" for s
    using that assms(2)
  proof (induction "length s" arbitrary: s rule: less_induct)
    case less
    show ?case
    proof (cases "strip_one white_space s")
      case None
      with less.prems have "s = r" by (simp add: strip_all.simps)
      with less.prems show ?thesis by (simp add: strip_all.simps)
    next
      case (Some s')
      with less.prems have "strip_all white_space s' = r" by (simp add: strip_all.simps [of _ s])
      moreover have "length s' < length s" using Some by (rule strip_one_shorter)
      ultimately have "strip_all white_space (s' @ t) = r @ t"
        using less.hyps less.prems(2) by simp
      moreover have "strip_one white_space (s @ t) = Some (s' @ t)"
        using Some by (auto simp: strip_one_Some)
      ultimately show ?thesis by (simp add: strip_all.simps [of _ "s @ t"])
    qed
  qed
  then show ?thesis using assms(1) by (simp add: str_trim_start_def)
qed

definition visible :: "char \<Rightarrow> bool" where
  "visible b \<longleftrightarrow> b \<in> {CHR ''{'', CHR 0x22, CHR '':'', CHR ''['', CHR '',''}"

lemma strip_one_visible: "visible b \<Longrightarrow> strip_one white_space (b # s) = None"
proof -
  have "list_all (\<lambda>b. list_all (\<lambda>w. w \<noteq> [] \<longrightarrow> hd w \<noteq> b) white_space) [CHR ''{'', CHR 0x22, CHR '':'', CHR ''['', CHR '','']"
    by code_simp
  then show "visible b \<Longrightarrow> strip_one white_space (b # s) = None"
    by (cases "strip_one white_space (b # s)")
      (auto simp: visible_def strip_one_Some list_all_iff append_eq_Cons_conv Cons_eq_append_conv)
qed

lemma strip_lead_append:
  assumes "str_strip_prefix (b # p) (str_trim_start s) = Some r" "visible b"
  shows "str_strip_prefix (b # p) (str_trim_start (s @ t)) = Some (r @ t)"
proof -
  from assms have "str_trim_start s = b # p @ r"
    by (auto simp: str_strip_prefix_def prefix_def split: if_splits)
  then have "str_trim_start (s @ t) = b # p @ r @ t"
    using trim_start_append [of s "b # p @ r" t] strip_one_visible [OF assms(2)] by simp
  then show ?thesis by (simp add: str_strip_prefix_def prefix_def)
qed

lemma strip_lead_suffix: "str_strip_prefix p (str_trim_start s) = Some r \<Longrightarrow> length r \<le> length s"
  using strip_all_length [of white_space s] by (auto simp: str_strip_prefix_def str_trim_start_def prefix_def split: if_splits)

lemma str_trim_start_Nil [simp]: "str_trim_start [] = []"
  using strip_all_length [of white_space "[]"] by (simp add: str_trim_start_def)

lemma str_trim_start_visible: "visible b \<Longrightarrow> str_trim_start (b # s) = b # s"
  by (simp add: str_trim_start_def strip_all.simps [of _ "b # s"] strip_one_visible)

lemma custom_input_start_append:
  assumes "custom_input_start s = Some p"
  shows "custom_input_start (s @ t) = Some p \<and> p \<le> length s"
proof -
  define a where "a = str_trim_start s"
  define b where "b = str_trim_start (unwrap_or (str_strip_prefix ''{}'' a) a)"
  obtain c d e f where c: "str_strip_prefix ''{'' b = Some c"
      and d: "str_strip_prefix ([CHR 0x22] @ ''input'' @ [CHR 0x22]) (str_trim_start c) = Some d"
      and e: "str_strip_prefix '':'' (str_trim_start d) = Some e"
      and f: "str_strip_prefix [CHR 0x22] (str_trim_start e) = Some f" and p: "p = length s - length f"
    using assms by (auto simp: custom_input_start_def Let_def a_def b_def bind_eq_Some)
  have b_is: "b = CHR ''{'' # c"
    using c by (auto simp: str_strip_prefix_def prefix_def split: if_splits)
  have c_ne: "c \<noteq> []"
    using d by (auto simp: str_strip_prefix_def split: if_splits)
  have b_t: "str_trim_start (unwrap_or (str_strip_prefix ''{}'' (str_trim_start (s @ t))) (str_trim_start (s @ t))) = b @ t"
  proof (cases "prefix ''{}'' a")
    case True
    then obtain a' where a': "a = ''{}'' @ a'" by (auto simp: prefix_def)
    have "str_trim_start (s @ t) = a @ t"
      using trim_start_append [of s a t] strip_one_visible [of "CHR ''{''"] by (simp add: a_def [symmetric] a' visible_def)
    moreover have "str_trim_start a' = b"
      using True by (simp add: b_def a' str_strip_prefix_def)
    then have "str_trim_start (a' @ t) = b @ t"
      by (rule trim_start_append) (simp add: b_is strip_one_visible visible_def)
    ultimately show ?thesis by (simp add: a' str_strip_prefix_def)
  next
    case False
    then have "b = str_trim_start a" by (simp add: b_def str_strip_prefix_def)
    also have "\<dots> = a"
      using strip_all_fixed [of white_space s] by (simp add: a_def str_trim_start_def strip_all.simps [of _ "strip_all white_space s"])
    finally have ba: "b = a" .
    have at: "str_trim_start (s @ t) = a @ t"
      using trim_start_append [of s a t] strip_one_visible [of "CHR ''{''"] by (simp add: a_def [symmetric] ba [symmetric] b_is visible_def)
    have "\<not> prefix ''{}'' (a @ t)"
      using False c_ne by (cases c) (auto simp: ba [symmetric] b_is)
    then have "unwrap_or (str_strip_prefix ''{}'' (a @ t)) (a @ t) = a @ t" by (simp add: str_strip_prefix_def)
    moreover have "str_trim_start (a @ t) = a @ t"
      by (simp add: ba [symmetric] b_is str_trim_start_visible visible_def)
    ultimately show ?thesis using at ba by simp
  qed
  have "str_strip_prefix ''{'' (b @ t) = Some (c @ t)"
    by (simp add: b_is str_strip_prefix_def)
  moreover have "str_strip_prefix ([CHR 0x22] @ ''input'' @ [CHR 0x22]) (str_trim_start (c @ t)) = Some (d @ t)"
    using strip_lead_append [of "CHR 0x22" "''input'' @ [CHR 0x22]" c d t] d by (simp add: visible_def)
  moreover have "str_strip_prefix '':'' (str_trim_start (d @ t)) = Some (e @ t)"
    using strip_lead_append [of "CHR '':''" "[]" d e t] e by (simp add: visible_def)
  moreover have "str_strip_prefix [CHR 0x22] (str_trim_start (e @ t)) = Some (f @ t)"
    using strip_lead_append [of "CHR 0x22" "[]" e f t] f by (simp add: visible_def)
  ultimately show ?thesis
    unfolding custom_input_start_def Let_def b_t by (simp add: p)
qed

text \<open>What is asked of the string reader: complete pieces may be read one by one.\<close>

definition reads_piecewise :: "translator_env \<Rightarrow> bool" where
  "reads_piecewise env \<longleftrightarrow>
     (\<forall>a b x y. complete_json_string_prefix a = length a \<longrightarrow> decode_body env a = Inr x \<longrightarrow> decode_body env b = Inr y
       \<longrightarrow> decode_body env (a @ b) = Inr (x @ y))"

lemma reads_piecewiseD:
  "reads_piecewise env \<Longrightarrow> complete_json_string_prefix a = length a \<Longrightarrow> decode_body env a = Inr x \<Longrightarrow> decode_body env b = Inr y
   \<Longrightarrow> decode_body env (a @ b) = Inr (x @ y)"
  by (auto simp: reads_piecewise_def)

lemma custom_delta_frame_ok: "\<exists>f. custom_delta_frame st x = Inr f"
  by (simp add: custom_delta_frame_def indexed_frame_known)

text \<open>One delta in closed form, once the input has started at \<open>p\<close>.\<close>

lemma incremental_reading:
  assumes "or_else (cs_input_start st) (custom_input_start a) = Some p"
    and "cur = (if cs_input_start st = None then p else cs_input_cursor st)" and "p \<le> cur" "cur \<le> length a"
    and "n = complete_json_string_prefix (drop cur a)" and "length a \<le> max_pending_function_bytes"
  shows "incremental_custom_delta env a st = Inr (fs, st') \<longleftrightarrow>
    (\<exists>x. (if n = 0 then x = '''' else decode_body env (take n (drop cur a)) = Inr x)
       \<and> st' = st\<lparr>cs_input_start := Some p, cs_input_cursor := cur + n, cs_emitted_input := cs_emitted_input st @ x\<rparr>
       \<and> (if x = '''' then fs = [] else \<exists>f. custom_delta_frame st x = Inr f \<and> fs = [f]))"
proof -
  have n: "cur + n \<le> length a"
    using complete_prefix_length [of "drop cur a"] assms(4,5) by simp
  with assms(6) have sat: "usize_saturating_add cur n = cur + n"
    by (simp add: usize_saturating_add_def usize_max_def max_pending_function_bytes_def)
  have frame: "custom_delta_frame (st\<lparr>cs_input_start := p', cs_input_cursor := c', cs_emitted_input := e'\<rparr>) x = custom_delta_frame st x"
    "custom_delta_frame (st\<lparr>cs_input_start := p', cs_input_cursor := c'\<rparr>) x = custom_delta_frame st x"
    "custom_delta_frame (st\<lparr>cs_input_cursor := c'\<rparr>) x = custom_delta_frame st x" for p' c' e' x
    by (simp_all add: custom_delta_frame_def)
  have size: "ensure_function_call_size a = Inr ()"
    using assms(6) by (simp add: ensure_function_call_size_def)
  define st1 where "st1 = (if cs_input_start st = None then st\<lparr>cs_input_start := Some p, cs_input_cursor := p\<rparr> else st)"
  have st1: "cs_input_cursor st1 = cur" "cs_emitted_input st1 = cs_emitted_input st"
      "st1 = st\<lparr>cs_input_start := Some p, cs_input_cursor := cur\<rparr>"
    using assms(1,2) by (auto simp: st1_def or_else_def split: option.splits)
  have partial_eq: "partial_custom_input env a st =
      (if n = 0 then Inr (None, st1)
       else case decode_body env (take n (drop cur a)) of
          Inl e \<Rightarrow> Inl (StreamError (''invalid custom tool input string: '' @ e))
        | Inr delta \<Rightarrow> Inr (if delta = '''' then None else Some delta, st1\<lparr>cs_input_cursor := cur + n\<rparr>))"
    unfolding partial_custom_input_def assms(1) option.case st1_def [symmetric] Let_def st1(1) assms(5) [symmetric] sat
    using assms(3,4) by simp
  show ?thesis
    using custom_delta_frame_ok [of st]
    by (auto simp: incremental_custom_delta_def size partial_eq result_simps st1(3) frame split: sum.splits if_splits)
qed

lemma incremental_size: "incremental_custom_delta env a st = Inr (fs, st') \<Longrightarrow> length a \<le> max_pending_function_bytes"
  by (auto simp: incremental_custom_delta_def ensure_function_call_size_def split: if_splits)

lemma incremental_waiting:
  assumes "or_else (cs_input_start st) (custom_input_start a) = None" "length a \<le> max_pending_function_bytes"
  shows "incremental_custom_delta env a st = Inr ([], st)"
  using assms by (simp add: incremental_custom_delta_def partial_custom_input_def ensure_function_call_size_def)

lemma incremental_resumes:
  assumes law: "reads_piecewise env" and fresh: "cs_input_start st = None"
    and one: "incremental_custom_delta env s st = Inr (fs, st1)"
    and two: "incremental_custom_delta env (s @ t) st1 = Inr (gs, st2)"
  shows "\<exists>hs. incremental_custom_delta env (s @ t) st = Inr (hs, st2)"
proof (cases "custom_input_start s")
  case None
  then have "st1 = st"
    using incremental_waiting [of st s env] fresh one incremental_size [OF one] by simp
  with two show ?thesis by auto
next
  case (Some p)
  have sizes: "length s \<le> max_pending_function_bytes" "length (s @ t) \<le> max_pending_function_bytes"
    using incremental_size [OF one] incremental_size [OF two] by simp_all
  have p: "custom_input_start (s @ t) = Some p" "p \<le> length s"
    using custom_input_start_append [OF Some] by auto
  define n where "n = complete_json_string_prefix (drop p s)"
  obtain x where x: "if n = 0 then x = '''' else decode_body env (take n (drop p s)) = Inr x"
      and st1: "st1 = st\<lparr>cs_input_start := Some p, cs_input_cursor := p + n, cs_emitted_input := cs_emitted_input st @ x\<rparr>"
    using one incremental_reading [of st s p p n env fs st1] Some fresh p(2) sizes(1) by (auto simp: n_def)
  have pn: "p + n \<le> length s"
    using complete_prefix_length [of "drop p s"] p(2) by (simp add: n_def)
  define m where "m = complete_json_string_prefix (drop (p + n) (s @ t))"
  have started: "or_else (cs_input_start st1) (custom_input_start (s @ t)) = Some p"
      "p + n = (if cs_input_start st1 = None then p else cs_input_cursor st1)"
    by (simp_all add: st1)
  have within: "p \<le> p + n" "p + n \<le> length (s @ t)" using pn by simp_all
  obtain y where y: "if m = 0 then y = '''' else decode_body env (take m (drop (p + n) (s @ t))) = Inr y"
      and st2: "st2 = st1\<lparr>cs_input_start := Some p, cs_input_cursor := p + n + m, cs_emitted_input := cs_emitted_input st1 @ y\<rparr>"
    using incremental_reading [of st1 "s @ t" p "p + n" m env gs st2, THEN iffD1, OF started within m_def sizes(2) two] by blast
  have dropped: "drop p (s @ t) = drop p s @ t" using p(2) by simp
  have dropped_more: "drop n (drop p (s @ t)) = drop (p + n) (s @ t)" by (simp only: drop_drop add.commute)
  have parts: "drop (p + n) (s @ t) = drop n (drop p s) @ t"
    using pn dropped_more dropped drop_append [of n "drop p s" t] by simp
  have whole: "complete_json_string_prefix (drop p (s @ t)) = n + m"
    using complete_prefix_resumes [of "drop p s" t, folded n_def] by (simp only: dropped parts [symmetric] m_def)
  have taken: "take (n + m) (drop p (s @ t)) = take n (drop p s) @ take m (drop (p + n) (s @ t))"
  proof -
    have "take n (drop p (s @ t)) = take n (drop p s)" using pn dropped by simp
    then show ?thesis by (simp only: take_add dropped_more)
  qed
  have complete: "complete_json_string_prefix (take n (drop p s)) = length (take n (drop p s))"
    using complete_prefix_whole [of "drop p s"] pn by (simp add: n_def)
  have decoded: "if n + m = 0 then x @ y = '''' else decode_body env (take (n + m) (drop p (s @ t))) = Inr (x @ y)"
    using x y reads_piecewiseD [OF law complete] unfolding taken by (cases "n = 0"; cases "m = 0") auto
  obtain f where "custom_delta_frame st (x @ y) = Inr f" using custom_delta_frame_ok by blast
  then have "\<exists>z. (if n + m = 0 then z = '''' else decode_body env (take (n + m) (drop p (s @ t))) = Inr z)
      \<and> st2 = st\<lparr>cs_input_start := Some p, cs_input_cursor := p + (n + m), cs_emitted_input := cs_emitted_input st @ z\<rparr>
      \<and> (if z = '''' then (if x @ y = '''' then [] else [f]) = []
         else \<exists>g. custom_delta_frame st z = Inr g \<and> (if x @ y = '''' then [] else [f]) = [g])"
    using decoded by (intro exI [of _ "x @ y"]) (auto simp: st1 st2 add.assoc simp del: drop_append take_append)
  moreover have "or_else (cs_input_start st) (custom_input_start (s @ t)) = Some p"
      "p = (if cs_input_start st = None then p else cs_input_cursor st)" "p \<le> length (s @ t)"
    using fresh p by simp_all
  ultimately show ?thesis
    using incremental_reading [of st "s @ t" p p "n + m" env, OF _ _ le_refl _ whole [symmetric] sizes(2)] by blast
qed

definition delta_events :: "(event_frame \<times> accumulated_call) list \<Rightarrow> (tool_event \<times> accumulated_call option) list" where
  "delta_events ds = map (\<lambda>(f, a). (DeltaEvent f, Some a)) ds"

lemma custom_delta_run:
  "translator_run env (CustomTranslator (Some st)) (delta_events [(f, a)]) =
     and_then (incremental_custom_delta env (ac_arguments a) st) (\<lambda>(fs, st'). Inr (fs, CustomTranslator (Some st')))"
  by (simp add: delta_events_def translate_custom_def and_then_def split: sum.splits)

lemma custom_deltas_run_fresh:
  assumes "reads_piecewise env" "cs_input_start st = None"
    and "translator_run env (CustomTranslator (Some st)) (delta_events ds) = Inr (fs, t)"
    and "ds \<noteq> []" "successively (\<lambda>a b. prefix (ac_arguments a) (ac_arguments b)) (map snd ds)"
  shows "\<exists>gs st'. incremental_custom_delta env (ac_arguments (snd (last ds))) st = Inr (gs, st') \<and> t = CustomTranslator (Some st')"
  using assms(3-5)
proof (induction ds arbitrary: fs t rule: rev_induct)
  case (snoc d ds)
  show ?case
  proof (cases "ds = []")
    case True
    with snoc.prems show ?thesis by (cases d) (auto simp: custom_delta_run result_simps)
  next
    case False
    obtain f a where d: "d = (f, a)" by (cases d)
    from snoc.prems(1) obtain gs u hs where before: "translator_run env (CustomTranslator (Some st)) (delta_events ds) = Inr (gs, u)"
        and now: "translator_run env u (delta_events [(f, a)]) = Inr (hs, t)"
      by (auto simp: delta_events_def translator_run_append result_simps d)
    have chain: "successively (\<lambda>a b. prefix (ac_arguments a) (ac_arguments b)) (map snd ds)"
        "prefix (ac_arguments (snd (last ds))) (ac_arguments a)"
      using snoc.prems(3) False by (auto simp: successively_append_iff d last_map)
    obtain gs' st1 where st1: "incremental_custom_delta env (ac_arguments (snd (last ds))) st = Inr (gs', st1)"
        and u: "u = CustomTranslator (Some st1)"
      using snoc.IH [OF before False chain(1)] by blast
    obtain st2 where st2: "incremental_custom_delta env (ac_arguments a) st1 = Inr (hs, st2)" "t = CustomTranslator (Some st2)"
      using now by (auto simp: u custom_delta_run result_simps)
    obtain r where r: "ac_arguments a = ac_arguments (snd (last ds)) @ r" using chain(2) by (auto simp: prefix_def)
    from incremental_resumes [OF assms(1,2) st1] st2 show ?thesis by (auto simp: d r)
  qed
qed simp

text \<open>
  C14: The pieces of a custom call say exactly its input. However the events of the call arrive,
  once its arguments are complete the deltas the client got put together, the input announced as
  done and the input of the finished item are all the input that the arguments hold, and the done
  event is sent once.
\<close>

theorem custom_input_is_delivered_exactly:
  assumes "translator_run env (CustomTranslator None) ((AddedEvent item_id name k original, started) # deltas @ ends) = Inr (fs, t)"
    and "\<forall>(ev, _) \<in> set deltas. delta_event ev" "\<forall>(ev, _) \<in> set ends. ending_event ev"
    and "List.map_filter snd ends = call # later"
  shows "custom_text fs = input_from_arguments (tv_codec env) (ac_arguments call)
    \<and> custom_inputs fs = [input_from_arguments (tv_codec env) (ac_arguments call)]
    \<and> (\<forall>x \<in> set (custom_items fs). x = input_from_arguments (tv_codec env) (ac_arguments call))"
proof -
  define st where "st = custom_started item_id k started"
  obtain as ds es st1 where fs: "fs = as @ ds @ es"
      and as: "(case started of None \<Rightarrow> Inr [] | Some a \<Rightarrow> and_then (custom_added_frame a) (\<lambda>f. Inr [f])) = Inr as"
      and ds: "translator_run env (CustomTranslator (Some st)) deltas = Inr (ds, st1)"
      and es: "translator_run env st1 ends = Inr (es, t)"
    using assms(1) by (auto simp: translate_custom_def result_simps translator_run_append st_def)
  have "custom_text as = '''' \<and> custom_inputs as = [] \<and> custom_items as = []"
    using as by (cases started) (auto simp: result_simps custom_frames_view)
  moreover obtain st' where st': "st1 = CustomTranslator (Some st')" "cs_emitted_input st' = custom_text ds" "custom_inputs ds = []"
      "custom_items ds = []" "\<not> cs_input_done st'"
    using custom_deltas_emit [OF ds assms(2)] by (auto simp: st_def custom_started_def)
  ultimately show ?thesis
    using custom_ends_emit [OF es [unfolded st'(1)] assms(3) st'(5) assms(4)] by (auto simp: fs)
qed

text \<open>
  C19: It does not matter how the arguments of a custom call were cut. When the arguments held at
  each delta extend the ones before, the pieces the client got put together, and the state of the
  translator, are those of a single delta that brings all the arguments at once.
\<close>

theorem custom_input_does_not_depend_on_deltas:
  assumes "reads_piecewise env"
    and "translator_run env (CustomTranslator (Some (custom_started item_id k started))) (delta_events ds) = Inr (fs, t)"
    and "ds \<noteq> []" "successively (\<lambda>a b. prefix (ac_arguments a) (ac_arguments b)) (map snd ds)"
  shows "\<exists>gs. translator_run env (CustomTranslator (Some (custom_started item_id k started))) (delta_events [last ds]) = Inr (gs, t)
    \<and> custom_text gs = custom_text fs"
proof -
  let ?st = "custom_started item_id k started"
  obtain gs st' where step: "incremental_custom_delta env (ac_arguments (snd (last ds))) ?st = Inr (gs, st')"
      and t: "t = CustomTranslator (Some st')"
    using custom_deltas_run_fresh [OF assms(1) _ assms(2-4)] by (auto simp: custom_started_def)
  have "\<forall>(ev, _) \<in> set (delta_events ds). delta_event ev"
    by (auto simp: delta_events_def)
  then have "cs_emitted_input st' = custom_text fs"
    using custom_deltas_emit [OF assms(2)] t by (auto simp: custom_started_def)
  moreover have "cs_emitted_input st' = custom_text gs"
    using incremental_custom_delta_emits [OF step] by (simp add: custom_started_def)
  moreover have "translator_run env (CustomTranslator (Some ?st)) (delta_events [last ds]) = Inr (gs, t)"
    using step t by (cases "last ds") (simp add: custom_delta_run)
  ultimately show ?thesis by auto
qed

text \<open>A concrete environment: text without escapes, and the one object the examples end with.\<close>

definition in_quotes :: "string \<Rightarrow> string" where
  "in_quotes s = [CHR 0x22] @ s @ [CHR 0x22]"

definition plain_text_env :: "string \<Rightarrow> json \<Rightarrow> translator_env" where
  "plain_text_env text v =
     \<lparr>tv_codec = plain_codec\<lparr>cd_parse := \<lambda>s. if s = text then Some v else None\<rparr>,
      tv_print = (\<lambda>_. Inr ''{}''), tv_string = (\<lambda>s. Inr (butlast (tl s))), tv_action = (\<lambda>_. Inl ''no action''),
      tv_next_key = (\<lambda>_. None), tv_next_value = (\<lambda>_. None), tv_item = (\<lambda>_. Inr JNull), tv_tools = (\<lambda>_. Inr JNull),
      tv_declaration = (\<lambda>_. None)\<rparr>"

definition sample_call :: "string \<Rightarrow> accumulated_call" where
  "sample_call arguments =
     \<lparr>ac_item = \<lparr>fc_id = ''fc_1'', fc_call_id = ''call_1'', fc_name = ''patch'', fc_namespace = None,
                 fc_arguments = arguments, fc_status = MessageCompleted\<rparr>,
      ac_arguments = arguments, ac_output_index = 0\<rparr>"

definition sample_frame :: event_frame where
  "sample_frame = \<lparr>ef_type = FunctionCallArgumentsDelta, ef_payload = PNone,
     ef_wire = \<lparr>we_event_type = None, we_sequence_number = None, we_output_index = None, we_rest = []\<rparr>\<rparr>"

definition input_so_far :: "string \<Rightarrow> string" where
  "input_so_far s = ''{'' @ in_quotes ''input'' @ '':'' @ [CHR 0x22] @ s"

lemma plain_text_reads_piecewise: "reads_piecewise (plain_text_env s v)"
  by (simp add: reads_piecewise_def decode_body_def plain_text_env_def butlast_append)

lemma input_so_far_start: "custom_input_start (input_so_far s) = Some 10"
proof -
  have "custom_input_start (input_so_far '''') = Some 10" by code_simp
  then show ?thesis using custom_input_start_append [of "input_so_far ''''" 10 s] by (simp add: input_so_far_def in_quotes_def)
qed

lemma input_so_far_parts:
  "length (input_so_far s) = 10 + length s" "drop 10 (input_so_far s) = s" "drop (10 + length s) (input_so_far (s @ r)) = r"
proof -
  show body: "drop 10 (input_so_far s) = s" for s by (simp add: input_so_far_def in_quotes_def)
  show "drop (10 + length s) (input_so_far (s @ r)) = r"
    using body [of "s @ r"] by (metis add.commute append_eq_conv_conj drop_drop)
qed (simp add: input_so_far_def in_quotes_def)

lemma small_call: "length s \<le> 1000 \<Longrightarrow> ensure_function_call_size s = Inr ()"
  by (simp add: ensure_function_call_size_def max_pending_function_bytes_def)

lemma plain_decode: "decode_body (plain_text_env t v) s = Inr s"
  by (simp add: decode_body_def plain_text_env_def butlast_append)

lemma plain_delta:
  assumes "cs_input_start st = None" "complete_json_string_prefix s = length s" "s \<noteq> ''''" "length s \<le> 900"
  shows "\<exists>f. incremental_custom_delta (plain_text_env t v) (input_so_far s) st =
    Inr ([f], st\<lparr>cs_input_start := Some 10, cs_input_cursor := 10 + length s, cs_emitted_input := cs_emitted_input st @ s\<rparr>)"
proof -
  obtain f where f: "custom_delta_frame st s = Inr f" using custom_delta_frame_ok by blast
  have "length (input_so_far s) \<le> max_pending_function_bytes"
    using assms(4) by (simp add: input_so_far_parts max_pending_function_bytes_def)
  then have "incremental_custom_delta (plain_text_env t v) (input_so_far s) st =
      Inr ([f], st\<lparr>cs_input_start := Some 10, cs_input_cursor := 10 + length s, cs_emitted_input := cs_emitted_input st @ s\<rparr>)"
    by (intro incremental_reading [of st "input_so_far s" 10 10 "length s", THEN iffD2])
      (simp_all add: assms f plain_decode input_so_far_start input_so_far_parts)
  then show ?thesis by blast
qed

lemma plain_next_delta:
  assumes "cs_input_start st = Some 10" "cs_input_cursor st = 10 + length s"
    and "complete_json_string_prefix r = length r" "r \<noteq> ''''" "length s + length r \<le> 900"
  shows "\<exists>f. incremental_custom_delta (plain_text_env t v) (input_so_far (s @ r)) st =
    Inr ([f], st\<lparr>cs_input_start := Some 10, cs_input_cursor := 10 + length s + length r, cs_emitted_input := cs_emitted_input st @ r\<rparr>)"
proof -
  obtain f where f: "custom_delta_frame st r = Inr f" using custom_delta_frame_ok by blast
  have "length (input_so_far (s @ r)) \<le> max_pending_function_bytes"
    using assms(5) by (simp add: input_so_far_parts max_pending_function_bytes_def)
  then have "incremental_custom_delta (plain_text_env t v) (input_so_far (s @ r)) st =
      Inr ([f], st\<lparr>cs_input_start := Some 10, cs_input_cursor := 10 + length s + length r, cs_emitted_input := cs_emitted_input st @ r\<rparr>)"
    by (intro incremental_reading [of st "input_so_far (s @ r)" 10 "10 + length s" "length r", THEN iffD2])
      (simp_all add: assms f plain_decode input_so_far_start input_so_far_parts)
  then show ?thesis by blast
qed

theorem custom_input_does_not_depend_on_deltas_witness:
  "\<exists>fs gs t. translator_run (plain_text_env '''' JNull) (CustomTranslator (Some (custom_started ''fc_1'' 0 None)))
       (delta_events [(sample_frame, sample_call (input_so_far ''ab'')), (sample_frame, sample_call (input_so_far (''ab'' @ ''c'')))])
       = Inr (fs, t)
     \<and> translator_run (plain_text_env '''' JNull) (CustomTranslator (Some (custom_started ''fc_1'' 0 None)))
       (delta_events [(sample_frame, sample_call (input_so_far (''ab'' @ ''c'')))]) = Inr (gs, t)
     \<and> custom_text gs = custom_text fs \<and> length fs = 2"
proof -
  let ?env = "plain_text_env '''' JNull" and ?st = "custom_started ''fc_1'' 0 None"
  let ?at = "?st\<lparr>cs_input_start := Some 10, cs_input_cursor := 10 + length ''ab'', cs_emitted_input := cs_emitted_input ?st @ ''ab''\<rparr>"
  have "complete_json_string_prefix ''ab'' = length ''ab''" "complete_json_string_prefix ''c'' = length ''c''" by code_simp+
  then obtain f g where f: "incremental_custom_delta ?env (input_so_far ''ab'') ?st = Inr ([f], ?at)"
      and g: "incremental_custom_delta ?env (input_so_far (''ab'' @ ''c'')) ?at = Inr ([g], ?at\<lparr>cs_input_start := Some 10,
        cs_input_cursor := 10 + length ''ab'' + length ''c'', cs_emitted_input := cs_emitted_input ?at @ ''c''\<rparr>)"
    using plain_delta [of ?st "''ab''" "''''" JNull] plain_next_delta [of ?at "''ab''" "''c''" "''''" JNull]
    by (auto simp: custom_started_def)
  have ends: "ac_arguments (sample_call s) = s" for s by (simp add: sample_call_def)
  have "\<exists>t. translator_run ?env (CustomTranslator (Some ?st))
       (delta_events [(sample_frame, sample_call (input_so_far ''ab'')), (sample_frame, sample_call (input_so_far (''ab'' @ ''c'')))])
       = Inr ([f, g], t)"
    using f g by (simp add: delta_events_def translate_custom_def ends del: append.simps)
  then obtain t where run: "translator_run ?env (CustomTranslator (Some ?st))
       (delta_events [(sample_frame, sample_call (input_so_far ''ab'')), (sample_frame, sample_call (input_so_far (''ab'' @ ''c'')))])
       = Inr ([f, g], t)" by blast
  have "successively (\<lambda>a b. prefix (ac_arguments a) (ac_arguments b))
      (map snd [(sample_frame, sample_call (input_so_far ''ab'')), (sample_frame, sample_call (input_so_far (''ab'' @ ''c'')))])"
    by (simp add: ends input_so_far_def in_quotes_def)
  from custom_input_does_not_depend_on_deltas [OF plain_text_reads_piecewise run _ this] run show ?thesis by auto
qed

theorem custom_input_is_delivered_exactly_witness:
  "\<exists>fs t. translator_run (plain_text_env (input_so_far ''abc'' @ [CHR 0x22, CHR ''}'']) (JObject [(''input'', JString ''abc'')]))
      (CustomTranslator None)
      ((AddedEvent ''fc_1'' ''patch'' 0 None, None)
       # [(DeltaEvent sample_frame, Some (sample_call (input_so_far ''ab'')))]
       @ [(ArgumentsDoneEvent sample_frame, Some (sample_call (input_so_far ''abc'' @ [CHR 0x22, CHR ''}''])))]) = Inr (fs, t)
    \<and> custom_text fs = ''abc'' \<and> custom_inputs fs = [''abc'']"
proof -
  let ?all = "input_so_far ''abc'' @ [CHR 0x22, CHR ''}'']"
  let ?env = "plain_text_env ?all (JObject [(''input'', JString ''abc'')])" and ?st = "custom_started ''fc_1'' 0 None"
  have ends: "ac_arguments (sample_call s) = s" for s by (simp add: sample_call_def)
  have "complete_json_string_prefix ''ab'' = length ''ab''" by code_simp
  then obtain f where f: "incremental_custom_delta ?env (input_so_far ''ab'') ?st = Inr ([f],
      ?st\<lparr>cs_input_start := Some 10, cs_input_cursor := 10 + length ''ab'', cs_emitted_input := cs_emitted_input ?st @ ''ab''\<rparr>)"
    using plain_delta [of ?st "''ab''"] by (auto simp: custom_started_def)
  have input: "input_from_arguments (tv_codec ?env) ?all = ''abc''"
    by (simp add: input_from_arguments_def try_input_from_arguments_def plain_text_env_def im_get_def)
  have "ensure_function_call_size ?all = Inr ()"
    by (rule small_call) (simp add: input_so_far_def in_quotes_def)
  then have "\<exists>gs st'. finish_custom_input ?env ?all (?st\<lparr>cs_input_start := Some 10, cs_input_cursor := 10 + length ''ab'',
      cs_emitted_input := cs_emitted_input ?st @ ''ab''\<rparr>) = Inr (gs, st')"
    using custom_delta_frame_ok
    by (auto simp: finish_custom_input_def input custom_started_def str_strip_prefix_def indexed_frame_known result_simps Let_def)
  then obtain gs st' where "finish_custom_input ?env ?all (?st\<lparr>cs_input_start := Some 10, cs_input_cursor := 10 + length ''ab'',
      cs_emitted_input := cs_emitted_input ?st @ ''ab''\<rparr>) = Inr (gs, st')" by blast
  with f have "\<exists>fs t. translator_run ?env (CustomTranslator None)
      ((AddedEvent ''fc_1'' ''patch'' 0 None, None) # [(DeltaEvent sample_frame, Some (sample_call (input_so_far ''ab'')))]
       @ [(ArgumentsDoneEvent sample_frame, Some (sample_call ?all))]) = Inr (fs, t)"
    by (simp add: translate_custom_def ends)
  then obtain fs t where run: "translator_run ?env (CustomTranslator None)
      ((AddedEvent ''fc_1'' ''patch'' 0 None, None) # [(DeltaEvent sample_frame, Some (sample_call (input_so_far ''ab'')))]
       @ [(ArgumentsDoneEvent sample_frame, Some (sample_call ?all))]) = Inr (fs, t)" by blast
  from custom_input_is_delivered_exactly [OF run] run show ?thesis
    by (auto simp: List.map_filter_def ends input)
qed

end
