(* ===== verification/Translated_Commands.thy ===== *)
theory Translated_Commands
  imports Translated_Calls
begin

text \<open>
  What the client is told about a shell call: folding the command events it gets gives, at every
  moment, the commands the translator has read, and at the end exactly the commands of the action.
\<close>

section \<open>The client's view of a shell call\<close>

text \<open>
  A client that keeps a list of commands: a command is added at the end, a delta extends a known
  command, a done event must repeat what was put together. Other events do not concern it.
\<close>

definition command_step :: "event_frame \<Rightarrow> string list \<Rightarrow> string list option" where
  "command_step f cs =
     (case map_option unat (Option.bind (im_get (we_rest (ef_wire f)) ''command_index'') as_u64) of
        None \<Rightarrow> Some cs
      | Some k \<Rightarrow>
          if ef_type f = ShellCallCommandAdded then (if k = length cs then Some (cs @ ['''']) else None)
          else if length cs \<le> k then None
          else if ef_type f = ShellCallCommandDelta
          then map_option (\<lambda>d. cs[k := cs ! k @ d]) (wire_string ''delta'' f)
          else if wire_string ''command'' f = Some (cs ! k) then Some cs else None)"

fun client_commands :: "string list \<Rightarrow> event_frame list \<Rightarrow> string list option" where
  "client_commands cs [] = Some cs"
| "client_commands cs (f # fs) = Option.bind (command_step f cs) (\<lambda>cs'. client_commands cs' fs)"

lemma client_commands_append:
  "client_commands cs (fs @ gs) = Option.bind (client_commands cs fs) (\<lambda>cs'. client_commands cs' gs)"
  by (induction fs arbitrary: cs) (simp_all split: bind_split)

definition index_fits :: "nat \<Rightarrow> bool" where
  "index_fits n \<longleftrightarrow> n < 2 ^ 64"

lemma unat_index: "index_fits k \<Longrightarrow> unat (of_nat k :: u64) = k"
  by (simp add: index_fits_def unsigned_of_nat take_bit_nat_eq_self)

lemma index_fits_le: "index_fits n \<Longrightarrow> m \<le> n \<Longrightarrow> index_fits m"
  by (simp add: index_fits_def)

lemma command_frames:
  assumes "shell_command_frame t i k s = Inr f" "index_fits k"
  shows "t = ShellCallCommandAdded \<Longrightarrow> command_step f cs = (if k = length cs then Some (cs @ ['''']) else None)"
    "t = ShellCallCommandDelta \<Longrightarrow> k < length cs \<Longrightarrow> command_step f cs = Some (cs[k := cs ! k @ s])"
    "t = ShellCallCommandDone \<Longrightarrow> k < length cs \<Longrightarrow> command_step f cs = (if s = cs ! k then Some cs else None)"
  using assms
  by (auto simp: shell_command_frame_def indexed_frame_known command_step_def wire_string_def im_get_def unat_index)

lemma command_frame_ok:
  "t \<in> {ShellCallCommandAdded, ShellCallCommandDelta, ShellCallCommandDone} \<Longrightarrow> \<exists>f. shell_command_frame t i k s = Inr f"
  by (auto simp: shell_command_frame_def indexed_frame_known)

lemma item_frames:
  "shell_added_frame a = Inr f \<Longrightarrow> command_step f cs = Some cs"
  "shell_done_frame env a = Inr f \<Longrightarrow> command_step f cs = Some cs"
proof -
  show "shell_added_frame a = Inr f \<Longrightarrow> command_step f cs = Some cs"
    by (auto simp: shell_added_frame_def indexed_frame_known command_step_def im_get_def)
  assume "shell_done_frame env a = Inr f"
  then obtain item v where "tv_item env item = Inr v"
      and "indexed_frame OutputItemDone (ac_output_index a) [(''item'', v)] = Inr f"
    by (cases "shell_output_item (\<lambda>s. case tv_action env s of Inl _ \<Rightarrow> None | Inr a \<Rightarrow> Some a) (ac_item a)")
      (auto simp: shell_done_frame_def split: sum.splits)
  then show "command_step f cs = Some cs"
    by (auto simp: indexed_frame_known command_step_def im_get_def)
qed

section \<open>Streaming\<close>

definition open_has_command :: "shell_call_state \<Rightarrow> bool" where
  "open_has_command st \<longleftrightarrow> (ss_command_open st \<longrightarrow> ss_commands st \<noteq> [])"

text \<open>A step of the translator tells the client what it did to the commands.\<close>

definition tells :: "shell_call_state \<Rightarrow> shell_call_state \<Rightarrow> event_frame list \<Rightarrow> bool" where
  "tells st st' fs \<longleftrightarrow> open_has_command st' \<and> length (ss_commands st) \<le> length (ss_commands st')
     \<and> (index_fits (length (ss_commands st')) \<longrightarrow> client_commands (ss_commands st) fs = Some (ss_commands st'))"

lemma tells_trans: "tells st st1 fs \<Longrightarrow> tells st1 st2 gs \<Longrightarrow> tells st st2 (fs @ gs)"
  by (auto simp: tells_def client_commands_append intro: index_fits_le)

lemma tells_Nil: "open_has_command st' \<Longrightarrow> ss_commands st' = ss_commands st \<Longrightarrow> tells st st' []"
  by (simp add: tells_def)

lemma before_command_ends:
  "before_command arguments at st = Inr place \<Longrightarrow> open_command arguments at st =
     (if ss_command_open st then Inr (True, at, st, [])
      else case place of
        EndOfInput cursor \<Rightarrow> Inr (False, cursor, st, [])
      | EndOfArray cursor \<Rightarrow> Inr (False, cursor, st\<lparr>ss_completion := ArrayDone\<rparr>, [])
      | NextAt cursor \<Rightarrow>
          (case byte_at arguments cursor of
             None \<Rightarrow> Inr (False, cursor, st, [])
           | Some b \<Rightarrow>
               if b = CHR 0x22 then
                 and_then (shell_command_frame ShellCallCommandAdded (ss_output_index st) (length (ss_commands st)) '''') (\<lambda>f.
                   Inr (True, cursor + 1, st\<lparr>ss_commands := ss_commands st @ [''''], ss_command_open := True\<rparr>, [f]))
               else Inl (StreamError ''shell command must be a JSON string'')))"
  by (simp add: open_command_def)

lemma open_command_tells:
  assumes "open_command arguments at st = Inr (go, cursor, st', fs)" "open_has_command st"
  shows "tells st st' fs \<and> (go \<longrightarrow> ss_commands st' \<noteq> [])"
proof (cases "ss_command_open st")
  case True
  with assms show ?thesis by (auto simp: open_command_def tells_def open_has_command_def)
next
  case False
  with assms obtain place where place: "before_command arguments at st = Inr place"
    by (auto simp: open_command_def result_simps)
  show ?thesis
  proof (cases place)
    case (NextAt c)
    show ?thesis
    proof (cases "byte_at arguments c = Some CHR 0x22")
      case True
      with assms False place NextAt obtain f where
          f: "shell_command_frame ShellCallCommandAdded (ss_output_index st) (length (ss_commands st)) '''' = Inr f"
          and st': "fs = [f]" "st' = st\<lparr>ss_commands := ss_commands st @ [''''], ss_command_open := True\<rparr>"
        by (auto simp: before_command_ends [OF place] result_simps)
      have "client_commands (ss_commands st) [f] = Some (ss_commands st @ [''''])" if "index_fits (Suc (length (ss_commands st)))"
        using command_frames(1) [OF f index_fits_le [OF that]] by simp
      with st' show ?thesis by (simp add: tells_def open_has_command_def)
    next
      case False': False
      then have "go = False \<and> st' = st \<and> fs = []"
        using assms(1) False place NextAt by (auto simp: before_command_ends [OF place] split: option.splits if_splits)
      with assms(2) show ?thesis by (simp add: tells_Nil)
    qed
  qed (use assms False place in \<open>auto simp: before_command_ends [OF place] tells_def open_has_command_def\<close>)
qed

lemma read_command_tells:
  assumes "read_command env arguments at st = Inr (cursor, st', fs)" "ss_commands st \<noteq> []"
  shows "tells st st' fs \<and> ss_commands st' \<noteq> []"
  using assms
  by (auto simp: read_command_def result_simps tells_def open_has_command_def command_frames index_fits_le Let_def
      split: if_splits sum.splits option.splits)

lemma close_command_tells:
  assumes "close_command arguments at st = Inr (go, cursor, st', fs)" "ss_commands st \<noteq> []"
  shows "tells st st' fs"
  using assms
  by (auto simp: close_command_def result_simps tells_def open_has_command_def command_frames index_fits_le Let_def
      split: if_splits)

lemma shell_turn_tells:
  assumes "shell_turn env arguments at st = Inr (go, cursor, st', fs)" "open_has_command st"
  shows "tells st st' fs"
  using assms(1)
  by (auto simp: shell_turn_def result_simps split: if_splits
      dest!: open_command_tells [OF _ assms(2)] read_command_tells close_command_tells intro: tells_trans)

lemma shell_loop_tells:
  assumes "shell_loop env arguments at st = Inr (cursor, st', fs)" "open_has_command st"
  shows "tells st st' fs"
  using assms
proof (induction env arguments at st arbitrary: fs rule: shell_loop.induct)
  case (1 env arguments at st)
  from "1.prems"(1) obtain go c st1 gs where turn: "shell_turn env arguments at st = Inr (go, c, st1, gs)"
    by (subst (asm) shell_loop.simps) (auto split: sum.splits)
  note one = shell_turn_tells [OF turn "1.prems"(2)]
  show ?case
  proof (cases go)
    case False
    with "1.prems"(1) turn have "st' = st1" "fs = gs" by (auto simp: shell_loop.simps [of env arguments at])
    with one show ?thesis by simp
  next
    case True
    with "1.prems"(1) turn obtain hs where rest: "shell_loop env arguments c st1 = Inr (cursor, st', hs)" and fs: "fs = gs @ hs"
      by (subst (asm) shell_loop.simps) (auto simp: result_simps)
    have "tells st1 st' hs"
      by (rule "1.IH" [OF turn]) (use True rest one in \<open>auto simp: tells_def\<close>)
    with one show ?thesis by (auto simp: fs intro: tells_trans)
  qed
qed

lemma incremental_shell_tells:
  assumes "incremental_shell_commands env arguments st = Inr (fs, st')" "open_has_command st"
  shows "tells st st' fs \<and> open_has_command st'"
proof -
  consider "fs = []" "st' = st"
    | at cursor st1 where "shell_loop env arguments at st = Inr (cursor, st1, fs)" "st' = st1\<lparr>ss_cursor := Some cursor\<rparr>"
    using assms(1) by (auto simp: incremental_shell_commands_def result_simps split: if_splits option.splits)
  then show ?thesis
  proof cases
    case 2
    with shell_loop_tells [OF 2(1) assms(2)] show ?thesis by (simp add: tells_def open_has_command_def)
  qed (use assms(2) in \<open>simp add: tells_Nil\<close>)
qed

section \<open>The end of the call\<close>

lemma finish_command_tells:
  assumes "finish_command k command st = Inr (fs, st')" "k \<le> length (ss_commands st)" "open_has_command st"
  shows "tells st st' fs \<and> ss_commands st' = (if k < length (ss_commands st) then (ss_commands st)[k := command]
                                              else ss_commands st @ [command])"
proof -
  let ?cs = "ss_commands st" and ?i = "ss_output_index st"
  consider (same) "k < length ?cs" "?cs ! k = command" "fs = []" "st' = st"
    | (extend) ds f where "k < length ?cs" "ss_command_open st" "prefix (?cs ! k) command"
        "(if drop (length (?cs ! k)) command = '''' then Inr []
          else and_then (shell_command_frame ShellCallCommandDelta ?i k (drop (length (?cs ! k)) command)) (\<lambda>f. Inr [f])) = Inr ds"
        "shell_command_frame ShellCallCommandDone ?i k command = Inr f" "fs = ds @ [f]"
        "st' = st\<lparr>ss_commands := ?cs[k := command], ss_command_open := False\<rparr>"
    | (new) a ds f where "k = length ?cs" "shell_command_frame ShellCallCommandAdded ?i k '''' = Inr a"
        "(if command = '''' then Inr []
          else and_then (shell_command_frame ShellCallCommandDelta ?i k command) (\<lambda>f. Inr [f])) = Inr ds"
        "shell_command_frame ShellCallCommandDone ?i k command = Inr f" "fs = a # ds @ [f]"
        "st' = st\<lparr>ss_commands := ?cs @ [command], ss_command_open := False\<rparr>"
  proof (cases "k < length ?cs")
    case True
    show thesis
    proof (cases "ss_command_open st \<and> k + 1 = length ?cs")
      case True': True
      with True assms(1) have "prefix (?cs ! k) command"
        by (auto simp: finish_command_def Let_def split: if_splits)
      moreover from True True' assms(1) obtain ds where ds: "(if drop (length (?cs ! k)) command = '''' then Inr []
          else and_then (shell_command_frame ShellCallCommandDelta ?i k (drop (length (?cs ! k)) command)) (\<lambda>f. Inr [f])) = Inr ds"
        and "and_then (shell_command_frame ShellCallCommandDone ?i k command) (\<lambda>f.
               Inr (ds @ [f], st\<lparr>ss_commands := ?cs[k := command], ss_command_open := False\<rparr>)) = Inr (fs, st')"
        by (auto simp: finish_command_def Let_def simp del: drop_eq_Nil split: if_splits elim!: and_then_InrE)
      ultimately show thesis using True True' by (auto simp: result_simps simp del: drop_eq_Nil intro: extend)
    next
      case False
      with True assms(1) show thesis
        by (intro same) (auto simp: finish_command_def Let_def split: if_splits)
    qed
  next
    case False
    with assms(2) have k: "k = length ?cs" by simp
    from assms(1) False obtain a where a: "shell_command_frame ShellCallCommandAdded ?i k '''' = Inr a"
      by (auto simp: finish_command_def result_simps Let_def)
    from assms(1) False a obtain ds where ds: "(if command = '''' then Inr []
          else and_then (shell_command_frame ShellCallCommandDelta ?i k command) (\<lambda>f. Inr [f])) = Inr ds"
        and "and_then (shell_command_frame ShellCallCommandDone ?i k command) (\<lambda>f.
               Inr (a # ds @ [f], st\<lparr>ss_commands := ?cs @ [command], ss_command_open := False\<rparr>)) = Inr (fs, st')"
      by (auto simp: finish_command_def result_simps Let_def)
    then show thesis by (auto simp: result_simps intro: new [OF k a ds])
  qed
  then show ?thesis
  proof cases
    case same
    then have "?cs[k := command] = ?cs" by (metis list_update_id)
    with same assms(3) show ?thesis by (simp add: tells_Nil)
  next
    case extend
    have "client_commands ?cs fs = Some (?cs[k := command])" if "index_fits (length ?cs)"
    proof -
      have k: "index_fits k" using that extend(1) by (simp add: index_fits_le)
      have whole: "?cs ! k @ drop (length (?cs ! k)) command = command"
        using extend(3) by (auto simp: prefix_def)
      have "client_commands ?cs ds = Some (?cs[k := command])"
      proof (cases "drop (length (?cs ! k)) command = ''''")
        case True
        with whole have "?cs[k := command] = ?cs" by (metis append_Nil2 list_update_id)
        with True extend(4) show ?thesis by simp
      next
        case False
        with extend(4) obtain d where "shell_command_frame ShellCallCommandDelta ?i k (drop (length (?cs ! k)) command) = Inr d" "ds = [d]"
          by (auto simp: result_simps)
        with command_frames(2) [OF this(1) k] extend(1) whole show ?thesis by simp
      qed
      moreover have "command_step f (?cs[k := command]) = Some (?cs[k := command])"
        using command_frames(3) [OF extend(5) k] extend(1) by simp
      ultimately show ?thesis by (simp add: extend(6) client_commands_append)
    qed
    with extend show ?thesis by (simp add: tells_def open_has_command_def)
  next
    case new
    have "client_commands ?cs fs = Some (?cs @ [command])" if "index_fits (Suc (length ?cs))"
    proof -
      have k: "index_fits k" using that new(1) by (simp add: index_fits_le)
      have "client_commands (?cs @ ['''']) ds = Some (?cs @ [command])"
        using new(1,3) command_frames(2) [OF _ k] by (auto simp: result_simps list_update_append split: if_splits)
      moreover have "command_step f (?cs @ [command]) = Some (?cs @ [command])"
        using command_frames(3) [OF new(4) k] new(1) by simp
      ultimately show ?thesis using command_frames(1) [OF new(2) k] new(1) by (simp add: new(5) client_commands_append)
    qed
    with new show ?thesis by (simp add: tells_def open_has_command_def)
  qed
qed

lemma finish_commands_tells:
  assumes "finish_commands k commands st = Inr (fs, st')" "k \<le> length (ss_commands st)" "open_has_command st"
  shows "tells st st' fs \<and> take (k + length commands) (ss_commands st') = take k (ss_commands st) @ commands
    \<and> length (ss_commands st') = max (length (ss_commands st)) (k + length commands)"
  using assms
proof (induction commands arbitrary: k st fs)
  case Nil
  then show ?case by (auto simp: tells_Nil)
next
  case (Cons command commands)
  from Cons.prems(1) obtain gs st1 hs where one: "finish_command k command st = Inr (gs, st1)"
      and rest: "finish_commands (k + 1) commands st1 = Inr (hs, st')" and fs: "fs = gs @ hs"
    by (auto simp: result_simps)
  note step = finish_command_tells [OF one Cons.prems(2,3)]
  have k: "k + 1 \<le> length (ss_commands st1)" and first: "take (k + 1) (ss_commands st1) = take k (ss_commands st) @ [command]"
    and len: "length (ss_commands st1) = max (length (ss_commands st)) (k + 1)"
    using step Cons.prems(2) by (auto simp: take_Suc_conv_app_nth)
  have "open_has_command st1" using step by (simp add: tells_def)
  note later = Cons.IH [OF rest k this]
  have "tells st st' fs" using step later by (auto simp: fs intro: tells_trans)
  with later first len Cons.prems(2) show ?case by simp
qed

lemma finish_shell_commands_tells:
  assumes "finish_shell_commands env arguments st = Inr (fs, st')" "open_has_command st"
  shows "\<exists>action. tv_action env arguments = Inr action \<and> ss_commands st' = sa_commands action \<and> tells st st' fs"
proof -
  obtain action where action: "tv_action env arguments = Inr action"
    using assms(1) by (cases "tv_action env arguments") (auto simp: finish_shell_commands_def result_simps)
  with assms(1) obtain st1 where fin: "finish_commands 0 (sa_commands action) st = Inr (fs, st1)"
      and st': "st' = st1\<lparr>ss_completion := ArgumentsDone\<rparr>" and len: "length (ss_commands st) \<le> length (sa_commands action)"
    by (auto simp: finish_shell_commands_def result_simps split: if_splits)
  from finish_commands_tells [OF fin _ assms(2)] len have "tells st st1 fs" "ss_commands st1 = sa_commands action"
    by auto
  with action st' show ?thesis by (simp add: tells_def open_has_command_def)
qed

section \<open>The whole call\<close>

lemma tells_item_frame:
  "tells st st' fs \<Longrightarrow> shell_added_frame a = Inr f \<Longrightarrow> tells st st' (f # fs)"
  "tells st st' fs \<Longrightarrow> shell_done_frame env a = Inr f \<Longrightarrow> tells st st' (fs @ [f])"
  by (auto simp: tells_def client_commands_append item_frames)

lemma shell_end_tells:
  assumes "translate_event env ev (Some a) (ShellTranslator (Some st)) = Inr (fs, t)" "ending_event ev" "open_has_command st"
  shows "\<exists>st' action. t = ShellTranslator (Some st') \<and> tells st st' fs \<and> ss_completion st' = ArgumentsDone
    \<and> tv_action env (ac_arguments a) = Inr action \<and> ss_commands st' = sa_commands action
    \<and> (ss_completion st = ArgumentsDone \<longrightarrow> sa_commands action = ss_commands st)"
proof -
  obtain final st' where fin: "finish_shell_event env final a st = Inr (fs, st')" and t: "t = ShellTranslator (Some st')"
    using assms(1,2) by (cases ev) (auto simp: translate_shell_def result_simps)
  obtain as gs hs where fs: "fs = as @ gs @ hs"
      and added: "(if ss_added st then Inr [] else and_then (shell_added_frame a) (\<lambda>f. Inr [f])) = Inr as"
      and gs: "finish_shell_commands env (ac_arguments a) (st\<lparr>ss_added := True\<rparr>) = Inr (gs, st')"
      and ended: "(if final then and_then (shell_done_frame env a) (\<lambda>f. Inr [f]) else Inr []) = Inr hs"
    using fin unfolding finish_shell_event_def by (auto elim!: and_then_InrE split: prod.splits)
  have as: "as = [] \<or> (\<exists>f. shell_added_frame a = Inr f \<and> as = [f])"
    using added by (auto simp: result_simps split: if_splits)
  have hs: "hs = [] \<or> (\<exists>f. shell_done_frame env a = Inr f \<and> hs = [f])"
    using ended by (auto simp: result_simps split: if_splits)
  obtain action where action: "tv_action env (ac_arguments a) = Inr action" "ss_commands st' = sa_commands action"
      and "tells (st\<lparr>ss_added := True\<rparr>) st' gs"
    using finish_shell_commands_tells [OF gs] assms(3) by (auto simp: open_has_command_def)
  then have "tells st st' gs" by (simp add: tells_def)
  then have "tells st st' fs"
    using as hs tells_item_frame by (auto simp: fs)
  moreover have "ss_completion st' = ArgumentsDone" "ss_completion st = ArgumentsDone \<longrightarrow> sa_commands action = ss_commands st"
    using gs action(1) by (auto simp: finish_shell_commands_def result_simps split: if_splits)
  ultimately show ?thesis using t action by blast
qed

lemma shell_deltas_tell:
  assumes "translator_run env (ShellTranslator (Some st)) es = Inr (fs, t)" "\<forall>(ev, _) \<in> set es. delta_event ev"
    and "open_has_command st"
  shows "\<exists>st'. t = ShellTranslator (Some st') \<and> tells st st' fs"
  using assms
proof (induction es arbitrary: st fs)
  case Nil
  then show ?case by (auto simp: tells_Nil)
next
  case (Cons e es)
  obtain ev call where e: "e = (ev, call)" by (cases e)
  with Cons.prems obtain f where ev: "ev = DeltaEvent f" by (cases ev) auto
  from Cons.prems e obtain gs u hs where one: "translate_event env ev call (ShellTranslator (Some st)) = Inr (gs, u)"
      and rest: "translator_run env u es = Inr (hs, t)" and fs: "fs = gs @ hs"
    by (auto simp: result_simps)
  obtain st1 where u: "u = ShellTranslator (Some st1)" and st1: "tells st st1 gs" "open_has_command st1"
  proof (cases call)
    case None
    then show thesis using that one ev Cons.prems(3) by (auto simp: translate_shell_def tells_Nil)
  next
    case (Some a)
    then show thesis
      using that one ev Cons.prems(3)
      by (auto simp: translate_shell_def result_simps dest!: incremental_shell_tells)
  qed
  with Cons.IH [OF rest [unfolded u]] Cons.prems(2) show ?case by (auto simp: fs intro: tells_trans)
qed

lemma shell_ends_tell:
  assumes "translator_run env (ShellTranslator (Some st)) es = Inr (fs, t)" "\<forall>(ev, _) \<in> set es. ending_event ev"
    and "open_has_command st"
  shows "\<exists>st'. t = ShellTranslator (Some st') \<and> tells st st' fs
    \<and> (\<forall>a \<in> set (List.map_filter snd es). \<exists>action. tv_action env (ac_arguments a) = Inr action \<and> sa_commands action = ss_commands st')
    \<and> (ss_completion st = ArgumentsDone \<longrightarrow> ss_commands st' = ss_commands st)"
  using assms
proof (induction es arbitrary: st fs)
  case Nil
  then show ?case by (auto simp: tells_Nil List.map_filter_def)
next
  case (Cons e es)
  obtain ev call where e: "e = (ev, call)" by (cases e)
  from Cons.prems e obtain gs u hs where one: "translate_event env ev call (ShellTranslator (Some st)) = Inr (gs, u)"
      and rest: "translator_run env u es = Inr (hs, t)" and fs: "fs = gs @ hs"
    by (auto simp: result_simps)
  show ?case
  proof (cases call)
    case None
    with one Cons.prems(2) e have "u = ShellTranslator (Some st)" "gs = []"
      by (cases ev; auto simp: translate_shell_def)+
    with Cons.IH [of st hs] rest Cons.prems(2,3) e None show ?thesis by (auto simp: fs List.map_filter_def)
  next
    case (Some a)
    obtain st1 action where u: "u = ShellTranslator (Some st1)" and st1: "tells st st1 gs" "ss_completion st1 = ArgumentsDone"
        "tv_action env (ac_arguments a) = Inr action" "ss_commands st1 = sa_commands action"
        "ss_completion st = ArgumentsDone \<longrightarrow> sa_commands action = ss_commands st"
      using shell_end_tells [of env ev a st gs u] one Some Cons.prems(2,3) e by auto
    from st1(1) have "open_has_command st1" by (simp add: tells_def)
    from Cons.IH [OF rest [unfolded u] _ this] Cons.prems(2) st1 e Some show ?thesis
      by (auto simp: fs List.map_filter_def intro: tells_trans)
  qed
qed

text \<open>
  C15: The pieces of a shell call say exactly its commands. Whenever the events of a shell call are
  translated to its end, all the arguments it ended with hold the same commands, and a client that
  adds a command when it is added, extends it with its deltas and checks it when it is done, ends
  with exactly these commands, in order.
\<close>

theorem shell_commands_are_delivered_exactly:
  assumes "translator_run env (ShellTranslator None) ((AddedEvent item_id name k original, started) # deltas @ ends) = Inr (fs, t)"
    and "\<forall>(ev, _) \<in> set deltas. delta_event ev" "\<forall>(ev, _) \<in> set ends. ending_event ev"
    and "call \<in> set (List.map_filter snd ends)"
  shows "\<exists>commands. (\<forall>a \<in> set (List.map_filter snd ends). \<exists>action. tv_action env (ac_arguments a) = Inr action \<and> sa_commands action = commands)
    \<and> (length commands < 2 ^ 64 \<longrightarrow> client_commands [] fs = Some commands)"
proof -
  define st where "st = shell_started k started"
  obtain as ds es u where fs: "fs = as @ ds @ es"
      and as: "(case started of None \<Rightarrow> Inr [] | Some a \<Rightarrow> and_then (shell_added_frame a) (\<lambda>f. Inr [f])) = Inr as"
      and ds: "translator_run env (ShellTranslator (Some st)) deltas = Inr (ds, u)"
      and es: "translator_run env u ends = Inr (es, t)"
    using assms(1) by (auto simp: translate_shell_def result_simps translator_run_append st_def)
  have "client_commands [] as = Some []"
    using as by (cases started) (auto simp: result_simps item_frames)
  moreover have "open_has_command st" "ss_commands st = []" by (simp_all add: st_def shell_started_def open_has_command_def)
  moreover from this obtain st1 where st1: "u = ShellTranslator (Some st1)" "tells st st1 ds"
    using shell_deltas_tell [OF ds assms(2)] by blast
  moreover obtain st2 where "tells st1 st2 es"
      and same: "\<forall>a \<in> set (List.map_filter snd ends). \<exists>action. tv_action env (ac_arguments a) = Inr action \<and> sa_commands action = ss_commands st2"
    using shell_ends_tell [OF es [unfolded st1(1)] assms(3)] st1(2) by (auto simp: tells_def)
  moreover from this have "tells st st2 (ds @ es)" using st1(2) by (blast intro: tells_trans)
  ultimately have "length (ss_commands st2) < 2 ^ 64 \<longrightarrow> client_commands [] fs = Some (ss_commands st2)"
    by (simp add: tells_def fs client_commands_append [of _ as] index_fits_def)
  with same show ?thesis by blast
qed

definition shell_text_env :: "string \<Rightarrow> shell_call_action \<Rightarrow> translator_env" where
  "shell_text_env text action =
     (plain_text_env '''' JNull)\<lparr>tv_action := \<lambda>s. if s = text then Inr action else Inl ''incomplete'',
       tv_next_key := \<lambda>s. if prefix (in_quotes ''commands'') s then Some (''commands'', 10) else None\<rparr>"

definition commands_so_far :: "string \<Rightarrow> string" where
  "commands_so_far s = ''{'' @ in_quotes ''commands'' @ '':['' @ s"

definition sample_action :: shell_call_action where
  "sample_action = \<lparr>sa_commands = [''ls'', ''pwd''], sa_timeout_ms = None, sa_max_output_length = None, sa_extra = []\<rparr>"

lemma sample_shell_delta:
  "case shell_loop (shell_text_env text sample_action) (commands_so_far (CHR 0x22 # ''l'')) 13 (shell_started 0 None) of
     Inl _ \<Rightarrow> False
   | Inr (cursor, st, fs) \<Rightarrow> length fs = 2 \<and> ss_commands st = [''l''] \<and> \<not> ss_added st \<and> ss_completion st = CommandsStreaming
       \<and> \<not> isl (finish_commands 0 (sa_commands sample_action) (st\<lparr>ss_cursor := Some cursor, ss_added := True\<rparr>))"
  by code_simp

lemma sample_commands_start: "shell_commands_start (shell_text_env text sample_action) (commands_so_far (CHR 0x22 # ''l'')) = Some 13"
  by code_simp

definition sample_arguments :: string where
  "sample_arguments = commands_so_far (in_quotes ''ls'' @ '','' @ in_quotes ''pwd'' @ '']}'')"

theorem shell_commands_are_delivered_exactly_witness:
  "\<exists>fs t. translator_run (shell_text_env sample_arguments sample_action)
      (ShellTranslator None)
      ((AddedEvent ''fc_1'' ''shell'' 0 None, None)
       # [(DeltaEvent sample_frame, Some (sample_call (commands_so_far (CHR 0x22 # ''l''))))]
       @ [(ArgumentsDoneEvent sample_frame,
           Some (sample_call sample_arguments))]) = Inr (fs, t)
    \<and> client_commands [] fs = Some [''ls'', ''pwd'']"
proof -
  let ?part = "commands_so_far (CHR 0x22 # ''l'')"
  let ?env = "shell_text_env sample_arguments sample_action" and ?st = "shell_started 0 None"
  have ends: "ac_arguments (sample_call s) = s" for s by (simp add: sample_call_def)
  have sizes: "ensure_function_call_size ?part = Inr ()" "ensure_function_call_size sample_arguments = Inr ()"
    by (rule small_call; simp add: commands_so_far_def sample_arguments_def in_quotes_def)+
  obtain cursor st fs where loop: "shell_loop ?env ?part 13 ?st = Inr (cursor, st, fs)"
      and st: "ss_commands st = [''l'']" "\<not> ss_added st" "ss_completion st = CommandsStreaming"
      and fin: "\<not> isl (finish_commands 0 (sa_commands sample_action) (st\<lparr>ss_cursor := Some cursor, ss_added := True\<rparr>))"
    using sample_shell_delta [of sample_arguments] by (auto split: sum.splits)
  obtain gs st' where gs: "finish_commands 0 (sa_commands sample_action) (st\<lparr>ss_cursor := Some cursor, ss_added := True\<rparr>) = Inr (gs, st')"
    using fin by (cases "finish_commands 0 (sa_commands sample_action) (st\<lparr>ss_cursor := Some cursor, ss_added := True\<rparr>)") auto
  have delta: "incremental_shell_commands ?env ?part ?st = Inr (fs, st\<lparr>ss_cursor := Some cursor\<rparr>)"
    using loop sample_commands_start [of sample_arguments] sizes(1) by (simp add: incremental_shell_commands_def shell_started_def)
  have two: "length (sa_commands sample_action) = 2" by (simp add: sample_action_def)
  have action: "tv_action ?env sample_arguments = Inr sample_action" by (simp add: shell_text_env_def)
  obtain f where added: "shell_added_frame (sample_call sample_arguments) = Inr f"
    by (simp add: shell_added_frame_def indexed_frame_known)
  have "finish_shell_event ?env False (sample_call sample_arguments) (st\<lparr>ss_cursor := Some cursor\<rparr>)
      = Inr (f # gs, st'\<lparr>ss_completion := ArgumentsDone\<rparr>)"
    using gs st by (simp add: finish_shell_event_def finish_shell_commands_def ends added sizes(2) action two)
  with delta have "\<exists>t. translator_run ?env (ShellTranslator None)
      ((AddedEvent ''fc_1'' ''shell'' 0 None, None) # [(DeltaEvent sample_frame, Some (sample_call ?part))]
       @ [(ArgumentsDoneEvent sample_frame, Some (sample_call sample_arguments))]) = Inr (fs @ f # gs, t)"
    by (simp add: translate_shell_def ends)
  then obtain t where run: "translator_run ?env (ShellTranslator None)
      ((AddedEvent ''fc_1'' ''shell'' 0 None, None) # [(DeltaEvent sample_frame, Some (sample_call ?part))]
       @ [(ArgumentsDoneEvent sample_frame, Some (sample_call sample_arguments))]) = Inr (fs @ f # gs, t)" by blast
  from shell_commands_are_delivered_exactly [OF run, of "sample_call sample_arguments"]
  have "client_commands [] (fs @ f # gs) = Some (sa_commands sample_action)"
    using action by (auto simp: List.map_filter_def ends sample_action_def)
  with run show ?thesis by (auto simp: sample_action_def)
qed

end
