(* ===== verification/Dispatched.thy ===== *)
theory Dispatched
  imports Translated_Calls
begin

text \<open>
  What the dispatcher guarantees over a whole round: the bytes it keeps for calls without a name
  are counted exactly and bounded, the events of a call without a translator stay private, and once
  such a call was seen the client waits for it ever after. The output of the round is a function of
  its items, one by one.
\<close>

section \<open>Sums over maps\<close>

definition im_total :: "('v \<Rightarrow> nat) \<Rightarrow> ('k, 'v) index_map \<Rightarrow> nat" where
  "im_total g m = sum_list (map (\<lambda>(_, v). g v) m)"

definition counted :: "('v \<Rightarrow> nat) \<Rightarrow> 'v option \<Rightarrow> nat" where
  "counted g v = (case v of None \<Rightarrow> 0 | Some x \<Rightarrow> g x)"

lemma counted_simps [simp]: "counted g None = 0" "counted g (Some x) = g x"
  by (simp_all add: counted_def)

lemma im_total_simps [simp]: "im_total g [] = 0" "im_total g ((k, v) # m) = g v + im_total g m"
  by (simp_all add: im_total_def)

lemma im_total_absent: "k \<notin> set (im_keys m) \<Longrightarrow> im_shift_remove k m = m"
  by (induction m) (auto simp: im_shift_remove_def im_keys_def)

lemma im_total_remove: "im_wf m \<Longrightarrow> im_total g (im_shift_remove k m) + counted g (im_get m k) = im_total g m"
proof (induction m)
  case (Cons e m)
  obtain k' v where e: "e = (k', v)" by (cases e)
  show ?case
  proof (cases "k' = k")
    case True
    with Cons.prems e have "im_shift_remove k m = m" by (simp add: im_total_absent)
    then have "im_shift_remove k ((k', v) # m) = m" using True by (simp add: im_shift_remove_def)
    then show ?thesis using True by (simp add: e)
  next
    case False
    then have "im_shift_remove k ((k', v) # m) = (k', v) # im_shift_remove k m" by (simp add: im_shift_remove_def)
    with Cons False show ?thesis by (simp add: e)
  qed
qed (simp add: im_shift_remove_def)

lemma im_total_insert: "im_wf m \<Longrightarrow> im_total g (im_insert k v m) + counted g (im_get m k) = im_total g m + g v"
  by (induction m) auto

lemma set_im_shift_remove: "e \<in> set (im_shift_remove k m) \<longleftrightarrow> e \<in> set m \<and> fst e \<noteq> k"
  by (auto simp: im_shift_remove_def)

lemma im_total_member: "(k, v) \<in> set m \<Longrightarrow> g v \<le> im_total g m"
  by (induction m) auto

section \<open>The buffer of unnamed calls and the defer boundary\<close>

definition buffered_bytes :: "translator_env \<Rightarrow> pending_function_call \<Rightarrow> nat" where
  "buffered_bytes env p = sum_list (map (\<lambda>f. length (projr (tv_print env (wire_event_to_json (ef_wire f))))) (pf_frames p))"

text \<open>A buffered delta is about the call it is kept for.\<close>

definition delta_at :: "u32 \<Rightarrow> event_frame \<Rightarrow> bool" where
  "delta_at k f \<longleftrightarrow> (\<forall>a b c i. ef_payload f = PFunctionCallArgsDelta a b c i \<longrightarrow> i = Some k)"

definition buffer_ok :: "translator_env \<Rightarrow> dispatcher \<Rightarrow> bool" where
  "buffer_ok env d \<longleftrightarrow>
     im_wf (dp_pending d)
     \<and> (\<forall>(k, p) \<in> set (dp_pending d). pf_output_index p = k \<and> pf_bytes p = buffered_bytes env p \<and> (\<forall>f \<in> set (pf_frames p). delta_at k f))
     \<and> dp_pending_bytes d = im_total pf_bytes (dp_pending d)
     \<and> dp_pending_bytes d \<le> max_pending_function_bytes"

definition gateway_deferred :: "dispatcher \<Rightarrow> bool" where
  "gateway_deferred d \<longleftrightarrow>
     (\<forall>k. im_get (dp_active d) k = Some GatewayCall \<longrightarrow> (\<exists>first. dp_first_gateway d = Some first \<and> first \<le> k))"

definition dispatcher_ok :: "translator_env \<Rightarrow> dispatcher \<Rightarrow> bool" where
  "dispatcher_ok env d \<longleftrightarrow> buffer_ok env d \<and> gateway_deferred d"

definition defers_still :: "dispatcher \<Rightarrow> dispatcher \<Rightarrow> bool" where
  "defers_still d d' \<longleftrightarrow>
     dp_context d' = dp_context d
     \<and> (\<forall>first. dp_first_gateway d = Some first \<longrightarrow> (\<exists>first'. dp_first_gateway d' = Some first' \<and> first' \<le> first))"

definition keeps :: "translator_env \<Rightarrow> dispatcher \<Rightarrow> dispatcher \<Rightarrow> bool" where
  "keeps env d d' \<longleftrightarrow> (dispatcher_ok env d \<longrightarrow> dispatcher_ok env d') \<and> defers_still d d'"

lemma defers_still_refl: "defers_still d d"
  by (simp add: defers_still_def)

lemma defers_still_trans: "defers_still d d' \<Longrightarrow> defers_still d' d'' \<Longrightarrow> defers_still d d''"
  by (fastforce simp: defers_still_def)

lemma keeps_refl [simp, intro]: "keeps env d d"
  by (simp add: keeps_def defers_still_refl)

lemma keeps_trans: "keeps env d d' \<Longrightarrow> keeps env d' d'' \<Longrightarrow> keeps env d d''"
  by (auto simp: keeps_def intro: defers_still_trans)

text \<open>Changes of the other fields, and of calls that stay with their client translator.\<close>

lemma keeps_fields [simp, intro]:
  "keeps env d (d\<lparr>dp_search := s\<rparr>)" "keeps env d (d\<lparr>dp_terminal := t\<rparr>)"
  "keeps env d (d\<lparr>dp_search := s, dp_terminal := t\<rparr>)"
  "keeps env d (d\<lparr>dp_active := im_insert k (ClientCall c) (dp_active d)\<rparr>)"
  "keeps env d (d\<lparr>dp_active := im_shift_remove k (dp_active d)\<rparr>)"
  by (auto simp: keeps_def defers_still_def dispatcher_ok_def buffer_ok_def gateway_deferred_def)

lemma keeps_gateway:
  "keeps env d (d\<lparr>dp_active := im_insert k GatewayCall (dp_active d),
     dp_first_gateway := (case dp_first_gateway d of None \<Rightarrow> Some k | Some first \<Rightarrow> Some (if k < first then k else first))\<rparr>)"
  by (auto simp: keeps_def defers_still_def dispatcher_ok_def buffer_ok_def gateway_deferred_def split: option.splits)

lemma take_pending_keeps: "take_pending k d = (fs, d') \<Longrightarrow> keeps env d d'"
proof (cases "im_get (dp_pending d) k")
  case (Some p)
  assume "take_pending k d = (fs, d')"
  with Some have d': "d' = d\<lparr>dp_pending := im_shift_remove k (dp_pending d), dp_pending_bytes := dp_pending_bytes d - pf_bytes p\<rparr>"
    by (simp add: take_pending_def)
  have "buffer_ok env d'" if "buffer_ok env d"
    using that Some im_total_remove [of "dp_pending d" pf_bytes k]
    by (auto simp: d' buffer_ok_def im_wf_remove set_im_shift_remove)
  then show ?thesis by (auto simp: keeps_def dispatcher_ok_def gateway_deferred_def defers_still_def d')
qed (simp add: take_pending_def)

lemma buffer_unnamed_keeps:
  assumes "buffer_unnamed env item_id k f call d = Inr (fs, d')" and at: "delta_at k f"
  shows "keeps env d d' \<and> fs = []"
proof -
  obtain s where s: "tv_print env (wire_event_to_json (ef_wire f)) = Inr s"
    using assms by (auto simp: buffer_unnamed_def printed_def result_simps split: sum.splits)
  define old where "old = unwrap_or (im_get (dp_pending d) k) \<lparr>pf_output_index = k, pf_item_id = None, pf_frames = [], pf_bytes = 0\<rparr>"
  define known where "known = filter_option (\<lambda>i. i \<noteq> '''') (map_option (\<lambda>a. fc_id (ac_item a)) call)"
  define i where "i = (if known \<noteq> None then known
      else if pf_item_id old = None \<and> item_id \<noteq> '''' then Some item_id else pf_item_id old)"
  have fits: "usize_saturating_add (dp_pending_bytes d) (length s) \<le> max_pending_function_bytes"
      and fs: "fs = []"
      and d': "d' = d\<lparr>dp_pending := im_insert k (old\<lparr>pf_item_id := i, pf_frames := pf_frames old @ [f],
                  pf_bytes := usize_saturating_add (pf_bytes old) (length s)\<rparr>) (dp_pending d),
                dp_pending_bytes := usize_saturating_add (dp_pending_bytes d) (length s)\<rparr>"
    using assms unfolding buffer_unnamed_def printed_def s Let_def old_def [symmetric] known_def [symmetric] i_def [symmetric]
    by (simp_all only: sum.case and_then_Inr split: if_splits) simp_all
  have "buffer_ok env d'" if ok: "buffer_ok env d"
  proof -
    have sum: "usize_saturating_add (dp_pending_bytes d) (length s) = dp_pending_bytes d + length s"
      using fits by (simp add: usize_saturating_add_def usize_max_def max_pending_function_bytes_def min_def split: if_splits)
    have old: "pf_output_index old = k" "pf_bytes old = buffered_bytes env old"
        "\<forall>g \<in> set (pf_frames old). delta_at k g"
        "counted pf_bytes (im_get (dp_pending d) k) = pf_bytes old"
      using ok by (cases "im_get (dp_pending d) k"; auto simp: old_def buffer_ok_def buffered_bytes_def dest: im_get_SomeD)+
    have "pf_bytes old \<le> dp_pending_bytes d"
    proof (cases "im_get (dp_pending d) k")
      case None
      then show ?thesis by (simp add: old_def)
    next
      case (Some p)
      then have "pf_bytes p \<le> im_total pf_bytes (dp_pending d)" by (blast dest: im_get_SomeD intro: im_total_member)
      with Some old(4) ok show ?thesis by (simp add: buffer_ok_def)
    qed
    then have one: "usize_saturating_add (pf_bytes old) (length s) = pf_bytes old + length s"
      using fits sum by (simp add: usize_saturating_add_def usize_max_def max_pending_function_bytes_def)
    let ?new = "old\<lparr>pf_item_id := i, pf_frames := pf_frames old @ [f], pf_bytes := pf_bytes old + length s\<rparr>"
    have "im_total pf_bytes (im_insert k ?new (dp_pending d)) = im_total pf_bytes (dp_pending d) + length s"
      using im_total_insert [of "dp_pending d" pf_bytes k ?new] ok old(4) by (simp add: buffer_ok_def)
    moreover have "pf_output_index p = k' \<and> pf_bytes p = buffered_bytes env p \<and> (\<forall>g \<in> set (pf_frames p). delta_at k' g)"
      if "(k', p) \<in> set (im_insert k ?new (dp_pending d))" for k' p
    proof -
      have "im_wf (im_insert k ?new (dp_pending d))" using ok by (simp add: buffer_ok_def im_wf_insert)
      then have "im_get (im_insert k ?new (dp_pending d)) k' = Some p" using that by (simp only: im_get_Some_iff)
      then consider "k' = k" "p = ?new" | "k' \<noteq> k" "(k', p) \<in> set (dp_pending d)"
        by (cases "k' = k") (auto dest: im_get_SomeD)
      then show ?thesis
      proof cases
        case 1
        then show ?thesis using old(1,2,3) at by (auto simp: buffered_bytes_def s)
      next
        case 2
        then show ?thesis using ok by (auto simp: buffer_ok_def)
      qed
    qed
    ultimately show ?thesis
      using ok fits unfolding d' one sum by (auto simp add: buffer_ok_def im_wf_insert)
  qed
  then show ?thesis by (auto simp: fs keeps_def dispatcher_ok_def gateway_deferred_def defers_still_def d')
qed

lemma start_call_keeps: "start_call env item_id name k original call d = Inr (fs, d') \<Longrightarrow> keeps env d d'"
proof (cases "new_translator (dp_context d) name")
  case None
  assume "start_call env item_id name k original call d = Inr (fs, d')"
  with None show ?thesis using keeps_gateway [of env d k] by (auto simp: start_call_def)
next
  case (Some t)
  assume "start_call env item_id name k original call d = Inr (fs, d')"
  with Some obtain search c where "d' = d\<lparr>dp_search := search, dp_active := im_insert k (ClientCall c) (dp_active d)\<rparr>"
    by (auto simp: start_call_def elim!: and_then_InrE split: prod.splits)
  moreover have "keeps env d (d\<lparr>dp_search := search\<rparr>)" by blast
  moreover have "keeps env (d\<lparr>dp_search := search\<rparr>)
      ((d\<lparr>dp_search := search\<rparr>)\<lparr>dp_active := im_insert k (ClientCall c) (dp_active (d\<lparr>dp_search := search\<rparr>))\<rparr>)" by blast
  ultimately show ?thesis by (auto intro: keeps_trans)
qed

lemma translate_delta_keeps:
  "translate_delta env item_id k original call d = Inr (fs, d') \<Longrightarrow> delta_at k original \<Longrightarrow> keeps env d d'"
  by (auto simp: translate_delta_def dest: buffer_unnamed_keeps elim!: and_then_InrE split: option.splits active_call.splits prod.splits)

lemma replay_deltas_keeps: "replay_deltas env item_id call ps d = Inr (fs, d') \<Longrightarrow> keeps env d d'"
proof (induction ps arbitrary: d fs)
  case (Cons f ps)
  show ?case
  proof (cases "\<exists>a b c i. ef_payload f = PFunctionCallArgsDelta a b c i")
    case True
    then obtain a b c i where f: "ef_payload f = PFunctionCallArgsDelta a b c i" by blast
    with Cons.prems obtain k gs d1 hs where "resolved_output_index i = Inr k" "translate_delta env item_id k f call d = Inr (gs, d1)"
        "replay_deltas env item_id call ps d1 = Inr (hs, d')"
      by (auto elim!: and_then_InrE split: prod.splits)
    moreover from this(1) f have "delta_at k f" by (cases i) (auto simp: delta_at_def resolved_output_index_def)
    ultimately show ?thesis using Cons.IH by (blast intro: keeps_trans translate_delta_keeps)
  next
    case False
    with Cons.prems have "replay_deltas env item_id call ps d = Inr (fs, d')"
      by (auto split: event_payload.splits)
    with Cons.IH show ?thesis by blast
  qed
qed simp

lemma resolve_pending_keeps: "resolve_pending env item_id name k call d = Inr (fs, d') \<Longrightarrow> keeps env d d'"
  by (auto simp: resolve_pending_def elim!: and_then_InrE split: if_splits prod.splits)
    (blast intro: keeps_trans take_pending_keeps start_call_keeps replay_deltas_keeps)

lemma finish_arguments_keeps: "finish_arguments env item_id name k original call d = Inr (fs, d') \<Longrightarrow> keeps env d d'"
  by (auto simp: finish_arguments_def elim!: and_then_InrE split: option.splits active_call.splits prod.splits)
    (blast intro: keeps_trans resolve_pending_keeps keeps_fields)+

lemma keeps_reinsert [simp, intro]:
  "keeps env d (d\<lparr>dp_active := im_insert k (ClientCall t) (im_shift_remove k (dp_active d))\<rparr>)"
  by (auto simp: keeps_def defers_still_def dispatcher_ok_def buffer_ok_def gateway_deferred_def)

lemma finish_call_keeps: "finish_call env item_id name k original call d = Inr (fs, d') \<Longrightarrow> keeps env d d'"
  by (auto simp: finish_call_def Let_def elim!: and_then_InrE split: option.splits active_call.splits prod.splits if_splits)
    (blast intro: keeps_trans resolve_pending_keeps keeps_fields keeps_reinsert)+

lemma resolved_index: "resolved_output_index i = Inr k \<longleftrightarrow> i = Some k"
  by (cases i) (auto simp: resolved_output_index_def)

lemma route_keeps: "route env f call d = Inr (fs, d') \<Longrightarrow> keeps env d d'"
proof -
  assume route: "route env f call d = Inr (fs, d')"
  then have deltas: "delta_at k f" if "ef_payload f = PFunctionCallArgsDelta a b c (Some k)" for a b c k
    using that by (simp add: delta_at_def)
  have others: "delta_at k f" if "ef_payload f = POutputItemAdded a b c d e g h" for a b c d e g h k
    using that by (simp add: delta_at_def)
  from route show ?thesis
    by (auto simp: route_def resolved_index others deltas
        dest: buffer_unnamed_keeps start_call_keeps translate_delta_keeps finish_arguments_keeps finish_call_keeps
        elim!: and_then_InrE split: event_payload.splits sse_item_type.splits option.splits)
qed

lemma dispatcher_translate_keeps: "dispatcher_translate env f call d = Inr (tr, d') \<Longrightarrow> keeps env d d' \<and> tl_defer_from tr = dispatcher_defer_from d'"
  by (auto simp: dispatcher_translate_def intro: keeps_trans route_keeps elim!: and_then_InrE split: prod.splits)

lemma new_dispatcher_ok: "dispatcher_ok env (new_dispatcher ctx)"
  by (simp add: dispatcher_ok_def buffer_ok_def gateway_deferred_def new_dispatcher_def)

section \<open>Rounds of translation\<close>

definition dispatch_step :: "translator_env \<Rightarrow> dispatcher \<Rightarrow> event_frame \<times> accumulated_call option \<Rightarrow> executor_error + dispatcher" where
  "dispatch_step env d i = and_then (dispatcher_translate env (fst i) (snd i) d) (\<lambda>(_, d'). Inr d')"

interpretation round: guarded_machine "dispatch_step env" "dispatcher_ok env" defers_still for env
  by unfold_locales
    (auto simp: dispatch_step_def keeps_def intro: defers_still_refl defers_still_trans elim!: and_then_InrE
      dest!: dispatcher_translate_keeps split: prod.splits)

lemma min_option_le: "x \<in> set xs \<Longrightarrow> \<exists>m. min_option xs = Some m \<and> m \<le> x"
proof -
  have "fold min ys (y :: u32) \<le> y \<and> (\<forall>z \<in> set ys. fold min ys y \<le> z)" for ys y
  proof (induction ys arbitrary: y)
    case (Cons a ys)
    have "fold min ys (min a y) \<le> min a y" "\<forall>z \<in> set ys. fold min ys (min a y) \<le> z" using Cons.IH by blast+
    then show ?case by simp
  qed simp
  then show "x \<in> set xs \<Longrightarrow> \<exists>m. min_option xs = Some m \<and> m \<le> x"
    by (cases xs) (auto simp: min_option_def)
qed

lemma defer_from_le:
  "dp_first_gateway d = Some k \<Longrightarrow> \<exists>j. dispatcher_defer_from d = Some j \<and> j \<le> k"
  "(k', p) \<in> set (dp_pending d) \<Longrightarrow> \<exists>j. dispatcher_defer_from d = Some j \<and> j \<le> pf_output_index p"
  unfolding dispatcher_defer_from_def by (rule min_option_le; force)+

section \<open>Calls the gateway runs itself\<close>

text \<open>
  Events the dispatcher keeps to itself: the start of a call that gets no translator, and every
  later event of such a call, or of one that gets its name with that event. That these are the
  calls of the tools the registry gives to the gateway is shown in \<open>Private_Calls\<close>.
\<close>

definition gateway_name :: "dispatcher \<Rightarrow> string \<Rightarrow> bool" where
  "gateway_name d name \<longleftrightarrow> new_translator (dp_context d) name = None"

definition gateway_call :: "dispatcher \<Rightarrow> u32 \<Rightarrow> string \<Rightarrow> bool" where
  "gateway_call d k name \<longleftrightarrow>
     im_get (dp_active d) k = Some GatewayCall \<or> im_get (dp_active d) k = None \<and> gateway_name d name"

definition private_event :: "dispatcher \<Rightarrow> event_frame \<Rightarrow> u32 \<Rightarrow> bool" where
  "private_event d f k \<longleftrightarrow>
     (case ef_payload f of
        POutputItemAdded _ TyFunctionCall i (Some name) _ _ _ \<Rightarrow> i = Some k \<and> gateway_name d name
      | PFunctionCallArgsDelta _ _ _ i \<Rightarrow> i = Some k \<and> im_get (dp_active d) k = Some GatewayCall
      | PFunctionCallArgsDone _ _ _ name i \<Rightarrow> i = Some k \<and> gateway_call d k name
      | POutputItemDone _ TyFunctionCall i item \<Rightarrow>
          i = Some k \<and> gateway_call d k (unwrap_or (Option.bind (json_get item ''name'') as_str) '''')
      | _ \<Rightarrow> False)"

lemma private_event_fields:
  "private_event (d\<lparr>dp_search := s, dp_terminal := t\<rparr>) f k \<longleftrightarrow> private_event d f k"
proof -
  have eqs: "gateway_name (d\<lparr>dp_search := s, dp_terminal := t\<rparr>) = gateway_name d"
      "gateway_call (d\<lparr>dp_search := s, dp_terminal := t\<rparr>) = gateway_call d"
      "dp_active (d\<lparr>dp_search := s, dp_terminal := t\<rparr>) = dp_active d"
    by (simp_all add: fun_eq_iff gateway_call_def gateway_name_def)
  show ?thesis unfolding private_event_def eqs ..
qed

definition deferred_at :: "dispatcher \<Rightarrow> u32 \<Rightarrow> bool" where
  "deferred_at d k \<longleftrightarrow> (\<exists>first. dp_first_gateway d = Some first \<and> first \<le> k)"

lemma start_gateway_call:
  assumes "start_call env item_id name k original call d = Inr (fs, d')" "gateway_name d name"
  shows "fs = [] \<and> im_get (dp_active d') k = Some GatewayCall \<and> deferred_at d' k"
  using assms by (auto simp: start_call_def gateway_name_def deferred_at_def split: option.splits)

lemma replay_to_gateway:
  assumes "replay_deltas env item_id call ps d = Inr (fs, d')" "im_get (dp_active d) k = Some GatewayCall"
    and "\<forall>f \<in> set ps. delta_at k f"
  shows "fs = [] \<and> d' = d"
  using assms
proof (induction ps arbitrary: fs)
  case (Cons f ps)
  show ?case
  proof (cases "\<exists>a b c i. ef_payload f = PFunctionCallArgsDelta a b c i")
    case True
    then obtain a b c i where f: "ef_payload f = PFunctionCallArgsDelta a b c i" by blast
    with Cons.prems(3) have i: "i = Some k" by (auto simp: delta_at_def)
    with Cons.prems f obtain hs where "replay_deltas env item_id call ps d = Inr (hs, d')" "fs = hs"
      by (auto simp: resolved_index translate_delta_def elim!: and_then_InrE split: prod.splits)
    with Cons show ?thesis by simp
  next
    case False
    with Cons.prems(1) have "replay_deltas env item_id call ps d = Inr (fs, d')"
      by (auto split: event_payload.splits)
    with Cons show ?thesis by simp
  qed
qed simp

lemma resolve_gateway_call:
  assumes "resolve_pending env item_id name k call d = Inr (fs, d')" "gateway_call d k name" "dispatcher_ok env d"
  shows "fs = [] \<and> im_get (dp_active d') k = Some GatewayCall \<and> deferred_at d' k"
proof (cases "im_get (dp_active d) k")
  case (Some c)
  with assms(1,2) have "fs = []" "d' = d" "c = GatewayCall" by (auto simp: resolve_pending_def gateway_call_def)
  with Some assms(3) show ?thesis by (auto simp: dispatcher_ok_def gateway_deferred_def deferred_at_def)
next
  case None
  obtain ps d1 where taken: "take_pending k d = (ps, d1)" by fastforce
  with None assms(1) obtain gs d2 hs where started: "start_call env item_id name k (find is_added_function ps) call d1 = Inr (gs, d2)"
      and replayed: "replay_deltas env item_id call ps d2 = Inr (hs, d')" and fs: "fs = gs @ hs"
    by (auto simp: resolve_pending_def elim!: and_then_InrE split: prod.splits)
  have "gateway_name d1 name"
    using taken None assms(2) by (auto simp: take_pending_def gateway_call_def gateway_name_def split: option.splits)
  from start_gateway_call [OF started this] have gs: "gs = []" "im_get (dp_active d2) k = Some GatewayCall" "deferred_at d2 k"
    by auto
  have "\<forall>f \<in> set ps. delta_at k f"
    using taken assms(3) by (auto simp: take_pending_def dispatcher_ok_def buffer_ok_def dest: im_get_SomeD split: option.splits)
  from replay_to_gateway [OF replayed gs(2) this] gs show ?thesis by (simp add: fs)
qed

lemma route_private:
  assumes "route env f call d = Inr (fs, d')" "private_event d f k" "dispatcher_ok env d"
  shows "fs = [] \<and> deferred_at d' k"
proof -
  have kept: "deferred_at d k" if "im_get (dp_active d) k = Some GatewayCall"
    using that assms(3) by (auto simp: dispatcher_ok_def gateway_deferred_def deferred_at_def)
  have ended: "fs = [] \<and> deferred_at d' k"
    if "finish_arguments env item_id name k f call d = Inr (fs, d') \<or> finish_call env item_id name k f call d = Inr (fs, d')"
      and "gateway_call d k name" for item_id name
  proof -
    from that(1) obtain gs d1 where one: "resolve_pending env item_id name k call d = Inr (gs, d1)"
      by (auto simp: finish_arguments_def finish_call_def elim!: and_then_InrE)
    note resolved = resolve_gateway_call [OF one that(2) assms(3)]
    from that(1) have "fs = gs" "d' = d1 \<or> d' = d1\<lparr>dp_active := im_shift_remove k (dp_active d1)\<rparr>"
      using one resolved by (auto simp: finish_arguments_def finish_call_def)
    with resolved show ?thesis by (auto simp: deferred_at_def)
  qed
  consider (added) item_id name a b c where "ef_payload f = POutputItemAdded item_id TyFunctionCall (Some k) (Some name) a b c" "gateway_name d name"
    | (delta) a b c where "ef_payload f = PFunctionCallArgsDelta a b c (Some k)" "im_get (dp_active d) k = Some GatewayCall"
    | (arguments) a b item_id name where "ef_payload f = PFunctionCallArgsDone a b item_id name (Some k)" "gateway_call d k name"
    | (item) item_id item where "ef_payload f = POutputItemDone item_id TyFunctionCall (Some k) item"
        "gateway_call d k (unwrap_or (Option.bind (json_get item ''name'') as_str) '''')"
    using assms(2) by (auto simp: private_event_def split: event_payload.splits sse_item_type.splits option.splits)
  then show ?thesis
  proof cases
    case added
    with assms(1) show ?thesis by (auto simp: route_def resolved_index dest: start_gateway_call elim!: and_then_InrE)
  next
    case delta
    with assms(1) kept show ?thesis by (auto simp: route_def resolved_index translate_delta_def elim!: and_then_InrE)
  next
    case arguments
    with assms(1) show ?thesis by (intro ended) (auto simp: route_def resolved_index elim!: and_then_InrE)
  next
    case item
    with assms(1) show ?thesis by (intro ended) (auto simp: route_def resolved_index elim!: and_then_InrE)
  qed
qed

lemma private_events_hold_the_stream:
  assumes "run_steps (dispatch_step env) (new_dispatcher ctx) inputs = Inr d"
    and "private_event d f k" and "dispatcher_translate env f call d = Inr (tr, d')"
    and "run_steps (dispatch_step env) d' later = Inr d''"
  shows "tl_frames tr = [] \<and> (\<exists>j. dispatcher_defer_from d'' = Some j \<and> j \<le> k)"
proof -
  have ok: "dispatcher_ok env d"
    by (rule round.inv_run [OF new_dispatcher_ok assms(1)])
  from assms(3) obtain search fs restored where
      r: "route env f call (d\<lparr>dp_search := search, dp_terminal := terminal_after (ef_type f) (dp_terminal d)\<rparr>) = Inr (fs, d')"
      and restored: "collect_results (map (restore_frame env (dp_context d')) fs) = Inr restored" "tl_frames tr = restored"
    by (auto simp: dispatcher_translate_def elim!: and_then_InrE split: prod.splits)
  let ?d = "d\<lparr>dp_search := search, dp_terminal := terminal_after (ef_type f) (dp_terminal d)\<rparr>"
  have "dispatcher_ok env ?d" using ok by (simp add: dispatcher_ok_def buffer_ok_def gateway_deferred_def)
  moreover have "private_event ?d f k" using assms(2) by (simp only: private_event_fields)
  ultimately have "fs = []" "deferred_at d' k" using route_private [OF r] by blast+
  moreover have "dispatcher_ok env d'" using dispatcher_translate_keeps [OF assms(3)] ok by (simp add: keeps_def)
  then have "defers_still d' d''" by (rule round.grows_run [OF _ assms(4)])
  ultimately have "tl_frames tr = []" "deferred_at d'' k"
    using restored by (auto simp: deferred_at_def defers_still_def dest: order_trans)
  then show ?thesis by (auto simp: deferred_at_def dest!: defer_from_le(1) dest: order_trans)
qed

text \<open>
  C27: What waits for a name is counted and bounded. In every round the dispatcher's count of
  buffered bytes is exactly the size of the buffered events, at most 256 KiB, and every call with
  buffered events holds the stream at its index.
\<close>

theorem buffered_events_are_bounded:
  assumes "run_steps (dispatch_step env) (new_dispatcher ctx) inputs = Inr d"
  shows "dp_pending_bytes d = sum_list (map (\<lambda>(_, p). buffered_bytes env p) (dp_pending d))
    \<and> dp_pending_bytes d \<le> 256 * 1024
    \<and> (\<forall>k. im_get (dp_pending d) k \<noteq> None \<longrightarrow> (\<exists>j. dispatcher_defer_from d = Some j \<and> j \<le> k))"
proof -
  have "buffer_ok env d"
    using round.inv_run [OF new_dispatcher_ok assms] by (simp add: dispatcher_ok_def)
  then show ?thesis
    by (auto simp: buffer_ok_def im_total_def max_pending_function_bytes_def dest!: im_get_SomeD dest: defer_from_le(2)
        intro!: arg_cong [of _ _ sum_list] map_cong)
qed

text \<open>A round with one web search call at index 3.\<close>

definition web_context :: translation_context where
  "web_context = new_translation_context [(''web_search'', WebSearchType)] {} False"

definition call_frame :: "sse_event_type \<Rightarrow> event_payload \<Rightarrow> event_frame" where
  "call_frame t p = \<lparr>ef_type = t, ef_payload = p,
     ef_wire = \<lparr>we_event_type = None, we_sequence_number = None, we_output_index = None, we_rest = []\<rparr>\<rparr>"

definition web_call_added :: event_frame where
  "web_call_added = call_frame OutputItemAdded (POutputItemAdded ''fc_1'' TyFunctionCall (Some 3) (Some ''web_search'') None None None)"

definition web_call_delta :: event_frame where
  "web_call_delta = call_frame FunctionCallArgumentsDelta (PFunctionCallArgsDelta ''{'' None ''fc_1'' (Some 3))"

definition unnamed_call_added :: event_frame where
  "unnamed_call_added = call_frame OutputItemAdded (POutputItemAdded ''fc_1'' TyFunctionCall (Some 3) None None None None)"

lemmas round_eval = dispatcher_translate_def validate_search_frame_def lifecycle_name_def track_native_tool_search_def route_def
  new_dispatcher_def web_context_def new_translation_context_def call_frame_def resolved_output_index_def is_withheld_function_def
  ensure_function_is_available_def of_tool_error_def new_translator_def context_tool_type_def tool_search_name_def
  terminal_after_def

theorem buffered_events_are_bounded_witness:
  "\<exists>d. run_steps (dispatch_step (plain_text_env '''' JNull)) (new_dispatcher web_context) [(unnamed_call_added, None)] = Inr d
    \<and> dp_pending_bytes d = 2 \<and> dp_pending_bytes d = sum_list (map (\<lambda>(_, p). buffered_bytes (plain_text_env '''' JNull) p) (dp_pending d))
    \<and> dp_pending_bytes d \<le> 256 * 1024"
proof -
  let ?env = "plain_text_env '''' JNull"
  have "\<exists>d. run_steps (dispatch_step ?env) (new_dispatcher web_context) [(unnamed_call_added, None)] = Inr d \<and> dp_pending_bytes d = 2"
    by (simp add: dispatch_step_def unnamed_call_added_def round_eval buffer_unnamed_def printed_def plain_text_env_def
        usize_saturating_add_def usize_max_def max_pending_function_bytes_def Let_def)
  then obtain d where run: "run_steps (dispatch_step ?env) (new_dispatcher web_context) [(unnamed_call_added, None)] = Inr d"
      and two: "dp_pending_bytes d = 2" by blast
  from buffered_events_are_bounded [OF run] have "dp_pending_bytes d = sum_list (map (\<lambda>(_, p). buffered_bytes ?env p) (dp_pending d))"
      "dp_pending_bytes d \<le> 256 * 1024" by blast+
  with run two show ?thesis by blast
qed

section \<open>The output of a round, item by item\<close>

text \<open>What one item becomes: an error, nothing, or the item the client gets.\<close>

definition public_item ::
  "codec \<Rightarrow> translation_context \<Rightarrow> response_status \<Rightarrow> string set \<Rightarrow> output_item \<Rightarrow> tool_error + output_item option" where
  "public_item c ctx status unfinished item =
     (case item of
        OutFunctionCall call \<Rightarrow>
          if is_withheld_function ctx (fc_name call) then Inl UpstreamWithheldFunctionCall
          else if context_tool_type ctx (fc_name call) = ToolSearchType then
            and_then (project_synthetic_call c call status (fc_id call \<in> unfinished)) (\<lambda>p. Inr (map_option OutToolSearchCall p))
          else if (status = StatusError \<or> status = StatusIncomplete) \<and> fc_id call \<in> unfinished then Inr None
          else Inr (Some item)
      | OutToolSearchCall call \<Rightarrow> and_then (project_native_call call status) (\<lambda>p. Inr (map_option OutToolSearchCall p))
      | _ \<Rightarrow> Inr (Some item))"

definition search_item :: "translation_context \<Rightarrow> output_item \<Rightarrow> bool" where
  "search_item ctx item \<longleftrightarrow>
     (case item of
        OutFunctionCall call \<Rightarrow>
          \<not> is_withheld_function ctx (fc_name call) \<and> context_tool_type ctx (fc_name call) = ToolSearchType
      | OutToolSearchCall _ \<Rightarrow> True
      | _ \<Rightarrow> False)"

lemma normalize_item_public:
  "normalize_item c ctx status unfinished (saw, items) item =
     (if saw \<and> search_item ctx item then Inl InvalidUpstreamToolSearch
      else and_then (public_item c ctx status unfinished item) (\<lambda>p.
        Inr (saw \<or> search_item ctx item, items @ (case p of None \<Rightarrow> [] | Some x \<Rightarrow> [x]))))"
proof -
  have parts: "items @ (case p of None \<Rightarrow> [] | Some p \<Rightarrow> [OutToolSearchCall p])
      = items @ (case map_option OutToolSearchCall p of None \<Rightarrow> [] | Some x \<Rightarrow> [x])" for p
    by (cases p) simp_all
  have lift: "and_then r (\<lambda>p. Inr (True, items @ (case p of None \<Rightarrow> [] | Some p \<Rightarrow> [OutToolSearchCall p])))
      = and_then (and_then r (\<lambda>p. Inr (map_option OutToolSearchCall p))) (\<lambda>p.
          Inr (True, items @ (case p of None \<Rightarrow> [] | Some x \<Rightarrow> [x])))" for r :: "tool_error + tool_search_call option"
    by (cases r) (simp_all add: parts)
  show ?thesis
    by (cases item) (simp_all add: normalize_item_def public_item_def search_item_def ensure_function_is_available_def lift)
qed

lemma normalize_items_public:
  "run_steps (normalize_item c ctx status unfinished) (saw, items) produced = Inr (saw', items')
   \<longleftrightarrow> length (filter (search_item ctx) produced) \<le> (if saw then 0 else 1)
      \<and> saw' = (saw \<or> filter (search_item ctx) produced \<noteq> [])
      \<and> (\<exists>ps. collect_results (map (public_item c ctx status unfinished) produced) = Inr ps
            \<and> items' = items @ List.map_filter id ps)"
proof (induction produced arbitrary: saw items)
  case Nil
  show ?case by (auto simp: List.map_filter_def)
next
  case (Cons item produced)
  show ?case
  proof (cases "saw \<and> search_item ctx item")
    case True
    then show ?thesis by (simp add: normalize_item_public)
  next
    case False
    show ?thesis
    proof (cases "public_item c ctx status unfinished item")
      case (Inl e)
      with False show ?thesis by (simp add: normalize_item_public)
    next
      case (Inr p)
      have run_eq: "run_steps (normalize_item c ctx status unfinished) (saw, items) (item # produced) =
          run_steps (normalize_item c ctx status unfinished)
            (saw \<or> search_item ctx item, items @ (case p of None \<Rightarrow> [] | Some x \<Rightarrow> [x])) produced"
        unfolding run_steps.simps normalize_item_public if_not_P [OF False] Inr by simp
      have ps_eq: "(\<exists>ps. collect_results (map (public_item c ctx status unfinished) (item # produced)) = Inr ps \<and> items' = items @ List.map_filter id ps)
          \<longleftrightarrow> (\<exists>ps. collect_results (map (public_item c ctx status unfinished) produced) = Inr ps
            \<and> items' = (items @ (case p of None \<Rightarrow> [] | Some x \<Rightarrow> [x])) @ List.map_filter id ps)"
        using Inr by (cases p) (auto simp: List.map_filter_def split: sum.splits)
      show ?thesis unfolding run_eq ps_eq Cons.IH using False by auto
    qed
  qed
qed

text \<open>
  What a search call of the model needs to be shown: a finished one its identifiers, the reserved
  name and arguments that parse; one left unfinished an aborted stream, and its identifiers when
  the stream was only cut short.
\<close>

definition identified :: "function_tool_call \<Rightarrow> bool" where
  "identified call \<longleftrightarrow>
     str_trim (fc_id call) \<noteq> '''' \<and> str_trim (fc_call_id call) \<noteq> ''''
     \<and> fc_name call = tool_search_name \<and> fc_namespace call = None"

definition finished_call :: "string set \<Rightarrow> function_tool_call \<Rightarrow> bool" where
  "finished_call unfinished call \<longleftrightarrow> fc_status call = MessageCompleted \<and> fc_id call \<notin> unfinished"

definition aborted :: "response_status \<Rightarrow> bool" where
  "aborted status \<longleftrightarrow> status = StatusError \<or> status = StatusIncomplete"

definition showable :: "codec \<Rightarrow> translation_context \<Rightarrow> response_status \<Rightarrow> string set \<Rightarrow> output_item \<Rightarrow> bool" where
  "showable c ctx status unfinished item \<longleftrightarrow>
     (case item of
        OutFunctionCall call \<Rightarrow>
          fc_name call \<notin> tc_withheld ctx
          \<and> (context_tool_type ctx (fc_name call) = ToolSearchType \<longrightarrow>
               (if finished_call unfinished call then identified call \<and> cd_parse c (fc_arguments call) \<noteq> None
                else aborted status \<and> (status = StatusIncomplete \<longrightarrow> identified call)))
      | OutToolSearchCall call \<Rightarrow> ts_status call = SearchCompleted \<or> aborted status
      | _ \<Rightarrow> True)"

text \<open>What the client gets for one item of the model.\<close>

definition shown :: "codec \<Rightarrow> translation_context \<Rightarrow> response_status \<Rightarrow> string set \<Rightarrow> output_item \<Rightarrow> output_item list" where
  "shown c ctx status unfinished item =
     (case item of
        OutFunctionCall call \<Rightarrow>
          if context_tool_type ctx (fc_name call) = ToolSearchType
          then
            (if finished_call unfinished call
             then [OutToolSearchCall \<lparr>ts_id = search_public_item_id (fc_id call), ts_call_id = fc_call_id call,
                     ts_execution = SearchClient, ts_arguments = the (cd_parse c (fc_arguments call)), ts_status = SearchCompleted\<rparr>]
             else if status = StatusIncomplete
             then [OutToolSearchCall \<lparr>ts_id = search_public_item_id (fc_id call), ts_call_id = fc_call_id call,
                     ts_execution = SearchClient, ts_arguments = JObject [], ts_status = SearchIncomplete\<rparr>]
             else [])
          else if aborted status \<and> fc_id call \<in> unfinished then []
          else [item]
      | OutToolSearchCall call \<Rightarrow>
          if ts_status call = SearchCompleted then [item]
          else if status = StatusIncomplete then [OutToolSearchCall (call\<lparr>ts_status := SearchIncomplete\<rparr>)]
          else []
      | _ \<Rightarrow> [item])"

lemma public_item_shown:
  "public_item c ctx status unfinished item = Inr p \<longleftrightarrow>
     showable c ctx status unfinished item \<and> shown c ctx status unfinished item = (case p of None \<Rightarrow> [] | Some x \<Rightarrow> [x])"
proof (cases item)
  case (OutFunctionCall call)
  show ?thesis
    by (cases status; cases p; cases "cd_parse c (fc_arguments call)")
      (auto simp: OutFunctionCall public_item_def showable_def shown_def is_withheld_function_def project_synthetic_call_def
        completed_public_call_def started_public_call_def search_arguments_def finished_call_def identified_def aborted_def
        result_simps)
next
  case (OutToolSearchCall call)
  show ?thesis
    by (cases status; cases p)
      (auto simp: OutToolSearchCall public_item_def showable_def shown_def project_native_call_def aborted_def result_simps)
qed (cases p; simp add: public_item_def showable_def shown_def)+

definition shown_option :: "codec \<Rightarrow> translation_context \<Rightarrow> response_status \<Rightarrow> string set \<Rightarrow> output_item \<Rightarrow> output_item option" where
  "shown_option c ctx status unfinished item = (case shown c ctx status unfinished item of [] \<Rightarrow> None | x # _ \<Rightarrow> Some x)"

lemma shown_by_option:
  "shown c ctx status unfinished item = (case shown_option c ctx status unfinished item of None \<Rightarrow> [] | Some x \<Rightarrow> [x])"
  by (auto simp: shown_option_def shown_def split: output_item.splits if_splits)

lemma public_item_option:
  "public_item c ctx status unfinished item = Inr p \<longleftrightarrow>
     showable c ctx status unfinished item \<and> p = shown_option c ctx status unfinished item"
  unfolding public_item_shown by (auto simp: shown_by_option split: option.splits)

lemma collect_public_items:
  "(\<exists>ps. collect_results (map (public_item c ctx status unfinished) produced) = Inr ps \<and> xs = List.map_filter id ps) \<longleftrightarrow>
     list_all (showable c ctx status unfinished) produced \<and> xs = concat (map (shown c ctx status unfinished) produced)"
proof -
  have "map (public_item c ctx status unfinished) produced = map Inr ps \<longleftrightarrow>
      list_all (showable c ctx status unfinished) produced \<and> ps = map (shown_option c ctx status unfinished) produced" for ps
  proof (induction produced arbitrary: ps)
    case (Cons item produced)
    then show ?case by (cases ps) (auto simp: public_item_option)
  qed auto
  moreover have "List.map_filter id (map (shown_option c ctx status unfinished) produced) = concat (map (shown c ctx status unfinished) produced)"
    by (induction produced) (auto simp: List.map_filter_simps shown_by_option split: option.splits)
  ultimately show ?thesis by (simp add: collect_results_Inr)
qed

text \<open>
  C20: The output of a round, item by item. Normalizing succeeds exactly when at most one item is a
  call of the tool search, no item calls a withheld function, and every search call can be shown. A
  finished call needs its identifiers, the reserved name and arguments that parse; an unfinished
  one needs a stream that failed or ended incomplete, in the second case its identifiers and the
  reserved name too; a search item of the server itself must be completed unless the stream failed
  or ended incomplete. Then each item becomes its public form on its own, in order: finished search
  calls become search items under the same call identifier with the parsed arguments; when the
  stream ended incomplete, unfinished ones become incomplete search items, when it failed they
  disappear; other calls left unfinished by such streams disappear; everything else stays, and
  flat names of namespace members are restored.
\<close>

theorem round_output_is_normalized_by_item:
  "normalize_response_output c ctx status unfinished produced = Inr items
   \<longleftrightarrow> length (filter (search_item ctx) produced) \<le> 1
      \<and> list_all (showable c ctx status unfinished) produced
      \<and> items = restore_output_items (tc_namespace_map ctx) (concat (map (shown c ctx status unfinished) produced))"
proof -
  have "normalize_search_output c ctx status unfinished produced = Inr xs
      \<longleftrightarrow> (\<exists>saw. run_steps (normalize_item c ctx status unfinished) (False, []) produced = Inr (saw, xs))" for xs
    by (auto simp: normalize_search_output_def result_simps)
  then have "normalize_search_output c ctx status unfinished produced = Inr xs
      \<longleftrightarrow> length (filter (search_item ctx) produced) \<le> 1
        \<and> (\<exists>ps. collect_results (map (public_item c ctx status unfinished) produced) = Inr ps \<and> xs = List.map_filter id ps)" for xs
    by (auto simp: normalize_items_public)
  moreover have "of_tool_error r = Inr x \<longleftrightarrow> r = Inr x" for r :: "tool_error + output_item list" and x
    by (cases r) (simp_all add: of_tool_error_def)
  ultimately show ?thesis
    by (auto simp: normalize_response_output_def result_simps collect_public_items)
qed

end
