(* ===== verification/Upstream_Request.thy ===== *)
theory Upstream_Request
  imports Registry Compaction
begin

text \<open>
  The request the inference server gets (\<open>to_upstream_request\<close> in \<open>types/request_response.rs\<close>,
  \<open>upstream_request\<close> in \<open>executor/upstream.rs\<close>): every tool declaration becomes function tools
  through its handler (\<open>tool/normalize.rs\<close>, \<open>function.rs\<close>, \<open>custom.rs\<close>, \<open>shell.rs\<close>,
  \<open>tool_search.rs\<close>, \<open>web_search.rs\<close>, \<open>codex.rs\<close>, \<open>mcp/handler.rs\<close>), history and tool choice
  speak of the flat names, and the fields of the gateway itself are left out.
\<close>

section \<open>Function tools\<close>

record function_tool =
  fn_name :: string
  fn_description :: "string option"
  fn_parameters :: "json option"
  fn_strict :: "bool option"

definition function_tool_of_param :: "function_tool_param \<Rightarrow> function_tool" where
  "function_tool_of_param p =
     \<lparr>fn_name = tool_name_str (ftp_name p), fn_description = ftp_description p, fn_parameters = ftp_parameters p,
      fn_strict = ftp_strict p\<rparr>"

definition json_type :: "string \<Rightarrow> (string \<times> json) list \<Rightarrow> json" where
  "json_type t rest = JObject ((''type'', JString t) # rest)"

definition described :: "string \<Rightarrow> string \<times> json" where
  "described s = (''description'', JString s)"

definition json_number_of :: "nat \<Rightarrow> json" where
  "json_number_of n = JNumber (PosInt (of_nat n))"

definition string_array :: "(string \<times> json) list \<Rightarrow> json" where
  "string_array rest = json_type ''array'' ((''items'', json_type ''string'' []) # rest)"

definition max_web_search_queries :: usize where
  "max_web_search_queries = 5"

definition web_search_function_tool :: function_tool where
  "web_search_function_tool =
     \<lparr>fn_name = ''web_search'',
      fn_description = Some ''Search the public web for current information and return structured web and news results.'',
      fn_parameters = Some (json_type ''object''
        [(''properties'', JObject
           [(''query'', json_type ''string'' [described ''The natural language web search query.'']),
            (''queries'', string_array [(''minItems'', json_number_of 1), (''maxItems'', json_number_of max_web_search_queries),
               described ''Multiple independent search queries to run in parallel, instead of a single query.'']),
            (''count'', json_type ''integer'' [described ''Maximum results per section, from 1 to 100.'']),
            (''freshness'', json_type ''string''
               [described ''Optional recency filter: day, week, month, year, or YYYY-MM-DDtoYYYY-MM-DD.'']),
            (''country'', json_type ''string'' [described ''Optional ISO 3166-1 alpha-2 country code.'']),
            (''language'', json_type ''string'' [described ''Optional BCP 47 language code.'']),
            (''include_domains'', string_array [described ''Optional strict allowlist of domains.'']),
            (''exclude_domains'', string_array [described ''Optional domain blocklist.''])]),
         (''anyOf'', JArray [JObject [(''required'', JArray [JString ''query''])],
                           JObject [(''required'', JArray [JString ''queries''])]])]),
      fn_strict = Some False\<rparr>"

definition shell_function_tool :: function_tool where
  "shell_function_tool =
     \<lparr>fn_name = shell_function_name,
      fn_description = Some (''Run one or more commands in the caller-provided local shell environment. '' @
        ''The caller executes the commands and returns their outputs.''),
      fn_parameters = Some (json_type ''object''
        [(''properties'', JObject
           [(''commands'', string_array [(''minItems'', json_number_of 1), described ''Commands to execute in order.'']),
            (''timeout_ms'', json_type ''integer'' [(''minimum'', json_number_of 0), described ''Optional timeout in milliseconds.'']),
            (''max_output_length'', json_type ''integer''
               [(''minimum'', json_number_of 0), described ''Optional maximum captured output length.''])]),
         (''required'', JArray [JString ''commands'']), (''additionalProperties'', JBool False)]),
      fn_strict = Some False\<rparr>"

section \<open>Tool search and custom tools\<close>

definition default_search_parameters :: json where
  "default_search_parameters = json_type ''object''
     [(''properties'', JObject [(''query'', json_type ''string'' [described ''A concise description of the needed capabilities.''])]),
      (''required'', JArray [JString ''query'']), (''additionalProperties'', JBool False)]"

definition normalized_search_param :: "tool_search_tool_param \<Rightarrow> tool_search_tool_param" where
  "normalized_search_param p =
     p\<lparr>tsp_description := Some (unwrap_or (filter_option (\<lambda>s. str_trim s \<noteq> '''') (tsp_description p)) ''Search the client tool catalog''),
       tsp_parameters := Some (unwrap_or (tsp_parameters p) default_search_parameters)\<rparr>"

definition tool_search_function_tool :: "tool_search_tool_param \<Rightarrow> function_tool" where
  "tool_search_function_tool p =
     \<lparr>fn_name = tool_search_name, fn_description = tsp_description (normalized_search_param p),
      fn_parameters = tsp_parameters (normalized_search_param p), fn_strict = Some False\<rparr>"

text \<open>The description of a custom tool; \<open>print\<close> writes its extra fields.\<close>

definition model_visible_description :: "json_printer \<Rightarrow> custom_tool_param \<Rightarrow> string" where
  "model_visible_description print p =
     (let own = (case filter_option (\<lambda>s. s \<noteq> '''') (map_option str_trim (ctp_description p)) of None \<Rightarrow> [] | Some d \<Rightarrow> [d]);
          note = [''Provide the raw tool input in the `input` string field.''];
          extra = (if ctp_extra p = [] then []
                   else case print (JObject (ctp_extra p)) of
                     Inl _ \<Rightarrow> []
                   | Inr s \<Rightarrow> [''Additional custom tool declaration fields that must be respected:'' @ [newline] @ s])
      in join_with [newline, newline] (own @ note @ extra))"

definition custom_function_tool :: "json_printer \<Rightarrow> custom_tool_param \<Rightarrow> function_tool" where
  "custom_function_tool print p =
     \<lparr>fn_name = tool_name_str (ctp_name p), fn_description = Some (model_visible_description print p),
      fn_parameters = Some (json_type ''object''
        [(''properties'', JObject [(''input'', json_type ''string''
            [described ''Raw custom tool input. Follow the tool description and declared format exactly.''])]),
         (''required'', JArray [JString ''input'']), (''additionalProperties'', JBool False)]),
      fn_strict = Some True\<rparr>"

definition custom_selector_declared :: "(string, custom_tool_param) index_map option \<Rightarrow> non_empty_tool_name \<Rightarrow> tool_error + unit" where
  "custom_selector_declared m name =
     (if Option.bind m (\<lambda>d. im_get d (tool_name_str name)) \<noteq> None then Inr ()
      else Inl (Config (''tool_choice selects custom tool '' @ [CHR 0x27] @ tool_name_str name @ [CHR 0x27]
        @ '', but no matching custom tool is declared'')))"

definition validate_custom_choice :: "responses_tool list option \<Rightarrow> tool_choice \<Rightarrow> tool_error + unit" where
  "validate_custom_choice tools choice =
     (let m = Option.bind tools build_tool_map
      in case choice of
           ChoiceCustom name \<Rightarrow> custom_selector_declared m name
         | ChoiceAllowedTools _ ts \<Rightarrow>
             run_steps (\<lambda>_ t. if tool_name_str (at_type t) = ''custom'' then custom_selector_declared m (at_name t) else Inr ()) () ts
         | _ \<Rightarrow> Inr ())"

section \<open>Validation and lowering of declarations\<close>

text \<open>The handlers behind \<open>ResponsesTool::validate\<close>.\<close>

definition quoted_name :: "string \<Rightarrow> string" where
  "quoted_name s = [CHR 0x27] @ s @ [CHR 0x27]"

definition validate_custom_tool :: "custom_tool_param \<Rightarrow> tool_error + unit" where
  "validate_custom_tool p =
     (let name = tool_name_str (ctp_name p)
      in if ctp_defer_loading p = Some True
         then Inl (Config (''custom tool '' @ quoted_name name
           @ '' cannot use defer_loading because deferred custom tools are not supported''))
         else if (case ctp_format p of None \<Rightarrow> False | Some f \<Rightarrow> Option.bind (json_get f ''type'') as_str \<noteq> Some ''text'')
         then Inl (Config (''custom tool '' @ quoted_name name
           @ '' uses an unsupported format; gateway normalization cannot preserve constrained decoding''))
         else Inr ())"

fun validate_tool :: "responses_tool \<Rightarrow> tool_error + unit" where
  "validate_tool (FunctionTool p) =
     (if tool_name_str (ftp_name p) = '''' then Inl (Config ''function tool must have a non-empty name'') else Inr ())"
| "validate_tool (McpTool p) =
     (if mtp_defer_loading p = Some True
      then Inl (Config (''MCP tool '' @ quoted_name (mtp_server_label p)
        @ '' cannot use defer_loading because deferred MCP tools are not supported''))
      else Inr ())"
| "validate_tool (ToolSearchTool p) =
     (if (case tsp_parameters p of None \<Rightarrow> False | Some v \<Rightarrow> as_object v = None)
      then Inl (Config ''tool_search parameters must be a JSON object for private function lowering'') else Inr ())"
| "validate_tool (ShellTool p) =
     (case stp_environment p of
        LocalShell _ \<Rightarrow> Inr ()
      | UnknownShell _ \<Rightarrow> Inl (Config (''shell tool currently supports only environment.type='' @ quoted_name ''local'')))"
| "validate_tool (CustomTool p) = validate_custom_tool p"
| "validate_tool _ = Inr ()"

text \<open>
  A discovered MCP tool is the JSON of \<open>rmcp::model::Tool\<close>; its input schema is an object, and a
  missing or null \<open>properties\<close> becomes an empty object.
\<close>

definition discovered_mcp_function_tool :: "mcp_discovered_tool_param \<Rightarrow> function_tool" where
  "discovered_mcp_function_tool p =
     \<lparr>fn_name = mdp_internal_name p, fn_description = Option.bind (json_get (mdp_tool p) ''description'') as_str,
      fn_parameters = Some (case json_at (mdp_tool p) ''inputSchema'' of
        JObject m \<Rightarrow> JObject (if im_get m ''properties'' \<in> {None, Some JNull} then im_insert ''properties'' (JObject []) m else m)
      | other \<Rightarrow> other),
      fn_strict = Some False\<rparr>"

fun member_function :: "codex_namespace_member \<Rightarrow> function_tool option" where
  "member_function (MemberFunction p) = Some (function_tool_of_param p)"
| "member_function MemberUnknown = None"

fun to_function_tools :: "json_printer \<Rightarrow> responses_tool \<Rightarrow> function_tool list" where
  "to_function_tools print (FunctionTool p) = [function_tool_of_param p]"
| "to_function_tools print (McpTool p) = map discovered_mcp_function_tool (mtp_discovered_tools p)"
| "to_function_tools print (ToolSearchTool p) = [tool_search_function_tool p]"
| "to_function_tools print (WebSearchTool _) = [web_search_function_tool]"
| "to_function_tools print (ShellTool _) = [shell_function_tool]"
| "to_function_tools print (NamespaceTool p) = List.map_filter member_function (ntp_tools p)"
| "to_function_tools print (CustomTool p) = [custom_function_tool print p]"
| "to_function_tools print (FileSearchTool _) = []"
| "to_function_tools print CodeInterpreterTool = []"
| "to_function_tools print UnknownTool = []"

section \<open>The upstream request\<close>

record upstream_request =
  up_model :: string
  up_input :: responses_input
  up_stream :: bool
  up_instructions :: "string option"
  up_tools :: "function_tool list option"
  up_tool_choice :: "tool_choice option"
  up_include :: "string list option"
  up_reasoning :: "reasoning_config option"
  up_text :: "response_text_config option"
  up_temperature :: "f64 option"
  up_top_p :: "f64 option"
  up_max_output_tokens :: "u32 option"
  up_ignore_eos :: "bool option"
  up_truncation :: "string option"
  up_metadata :: "json option"
  up_parallel_tool_calls :: "bool option"
  up_cache_salt :: "string option"

definition upstream_tools :: "json_printer \<Rightarrow> responses_tool list option \<Rightarrow> tool_error + function_tool list option" where
  "upstream_tools print tools =
     (case tools of
        None \<Rightarrow> Inr None
      | Some ts \<Rightarrow>
          and_then (resolve_namespace_members ts) (\<lambda>renamed.
          and_then (run_steps (\<lambda>_ t. validate_tool t) () renamed) (\<lambda>_.
            Inr (filter_option (\<lambda>fs. fs \<noteq> []) (Some (concat (map (to_function_tools print) renamed)))))))"

definition to_upstream_request :: "json_printer \<Rightarrow> bool \<Rightarrow> request_payload \<Rightarrow> tool_error + upstream_request" where
  "to_upstream_request print stream r =
     and_then (upstream_tools print (rq_tools r)) (\<lambda>tools.
     and_then (build_namespace_map (rq_tools r)) (\<lambda>nm.
       let choice = namespace_tool_choice nm (rq_tool_choice r)
       in and_then (validate_custom_choice (rq_tools r) choice) (\<lambda>_.
            Inr \<lparr>up_model = rq_model r, up_input = namespace_input nm (model_input (rq_input r)), up_stream = stream,
                 up_instructions = rq_instructions r, up_tools = tools, up_tool_choice = Some choice,
                 up_include = rq_include r, up_reasoning = rq_reasoning r, up_text = rq_text r,
                 up_temperature = rq_temperature r, up_top_p = rq_top_p r, up_max_output_tokens = rq_max_output_tokens r,
                 up_ignore_eos = rq_ignore_eos r, up_truncation = rq_truncation r, up_metadata = rq_metadata r,
                 up_parallel_tool_calls = Some (unwrap_or (rq_parallel_tool_calls r) False),
                 up_cache_salt = rq_cache_salt r\<rparr>)))"

text \<open>
  The derived serializer of the request: absent fields are skipped, the tool choice too when it is
  automatic; the forms of nested library values are parameters.
\<close>

record request_forms =
  rf_input :: "responses_input \<Rightarrow> json"
  rf_reasoning :: "reasoning_config \<Rightarrow> json"
  rf_text :: "response_text_config \<Rightarrow> json"
  rf_number :: "f64 \<Rightarrow> json"

definition json_or_null :: "('a \<Rightarrow> json) \<Rightarrow> 'a option \<Rightarrow> json" where
  "json_or_null f v = (case v of None \<Rightarrow> JNull | Some x \<Rightarrow> f x)"

definition function_tool_to_json :: "function_tool \<Rightarrow> json" where
  "function_tool_to_json t =
     json_type ''function'' [(''name'', JString (fn_name t)), (''description'', json_or_null JString (fn_description t)),
       (''parameters'', json_or_null id (fn_parameters t)), (''strict'', json_or_null JBool (fn_strict t))]"

definition is_absent_or_default_tool_choice :: "tool_choice option \<Rightarrow> bool" where
  "is_absent_or_default_tool_choice choice \<longleftrightarrow> choice \<in> {None, Some ChoiceAuto}"

definition serialize_upstream_tool_choice :: "tool_choice option \<Rightarrow> json" where
  "serialize_upstream_tool_choice choice = json_or_null tool_choice_to_json (map_option normalized_for_upstream choice)"

definition present :: "string \<Rightarrow> ('a \<Rightarrow> json) \<Rightarrow> 'a option \<Rightarrow> (string \<times> json) list" where
  "present k f v = (case v of None \<Rightarrow> [] | Some x \<Rightarrow> [(k, f x)])"

definition upstream_request_to_json :: "request_forms \<Rightarrow> upstream_request \<Rightarrow> json" where
  "upstream_request_to_json forms u =
     JObject ([(''model'', JString (up_model u)), (''input'', rf_input forms (up_input u)), (''stream'', JBool (up_stream u))]
       @ present ''instructions'' JString (up_instructions u)
       @ present ''tools'' (\<lambda>ts. JArray (map function_tool_to_json ts)) (up_tools u)
       @ (if is_absent_or_default_tool_choice (up_tool_choice u) then []
          else [(''tool_choice'', serialize_upstream_tool_choice (up_tool_choice u))])
       @ present ''include'' (\<lambda>xs. JArray (map JString xs)) (up_include u)
       @ present ''reasoning'' (rf_reasoning forms) (up_reasoning u)
       @ present ''text'' (rf_text forms) (up_text u)
       @ present ''temperature'' (rf_number forms) (up_temperature u)
       @ present ''top_p'' (rf_number forms) (up_top_p u)
       @ present ''max_output_tokens'' json_u32_value (up_max_output_tokens u)
       @ present ''ignore_eos'' JBool (up_ignore_eos u)
       @ present ''truncation'' JString (up_truncation u)
       @ present ''metadata'' id (up_metadata u)
       @ present ''parallel_tool_calls'' JBool (up_parallel_tool_calls u)
       @ present ''cache_salt'' JString (up_cache_salt u))"

definition upstream_request_text :: "json_printer \<Rightarrow> request_forms \<Rightarrow> bool \<Rightarrow> request_context \<Rightarrow> executor_error + string" where
  "upstream_request_text print forms stream ctx =
     and_then (validate_message_files (rq_input (rc_enriched_request ctx))) (\<lambda>_.
       case to_upstream_request print stream (rc_enriched_request ctx) of
         Inl e \<Rightarrow> Inl (Tool e)
       | Inr u \<Rightarrow> (case print (upstream_request_to_json forms u) of Inl e \<Rightarrow> Inl (JsonError e) | Inr s \<Rightarrow> Inr s))"

section \<open>What stays in the gateway\<close>

text \<open>A request without the settings that only the gateway reads.\<close>

fun without_tool_settings :: "responses_tool \<Rightarrow> responses_tool" where
  "without_tool_settings (FunctionTool p) = FunctionTool (p\<lparr>ftp_defer_loading := None, ftp_extra := []\<rparr>)"
| "without_tool_settings (McpTool p) = McpTool (p\<lparr>mtp_server_url := None, mtp_connector_id := None, mtp_headers := None,
     mtp_authorization := None, mtp_allowed_tools := None, mtp_require_approval := None\<rparr>)"
| "without_tool_settings (WebSearchTool p) = WebSearchTool (p\<lparr>wtp_search_context_size := None, wtp_filters := None, wtp_user_location := None\<rparr>)"
| "without_tool_settings (FileSearchTool p) = FileSearchTool (p\<lparr>fsp_vector_store_ids := None\<rparr>)"
| "without_tool_settings (ShellTool p) = ShellTool (p\<lparr>stp_allowed_callers := None, stp_extra := []\<rparr>)"
| "without_tool_settings (NamespaceTool p) = NamespaceTool (p\<lparr>ntp_description := None, ntp_extra := []\<rparr>)"
| "without_tool_settings t = t"

definition without_gateway_settings :: "request_payload \<Rightarrow> request_payload" where
  "without_gateway_settings r =
     r\<lparr>rq_previous_response_id := None, rq_conversation_id := None, rq_stream := False, rq_store := False,
       rq_context_management := None, rq_tools := map_option (map without_tool_settings) (rq_tools r)\<rparr>"

lemma top_level_registry_key_without [simp]: "top_level_registry_key (without_tool_settings t) = top_level_registry_key t"
  by (cases t) simp_all

lemma typed_keys_without [simp]: "typed_top_level_registry_keys (map without_tool_settings ts) = typed_top_level_registry_keys ts"
  by (simp add: typed_top_level_registry_keys_def fold_map comp_def)

lemma rename_namespace_members_without:
  "rename_namespace_members (p\<lparr>ntp_description := None, ntp_extra := []\<rparr>) b =
     map_sum id (\<lambda>(p', b'). (p'\<lparr>ntp_description := None, ntp_extra := []\<rparr>, b')) (rename_namespace_members p b)"
  by (cases "rename_members (ntp_name p) (ntp_tools p) b") (auto simp: rename_namespace_members_def)

lemma resolve_members_without:
  "resolve_members (map without_tool_settings ts) b =
     map_sum id (\<lambda>(ts', b'). (map without_tool_settings ts', b')) (resolve_members ts b)"
proof (induction ts b rule: resolve_members.induct)
  case (2 p ts b)
  then show ?case
    by (cases "rename_namespace_members p b"; cases "resolve_members ts (snd (projr (rename_namespace_members p b)))")
      (auto simp: rename_namespace_members_without)
qed (auto simp: and_then_def split: sum.splits)

lemma validate_tool_without [simp]: "validate_tool (without_tool_settings t) = validate_tool t"
  by (cases t) simp_all

lemma validate_tools_without [simp]:
  "run_steps (\<lambda>_ t. validate_tool t) u (map without_tool_settings ts) = run_steps (\<lambda>_ t. validate_tool t) u ts"
proof (induction ts arbitrary: u)
  case (Cons t ts)
  then show ?case by (cases "validate_tool t") simp_all
qed simp

lemma to_function_tools_without [simp]: "to_function_tools print (without_tool_settings t) = to_function_tools print t"
  by (cases t) (simp_all add: function_tool_of_param_def)

lemma upstream_tools_without: "upstream_tools print (map_option (map without_tool_settings) tools) = upstream_tools print tools"
proof (cases tools)
  case (Some ts)
  then show ?thesis
    by (cases "resolve_namespace_members ts")
      (auto simp: upstream_tools_def resolve_namespace_members_def resolve_members_without and_then_def comp_def split: sum.splits, blast+)
qed (simp add: upstream_tools_def)

lemma build_namespace_map_without: "build_namespace_map (map_option (map without_tool_settings) tools) = build_namespace_map tools"
  by (cases tools) (auto simp: build_namespace_map_def resolve_members_without and_then_def split: sum.splits)

lemma build_tool_map_without: "build_tool_map (map without_tool_settings ts) = build_tool_map ts"
proof -
  have "(case without_tool_settings t of CustomTool p \<Rightarrow> im_insert (tool_name_str (ctp_name p)) p m | _ \<Rightarrow> m)
      = (case t of CustomTool p \<Rightarrow> im_insert (tool_name_str (ctp_name p)) p m | _ \<Rightarrow> m)" for t m
    by (cases t) simp_all
  then show ?thesis by (simp only: build_tool_map_def fold_map comp_def)
qed

lemma validate_custom_choice_without:
  "validate_custom_choice (map_option (map without_tool_settings) tools) choice = validate_custom_choice tools choice"
  by (cases tools) (simp_all add: validate_custom_choice_def build_tool_map_without)

text \<open>
  C11: Nothing of the gateway goes upstream. The previous response, the conversation, the store flag,
  the compaction settings, and of the tools the MCP server addresses, headers and credentials, the
  search filters and locations and the allowed callers do not change the request the inference
  server gets, nor whether the request is refused.
\<close>

theorem gateway_settings_stay_private:
  "to_upstream_request print stream (without_gateway_settings r) = to_upstream_request print stream r"
  by (simp add: to_upstream_request_def without_gateway_settings_def upstream_tools_without build_namespace_map_without
      validate_custom_choice_without)

end
