(* ===== verification/Tool_Search.thy ===== *)
theory Tool_Search
  imports Upstream_Request
begin

text \<open>
  Preparing a request for the client-run tool search, \<open>tool/tool_search.rs\<close>. Deferred definitions
  are withheld from the model until a search returned them; the public history is replayed in
  order, searches load definitions, and the private view of tools and history is what goes upstream.
  Hash maps that are only looked up are maps, the records of definitions are vectors with indices
  as in the source. The derived serializers compare definitions; they are fields of \<open>search_forms\<close>.
\<close>

section \<open>Definitions and their state\<close>

datatype tool_identity = LoadedFunction string | is_LoadedNamespace: LoadedNamespace string

fun identity_name :: "tool_identity \<Rightarrow> string" where
  "identity_name (LoadedFunction name) = name"
| "identity_name (LoadedNamespace name) = name"

fun identity_kind :: "tool_identity \<Rightarrow> string" where
  "identity_kind (LoadedFunction _) = ''function''"
| "identity_kind (LoadedNamespace _) = ''namespace''"

record namespace_member_record =
  mr_canonical :: json
  mr_public_index :: usize
  mr_loaded :: bool

record namespace_member_records =
  ms_ordered :: "namespace_member_record list"
  ms_indexes :: "string \<rightharpoonup> usize"
  ms_unloaded :: usize

record definition_record =
  dr_identity :: tool_identity
  dr_canonical :: json
  dr_public_index :: usize
  dr_loaded :: bool
  dr_members :: "namespace_member_records option"

record definition_accumulator =
  da_public :: "responses_tool list"
  da_definitions :: "definition_record list"
  da_indexes :: "string \<rightharpoonup> usize"
  da_loaded :: "responses_tool list"
  da_withheld :: "string set"
  da_prior :: "string \<Rightarrow> string set"
  da_unqualified :: "string \<rightharpoonup> usize"
  da_position :: "usize option"

record search_forms =
  sf_tool :: "responses_tool \<Rightarrow> string + json"
  sf_function :: "function_tool_param \<Rightarrow> string + json"
  sf_print :: json_printer

definition config :: "string \<Rightarrow> tool_error + 'a" where
  "config m = Inl (Config m)"

definition reserved_search_name :: "tool_error + 'a" where
  "reserved_search_name =
     config (''model-visible tool name '' @ quoted_name tool_search_name @ '' is reserved while tool search is active'')"

definition declared_identity :: "tool_identity \<Rightarrow> tool_error + tool_identity option" where
  "declared_identity i =
     (if str_trim (identity_name i) = '''' then config (identity_kind i @ '' definition identity must not be blank'')
      else if identity_name i = tool_search_name then reserved_search_name
      else Inr (Some i))"

fun loaded_tool_identity :: "responses_tool \<Rightarrow> tool_error + tool_identity option" where
  "loaded_tool_identity (FunctionTool p) = declared_identity (LoadedFunction (tool_name_str (ftp_name p)))"
| "loaded_tool_identity (NamespaceTool p) = declared_identity (LoadedNamespace (ntp_name p))"
| "loaded_tool_identity _ = Inr None"

definition canonical_definition :: "search_forms \<Rightarrow> responses_tool \<Rightarrow> tool_error + json" where
  "canonical_definition forms t =
     (case sf_tool forms (case t of NamespaceTool p \<Rightarrow> NamespaceTool (p\<lparr>ntp_tools := []\<rparr>) | other \<Rightarrow> other) of
        Inl _ \<Rightarrow> config ''tool-search definition could not be compared safely''
      | Inr v \<Rightarrow> Inr v)"

definition canonical_namespace_member :: "search_forms \<Rightarrow> function_tool_param \<Rightarrow> tool_error + json" where
  "canonical_namespace_member forms f =
     (case sf_function forms f of
        Inl _ \<Rightarrow> config ''namespace member definition could not be compared safely''
      | Inr v \<Rightarrow> Inr v)"

text \<open>A duplicate member is refused; \<open>indexes.insert\<close> then replaced the older index of a map that is dropped.\<close>

definition add_member_record ::
  "search_forms \<Rightarrow> string \<Rightarrow> bool \<Rightarrow> namespace_member_records \<Rightarrow> usize \<times> codex_namespace_member
   \<Rightarrow> tool_error + namespace_member_records" where
  "add_member_record forms namespace dynamically_loaded ms indexed =
     (case indexed of
        (_, MemberUnknown) \<Rightarrow> config ''tool-search namespaces may contain only function members''
      | (i, MemberFunction f) \<Rightarrow>
          (let name = tool_name_str (ftp_name f)
           in if ms_indexes ms name \<noteq> None
              then config (''duplicate namespace member identity '' @ quoted_name (namespace @ ''.'' @ name))
              else
                and_then (canonical_namespace_member forms f) (\<lambda>c.
                let loaded = dynamically_loaded \<or> ftp_defer_loading f \<noteq> Some True
                in Inr \<lparr>ms_ordered = ms_ordered ms @ [\<lparr>mr_canonical = c, mr_public_index = i, mr_loaded = loaded\<rparr>],
                        ms_indexes = (ms_indexes ms)(name \<mapsto> length (ms_ordered ms)),
                        ms_unloaded = ms_unloaded ms + (if loaded then 0 else 1)\<rparr>)))"

definition namespace_member_records ::
  "search_forms \<Rightarrow> codex_namespace_tool_param \<Rightarrow> bool \<Rightarrow> tool_error + namespace_member_records" where
  "namespace_member_records forms p dynamically_loaded =
     (if ntp_tools p = [] then config ''tool-search namespaces must contain at least one function member''
      else run_steps (add_member_record forms (ntp_name p) dynamically_loaded)
             \<lparr>ms_ordered = [], ms_indexes = Map.empty, ms_unloaded = 0\<rparr> (enumerate 0 (ntp_tools p)))"

definition new_definition_record ::
  "search_forms \<Rightarrow> responses_tool \<Rightarrow> tool_identity \<Rightarrow> usize \<Rightarrow> bool \<Rightarrow> tool_error + definition_record" where
  "new_definition_record forms t identity public_index dynamically_loaded =
     and_then (case t of
         NamespaceTool p \<Rightarrow> and_then (namespace_member_records forms p dynamically_loaded) (\<lambda>ms. Inr (Some ms))
       | FunctionTool _ \<Rightarrow> Inr None
       | _ \<Rightarrow> config ''tool-search definition record received an unsupported tool'') (\<lambda>members.
     and_then (canonical_definition forms t) (\<lambda>c.
       Inr \<lparr>dr_identity = identity, dr_canonical = c, dr_public_index = public_index,
            dr_loaded = (case members of None \<Rightarrow> dynamically_loaded | Some ms \<Rightarrow> ms_unloaded ms = 0),
            dr_members = members\<rparr>))"

definition index_definition ::
  "search_forms \<Rightarrow> definition_accumulator \<Rightarrow> usize \<times> responses_tool \<Rightarrow> tool_error + definition_accumulator" where
  "index_definition forms a indexed =
     (case indexed of (public_index, t) \<Rightarrow>
        and_then (loaded_tool_identity t) (\<lambda>identity.
          case identity of
            None \<Rightarrow> Inr a
          | Some i \<Rightarrow>
              if da_indexes a (identity_name i) \<noteq> None
              then config (''duplicate tool-search definition identity '' @ quoted_name (identity_name i))
              else
                and_then (new_definition_record forms t i public_index False) (\<lambda>r.
                  Inr (a\<lparr>da_indexes := (da_indexes a)(identity_name i \<mapsto> length (da_definitions a)),
                         da_definitions := da_definitions a @ [r]\<rparr>))))"

definition inconsistent_namespace :: "tool_error + 'a" where
  "inconsistent_namespace = config ''namespace availability state is inconsistent''"

definition withheld_member ::
  "string \<Rightarrow> namespace_member_records \<Rightarrow> string set \<Rightarrow> codex_namespace_member \<Rightarrow> tool_error + string set" where
  "withheld_member namespace ms withheld m =
     (case m of
        MemberUnknown \<Rightarrow> Inr withheld
      | MemberFunction f \<Rightarrow>
          (let name = tool_name_str (ftp_name f)
           in case ms_indexes ms name of
                None \<Rightarrow> inconsistent_namespace
              | Some k \<Rightarrow>
                  Inr (if \<not> mr_loaded (ms_ordered ms ! k)
                       then insert (model_visible_namespace_member_name namespace name) withheld else withheld)))"

definition withheld_tool :: "definition_accumulator \<Rightarrow> string set \<Rightarrow> responses_tool \<Rightarrow> tool_error + string set" where
  "withheld_tool a withheld t =
     (case t of
        FunctionTool f \<Rightarrow>
          Inr (if ftp_defer_loading f = Some True then insert (tool_name_str (ftp_name f)) withheld else withheld)
      | NamespaceTool p \<Rightarrow>
          (case Option.bind (da_indexes a (ntp_name p))
                  (\<lambda>i. if i < length (da_definitions a) then dr_members (da_definitions a ! i) else None) of
             None \<Rightarrow> inconsistent_namespace
           | Some ms \<Rightarrow> run_steps (withheld_member (ntp_name p) ms) withheld (ntp_tools p))
      | _ \<Rightarrow> Inr withheld)"

definition initial_withheld_function_names :: "definition_accumulator \<Rightarrow> tool_error + string set" where
  "initial_withheld_function_names a = run_steps (withheld_tool a) {} (da_public a)"

section \<open>Loading a definition\<close>

definition withheld_function_history_call :: "tool_error + 'a" where
  "withheld_function_history_call = config ''request history calls a function before its definition is loaded''"

definition resolves_prior_call :: "string \<Rightarrow> definition_accumulator \<Rightarrow> codex_namespace_member \<Rightarrow> bool" where
  "resolves_prior_call namespace a m =
     (case m of
        MemberUnknown \<Rightarrow> False
      | MemberFunction f \<Rightarrow>
          (let name = tool_name_str (ftp_name f)
           in name \<in> da_prior a namespace \<or> da_unqualified a (model_visible_namespace_member_name namespace name) \<noteq> None))"

definition ensure_namespace_members_do_not_resolve_prior_calls ::
  "string \<Rightarrow> codex_namespace_member list \<Rightarrow> definition_accumulator \<Rightarrow> tool_error + unit" where
  "ensure_namespace_members_do_not_resolve_prior_calls namespace ms a =
     (if list_ex (resolves_prior_call namespace a) ms then withheld_function_history_call else Inr ())"

record member_loading =
  ld_members :: namespace_member_records
  ld_public :: "codex_namespace_member list"
  ld_withheld :: "string set"
  ld_new :: "codex_namespace_member list"

definition load_member ::
  "search_forms \<Rightarrow> string \<Rightarrow> member_loading \<Rightarrow> codex_namespace_member \<Rightarrow> tool_error + member_loading" where
  "load_member forms namespace s m =
     (case m of
        MemberUnknown \<Rightarrow> config ''tool_search_output namespaces may contain only function members''
      | MemberFunction f \<Rightarrow>
          (let name = tool_name_str (ftp_name f); ms = ld_members s
           in and_then (canonical_namespace_member forms f) (\<lambda>c.
                case ms_indexes ms name of
                  Some k \<Rightarrow>
                    (let r = ms_ordered ms ! k
                     in if mr_canonical r \<noteq> c
                        then config (''loaded namespace member '' @ quoted_name (namespace @ ''.'' @ name)
                          @ '' conflicts with its existing schema, description, or configuration'')
                        else if mr_loaded r then Inr s
                        else if ms_unloaded ms = 0 then config ''namespace member availability state is inconsistent''
                        else Inr (s\<lparr>ld_members := ms\<lparr>ms_ordered := (ms_ordered ms)[k := r\<lparr>mr_loaded := True\<rparr>],
                                       ms_unloaded := ms_unloaded ms - 1\<rparr>,
                                    ld_withheld := ld_withheld s - {model_visible_namespace_member_name namespace name},
                                    ld_new := ld_new s @ [ld_public s ! mr_public_index r]\<rparr>))
                | None \<Rightarrow>
                    Inr (s\<lparr>ld_members := ms\<lparr>ms_ordered := ms_ordered ms @
                               [\<lparr>mr_canonical = c, mr_public_index = length (ld_public s), mr_loaded = True\<rparr>],
                             ms_indexes := (ms_indexes ms)(name \<mapsto> length (ms_ordered ms))\<rparr>,
                           ld_public := ld_public s @ [m], ld_new := ld_new s @ [m]\<rparr>))))"

definition load_namespace_members ::
  "search_forms \<Rightarrow> codex_namespace_tool_param \<Rightarrow> usize \<Rightarrow> definition_accumulator \<Rightarrow> tool_error + definition_accumulator" where
  "load_namespace_members forms returned i a =
     (let r = da_definitions a ! i
      in if ntp_tools returned = []
         then config ''tool_search_output namespaces must contain at least one function member''
         else
           (case da_public a ! dr_public_index r of
              NamespaceTool public \<Rightarrow>
                (case dr_members r of
                   None \<Rightarrow> config ''namespace definition is missing prepared member state''
                 | Some ms \<Rightarrow>
                     and_then (ensure_namespace_members_do_not_resolve_prior_calls (ntp_name returned)
                       (filter (\<lambda>m. case m of MemberFunction f \<Rightarrow> ms_indexes ms (tool_name_str (ftp_name f)) = None | MemberUnknown \<Rightarrow> True)
                         (ntp_tools returned)) a) (\<lambda>_.
                     and_then (run_steps (load_member forms (ntp_name returned))
                       \<lparr>ld_members = ms, ld_public = ntp_tools public, ld_withheld = da_withheld a, ld_new = []\<rparr> (ntp_tools returned)) (\<lambda>s.
                       let public' = public\<lparr>ntp_tools := ld_public s\<rparr>
                       in Inr (a\<lparr>da_public := (da_public a)[dr_public_index r := NamespaceTool public'],
                                 da_definitions := (da_definitions a)[i := r\<lparr>dr_members := Some (ld_members s),
                                   dr_loaded := (ms_unloaded (ld_members s) = 0)\<rparr>],
                                 da_withheld := ld_withheld s,
                                 da_loaded := (if ld_new s = [] then da_loaded a
                                   else da_loaded a @ [NamespaceTool (public'\<lparr>ntp_tools := ld_new s\<rparr>)])\<rparr>))))
            | _ \<Rightarrow> config ''namespace identity conflicts with an existing non-namespace definition''))"

definition load_known :: "search_forms \<Rightarrow> responses_tool \<Rightarrow> tool_identity \<Rightarrow> json \<Rightarrow> usize \<Rightarrow> definition_accumulator
   \<Rightarrow> tool_error + definition_accumulator" where
  "load_known forms t identity canonical i a =
     (let r = da_definitions a ! i
      in if dr_identity r \<noteq> identity \<or> dr_canonical r \<noteq> canonical
         then config (''loaded definition for identity '' @ quoted_name (identity_name identity)
           @ '' conflicts with its existing type, schema, description, or configuration'')
         else
           (case t of
              NamespaceTool returned \<Rightarrow> load_namespace_members forms returned i a
            | _ \<Rightarrow>
                if dr_loaded r then Inr a
                else
                  (let name = identity_name (dr_identity r)
                   in if name \<in> da_withheld a \<and> da_unqualified a name \<noteq> None then withheld_function_history_call
                      else Inr (a\<lparr>da_definitions := (da_definitions a)[i := r\<lparr>dr_loaded := True\<rparr>],
                                  da_withheld := da_withheld a - {name},
                                  da_loaded := da_loaded a @ [da_public a ! dr_public_index r]\<rparr>))))"

definition load_unknown :: "search_forms \<Rightarrow> responses_tool \<Rightarrow> tool_identity \<Rightarrow> definition_accumulator
   \<Rightarrow> tool_error + definition_accumulator" where
  "load_unknown forms t identity a =
     and_then (case t of
         FunctionTool f \<Rightarrow>
           if da_unqualified a (tool_name_str (ftp_name f)) \<noteq> None then withheld_function_history_call else Inr ()
       | NamespaceTool p \<Rightarrow> ensure_namespace_members_do_not_resolve_prior_calls (ntp_name p) (ntp_tools p) a
       | _ \<Rightarrow> Inr ()) (\<lambda>_.
     and_then (new_definition_record forms t identity (length (da_public a)) True) (\<lambda>r.
       Inr (a\<lparr>da_public := da_public a @ [t],
              da_indexes := (da_indexes a)(identity_name identity \<mapsto> length (da_definitions a)),
              da_definitions := da_definitions a @ [r],
              da_loaded := da_loaded a @ [t]\<rparr>)))"

definition load_definition ::
  "search_forms \<Rightarrow> definition_accumulator \<Rightarrow> responses_tool \<Rightarrow> tool_error + definition_accumulator" where
  "load_definition forms a t =
     and_then (loaded_tool_identity t) (\<lambda>i.
       case i of
         None \<Rightarrow> config ''tool_search_output contains an unsupported tool definition''
       | Some identity \<Rightarrow>
           and_then (canonical_definition forms t) (\<lambda>canonical.
             case da_indexes a (identity_name identity) of
               Some index \<Rightarrow> load_known forms t identity canonical index a
             | None \<Rightarrow> load_unknown forms t identity a))"

text \<open>\<open>restored_definition_for_load\<close> and \<open>restore_loaded_definitions\<close>: a fresh view of the history.\<close>

definition restore_definition ::
  "search_forms \<Rightarrow> bool \<Rightarrow> definition_accumulator \<Rightarrow> responses_tool \<Rightarrow> tool_error + definition_accumulator" where
  "restore_definition forms restore_only_declared a t =
     and_then (loaded_tool_identity t) (\<lambda>i.
       case i of
         None \<Rightarrow> config ''stored tool-search availability contains an unsupported definition''
       | Some identity \<Rightarrow>
           if restore_only_declared \<and> da_indexes a (identity_name identity) = None then Inr a
           else load_definition forms a t)"

definition fresh_history :: "definition_accumulator \<Rightarrow> definition_accumulator" where
  "fresh_history a = a\<lparr>da_prior := (\<lambda>_. {}), da_unqualified := Map.empty, da_position := None\<rparr>"

definition restore_loaded_definitions ::
  "search_forms \<Rightarrow> responses_tool list \<Rightarrow> bool \<Rightarrow> definition_accumulator \<Rightarrow> tool_error + definition_accumulator" where
  "restore_loaded_definitions forms restored restore_only_declared a =
     run_steps (restore_definition forms restore_only_declared) (fresh_history a) restored"

section \<open>The private history\<close>

record history_replay =
  hr_items :: "input_item list"
  hr_unresolved :: "string option"
  hr_completed :: "string set"
  hr_item_ids :: "string set"
  hr_definitions :: definition_accumulator

definition ensure_history_call_is_available ::
  "input_function_tool_call \<Rightarrow> definition_accumulator \<Rightarrow> tool_error + definition_accumulator" where
  "ensure_history_call_is_available call a =
     (case ifn_namespace call of
        Some namespace \<Rightarrow>
          (case Option.bind (da_indexes a namespace) (\<lambda>i.
                  if i < length (da_definitions a) \<and> is_LoadedNamespace (dr_identity (da_definitions a ! i))
                  then Option.bind (dr_members (da_definitions a ! i)) (\<lambda>ms. map_option (\<lambda>k. ms_ordered ms ! k) (ms_indexes ms (ifn_name call)))
                  else None) of
             Some r \<Rightarrow> if mr_loaded r then Inr a else withheld_function_history_call
           | None \<Rightarrow> Inr (a\<lparr>da_prior := (da_prior a)(namespace := insert (ifn_name call) (da_prior a namespace))\<rparr>))
      | None \<Rightarrow>
          if ifn_name call \<in> da_withheld a then withheld_function_history_call
          else
            and_then (ok_or (da_position a) (Config ''tool-search history position is unavailable'')) (\<lambda>position.
              Inr (a\<lparr>da_unqualified := (case da_unqualified a (ifn_name call) of
                        None \<Rightarrow> (da_unqualified a)(ifn_name call \<mapsto> position) | Some _ \<Rightarrow> da_unqualified a)\<rparr>)))"

definition search_function_call :: "input_tool_search_call \<Rightarrow> string \<Rightarrow> input_item" where
  "search_function_call call arguments =
     InFunctionCall \<lparr>ifn_id = Some (its_id call), ifn_call_id = its_call_id call, ifn_name = tool_search_name,
       ifn_namespace = None, ifn_arguments = arguments, ifn_status = Some MessageCompleted\<rparr>"

definition prepare_search_call :: "search_forms \<Rightarrow> input_tool_search_call \<Rightarrow> history_replay \<Rightarrow> tool_error + history_replay" where
  "prepare_search_call forms call h =
     (if str_trim (its_id call) = '''' then config ''tool_search_call id must not be blank''
      else if str_trim (its_call_id call) = '''' then config ''tool_search_call call_id must not be blank''
      else if its_id call \<in> hr_item_ids h then config ''duplicate tool_search_call item id''
      else if hr_unresolved h \<noteq> None
      then config ''ambiguous tool-search history contains a call before the preceding call is resolved''
      else if its_call_id call \<in> hr_completed h then config ''duplicate tool_search_call call_id''
      else
        (case sf_print forms (its_arguments call) of
           Inl _ \<Rightarrow> config ''tool_search_call arguments could not be canonicalized safely''
         | Inr arguments \<Rightarrow>
             Inr (h\<lparr>hr_item_ids := insert (its_id call) (hr_item_ids h), hr_unresolved := Some (its_call_id call),
                    hr_items := hr_items h @ [search_function_call call arguments]\<rparr>)))"

text \<open>The canonical output. A flattened definition must be an object; its entries follow the type.\<close>

fun model_visible_loaded_tool :: "search_forms \<Rightarrow> responses_tool \<Rightarrow> tool_error + (string + json)" where
  "model_visible_loaded_tool forms (FunctionTool p) =
     Inr (case sf_function forms p of
            Inr (JObject m) \<Rightarrow> Inr (JObject (fold (\<lambda>(k, v). im_insert k v) m [(''type'', JString ''function'')]))
          | Inr _ \<Rightarrow> Inl ''can only flatten structs and maps''
          | Inl e \<Rightarrow> Inl e)"
| "model_visible_loaded_tool forms (NamespaceTool p) =
     Inr (Inr (JObject ([(''type'', JString ''namespace''), (''name'', JString (ntp_name p))]
       @ present ''description'' JString (ntp_description p))))"
| "model_visible_loaded_tool forms _ = config ''tool_search_output contains an unsupported model-output definition''"

definition canonical_search_output :: "search_forms \<Rightarrow> responses_tool list \<Rightarrow> tool_error + string" where
  "canonical_search_output forms tools =
     and_then (collect_results (map (model_visible_loaded_tool forms) tools)) (\<lambda>projected.
       case and_then (collect_results projected) (\<lambda>vs. sf_print forms (JObject [(''tools'', JArray vs)])) of
         Inl _ \<Rightarrow> config ''tool_search_output could not be canonicalized safely''
       | Inr s \<Rightarrow> Inr s)"

definition prepare_search_output :: "search_forms \<Rightarrow> tool_search_output_message \<Rightarrow> history_replay \<Rightarrow> tool_error + history_replay" where
  "prepare_search_output forms out h =
     (if str_trim (tso_call_id out) = '''' then config ''tool_search_output call_id must not be blank''
      else if tso_call_id out \<in> hr_completed h then config ''duplicate tool_search_output call_id''
      else
        (case hr_unresolved h of
           None \<Rightarrow> config ''orphan tool_search_output has no unresolved call''
         | Some pending \<Rightarrow>
             if pending \<noteq> tso_call_id out
             then config ''tool_search_output call_id does not match the preceding unresolved call''
             else if tso_status out \<noteq> SearchCompleted
             then config ''tool_search_output must be completed before it may load tool definitions''
             else
               and_then (run_steps (load_definition forms) (hr_definitions h) (tso_tools out)) (\<lambda>a.
               and_then (canonical_search_output forms (tso_tools out)) (\<lambda>s.
                 Inr (h\<lparr>hr_unresolved := None, hr_completed := insert (tso_call_id out) (hr_completed h),
                        hr_definitions := a,
                        hr_items := hr_items h @ [InFunctionCallOutput \<lparr>fr_call_id = tso_call_id out, fr_output = OutputString s\<rparr>]\<rparr>)))))"

definition replay_item :: "search_forms \<Rightarrow> history_replay \<Rightarrow> usize \<times> input_item \<Rightarrow> tool_error + history_replay" where
  "replay_item forms h0 indexed =
     (let h = h0\<lparr>hr_definitions := (hr_definitions h0)\<lparr>da_position := Some (fst indexed)\<rparr>\<rparr>
      in case snd indexed of
           InToolSearchCall call \<Rightarrow> prepare_search_call forms call h
         | InToolSearchOutput out \<Rightarrow> prepare_search_output forms out h
         | InFunctionCall call \<Rightarrow>
             and_then (ensure_history_call_is_available call (hr_definitions h)) (\<lambda>a.
               Inr (h\<lparr>hr_definitions := a, hr_items := hr_items h @ [InFunctionCall call]\<rparr>))
         | InCompactionTrigger \<Rightarrow> Inr h
         | item \<Rightarrow> Inr (h\<lparr>hr_items := hr_items h @ [item]\<rparr>))"

definition start_replay :: "definition_accumulator \<Rightarrow> history_replay" where
  "start_replay a =
     \<lparr>hr_items = [], hr_unresolved = None, hr_completed = {}, hr_item_ids = {}, hr_definitions = fresh_history a\<rparr>"

definition prepare_history ::
  "search_forms \<Rightarrow> responses_input \<Rightarrow> definition_accumulator \<Rightarrow> tool_error + responses_input \<times> definition_accumulator" where
  "prepare_history forms input a =
     (case input of
        TextInput _ \<Rightarrow> Inr (input, a)
      | ItemsInput items \<Rightarrow>
          and_then (run_steps (replay_item forms) (start_replay a) (enumerate 0 items)) (\<lambda>h.
            if hr_unresolved h \<noteq> None
            then config ''unresolved tool_search_call requires a matching completed tool_search_output''
            else Inr (ItemsInput (hr_items h), hr_definitions h)))"

section \<open>Views\<close>

text \<open>The record of a public tool, as \<open>loaded_tool_identity(tool).ok().flatten()\<close> and the index find it.\<close>

definition record_of :: "definition_accumulator \<Rightarrow> responses_tool \<Rightarrow> definition_record option" where
  "record_of a t =
     (case loaded_tool_identity t of
        Inr (Some i) \<Rightarrow> map_option (\<lambda>k. da_definitions a ! k) (da_indexes a (identity_name i))
      | _ \<Rightarrow> None)"

type_synonym catalog_entry = "string \<times> string option"

definition namespace_has_withheld_member :: "namespace_member_records option \<Rightarrow> bool" where
  "namespace_has_withheld_member members \<longleftrightarrow> (case members of None \<Rightarrow> False | Some ms \<Rightarrow> ms_unloaded ms \<noteq> 0)"

definition catalog_entry_of :: "definition_accumulator \<Rightarrow> responses_tool \<Rightarrow> catalog_entry option" where
  "catalog_entry_of a t =
     (case record_of a t of
        None \<Rightarrow> None
      | Some r \<Rightarrow>
          if dr_loaded r then None
          else
            (case t of
               FunctionTool f \<Rightarrow>
                 if ftp_defer_loading f = Some True then Some (tool_name_str (ftp_name f), ftp_description f) else None
             | NamespaceTool p \<Rightarrow>
                 if namespace_has_withheld_member (dr_members r) then Some (ntp_name p, ntp_description p) else None
             | _ \<Rightarrow> None))"

definition build_catalog :: "definition_accumulator \<Rightarrow> catalog_entry list" where
  "build_catalog a = List.map_filter (catalog_entry_of a) (da_public a)"

definition em_dash :: string where
  "em_dash = [CHR 0xE2, CHR 0x80, CHR 0x94]"

definition catalog_line :: "catalog_entry \<Rightarrow> string" where
  "catalog_line e =
     (case snd e of
        None \<Rightarrow> fst e
      | Some d \<Rightarrow> if str_trim d = '''' then fst e else fst e @ '' '' @ em_dash @ '' '' @ str_trim d)"

definition synthetic_description :: "string \<Rightarrow> catalog_entry list \<Rightarrow> string" where
  "synthetic_description description catalog =
     (if catalog = [] then description
      else rev (dropWhile (\<lambda>c. c = CHR ''.'') (rev (str_trim description))) @ ''. Available catalog ''
        @ (if length catalog = 1 then ''entry'' else ''entries'') @ '': ''
        @ join_with ''; '' (map catalog_line catalog) @ ''.'')"

definition synthetic_tool_search :: "tool_search_tool_param \<Rightarrow> catalog_entry list \<Rightarrow> tool_search_tool_param" where
  "synthetic_tool_search declaration catalog =
     (let p = normalized_search_param declaration
      in p\<lparr>tsp_description := Some (synthetic_description (unwrap_or (tsp_description p) '''') catalog)\<rparr>)"

fun private_member :: "namespace_member_records \<Rightarrow> codex_namespace_member \<Rightarrow> codex_namespace_member option" where
  "private_member ms (MemberFunction f) =
     (if (case ms_indexes ms (tool_name_str (ftp_name f)) of None \<Rightarrow> False | Some k \<Rightarrow> mr_loaded (ms_ordered ms ! k))
      then Some (MemberFunction (f\<lparr>ftp_defer_loading := None\<rparr>)) else None)"
| "private_member ms MemberUnknown = Some MemberUnknown"

definition private_namespace ::
  "codex_namespace_tool_param \<Rightarrow> namespace_member_records option \<Rightarrow> codex_namespace_tool_param option" where
  "private_namespace p members =
     (case members of
        None \<Rightarrow> None
      | Some ms \<Rightarrow>
          (let kept = List.map_filter (private_member ms) (ntp_tools p)
           in if kept = [] then None else Some (p\<lparr>ntp_tools := kept\<rparr>)))"

definition private_definition :: "definition_accumulator \<Rightarrow> responses_tool \<Rightarrow> responses_tool option" where
  "private_definition a t =
     (case record_of a t of
        None \<Rightarrow> None
      | Some r \<Rightarrow>
          (case t of
             FunctionTool f \<Rightarrow>
               if dr_loaded r \<or> ftp_defer_loading f \<noteq> Some True
               then Some (FunctionTool (f\<lparr>ftp_defer_loading := None\<rparr>)) else None
           | NamespaceTool p \<Rightarrow> map_option NamespaceTool (private_namespace p (dr_members r))
           | _ \<Rightarrow> None))"

fun private_tool :: "definition_accumulator \<Rightarrow> tool_search_tool_param option \<Rightarrow> responses_tool \<Rightarrow> responses_tool option" where
  "private_tool a synthetic (ToolSearchTool _) = map_option ToolSearchTool synthetic"
| "private_tool a synthetic (FunctionTool p) = private_definition a (FunctionTool p)"
| "private_tool a synthetic (NamespaceTool p) = private_definition a (NamespaceTool p)"
| "private_tool a synthetic t = Some t"

definition build_private_tools :: "definition_accumulator \<Rightarrow> tool_search_tool_param option \<Rightarrow> responses_tool list" where
  "build_private_tools a synthetic = List.map_filter (private_tool a synthetic) (da_public a)"

text \<open>What a response lists once a search completed.\<close>

definition loaded_function_names :: "responses_tool list \<Rightarrow> string set" where
  "loaded_function_names loaded = set (List.map_filter (\<lambda>t. case t of FunctionTool f \<Rightarrow> Some (tool_name_str (ftp_name f)) | _ \<Rightarrow> None) loaded)"

definition loaded_member_names :: "responses_tool list \<Rightarrow> string \<Rightarrow> string set" where
  "loaded_member_names loaded namespace =
     set (concat (map (\<lambda>t. case t of
         NamespaceTool p \<Rightarrow> if ntp_name p = namespace then map snd (namespace_functions p) else []
       | _ \<Rightarrow> []) loaded))"

definition available_function :: "string set \<Rightarrow> function_tool_param \<Rightarrow> function_tool_param option" where
  "available_function names f =
     (let loaded = tool_name_str (ftp_name f) \<in> names
      in if ftp_defer_loading f = Some True \<and> \<not> loaded then None
         else Some (if loaded then f\<lparr>ftp_defer_loading := None\<rparr> else f))"

fun available_member :: "string set \<Rightarrow> codex_namespace_member \<Rightarrow> codex_namespace_member option" where
  "available_member names (MemberFunction f) = map_option MemberFunction (available_function names f)"
| "available_member names MemberUnknown = None"

fun available_tool :: "responses_tool list \<Rightarrow> responses_tool \<Rightarrow> responses_tool option" where
  "available_tool loaded (FunctionTool f) = map_option FunctionTool (available_function (loaded_function_names loaded) f)"
| "available_tool loaded (NamespaceTool p) =
     (let kept = List.map_filter (available_member (loaded_member_names loaded (ntp_name p))) (ntp_tools p)
      in if kept = [] then None else Some (NamespaceTool (p\<lparr>ntp_tools := kept\<rparr>)))"
| "available_tool loaded (ToolSearchTool _) = None"
| "available_tool loaded t = Some t"

definition available_public_tools :: "responses_tool list \<Rightarrow> responses_tool list \<Rightarrow> responses_tool list" where
  "available_public_tools public loaded = List.map_filter (available_tool loaded) public"

section \<open>Does a request use tool search\<close>

fun member_deferred :: "codex_namespace_member \<Rightarrow> bool" where
  "member_deferred (MemberFunction f) = (ftp_defer_loading f = Some True)"
| "member_deferred MemberUnknown = False"

fun tool_has_deferred_definition :: "responses_tool \<Rightarrow> bool" where
  "tool_has_deferred_definition (FunctionTool f) = (ftp_defer_loading f = Some True)"
| "tool_has_deferred_definition (NamespaceTool p) = list_ex member_deferred (ntp_tools p)"
| "tool_has_deferred_definition (McpTool p) = (mtp_defer_loading p = Some True)"
| "tool_has_deferred_definition (CustomTool p) = (ctp_defer_loading p = Some True)"
| "tool_has_deferred_definition _ = False"

fun is_tool_search :: "responses_tool \<Rightarrow> bool" where
  "is_tool_search (ToolSearchTool _) = True"
| "is_tool_search _ = False"

definition tool_activates_tool_search :: "responses_tool \<Rightarrow> bool" where
  "tool_activates_tool_search t \<longleftrightarrow> is_tool_search t \<or> tool_has_deferred_definition t"

fun is_search_item :: "input_item \<Rightarrow> bool" where
  "is_search_item (InToolSearchCall _) = True"
| "is_search_item (InToolSearchOutput _) = True"
| "is_search_item _ = False"

definition input_contains_tool_search_state :: "responses_input \<Rightarrow> bool" where
  "input_contains_tool_search_state input =
     (case input of TextInput _ \<Rightarrow> False | ItemsInput items \<Rightarrow> list_ex is_search_item items)"

definition request_contains_tool_search_state :: "request_payload \<Rightarrow> responses_input \<Rightarrow> bool" where
  "request_contains_tool_search_state r input \<longleftrightarrow>
     input_contains_tool_search_state input \<or> list_ex tool_activates_tool_search (unwrap_or (rq_tools r) [])"

definition request_has_state :: "request_payload \<Rightarrow> bool" where
  "request_has_state r = request_contains_tool_search_state r (rq_input r)"

definition ensure_request_prepared :: "request_payload \<Rightarrow> bool \<Rightarrow> tool_error + unit" where
  "ensure_request_prepared r prepared =
     (if request_has_state r \<and> \<not> prepared
      then config ''tool_search requests require prepared request-scoped state before upstream conversion''
      else Inr ())"

fun has_reserved_tool_search_name :: "responses_tool \<Rightarrow> bool" where
  "has_reserved_tool_search_name (FunctionTool p) = (tool_name_str (ftp_name p) = tool_search_name)"
| "has_reserved_tool_search_name (CustomTool p) = (tool_name_str (ctp_name p) = tool_search_name)"
| "has_reserved_tool_search_name (NamespaceTool p) = (ntp_name p = tool_search_name)"
| "has_reserved_tool_search_name _ = False"

definition validate_search_tool :: "unit \<Rightarrow> responses_tool \<Rightarrow> tool_error + unit" where
  "validate_search_tool u t =
     and_then (validate_tool t) (\<lambda>_. if has_reserved_tool_search_name t then reserved_search_name else Inr ())"

definition validate_tool_search_request :: "request_payload \<Rightarrow> responses_input \<Rightarrow> tool_error + bool" where
  "validate_tool_search_request r input =
     (if \<not> request_contains_tool_search_state r input then Inr False
      else
        (let tools = unwrap_or (rq_tools r) []
         in if 1 < length (filter is_tool_search tools)
            then config ''tool search accepts at most one tool_search declaration''
            else if rq_parallel_tool_calls r = Some True
            then config ''parallel_tool_calls must be false when tool search is active''
            else and_then (run_steps validate_search_tool () tools) (\<lambda>_. Inr True)))"

definition targets_withheld :: "tool_choice option \<Rightarrow> string set \<Rightarrow> bool" where
  "targets_withheld choice withheld \<longleftrightarrow>
     (case choice of
        Some (ChoiceFunction namespace name) \<Rightarrow>
          (case namespace of None \<Rightarrow> tool_name_str name
            | Some ns \<Rightarrow> model_visible_namespace_member_name ns (tool_name_str name)) \<in> withheld
      | Some (ChoiceAllowedTools _ tools) \<Rightarrow>
          list_ex (\<lambda>t. tool_name_str (at_type t) = ''function'' \<and> tool_name_str (at_name t) \<in> withheld) tools
      | _ \<Rightarrow> False)"

definition validate_effective_tool_choice :: "tool_choice option \<Rightarrow> string set \<Rightarrow> tool_error + unit" where
  "validate_effective_tool_choice choice withheld =
     (if targets_withheld choice withheld
      then config ''tool_choice targets a function before its definition is loaded'' else Inr ())"

section \<open>The state of a request\<close>

record search_state =
  se_active :: bool
  se_completed_search :: bool
  se_public_tools :: "responses_tool list option"
  se_private_tools :: "responses_tool list option"
  se_private_input :: "responses_input option"
  se_loaded :: "responses_tool list"
  se_synthetic :: "tool_search_tool_param option"
  se_withheld :: "string set"
  se_unqualified :: "string \<rightharpoonup> usize"

definition default_search_state :: search_state where
  "default_search_state =
     \<lparr>se_active = False, se_completed_search = False, se_public_tools = None, se_private_tools = None, se_private_input = None,
      se_loaded = [], se_synthetic = None, se_withheld = {}, se_unqualified = Map.empty\<rparr>"

fun is_search_output :: "input_item \<Rightarrow> bool" where
  "is_search_output (InToolSearchOutput _) = True"
| "is_search_output _ = False"

definition active_input :: "responses_input \<Rightarrow> responses_input" where
  "active_input input =
     (case (input, model_input input) of
        (ItemsInput public, ItemsInput active) \<Rightarrow> ItemsInput (active @ filter is_mcp_list_tools public)
      | (_, active) \<Rightarrow> active)"

definition search_declaration :: "responses_tool list \<Rightarrow> tool_search_tool_param option" where
  "search_declaration tools =
     (case List.map_filter (\<lambda>t. case t of ToolSearchTool p \<Rightarrow> Some p | _ \<Rightarrow> None) tools of [] \<Rightarrow> None | p # _ \<Rightarrow> Some p)"

definition validate_namespace_collisions :: "responses_tool list \<Rightarrow> tool_error + unit" where
  "validate_namespace_collisions tools =
     and_then (run_steps record_step (new_namespace_map_builder (typed_top_level_registry_keys tools)) (declared_members tools))
       (\<lambda>_. Inr ())"

definition start_definitions :: "responses_tool list \<Rightarrow> definition_accumulator" where
  "start_definitions tools =
     \<lparr>da_public = tools, da_definitions = [], da_indexes = Map.empty, da_loaded = [], da_withheld = {},
      da_prior = (\<lambda>_. {}), da_unqualified = Map.empty, da_position = None\<rparr>"

definition replayed_definitions ::
  "search_forms \<Rightarrow> request_payload \<Rightarrow> responses_tool list \<Rightarrow> bool \<Rightarrow> tool_error + responses_input \<times> definition_accumulator" where
  "replayed_definitions forms r restored restore_only_declared =
     and_then (run_steps (index_definition forms) (start_definitions (unwrap_or (rq_tools r) []))
         (enumerate 0 (unwrap_or (rq_tools r) []))) (\<lambda>a.
     and_then (initial_withheld_function_names a) (\<lambda>withheld.
     and_then (restore_loaded_definitions forms restored restore_only_declared (a\<lparr>da_withheld := withheld\<rparr>))
       (prepare_history forms (active_input (rq_input r)))))"

definition items_of :: "responses_input \<Rightarrow> input_item list" where
  "items_of input = (case input of TextInput _ \<Rightarrow> [] | ItemsInput items \<Rightarrow> items)"

definition build_with_loaded_tools ::
  "search_forms \<Rightarrow> request_payload \<Rightarrow> responses_tool list \<Rightarrow> bool \<Rightarrow> tool_error + search_state" where
  "build_with_loaded_tools forms r restored restore_only_declared =
     and_then (validate_tool_search_request r (active_input (rq_input r))) (\<lambda>uses_search.
       if \<not> uses_search then Inr default_search_state
       else
         (let items = items_of (active_input (rq_input r)); declaration = search_declaration (unwrap_or (rq_tools r) [])
          in if declaration = None \<and> \<not> list_ex is_search_item items
             then config ''defer_loading requires a tool_search declaration or replayed tool-search history''
             else
               and_then (replayed_definitions forms r restored restore_only_declared) (\<lambda>(private_input, a).
               and_then (validate_namespace_collisions (da_public a)) (\<lambda>_.
                 let synthetic = map_option (\<lambda>d. synthetic_tool_search d (build_catalog a)) declaration;
                     private = build_private_tools a synthetic
                 in Inr \<lparr>se_active = True,
                      se_completed_search = (restored \<noteq> [] \<or> list_ex is_search_output items),
                      se_public_tools = (if rq_tools r \<noteq> None \<or> da_public a \<noteq> [] then Some (da_public a) else None),
                      se_private_tools = (if rq_tools r \<noteq> None \<or> private \<noteq> [] then Some private else None),
                      se_private_input = Some private_input, se_loaded = da_loaded a, se_synthetic = synthetic,
                      se_withheld = da_withheld a, se_unqualified = da_unqualified a\<rparr>))))"

definition public_response_tools_of :: "search_state \<Rightarrow> responses_tool list" where
  "public_response_tools_of s =
     (if se_completed_search s then available_public_tools (unwrap_or (se_public_tools s) []) (se_loaded s)
      else unwrap_or (se_public_tools s) [])"

definition prepare_inference_request :: "search_state \<Rightarrow> request_payload \<Rightarrow> tool_error + search_state \<times> request_payload" where
  "prepare_inference_request s r =
     and_then (validate_effective_tool_choice (rq_tool_choice r) (se_withheld s)) (\<lambda>_.
     and_then (ok_or (se_private_input s) (Config ''tool-search private inference input has already been consumed'')) (\<lambda>input.
       Inr (s\<lparr>se_private_input := None, se_private_tools := None\<rparr>,
            r\<lparr>rq_input := input, rq_tools := se_private_tools s\<rparr>)))"

definition into_public_metadata :: "search_state \<Rightarrow> tool_search_metadata" where
  "into_public_metadata s = \<lparr>tsm_effective_tools = se_public_tools s, tsm_loaded_tools = se_loaded s\<rparr>"

definition prepare_request ::
  "search_forms \<Rightarrow> request_payload \<Rightarrow> responses_tool list \<Rightarrow> bool \<Rightarrow> tool_error + request_payload \<times> search_state option" where
  "prepare_request forms r restored restore_only_declared =
     and_then (build_with_loaded_tools forms r restored restore_only_declared) (\<lambda>s.
       if \<not> se_active s then Inr (r, None)
       else and_then (prepare_inference_request s r) (\<lambda>(s', r'). Inr (r', Some s')))"

text \<open>What the executor reads of the state, and the handler the turn pipeline calls.\<close>

definition executor_view :: "search_state \<Rightarrow> tool_search_state" where
  "executor_view s =
     \<lparr>tss_active = se_active s, tss_withheld = se_withheld s, tss_synthetic = (se_synthetic s \<noteq> None),
      tss_response_tools = public_response_tools_of s, tss_metadata = into_public_metadata s\<rparr>"

definition tool_search_handler :: "search_forms \<Rightarrow> search_handler" where
  "tool_search_handler forms r restored restore_only_declared =
     and_then (prepare_request forms r restored restore_only_declared) (\<lambda>(r', s). Inr (r', map_option executor_view s))"

end
