(* ===== verification/Tool_Search_Views.thy ===== *)
theory Tool_Search_Views
  imports Tool_Search
begin

text \<open>
  The bookkeeping of tool search against the rule it implements: a definition is available when it
  was never deferred or a search returned it. The invariant of the records and indices is kept by
  every step of the replay; the private view of the tools follows in closed form.
\<close>

section \<open>Members of one namespace\<close>

abbreviation function_name :: "function_tool_param \<Rightarrow> string" where
  "function_name f \<equiv> tool_name_str (ftp_name f)"

definition members_wf :: "namespace_member_records \<Rightarrow> bool" where
  "members_wf ms \<longleftrightarrow>
     (\<forall>n j. ms_indexes ms n = Some j \<longrightarrow> j < length (ms_ordered ms))
     \<and> (\<forall>n n' j. ms_indexes ms n = Some j \<longrightarrow> ms_indexes ms n' = Some j \<longrightarrow> n = n')"

definition loads :: "(function_tool_param \<Rightarrow> bool) \<Rightarrow> namespace_member_records \<Rightarrow> codex_namespace_member list \<Rightarrow> bool" where
  "loads g ms xs \<longleftrightarrow> (\<forall>f. MemberFunction f \<in> set xs \<longrightarrow>
     (\<exists>j. ms_indexes ms (function_name f) = Some j \<and> mr_loaded (ms_ordered ms ! j) = g f))"

definition available :: "string set \<Rightarrow> function_tool_param \<Rightarrow> bool" where
  "available names f \<longleftrightarrow> ftp_defer_loading f \<noteq> Some True \<or> function_name f \<in> names"

lemma loads_append [simp]: "loads g ms (xs @ ys) \<longleftrightarrow> loads g ms xs \<and> loads g ms ys"
  by (auto simp: loads_def)

lemma loads_extend:
  "members_wf ms \<Longrightarrow> ms_indexes ms n = None \<Longrightarrow> loads g ms xs \<Longrightarrow>
   loads g \<lparr>ms_ordered = ms_ordered ms @ [r], ms_indexes = (ms_indexes ms)(n \<mapsto> length (ms_ordered ms)), ms_unloaded = u\<rparr> xs"
  by (fastforce simp: loads_def members_wf_def nth_append)

lemma members_wf_extend:
  "members_wf ms \<Longrightarrow> members_wf \<lparr>ms_ordered = ms_ordered ms @ [r], ms_indexes = (ms_indexes ms)(n \<mapsto> length (ms_ordered ms)), ms_unloaded = u\<rparr>"
  by (fastforce simp: members_wf_def less_Suc_eq)

lemma add_member_records_loads:
  "run_steps (add_member_record forms ns dynamically_loaded) ms (enumerate n xs) = Inr ms' \<Longrightarrow> members_wf ms \<Longrightarrow>
   loads (\<lambda>f. dynamically_loaded \<or> ftp_defer_loading f \<noteq> Some True) ms ys \<Longrightarrow>
   members_wf ms' \<and> loads (\<lambda>f. dynamically_loaded \<or> ftp_defer_loading f \<noteq> Some True) ms' (ys @ xs)"
proof (induction xs arbitrary: ms n ys)
  case (Cons m xs)
  then obtain ms1 where step: "add_member_record forms ns dynamically_loaded ms (n, m) = Inr ms1"
      and rest: "run_steps (add_member_record forms ns dynamically_loaded) ms1 (enumerate (Suc n) xs) = Inr ms'"
    by (auto split: sum.splits)
  from step obtain f r u where m: "m = MemberFunction f" "ms_indexes ms (function_name f) = None"
      "ms1 = \<lparr>ms_ordered = ms_ordered ms @ [r], ms_indexes = (ms_indexes ms)(function_name f \<mapsto> length (ms_ordered ms)), ms_unloaded = u\<rparr>"
      "mr_loaded r = (dynamically_loaded \<or> ftp_defer_loading f \<noteq> Some True)"
    by (auto simp: add_member_record_def Let_def config_def result_simps split: codex_namespace_member.splits if_splits)
  from m Cons.prems have "members_wf ms1"
      "loads (\<lambda>f. dynamically_loaded \<or> ftp_defer_loading f \<noteq> Some True) ms1 ys"
    by (simp_all add: members_wf_extend loads_extend)
  moreover have "loads (\<lambda>f. dynamically_loaded \<or> ftp_defer_loading f \<noteq> Some True) ms1 [m]"
    by (simp add: loads_def m)
  ultimately show ?case using Cons.IH [OF rest, of "ys @ [m]"] by simp
qed simp

lemma namespace_member_records_loads:
  "namespace_member_records forms p dynamically_loaded = Inr ms \<Longrightarrow>
     members_wf ms \<and> loads (\<lambda>f. dynamically_loaded \<or> ftp_defer_loading f \<noteq> Some True) ms (ntp_tools p)"
  using add_member_records_loads [of forms "ntp_name p" dynamically_loaded "\<lparr>ms_ordered = [], ms_indexes = Map.empty, ms_unloaded = 0\<rparr>"
      0 "ntp_tools p" ms "[]"]
  by (auto simp: namespace_member_records_def members_wf_def loads_def config_def split: if_splits)

text \<open>For every list \<open>xs\<close> of members that the records cover, the declared ones among them.\<close>

definition loading_ok :: "string set \<Rightarrow> codex_namespace_member list \<Rightarrow> member_loading \<Rightarrow> bool" where
  "loading_ok names xs s \<longleftrightarrow> members_wf (ld_members s) \<and> loads (available names) (ld_members s) xs"

fun member_names :: "codex_namespace_member list \<Rightarrow> string set" where
  "member_names [] = {}"
| "member_names (MemberFunction f # ms) = insert (function_name f) (member_names ms)"
| "member_names (MemberUnknown # ms) = member_names ms"

lemma load_member_ok:
  assumes ok: "loading_ok names xs s" and step: "load_member forms ns s m = Inr s'"
  shows "loading_ok (names \<union> member_names [m]) (xs @ [m]) s'"
proof -
  from step obtain f where m: "m = MemberFunction f"
    by (auto simp: load_member_def config_def split: codex_namespace_member.splits)
  let ?ms = "ld_members s" and ?n = "function_name f"
  from ok have wf: "members_wf ?ms" and loads: "loads (available names) ?ms xs" by (simp_all add: loading_ok_def)
  show ?thesis
  proof (cases "ms_indexes ?ms ?n")
    case None
    with step m obtain c where s': "s' = s\<lparr>ld_members := ?ms\<lparr>ms_ordered := ms_ordered ?ms @
          [\<lparr>mr_canonical = c, mr_public_index = length (ld_public s), mr_loaded = True\<rparr>],
        ms_indexes := (ms_indexes ?ms)(?n \<mapsto> length (ms_ordered ?ms))\<rparr>, ld_public := ld_public s @ [m], ld_new := ld_new s @ [m]\<rparr>"
      by (auto simp: load_member_def Let_def result_simps)
    have "members_wf (ld_members s')"
      using wf by (auto simp: s' members_wf_def less_Suc_eq)
    moreover have "function_name g \<noteq> ?n" if "MemberFunction g \<in> set xs" for g
      using loads that None by (auto simp: loads_def)
    then have "loads (available (insert ?n names)) (ld_members s') xs"
      unfolding loads_def
    proof (intro allI impI)
      fix g assume g: "MemberFunction g \<in> set xs"
        and other: "\<And>g. MemberFunction g \<in> set xs \<Longrightarrow> function_name g \<noteq> ?n"
      from g loads obtain j where j: "ms_indexes ?ms (function_name g) = Some j" "mr_loaded (ms_ordered ?ms ! j) = available names g"
        by (auto simp: loads_def)
      with wf have "j < length (ms_ordered ?ms)" by (auto simp: members_wf_def)
      then have "ms_ordered (ld_members s') ! j = ms_ordered ?ms ! j" by (simp add: s' nth_append)
      moreover have "available (insert ?n names) g = available names g" "ms_indexes (ld_members s') (function_name g) = Some j"
        using j(1) other [OF g] by (simp_all add: available_def s')
      ultimately show "\<exists>j. ms_indexes (ld_members s') (function_name g) = Some j
          \<and> mr_loaded (ms_ordered (ld_members s') ! j) = available (insert ?n names) g"
        using j(2) by simp
    qed
    moreover have "loads (available (insert ?n names)) (ld_members s') [m]"
      by (simp add: loads_def s' m available_def)
    ultimately show ?thesis by (simp add: loading_ok_def m)
  next
    case (Some k)
    let ?r = "ms_ordered ?ms ! k"
    from Some wf have k: "k < length (ms_ordered ?ms)" by (auto simp: members_wf_def)
    have same: "ms_indexes ?ms n' = Some k \<Longrightarrow> n' = ?n" for n'
      using wf Some by (auto simp: members_wf_def)
    show ?thesis
    proof (cases "mr_loaded ?r")
      case True
      with step m Some have "s' = s" by (auto simp: load_member_def Let_def config_def result_simps split: if_splits)
      moreover have "loads (available (insert ?n names)) ?ms xs"
        unfolding loads_def
      proof (intro allI impI)
        fix g assume "MemberFunction g \<in> set xs"
        with loads obtain j where j: "ms_indexes ?ms (function_name g) = Some j" "mr_loaded (ms_ordered ?ms ! j) = available names g"
          by (auto simp: loads_def)
        with True Some have "available (insert ?n names) g = available names g"
          by (cases "function_name g = ?n") (auto simp: available_def)
        with j show "\<exists>j. ms_indexes ?ms (function_name g) = Some j \<and> mr_loaded (ms_ordered ?ms ! j) = available (insert ?n names) g"
          by auto
      qed
      moreover have "loads (available (insert ?n names)) ?ms [m]"
        using True Some by (auto simp: loads_def m available_def)
      ultimately show ?thesis using wf by (simp add: loading_ok_def m)
    next
      case False
      with step m Some have s': "ld_members s' = ?ms\<lparr>ms_ordered := (ms_ordered ?ms)[k := ?r\<lparr>mr_loaded := True\<rparr>],
          ms_unloaded := ms_unloaded ?ms - 1\<rparr>" "ld_public s' = ld_public s"
        by (auto simp: load_member_def Let_def config_def result_simps split: if_splits)
      have "members_wf (ld_members s')" using wf by (simp add: s' members_wf_def)
      moreover have "loads (available (insert ?n names)) (ld_members s') xs"
        unfolding loads_def
      proof (intro allI impI)
        fix g assume "MemberFunction g \<in> set xs"
        with loads obtain j where j: "ms_indexes ?ms (function_name g) = Some j" "mr_loaded (ms_ordered ?ms ! j) = available names g"
          by (auto simp: loads_def)
        have same_k: "j = k \<longleftrightarrow> function_name g = ?n" using j(1) Some same by (metis option.inject)
        have "ms_indexes (ld_members s') (function_name g) = Some j" using j(1) by (simp add: s'(1))
        moreover have "mr_loaded (ms_ordered (ld_members s') ! j) = available (insert ?n names) g"
        proof (cases "j = k")
          case True
          with same_k have "available (insert ?n names) g" by (simp add: available_def)
          with True k show ?thesis by (simp add: s'(1))
        next
          case False
          with same_k have "available (insert ?n names) g = available names g" by (simp add: available_def)
          with False j(2) show ?thesis by (simp add: s'(1))
        qed
        ultimately show "\<exists>j. ms_indexes (ld_members s') (function_name g) = Some j
            \<and> mr_loaded (ms_ordered (ld_members s') ! j) = available (insert ?n names) g"
          by blast
      qed
      moreover have "loads (available (insert ?n names)) (ld_members s') [m]"
        using k Some by (auto simp: loads_def m available_def s')
      ultimately show ?thesis by (simp add: loading_ok_def m)
    qed
  qed
qed

lemma load_members_ok:
  "run_steps (load_member forms ns) s ms = Inr s' \<Longrightarrow> loading_ok names xs s \<Longrightarrow>
     loading_ok (names \<union> member_names ms) (xs @ ms) s'"
proof (induction ms arbitrary: s names xs)
  case (Cons m ms)
  then obtain s1 where s1: "load_member forms ns s m = Inr s1" "run_steps (load_member forms ns) s1 ms = Inr s'"
    by (blast dest: run_steps_ConsD)
  from Cons.IH [OF s1(2) load_member_ok [OF Cons.prems(2) s1(1)]] show ?case
    by (cases m) (simp_all add: Un_assoc)
qed simp

lemma load_members_public:
  "run_steps (load_member forms ns) s ms = Inr s' \<Longrightarrow> set (ld_public s') \<subseteq> set (ld_public s) \<union> set ms"
proof (induction ms arbitrary: s)
  case (Cons m ms)
  then obtain s1 where s1: "load_member forms ns s m = Inr s1" "run_steps (load_member forms ns) s1 ms = Inr s'"
    by (blast dest: run_steps_ConsD)
  from s1(1) have "set (ld_public s1) \<subseteq> set (ld_public s) \<union> {m}"
    by (auto simp: load_member_def Let_def config_def result_simps split: codex_namespace_member.splits option.splits if_splits)
  with Cons.IH [OF s1(2)] show ?case by auto
qed simp

lemma loads_mono: "loads g ms ys \<Longrightarrow> set xs \<subseteq> set ys \<Longrightarrow> loads g ms xs"
  by (auto simp: loads_def)

section \<open>The records of a request\<close>

definition record_ok :: "responses_tool list \<Rightarrow> responses_tool list \<Rightarrow> definition_record \<Rightarrow> bool" where
  "record_ok returned public r \<longleftrightarrow>
     (case dr_identity r of
        LoadedFunction n \<Rightarrow> dr_members r = None \<and> (dr_loaded r \<longleftrightarrow> n \<in> loaded_function_names returned)
      | LoadedNamespace ns \<Rightarrow>
          dr_public_index r < length public
          \<and> (\<exists>p ms. public ! dr_public_index r = NamespaceTool p \<and> ntp_name p = ns \<and> dr_members r = Some ms \<and> members_wf ms))"

definition covered :: "responses_tool list \<Rightarrow> definition_accumulator \<Rightarrow> responses_tool \<Rightarrow> bool" where
  "covered returned a t \<longleftrightarrow>
     (case loaded_tool_identity t of
        Inl _ \<Rightarrow> False
      | Inr None \<Rightarrow> True
      | Inr (Some i) \<Rightarrow>
          (\<exists>k. da_indexes a (identity_name i) = Some k \<and> dr_identity (da_definitions a ! k) = i
             \<and> (\<forall>p. t = NamespaceTool p \<longrightarrow>
                  (\<exists>ms. dr_members (da_definitions a ! k) = Some ms
                     \<and> loads (available (loaded_member_names returned (ntp_name p))) ms (ntp_tools p)))))"

definition indexed :: "definition_accumulator \<Rightarrow> bool" where
  "indexed a \<longleftrightarrow>
     (\<forall>n k. da_indexes a n = Some k \<longleftrightarrow> k < length (da_definitions a) \<and> identity_name (dr_identity (da_definitions a ! k)) = n)"

definition views_ok :: "responses_tool list \<Rightarrow> responses_tool set \<Rightarrow> definition_accumulator \<Rightarrow> bool" where
  "views_ok returned S a \<longleftrightarrow> indexed a \<and> list_all (record_ok returned (da_public a)) (da_definitions a)
     \<and> (\<forall>t \<in> S. covered returned a t)"

lemma views_ok_cong:
  assumes "da_public a = da_public b" "da_indexes a = da_indexes b" "da_definitions a = da_definitions b"
  shows "views_ok returned S a = views_ok returned S b"
proof -
  have "covered returned a t = covered returned b t" for t
    using assms by (simp add: covered_def split: sum.split option.split)
  then show ?thesis using assms by (simp add: views_ok_def indexed_def)
qed

lemma declared_identity_Inr [simp]: "declared_identity i = Inr j \<longleftrightarrow> str_trim (identity_name i) \<noteq> '''' \<and> identity_name i \<noteq> tool_search_name \<and> j = Some i"
  by (auto simp: declared_identity_def config_def reserved_search_name_def)

lemma loaded_tool_identity_Some:
  "loaded_tool_identity t = Inr (Some i) \<Longrightarrow>
     (\<exists>f. t = FunctionTool f \<and> i = LoadedFunction (function_name f)) \<or> (\<exists>p. t = NamespaceTool p \<and> i = LoadedNamespace (ntp_name p))"
  by (cases t) auto

lemma indexed_append:
  assumes "indexed a" "da_indexes a (identity_name (dr_identity r)) = None"
  shows "indexed (a\<lparr>da_indexes := (da_indexes a)(identity_name (dr_identity r) \<mapsto> length (da_definitions a)),
                    da_definitions := da_definitions a @ [r]\<rparr>)"
  using assms by (auto simp: indexed_def nth_append less_Suc_eq) (metis option.distinct(1))

lemma covered_cong:
  "da_indexes a = da_indexes b \<Longrightarrow> da_definitions a = da_definitions b \<Longrightarrow> covered returned a t = covered returned b t"
  by (simp add: covered_def split: sum.split option.split)

lemma covered_append:
  assumes "indexed a" "da_indexes a n = None" "covered returned a t"
  shows "covered returned (a\<lparr>da_indexes := (da_indexes a)(n \<mapsto> length (da_definitions a)), da_definitions := da_definitions a @ [r]\<rparr>) t"
proof (cases "loaded_tool_identity t")
  case (Inr i)
  show ?thesis
  proof (cases i)
    case (Some j)
    with Inr assms(3) obtain k where k: "da_indexes a (identity_name j) = Some k" "dr_identity (da_definitions a ! k) = j"
        "\<forall>p. t = NamespaceTool p \<longrightarrow> (\<exists>ms. dr_members (da_definitions a ! k) = Some ms
           \<and> loads (available (loaded_member_names returned (ntp_name p))) ms (ntp_tools p))"
      by (auto simp: covered_def)
    with assms(1) have "k < length (da_definitions a)" by (auto simp: indexed_def)
    with k assms(2) Inr Some show ?thesis by (auto simp: covered_def nth_append)
  qed (use Inr in \<open>simp add: covered_def\<close>)
qed (use assms(3) in \<open>simp add: covered_def\<close>)


lemma new_definition_record_Inr:
  assumes "new_definition_record forms t i n dynamically_loaded = Inr r" "loaded_tool_identity t = Inr (Some i)"
  shows "dr_identity r = i" "dr_public_index r = n"
    "\<exists>f. t = FunctionTool f \<and> dr_members r = None \<and> dr_loaded r = dynamically_loaded
     \<or> (\<exists>p ms. t = NamespaceTool p \<and> namespace_member_records forms p dynamically_loaded = Inr ms \<and> dr_members r = Some ms)"
  using assms by (auto simp: new_definition_record_def config_def result_simps dest!: loaded_tool_identity_Some)

text \<open>A record added for a tool that is in the list of public tools.\<close>

lemma record_added:
  assumes ok: "views_ok returned S a" and idx: "da_indexes a (identity_name i) = None" and i: "loaded_tool_identity t = Inr (Some i)"
    and r: "new_definition_record forms t i n dynamically_loaded = Inr r"
    and pub: "n < length public" "public ! n = t" "take (length (da_public a)) public = da_public a"
    and loaded: "case t of
      FunctionTool f \<Rightarrow> dynamically_loaded = (function_name f \<in> loaded_function_names returned)
    | NamespaceTool p \<Rightarrow> \<forall>f. MemberFunction f \<in> set (ntp_tools p) \<longrightarrow>
        (dynamically_loaded \<or> ftp_defer_loading f \<noteq> Some True) = available (loaded_member_names returned (ntp_name p)) f
    | _ \<Rightarrow> True"
  shows "views_ok returned (insert t S) (a\<lparr>da_public := public,
      da_indexes := (da_indexes a)(identity_name i \<mapsto> length (da_definitions a)), da_definitions := da_definitions a @ [r]\<rparr>)"
proof -
  let ?a = "a\<lparr>da_public := public, da_indexes := (da_indexes a)(identity_name i \<mapsto> length (da_definitions a)),
    da_definitions := da_definitions a @ [r]\<rparr>"
  note r' = new_definition_record_Inr [OF r i]
  have len: "length (da_public a) \<le> length public" using pub(3) by (metis length_take min.cobounded1 min.commute)
  have nth: "public ! k = da_public a ! k" if "k < length (da_public a)" for k
    using that pub(3) by (metis nth_take)
  have "indexed ?a"
    using indexed_append [of a r] ok idx r'(1) by (simp add: views_ok_def indexed_def)
  moreover have "list_all (record_ok returned public) (da_definitions a)"
    using ok len nth unfolding views_ok_def list_all_iff record_ok_def by (fastforce split: tool_identity.splits)
  moreover have "record_ok returned public r"
    using r'(3) loaded_tool_identity_Some [OF i] loaded pub(1,2) r'(1,2)
    by (auto simp: record_ok_def dest: namespace_member_records_loads)
  moreover have "covered returned ?a u" if "u \<in> S" for u
  proof -
    from ok idx that have "covered returned (a\<lparr>da_indexes := (da_indexes a)(identity_name i \<mapsto> length (da_definitions a)),
        da_definitions := da_definitions a @ [r]\<rparr>) u"
      by (intro covered_append) (simp_all add: views_ok_def)
    then show ?thesis by (rule covered_cong [THEN iffD1, rotated 2]) simp_all
  qed
  moreover have "covered returned ?a t"
    using r'(3) loaded_tool_identity_Some [OF i] loaded i r'(1)
    by (auto simp: covered_def loads_def dest!: namespace_member_records_loads)
  ultimately show ?thesis by (simp add: views_ok_def)
qed

section \<open>The steps\<close>

lemma member_names_functions: "set (map snd (namespace_functions p)) = member_names (ntp_tools p)"
proof -
  have "set (map snd (List.map_filter (\<lambda>m. case m of MemberFunction f \<Rightarrow> Some (n, function_name f) | MemberUnknown \<Rightarrow> None) ms)) = member_names ms"
    for n :: string and ms by (induction ms rule: member_names.induct) (simp_all add: List.map_filter_simps)
  then show ?thesis by (simp add: namespace_functions_def)
qed

lemma returned_snoc [simp]:
  "loaded_function_names (L @ [t]) = loaded_function_names L \<union> (case t of FunctionTool f \<Rightarrow> {function_name f} | _ \<Rightarrow> {})"
  "loaded_member_names (L @ [t]) ns = loaded_member_names L ns
     \<union> (case t of NamespaceTool p \<Rightarrow> if ntp_name p = ns then member_names (ntp_tools p) else {} | _ \<Rightarrow> {})"
  by (cases t; simp add: loaded_function_names_def loaded_member_names_def map_filter_def member_names_functions [symmetric])+

lemma returned_Nil [simp]: "loaded_function_names [] = {}" "loaded_member_names [] ns = {}"
  by (simp_all add: loaded_function_names_def loaded_member_names_def map_filter_def)

lemma in_member_names: "MemberFunction f \<in> set ms \<Longrightarrow> function_name f \<in> member_names ms"
  by (induction ms rule: member_names.induct) auto

lemma covered_other: "loaded_tool_identity t = Inr None \<Longrightarrow> covered returned a t"
  by (simp add: covered_def)

lemma index_definitions_ok:
  "run_steps (index_definition forms) a (enumerate (length pre) ts) = Inr a' \<Longrightarrow> da_public a = pre @ ts \<Longrightarrow> views_ok [] (set pre) a \<Longrightarrow>
     views_ok [] (set (pre @ ts)) a' \<and> da_public a' = pre @ ts \<and> da_loaded a' = da_loaded a \<and> da_withheld a' = da_withheld a"
proof (induction ts arbitrary: a pre)
  case (Cons t ts)
  then obtain a1 where step: "index_definition forms a (length pre, t) = Inr a1"
      and rest: "run_steps (index_definition forms) a1 (enumerate (Suc (length pre)) ts) = Inr a'"
    by (auto split: sum.splits)
  have a1: "views_ok [] (insert t (set pre)) a1 \<and> da_public a1 = pre @ t # ts \<and> da_loaded a1 = da_loaded a \<and> da_withheld a1 = da_withheld a"
  proof (cases "loaded_tool_identity t")
    case (Inr i)
    show ?thesis
    proof (cases i)
      case None
      with step Inr have "a1 = a" by (auto simp: index_definition_def)
      with Cons.prems Inr None show ?thesis by (auto simp: views_ok_def covered_other)
    next
      case (Some j)
      with step Inr obtain r where r: "da_indexes a (identity_name j) = None"
          "new_definition_record forms t j (length pre) False = Inr r"
          "a1 = a\<lparr>da_indexes := (da_indexes a)(identity_name j \<mapsto> length (da_definitions a)), da_definitions := da_definitions a @ [r]\<rparr>"
        by (auto simp: index_definition_def config_def result_simps split: if_splits)
      have "views_ok [] (insert t (set pre)) (a\<lparr>da_public := da_public a,
          da_indexes := (da_indexes a)(identity_name j \<mapsto> length (da_definitions a)), da_definitions := da_definitions a @ [r]\<rparr>)"
        using Inr Some Cons.prems(2)
        by (intro record_added [OF Cons.prems(3) r(1) _ r(2)]) (auto simp: available_def split: responses_tool.split)
      then have "views_ok [] (insert t (set pre)) a1" by (rule views_ok_cong [THEN iffD1, rotated 3]) (simp_all add: r(3))
      with r(3) Cons.prems(2) show ?thesis by simp
    qed
  qed (use step in \<open>simp add: index_definition_def\<close>)
  then show ?case using Cons.IH [of a1 "pre @ [t]"] rest by simp
qed simp

lemma record_ok_other:
  assumes "record_ok L public r" "case t of FunctionTool f \<Rightarrow> dr_identity r \<noteq> LoadedFunction (function_name f) | _ \<Rightarrow> True"
  shows "record_ok (L @ [t]) public r"
  using assms by (auto simp: record_ok_def split: tool_identity.splits responses_tool.splits)

lemma covered_more:
  assumes "covered L a u" "case t of NamespaceTool p \<Rightarrow> (\<forall>q. u = NamespaceTool q \<longrightarrow> ntp_name q \<noteq> ntp_name p) | _ \<Rightarrow> True"
  shows "covered (L @ [t]) a u"
  using assms by (fastforce simp: covered_def split: sum.splits option.splits responses_tool.splits)

lemma views_ok_more:
  assumes ok: "views_ok L S a" and new: "da_indexes a (identity_name i) = None" and i: "loaded_tool_identity t = Inr (Some i)"
  shows "views_ok (L @ [t]) S a"
proof -
  from ok have ix: "indexed a" by (simp add: views_ok_def)
  have "record_ok (L @ [t]) (da_public a) r" if "r \<in> set (da_definitions a)" for r
  proof (rule record_ok_other)
    show "record_ok L (da_public a) r" using ok that by (simp add: views_ok_def list_all_iff)
    from that obtain k where "k < length (da_definitions a)" "r = da_definitions a ! k" by (metis in_set_conv_nth)
    with ix have "da_indexes a (identity_name (dr_identity r)) = Some k" by (auto simp: indexed_def)
    with new loaded_tool_identity_Some [OF i]
    show "case t of FunctionTool f \<Rightarrow> dr_identity r \<noteq> LoadedFunction (function_name f) | _ \<Rightarrow> True" by auto
  qed
  moreover have "covered (L @ [t]) a u" if "u \<in> S" for u
  proof (rule covered_more)
    show cov: "covered L a u" using ok that by (simp add: views_ok_def)
    have "ntp_name q \<noteq> ntp_name p" if "t = NamespaceTool p" "u = NamespaceTool q" for p q
      using cov that new i by (auto simp: covered_def split: sum.splits option.splits if_splits)
    then show "case t of NamespaceTool p \<Rightarrow> (\<forall>q. u = NamespaceTool q \<longrightarrow> ntp_name q \<noteq> ntp_name p) | _ \<Rightarrow> True"
      by (auto split: responses_tool.split)
  qed
  ultimately show ?thesis using ix by (simp add: views_ok_def list_all_iff)
qed

lemma load_unknown_ok:
  assumes ok: "views_ok L (set (da_public a)) a" and new: "da_indexes a (identity_name i) = None"
    and i: "loaded_tool_identity t = Inr (Some i)" and step: "load_unknown forms t i a = Inr a'"
  shows "views_ok (L @ [t]) (set (da_public a')) a'"
proof -
  from step obtain r where r: "new_definition_record forms t i (length (da_public a)) True = Inr r"
      "a' = a\<lparr>da_public := da_public a @ [t], da_indexes := (da_indexes a)(identity_name i \<mapsto> length (da_definitions a)),
              da_definitions := da_definitions a @ [r], da_loaded := da_loaded a @ [t]\<rparr>"
    by (auto simp: load_unknown_def result_simps)
  have "views_ok (L @ [t]) (insert t (set (da_public a))) (a\<lparr>da_public := da_public a @ [t],
      da_indexes := (da_indexes a)(identity_name i \<mapsto> length (da_definitions a)), da_definitions := da_definitions a @ [r]\<rparr>)"
    using i by (intro record_added [OF views_ok_more [OF ok new i] new i r(1)])
      (auto simp: available_def in_member_names split: responses_tool.split)
  then have "views_ok (L @ [t]) (insert t (set (da_public a))) a'"
    by (rule views_ok_cong [THEN iffD1, rotated 3]) (simp_all add: r(2))
  then show ?thesis by (simp add: r(2))
qed

lemma indexed_update:
  "indexed a \<Longrightarrow> k < length (da_definitions a) \<Longrightarrow> dr_identity r = dr_identity (da_definitions a ! k) \<Longrightarrow>
     indexed (a\<lparr>da_definitions := (da_definitions a)[k := r]\<rparr>)"
  by (simp add: indexed_def nth_list_update)

lemma indexed_unique:
  "indexed a \<Longrightarrow> j < length (da_definitions a) \<Longrightarrow> da_indexes a n = Some k \<Longrightarrow>
     identity_name (dr_identity (da_definitions a ! j)) = n \<Longrightarrow> j = k"
  unfolding indexed_def by (metis option.inject)

lemma covered_update:
  assumes "covered L a t" "dr_identity r = dr_identity (da_definitions a ! k)" "dr_members r = dr_members (da_definitions a ! k)"
  shows "covered L (a\<lparr>da_definitions := (da_definitions a)[k := r]\<rparr>) t"
proof (cases "loaded_tool_identity t")
  case (Inr i)
  show ?thesis
  proof (cases i)
    case (Some j)
    with Inr assms(1) obtain m where m: "da_indexes a (identity_name j) = Some m" "dr_identity (da_definitions a ! m) = j"
        "\<forall>p. t = NamespaceTool p \<longrightarrow> (\<exists>ms. dr_members (da_definitions a ! m) = Some ms
           \<and> loads (available (loaded_member_names L (ntp_name p))) ms (ntp_tools p))"
      by (auto simp: covered_def)
    have "(da_definitions a)[k := r] ! m = (if m = k \<and> k < length (da_definitions a) then r else da_definitions a ! m)"
      by (cases "k < length (da_definitions a)") (auto simp: nth_list_update list_update_beyond)
    then have "dr_identity ((da_definitions a)[k := r] ! m) = dr_identity (da_definitions a ! m)"
      "dr_members ((da_definitions a)[k := r] ! m) = dr_members (da_definitions a ! m)"
      using assms(2,3) by simp_all
    with m Inr Some show ?thesis by (auto simp: covered_def)
  qed (use Inr in \<open>simp add: covered_def\<close>)
qed (use assms(1) in \<open>simp add: covered_def\<close>)

lemma load_known_function_ok:
  assumes ok: "views_ok L S a" and k: "da_indexes a (identity_name i) = Some k" and t: "t = FunctionTool f"
    and i: "loaded_tool_identity t = Inr (Some i)" and step: "load_known forms t i c k a = Inr a'"
  shows "views_ok (L @ [t]) S a' \<and> da_public a' = da_public a"
proof -
  let ?r = "da_definitions a ! k" and ?n = "function_name f"
  from ok have ix: "indexed a" and records: "\<And>j. j < length (da_definitions a) \<Longrightarrow> record_ok L (da_public a) (da_definitions a ! j)"
    by (auto simp: views_ok_def list_all_length)
  from i t have i': "i = LoadedFunction ?n" by simp
  from ix k have len: "k < length (da_definitions a)" by (auto simp: indexed_def)
  from step t have id: "dr_identity ?r = i" by (auto simp: load_known_def Let_def config_def split: if_splits)
  with records [OF len] i' have r: "dr_members ?r = None" "dr_loaded ?r \<longleftrightarrow> ?n \<in> loaded_function_names L"
    by (simp_all add: record_ok_def)
  have others: "record_ok (L @ [t]) (da_public a) (da_definitions a ! j)" if "j < length (da_definitions a)" "j \<noteq> k" for j
  proof (rule record_ok_other [OF records [OF that(1)]])
    have "dr_identity (da_definitions a ! j) \<noteq> i"
      using indexed_unique [OF ix that(1) k] that(2) by auto
    then show "case t of FunctionTool f \<Rightarrow> dr_identity (da_definitions a ! j) \<noteq> LoadedFunction (function_name f) | _ \<Rightarrow> True"
      by (simp add: t i')
  qed
  have cov: "covered (L @ [t]) a u" if "u \<in> S" for u
    using ok that by (intro covered_more) (simp_all add: views_ok_def t)
  show ?thesis
  proof (cases "dr_loaded ?r")
    case True
    with step t have "a' = a" by (auto simp: load_known_def config_def Let_def split: if_splits)
    moreover have "record_ok (L @ [t]) (da_public a) ?r"
      using r True id i' t by (simp add: record_ok_def)
    then have "record_ok (L @ [t]) (da_public a) (da_definitions a ! j)" if "j < length (da_definitions a)" for j
      using others that by (cases "j = k") simp_all
    ultimately show ?thesis using ix cov by (simp add: views_ok_def list_all_length)
  next
    case False
    let ?a = "a\<lparr>da_definitions := (da_definitions a)[k := ?r\<lparr>dr_loaded := True\<rparr>]\<rparr>"
    from step t False id have a': "da_public a' = da_public ?a" "da_indexes a' = da_indexes ?a" "da_definitions a' = da_definitions ?a"
      by (auto simp: load_known_def config_def withheld_function_history_call_def Let_def split: if_splits)
    have "record_ok (L @ [t]) (da_public a) (?r\<lparr>dr_loaded := True\<rparr>)"
      using r id i' t by (simp add: record_ok_def)
    then have "list_all (record_ok (L @ [t]) (da_public a)) (da_definitions ?a)"
      using others len by (auto simp: list_all_length nth_list_update)
    moreover have "indexed ?a" by (rule indexed_update [OF ix len]) simp
    moreover have "covered (L @ [t]) ?a u" if "u \<in> S" for u
      by (rule covered_update [OF cov [OF that]]) simp_all
    ultimately have "views_ok (L @ [t]) S ?a" by (simp add: views_ok_def)
    then show ?thesis using a' views_ok_cong [of a' ?a] by simp
  qed
qed

lemma load_namespace_members_Inr:
  assumes "load_namespace_members forms p k a = Inr a'"
  obtains q ms s where "da_public a ! dr_public_index (da_definitions a ! k) = NamespaceTool q"
    "dr_members (da_definitions a ! k) = Some ms"
    "run_steps (load_member forms (ntp_name p))
       \<lparr>ld_members = ms, ld_public = ntp_tools q, ld_withheld = da_withheld a, ld_new = []\<rparr> (ntp_tools p) = Inr s"
    "da_public a' = (da_public a)[dr_public_index (da_definitions a ! k) := NamespaceTool (q\<lparr>ntp_tools := ld_public s\<rparr>)]"
    "da_definitions a' = (da_definitions a)[k := (da_definitions a ! k)\<lparr>dr_members := Some (ld_members s),
       dr_loaded := (ms_unloaded (ld_members s) = 0)\<rparr>]"
    "da_indexes a' = da_indexes a" "da_withheld a' = ld_withheld s"
  using assms by (auto simp: load_namespace_members_def Let_def config_def result_simps
      split: if_splits responses_tool.splits option.splits)

lemma load_known_namespace_ok:
  assumes ok: "views_ok L (set (da_public a)) a" and k: "da_indexes a (identity_name i) = Some k" and t: "t = NamespaceTool p"
    and i: "loaded_tool_identity t = Inr (Some i)" and step: "load_known forms t i c k a = Inr a'"
  shows "views_ok (L @ [t]) (set (da_public a')) a'"
proof -
  let ?r = "da_definitions a ! k" and ?ns = "ntp_name p"
  from ok have ix: "indexed a" and records: "\<And>j. j < length (da_definitions a) \<Longrightarrow> record_ok L (da_public a) (da_definitions a ! j)"
    and cov: "\<And>u. u \<in> set (da_public a) \<Longrightarrow> covered L a u"
    by (auto simp: views_ok_def list_all_length)
  from i t have i': "i = LoadedNamespace ?ns" by simp
  from ix k have len: "k < length (da_definitions a)" by (auto simp: indexed_def)
  from step t have id: "dr_identity ?r = i" and ns: "load_namespace_members forms p k a = Inr a'"
    by (auto simp: load_known_def Let_def config_def split: if_splits)
  from ns obtain q ms s where q: "da_public a ! dr_public_index ?r = NamespaceTool q" "dr_members ?r = Some ms"
      and run: "run_steps (load_member forms ?ns)
        \<lparr>ld_members = ms, ld_public = ntp_tools q, ld_withheld = da_withheld a, ld_new = []\<rparr> (ntp_tools p) = Inr s"
      and a': "da_public a' = (da_public a)[dr_public_index ?r := NamespaceTool (q\<lparr>ntp_tools := ld_public s\<rparr>)]"
        "da_definitions a' = (da_definitions a)[k := ?r\<lparr>dr_members := Some (ld_members s),
           dr_loaded := (ms_unloaded (ld_members s) = 0)\<rparr>]"
        "da_indexes a' = da_indexes a"
    by (rule load_namespace_members_Inr)
  from records [OF len] id i' q have r: "dr_public_index ?r < length (da_public a)" "ntp_name q = ?ns" "members_wf ms"
    by (auto simp: record_ok_def)
  let ?q = "NamespaceTool (q\<lparr>ntp_tools := ld_public s\<rparr>)" and ?names = "loaded_member_names L ?ns \<union> member_names (ntp_tools p)"
  let ?r' = "?r\<lparr>dr_members := Some (ld_members s), dr_loaded := (ms_unloaded (ld_members s) = 0)\<rparr>"
  have loaded: "members_wf (ld_members s) \<and> loads (available ?names) (ld_members s) (xs @ ntp_tools p)"
    if "loads (available (loaded_member_names L ?ns)) ms xs" for xs
    using load_members_ok [OF run, of "loaded_member_names L ?ns" xs] that r(3) by (simp add: loading_ok_def)
  have own: "loads (available (loaded_member_names L ?ns)) ms (ntp_tools u)" if "NamespaceTool u \<in> set (da_public a)" "ntp_name u = ?ns" for u
    using cov [OF that(1)] that(2) k q(2) i' by (auto simp: covered_def split: sum.splits option.splits if_splits)
  have q_in: "NamespaceTool q \<in> set (da_public a)" using q(1) r(1) by (metis nth_mem)
  have loads_q: "loads (available ?names) (ld_members s) (ld_public s)"
    using loaded [OF own [OF q_in r(2)]] load_members_public [OF run]
    by (auto intro!: loads_mono [where ys = "ntp_tools q @ ntp_tools p" and xs = "ld_public s"] simp del: loads_append)
  have id': "loaded_tool_identity (NamespaceTool u) = Inr (Some i)" if "ntp_name u = ?ns" for u
    using i t that by simp
  have rec_ok: "record_ok (L @ [t]) (da_public a') (da_definitions a' ! j)" if "j < length (da_definitions a)" for j
  proof (cases "j = k")
    case True
    with len r loaded [OF own [OF q_in r(2)]] id i' show ?thesis by (simp add: a' record_ok_def)
  next
    case False
    have "record_ok (L @ [t]) (da_public a) (da_definitions a ! j)"
      by (rule record_ok_other [OF records [OF that]]) (simp add: t)
    moreover have "dr_public_index (da_definitions a ! j) \<noteq> dr_public_index ?r" if "dr_identity (da_definitions a ! j) = LoadedNamespace n" for n
    proof
      assume "dr_public_index (da_definitions a ! j) = dr_public_index ?r"
      with records [OF \<open>j < length (da_definitions a)\<close>] that q(1) r(2) have "n = ?ns" by (auto simp: record_ok_def)
      with indexed_unique [OF ix \<open>j < length (da_definitions a)\<close> k] that i' False show False by simp
    qed
    ultimately show ?thesis using False
      by (auto simp: a' record_ok_def split: tool_identity.splits)
  qed
  have "covered (L @ [t]) a' u" if u: "u \<in> set (da_public a')" for u
  proof (cases "\<exists>q. u = NamespaceTool q \<and> ntp_name q = ?ns")
    case True
    then obtain v where v: "u = NamespaceTool v" "ntp_name v = ?ns" by blast
    have "loads (available ?names) (ld_members s) (ntp_tools v)"
    proof (cases "u = ?q")
      case True
      with v have "ntp_tools v = ld_public s" by auto
      with loads_q show ?thesis by simp
    next
      case False
      with u v have "NamespaceTool v \<in> set (da_public a)" by (auto simp: a' dest!: set_update_subset_insert [THEN subsetD])
      from loaded [OF own [OF this v(2)]] show ?thesis by simp
    qed
    moreover have uid: "loaded_tool_identity u = Inr (Some i)" unfolding v(1) by (rule id' [OF v(2)])
    ultimately show ?thesis
      using k len id i' unfolding covered_def uid sum.case option.case by (auto simp: a' t v)
  next
    case False
    with u r(2) have "u \<in> set (da_public a)" by (auto simp: a' dest!: set_update_subset_insert [THEN subsetD])
    then have cov': "covered (L @ [t]) a u"
      using False by (intro covered_more [OF cov]) (auto simp: t)
    show ?thesis
    proof (cases "loaded_tool_identity u")
      case (Inr x)
      show ?thesis
      proof (cases x)
        case (Some y)
        with Inr cov' obtain m where m: "da_indexes a (identity_name y) = Some m" "dr_identity (da_definitions a ! m) = y"
            "\<forall>p. u = NamespaceTool p \<longrightarrow> (\<exists>ms. dr_members (da_definitions a ! m) = Some ms
               \<and> loads (available (loaded_member_names (L @ [t]) (ntp_name p))) ms (ntp_tools p))"
          by (auto simp: covered_def)
        have "m \<noteq> k" if "u = NamespaceTool v" for v
          using that m(2) id i' Inr Some False by (auto split: if_splits)
        with m Inr Some id show ?thesis by (cases "m = k") (auto simp: covered_def a' len)
      qed (use Inr in \<open>simp add: covered_def\<close>)
    qed (use cov' in \<open>simp add: covered_def\<close>)
  qed
  moreover have "indexed a'"
    using indexed_update [OF ix len, of ?r'] by (simp add: a' indexed_def)
  ultimately show ?thesis using rec_ok by (simp add: views_ok_def list_all_length a')
qed

section \<open>The whole replay\<close>

lemma load_definition_ok:
  assumes ok: "views_ok L (set (da_public a)) a" and step: "load_definition forms a t = Inr a'"
  shows "views_ok (L @ [t]) (set (da_public a')) a'"
proof -
  from step obtain i c where i: "loaded_tool_identity t = Inr (Some i)"
    and load: "case da_indexes a (identity_name i) of
      Some index \<Rightarrow> load_known forms t i c index a = Inr a' | None \<Rightarrow> load_unknown forms t i a = Inr a'"
    by (auto simp: load_definition_def config_def result_simps split: option.splits)
  show ?thesis
  proof (cases "da_indexes a (identity_name i)")
    case None
    with load_unknown_ok [OF ok None i] load show ?thesis by simp
  next
    case (Some k)
    with load have known: "load_known forms t i c k a = Inr a'" by simp
    from loaded_tool_identity_Some [OF i] show ?thesis
      using load_known_function_ok [OF ok Some _ i known] load_known_namespace_ok [OF ok Some _ i known] by auto
  qed
qed

fun returned_tools :: "input_item \<Rightarrow> responses_tool list" where
  "returned_tools (InToolSearchOutput out) = tso_tools out"
| "returned_tools _ = []"

text \<open>Between the outputs only the memory of calls changes.\<close>

definition same_views :: "definition_accumulator \<Rightarrow> definition_accumulator \<Rightarrow> bool" where
  "same_views a b \<longleftrightarrow> da_public a = da_public b \<and> da_indexes a = da_indexes b \<and> da_definitions a = da_definitions b
     \<and> da_withheld a = da_withheld b"

lemma replay_item_definitions:
  assumes "replay_item forms h (n, x) = Inr h'"
  shows "\<exists>a. same_views (hr_definitions h) a \<and>
     (same_views a (hr_definitions h') \<and> returned_tools x = [] \<or> run_steps (load_definition forms) a (returned_tools x) = Inr (hr_definitions h'))"
proof -
  let ?a = "(hr_definitions h)\<lparr>da_position := Some n\<rparr>"
  have same: "same_views (hr_definitions h) ?a" by (simp add: same_views_def)
  have call: "same_views a a'" if "ensure_history_call_is_available c a = Inr a'" for c a a'
    using that by (auto simp: ensure_history_call_is_available_def withheld_function_history_call_def config_def same_views_def
        result_simps split: option.splits if_splits)
  show ?thesis
  proof (cases x)
    case (InFunctionCall c)
    with assms obtain a' where "ensure_history_call_is_available c ?a = Inr a'" "hr_definitions h' = a'"
      by (auto simp: replay_item_def Let_def result_simps)
    with same call InFunctionCall show ?thesis by (intro exI [of _ ?a]) simp
  next
    case (InToolSearchOutput out)
    with assms have "run_steps (load_definition forms) ?a (tso_tools out) = Inr (hr_definitions h')"
      by (auto simp: replay_item_def Let_def prepare_search_output_def config_def result_simps split: if_splits option.splits)
    with same InToolSearchOutput show ?thesis by (intro exI [of _ ?a]) simp
  next
    case (InToolSearchCall call)
    with assms have "hr_definitions h' = ?a"
      by (auto simp: replay_item_def Let_def prepare_search_call_def config_def split: if_splits sum.splits)
    with same InToolSearchCall show ?thesis by (intro exI [of _ ?a]) (simp add: same_views_def)
  qed (use assms same in \<open>intro exI [of _ ?a], auto simp: replay_item_def Let_def same_views_def\<close>)
qed

definition searched_tools :: "request_payload \<Rightarrow> responses_tool list \<Rightarrow> responses_tool list" where
  "searched_tools r restored = restored @ concat (map returned_tools (items_of (active_input (rq_input r))))"

text \<open>
  What a client of the replay proves once: a property of the accumulator that loading a definition
  keeps and that skipping and the memory of calls do not touch holds at the end of the replay.
\<close>

locale search_replay =
  fixes forms :: search_forms and P :: "responses_tool list \<Rightarrow> definition_accumulator \<Rightarrow> bool"
  assumes load: "P L a \<Longrightarrow> load_definition forms a t = Inr a' \<Longrightarrow> P (L @ [t]) a'"
    and skip: "P L a \<Longrightarrow> loaded_tool_identity t = Inr (Some i) \<Longrightarrow> da_indexes a (identity_name i) = None \<Longrightarrow> P (L @ [t]) a"
    and same: "P L a \<Longrightarrow> same_views a b \<Longrightarrow> P L b"
begin

lemma load_run: "run_steps (load_definition forms) a ts = Inr a' \<Longrightarrow> P L a \<Longrightarrow> P (L @ ts) a'"
proof (induction ts arbitrary: a L)
  case (Cons t ts)
  then obtain a1 where "load_definition forms a t = Inr a1" "run_steps (load_definition forms) a1 ts = Inr a'"
    by (blast dest: run_steps_ConsD)
  with Cons.IH [of a1 "L @ [t]"] load [OF Cons.prems(2)] show ?case by simp
qed simp

lemma restore_run: "run_steps (restore_definition forms b) a ts = Inr a' \<Longrightarrow> P L a \<Longrightarrow> P (L @ ts) a'"
proof (induction ts arbitrary: a L)
  case (Cons t ts)
  then obtain a1 where step: "restore_definition forms b a t = Inr a1" and rest: "run_steps (restore_definition forms b) a1 ts = Inr a'"
    by (blast dest: run_steps_ConsD)
  from step obtain i where i: "loaded_tool_identity t = Inr (Some i)"
    by (auto simp: restore_definition_def config_def result_simps split: option.splits)
  have "P (L @ [t]) a1"
  proof (cases "b \<and> da_indexes a (identity_name i) = None")
    case True
    with step i have "a1 = a" by (simp add: restore_definition_def)
    with True skip [OF Cons.prems(2) i] show ?thesis by simp
  next
    case False
    with step i have "load_definition forms a t = Inr a1" by (simp add: restore_definition_def split: if_splits)
    with load [OF Cons.prems(2)] show ?thesis by simp
  qed
  with Cons.IH [OF rest, of "L @ [t]"] show ?case by simp
qed simp

lemma replay_run:
  "run_steps (replay_item forms) h (enumerate n items) = Inr h' \<Longrightarrow> P L (hr_definitions h) \<Longrightarrow>
     P (L @ concat (map returned_tools items)) (hr_definitions h')"
proof (induction items arbitrary: h n L)
  case (Cons x items)
  then obtain h1 where h1: "replay_item forms h (n, x) = Inr h1" "run_steps (replay_item forms) h1 (enumerate (Suc n) items) = Inr h'"
    by (auto split: sum.splits)
  from replay_item_definitions [OF h1(1)] obtain a where a: "same_views (hr_definitions h) a"
    "same_views a (hr_definitions h1) \<and> returned_tools x = [] \<or> run_steps (load_definition forms) a (returned_tools x) = Inr (hr_definitions h1)"
    by blast
  from a(2) same [OF Cons.prems(2) a(1)] have "P (L @ returned_tools x) (hr_definitions h1)"
    using load_run by (auto dest: same)
  from Cons.IH [OF h1(2) this] show ?case by simp
qed simp

lemma replayed:
  assumes "restore_loaded_definitions forms restored b a = Inr a'" "prepare_history forms (active_input (rq_input r)) a' = Inr (input, a'')"
    and "P [] a"
  shows "P (searched_tools r restored) a''"
proof -
  have fresh: "same_views x (fresh_history x)" for x by (simp add: same_views_def fresh_history_def)
  from assms(1) restore_run [OF _ same [OF assms(3) fresh]] have "P restored a'"
    by (auto simp: restore_loaded_definitions_def)
  from this same [OF this fresh] assms(2) show ?thesis
    by (auto simp: prepare_history_def searched_tools_def items_of_def start_replay_def config_def result_simps
        dest!: replay_run [where L = restored] split: responses_input.splits if_splits)
qed

end

interpretation views: search_replay forms "\<lambda>L a. views_ok L (set (da_public a)) a" for forms
proof unfold_locales
  fix L a t i
  assume "views_ok L (set (da_public a)) a" "loaded_tool_identity t = Inr (Some i)" "da_indexes a (identity_name i) = None"
  then show "views_ok (L @ [t]) (set (da_public a)) a" by (blast intro: views_ok_more)
next
  fix L a b
  assume "views_ok L (set (da_public a)) a" "same_views a b"
  then show "views_ok L (set (da_public b)) b" using views_ok_cong [of a b] by (simp add: same_views_def)
qed (rule load_definition_ok)

lemma replayed_definitions_Inr:
  assumes "replayed_definitions forms r restored b = Inr (input, a)"
  obtains a1 w a2 where "views_ok [] (set (da_public a1)) a1" "da_public a1 = unwrap_or (rq_tools r) []"
    "initial_withheld_function_names a1 = Inr w" "restore_loaded_definitions forms restored b (a1\<lparr>da_withheld := w\<rparr>) = Inr a2"
    "prepare_history forms (active_input (rq_input r)) a2 = Inr (input, a)"
proof -
  let ?tools = "unwrap_or (rq_tools r) []"
  from assms obtain a1 w a2 where steps: "run_steps (index_definition forms) (start_definitions ?tools) (enumerate 0 ?tools) = Inr a1"
      "initial_withheld_function_names a1 = Inr w" "restore_loaded_definitions forms restored b (a1\<lparr>da_withheld := w\<rparr>) = Inr a2"
      "prepare_history forms (active_input (rq_input r)) a2 = Inr (input, a)"
    by (auto simp: replayed_definitions_def result_simps)
  have "views_ok [] {} (start_definitions ?tools)"
    by (simp add: views_ok_def start_definitions_def indexed_def)
  then have "views_ok [] (set ?tools) a1 \<and> da_public a1 = ?tools"
    using index_definitions_ok [of forms "start_definitions ?tools" "[]" ?tools a1] steps(1) by (simp add: start_definitions_def)
  with steps show thesis by (intro that) simp_all
qed

lemma replayed_definitions_ok:
  assumes "replayed_definitions forms r restored b = Inr (input, a)"
  shows "views_ok (searched_tools r restored) (set (da_public a)) a"
  using assms
proof (rule replayed_definitions_Inr)
  fix a1 w a2
  assume steps: "views_ok [] (set (da_public a1)) a1" "restore_loaded_definitions forms restored b (a1\<lparr>da_withheld := w\<rparr>) = Inr a2"
    "prepare_history forms (active_input (rq_input r)) a2 = Inr (input, a)"
  have "views_ok [] (set (da_public (a1\<lparr>da_withheld := w\<rparr>))) (a1\<lparr>da_withheld := w\<rparr>)"
    using steps(1) views_ok_cong [of "a1\<lparr>da_withheld := w\<rparr>" a1 "[]"] by simp
  with steps show ?thesis by (intro views.replayed)
qed

section \<open>The rule\<close>

fun offered_member :: "string set \<Rightarrow> codex_namespace_member \<Rightarrow> codex_namespace_member option" where
  "offered_member names (MemberFunction f) =
     (if available names f then Some (MemberFunction (f\<lparr>ftp_defer_loading := None\<rparr>)) else None)"
| "offered_member names MemberUnknown = Some MemberUnknown"

fun offered_tool :: "tool_search_tool_param option \<Rightarrow> responses_tool list \<Rightarrow> responses_tool \<Rightarrow> responses_tool option" where
  "offered_tool synthetic returned (FunctionTool f) =
     (if available (loaded_function_names returned) f then Some (FunctionTool (f\<lparr>ftp_defer_loading := None\<rparr>)) else None)"
| "offered_tool synthetic returned (NamespaceTool p) =
     (let kept = List.map_filter (offered_member (loaded_member_names returned (ntp_name p))) (ntp_tools p)
      in if kept = [] then None else Some (NamespaceTool (p\<lparr>ntp_tools := kept\<rparr>)))"
| "offered_tool synthetic returned (ToolSearchTool _) = map_option ToolSearchTool synthetic"
| "offered_tool synthetic returned t = Some t"

lemma private_tool_offered:
  assumes ok: "views_ok L (set (da_public a)) a" and t: "t \<in> set (da_public a)"
  shows "private_tool a synthetic t = offered_tool synthetic L t"
proof (cases "\<exists>f p. t = FunctionTool f \<or> t = NamespaceTool p")
  case False
  then show ?thesis by (cases t) simp_all
next
  case True
  from ok t have cov: "covered L a t" and ix: "indexed a" by (simp_all add: views_ok_def)
  from cov True obtain i where i: "loaded_tool_identity t = Inr (Some i)"
    by (auto simp: covered_def declared_identity_def config_def reserved_search_name_def split: if_splits)
  with cov obtain k where k: "da_indexes a (identity_name i) = Some k" "dr_identity (da_definitions a ! k) = i"
      "\<And>p. t = NamespaceTool p \<Longrightarrow> \<exists>ms. dr_members (da_definitions a ! k) = Some ms
         \<and> loads (available (loaded_member_names L (ntp_name p))) ms (ntp_tools p)"
    by (auto simp: covered_def)
  with ix have "k < length (da_definitions a)" by (auto simp: indexed_def)
  with ok have r_ok: "record_ok L (da_public a) (da_definitions a ! k)" by (simp add: views_ok_def list_all_length)
  have r: "record_of a t = Some (da_definitions a ! k)" using i k(1) by (simp add: record_of_def)
  show ?thesis
  proof (cases "\<exists>f. t = FunctionTool f")
    case True
    then obtain f where f: "t = FunctionTool f" by blast
    with loaded_tool_identity_Some [OF i] have "i = LoadedFunction (function_name f)" by auto
    with r_ok k(2) have "dr_loaded (da_definitions a ! k) \<longleftrightarrow> function_name f \<in> loaded_function_names L" by (simp add: record_ok_def)
    with r f show ?thesis by (simp add: private_definition_def available_def)
  next
    case False
    with True obtain p where p: "t = NamespaceTool p" by blast
    from k(3) [OF p] obtain ms where ms: "dr_members (da_definitions a ! k) = Some ms"
      "loads (available (loaded_member_names L (ntp_name p))) ms (ntp_tools p)" by blast
    have "private_member ms m = offered_member (loaded_member_names L (ntp_name p)) m" if "m \<in> set (ntp_tools p)" for m
      using ms(2) that by (cases m) (auto simp: loads_def)
    then have "List.map_filter (private_member ms) (ntp_tools p) = List.map_filter (offered_member (loaded_member_names L (ntp_name p))) (ntp_tools p)"
      by (simp add: map_filter_def cong: filter_cong map_cong)
    with r p ms(1) show ?thesis by (simp add: private_definition_def private_namespace_def Let_def)
  qed
qed

lemma built_state:
  assumes "build_with_loaded_tools forms r restored b = Inr s" "se_active s"
  obtains input a where "replayed_definitions forms r restored b = Inr (input, a)"
    "validate_namespace_collisions (da_public a) = Inr ()"
    "unwrap_or (se_public_tools s) [] = da_public a" "unwrap_or (se_private_tools s) [] = build_private_tools a (se_synthetic s)"
    "se_withheld s = da_withheld a" "se_private_input s = Some input" "se_loaded s = da_loaded a"
  using assms by (auto simp: build_with_loaded_tools_def config_def default_search_state_def result_simps Let_def split: if_splits)

lemma build_private_tools_offered:
  assumes "replayed_definitions forms r restored b = Inr (input, a)"
  shows "build_private_tools a synthetic = List.map_filter (offered_tool synthetic (searched_tools r restored)) (da_public a)"
proof -
  have "private_tool a synthetic t = offered_tool synthetic (searched_tools r restored) t" if "t \<in> set (da_public a)" for t
    by (rule private_tool_offered [OF replayed_definitions_ok [OF assms] that])
  then show ?thesis by (simp add: build_private_tools_def map_filter_def cong: filter_cong map_cong)
qed

text \<open>
  C13: the index structures of tool search implement a plain rule. The private view of the tools is
  computed tool by tool from the public one: a function or namespace member is offered exactly when
  it was not deferred or a search output of the history (or the restored state) returned it, under
  its own definition without the deferral flag; an empty namespace disappears, the search tool
  itself is replaced by its synthetic declaration and every other tool is kept.
\<close>

theorem private_tools_follow_the_searches:
  assumes "build_with_loaded_tools forms r restored b = Inr s" "se_active s"
  shows "unwrap_or (se_private_tools s) [] =
    List.map_filter (offered_tool (se_synthetic s) (searched_tools r restored)) (unwrap_or (se_public_tools s) [])"
  using assms
proof (rule built_state)
  fix input a
  assume a: "replayed_definitions forms r restored b = Inr (input, a)" "unwrap_or (se_public_tools s) [] = da_public a"
    "unwrap_or (se_private_tools s) [] = build_private_tools a (se_synthetic s)"
  show ?thesis by (simp add: a(2,3) build_private_tools_offered [OF a(1)])
qed

definition plain_search_forms :: search_forms where
  "plain_search_forms = \<lparr>sf_tool = (\<lambda>_. Inr JNull), sf_function = (\<lambda>_. Inr (JObject [])), sf_print = (\<lambda>_. Inr ''{}'')\<rparr>"

definition deferred_function :: "string \<Rightarrow> function_tool_param" where
  "deferred_function name = (plain_function name)\<lparr>ftp_defer_loading := Some True\<rparr>"

text \<open>Two deferred functions; the history searched once and found the first.\<close>

definition search_call_item :: input_item where
  "search_call_item = InToolSearchCall \<lparr>its_id = ''tsc_1'', its_call_id = ''c1'', its_execution = SearchClient,
     its_arguments = JObject [], its_status = SearchCompleted\<rparr>"

definition search_output_item :: input_item where
  "search_output_item = InToolSearchOutput \<lparr>tso_call_id = ''c1'', tso_execution = SearchClient, tso_status = SearchCompleted,
     tso_tools = [FunctionTool (deferred_function ''run'')]\<rparr>"

definition searching_request :: request_payload where
  "searching_request = (compaction_request ''m'' (ItemsInput [search_call_item, search_output_item]) None)
     \<lparr>rq_tools := Some [ToolSearchTool \<lparr>tsp_execution = SearchClient, tsp_description = None, tsp_parameters = None\<rparr>,
        FunctionTool (deferred_function ''run''), FunctionTool (deferred_function ''see'')]\<rparr>"

lemma deferred_names_simps [simp]:
  "function_name (deferred_function ''run'') = ''run''" "function_name (deferred_function ''see'') = ''see''"
  "ftp_defer_loading (deferred_function n) = Some True"
  by (simp_all add: deferred_function_def plain_function_def Abs_tool_name_inverse)

lemma searching_input: "active_input (rq_input searching_request) = ItemsInput [search_call_item, search_output_item]"
  by (simp add: active_input_def searching_request_def compaction_request_def model_input_def latest_compaction_window_def
      is_model_visible_def search_call_item_def search_output_item_def)


lemma str_trim_samples [simp]:
  "str_trim ''run'' = ''run''" "str_trim ''see'' = ''see''" "str_trim ''tsc_1'' = ''tsc_1''" "str_trim ''c1'' = ''c1''"
  by (simp_all add: str_trim_def strip_all.simps strip_one_def str_strip_prefix_def white_space_def)

lemma searching_definitions:
  "\<exists>a. run_steps (index_definition plain_search_forms) (start_definitions (unwrap_or (rq_tools searching_request) []))
      (enumerate 0 (unwrap_or (rq_tools searching_request) [])) = Inr a
     \<and> da_public a = unwrap_or (rq_tools searching_request) []
     \<and> da_indexes a = [''run'' \<mapsto> 0, ''see'' \<mapsto> 1]
     \<and> da_definitions a =
       [\<lparr>dr_identity = LoadedFunction ''run'', dr_canonical = JNull, dr_public_index = 1, dr_loaded = False, dr_members = None\<rparr>,
        \<lparr>dr_identity = LoadedFunction ''see'', dr_canonical = JNull, dr_public_index = 2, dr_loaded = False, dr_members = None\<rparr>]"
  by (simp add: searching_request_def start_definitions_def index_definition_def declared_identity_def tool_search_name_def
      new_definition_record_def canonical_definition_def plain_search_forms_def)

lemma searching_replayed:
  "\<exists>input a. replayed_definitions plain_search_forms searching_request [] False = Inr (input, a)
     \<and> da_public a = unwrap_or (rq_tools searching_request) [] \<and> da_withheld a = {''see''}"
proof -
  obtain a1 where a1: "run_steps (index_definition plain_search_forms) (start_definitions (unwrap_or (rq_tools searching_request) []))
      (enumerate 0 (unwrap_or (rq_tools searching_request) [])) = Inr a1"
    "da_public a1 = unwrap_or (rq_tools searching_request) []" "da_indexes a1 = [''run'' \<mapsto> 0, ''see'' \<mapsto> 1]"
    "da_definitions a1 =
       [\<lparr>dr_identity = LoadedFunction ''run'', dr_canonical = JNull, dr_public_index = 1, dr_loaded = False, dr_members = None\<rparr>,
        \<lparr>dr_identity = LoadedFunction ''see'', dr_canonical = JNull, dr_public_index = 2, dr_loaded = False, dr_members = None\<rparr>]"
    using searching_definitions by blast
  have withheld: "initial_withheld_function_names a1 = Inr {''run'', ''see''}"
    by (simp add: initial_withheld_function_names_def a1(2) searching_request_def withheld_tool_def insert_commute)
  let ?a = "fresh_history (fresh_history (a1\<lparr>da_withheld := {''run'', ''see''}\<rparr>))"
  have load: "\<exists>a'. load_definition plain_search_forms (?a\<lparr>da_position := Some (Suc 0)\<rparr>) (FunctionTool (deferred_function ''run'')) = Inr a'
      \<and> da_public a' = unwrap_or (rq_tools searching_request) [] \<and> da_withheld a' = {''see''}"
    by (auto simp: load_definition_def declared_identity_def tool_search_name_def canonical_definition_def plain_search_forms_def
        fresh_history_def a1 load_known_def Let_def)
  then obtain a' where a': "load_definition plain_search_forms (?a\<lparr>da_position := Some (Suc 0)\<rparr>) (FunctionTool (deferred_function ''run'')) = Inr a'"
      "da_public a' = unwrap_or (rq_tools searching_request) []" "da_withheld a' = {''see''}" by blast
  let ?c = "\<lparr>its_id = ''tsc_1'', its_call_id = ''c1'', its_execution = SearchClient, its_arguments = JObject [], its_status = SearchCompleted\<rparr>"
  let ?h = "start_replay (fresh_history (a1\<lparr>da_withheld := {''run'', ''see''}\<rparr>))"
  let ?h1 = "?h\<lparr>hr_definitions := ?a\<lparr>da_position := Some 0\<rparr>, hr_item_ids := {''tsc_1''}, hr_unresolved := Some ''c1'',
    hr_items := [search_function_call ?c ''{}'']\<rparr>"
  have "replay_item plain_search_forms ?h (0, search_call_item) = Inr ?h1"
    by (simp add: replay_item_def search_call_item_def prepare_search_call_def start_replay_def plain_search_forms_def)
  moreover have "\<exists>h2. replay_item plain_search_forms ?h1 (Suc 0, search_output_item) = Inr h2 \<and> hr_unresolved h2 = None \<and> hr_definitions h2 = a'"
    using a'(1) by (simp add: replay_item_def search_output_item_def prepare_search_output_def start_replay_def
        canonical_search_output_def) (simp add: plain_search_forms_def)
  ultimately have "\<exists>input a. prepare_history plain_search_forms (ItemsInput [search_call_item, search_output_item])
      (fresh_history (a1\<lparr>da_withheld := {''run'', ''see''}\<rparr>)) = Inr (input, a)
      \<and> da_public a = unwrap_or (rq_tools searching_request) [] \<and> da_withheld a = {''see''}"
    using a'(2,3) by (auto simp: prepare_history_def)
  then show ?thesis
    by (simp add: replayed_definitions_def a1(1) withheld restore_loaded_definitions_def searching_input)
qed

lemma searching_tools:
  "rq_tools searching_request = Some [ToolSearchTool \<lparr>tsp_execution = SearchClient, tsp_description = None, tsp_parameters = None\<rparr>,
     FunctionTool (deferred_function ''run''), FunctionTool (deferred_function ''see'')]"
  "rq_parallel_tool_calls searching_request = None" "rq_tool_choice searching_request = None"
  by (simp_all add: searching_request_def compaction_request_def)

lemma searching_found:
  "loaded_function_names (searched_tools searching_request []) = {''run''}" "searched_tools searching_request [] = [FunctionTool (deferred_function ''run'')]"
  by (simp_all add: searched_tools_def searching_input items_of_def search_call_item_def search_output_item_def
      loaded_function_names_def List.map_filter_simps)

lemma searching_state:
  obtains s syn where "build_with_loaded_tools plain_search_forms searching_request [] False = Inr s" "se_active s"
    "se_public_tools s = rq_tools searching_request" "se_withheld s = {''see''}" "se_synthetic s = Some syn"
    "se_private_tools s = Some [ToolSearchTool syn, FunctionTool ((deferred_function ''run'')\<lparr>ftp_defer_loading := None\<rparr>)]"
    "se_private_input s \<noteq> None" "validate_tool (ToolSearchTool syn) = Inr ()"
proof -
  obtain input a where a: "replayed_definitions plain_search_forms searching_request [] False = Inr (input, a)"
      "da_public a = unwrap_or (rq_tools searching_request) []" "da_withheld a = {''see''}"
    using searching_replayed by blast
  have offered: "build_private_tools a (Some syn) = [ToolSearchTool syn, FunctionTool ((deferred_function ''run'')\<lparr>ftp_defer_loading := None\<rparr>)]" for syn
    unfolding build_private_tools_offered [OF a(1)] a(2) searching_tools
    by (simp add: List.map_filter_simps searching_found(1) available_def)
  have "validate_tool_search_request searching_request (active_input (rq_input searching_request)) = Inr True"
    by (simp add: validate_tool_search_request_def request_contains_tool_search_state_def searching_input
        input_contains_tool_search_state_def search_call_item_def searching_tools validate_search_tool_def tool_search_name_def)
  moreover have "validate_namespace_collisions (da_public a) = Inr ()"
    by (simp add: validate_namespace_collisions_def a(2) searching_tools)
  ultimately have "\<exists>s syn. build_with_loaded_tools plain_search_forms searching_request [] False = Inr s \<and> se_active s
      \<and> se_public_tools s = rq_tools searching_request \<and> se_withheld s = {''see''} \<and> se_synthetic s = Some syn
      \<and> se_private_tools s = Some (build_private_tools a (Some syn)) \<and> se_private_input s \<noteq> None
      \<and> validate_tool (ToolSearchTool syn) = Inr ()"
    using a by (simp add: synthetic_tool_search_def normalized_search_param_def default_search_parameters_def json_type_def build_with_loaded_tools_def Let_def searching_tools search_declaration_def List.map_filter_simps)
  with that offered show thesis by auto
qed

theorem private_tools_follow_the_searches_witness:
  "\<exists>s. build_with_loaded_tools plain_search_forms searching_request [] False = Inr s \<and> se_active s \<and> se_withheld s = {''see''}
     \<and> map original_type (unwrap_or (se_private_tools s) []) = [Some ''tool_search'', Some ''function'']"
proof -
  obtain s syn where s: "build_with_loaded_tools plain_search_forms searching_request [] False = Inr s" "se_active s"
    "se_public_tools s = rq_tools searching_request" "se_withheld s = {''see''}" "se_synthetic s = Some syn"
    by (rule searching_state)
  have "map original_type (List.map_filter (offered_tool (se_synthetic s) (searched_tools searching_request [])) (unwrap_or (se_public_tools s) []))
      = [Some ''tool_search'', Some ''function'']"
    unfolding s(3,5) searching_tools by (simp add: List.map_filter_simps searching_found(1) available_def)
  with private_tools_follow_the_searches [OF s(1,2)] s(1,2,4) show ?thesis by auto
qed

end
