(* ===== verification/Offered.thy ===== *)
theory Offered
  imports Upstream_Request Rounds_Properties
begin

text \<open>
  What the model is offered against what the gateway can route: the function tools of the upstream
  request are computed from the declarations, the registry from the same declarations and the
  discovered MCP tools. They agree, so every call the model can make has an owner.
\<close>

section \<open>Discovery fills the declarations\<close>

definition with_discovered :: "('b, 'e) discovery \<Rightarrow> responses_tool \<Rightarrow> responses_tool" where
  "with_discovered d t =
     (case t of
        McpTool p \<Rightarrow>
          (case dy_server_tools d p of
             Inl _ \<Rightarrow> t
           | Inr tool_set \<Rightarrow> set_discovered (map dh_param (mt_discovered_handlers tool_set)) t)
      | _ \<Rightarrow> t)"

lemma with_discovered_other: "\<nexists>p. t = McpTool p \<Longrightarrow> with_discovered d t = t"
  by (cases t) (simp_all add: with_discovered_def)

lemma with_discovered_mcp: "\<exists>q. with_discovered d (McpTool p) = McpTool q"
  by (auto simp: with_discovered_def split: sum.splits)

lemma top_level_registry_key_discovered [simp]: "top_level_registry_key (with_discovered d t) = top_level_registry_key t"
  using with_discovered_mcp by (cases t) (auto simp: with_discovered_other split: sum.splits simp: with_discovered_def)

lemma typed_keys_discovered [simp]: "typed_top_level_registry_keys (map (with_discovered d) ts) = typed_top_level_registry_keys ts"
  by (simp add: typed_top_level_registry_keys_def fold_map comp_def)

lemma resolve_members_mcp:
  "resolve_members (with_discovered d (McpTool p) # ts) b =
     and_then (resolve_members ts b) (\<lambda>(ts', b'). Inr (with_discovered d (McpTool p) # ts', b'))"
proof -
  obtain q where "with_discovered d (McpTool p) = McpTool q" using with_discovered_mcp by blast
  then show ?thesis by simp
qed

lemma resolve_members_discovered:
  "resolve_members (map (with_discovered d) ts) b =
     map_sum id (\<lambda>(ts', b'). (map (with_discovered d) ts', b')) (resolve_members ts b)"
proof (induction ts b rule: resolve_members.induct)
  case (2 p ts b)
  then show ?case
    by (cases "rename_namespace_members p b"; cases "resolve_members ts (snd (projr (rename_namespace_members p b)))")
      (auto simp: with_discovered_other)
qed (auto simp: and_then_def with_discovered_other resolve_members_mcp split: sum.splits)

lemma resolve_discovered:
  "resolve_namespace_members (map (with_discovered d) ts) = map_sum id (map (with_discovered d)) (resolve_namespace_members ts)"
  by (cases "resolve_members ts (new_namespace_map_builder (typed_top_level_registry_keys ts))")
    (auto simp: resolve_namespace_members_def resolve_members_discovered)

text \<open>Resolving keeps the number of tools and every MCP declaration.\<close>

lemma resolve_members_aligned:
  "resolve_members ts b = Inr (ts', b') \<Longrightarrow>
     list_all2 (\<lambda>t t'. t' = t \<or> (\<exists>p p'. t = NamespaceTool p \<and> t' = NamespaceTool p')) ts ts'"
proof (induction ts b arbitrary: ts' b' rule: resolve_members.induct)
  case (2 p ts b)
  then show ?case by (auto simp: result_simps)
qed (auto simp: result_simps)

lemma register_tool_tools:
  assumes "register_tool d r (i, t) = Inr r'" "i < length (rg_tools r)"
    "rg_tools r ! i = t \<or> (\<exists>p p'. rg_tools r ! i = NamespaceTool p \<and> t = NamespaceTool p')"
  shows "rg_tools r' = (rg_tools r)[i := with_discovered d (rg_tools r ! i)]"
proof (cases "\<exists>p. t = McpTool p")
  case False
  then have "rg_tools r' = rg_tools r"
    using assms(1) by (auto simp: register_tool_def result_simps split: responses_tool.splits)
  moreover have "with_discovered d (rg_tools r ! i) = rg_tools r ! i"
    using False assms(3) by (auto intro: with_discovered_other)
  ultimately show ?thesis by simp
next
  case True
  then obtain p where t: "t = McpTool p" by blast
  with assms(3) have own: "rg_tools r ! i = McpTool p" by auto
  show ?thesis
  proof (cases "dy_server_tools d p")
    case (Inl e)
    moreover have "(rg_tools r)[i := McpTool p] = rg_tools r" using own by (metis list_update_id)
    ultimately show ?thesis
      using assms(1) own by (cases e) (auto simp: t register_tool_def result_simps push_item_def Let_def with_discovered_def)
  next
    case (Inr tool_set)
    with assms(1) own show ?thesis
      by (auto simp: t register_tool_def register_discovered_def result_simps Let_def push_item_def with_discovered_def split: if_splits)
  qed
qed

lemma register_tools_tools:
  "run_steps (register_tool d) r (enumerate n ts) = Inr r' \<Longrightarrow> n + length ts \<le> length (rg_tools r) \<Longrightarrow>
   (\<And>k. k < length ts \<Longrightarrow> rg_tools r ! (n + k) = ts ! k
      \<or> (\<exists>p p'. rg_tools r ! (n + k) = NamespaceTool p \<and> ts ! k = NamespaceTool p')) \<Longrightarrow>
   length (rg_tools r') = length (rg_tools r)
   \<and> (\<forall>i < length (rg_tools r). rg_tools r' ! i =
        (if n \<le> i \<and> i < n + length ts then with_discovered d (rg_tools r ! i) else rg_tools r ! i))"
proof (induction ts arbitrary: r n)
  case (Cons t ts)
  then obtain r1 where r1: "register_tool d r (n, t) = Inr r1" "run_steps (register_tool d) r1 (enumerate (Suc n) ts) = Inr r'"
    by (auto split: sum.splits)
  from Cons.prems(2) Cons.prems(3) [of 0] have tools1: "rg_tools r1 = (rg_tools r)[n := with_discovered d (rg_tools r ! n)]"
    by (intro register_tool_tools [OF r1(1)]) simp_all
  have "rg_tools r1 ! (Suc n + k) = ts ! k \<or> (\<exists>p p'. rg_tools r1 ! (Suc n + k) = NamespaceTool p \<and> ts ! k = NamespaceTool p')"
    if "k < length ts" for k
    using Cons.prems(3) [of "Suc k"] that by (simp add: tools1)
  with Cons.IH [OF r1(2)] Cons.prems(2) have
    "length (rg_tools r') = length (rg_tools r)
     \<and> (\<forall>i < length (rg_tools r). rg_tools r' ! i =
        (if Suc n \<le> i \<and> i < Suc n + length ts then with_discovered d (rg_tools r1 ! i) else rg_tools r1 ! i))"
    by (simp add: tools1)
  then show ?case using Cons.prems(2) by (auto simp: tools1 nth_list_update, metis le_antisym not_less_eq_eq)
qed auto

lemma built_tools:
  fixes d :: "('b, 'e) discovery"
  assumes "build_with_handlers_guarded d tools b = Inr (reg, tools', b')"
  shows "tools' = map (with_discovered d) tools"
proof -
  from assms obtain resolved and r :: "'b registration" where res: "resolve_namespace_members tools = Inr resolved"
      "run_steps (register_tool d) \<lparr>rg_tools = tools, rg_entries = [], rg_items = [], rg_discovered = 0, rg_budget = b\<rparr>
         (enumerate 0 resolved) = Inr r" "tools' = rg_tools r"
    by (auto simp: build_with_handlers_guarded_def result_simps)
  then have aligned: "list_all2 (\<lambda>t t'. t' = t \<or> (\<exists>p p'. t = NamespaceTool p \<and> t' = NamespaceTool p')) tools resolved"
    by (auto simp: resolve_namespace_members_def result_simps dest: resolve_members_aligned)
  then have len: "length resolved = length tools" by (simp add: list_all2_lengthD)
  have "tools ! k = resolved ! k \<or> (\<exists>p p'. tools ! k = NamespaceTool p \<and> resolved ! k = NamespaceTool p')"
    if "k < length resolved" for k
    using list_all2_nthD [OF aligned, of k] that len by auto
  with register_tools_tools [OF res(2)] len have "length (rg_tools r) = length tools"
    "\<forall>i < length tools. rg_tools r ! i = with_discovered d (tools ! i)" by simp_all
  then show ?thesis by (simp add: res(3) list_eq_iff_nth_eq)
qed

section \<open>Names\<close>

definition not_lowered :: "tool_type set" where
  "not_lowered = {FileSearchType, CodeInterpreterType}"

definition lowered_names :: "tool_entries \<Rightarrow> string set" where
  "lowered_names es = {n. \<exists>e. (n, e) \<in> set es \<and> ty_tool_type e \<notin> not_lowered}"

fun undiscovered :: "responses_tool \<Rightarrow> bool" where
  "undiscovered (McpTool p) = (mtp_discovered_tools p = [])"
| "undiscovered _ = True"

lemma namespace_entries_names: "lowered_names (namespace_entries p) = set (map fn_name (List.map_filter member_function (ntp_tools p)))"
proof -
  let ?add = "\<lambda>m entries. case m of
      MemberFunction f \<Rightarrow> im_insert (tool_name_str (ftp_name f)) (client_entry CodexNamespaceType (Some (ntp_name p))) entries
    | MemberUnknown \<Rightarrow> entries"
  have kept: "list_all (\<lambda>x. ty_tool_type (snd x) = CodexNamespaceType) (im_insert k (client_entry CodexNamespaceType l) es)"
    if "list_all (\<lambda>x. ty_tool_type (snd x) = CodexNamespaceType) es" for k l and es :: tool_entries
    using that by (induction es) (auto simp: client_entry_def)
  have "set (im_keys (fold ?add ms es)) = set (im_keys es) \<union> set (map fn_name (List.map_filter member_function ms))
      \<and> list_all (\<lambda>x. ty_tool_type (snd x) = CodexNamespaceType) (fold ?add ms es)"
    if "list_all (\<lambda>x. ty_tool_type (snd x) = CodexNamespaceType) es" for ms es
    using that
  proof (induction ms arbitrary: es)
    case (Cons m ms)
    then show ?case
      by (cases m) (auto simp: List.map_filter_simps kept im_keys_insert function_tool_of_param_def)
  qed (simp add: List.map_filter_simps)
  from this [of "[]" "ntp_tools p"]
  have "set (im_keys (namespace_entries p)) = set (map fn_name (List.map_filter member_function (ntp_tools p)))"
    "list_all (\<lambda>x. ty_tool_type (snd x) = CodexNamespaceType) (namespace_entries p)"
    by (simp_all add: namespace_entries_def)
  then show ?thesis by (force simp: lowered_names_def not_lowered_def im_keys_def list_all_iff)
qed

lemma lowered_entries_of:
  "undiscovered t \<Longrightarrow> lowered_names (entries_of d t) = set (map fn_name (to_function_tools print (with_discovered d t)))"
proof (cases t)
  case (McpTool p)
  assume "undiscovered t"
  with McpTool show ?thesis
    by (cases "dy_server_tools d p")
      (auto simp: lowered_names_def entries_of_def with_discovered_def discovered_entry_def gateway_entry_def not_lowered_def
        discovered_mcp_function_tool_def)
next
  case (NamespaceTool p)
  then show ?thesis using namespace_entries_names [of p] by (simp add: entries_of_def with_discovered_other)
qed (auto simp: lowered_names_def entries_of_def with_discovered_def client_entry_def gateway_entry_def not_lowered_def
    function_tool_of_param_def tool_search_function_tool_def web_search_function_tool_def shell_function_tool_def
    custom_function_tool_def)

lemma upstream_names:
  fixes d :: "('b, 'e) discovery"
  assumes built: "build_with_handlers_guarded d tools b = Inr (reg, tools', b')" and "list_all undiscovered tools"
    and up: "upstream_tools print (Some tools') = Inr fs"
  shows "set (map fn_name (unwrap_or fs [])) = lowered_names (tr_entries reg)"
  using built
proof (rule built_registry)
  fix resolved and r :: "'b registration"
  assume r: "resolve_namespace_members tools = Inr resolved" "tr_entries reg = rg_entries r"
    "rg_entries r = concat (map (entries_of d) resolved)"
  from up r(1) have fs: "fs = filter_option (\<lambda>fs. fs \<noteq> []) (Some (concat (map (to_function_tools print) (map (with_discovered d) resolved))))"
    by (auto simp: upstream_tools_def built_tools [OF built] resolve_discovered result_simps comp_def)
  have "list_all2 (\<lambda>t t'. t' = t \<or> (\<exists>p p'. t = NamespaceTool p \<and> t' = NamespaceTool p')) tools resolved"
    using r(1) by (auto simp: resolve_namespace_members_def result_simps dest: resolve_members_aligned)
  from this assms(2) have "list_all undiscovered resolved"
    by (induction rule: list_all2_induct) auto
  then have "lowered_names (concat (map (entries_of d) ts)) = set (map fn_name (concat (map (to_function_tools print) (map (with_discovered d) ts))))"
    if "set ts \<subseteq> set resolved" for ts
    using that
  proof (induction ts)
    case (Cons t ts)
    have "lowered_names (xs @ ys) = lowered_names xs \<union> lowered_names ys" for xs ys by (auto simp: lowered_names_def)
    moreover from Cons.prems have "undiscovered t" by (auto simp: list_all_iff)
    ultimately show ?case using Cons lowered_entries_of [of t d print] by auto
  qed (simp add: lowered_names_def)
  then show ?thesis by (auto simp: fs r(2,3))
qed


lemma cached_entries [simp]: "tr_entries (cache_listed_mcp_tools inp reg) = tr_entries reg"
proof -
  have step: "tr_entries (cache_listed_item x reg) = tr_entries reg" for x reg by (cases x) (simp_all split: option.split)
  have "tr_entries (fold cache_listed_item xs reg) = tr_entries reg" for xs
    by (induction xs arbitrary: reg) (simp_all add: step)
  then show ?thesis by (simp add: cache_listed_mcp_tools_def split: responses_input.split)
qed

lemma offered_functions:
  assumes "build_tool_registry env g = Inr g'" and "rq_tools (rc_enriched_request (eg_context g)) = Some tools"
    and "list_all undiscovered tools"
    and "rq_tools r = rq_tools (rc_enriched_request (eg_context g'))" and "to_upstream_request print stream r = Inr u"
  shows "set (map fn_name (unwrap_or (up_tools u) [])) =
      {n. \<exists>e. lookup (eg_registry g') n = Some e \<and> ty_tool_type e \<notin> {FileSearchType, CodeInterpreterType}}
    \<and> (case filter_option tss_active (eg_search g) of
         None \<Rightarrow> True
       | Some state \<Rightarrow> set (map fn_name (unwrap_or (up_tools u) [])) \<inter> tss_withheld state = {})"
proof -
  let ?d = "(ge_discovery env)\<lparr>dy_of_tool_error := Tool, dy_consume := budget_consume\<rparr>"
  from assms(1,2) obtain x where x: "build_with_handlers_guarded ?d tools (eg_budget g) = Inr x"
    by (cases "build_with_handlers_guarded ?d tools (eg_budget g)") (auto simp: build_tool_registry_def Let_def)
  obtain reg tools' b where split: "x = (reg, tools', b)" by (metis prod_cases3)
  from x split have "build_with_handlers_guarded ?d tools (eg_budget g) = Inr (reg, tools', b)" by simp
  moreover from assms(1,2) x split have "rq_tools (rc_enriched_request (eg_context g')) = Some tools'"
      "tr_entries (eg_registry g') = tr_entries reg"
    by (auto simp: build_tool_registry_def Let_def result_simps)
  ultimately have built: "build_with_handlers_guarded ?d tools (eg_budget g) = Inr (reg, tools', b)"
    "rq_tools (rc_enriched_request (eg_context g')) = Some tools'" "tr_entries (eg_registry g') = tr_entries reg" by blast+
  have available: "case filter_option tss_active (eg_search g) of None \<Rightarrow> True
      | Some state \<Rightarrow> validate_tool_availability (tss_withheld state) (tss_synthetic state) reg = Inr ()"
  proof (cases "filter_option tss_active (eg_search g)")
    case (Some state)
    with assms(1,2) x split show ?thesis
      by (cases "validate_tool_availability (tss_withheld state) (tss_synthetic state) reg")
        (auto simp: build_tool_registry_def Let_def)
  qed simp
  from assms(4,5) built(2) have "upstream_tools print (Some tools') = Inr (up_tools u)"
    by (auto simp: to_upstream_request_def Let_def result_simps)
  from upstream_names [OF built(1) assms(3) this]
  have names: "set (map fn_name (unwrap_or (up_tools u) [])) = lowered_names (tr_entries reg)" .
  have wf: "im_wf (tr_entries reg)"
    using built(1) by (rule built_registry) (simp add: registration_ok_def)
  have "lowered_names (tr_entries reg) =
      {n. \<exists>e. lookup (eg_registry g') n = Some e \<and> ty_tool_type e \<notin> {FileSearchType, CodeInterpreterType}}"
    using wf by (auto simp: lowered_names_def not_lowered_def lookup_def built(3) im_get_Some_iff)
  moreover have "lowered_names (tr_entries reg) \<subseteq> set (im_keys (tr_entries reg))"
    by (force simp: lowered_names_def im_keys_def)
  ultimately show ?thesis
    using available names by (auto simp: validate_tool_availability_def list_ex_iff split: option.splits if_splits)
qed


text \<open>
  C10: the model is offered exactly what the registry can route as a function. Once the registry of
  a request is built, the function tools of every upstream request of its rounds carry exactly the
  registered names other than those of file search and code interpreter tools, which are
  registered and never lowered; so a call of an offered function always has an owner, and no
  function whose definition is still withheld by tool search is offered. Tools of MCP servers that
  could not be reached are not offered. The declarations are as a parsed request has them: none
  brings discovered tools of its own.
\<close>

theorem offered_functions_are_registered:
  assumes "build_tool_registry env g = Inr g'" and "rq_tools (rc_enriched_request (eg_context g)) = Some tools"
    and "list_all undiscovered tools"
    and "rq_tools r = rq_tools (rc_enriched_request (eg_context g'))" and "to_upstream_request print stream r = Inr u"
  shows "set (map fn_name (unwrap_or (up_tools u) [])) =
      {n. \<exists>e. lookup (eg_registry g') n = Some e \<and> ty_tool_type e \<notin> {FileSearchType, CodeInterpreterType}}
    \<and> (case filter_option tss_active (eg_search g) of
         None \<Rightarrow> True
       | Some state \<Rightarrow> set (map fn_name (unwrap_or (up_tools u) [])) \<inter> tss_withheld state = {})"
  by (rule offered_functions [OF assms])

definition offering_engine :: "world \<Rightarrow> engine" where
  "offering_engine w =
     (let r = (compaction_request ''m'' (ItemsInput []) None)\<lparr>rq_tools := Some web_and_function\<rparr>
      in (toy_engine w)\<lparr>eg_context := (eg_context (toy_engine w))\<lparr>rc_enriched_request := r\<rparr>,
           eg_search := Some \<lparr>tss_active = True, tss_withheld = {''hidden''}, tss_synthetic = False, tss_response_tools = [],
             tss_metadata = \<lparr>tsm_effective_tools = None, tsm_loaded_tools = []\<rparr>\<rparr>\<rparr>)"

theorem offered_functions_are_registered_witness:
  "\<forall>w. \<exists>g' u. build_tool_registry toy_engine_env (offering_engine w) = Inr g'
     \<and> to_upstream_request (\<lambda>_. Inr ''{}'') False (rc_enriched_request (eg_context g')) = Inr u
     \<and> ''hidden'' \<notin> set (map fn_name (unwrap_or (up_tools u) []))"
proof
  fix w
  let ?d = "(ge_discovery toy_engine_env)\<lparr>dy_of_tool_error := Tool, dy_consume := budget_consume\<rparr>" and ?g = "offering_engine w"
  have run: "tool_name_str (ftp_name (plain_function ''run'')) = ''run''"
    by (simp add: plain_function_def Abs_tool_name_inverse)
  have res: "resolve_namespace_members web_and_function = Inr web_and_function"
    by (simp add: web_and_function_def resolve_namespace_members_def)
  obtain reg where reg: "build_with_handlers_guarded ?d web_and_function new_response_budget
      = Inr (reg, web_and_function, new_response_budget)"
    "im_keys (tr_entries reg) = [''web_search'', ''run'']"
    by (simp add: build_with_handlers_guarded_def res tool_result_def validate_server_labels_def mcp_labels_def
        validate_mcp_server_count_def max_mcp_servers_per_request_def)
       (simp add: web_and_function_def register_tool_def run tool_result_def build_namespace_map_def List.map_filter_simps)
  have g: "rq_tools (rc_enriched_request (eg_context ?g)) = Some web_and_function" "eg_budget ?g = new_response_budget"
    "eg_search ?g = Some \<lparr>tss_active = True, tss_withheld = {''hidden''}, tss_synthetic = False, tss_response_tools = [],
       tss_metadata = \<lparr>tsm_effective_tools = None, tsm_loaded_tools = []\<rparr>\<rparr>"
    by (simp_all add: offering_engine_def toy_engine_def Let_def)
  have available: "validate_tool_availability {''hidden''} False reg = Inr ()"
    by (simp add: validate_tool_availability_def reg(2))
  obtain g' where g': "build_tool_registry toy_engine_env ?g = Inr g'"
    "rc_enriched_request (eg_context g') = rc_enriched_request (eg_context ?g)"
    using reg(1) g available by (simp add: build_tool_registry_def Let_def)
  have "\<exists>u. to_upstream_request (\<lambda>_. Inr ''{}'') False (rc_enriched_request (eg_context g')) = Inr u"
  proof -
    have "\<exists>fs. upstream_tools (\<lambda>_. Inr ''{}'') (Some web_and_function) = Inr fs"
      by (simp add: upstream_tools_def res) (simp add: web_and_function_def run)
    moreover have "\<exists>nm. build_namespace_map (Some web_and_function) = Inr nm"
      by (simp add: build_namespace_map_def web_and_function_def)
    ultimately show ?thesis
      by (auto simp: to_upstream_request_def Let_def g' g(1) offering_engine_def compaction_request_def
          validate_custom_choice_def namespace_tool_choice_def rewrite_tool_choice_with_map_def split: option.split)
  qed
  then obtain u where u: "to_upstream_request (\<lambda>_. Inr ''{}'') False (rc_enriched_request (eg_context g')) = Inr u" ..
  have "list_all undiscovered web_and_function" by (simp add: web_and_function_def)
  from offered_functions_are_registered [OF g'(1) g(1) this refl u] u g' g(3)
  show "\<exists>g' u. build_tool_registry toy_engine_env (offering_engine w) = Inr g'
     \<and> to_upstream_request (\<lambda>_. Inr ''{}'') False (rc_enriched_request (eg_context g')) = Inr u
     \<and> ''hidden'' \<notin> set (map fn_name (unwrap_or (up_tools u) []))"
    by auto
qed

end
