(* ===== verification/Searched.thy ===== *)
theory Searched
  imports Tool_Search_Views Offered
begin

text \<open>
  Deferred functions end to end: the names withheld by tool search are the declared deferred ones,
  only a returned definition releases them, and as the registry refuses a withheld name and the
  model is offered registered names only, no deferred function reaches the model before a search.
\<close>

section \<open>Nothing is released without a search\<close>

definition flat_names :: "string \<Rightarrow> string set \<Rightarrow> string set" where
  "flat_names ns names = model_visible_namespace_member_name ns ` names"

fun deferred_of :: "responses_tool \<Rightarrow> string set" where
  "deferred_of (FunctionTool f) = (if ftp_defer_loading f = Some True then {function_name f} else {})"
| "deferred_of (NamespaceTool p) =
     {n. \<exists>f. MemberFunction f \<in> set (ntp_tools p) \<and> ftp_defer_loading f = Some True
       \<and> n = model_visible_namespace_member_name (ntp_name p) (function_name f)}"
| "deferred_of _ = {}"

definition deferred_names :: "responses_tool list \<Rightarrow> string set" where
  "deferred_names tools = (\<Union>t \<in> set tools. deferred_of t)"

fun released_by :: "responses_tool \<Rightarrow> string set" where
  "released_by (FunctionTool f) = {function_name f}"
| "released_by (NamespaceTool p) = flat_names (ntp_name p) (member_names (ntp_tools p))"
| "released_by _ = {}"

definition released_names :: "responses_tool list \<Rightarrow> string set" where
  "released_names tools = (\<Union>t \<in> set tools. released_by t)"

lemma withheld_members_run:
  "run_steps (withheld_member ns ms) w xs = Inr w' \<Longrightarrow> loads (available {}) ms xs \<Longrightarrow>
     w' = w \<union> {n. \<exists>f. MemberFunction f \<in> set xs \<and> ftp_defer_loading f = Some True \<and> n = model_visible_namespace_member_name ns (function_name f)}"
proof (induction xs arbitrary: w)
  case (Cons m xs)
  then obtain w1 where w1: "withheld_member ns ms w m = Inr w1" "run_steps (withheld_member ns ms) w1 xs = Inr w'"
    by (blast dest: run_steps_ConsD)
  from Cons.prems(2) have tl: "loads (available {}) ms xs" by (simp add: loads_def)
  from w1(1) Cons.prems(2) have "w1 = w \<union> {n. \<exists>f. m = MemberFunction f \<and> ftp_defer_loading f = Some True
      \<and> n = model_visible_namespace_member_name ns (function_name f)}"
    by (cases m) (auto simp: withheld_member_def Let_def loads_def available_def split: if_splits)
  with Cons.IH [OF w1(2) tl] show ?case by auto
qed simp

lemma initial_withheld:
  assumes ok: "views_ok [] (set (da_public a)) a" and w: "initial_withheld_function_names a = Inr w"
  shows "w = deferred_names (da_public a)"
proof -
  have step: "w' = w \<union> deferred_of t" if "withheld_tool a w t = Inr w'" "t \<in> set (da_public a)" for w w' t
  proof (cases t)
    case (NamespaceTool p)
    from ok that(2) have cov: "covered [] a t" and ix: "indexed a" by (simp_all add: views_ok_def)
    with NamespaceTool obtain k ms where k: "da_indexes a (ntp_name p) = Some k" "dr_members (da_definitions a ! k) = Some ms"
        "loads (available {}) ms (ntp_tools p)"
      by (auto simp: covered_def split: sum.splits option.splits if_splits)
    with ix that(1) NamespaceTool have "run_steps (withheld_member (ntp_name p) ms) w (ntp_tools p) = Inr w'"
      by (auto simp: withheld_tool_def indexed_def split: option.splits)
    from withheld_members_run [OF this k(3)] NamespaceTool show ?thesis by simp
  qed (use that in \<open>auto simp: withheld_tool_def split: if_splits\<close>)
  have "w' = w0 \<union> deferred_names ts" if "run_steps (withheld_tool a) w0 ts = Inr w'" "set ts \<subseteq> set (da_public a)" for w0 w' ts
    using that
  proof (induction ts arbitrary: w0)
    case (Cons t ts)
    then obtain w1 where "withheld_tool a w0 t = Inr w1" "run_steps (withheld_tool a) w1 ts = Inr w'"
      by (blast dest: run_steps_ConsD)
    with Cons step [of w0 t w1] show ?case by (auto simp: deferred_names_def)
  qed (simp add: deferred_names_def)
  from this [of "{}" "da_public a" w] w show ?thesis by (simp add: initial_withheld_function_names_def)
qed

text \<open>The names \<open>W\<close> that were withheld at first stay so until they are released.\<close>

definition withheld_within :: "string set \<Rightarrow> responses_tool list \<Rightarrow> definition_accumulator \<Rightarrow> bool" where
  "withheld_within W L a \<longleftrightarrow> W - released_names L \<subseteq> da_withheld a \<and> da_withheld a \<subseteq> W"

lemma load_members_withheld:
  "run_steps (load_member forms ns) s ms = Inr s' \<Longrightarrow>
     ld_withheld s - flat_names ns (member_names ms) \<subseteq> ld_withheld s' \<and> ld_withheld s' \<subseteq> ld_withheld s"
proof (induction ms arbitrary: s)
  case (Cons m ms)
  then obtain s1 where s1: "load_member forms ns s m = Inr s1" "run_steps (load_member forms ns) s1 ms = Inr s'"
    by (blast dest: run_steps_ConsD)
  have "ld_withheld s - flat_names ns (member_names [m]) \<subseteq> ld_withheld s1 \<and> ld_withheld s1 \<subseteq> ld_withheld s"
    using s1(1) by (auto simp: load_member_def Let_def config_def flat_names_def result_simps
        split: codex_namespace_member.splits option.splits if_splits)
  with Cons.IH [OF s1(2)] show ?case by (cases m) (auto simp: flat_names_def)
qed simp

lemma load_definition_withheld:
  assumes "load_definition forms a t = Inr a'"
  shows "da_withheld a - released_by t \<subseteq> da_withheld a' \<and> da_withheld a' \<subseteq> da_withheld a"
proof -
  from assms obtain i c where i: "loaded_tool_identity t = Inr (Some i)"
    and load: "case da_indexes a (identity_name i) of
      Some index \<Rightarrow> load_known forms t i c index a = Inr a' | None \<Rightarrow> load_unknown forms t i a = Inr a'"
    by (auto simp: load_definition_def config_def result_simps split: option.splits)
  have known: ?thesis if "load_known forms t i c k a = Inr a'" for k
  proof (cases "\<exists>p. t = NamespaceTool p")
    case True
    with that obtain p where p: "t = NamespaceTool p" "load_namespace_members forms p k a = Inr a'"
      by (auto simp: load_known_def Let_def config_def split: if_splits)
    from p(2) show ?thesis
      by (rule load_namespace_members_Inr) (auto dest!: load_members_withheld simp: p(1))
  next
    case False
    with loaded_tool_identity_Some [OF i] obtain f where "t = FunctionTool f" "i = LoadedFunction (function_name f)" by blast
    with that show ?thesis
      by (auto simp: load_known_def Let_def config_def withheld_function_history_call_def split: if_splits)
  qed
  have "?thesis" if "load_unknown forms t i a = Inr a'"
    using that by (auto simp: load_unknown_def result_simps)
  with known load show ?thesis by (auto split: option.splits)
qed

interpretation withheld: search_replay forms "withheld_within W" for forms W
proof unfold_locales
  fix L a t a'
  assume "withheld_within W L a" "load_definition forms a t = Inr a'"
  with load_definition_withheld [of forms a t a'] show "withheld_within W (L @ [t]) a'"
    by (auto simp: withheld_within_def released_names_def)
qed (auto simp: withheld_within_def released_names_def same_views_def)

lemma built_withheld:
  assumes "replayed_definitions forms r restored b = Inr (input, a)"
  shows "withheld_within (deferred_names (unwrap_or (rq_tools r) [])) (searched_tools r restored) a"
  using assms
proof (rule replayed_definitions_Inr)
  fix a1 w a2
  assume steps: "views_ok [] (set (da_public a1)) a1" "da_public a1 = unwrap_or (rq_tools r) []"
    "initial_withheld_function_names a1 = Inr w" "restore_loaded_definitions forms restored b (a1\<lparr>da_withheld := w\<rparr>) = Inr a2"
    "prepare_history forms (active_input (rq_input r)) a2 = Inr (input, a)"
  from initial_withheld [OF steps(1,3)] steps(2) have "w = deferred_names (unwrap_or (rq_tools r) [])" by simp
  then have "withheld_within (deferred_names (unwrap_or (rq_tools r) [])) [] (a1\<lparr>da_withheld := w\<rparr>)"
    by (simp add: withheld_within_def released_names_def)
  from withheld.replayed [OF steps(4,5) this] show ?thesis .
qed

section \<open>Discovered tools do not enter\<close>

definition all_undiscovered :: "responses_tool list \<Rightarrow> definition_accumulator \<Rightarrow> bool" where
  "all_undiscovered L a \<longleftrightarrow> list_all undiscovered (da_public a)"

lemma load_definition_undiscovered:
  assumes "load_definition forms a t = Inr a'" "list_all undiscovered (da_public a)"
  shows "list_all undiscovered (da_public a')"
proof -
  from assms(1) obtain i c where i: "loaded_tool_identity t = Inr (Some i)"
    and load: "case da_indexes a (identity_name i) of
      Some index \<Rightarrow> load_known forms t i c index a = Inr a' | None \<Rightarrow> load_unknown forms t i a = Inr a'"
    by (auto simp: load_definition_def config_def result_simps split: option.splits)
  have known: ?thesis if "load_known forms t i c k a = Inr a'" for k
  proof (cases "\<exists>p. t = NamespaceTool p")
    case True
    with that obtain p where "load_namespace_members forms p k a = Inr a'"
      by (auto simp: load_known_def Let_def config_def split: if_splits)
    then show ?thesis
      by (rule load_namespace_members_Inr)
        (use assms(2) in \<open>auto simp: list_all_iff dest!: set_update_subset_insert [THEN subsetD]\<close>)
  next
    case False
    with that have "da_public a' = da_public a"
      by (auto simp: load_known_def Let_def config_def withheld_function_history_call_def split: if_splits responses_tool.splits)
    with assms(2) show ?thesis by simp
  qed
  have "?thesis" if "load_unknown forms t i a = Inr a'"
    using that assms(2) loaded_tool_identity_Some [OF i] by (auto simp: load_unknown_def result_simps)
  with known load show ?thesis by (auto split: option.splits)
qed

interpretation undiscovered: search_replay forms all_undiscovered for forms
  by unfold_locales (auto simp: all_undiscovered_def same_views_def dest: load_definition_undiscovered)

lemma built_undiscovered:
  assumes "replayed_definitions forms r restored b = Inr (input, a)" "list_all undiscovered (unwrap_or (rq_tools r) [])"
  shows "list_all undiscovered (build_private_tools a synthetic)"
proof -
  from assms(1) have "list_all undiscovered (da_public a)"
  proof (rule replayed_definitions_Inr)
    fix a1 w a2
    assume steps: "da_public a1 = unwrap_or (rq_tools r) []"
      "restore_loaded_definitions forms restored b (a1\<lparr>da_withheld := w\<rparr>) = Inr a2"
      "prepare_history forms (active_input (rq_input r)) a2 = Inr (input, a)"
    have "all_undiscovered [] (a1\<lparr>da_withheld := w\<rparr>)" using assms(2) steps(1) by (simp add: all_undiscovered_def)
    from undiscovered.replayed [OF steps(2,3) this] show ?thesis by (simp add: all_undiscovered_def)
  qed
  moreover have "undiscovered u" if "private_tool a synthetic t = Some u" "undiscovered t" for t u
    using that by (cases t) (auto simp: private_definition_def split: option.splits if_splits)
  ultimately show ?thesis
    by (auto simp: build_private_tools_def list_all_iff map_filter_def)
qed


section \<open>End to end\<close>

text \<open>
  C2: a deferred function reaches the model only after a search found it. For a prepared request
  whose registry was built, no function tool of any upstream request of its rounds, whatever its
  kind, carries the name of a declared deferred function or namespace member, unless a tool search
  output of the history or the restored search state returned that definition.
\<close>

theorem deferred_functions_need_a_search:
  assumes prepared: "prepare_request forms r restored b = Inr (r', Some s)" and "list_all undiscovered (unwrap_or (rq_tools r) [])"
    and "rq_tools (rc_enriched_request (eg_context g)) = rq_tools r'" and "eg_search g = Some (executor_view s)"
    and "build_tool_registry env g = Inr g'"
    and "rq_tools q = rq_tools (rc_enriched_request (eg_context g'))" and "to_upstream_request print stream q = Inr u"
  shows "set (map fn_name (unwrap_or (up_tools u) []))
    \<inter> (deferred_names (unwrap_or (rq_tools r) []) - released_names (searched_tools r restored)) = {}"
proof -
  from prepared obtain s0 where s0: "build_with_loaded_tools forms r restored b = Inr s0" "se_active s0"
      "s = s0\<lparr>se_private_input := None, se_private_tools := None\<rparr>" "rq_tools r' = se_private_tools s0"
    by (auto simp: prepare_request_def prepare_inference_request_def result_simps split: if_splits)
  from s0(1,2) obtain input a where a: "replayed_definitions forms r restored b = Inr (input, a)"
      "unwrap_or (se_private_tools s0) [] = build_private_tools a (se_synthetic s0)" "se_withheld s0 = da_withheld a"
    by (rule built_state)
  have withheld: "deferred_names (unwrap_or (rq_tools r) []) - released_names (searched_tools r restored) \<subseteq> se_withheld s0"
    using built_withheld [OF a(1)] a(3) by (simp add: withheld_within_def)
  have tools: "rq_tools (rc_enriched_request (eg_context g)) = se_private_tools s0" using assms(3) s0(4) by simp
  have view: "filter_option tss_active (eg_search g) = Some (executor_view s)" "tss_withheld (executor_view s) = se_withheld s0"
    using assms(4) s0(2,3) by (simp_all add: executor_view_def)
  show ?thesis
  proof (cases "se_private_tools s0")
    case None
    with tools assms(5) have "rq_tools (rc_enriched_request (eg_context g')) = None"
      by (auto simp: build_tool_registry_def Let_def result_simps)
    with assms(6,7) have "up_tools u = None"
      by (auto simp: to_upstream_request_def upstream_tools_def Let_def result_simps)
    then show ?thesis by simp
  next
    case (Some ts)
    with a(2) built_undiscovered [OF a(1) assms(2)] have "list_all undiscovered ts" by simp
    from offered_functions [OF assms(5) tools [unfolded Some] this assms(6,7)]
    have "set (map fn_name (unwrap_or (up_tools u) [])) \<inter> se_withheld s0 = {}"
      unfolding view option.case by (rule conjunct2)
    with withheld show ?thesis by blast
  qed
qed


definition searching_engine :: "world \<Rightarrow> request_payload \<Rightarrow> search_state \<Rightarrow> engine" where
  "searching_engine w r s =
     (toy_engine w)\<lparr>eg_context := (eg_context (toy_engine w))\<lparr>rc_enriched_request := r\<rparr>, eg_search := Some (executor_view s)\<rparr>"

theorem deferred_functions_need_a_search_witness:
  "\<forall>w. \<exists>r' s g' u. prepare_request plain_search_forms searching_request [] False = Inr (r', Some s)
     \<and> build_tool_registry toy_engine_env (searching_engine w r' s) = Inr g'
     \<and> to_upstream_request (\<lambda>_. Inr ''{}'') False (rc_enriched_request (eg_context g')) = Inr u
     \<and> ''see'' \<notin> set (map fn_name (unwrap_or (up_tools u) []))"
proof
  fix w
  let ?d = "(ge_discovery toy_engine_env)\<lparr>dy_of_tool_error := Tool, dy_consume := budget_consume\<rparr>"
  let ?run = "(deferred_function ''run'')\<lparr>ftp_defer_loading := None\<rparr>"
  obtain s0 syn where s0: "build_with_loaded_tools plain_search_forms searching_request [] False = Inr s0" "se_active s0"
    "se_public_tools s0 = rq_tools searching_request" "se_withheld s0 = {''see''}" "se_synthetic s0 = Some syn"
    "se_private_tools s0 = Some [ToolSearchTool syn, FunctionTool ?run]" "se_private_input s0 \<noteq> None"
    "validate_tool (ToolSearchTool syn) = Inr ()"
    by (rule searching_state)
  let ?ts = "[ToolSearchTool syn, FunctionTool ?run]"
  obtain input where input: "se_private_input s0 = Some input" using s0(7) by blast
  define s where "s = s0\<lparr>se_private_input := None, se_private_tools := None\<rparr>"
  define r' where "r' = searching_request\<lparr>rq_input := input, rq_tools := Some ?ts\<rparr>"
  have prepared: "prepare_request plain_search_forms searching_request [] False = Inr (r', Some s)"
    by (simp add: prepare_request_def s0 prepare_inference_request_def validate_effective_tool_choice_def targets_withheld_def
        searching_tools input s_def r'_def)
  let ?g = "searching_engine w r' s"
  have g: "rq_tools (rc_enriched_request (eg_context ?g)) = rq_tools r'" "rq_tools r' = Some ?ts" "eg_budget ?g = new_response_budget"
    "eg_search ?g = Some (executor_view s)"
    by (simp_all add: searching_engine_def r'_def toy_engine_def Let_def)
  have run: "tool_name_str (ftp_name ?run) = ''run''" by simp
  have res: "resolve_namespace_members ?ts = Inr ?ts" by (simp add: resolve_namespace_members_def)
  obtain reg where reg: "build_with_handlers_guarded ?d ?ts new_response_budget = Inr (reg, ?ts, new_response_budget)"
    "tr_entries reg = [(tool_search_name, client_entry ToolSearchType None), (''run'', client_entry FunctionType None)]"
    by (simp add: build_with_handlers_guarded_def res tool_result_def validate_server_labels_def mcp_labels_def
        validate_mcp_server_count_def max_mcp_servers_per_request_def List.map_filter_simps
        register_tool_def build_namespace_map_def tool_search_name_def)
  have view: "filter_option tss_active (Some (executor_view s)) = Some (executor_view s)" "tss_withheld (executor_view s) = {''see''}"
    "tss_synthetic (executor_view s)"
    by (simp_all add: executor_view_def s_def s0)
  have "validate_tool_availability {''see''} True reg = Inr ()"
    by (simp add: validate_tool_availability_def reg(2) lookup_def im_get_def tool_search_name_def client_entry_def)
  then obtain g' where g': "build_tool_registry toy_engine_env ?g = Inr g'"
    "rc_enriched_request (eg_context g') = r'"
    using reg(1) g view by (simp add: build_tool_registry_def Let_def searching_engine_def)
  have "\<exists>u. to_upstream_request (\<lambda>_. Inr ''{}'') False r' = Inr u"
  proof -
    have "\<exists>fs. upstream_tools (\<lambda>_. Inr ''{}'') (Some ?ts) = Inr fs"
      unfolding upstream_tools_def option.case res and_then_Inr by (simp only: run_steps.simps s0(8) sum.case) simp
    moreover have "\<exists>nm. build_namespace_map (Some ?ts) = Inr nm"
      by (simp add: build_namespace_map_def)
    ultimately show ?thesis
      by (auto simp: to_upstream_request_def Let_def r'_def searching_tools
          validate_custom_choice_def namespace_tool_choice_def rewrite_tool_choice_with_map_def split: option.split)
  qed
  then obtain u where u: "to_upstream_request (\<lambda>_. Inr ''{}'') False r' = Inr u" ..
  have "list_all undiscovered (unwrap_or (rq_tools searching_request) [])" by (simp add: searching_tools)
  from deferred_functions_need_a_search [OF prepared this g(1,4) g'(1) _ u] g'(2)
  have "''see'' \<notin> set (map fn_name (unwrap_or (up_tools u) []))"
    by (auto simp: deferred_names_def searching_tools released_names_def searching_found)
  with prepared g' u show "\<exists>r' s g' u. prepare_request plain_search_forms searching_request [] False = Inr (r', Some s)
     \<and> build_tool_registry toy_engine_env (searching_engine w r' s) = Inr g'
     \<and> to_upstream_request (\<lambda>_. Inr ''{}'') False (rc_enriched_request (eg_context g')) = Inr u
     \<and> ''see'' \<notin> set (map fn_name (unwrap_or (up_tools u) []))"
    by blast
qed

end
