(* ===== verification/Search_History.thy ===== *)
theory Search_History
  imports Tool_Search_Views
begin

text \<open>
  The private history of a tool search: which histories are accepted, and what the model reads in
  place of the searches.
\<close>

definition lowered_search_item :: "search_forms \<Rightarrow> input_item \<Rightarrow> input_item option" where
  "lowered_search_item forms item =
     (case item of
        InToolSearchCall c \<Rightarrow> (case sf_print forms (its_arguments c) of Inl _ \<Rightarrow> None | Inr s \<Rightarrow> Some (search_function_call c s))
      | InToolSearchOutput out \<Rightarrow>
          (case canonical_search_output forms (tso_tools out) of
             Inl _ \<Rightarrow> None
           | Inr s \<Rightarrow> Some (InFunctionCallOutput \<lparr>fr_call_id = tso_call_id out, fr_output = OutputString s\<rparr>))
      | InCompactionTrigger \<Rightarrow> None
      | other \<Rightarrow> Some other)"

type_synonym answered_search = "input_tool_search_call \<times> tool_search_output_message"

definition answered_items :: "answered_search list \<Rightarrow> input_item list" where
  "answered_items pairs = concat (map (\<lambda>(c, out). [InToolSearchCall c, InToolSearchOutput out]) pairs)"

definition answered_ok :: "answered_search \<Rightarrow> bool" where
  "answered_ok pair \<longleftrightarrow> its_call_id (fst pair) = tso_call_id (snd pair) \<and> tso_status (snd pair) = SearchCompleted"

definition pending_items :: "input_tool_search_call option \<Rightarrow> input_item list" where
  "pending_items c = (case c of None \<Rightarrow> [] | Some call \<Rightarrow> [InToolSearchCall call])"

text \<open>The replay after the items \<open>xs\<close>.\<close>

definition replayed_so_far ::
  "search_forms \<Rightarrow> input_item list \<Rightarrow> answered_search list \<Rightarrow> input_tool_search_call option \<Rightarrow> history_replay \<Rightarrow> bool" where
  "replayed_so_far forms xs pairs c h \<longleftrightarrow>
     filter is_search_item xs = answered_items pairs @ pending_items c \<and> list_all answered_ok pairs
     \<and> hr_unresolved h = map_option its_call_id c
     \<and> hr_completed h = set (map (its_call_id \<circ> fst) pairs) \<and> distinct (map (its_call_id \<circ> fst) pairs)
     \<and> (\<forall>call. c = Some call \<longrightarrow> its_call_id call \<notin> hr_completed h)
     \<and> hr_item_ids h = set (map (its_id \<circ> fst) pairs @ map its_id (case c of None \<Rightarrow> [] | Some call \<Rightarrow> [call]))
     \<and> distinct (map (its_id \<circ> fst) pairs @ map its_id (case c of None \<Rightarrow> [] | Some call \<Rightarrow> [call]))
     \<and> hr_items h = List.map_filter (lowered_search_item forms) xs"

lemma map_filter_snoc: "List.map_filter f (xs @ [x]) = List.map_filter f xs @ (case f x of None \<Rightarrow> [] | Some y \<Rightarrow> [y])"
  by (simp add: map_filter_def split: option.split)

lemma replay_item_so_far:
  assumes ok: "replayed_so_far forms xs pairs c h" and step: "replay_item forms h (n, x) = Inr h'"
  shows "\<exists>pairs' c'. replayed_so_far forms (xs @ [x]) pairs' c' h'"
proof -
  have other: ?thesis if "\<not> is_search_item x" "hr_unresolved h' = hr_unresolved h" "hr_completed h' = hr_completed h"
      "hr_item_ids h' = hr_item_ids h" "hr_items h' = hr_items h @ (case lowered_search_item forms x of None \<Rightarrow> [] | Some y \<Rightarrow> [y])"
    using ok that by (intro exI [of _ pairs] exI [of _ c]) (auto simp: replayed_so_far_def map_filter_snoc List.map_filter_simps split: option.split)
  show ?thesis
proof (cases x)
  case (InToolSearchCall call)
  from step InToolSearchCall ok obtain s where s: "sf_print forms (its_arguments call) = Inr s" "c = None"
      "its_id call \<notin> hr_item_ids h" "its_call_id call \<notin> hr_completed h"
      "hr_unresolved h' = Some (its_call_id call)" "hr_completed h' = hr_completed h"
      "hr_item_ids h' = insert (its_id call) (hr_item_ids h)" "hr_items h' = hr_items h @ [search_function_call call s]"
    by (auto simp: replay_item_def Let_def prepare_search_call_def config_def replayed_so_far_def split: if_splits sum.splits)
  have "replayed_so_far forms (xs @ [x]) pairs (Some call) h'"
    using ok s unfolding replayed_so_far_def InToolSearchCall
    by (auto simp: pending_items_def map_filter_snoc lowered_search_item_def)
  then show ?thesis by blast
next
  case (InToolSearchOutput out)
  from step InToolSearchOutput ok obtain s call where s: "canonical_search_output forms (tso_tools out) = Inr s" "c = Some call"
      "its_call_id call = tso_call_id out" "tso_status out = SearchCompleted"
      "hr_unresolved h' = None" "hr_completed h' = insert (tso_call_id out) (hr_completed h)"
      "hr_item_ids h' = hr_item_ids h"
      "hr_items h' = hr_items h @ [InFunctionCallOutput \<lparr>fr_call_id = tso_call_id out, fr_output = OutputString s\<rparr>]"
    by (auto simp: replay_item_def Let_def prepare_search_output_def config_def replayed_so_far_def result_simps
        split: if_splits option.splits)
  have "replayed_so_far forms (xs @ [x]) (pairs @ [(call, out)]) None h'"
    using ok s unfolding replayed_so_far_def InToolSearchOutput
    by (auto simp: pending_items_def answered_items_def answered_ok_def map_filter_snoc lowered_search_item_def)
  then show ?thesis by blast
next
  case (InFunctionCall call)
  from step InFunctionCall show ?thesis
    by (intro other) (auto simp: replay_item_def Let_def result_simps lowered_search_item_def)
qed (insert step, (rule other; auto simp: replay_item_def Let_def lowered_search_item_def)+)
qed

lemma replay_so_far:
  "run_steps (replay_item forms) h (enumerate n items) = Inr h' \<Longrightarrow> replayed_so_far forms xs pairs c h \<Longrightarrow>
     \<exists>pairs' c'. replayed_so_far forms (xs @ items) pairs' c' h'"
proof (induction items arbitrary: h n xs pairs c)
  case (Cons x items)
  then obtain h1 where h1: "replay_item forms h (n, x) = Inr h1" "run_steps (replay_item forms) h1 (enumerate (Suc n) items) = Inr h'"
    by (auto split: sum.splits)
  from replay_item_so_far [OF Cons.prems(2) h1(1)] obtain pairs' c' where "replayed_so_far forms (xs @ [x]) pairs' c' h1" by blast
  from Cons.IH [OF h1(2) this] show ?case by simp
qed (auto)

text \<open>
  C22: an accepted history answers every search before the next one. Its search items are completed
  call and output pairs with equal call ids, no call id and no item id twice; what the model reads
  is the history item by item, each search call as a function call with its printed arguments, each
  output as the function output with the returned definitions, every other item unchanged and in
  place, compaction triggers left out.
\<close>

theorem search_history_is_answered:
  assumes "prepare_history forms (ItemsInput items) a = Inr (input, a')"
  shows "(\<exists>pairs. filter is_search_item items = answered_items pairs \<and> list_all answered_ok pairs
      \<and> distinct (map (its_call_id \<circ> fst) pairs) \<and> distinct (map (its_id \<circ> fst) pairs))
    \<and> input = ItemsInput (List.map_filter (lowered_search_item forms) items)"
proof -
  from assms obtain h where h: "run_steps (replay_item forms) (start_replay a) (enumerate 0 items) = Inr h"
      "hr_unresolved h = None" "input = ItemsInput (hr_items h)"
    by (auto simp: prepare_history_def config_def result_simps split: if_splits)
  have "replayed_so_far forms [] [] None (start_replay a)"
    by (simp add: replayed_so_far_def start_replay_def answered_items_def pending_items_def List.map_filter_simps)
  from replay_so_far [OF h(1) this] obtain pairs c where "replayed_so_far forms items pairs c h" by auto
  with h(2,3) show ?thesis
    by (auto simp: replayed_so_far_def pending_items_def intro!: exI [of _ pairs])
qed

theorem search_history_is_answered_witness:
  "\<exists>input a'. prepare_history plain_search_forms (ItemsInput [search_call_item, search_output_item])
      (fresh_history (start_definitions [])) = Inr (input, a')
    \<and> length (items_of input) = 2"
proof -
  let ?a = "fresh_history (start_definitions [])"
  let ?out = "\<lparr>tso_call_id = ''c1'', tso_execution = SearchClient, tso_status = SearchCompleted, tso_tools = [FunctionTool (deferred_function ''run'')]\<rparr>"
  have "\<exists>h1. replay_item plain_search_forms (start_replay ?a) (0, search_call_item) = Inr h1 \<and> hr_unresolved h1 = Some ''c1''
      \<and> hr_completed h1 = {} \<and> hr_definitions h1 = (fresh_history ?a)\<lparr>da_position := Some 0\<rparr>"
    by (simp add: replay_item_def search_call_item_def prepare_search_call_def start_replay_def plain_search_forms_def)
  then obtain h1 where h1: "replay_item plain_search_forms (start_replay ?a) (0, search_call_item) = Inr h1" "hr_unresolved h1 = Some ''c1''"
      "hr_completed h1 = {}" "hr_definitions h1 = (fresh_history ?a)\<lparr>da_position := Some 0\<rparr>" by blast
  have "\<exists>a'. load_definition plain_search_forms ((fresh_history ?a)\<lparr>da_position := Some (Suc 0)\<rparr>) (FunctionTool (deferred_function ''run'')) = Inr a'"
    by (simp add: load_definition_def declared_identity_def tool_search_name_def canonical_definition_def plain_search_forms_def
        fresh_history_def start_definitions_def load_unknown_def new_definition_record_def)
  then have "\<exists>h2. replay_item plain_search_forms h1 (Suc 0, search_output_item) = Inr h2 \<and> hr_unresolved h2 = None"
    by (auto simp: replay_item_def search_output_item_def prepare_search_output_def canonical_search_output_def h1)
       (simp add: plain_search_forms_def)
  with h1(1) obtain input a' where run: "prepare_history plain_search_forms (ItemsInput [search_call_item, search_output_item]) ?a = Inr (input, a')"
    by (auto simp: prepare_history_def)
  from search_history_is_answered [OF run] have "length (items_of input) = 2"
    by (auto simp: items_of_def List.map_filter_simps lowered_search_item_def search_call_item_def search_output_item_def
        canonical_search_output_def plain_search_forms_def)
  with run show ?thesis by blast
qed

end
