(* ===== verification/Ingest.thy ===== *)
theory Ingest
  imports Tool_Search Rounds Dispatcher
begin

text \<open>
  One upstream round: \<open>executor/pipeline/ingest.rs\<close> assembles and translates one body,
  \<open>executor/pipeline.rs\<close> owns the round and the delivery of a request, \<open>executor/upstream.rs\<close> sends
  the request and reads its answer. An \<open>expect\<close> of the pipeline that fails is the value \<open>None\<close>. The
  upstream server is what it replies to a posted text; a body is a list of items, each with the
  state its stream has after the item was polled.
\<close>

section \<open>One body\<close>

datatype body_kind = BodyEmpty | BodyStream | BodyJson

record round_ingestion =
  ri_accumulator :: accumulator
  ri_body_kind :: body_kind
  ri_translator :: dispatcher

text \<open>
  What is read from outside: the translator's environment, the clock, a fresh identifier for each
  line and the message of the JSON parser.
\<close>

record ingest_env =
  ig_translator :: translator_env
  ig_now :: i64
  ig_draw :: "nat \<Rightarrow> string"
  ig_parse_error :: string

definition new_round_ingestion :: "string \<Rightarrow> string option \<Rightarrow> validation \<Rightarrow> translation_context \<Rightarrow> round_ingestion" where
  "new_round_ingestion response_id conversation_id v ctx =
     \<lparr>ri_accumulator = accumulator_with_validation response_id conversation_id v, ri_body_kind = BodyEmpty,
      ri_translator = new_dispatcher ctx\<rparr>"

definition ingest_json_body :: "ingest_env \<Rightarrow> string \<Rightarrow> round_ingestion \<Rightarrow> executor_error + round_ingestion" where
  "ingest_json_body env body r =
     (if ri_body_kind r \<noteq> BodyEmpty
      then Inl (InvalidRequest ''cannot load a JSON body after starting stream ingestion'')
      else
        and_then (dispatcher_validate_json_body (ig_translator env) body (ri_translator r)) (\<lambda>_.
        and_then (load_json_body (tv_codec (ig_translator env)) (ig_draw env) (ig_parse_error env) body (ri_accumulator r)) (\<lambda>acc.
          Inr (r\<lparr>ri_accumulator := acc, ri_body_kind := BodyJson\<rparr>))))"

fun function_event_index :: "event_payload \<Rightarrow> u32 option" where
  "function_event_index (POutputItemAdded _ t i _ _ _ _) = (if t = TyFunctionCall then i else None)"
| "function_event_index (POutputItemDone _ t i _) = (if t = TyFunctionCall then i else None)"
| "function_event_index (PFunctionCallArgsDelta _ _ _ i) = i"
| "function_event_index (PFunctionCallArgsDone _ _ _ _ i) = i"
| "function_event_index _ = None"

definition accumulated_call_at :: "accumulator \<Rightarrow> u32 \<Rightarrow> accumulated_call option" where
  "accumulated_call_at acc i =
     map_option (\<lambda>(item, arguments). \<lparr>ac_item = item, ac_arguments = arguments, ac_output_index = i\<rparr>) (accumulated_function_call i acc)"

definition translate_line ::
  "ingest_env \<Rightarrow> string \<Rightarrow> classified_sse_line \<Rightarrow> accumulator \<Rightarrow> dispatcher
   \<Rightarrow> executor_error + translation option \<times> accumulator \<times> dispatcher" where
  "translate_line env u line acc d =
     and_then (process_line (tv_codec (ig_translator env)) u line acc) (\<lambda>(f, acc').
       case f of
         None \<Rightarrow> Inr (None, acc', d)
       | Some frame \<Rightarrow>
           and_then (dispatcher_translate (ig_translator env) frame
               (Option.bind (function_event_index (ef_payload frame)) (accumulated_call_at acc')) d)
             (\<lambda>(t, d'). Inr (Some t, acc', d')))"

definition ingest_line ::
  "ingest_env \<Rightarrow> string \<Rightarrow> classified_sse_line \<Rightarrow> round_ingestion \<Rightarrow> executor_error + translation \<times> round_ingestion" where
  "ingest_line env u line r =
     and_then (translate_line env u line (ri_accumulator r) (ri_translator r)) (\<lambda>(t, acc, d).
       Inr (case t of None \<Rightarrow> \<lparr>tl_frames = [], tl_defer_from = dispatcher_defer_from d\<rparr> | Some t \<Rightarrow> t,
            \<lparr>ri_accumulator = acc, ri_body_kind = BodyStream, ri_translator = d\<rparr>))"

definition finish_ingestion ::
  "ingest_env \<Rightarrow> string \<Rightarrow> string option \<Rightarrow> string option \<Rightarrow> round_ingestion \<Rightarrow> executor_error + response_payload" where
  "finish_ingestion env model previous_response_id instructions r =
     and_then (if ri_body_kind r = BodyJson
         then Inr (accumulator_finalize (ig_now env) model previous_response_id instructions (ri_accumulator r))
         else accumulator_finish (ig_now env) model previous_response_id instructions (ri_accumulator r)) (\<lambda>payload.
     and_then (dispatcher_finish (ri_translator r)) (\<lambda>outcome.
       normalize_response_payload (tv_codec (ig_translator env)) outcome payload))"

section \<open>The pipeline of a request\<close>

record agent_pipeline =
  ap_request :: request_context
  ap_search :: "tool_search_state option"
  ap_delivery :: stream_delivery
  ap_round :: "round_ingestion option"

definition new_agent_pipeline :: "request_context \<Rightarrow> tool_search_state option \<Rightarrow> bool \<Rightarrow> agent_pipeline" where
  "new_agent_pipeline ctx search sending =
     \<lparr>ap_request = ctx, ap_search = search, ap_delivery = new_stream_delivery sending, ap_round = None\<rparr>"

definition begin_round :: "validation \<Rightarrow> translation_context \<Rightarrow> agent_pipeline \<Rightarrow> executor_error + agent_pipeline" where
  "begin_round v ctx ap =
     (if ap_round ap \<noteq> None then Inl (InvalidRequest ''previous pipeline body did not finish'')
      else Inr (ap\<lparr>ap_round := Some (new_round_ingestion (rc_response_id (ap_request ap)) (rc_conversation_id (ap_request ap)) v ctx)\<rparr>))"

definition push_line ::
  "ingest_env \<Rightarrow> string \<Rightarrow> classified_sse_line \<Rightarrow> agent_pipeline \<Rightarrow> (executor_error + translation \<times> agent_pipeline) option" where
  "push_line env u line ap =
     map_option (\<lambda>r. and_then (ingest_line env u line r) (\<lambda>(t, r'). Inr (t, ap\<lparr>ap_round := Some r'\<rparr>))) (ap_round ap)"

definition finish_round ::
  "ingest_env \<Rightarrow> agent_pipeline \<Rightarrow> ((executor_error + response_payload) \<times> agent_pipeline) option" where
  "finish_round env ap =
     map_option (\<lambda>r.
       (and_then (finish_ingestion env (rq_model (rc_enriched_request (ap_request ap)))
            (rq_previous_response_id (rc_original_request (ap_request ap)))
            (rq_instructions (rc_original_request (ap_request ap))) r) (\<lambda>payload. Inr (inject_ids (ap_request ap) payload)),
        ap\<lparr>ap_round := None\<rparr>)) (ap_round ap)"

text \<open>The loop over the lines: what was delivered before an error stays delivered.\<close>

type_synonym ('a, 'b) piped = "(executor_error + 'a) option \<times> 'b \<times> agent_pipeline"

fun run_lines ::
  "ingest_env \<Rightarrow> delivery_env \<Rightarrow> nat \<Rightarrow> ((executor_error + string) \<times> 'b) list \<Rightarrow> 'b \<Rightarrow> agent_pipeline \<Rightarrow> (unit, 'b) piped" where
  "run_lines env denv n [] b ap = (Some (Inr ()), b, ap)"
| "run_lines env denv n ((Inl e, b') # body) b ap = (Some (Inl e), b', ap)"
| "run_lines env denv n ((Inr line, b') # body) b ap =
     (case push_line env (ig_draw env n) (sse_line_parse line) ap of
        None \<Rightarrow> (None, b', ap)
      | Some (Inl e) \<Rightarrow> (Some (Inl e), b', ap)
      | Some (Inr (t, ap')) \<Rightarrow>
          (case accept denv t (ap_delivery ap') of
             (Inl e, d) \<Rightarrow> (Some (Inl e), b', ap'\<lparr>ap_delivery := d\<rparr>)
           | (Inr _, d) \<Rightarrow> run_lines env denv (Suc n) body b' (ap'\<lparr>ap_delivery := d\<rparr>)))"

definition finish_stream_body :: "ingest_env \<Rightarrow> 'b \<Rightarrow> agent_pipeline \<Rightarrow> (response_payload \<times> event_frame list, 'b) piped" where
  "finish_stream_body env b ap =
     (case finish_round env ap of
        None \<Rightarrow> (None, b, ap)
      | Some (Inl e, ap') \<Rightarrow> (Some (Inl e), b, ap')
      | Some (Inr payload, ap') \<Rightarrow>
          (case take_deferred_events (ap_delivery ap') of
             (deferred, d) \<Rightarrow> (Some (Inr (payload, deferred)), b, ap'\<lparr>ap_delivery := d\<rparr>)))"

definition run_with_stream_body ::
  "ingest_env \<Rightarrow> delivery_env \<Rightarrow> validation \<Rightarrow> translation_context \<Rightarrow> ((executor_error + string) \<times> 'b) list \<Rightarrow> 'b
   \<Rightarrow> agent_pipeline \<Rightarrow> (response_payload \<times> event_frame list, 'b) piped" where
  "run_with_stream_body env denv v ctx body b ap =
     (case begin_round v ctx ap of
        Inl e \<Rightarrow> (Some (Inl e), b, ap)
      | Inr ap1 \<Rightarrow>
          (case run_lines env denv 0 body b ap1 of
             (None, b', ap2) \<Rightarrow> (None, b', ap2)
           | (Some (Inl e), b', ap2) \<Rightarrow> (Some (Inl e), b', ap2)
           | (Some (Inr _), b', ap2) \<Rightarrow> finish_stream_body env b' ap2))"

definition run_with_json_body ::
  "ingest_env \<Rightarrow> string \<Rightarrow> validation \<Rightarrow> translation_context \<Rightarrow> agent_pipeline
   \<Rightarrow> (executor_error + response_payload) option \<times> agent_pipeline" where
  "run_with_json_body env body v ctx ap =
     (case begin_round v ctx ap of
        Inl e \<Rightarrow> (Some (Inl e), ap)
      | Inr ap1 \<Rightarrow>
          (case ap_round ap1 of
             None \<Rightarrow> (None, ap1)
           | Some r \<Rightarrow>
               (case ingest_json_body env body r of
                  Inl e \<Rightarrow> (Some (Inl e), ap1)
                | Inr r' \<Rightarrow>
                    (case finish_round env (ap1\<lparr>ap_round := Some r'\<rparr>) of
                       None \<Rightarrow> (None, ap1)
                     | Some (payload, ap2) \<Rightarrow> (Some payload, ap2)))))"

section \<open>The request and its answer\<close>

fun is_shell_tool :: "responses_tool \<Rightarrow> bool" where
  "is_shell_tool (ShellTool _) = True"
| "is_shell_tool _ = False"

definition tool_classifications :: "tool_registry \<Rightarrow> (string, tool_type) index_map" where
  "tool_classifications reg = map (\<lambda>(name, _). (name, registered_type reg name)) (tr_entries reg)"

definition translation_context_of :: "tool_registry \<Rightarrow> agent_pipeline \<Rightarrow> translation_context" where
  "translation_context_of reg ap =
     (let state = ap_search ap; r = rc_enriched_request (ap_request ap)
      in with_response_metadata (tr_namespace_map reg) (tr_custom_tool_map reg)
           (case filter_option tss_active state of
              Some s \<Rightarrow> Some (tss_response_tools s)
            | None \<Rightarrow> filter_option (list_ex is_shell_tool) (rq_tools r))
           (rq_tool_choice r)
           (with_gateway_owned_names {name \<in> set (im_keys (tr_entries reg)). is_gateway_owned_name reg name}
             (new_translation_context (tool_classifications reg) (case state of None \<Rightarrow> {} | Some s \<Rightarrow> tss_withheld s)
               (case state of None \<Rightarrow> False | Some s \<Rightarrow> tss_active s))))"

record upstream_env =
  ue_ingest :: ingest_env
  ue_emitter :: emitter
  ue_action :: "string \<Rightarrow> shell_call_action option"
  ue_forms :: request_forms
  ue_headers :: header_rules
  ue_server :: "string \<Rightarrow> http_reply"

definition upstream_reply :: "upstream_env \<Rightarrow> bool \<Rightarrow> agent_pipeline \<Rightarrow> executor_error + http_reply" where
  "upstream_reply env stream ap =
     and_then (of_tool_error (ensure_request_prepared (rc_enriched_request (ap_request ap)) (ap_search ap \<noteq> None))) (\<lambda>_.
     and_then (upstream_request_text (em_print (ue_emitter env)) (ue_forms env) stream (ap_request ap)) (\<lambda>text.
       Inr (ue_server env text)))"

definition fetch_blocking_payload ::
  "upstream_env \<Rightarrow> tool_registry \<Rightarrow> executor_response_budget \<Rightarrow> agent_pipeline
   \<Rightarrow> (response_payload, executor_response_budget) piped" where
  "fetch_blocking_payload env reg b ap =
     (case and_then (upstream_reply env False ap) (fetch_response_json (ue_headers env)) of
        Inl e \<Rightarrow> (Some (Inl e), b, ap)
      | Inr body \<Rightarrow>
          (case budget_consume b (length body) of
             Inl e \<Rightarrow> (Some (Inl e), b, ap)
           | Inr b' \<Rightarrow>
               (case run_with_json_body (ue_ingest env) body Lenient (translation_context_of reg ap) ap of
                  (r, ap') \<Rightarrow> (r, b', ap'))))"

text \<open>The lines of the answer, each charged to the budget when it is polled.\<close>

fun metered_lines ::
  "executor_response_budget \<Rightarrow> (executor_error + string) list \<Rightarrow> ((executor_error + string) \<times> executor_response_budget) list" where
  "metered_lines b [] = []"
| "metered_lines b (Inl e # items) = (Inl e, b) # metered_lines b items"
| "metered_lines b (Inr line # items) =
     (case budget_consume b (length line) of
        Inl e \<Rightarrow> (Inl e, b) # metered_lines b items
      | Inr b' \<Rightarrow> (Inr line, b') # metered_lines b' items)"

definition upstream_delivery_env :: "upstream_env \<Rightarrow> tool_registry \<Rightarrow> usize \<Rightarrow> agent_pipeline \<Rightarrow> delivery_env" where
  "upstream_delivery_env env reg output_offset ap =
     \<lparr>de_emitter = ue_emitter env, de_codec = tv_codec (ig_translator (ue_ingest env)), de_action = ue_action env,
      de_registry = reg, de_context = ap_request ap, de_output_offset = output_offset\<rparr>"

definition fetch_stream_payload ::
  "upstream_env \<Rightarrow> tool_registry \<Rightarrow> usize \<Rightarrow> executor_response_budget \<Rightarrow> agent_pipeline
   \<Rightarrow> (response_payload \<times> event_frame list, executor_response_budget) piped" where
  "fetch_stream_payload env reg output_offset b ap =
     (case upstream_reply env True ap of
        Inl e \<Rightarrow> (Some (Inl e), b, ap)
      | Inr reply \<Rightarrow>
          run_with_stream_body (ue_ingest env) (upstream_delivery_env env reg output_offset ap) Lenient
            (translation_context_of reg ap) (metered_lines b (call_inference (ue_headers env) reply)) b ap)"

text \<open>
  The round as the engine calls it, on the state of the engine. The delivery of the previous round
  is empty again, so only its relay lives on; that the pipeline never panics is proved below.
\<close>

definition delivery_of :: "relay option \<Rightarrow> stream_delivery" where
  "delivery_of s = (case s of None \<Rightarrow> new_stream_delivery False | Some r \<Rightarrow> (new_stream_delivery True)\<lparr>sd_relay := r\<rparr>)"

definition relay_of :: "relay option \<Rightarrow> agent_pipeline \<Rightarrow> relay option" where
  "relay_of s ap = map_option (\<lambda>_. sd_relay (ap_delivery ap)) s"

definition fetch_upstream :: "upstream_env \<Rightarrow> tool_search_state option \<Rightarrow> bool \<Rightarrow> upstream_round" where
  "fetch_upstream env search stream ctx reg output_offset b s =
     (let ap = \<lparr>ap_request = ctx, ap_search = search, ap_delivery = delivery_of s, ap_round = None\<rparr>
      in if stream
         then (case fetch_stream_payload env reg output_offset b ap of (r, b', ap') \<Rightarrow> (the r, b', relay_of s ap'))
         else (case fetch_blocking_payload env reg b ap of
                 (r, b', ap') \<Rightarrow> (and_then (the r) (\<lambda>payload. Inr (payload, [])), b', relay_of s ap')))"

section \<open>A body the caller already relayed\<close>

datatype upstream_body = JsonUpstream string | SseUpstream string

text \<open>\<open>str::lines\<close>: a line ends at a newline, with a carriage return before it or not.\<close>

definition str_lines :: "string \<Rightarrow> string list" where
  "str_lines body =
     map strip_cr (butlast (split_at newline body))
     @ (if last (split_at newline body) = [] then [] else [last (split_at newline body)])"

definition decode_upstream ::
  "ingest_env \<Rightarrow> emitter \<Rightarrow> (string \<Rightarrow> shell_call_action option) \<Rightarrow> request_context \<Rightarrow> upstream_body
   \<Rightarrow> (executor_error + response_payload \<times> request_context) option" where
  "decode_upstream env em action ctx body =
     (let ap = new_agent_pipeline ctx None False; default = new_translation_context [] {} False
      in case body of
           JsonUpstream text \<Rightarrow>
             (case run_with_json_body env text Strict default ap of
                (r, ap') \<Rightarrow> map_option (\<lambda>r. and_then r (\<lambda>payload. Inr (payload, ap_request ap'))) r)
         | SseUpstream text \<Rightarrow>
             (case run_with_stream_body env
                 \<lparr>de_emitter = em, de_codec = tv_codec (ig_translator env), de_action = action, de_registry = empty_registry,
                  de_context = ctx, de_output_offset = 0\<rparr> Strict default (map (\<lambda>line. (Inr line, ())) (str_lines text)) () ap of
                (r, _, ap') \<Rightarrow> map_option (\<lambda>r. and_then r (\<lambda>(payload, _). Inr (payload, ap_request ap'))) r))"

section \<open>Persisting a decoded turn\<close>

text \<open>
  \<open>persist_response\<close> and \<open>persist_turn\<close> of \<open>executor/persist.rs\<close> prepare the tool search again for its
  public metadata; a context that is dropped on an error gives its lease back.
\<close>

definition persist_turn ::
  "turn_env \<Rightarrow> search_handler \<Rightarrow> (nat \<Rightarrow> string) \<Rightarrow> i64 \<Rightarrow> request_context \<Rightarrow> output_item list \<Rightarrow> world
   \<Rightarrow> (executor_error + unit) \<times> world" where
  "persist_turn env search draw now ctx items w =
     (case prepare_request_tools env search ctx w of
        Inl e \<Rightarrow> (Inl e, end_lease (rc_continuation ctx) w)
      | Inr (ctx', state) \<Rightarrow> persist_prepared_turn env draw now ctx' (map_option tss_metadata state) items w)"

definition persist_response ::
  "turn_env \<Rightarrow> search_handler \<Rightarrow> (nat \<Rightarrow> string) \<Rightarrow> i64 \<Rightarrow> response_payload \<Rightarrow> request_context \<Rightarrow> world
   \<Rightarrow> (executor_error + unit) \<times> world" where
  "persist_response env search draw now payload ctx w =
     (if response_status_of_str (rp_status payload) \<notin> {StatusCompleted, StatusIncomplete} \<or> rp_id payload = ''''
      then (Inr (), end_lease (rc_continuation ctx) w)
      else persist_turn env search draw now ctx (rp_output payload) w)"

section \<open>The pipeline never panics\<close>

lemma push_line_round: "ap_round ap \<noteq> None \<Longrightarrow> push_line env u line ap \<noteq> None"
  by (auto simp: push_line_def)

lemma push_line_Some:
  "push_line env u line ap = Some (Inr (t, ap')) \<Longrightarrow> \<exists>r. ap' = ap\<lparr>ap_round := Some r\<rparr>"
  by (auto simp: push_line_def result_simps)

lemma push_line_delivery:
  "push_line env u line (ap\<lparr>ap_delivery := d\<rparr>) =
     map_option (\<lambda>r. and_then r (\<lambda>(t, ap'). Inr (t, ap'\<lparr>ap_delivery := d\<rparr>))) (push_line env u line ap)"
  by (cases "ap_round ap"; cases "ingest_line env u line (the (ap_round ap))") (auto simp: push_line_def)

lemma run_lines_round:
  "run_lines env denv n body b ap = (r, b', ap') \<Longrightarrow> ap_round ap \<noteq> None \<Longrightarrow> r \<noteq> None \<and> ap_round ap' \<noteq> None"
proof (induction env denv n body b ap rule: run_lines.induct)
  case (3 env denv n line b1 body b ap)
  from push_line_round [OF 3(3)] obtain x where x: "push_line env (ig_draw env n) (sse_line_parse line) ap = Some x" by blast
  show ?case
  proof (cases x)
    case (Inl e)
    with 3 x show ?thesis by auto
  next
    case (Inr y)
    obtain t ap1 where y: "y = (t, ap1)" by force
    with x Inr push_line_Some have ap1: "ap_round ap1 \<noteq> None" by fastforce
    obtain res d where acc: "accept denv t (ap_delivery ap1) = (res, d)" by force
    show ?thesis
    proof (cases res)
      case (Inl e)
      with 3(2) x \<open>x = Inr y\<close> y acc ap1 show ?thesis by auto
    next
      case (Inr v)
      with 3(1) [OF x \<open>x = Inr y\<close> y [symmetric] acc [symmetric], of v] 3(2) x \<open>x = Inr y\<close> y acc ap1 show ?thesis by simp
    qed
  qed
qed auto

lemma finish_round_round: "ap_round ap \<noteq> None \<Longrightarrow> finish_round env ap \<noteq> None"
  by (auto simp: finish_round_def)

lemma begin_round_round: "begin_round v ctx ap = Inr ap' \<Longrightarrow> ap_round ap' \<noteq> None"
  by (auto simp: begin_round_def split: if_splits)

lemma run_with_stream_body_returns: "fst (run_with_stream_body env denv v ctx body b ap) \<noteq> None"
proof (cases "begin_round v ctx ap")
  case (Inr ap1)
  obtain r b' ap2 where run: "run_lines env denv 0 body b ap1 = (r, b', ap2)" by (metis prod_cases3)
  from run_lines_round [OF run begin_round_round [OF Inr]] have "r \<noteq> None" "ap_round ap2 \<noteq> None" by simp_all
  with run Inr finish_round_round [of ap2 env] show ?thesis
    by (auto simp: run_with_stream_body_def finish_stream_body_def split: sum.split prod.split)
qed (simp add: run_with_stream_body_def)

lemma run_with_json_body_returns: "fst (run_with_json_body env body v ctx ap) \<noteq> None"
  using begin_round_round [of v ctx ap]
  by (auto simp: run_with_json_body_def finish_round_def split: sum.split option.split)

section \<open>The payload and the client\<close>

lemma accept_unheard:
  "\<not> sd_sending d \<Longrightarrow> accept denv t d = (Inr (), d\<lparr>sd_defer_from := map_option u64_of_u32 (tl_defer_from t)\<rparr>)"
  by (simp add: accept_def)

lemma run_lines_unheard:
  "run_lines env denv n body b ap = (Some (Inr u), b', ap') \<Longrightarrow> \<not> sd_sending d \<Longrightarrow> sd_deferred d = [] \<Longrightarrow>
     \<exists>d'. run_lines env denv2 n body b (ap\<lparr>ap_delivery := d\<rparr>) = (Some (Inr ()), b', ap'\<lparr>ap_delivery := d'\<rparr>)
       \<and> \<not> sd_sending d' \<and> sd_deferred d' = []"
proof (induction env denv n body b ap arbitrary: d rule: run_lines.induct)
  case (3 env denv n line b1 body b ap)
  from 3(2) obtain t ap1 d1 v where step: "push_line env (ig_draw env n) (sse_line_parse line) ap = Some (Inr (t, ap1))"
      "accept denv t (ap_delivery ap1) = (Inr v, d1)"
      "run_lines env denv (Suc n) body b1 (ap1\<lparr>ap_delivery := d1\<rparr>) = (Some (Inr u), b', ap')"
    by (auto split: option.splits sum.splits prod.splits)
  let ?d = "d\<lparr>sd_defer_from := map_option u64_of_u32 (tl_defer_from t)\<rparr>"
  from 3(1) [OF step(1) refl refl step(2) [symmetric] refl step(3), of ?d] 3(3,4)
  obtain d' where "run_lines env denv2 (Suc n) body b1 (ap1\<lparr>ap_delivery := ?d\<rparr>) = (Some (Inr ()), b', ap'\<lparr>ap_delivery := d'\<rparr>)"
      "\<not> sd_sending d'" "sd_deferred d' = []"
    by auto
  moreover have "push_line env (ig_draw env n) (sse_line_parse line) (ap\<lparr>ap_delivery := d\<rparr>) = Some (Inr (t, ap1\<lparr>ap_delivery := d\<rparr>))"
    by (simp add: push_line_delivery step(1))
  ultimately show ?case by (auto simp: accept_unheard [OF 3(3)])
qed auto

lemma finish_round_delivery:
  "finish_round env (ap\<lparr>ap_delivery := d\<rparr>) = map_option (\<lambda>(r, ap'). (r, ap'\<lparr>ap_delivery := d\<rparr>)) (finish_round env ap)"
  by (cases "ap_round ap") (simp_all add: finish_round_def)

lemma begin_round_delivery:
  "begin_round v ctx (ap\<lparr>ap_delivery := d\<rparr>) = and_then (begin_round v ctx ap) (\<lambda>ap'. Inr (ap'\<lparr>ap_delivery := d\<rparr>))"
  by (simp add: begin_round_def)

lemma run_with_stream_body_unheard:
  assumes "run_with_stream_body env denv v ctx body b ap = (Some (Inr (payload, deferred)), b', ap')"
    and "\<not> sd_sending d" "sd_deferred d = []"
  shows "\<exists>ap''. run_with_stream_body env denv2 v ctx body b (ap\<lparr>ap_delivery := d\<rparr>) = (Some (Inr (payload, [])), b', ap'')"
proof -
  from assms(1) obtain ap1 ap2 ap3 where steps: "begin_round v ctx ap = Inr ap1"
      "run_lines env denv 0 body b ap1 = (Some (Inr ()), b', ap2)" "finish_round env ap2 = Some (Inr payload, ap3)"
    by (auto simp: run_with_stream_body_def finish_stream_body_def split: sum.splits option.splits prod.splits)
  from run_lines_unheard [OF steps(2) assms(2,3), of denv2] obtain d' where
    "run_lines env denv2 0 body b (ap1\<lparr>ap_delivery := d\<rparr>) = (Some (Inr ()), b', ap2\<lparr>ap_delivery := d'\<rparr>)" "sd_deferred d' = []" by blast
  with steps(1,3) show ?thesis
    by (simp add: run_with_stream_body_def begin_round_delivery finish_stream_body_def finish_round_delivery take_deferred_events_def)
qed

lemma run_with_stream_body_ids:
  assumes "run_with_stream_body env denv v ctx body b ap = (Some (Inr (payload, deferred)), b', ap')"
  shows "inject_ids (ap_request ap) payload = payload"
proof -
  have request: "ap_request ap2 = ap_request ap1" if "run_lines env denv n body b ap1 = (r, b', ap2)" for n b ap1 r b' ap2
    using that
  proof (induction env denv n body b ap1 rule: run_lines.induct)
    case (3 env denv n line b1 body b ap1)
    then show ?case by (fastforce split: option.splits sum.splits prod.splits dest: push_line_Some)
  qed auto
  from assms obtain ap1 ap2 ap3 where steps: "begin_round v ctx ap = Inr ap1"
      "run_lines env denv 0 body b ap1 = (Some (Inr ()), b', ap2)" "finish_round env ap2 = Some (Inr payload, ap3)"
    by (auto simp: run_with_stream_body_def finish_stream_body_def split: sum.splits option.splits prod.splits)
  have "ap_request ap1 = ap_request ap" using steps(1) by (auto simp: begin_round_def split: if_splits)
  with request [OF steps(2)] steps(3) show ?thesis
    by (auto simp: finish_round_def inject_ids_def result_simps)
qed

lemma inject_ids_fixed:
  assumes "inject_ids ctx p = p"
  shows "rp_id p = rc_response_id ctx" "rp_conversation_id p = rc_conversation_id ctx"
    "rp_previous_response_id p = rq_previous_response_id (rc_original_request ctx)"
  using arg_cong [OF assms, of rp_id] arg_cong [OF assms, of rp_conversation_id] arg_cong [OF assms, of rp_previous_response_id]
  by (simp_all add: inject_ids_def)

text \<open>
  C17: when a streamed upstream round with a client succeeds, its payload does not depend on the
  client: whatever was sent, held back or deferred, the same round without a client, at any output
  offset, succeeds with the same payload and the same budget, holding nothing back; the payload
  carries the ids of the request, not those of the upstream server. A round whose client is gone
  fails when it next sends an event, so nothing is said of a round that did not succeed.
\<close>

theorem payload_does_not_depend_on_the_client:
  assumes "fetch_upstream env search True ctx reg offset b (Some r) = (Inr (payload, deferred), b', s)"
  shows "fetch_upstream env search True ctx reg offset2 b None = (Inr (payload, []), b', None)
    \<and> rp_id payload = rc_response_id ctx \<and> rp_conversation_id payload = rc_conversation_id ctx
    \<and> rp_previous_response_id payload = rq_previous_response_id (rc_original_request ctx)"
proof -
  let ?ap = "\<lambda>s. \<lparr>ap_request = ctx, ap_search = search, ap_delivery = delivery_of s, ap_round = None\<rparr>"
  have ap: "?ap None = (?ap (Some r))\<lparr>ap_delivery := new_stream_delivery False\<rparr>" by (simp add: delivery_of_def)
  have reply: "upstream_reply env True (?ap None) = upstream_reply env True (?ap (Some r))"
    by (simp add: upstream_reply_def)
  from assms obtain x ap' where fetched: "fetch_stream_payload env reg offset b (?ap (Some r)) = (x, b', ap')" "the x = Inr (payload, deferred)"
    by (auto simp: fetch_upstream_def Let_def split: prod.splits)
  show ?thesis
  proof (cases "upstream_reply env True (?ap (Some r))")
    case (Inl e)
    with fetched show ?thesis by (auto simp: fetch_stream_payload_def)
  next
    case (Inr answer)
    let ?body = "metered_lines b (call_inference (ue_headers env) answer)"
    from fetched(1) Inr have run: "run_with_stream_body (ue_ingest env) (upstream_delivery_env env reg offset (?ap (Some r))) Lenient
        (translation_context_of reg (?ap (Some r))) ?body b (?ap (Some r)) = (x, b', ap')"
      by (simp add: fetch_stream_payload_def)
    from run_with_stream_body_returns [of "ue_ingest env" "upstream_delivery_env env reg offset (?ap (Some r))" Lenient
        "translation_context_of reg (?ap (Some r))" ?body b "?ap (Some r)"] run fetched(2)
    have x: "x = Some (Inr (payload, deferred))" by (cases x) auto
    from run_with_stream_body_unheard [OF run [unfolded x], of "new_stream_delivery False"]
    have "\<exists>ap''. run_with_stream_body (ue_ingest env) (upstream_delivery_env env reg offset2 (?ap None)) Lenient
        (translation_context_of reg (?ap None)) ?body b (?ap None) = (Some (Inr (payload, [])), b', ap'')"
      unfolding ap by (simp add: new_stream_delivery_def translation_context_of_def Let_def)
    then have "fetch_upstream env search True ctx reg offset2 b None = (Inr (payload, []), b', None)"
      using Inr reply by (auto simp: fetch_upstream_def fetch_stream_payload_def relay_of_def Let_def)
    moreover have "inject_ids ctx payload = payload"
      using run_with_stream_body_ids [OF run [unfolded x]] by simp
    then have "rp_id payload = rc_response_id ctx" "rp_conversation_id payload = rc_conversation_id ctx"
      "rp_previous_response_id payload = rq_previous_response_id (rc_original_request ctx)"
      by (rule inject_ids_fixed)+
    ultimately show ?thesis by blast
  qed
qed

text \<open>A server that announces its response and ends, and a request for one turn.\<close>

definition quiet_chunk :: string where
  "quiet_chunk = ''data: c'' @ [newline]"

definition quiet_env :: upstream_env where
  "quiet_env =
     \<lparr>ue_ingest = \<lparr>ig_translator = \<lparr>tv_codec = lifecycle_codec, tv_print = (\<lambda>_. Inr ''{}''), tv_string = (\<lambda>s. Inr s),
          tv_action = (\<lambda>_. Inl ''no action''), tv_next_key = (\<lambda>_. None), tv_next_value = (\<lambda>_. None), tv_item = (\<lambda>_. Inr JNull),
          tv_tools = (\<lambda>_. Inr JNull), tv_declaration = (\<lambda>_. None)\<rparr>,
        ig_now = 0, ig_draw = (\<lambda>_. ''u''), ig_parse_error = ''bad''\<rparr>,
      ue_emitter = \<lparr>em_print = (\<lambda>_. Inr ''{}''), em_open = (\<lambda>_. True), em_item = (\<lambda>_. Inr JNull), em_payload = (\<lambda>_. Inr JNull)\<rparr>,
      ue_action = (\<lambda>_. None),
      ue_forms = \<lparr>rf_input = (\<lambda>_. JNull), rf_reasoning = (\<lambda>_. JNull), rf_text = (\<lambda>_. JNull), rf_number = (\<lambda>_. JNull)\<rparr>,
      ue_headers = \<lparr>hr_name = Some, hr_value_ok = (\<lambda>_. True)\<rparr>,
      ue_server = (\<lambda>_. Reply 200 [] [Inr quiet_chunk])\<rparr>"

definition quiet_context :: request_context where
  "quiet_context =
     (let r = compaction_request ''m'' (ItemsInput []) None
      in \<lparr>rc_original_request = r, rc_enriched_request = r, rc_new_input_items = [], rc_response_id = ''resp_1'',
          rc_conversation_id = None, rc_conversation_version = None, rc_continuation = None\<rparr>)"

definition quiet_frame :: event_frame where
  "quiet_frame = lifecycle_frame ResponseCreated ''response.created'' ''in_progress''"

definition announced :: "string \<Rightarrow> string option \<Rightarrow> accumulator" where
  "announced i j = (accumulator_with_validation i j Lenient)\<lparr>ra_response_id := ''r1'', ra_lifecycle := Created\<rparr>"

lemma quiet_lines: "call_inference hr (Reply 200 [] [Inr quiet_chunk]) = [Inr ''data: c'']"
proof -
  have "drain_complete_utf8_lines [] = Inr ([], [])"
    by (subst drain_complete_utf8_lines.simps) (simp add: Let_def)
  moreover have "utf8_valid ''data: c''" by code_simp
  ultimately have "drain_complete_utf8_lines quiet_chunk = Inr ([''data: c''], [])"
    by (subst drain_complete_utf8_lines.simps)
      (simp add: Let_def quiet_chunk_def newline_def carriage_return_def max_sse_line_bytes_def)
  moreover have "forward_lines [''data: c''] = ([''data: c''], False)" by code_simp
  ultimately show ?thesis
    by (simp add: call_inference_def send_request_def newline_def)
qed

lemma quiet_reply:
  "upstream_reply quiet_env True \<lparr>ap_request = quiet_context, ap_search = None, ap_delivery = d, ap_round = None\<rparr>
     = Inr (Reply 200 [] [Inr quiet_chunk])"
proof -
  have "request_has_state (rc_enriched_request quiet_context) = False" by code_simp
  moreover have "validate_message_files (rq_input (rc_enriched_request quiet_context)) = Inr ()" by code_simp
  moreover have "\<exists>u. to_upstream_request (\<lambda>_. Inr ''{}'') True (rc_enriched_request quiet_context) = Inr u"
    by (simp add: to_upstream_request_def quiet_context_def Let_def compaction_request_def upstream_tools_def build_namespace_map_def
        validate_custom_choice_def namespace_tool_choice_def)
  ultimately show ?thesis
    by (auto simp: upstream_reply_def quiet_env_def ensure_request_prepared_def of_tool_error_def upstream_request_text_def)
qed

lemma quiet_line:
  "process_line lifecycle_codec u (sse_line_parse ''data: c'') (accumulator_with_validation i j Lenient)
     = Inr (Some quiet_frame, announced i j)"
proof -
  have "str_trim ''c'' = ''c''"
    by (simp add: str_trim_def strip_all.simps strip_one_def str_strip_prefix_def white_space_def)
  then have "sse_line_parse ''data: c'' = SseData ''c''"
    by (simp add: sse_line_parse_def str_strip_prefix_def)
  moreover have "cd_parse lifecycle_codec ''c'' = Some (lifecycle_json ''response.created'' ''in_progress'')"
    by (simp add: lifecycle_codec_def)
  moreover have "normalize_sse_value lifecycle_codec u (lifecycle_json ''response.created'' ''in_progress'') = Inr (Some quiet_frame)"
    by (simp add: lifecycle_normalize lifecycle_names quiet_frame_def)
  ultimately show ?thesis
    by (simp add: process_line_def normalize_sse_data_checked_def process_normalized_event_def process_event_checked_def
        capture_terminal_details_if_needed_def accumulator_with_validation_def announced_def)
      (simp add: quiet_frame_def lifecycle_frame_def)
qed

lemma quiet_translate:
  assumes "tc_response_tools ctx = None" "tc_custom_tool_map ctx = None" "tc_namespace_map ctx = None"
    "tc_tool_search_active ctx = False"
  shows "dispatcher_translate (ig_translator (ue_ingest quiet_env)) quiet_frame None (new_dispatcher ctx)
     = Inr (\<lparr>tl_frames = [quiet_frame], tl_defer_from = None\<rparr>, new_dispatcher ctx)"
  using assms
  by (simp add: dispatcher_translate_def quiet_frame_def lifecycle_frame_def validate_search_frame_def lifecycle_name_def
      track_native_tool_search_def route_def terminal_after_def restore_frame_def restore_stream_event_wire_def
      restore_response_tools_def restore_response_choice_def new_dispatcher_def dispatcher_defer_from_def min_option_def
      split: option.splits)

lemma quiet_push:
  assumes "ap_round ap = Some (new_round_ingestion i j Lenient ctx)"
    and "tc_response_tools ctx = None" "tc_custom_tool_map ctx = None" "tc_namespace_map ctx = None"
      "tc_tool_search_active ctx = False"
  shows "push_line (ue_ingest quiet_env) u (sse_line_parse ''data: c'') ap
     = Some (Inr (\<lparr>tl_frames = [quiet_frame], tl_defer_from = None\<rparr>, ap\<lparr>ap_round := Some \<lparr>ri_accumulator = announced i j,
         ri_body_kind = BodyStream, ri_translator = new_dispatcher ctx\<rparr>\<rparr>))"
proof -
  have "function_event_index (ef_payload quiet_frame) = None" by (simp add: quiet_frame_def lifecycle_frame_def)
  moreover have "tv_codec (ig_translator (ue_ingest quiet_env)) = lifecycle_codec" by (simp add: quiet_env_def)
  ultimately show ?thesis
    using assms(1) quiet_translate [OF assms(2-5)]
    by (simp add: push_line_def ingest_line_def translate_line_def new_round_ingestion_def quiet_line)
qed

lemma quiet_accept:
  assumes "sd_sending d" "sd_defer_from d = None" "sd_relay d = new_relay"
    and "de_emitter denv = ue_emitter quiet_env"
  shows "\<exists>d'. accept denv \<lparr>tl_frames = [quiet_frame], tl_defer_from = None\<rparr> d = (Inr (), d') \<and> rl_sent (sd_relay d') \<noteq> []"
proof -
  let ?f = "with_context_ids (de_context denv) quiet_frame"
  have frame: "ef_type quiet_frame = ResponseCreated" "ef_type ?f = ResponseCreated"
      "we_event_type (ef_wire ?f) = Some ''response.created''" "we_output_index (ef_wire ?f) = None"
    by (auto simp: quiet_frame_def lifecycle_frame_def with_context_ids_def apply_context_response_ids_def
        split: option.splits json.splits)
  have "\<exists>r. relay_event (\<lambda>_. Inr ''{}'') (\<lambda>_. True) k ?f new_relay = (Inr True, r) \<and> rl_sent r \<noteq> []" for k
    by (simp add: relay_event_def new_relay_def new_gateway_stream_def process_event_def stamp_event_simps frame
        emit_sse_frame_def frame_sequence_number_def checked_stream_event_def serialize_sse_frame_def max_stream_event_bytes_def
        filter_option_def newline_def carriage_return_def)
  then obtain r where "relay_event (\<lambda>_. Inr ''{}'') (\<lambda>_. True) (de_output_offset denv) ?f new_relay = (Inr True, r)" "rl_sent r \<noteq> []"
    by blast
  with assms show ?thesis
    by (simp add: accept_def accept_frame_def frame is_terminal_response_event_def emit_or_defer_stream_frame_def
        should_defer_stream_event_def emit_stream_frame_def quiet_env_def)
qed

lemma quiet_finish:
  "\<exists>payload. finish_ingestion (ue_ingest quiet_env) model previous instructions
     \<lparr>ri_accumulator = announced i j, ri_body_kind = BodyStream, ri_translator = new_dispatcher ctx\<rparr> = Inr payload"
proof -
  obtain payload where "accumulator_finish 0 model previous instructions (announced i j) = Inr payload"
    and "rp_output payload = []"
    by (simp add: accumulator_finish_def announced_def accumulator_with_validation_def finish_stream_def finalize_all_def
        accumulator_finalize_def drain_output_def empty_slot_map_def im_sort_keys_def map_filter_simps Let_def)
  moreover have "dispatcher_finish (new_dispatcher ctx) = Inr \<lparr>to_context = ctx, to_unfinished = {}\<rparr>"
    by (simp add: dispatcher_finish_def new_dispatcher_def unfinished_tool_search_item_ids_def new_search_stream_state_def Let_def
       map_filter_simps)
  ultimately show ?thesis
    by (simp add: finish_ingestion_def quiet_env_def normalize_response_payload_def normalize_response_output_def
        normalize_search_output_def of_tool_error_def split: sum.splits)
qed

lemma quiet_round:
  "\<exists>payload deferred b' r. fetch_upstream quiet_env None True quiet_context empty_registry 0 new_response_budget (Some new_relay)
     = (Inr (payload, deferred), b', Some r) \<and> rl_sent r \<noteq> []"
proof -
  let ?ap = "\<lparr>ap_request = quiet_context, ap_search = None, ap_delivery = delivery_of (Some new_relay), ap_round = None\<rparr>"
  let ?ctx = "translation_context_of empty_registry ?ap"
  let ?denv = "upstream_delivery_env quiet_env empty_registry 0 ?ap"
  obtain b1 where b1: "budget_consume new_response_budget (length ''data: c'') = Inr b1"
    by (simp add: budget_consume_eq new_response_budget_def max_executor_response_bytes_def)
  have ctx: "tc_response_tools ?ctx = None" "tc_custom_tool_map ?ctx = None" "tc_namespace_map ?ctx = None"
      "tc_tool_search_active ?ctx = False"
    by (simp_all add: translation_context_of_def empty_registry_def Let_def with_response_metadata_def with_gateway_owned_names_def
        new_translation_context_def quiet_context_def compaction_request_def public_response_tools_def)
  obtain d where accepted: "accept ?denv \<lparr>tl_frames = [quiet_frame], tl_defer_from = None\<rparr> (delivery_of (Some new_relay)) = (Inr (), d)"
    and sent: "rl_sent (sd_relay d) \<noteq> []"
    using quiet_accept [of "delivery_of (Some new_relay)" ?denv]
    by (auto simp: delivery_of_def new_stream_delivery_def upstream_delivery_env_def)
  let ?push = "push_line (ue_ingest quiet_env) (ig_draw (ue_ingest quiet_env) 0) (sse_line_parse ''data: c'')
      (?ap\<lparr>ap_round := Some (new_round_ingestion (rc_response_id quiet_context) (rc_conversation_id quiet_context) Lenient ?ctx)\<rparr>)"
  have push: "?push = Some (Inr (\<lparr>tl_frames = [quiet_frame], tl_defer_from = None\<rparr>,
      ?ap\<lparr>ap_round := Some \<lparr>ri_accumulator = announced (rc_response_id quiet_context) (rc_conversation_id quiet_context),
         ri_body_kind = BodyStream, ri_translator = new_dispatcher ?ctx\<rparr>\<rparr>))"
    by (subst quiet_push [OF _ ctx]) simp_all
  obtain f where finish: "\<And>model previous instructions i j ctx. finish_ingestion (ue_ingest quiet_env) model previous instructions
       \<lparr>ri_accumulator = announced i j, ri_body_kind = BodyStream, ri_translator = new_dispatcher ctx\<rparr>
     = Inr (f model previous instructions i j ctx)"
    using quiet_finish by metis
  obtain deferred d' where taken: "take_deferred_events d = (deferred, d')" and kept: "sd_relay d' = sd_relay d"
    by (simp add: take_deferred_events_def)
  have "fetch_stream_payload quiet_env empty_registry 0 new_response_budget ?ap =
      (Some (Inr (inject_ids quiet_context (f (rq_model (rc_enriched_request quiet_context))
          (rq_previous_response_id (rc_original_request quiet_context)) (rq_instructions (rc_original_request quiet_context))
          (rc_response_id quiet_context) (rc_conversation_id quiet_context) ?ctx), deferred)), b1,
        ?ap\<lparr>ap_delivery := d'\<rparr>)"
    using push accepted taken
    by (simp add: fetch_stream_payload_def quiet_reply quiet_lines run_with_stream_body_def begin_round_def b1 [simplified]
        finish_stream_body_def finish_round_def finish)
  then show ?thesis
    using sent kept by (simp add: fetch_upstream_def Let_def relay_of_def)
qed

theorem payload_does_not_depend_on_the_client_witness:
  "\<exists>payload deferred b' r.
     fetch_upstream quiet_env None True quiet_context empty_registry 0 new_response_budget (Some new_relay)
       = (Inr (payload, deferred), b', Some r) \<and> rl_sent r \<noteq> []
     \<and> fetch_upstream quiet_env None True quiet_context empty_registry 3 new_response_budget None = (Inr (payload, []), b', None)"
proof -
  obtain payload deferred b' r where
    round: "fetch_upstream quiet_env None True quiet_context empty_registry 0 new_response_budget (Some new_relay)
      = (Inr (payload, deferred), b', Some r)" and sent: "rl_sent r \<noteq> []"
    using quiet_round by blast
  from payload_does_not_depend_on_the_client [OF round] round sent show ?thesis by blast
qed

end
