(* ===== verification/Private_Calls.thy ===== *)
theory Private_Calls
  imports Ingest Dispatched
begin

text \<open>
  The calls of a round that the gateway runs itself, by the registry of the request: no event of
  such a call reaches the client. Which call an event belongs to is told from the events alone.
\<close>

section \<open>Who owns a call\<close>

text \<open>
  The names the registry gives to the gateway. While the tool search is active its reserved name
  means a search, whatever else is registered.
\<close>

definition owned_names :: "tool_registry \<Rightarrow> agent_pipeline \<Rightarrow> string set" where
  "owned_names reg ap =
     {name. is_gateway_owned_name reg name
        \<and> \<not> (name = tool_search_name \<and> (case ap_search ap of None \<Rightarrow> False | Some s \<Rightarrow> tss_active s))}"

definition item_name :: "json \<Rightarrow> string" where
  "item_name item = unwrap_or (Option.bind (json_get item ''name'') as_str) ''''"

text \<open>
  The name of the call at each output index after an event: an announced item brings its name; a
  call announced without one gets the name of the event that ends its arguments or itself; a call
  of the gateway leaves its index when it ends.
\<close>

definition name_call :: "string set \<Rightarrow> (u32 \<Rightarrow> string option) \<Rightarrow> event_frame \<Rightarrow> u32 \<Rightarrow> string option" where
  "name_call owned names f =
     (case ef_payload f of
        POutputItemAdded _ TyFunctionCall (Some k) (Some name) _ _ _ \<Rightarrow> names(k := Some name)
      | PFunctionCallArgsDone _ _ _ name (Some k) \<Rightarrow> names(k := Some (unwrap_or (names k) name))
      | POutputItemDone _ TyFunctionCall (Some k) item \<Rightarrow>
          (let name = unwrap_or (names k) (item_name item) in names(k := (if name \<in> owned then None else Some name)))
      | _ \<Rightarrow> names)"

definition call_names :: "string set \<Rightarrow> (event_frame \<times> accumulated_call option) list \<Rightarrow> u32 \<Rightarrow> string option" where
  "call_names owned inputs = fold (\<lambda>(f, _) names. name_call owned names f) inputs (\<lambda>_. None)"

text \<open>An event of a call with an owned name, at index \<open>k\<close>.\<close>

definition gateway_event :: "string set \<Rightarrow> (u32 \<Rightarrow> string option) \<Rightarrow> event_frame \<Rightarrow> u32 \<Rightarrow> bool" where
  "gateway_event owned names f k \<longleftrightarrow>
     (case ef_payload f of
        POutputItemAdded _ TyFunctionCall i (Some name) _ _ _ \<Rightarrow> i = Some k \<and> name \<in> owned
      | PFunctionCallArgsDelta _ _ _ i \<Rightarrow> i = Some k \<and> (\<exists>name \<in> owned. names k = Some name)
      | PFunctionCallArgsDone _ _ _ name i \<Rightarrow> i = Some k \<and> unwrap_or (names k) name \<in> owned
      | POutputItemDone _ TyFunctionCall i item \<Rightarrow> i = Some k \<and> unwrap_or (names k) (item_name item) \<in> owned
      | _ \<Rightarrow> False)"

lemma owned_without_translator:
  assumes "list_all owned_by_kind (tr_entries reg)" "name \<in> owned_names reg ap"
  shows "new_translator (translation_context_of reg ap) name = None"
proof -
  from assms(2) obtain e where e: "lookup reg name = Some e" "is_gateway (ty_ownership e)"
    by (auto simp: owned_names_def is_gateway_owned_name_def split: option.splits)
  then have "(name, e) \<in> set (tr_entries reg)" by (auto simp: lookup_def dest: im_get_SomeD)
  with assms(1) e(2) have kind: "type_is_gateway_owned (ty_tool_type e)"
    by (auto simp: list_all_iff owned_by_kind_def)
  have "im_get (map (\<lambda>(n, _). (n, registered_type reg n)) es) name = Some (registered_type reg name)"
    if "im_get es name = Some x" for es :: tool_entries and x
    using that by (induction es) (auto simp: im_get_def split: if_splits)
  then have "im_get (tool_classifications reg) name = Some (ty_tool_type e)"
    using e(1) by (simp add: tool_classifications_def lookup_def registered_type_def)
  moreover have "\<not> (tc_tool_search_active (translation_context_of reg ap) \<and> name = tool_search_name)"
    using assms(2) by (auto simp: owned_names_def translation_context_of_def Let_def with_response_metadata_def
        with_gateway_owned_names_def new_translation_context_def split: option.splits)
  ultimately have "context_tool_type (translation_context_of reg ap) name = ty_tool_type e"
    by (auto simp: context_tool_type_def translation_context_of_def Let_def with_response_metadata_def
        with_gateway_owned_names_def new_translation_context_def)
  with kind show ?thesis
    by (auto simp: new_translator_def type_is_gateway_owned_def split: tool_type.split)
qed

section \<open>The dispatcher follows the names\<close>

text \<open>Changes that neither start nor end a call.\<close>

definition same_calls :: "dispatcher \<Rightarrow> dispatcher \<Rightarrow> bool" where
  "same_calls d d' \<longleftrightarrow> dp_context d' = dp_context d
     \<and> (\<forall>k. (im_get (dp_active d') k = None \<longleftrightarrow> im_get (dp_active d) k = None)
          \<and> (im_get (dp_active d) k = Some GatewayCall \<longrightarrow> im_get (dp_active d') k = Some GatewayCall))"

lemma same_calls_refl [simp]: "same_calls d d"
  by (simp add: same_calls_def)

lemma same_calls_trans: "same_calls d d' \<Longrightarrow> same_calls d' d'' \<Longrightarrow> same_calls d d''"
  by (auto simp: same_calls_def)

lemma buffer_unnamed_same: "buffer_unnamed env item_id k f call d = Inr (fs, d') \<Longrightarrow> same_calls d d'"
  by (auto simp: buffer_unnamed_def Let_def same_calls_def elim!: and_then_InrE split: if_splits)

lemma translate_delta_same: "translate_delta env item_id k f call d = Inr (fs, d') \<Longrightarrow> same_calls d d'"
  by (auto simp: translate_delta_def same_calls_def dest: buffer_unnamed_same elim!: and_then_InrE
      split: option.splits active_call.splits prod.splits if_splits)

lemma replay_deltas_same: "replay_deltas env item_id call ps d = Inr (fs, d') \<Longrightarrow> same_calls d d'"
proof (induction ps arbitrary: d fs)
  case (Cons f ps)
  then show ?case
    by (auto elim!: and_then_InrE split: event_payload.splits prod.splits)
      (blast intro: same_calls_trans translate_delta_same)
qed simp

lemma take_pending_same: "take_pending k d = (fs, d') \<Longrightarrow> same_calls d d'"
  by (auto simp: take_pending_def same_calls_def split: option.splits)

text \<open>The call at one index after it got a name.\<close>

definition named_at :: "u32 \<Rightarrow> string \<Rightarrow> dispatcher \<Rightarrow> dispatcher \<Rightarrow> bool" where
  "named_at k name d d' \<longleftrightarrow> dp_context d' = dp_context d
     \<and> im_get (dp_active d') k \<noteq> None
     \<and> (new_translator (dp_context d) name = None \<longrightarrow> im_get (dp_active d') k = Some GatewayCall)
     \<and> (\<forall>j. j \<noteq> k \<longrightarrow> (im_get (dp_active d') j = None \<longleftrightarrow> im_get (dp_active d) j = None)
          \<and> (im_get (dp_active d) j = Some GatewayCall \<longrightarrow> im_get (dp_active d') j = Some GatewayCall))"

lemma start_call_named: "start_call env item_id name k original call d = Inr (fs, d') \<Longrightarrow> named_at k name d d'"
  by (auto simp: start_call_def named_at_def elim!: and_then_InrE split: option.splits prod.splits)

lemma named_at_same: "same_calls d0 d \<Longrightarrow> named_at k name d d' \<Longrightarrow> same_calls d' d'' \<Longrightarrow> named_at k name d0 d''"
  by (auto simp: named_at_def same_calls_def)

lemma resolve_pending_named:
  assumes "resolve_pending env item_id name k call d = Inr (fs, d')"
  shows "if im_get (dp_active d) k = None then named_at k name d d' else d' = d"
proof (cases "im_get (dp_active d) k")
  case None
  obtain ps d1 where taken: "take_pending k d = (ps, d1)" by fastforce
  with None assms obtain gs d2 hs where "start_call env item_id name k (find is_added_function ps) call d1 = Inr (gs, d2)"
      "replay_deltas env item_id call ps d2 = Inr (hs, d')"
    by (auto simp: resolve_pending_def elim!: and_then_InrE split: prod.splits)
  with None take_pending_same [OF taken] show ?thesis
    by (auto intro: named_at_same start_call_named replay_deltas_same)
next
  case (Some c)
  with assms show ?thesis by (simp add: resolve_pending_def)
qed

definition agrees :: "string set \<Rightarrow> (u32 \<Rightarrow> string option) \<Rightarrow> dispatcher \<Rightarrow> bool" where
  "agrees owned names d \<longleftrightarrow>
     (\<forall>name \<in> owned. new_translator (dp_context d) name = None)
     \<and> (\<forall>k. names k = None \<longrightarrow> im_get (dp_active d) k = None)
     \<and> (\<forall>k name. names k = Some name \<longrightarrow> name \<in> owned \<longrightarrow> im_get (dp_active d) k = Some GatewayCall)"

lemma agrees_same: "agrees owned names d \<Longrightarrow> same_calls d d' \<Longrightarrow> agrees owned names d'"
  by (simp add: agrees_def same_calls_def)

lemma agrees_named: "agrees owned names d \<Longrightarrow> named_at k name d d' \<Longrightarrow> agrees owned (names(k := Some name)) d'"
  by (auto simp: agrees_def named_at_def)

lemma agrees_resolved:
  assumes "agrees owned names d" "resolve_pending env item_id name k call d = Inr (fs, d')"
  shows "agrees owned (names(k := Some (unwrap_or (names k) name))) d'"
proof (cases "names k")
  case None
  with assms(1) have "im_get (dp_active d) k = None" by (simp add: agrees_def)
  with resolve_pending_named [OF assms(2)] None agrees_named [OF assms(1)] show ?thesis by simp
next
  case (Some n)
  then have same: "names(k := Some (unwrap_or (names k) name)) = names" by (simp add: fun_upd_idem)
  show ?thesis
  proof (cases "im_get (dp_active d) k")
    case None
    then have "named_at k name d d'" using resolve_pending_named [OF assms(2)] by simp
    moreover have "n \<notin> owned" using assms(1) Some None by (force simp: agrees_def)
    ultimately show ?thesis
      using assms(1) Some unfolding same agrees_def named_at_def by (metis option.distinct(1) option.inject)
  next
    case (Some c)
    then have "d' = d" using resolve_pending_named [OF assms(2)] by simp
    with assms(1) show ?thesis unfolding same by simp
  qed
qed

lemma finish_arguments_agrees:
  assumes "agrees owned names d" "finish_arguments env item_id name k f call d = Inr (fs, d')"
  shows "agrees owned (names(k := Some (unwrap_or (names k) name))) d'"
proof -
  from assms(2) obtain gs d1 where one: "resolve_pending env item_id name k call d = Inr (gs, d1)" and "same_calls d1 d'"
    by (auto simp: finish_arguments_def same_calls_def elim!: and_then_InrE split: option.splits active_call.splits prod.splits)
  with agrees_resolved [OF assms(1) one] show ?thesis by (blast intro: agrees_same)
qed

lemma finish_call_agrees:
  assumes "agrees owned names d" "finish_call env item_id name k f call d = Inr (fs, d')"
  shows "agrees owned (names(k := (if unwrap_or (names k) name \<in> owned then None else Some (unwrap_or (names k) name)))) d'"
proof -
  from assms(2) obtain gs d1 where one: "resolve_pending env item_id name k call d = Inr (gs, d1)"
    and others: "dp_context d' = dp_context d1" "\<And>j. j \<noteq> k \<Longrightarrow> im_get (dp_active d') j = im_get (dp_active d1) j"
    and ended: "im_get (dp_active d1) k = Some GatewayCall \<Longrightarrow> im_get (dp_active d') k = None"
    by (fastforce simp: finish_call_def Let_def elim!: and_then_InrE split: option.splits active_call.splits prod.splits if_splits)
  from agrees_resolved [OF assms(1) one] others ended show ?thesis
    by (auto simp: agrees_def)
qed

lemma route_agrees:
  assumes "agrees owned names d" "route env f call d = Inr (fs, d')"
  shows "agrees owned (name_call owned names f) d'"
proof -
  consider (added) item_id k name a b c where "ef_payload f = POutputItemAdded item_id TyFunctionCall (Some k) (Some name) a b c"
      "start_call env item_id name k (Some f) call d = Inr (fs, d')" "name_call owned names f = names(k := Some name)"
    | (arguments) a b item_id name k where "ef_payload f = PFunctionCallArgsDone a b item_id name (Some k)"
      "finish_arguments env item_id name k f call d = Inr (fs, d')"
      "name_call owned names f = names(k := Some (unwrap_or (names k) name))"
    | (item) item_id k j where "ef_payload f = POutputItemDone item_id TyFunctionCall (Some k) j"
      "finish_call env item_id (item_name j) k f call d = Inr (fs, d')"
      "name_call owned names f = names(k := (if unwrap_or (names k) (item_name j) \<in> owned then None
         else Some (unwrap_or (names k) (item_name j))))"
    | (other) "same_calls d d'" "name_call owned names f = names"
    using assms(2)
    by (auto simp: route_def name_call_def item_name_def resolved_index Let_def dest: buffer_unnamed_same translate_delta_same
        elim!: and_then_InrE split: event_payload.splits sse_item_type.splits option.splits)
  then show ?thesis
    by cases (use assms(1) in \<open>auto intro: agrees_named start_call_named finish_arguments_agrees agrees_same
      simp del: fun_upd_apply dest: finish_call_agrees\<close>)
qed

lemma translate_agrees:
  assumes "agrees owned names d" "dispatcher_translate env f call d = Inr (tr, d')"
  shows "agrees owned (name_call owned names f) d'"
proof -
  from assms(2) obtain search fs where
    "route env f call (d\<lparr>dp_search := search, dp_terminal := terminal_after (ef_type f) (dp_terminal d)\<rparr>) = Inr (fs, d')"
    by (auto simp: dispatcher_translate_def elim!: and_then_InrE split: prod.splits)
  with assms(1) show ?thesis by (intro route_agrees) (auto simp: agrees_def)
qed

lemma run_agrees:
  "agrees owned names d \<Longrightarrow> run_steps (dispatch_step env) d inputs = Inr d' \<Longrightarrow>
     agrees owned (fold (\<lambda>(f, _) names. name_call owned names f) inputs names) d'"
proof (induction inputs arbitrary: d names)
  case (Cons i inputs)
  obtain f call where i: "i = (f, call)" by force
  from run_steps_ConsD [OF Cons.prems(2)] obtain d1 where d1: "dispatch_step env d i = Inr d1"
      "run_steps (dispatch_step env) d1 inputs = Inr d'" by blast
  from d1(1) obtain tr where "dispatcher_translate env f call d = Inr (tr, d1)"
    by (auto simp: i dispatch_step_def result_simps)
  with Cons.IH [OF translate_agrees [OF Cons.prems(1)] d1(2)] show ?case by (simp add: i)
qed simp

lemma gateway_event_private:
  assumes "agrees owned names d" "gateway_event owned names f k"
  shows "private_event d f k"
proof -
  have named: "gateway_call d k name" if "unwrap_or (names k) name \<in> owned" for name
    using assms(1) that by (cases "names k") (auto simp: agrees_def gateway_call_def gateway_name_def)
  show ?thesis
    using assms named
    by (auto simp: gateway_event_def private_event_def item_name_def agrees_def gateway_name_def
        split: event_payload.splits sse_item_type.splits option.splits)
qed

section \<open>Nothing of them is sent\<close>

lemma new_dispatcher_agrees:
  "\<forall>name \<in> owned. new_translator ctx name = None \<Longrightarrow> agrees owned (\<lambda>_. None) (new_dispatcher ctx)"
  by (simp add: agrees_def new_dispatcher_def)

lemma built_owned_by_kind:
  fixes disc :: "('b, 'e) discovery"
  assumes "build_with_handlers_guarded disc tools b = Inr (reg, tools', b')"
  shows "list_all owned_by_kind (tr_entries reg)"
  using assms by (rule built_registry) (simp add: registration_ok_def)

text \<open>
  C8: The calls of the gateway stay private and hold the stream. Take the registry built for a
  request and the events of one of its rounds. An event of a call whose name the registry gives to
  the gateway (the reserved name of an active tool search apart), also one whose name only comes
  with that event, is translated to nothing; and from then on, whatever events follow, the
  dispatcher asks to hold back every output from that call's index on, or an earlier one. Which
  call an event belongs to is told from its index and the names of the events before it.
\<close>

theorem gateway_calls_stay_private:
  fixes disc :: "('b, 'e) discovery"
  assumes "build_with_handlers_guarded disc tools b = Inr (reg, tools', b')"
    and "run_steps (dispatch_step env) (new_dispatcher (translation_context_of reg ap)) inputs = Inr d"
    and "gateway_event (owned_names reg ap) (call_names (owned_names reg ap) inputs) f k"
    and "dispatcher_translate env f call d = Inr (tr, d')"
    and "run_steps (dispatch_step env) d' later = Inr d''"
  shows "tl_frames tr = [] \<and> (\<exists>j. dispatcher_defer_from d'' = Some j \<and> j \<le> k)"
proof -
  have "\<forall>name \<in> owned_names reg ap. new_translator (translation_context_of reg ap) name = None"
    using owned_without_translator [OF built_owned_by_kind [OF assms(1)]] by blast
  from run_agrees [OF new_dispatcher_agrees [OF this] assms(2)]
  have "agrees (owned_names reg ap) (call_names (owned_names reg ap) inputs) d" by (simp add: call_names_def)
  from private_events_hold_the_stream [OF assms(2) gateway_event_private [OF this assms(3)] assms(4,5)]
  show ?thesis .
qed

text \<open>A request with a web search: the model announces its call and streams the arguments.\<close>

lemma web_registry:
  obtains reg where "build_with_handlers_guarded local_discovery web_and_function 10 = Inr (reg, web_and_function, 10)"
    "is_gateway_owned_name reg ''web_search''" 
proof -
  have run: "tool_name_str (ftp_name (plain_function ''run'')) = ''run''"
    by (simp add: plain_function_def Abs_tool_name_inverse)
  have res: "resolve_namespace_members web_and_function = Inr web_and_function"
    by (simp add: web_and_function_def resolve_namespace_members_def)
  have "\<exists>reg. build_with_handlers_guarded local_discovery web_and_function 10 = Inr (reg, web_and_function, 10)
      \<and> is_gateway_owned_name reg ''web_search''"
    by (simp add: build_with_handlers_guarded_def res tool_result_def validate_server_labels_def mcp_labels_def
        validate_mcp_server_count_def max_mcp_servers_per_request_def)
       (simp add: web_and_function_def register_tool_def run tool_result_def build_namespace_map_def List.map_filter_simps
        is_gateway_owned_name_def lookup_def gateway_entry_def)
  with that show thesis by blast
qed

definition web_pipeline :: agent_pipeline where
  "web_pipeline = new_agent_pipeline quiet_context None True"

theorem gateway_calls_stay_private_witness:
  "\<exists>reg d tr d'. is_gateway_owned_name reg ''web_search''
    \<and> run_steps (dispatch_step (plain_text_env '''' JNull)) (new_dispatcher (translation_context_of reg web_pipeline))
        [(web_call_added, None)] = Inr d
    \<and> dispatcher_translate (plain_text_env '''' JNull) web_call_delta None d = Inr (tr, d')
    \<and> tl_frames tr = [] \<and> (\<exists>j. dispatcher_defer_from d' = Some j \<and> j \<le> 3)"
proof -
  let ?env = "plain_text_env '''' JNull"
  obtain reg where reg: "build_with_handlers_guarded local_discovery web_and_function 10 = Inr (reg, web_and_function, 10)"
    and web: "is_gateway_owned_name reg ''web_search''" by (rule web_registry)
  let ?ctx = "translation_context_of reg web_pipeline"
  have owned: "''web_search'' \<in> owned_names reg web_pipeline"
    using web by (simp add: owned_names_def tool_search_name_def)
  have none: "new_translator ?ctx ''web_search'' = None"
    by (rule owned_without_translator [OF built_owned_by_kind [OF reg] owned])
  have plain: "tc_withheld ?ctx = {}" "tc_tool_search_active ?ctx = False"
    by (simp_all add: translation_context_of_def web_pipeline_def new_agent_pipeline_def Let_def with_response_metadata_def
        with_gateway_owned_names_def new_translation_context_def)
  have "\<exists>tr d. dispatcher_translate ?env web_call_added None (new_dispatcher ?ctx) = Inr (tr, d)
      \<and> im_get (dp_active d) 3 = Some GatewayCall"
    using none plain
    by (simp add: web_call_added_def dispatcher_translate_def validate_search_frame_def lifecycle_name_def track_native_tool_search_def
        route_def new_dispatcher_def call_frame_def resolved_output_index_def is_withheld_function_def
        ensure_function_is_available_def of_tool_error_def context_tool_type_def terminal_after_def start_call_def)
  then obtain tr d where "dispatcher_translate ?env web_call_added None (new_dispatcher ?ctx) = Inr (tr, d)"
    and d: "im_get (dp_active d) 3 = Some GatewayCall" by blast
  then have run: "run_steps (dispatch_step ?env) (new_dispatcher ?ctx) [(web_call_added, None)] = Inr d"
    by (simp add: dispatch_step_def)
  have "gateway_event (owned_names reg web_pipeline) (call_names (owned_names reg web_pipeline) [(web_call_added, None)]) web_call_delta 3"
    using owned by (simp add: gateway_event_def call_names_def name_call_def web_call_added_def web_call_delta_def call_frame_def)
  moreover obtain tr' d' where delta: "dispatcher_translate ?env web_call_delta None d = Inr (tr', d')"
    using d by (simp add: dispatcher_translate_def validate_search_frame_def lifecycle_name_def track_native_tool_search_def
        route_def web_call_delta_def call_frame_def resolved_output_index_def translate_delta_def)
  moreover have "run_steps (dispatch_step ?env) d' [] = Inr d'" by simp
  ultimately show ?thesis
    using gateway_calls_stay_private [OF reg run _ delta] run web by blast
qed

end
