(* ===== verification/Spec2Isabelle.thy ===== *)
theory Spec2Isabelle
  imports Accumulator Conversation_Turns Request_Properties Translated_Commands Dispatched
    Searched Search_History Ingest Private_Calls
begin

text \<open>
  A verification development for the agentic stack: a server that puts stateful, tool-using
  conversations on top of an inference server. Its Rust sources are under \<open>src/crates\<close>; below,
  \<open>core\<close> stands for \<open>src/crates/agentic-server-core/src\<close>.

  The life of a turn. A request arrives with the id of an earlier response or of a conversation.
  The turn pipeline resolves it to the full history, from a session in memory or from the
  database, and lowers the history to what the model may see. The upstream server answers with a
  stream of events or one JSON body: transport cuts bytes into lines, normalization turns lines
  into typed frames, validation and the accumulator fold frames into output items. The gateway
  numbers and forwards events to the client. At the end the turn is persisted and published.

  Theories, in the order of their imports, and what each models.

  \<^item> \<open>Prelude\<close>, \<open>Index_Map\<close>, \<open>Json\<close>: machine integers, fallible computations, runs of a fallible
    step, the interfaces \<open>guarded_machine\<close> and \<open>byte_budget\<close>; insertion-ordered maps; JSON values.
  \<^item> \<open>Errors\<close> (\<open>core/executor/error.rs\<close>): error values and how callers see them.
  \<^item> \<open>Tool_Params\<close>, \<open>Items\<close>, \<open>Events\<close> (\<open>core/types\<close>, \<open>core/events/types.rs\<close>): tool declarations,
    conversation items, stream events and their wire form.
  \<^item> \<open>Normalize\<close>, \<open>Validate\<close> (\<open>core/events\<close>): from a line to a checked frame.
  \<^item> \<open>Proxy\<close>, \<open>Transport\<close> (\<open>core/proxy.rs\<close>, \<open>core/executor/inference.rs\<close>): header rules, the raw
    proxy, and bounded reading of upstream bodies.
  \<^item> \<open>Folding\<close>, \<open>Slots\<close>, \<open>Accumulator\<close> (\<open>core/executor/accumulator\<close>): items under construction,
    their slots and identities, the life cycle of a stream.
  \<^item> \<open>Pending_Calls\<close>, \<open>Compaction_Window\<close>, \<open>History\<close>: the protocol of tool calls, compacted
    history, and the lowering of history to model input.
  \<^item> \<open>Session\<close>, \<open>Session_Invariant\<close>, \<open>Session_Properties\<close> (\<open>core/executor/session.rs\<close>): sessions,
    groups, leases and retained checkpoints on one explicit store with its byte budgets.
  \<^item> \<open>Storage\<close>, \<open>Storage_Properties\<close> (\<open>core/storage\<close>): three tables, the statements on them and the
    two stores built from them.
  \<^item> \<open>Request\<close>, \<open>Turn\<close>, \<open>Turn_Properties\<close>, \<open>Conversation_Turns\<close> (\<open>core/executor/rehydrate.rs\<close>,
    \<open>persist.rs\<close>, \<open>modes\<close>): a whole turn on the session store and the database together.
  \<^item> \<open>Relay\<close> (\<open>core/executor/gateway_accumulator.rs\<close>, \<open>response_budget.rs\<close>): the event stream to the
    client.
  \<^item> \<open>Namespaces\<close>, \<open>Registry\<close> (\<open>core/tool/codex.rs\<close>, \<open>registry.rs\<close>): flat names of namespace
    members; the tools of a request with their owners, and discovered MCP tools.
  \<^item> \<open>Gateway\<close> (\<open>core/executor/gateway.rs\<close>): the calls of a round: planning, execution in any order
    of completion, lifecycle events, public items and what is fed back to the model.
  \<^item> \<open>Compaction\<close> (\<open>core/executor/compaction.rs\<close>): token estimates, the retained window, the summary.
  \<^item> \<open>Upstream_Request\<close> (\<open>core/types/request_response.rs\<close>, \<open>core/tool/normalize.rs\<close>): tools, history
    and tool choice as the inference server gets them; \<open>Offered\<close>: they agree with the registry.
  \<^item> \<open>Tool_Search\<close>, \<open>Tool_Search_Views\<close>, \<open>Search_History\<close>, \<open>Searched\<close> (\<open>core/tool/tool_search.rs\<close>):
    deferred definitions, the replay of searches, and what the model may see of them.
  \<^item> \<open>Search_Calls\<close>, \<open>Translators\<close>, \<open>Dispatcher\<close> (\<open>core/executor/translate\<close>,
    \<open>core/tool/tool_search.rs\<close>): calls of the tool search, the translator of each kind of call, and
    the dispatcher that routes every event of a round; \<open>Translated_Calls\<close>,
    \<open>Translated_Commands\<close>, \<open>Dispatched\<close>: what a client sees of a call and of a round.
  \<^item> \<open>Delivery\<close> (\<open>core/executor/pipeline/delivery.rs\<close>): deferring and releasing translated frames.
  \<^item> \<open>Ingest\<close> (\<open>core/executor/pipeline.rs\<close>, \<open>pipeline/ingest.rs\<close>, \<open>upstream.rs\<close>): one upstream
    round: sending the request, reading, assembling, translating and delivering the answer;
    \<open>Private_Calls\<close>: what the registry gives to the gateway stays away from the client.
  \<^item> \<open>Rounds\<close>, \<open>Execute\<close>, \<open>Rounds_Properties\<close>, \<open>Request_Properties\<close>
    (\<open>core/executor/engine.rs\<close>): the rounds of a request, a
    whole request with its persistence and chunks, and what they guarantee together.

  State and operations. A \<open>&mut self\<close> method becomes a function that returns the updated record;
  \<open>Result\<close> becomes a sum whose left side is the error, and \<open>?\<close> becomes \<open>and_then\<close>. Shared,
  reference-counted objects (checkpoints, sessions, leases) live in one store and are named by
  index, so that aliasing and dropping are explicit. Awaiting is sequencing; where tasks may
  interleave, the theorems speak of every reachable store. Byte strings are lists of bytes, so
  lengths are byte lengths.

  Parameters. Parsing and printing of JSON and derived (de)serializers are fields of the records
  \<open>codec\<close>, \<open>printers\<close> and \<open>text_codec\<close>; fresh identifiers are draws from a function; time is an
  argument; the sizes a serializer writes are the function \<open>writes\<close>; the HTTP client is the reply it
  gives; the channel to the client is the list of events it accepted. Each theorem that needs more
  of them names what it needs (for instance that the parser reads back what was printed) and has a
  witness with concrete functions.

  What the lemmas show. The component theories prove invariants of every operation (the slot map,
  the session store, the database), the functional behaviour of parsing and folding, and round
  trips of the wire and storage formats; the turn theories compose them: a stored turn is what the
  next request sees, memory and database agree, a conversation turn is a compare-and-swap.

  Bounds. The loops of the model recurse on their input; the byte loops of \<open>Transport\<close> and the
  trimming of \<open>Normalize\<close> have termination proofs by the length of the rest. The engine loop runs over
  the ten rounds of the source and its unreachable end is a value, proved never to be taken. No fuel
  is used.

  Not modelled. Process supervision, the command line, HTTP and WebSocket routing, connection
  pools and schema migration are I/O around libraries. MCP and web search clients are remote
  services, and the handlers over their results are parameters. The Messages API, a second front
  door that converts its requests and events to and from the ones modelled here, is left out.
\<close>

end
